(* ===== verification/Prelude.thy ===== *)
theory Prelude
  imports Main "HOL-Library.Word" "HOL-Library.Sublist"
begin

text \<open>
  Shared vocabulary of the development: the machine integers the Rust sources use, byte
  strings, and the few generic facts on lists that several components need.

  Rust's \<open>String\<close> and \<open>&str\<close> are sequences of UTF-8 bytes whose \<open>len()\<close> counts bytes; the
  model's \<open>string\<close> is a list of HOL's 8-bit characters, so \<open>length\<close> is that byte count and
  slicing is by byte index, as in the code.  \<open>usize\<close> lengths are \<open>nat\<close>; the \<open>u64\<close> and
  \<open>u32\<close> counters on which the code saturates, wraps or checks are words.
\<close>

type_synonym u8 = "8 word"
type_synonym u16 = "16 word"
type_synonym u32 = "32 word"
type_synonym u64 = "64 word"

named_theorems bounded_simps \<open>the size bounds the components keep\<close>

section \<open>Saturating and checked arithmetic\<close>

text \<open>\<open>u64::saturating_add\<close>, \<open>u64::checked_add\<close> and \<open>u64::saturating_sub\<close>.\<close>

definition sat_add64 :: "u64 \<Rightarrow> u64 \<Rightarrow> u64" where
  "sat_add64 a b = (if unat a + unat b < 2 ^ 64 then a + b else -1)"

definition checked_add64 :: "u64 \<Rightarrow> u64 \<Rightarrow> u64 option" where
  "checked_add64 a b = (if unat a + unat b < 2 ^ 64 then Some (a + b) else None)"

definition sat_sub64 :: "u64 \<Rightarrow> u64 \<Rightarrow> u64" where
  "sat_sub64 a b = (if b \<le> a then a - b else 0)"

lemma unat_max64: "unat (-1 :: u64) = 2 ^ 64 - 1"
  by (simp add: unsigned_minus_1_eq_mask mask_eq_exp_minus_1)

lemma unat_lt64: "unat a < 2 ^ 64" for a :: u64
  by (rule order_less_le_trans[OF unsigned_less]) simp

lemma unat_of_nat64: "n < 2 ^ 64 \<Longrightarrow> unat (of_nat n :: u64) = n"
  by (simp add: unat_of_nat take_bit_nat_eq_self)

lemma unat_add64: "unat a + unat b < 2 ^ 64 \<Longrightarrow> unat (a + b) = unat a + unat b"
  for a b :: u64
  by (simp add: unat_word_ariths)

lemma unat_sat_add64: "unat (sat_add64 a b) = min (unat a + unat b) (2 ^ 64 - 1)"
proof (cases "unat a + unat b < 2 ^ 64")
  case True
  then show ?thesis by (simp add: sat_add64_def unat_add64)
next
  case False
  then show ?thesis by (simp add: sat_add64_def unat_max64)
qed

lemma sat_add64_ge: "a \<le> sat_add64 a b"
  using unat_lt64[of a] by (simp add: word_le_nat_alt unat_sat_add64)

lemma checked_add64_Some:
  "checked_add64 a b = Some c \<longleftrightarrow> unat a + unat b < 2 ^ 64 \<and> c = a + b"
  by (auto simp: checked_add64_def)

lemma sat_add64_one_less: "a < -1 \<Longrightarrow> a < sat_add64 a 1"
  using unat_max64 by (simp add: word_less_nat_alt unat_sat_add64)

lemma unat_sat_sub64: "unat (sat_sub64 a b) = unat a - unat b"
  by (auto simp: sat_sub64_def unat_sub word_le_nat_alt)

section \<open>Decimal numbers\<close>

text \<open>What \<open>{}\<close> prints for an unsigned integer.\<close>

definition digit_char :: "nat \<Rightarrow> char" where
  "digit_char d = char_of (48 + d)"

fun show_nat :: "nat \<Rightarrow> string" where
  "show_nat n = (if n < 10 then [digit_char n] else show_nat (n div 10) @ [digit_char (n mod 10)])"

declare show_nat.simps [simp del]

text \<open>The value of a string of ASCII digits, read from the left.\<close>

definition is_digit :: "char \<Rightarrow> bool" where
  "is_digit c \<longleftrightarrow> 48 \<le> (of_char c :: nat) \<and> (of_char c :: nat) \<le> 57"

definition digits_value :: "string \<Rightarrow> nat" where
  "digits_value s = foldl (\<lambda>a c. a * 10 + (of_char c - 48)) 0 s"

lemma of_digit_char [simp]: "d < 10 \<Longrightarrow> of_char (digit_char d) = 48 + d"
  by (simp add: digit_char_def)

lemma show_nat_digits: "show_nat n \<noteq> [] \<and> list_all is_digit (show_nat n)"
proof (induction n rule: show_nat.induct)
  case (1 n)
  then show ?case
    by (cases "n < 10") (auto simp: show_nat.simps[of n] is_digit_def)
qed

lemma digits_value_snoc: "digits_value (s @ [c]) = digits_value s * 10 + (of_char c - 48)"
  by (simp add: digits_value_def)

lemma digits_value_show_nat [simp]: "digits_value (show_nat n) = n"
proof (induction n rule: show_nat.induct)
  case (1 n)
  then show ?case
    by (cases "n < 10")
      (auto simp: show_nat.simps[of n] digits_value_snoc, simp add: digits_value_def)
qed

section \<open>Ordered sets\<close>

text \<open>
  \<open>BTreeSet\<close> as the sorted list of its elements: \<open>insert\<close> is \<open>insort_insert\<close>, \<open>remove\<close> is
  \<open>remove1\<close>, and iteration is in list order.
\<close>

definition btree_set :: "'a::linorder list \<Rightarrow> bool" where
  "btree_set xs \<longleftrightarrow> sorted xs \<and> distinct xs"

lemma btree_set_Nil [simp]: "btree_set []"
  by (simp add: btree_set_def)

lemma btree_set_insert [simp]: "btree_set xs \<Longrightarrow> btree_set (insort_insert x xs)"
  by (simp add: btree_set_def sorted_insort_insert distinct_insort_insert)

lemma btree_set_remove [simp]: "btree_set xs \<Longrightarrow> btree_set (remove1 x xs)"
  by (simp add: btree_set_def sorted_remove1)

lemma set_btree_remove [simp]: "btree_set xs \<Longrightarrow> set (remove1 x xs) = set xs - {x}"
  by (simp add: btree_set_def)

lemma length_insort_insert_le: "length (insort_insert x xs) \<le> Suc (length xs)"
  by (simp add: insort_insert_key_def)

lemma length_remove1_le: "length (remove1 x xs) \<le> length xs"
  by (simp add: length_remove1)

section \<open>The longest suffix within a bound\<close>

text \<open>
  Several components keep a bounded tail of a growing sequence: they append and then drop
  from the front until a bound holds again.  \<open>bounded_suffix B xs\<close> is the longest suffix
  of \<open>xs\<close> that satisfies \<open>B\<close>.
\<close>

primrec bounded_suffix :: "('a list \<Rightarrow> bool) \<Rightarrow> 'a list \<Rightarrow> 'a list" where
  "bounded_suffix B [] = []"
| "bounded_suffix B (x # xs) = (if B (x # xs) then x # xs else bounded_suffix B xs)"

lemma suffix_bounded_suffix: "suffix (bounded_suffix B xs) xs"
  by (induction xs) (auto intro: suffix_ConsI)

lemma bounded_suffix_holds: "B [] \<Longrightarrow> B (bounded_suffix B xs)" for B :: "'a list \<Rightarrow> bool"
  by (induction xs) auto

lemma bounded_suffix_id [simp]: "B xs \<Longrightarrow> bounded_suffix B xs = xs"
  by (cases xs) auto

lemma bounded_suffix_longest: "suffix ys xs \<Longrightarrow> B ys \<Longrightarrow> suffix ys (bounded_suffix B xs)"
proof (induction xs)
  case Nil
  then show ?case by simp
next
  case (Cons x xs)
  then show ?case by (auto simp: suffix_Cons)
qed

lemma bounded_suffix_unique:
  assumes "suffix zs xs" "B zs" "\<And>ys. suffix ys xs \<Longrightarrow> B ys \<Longrightarrow> length ys \<le> length zs"
  shows "bounded_suffix B xs = zs"
proof -
  obtain us where us: "bounded_suffix B xs = us @ zs"
    using bounded_suffix_longest[of zs xs B] assms(1,2) by (auto simp: suffix_def)
  show ?thesis
  proof (cases "B (bounded_suffix B xs)")
    case True
    then have "length (bounded_suffix B xs) \<le> length zs"
      by (rule assms(3)[OF suffix_bounded_suffix])
    with us show ?thesis by simp
  next
    case False
    have "B (bounded_suffix B xs) \<or> bounded_suffix B xs = []"
      by (induction xs) auto
    with False us show ?thesis by auto
  qed
qed

text \<open>
  A bound that holds of every contiguous part of a list that satisfies it.  Trimming in
  several steps is then the same as trimming once at the end.
\<close>

definition infix_closed :: "('a list \<Rightarrow> bool) \<Rightarrow> bool" where
  "infix_closed B \<longleftrightarrow> B [] \<and> (\<forall>xs ys zs. B (xs @ ys @ zs) \<longrightarrow> B ys)"

lemma infix_closedI:
  "B [] \<Longrightarrow> (\<And>xs ys zs. B (xs @ ys @ zs) \<Longrightarrow> B ys) \<Longrightarrow> infix_closed B"
  by (auto simp: infix_closed_def)

lemma infix_closedD: "infix_closed B \<Longrightarrow> B (xs @ ys @ zs) \<Longrightarrow> B ys"
  by (auto simp: infix_closed_def)

lemma infix_closed_Nil: "infix_closed B \<Longrightarrow> B []"
  by (simp add: infix_closed_def)

lemma bounded_suffix_append:
  assumes "infix_closed B"
  shows "bounded_suffix B (bounded_suffix B xs @ ys) = bounded_suffix B (xs @ ys)"
proof (induction xs)
  case Nil
  then show ?case by simp
next
  case (Cons x xs)
  show ?case
  proof (cases "B (x # xs)")
    case True
    then show ?thesis by simp
  next
    case False
    then have "\<not> B (x # xs @ ys)"
      using infix_closedD[OF assms, of "[]" "x # xs" ys] by auto
    with False Cons.IH show ?thesis by simp
  qed
qed

section \<open>Interface: a bounded tail\<close>

text \<open>
  The contract the logs, capture buffers and event queues of the program share: an
  operation appends what it is given and then keeps the longest suffix within the bound.
  \<open>appended s c\<close> is what the operation appends in state \<open>s\<close>.
\<close>

locale bounded_tail =
  fixes push :: "'s \<Rightarrow> 'c \<Rightarrow> 's"
    and contents :: "'s \<Rightarrow> 'a list"
    and appended :: "'s \<Rightarrow> 'c \<Rightarrow> 'a list"
    and bound :: "'a list \<Rightarrow> bool"
    and inv :: "'s \<Rightarrow> bool"
  assumes push_contents:
      "inv s \<Longrightarrow> contents (push s c) = bounded_suffix bound (contents s @ appended s c)"
    and inv_push: "inv s \<Longrightarrow> inv (push s c)"
    and inv_bound: "inv s \<Longrightarrow> bound (contents s)"
    and bound_closed: "infix_closed bound"
begin

text \<open>Everything a run of operations appends, in order.\<close>

primrec history :: "'s \<Rightarrow> 'c list \<Rightarrow> 'a list" where
  "history s [] = []"
| "history s (c # cs) = appended s c @ history (push s c) cs"

lemma inv_run: "inv s \<Longrightarrow> inv (foldl push s cs)"
  by (induction cs arbitrary: s) (auto simp: inv_push)

lemma bound_run: "inv s \<Longrightarrow> bound (contents (foldl push s cs))"
  by (simp add: inv_run inv_bound)

lemma run_contents:
  "inv s \<Longrightarrow> contents (foldl push s cs) = bounded_suffix bound (contents s @ history s cs)"
proof (induction cs arbitrary: s)
  case Nil
  then show ?case by (simp add: inv_bound)
next
  case (Cons c cs)
  have "contents (foldl push (push s c) cs)
      = bounded_suffix bound (contents (push s c) @ history (push s c) cs)"
    using Cons.prems by (intro Cons.IH inv_push)
  then show ?case
    using Cons.prems by (simp add: push_contents bounded_suffix_append[OF bound_closed])
qed

lemma run_suffix:
  "inv s \<Longrightarrow> suffix (contents (foldl push s cs)) (contents s @ history s cs)"
  by (simp add: run_contents suffix_bounded_suffix)

lemma push_keeps_newest:
  "inv s \<Longrightarrow> bound (appended s c) \<Longrightarrow> suffix (appended s c) (contents (push s c))"
  by (simp add: push_contents bounded_suffix_longest suffixI)

end

text \<open>The bound "at most \<open>n\<close> items" and the list operation that establishes it.\<close>

lemma infix_closed_length: "infix_closed (\<lambda>xs. length xs \<le> n)"
  by (auto intro!: infix_closedI)

lemma bounded_suffix_length: "bounded_suffix (\<lambda>xs. length xs \<le> n) xs = drop (length xs - n) xs"
  by (induction xs) (auto simp: Suc_diff_le not_le)

section \<open>Results\<close>

text \<open>
  Rust's \<open>Result<T, E>\<close> is \<open>'e + 'a\<close> with \<open>Inl\<close> for \<open>Err\<close>.  \<open>rbind\<close> is the \<open>?\<close> operator,
  \<open>rmap\<close> is \<open>into_iter().map(f).collect::<Result<Vec<_>, _>>()\<close>, which stops at the first
  error, and \<open>or_err\<close> is \<open>ok_or\<close>.
\<close>

definition rbind :: "'e + 'a \<Rightarrow> ('a \<Rightarrow> 'e + 'b) \<Rightarrow> 'e + 'b" where
  "rbind m f = (case m of Inl e \<Rightarrow> Inl e | Inr x \<Rightarrow> f x)"

definition map_err :: "('e \<Rightarrow> 'f) \<Rightarrow> 'e + 'a \<Rightarrow> 'f + 'a" where
  "map_err f m = (case m of Inl e \<Rightarrow> Inl (f e) | Inr x \<Rightarrow> Inr x)"

definition or_err :: "'e \<Rightarrow> 'a option \<Rightarrow> 'e + 'a" where
  "or_err e m = (case m of None \<Rightarrow> Inl e | Some x \<Rightarrow> Inr x)"

definition require :: "bool \<Rightarrow> 'e \<Rightarrow> 'e + unit" where
  "require b e = (if b then Inr () else Inl e)"

fun rmap :: "('a \<Rightarrow> 'e + 'b) \<Rightarrow> 'a list \<Rightarrow> 'e + 'b list" where
  "rmap f [] = Inr []"
| "rmap f (x # xs) = rbind (f x) (\<lambda>y. rbind (rmap f xs) (\<lambda>ys. Inr (y # ys)))"

definition ok :: "'e + 'a \<Rightarrow> 'a option" where
  "ok m = (case m of Inl _ \<Rightarrow> None | Inr x \<Rightarrow> Some x)"

lemma rbind_simps [simp]: "rbind (Inl e) f = Inl e" "rbind (Inr x) f = f x"
  by (simp_all add: rbind_def)

lemma rbind_Inr: "rbind m f = Inr y \<longleftrightarrow> (\<exists>x. m = Inr x \<and> f x = Inr y)"
  by (cases m) auto

lemma rbind_Inl: "rbind m f = Inl e \<longleftrightarrow> m = Inl e \<or> (\<exists>x. m = Inr x \<and> f x = Inl e)"
  by (cases m) auto

lemma map_err_Inr: "map_err f m = Inr y \<longleftrightarrow> m = Inr y"
  by (cases m) (auto simp: map_err_def)

lemma or_err_Inr: "or_err e m = Inr y \<longleftrightarrow> m = Some y"
  by (cases m) (auto simp: or_err_def)

lemma require_Inr: "require b e = Inr u \<longleftrightarrow> b"
  by (auto simp: require_def)

lemma require_simps [simp]: "require True e = Inr ()" "require False e = Inl e"
  by (simp_all add: require_def)

lemma ok_simps [simp]: "ok (Inl e) = None" "ok (Inr x) = Some x"
  by (simp_all add: ok_def)

lemmas result_Inr = rbind_Inr map_err_Inr or_err_Inr require_Inr

lemma rmap_Inr: "rmap f xs = Inr ys \<longleftrightarrow> list_all2 (\<lambda>x y. f x = Inr y) xs ys"
proof (induction xs arbitrary: ys)
  case Nil
  then show ?case by auto
next
  case (Cons x xs)
  then show ?case by (cases ys) (auto simp: rbind_Inr)
qed

lemma rmap_Inr_set: "rmap f xs = Inr ys \<Longrightarrow> y \<in> set ys \<Longrightarrow> \<exists>x \<in> set xs. f x = Inr y"
  by (auto simp: rmap_Inr list_all2_conv_all_nth in_set_conv_nth; metis nth_mem)

lemma rmap_Inr_length: "rmap f xs = Inr ys \<Longrightarrow> length ys = length xs"
  by (auto simp: rmap_Inr dest: list_all2_lengthD)

lemma rmap_cong_Inr [simp]: "rmap Inr xs = Inr xs"
  by (induction xs) auto

lemma list_all2_Inr_set:
  "list_all2 (\<lambda>x y. f x = Inr y) xs ys \<Longrightarrow> (\<exists>x \<in> set xs. f x = Inr y) \<longleftrightarrow> y \<in> set ys"
  by (induction rule: list_all2_induct) auto

lemma if_Some_None: "((if c then Some x else m) = None) \<longleftrightarrow> \<not> c \<and> m = None"
  by simp

lemma rbind_Inr_right [simp]: "rbind m Inr = m"
  by (cases m) simp_all

lemma find_key: "distinct (map f xs) \<Longrightarrow> x \<in> set xs \<Longrightarrow> find (\<lambda>y. f y = f x) xs = Some x"
  by (induction xs) (auto simp: rev_image_eqI)

end
