(* ===== verification/Paths.thy ===== *)
theory Paths
  imports Prelude "HOL-Library.Char_ord" "HOL-Library.List_Lexorder" "HOL-Library.Product_Lexorder"
begin

text \<open>
  Paths of Rust's standard library as the lists of their components, with the operations the
  program uses, and the parts of the operating system the program asks about paths.  The
  file system is an argument of every definition that consults it: a record of the results
  of \<open>canonicalize\<close>, \<open>exists\<close> and \<open>symlink_metadata\<close>.
\<close>

section \<open>Components and their order\<close>

text \<open>\<open>std::path::Component\<close>, in the order of its derived \<open>Ord\<close>.\<close>

datatype component = Prefix string | RootDir | CurDir | ParentDir | Normal string

type_synonym path = "component list"

fun component_key :: "component \<Rightarrow> nat \<times> string" where
  "component_key (Prefix s) = (0, s)"
| "component_key RootDir = (1, [])"
| "component_key CurDir = (2, [])"
| "component_key ParentDir = (3, [])"
| "component_key (Normal s) = (4, s)"

lemma component_key_inj: "component_key a = component_key b \<longleftrightarrow> a = b"
  by (cases a; cases b) auto

instantiation component :: linorder
begin

definition less_eq_component :: "component \<Rightarrow> component \<Rightarrow> bool" where
  "a \<le> b \<longleftrightarrow> component_key a \<le> component_key b"

definition less_component :: "component \<Rightarrow> component \<Rightarrow> bool" where
  "a < b \<longleftrightarrow> component_key a < component_key b"

instance
proof
  fix x y z :: component
  show "x < y \<longleftrightarrow> x \<le> y \<and> \<not> y \<le> x"
    by (auto simp: less_component_def less_eq_component_def)
  show "x \<le> x" by (simp add: less_eq_component_def)
  show "x \<le> y \<Longrightarrow> y \<le> z \<Longrightarrow> x \<le> z" by (auto simp: less_eq_component_def)
  show "x \<le> y \<Longrightarrow> y \<le> x \<Longrightarrow> x = y"
    by (auto simp: less_eq_component_def component_key_inj dest: order_antisym)
  show "x \<le> y \<or> y \<le> x" by (auto simp: less_eq_component_def)
qed

end

section \<open>Operations on paths\<close>

text \<open>\<open>Path::starts_with\<close> compares whole components.\<close>

definition path_starts_with :: "path \<Rightarrow> path \<Rightarrow> bool" where
  "path_starts_with p base \<longleftrightarrow> prefix base p"

definition file_name :: "path \<Rightarrow> string option" where
  "file_name p = (if p = [] then None else case last p of Normal s \<Rightarrow> Some s | _ \<Rightarrow> None)"

definition parent :: "path \<Rightarrow> path option" where
  "parent p =
     (if p = [] then None
      else case last p of Prefix _ \<Rightarrow> None | RootDir \<Rightarrow> None | _ \<Rightarrow> Some (butlast p))"

definition is_absolute :: "path \<Rightarrow> bool" where
  "is_absolute p \<longleftrightarrow> (case p of RootDir # _ \<Rightarrow> True | Prefix _ # RootDir # _ \<Rightarrow> True | _ \<Rightarrow> False)"

text \<open>\<open>Path::join\<close> replaces the base when the joined path has a root or a prefix.\<close>

definition join :: "path \<Rightarrow> path \<Rightarrow> path" where
  "join base p = (case p of RootDir # _ \<Rightarrow> p | Prefix _ # _ \<Rightarrow> p | _ \<Rightarrow> base @ p)"

definition join_name :: "path \<Rightarrow> string \<Rightarrow> path" where
  "join_name base s = base @ [Normal s]"

lemma join_name_file_name [simp]: "file_name (join_name p s) = Some s"
  by (simp add: file_name_def join_name_def)

lemma parent_join_name [simp]: "parent (join_name p s) = Some p"
  by (simp add: parent_def join_name_def)

lemma starts_with_refl [simp]: "path_starts_with p p"
  by (simp add: path_starts_with_def)

lemma starts_with_join_name: "path_starts_with p r \<Longrightarrow> path_starts_with (join_name p s) r"
  by (auto simp: path_starts_with_def join_name_def prefix_def)

lemma starts_with_trans:
  "path_starts_with p q \<Longrightarrow> path_starts_with q r \<Longrightarrow> path_starts_with p r"
  by (auto simp: path_starts_with_def intro: prefix_order.trans)

lemma path_starts_with_code [code]:
  "path_starts_with p base = (take (length base) p = base)"
  by (metis append_eq_conv_conj path_starts_with_def prefixE prefixI append_take_drop_id)

section \<open>The file system\<close>

datatype file_kind = Directory | RegularFile | Symlink | OtherFile

record filesystem =
  fs_canonicalize :: "path \<Rightarrow> string + path"
  fs_exists :: "path \<Rightarrow> bool"
  fs_symlink_metadata :: "path \<Rightarrow> string + file_kind"
  fs_display :: "path \<Rightarrow> string"
  fs_from_str :: "string \<Rightarrow> path"

section \<open>Sorting and removing duplicates by path\<close>

text \<open>\<open>Vec::dedup_by\<close> drops an element when it equals the last one kept.\<close>

fun dedup_key :: "('a \<Rightarrow> 'k) \<Rightarrow> 'a list \<Rightarrow> 'a list" where
  "dedup_key k [] = []"
| "dedup_key k [x] = [x]"
| "dedup_key k (x # y # ys) =
     (if k x = k y then dedup_key k (x # ys) else x # dedup_key k (y # ys))"

lemma dedup_key_set: "set (dedup_key k xs) \<subseteq> set xs"
  by (induction k xs rule: dedup_key.induct) auto

lemma dedup_key_keys: "k ` set (dedup_key k xs) = k ` set xs"
  by (induction k xs rule: dedup_key.induct) auto

lemma dedup_key_hd: "xs \<noteq> [] \<Longrightarrow> dedup_key k xs \<noteq> [] \<and> hd (dedup_key k xs) = hd xs"
  by (induction k xs rule: dedup_key.induct) auto

lemma dedup_key_sorted_distinct:
  fixes k :: "'a \<Rightarrow> 'k::linorder"
  shows "sorted (map k xs) \<Longrightarrow> sorted (map k (dedup_key k xs)) \<and> distinct (map k (dedup_key k xs))"
proof (induction k xs rule: dedup_key.induct)
  case (1 k)
  then show ?case by simp
next
  case (2 k x)
  then show ?case by simp
next
  case (3 k x y ys)
  show ?case
  proof (cases "k x = k y")
    case True
    with 3 show ?thesis by simp
  next
    case False
    have IH: "sorted (map k (dedup_key k (y # ys)))" "distinct (map k (dedup_key k (y # ys)))"
      using False 3 by auto
    have "k x < k z" if "z \<in> set (dedup_key k (y # ys))" for z
      using that dedup_key_set[of k "y # ys"] 3(3) False by force
    note less = this
    have "k x \<notin> k ` set (dedup_key k (y # ys))"
    proof
      assume "k x \<in> k ` set (dedup_key k (y # ys))"
      then obtain z where "z \<in> set (dedup_key k (y # ys))" "k x = k z" by auto
      with less[of z] show False by simp
    qed
    with less False IH show ?thesis by (auto simp: less_imp_le)
  qed
qed

text \<open>Of the elements with one key the first is kept.\<close>

lemma find_hd_filter: "find P xs = (case filter P xs of [] \<Rightarrow> None | x # _ \<Rightarrow> Some x)"
  by (induction xs) auto

lemma find_dedup_key: "find (\<lambda>x. k x = c) (dedup_key k xs) = find (\<lambda>x. k x = c) xs"
  by (induction k xs rule: dedup_key.induct) auto

lemma find_sort_key: "find (\<lambda>x. k x = c) (sort_key k xs) = find (\<lambda>x. k x = c) xs"
  by (simp add: find_hd_filter sort_key_stable)

section \<open>Extensions\<close>

text \<open>\<open>file_stem\<close>: the name up to its last dot, the whole name if that dot is its first byte.\<close>

definition name_stem :: "string \<Rightarrow> string" where
  "name_stem s =
     (let extension = takeWhile (\<lambda>c. c \<noteq> CHR 0x2E) (rev s);
          before = rev (drop (Suc (length extension)) (rev s))
      in if length extension = length s \<or> before = [] then s else before)"

definition with_extension :: "path \<Rightarrow> string \<Rightarrow> path" where
  "with_extension p ext =
     (case file_name p of None \<Rightarrow> p
      | Some s \<Rightarrow> butlast p @ [Normal (name_stem s @ (if ext = [] then [] else CHR 0x2E # ext))])"

end
