(* ===== verification/Btree.thy ===== *)
theory Btree
  imports Prelude
begin

text \<open>
  \<open>BTreeMap\<close> of Rust's standard library: a map iterated in the order of its keys, here the
  list of its entries in strictly increasing order of the keys.  The contract of a map with
  insertion is the locale \<open>insert_map\<close>; what the clients need of repeated insertion is proved
  there once, and \<open>btree_insert\<close> discharges the contract.
\<close>

section \<open>Entries in key order\<close>

type_synonym ('k, 'v) btree_map = "('k \<times> 'v) list"

definition btree :: "('k::linorder, 'v) btree_map \<Rightarrow> bool" where
  "btree m \<longleftrightarrow> sorted (map fst m) \<and> distinct (map fst m)"

fun btree_insert :: "'k::linorder \<Rightarrow> 'v \<Rightarrow> ('k, 'v) btree_map \<Rightarrow> ('k, 'v) btree_map" where
  "btree_insert k v [] = [(k, v)]"
| "btree_insert k v ((k', v') # m) =
     (if k < k' then (k, v) # (k', v') # m
      else if k = k' then (k, v) # m
      else (k', v') # btree_insert k v m)"

text \<open>\<open>entry(k).or_insert_with(..)\<close>\<close>

definition btree_or_insert :: "'k::linorder \<Rightarrow> 'v \<Rightarrow> ('k, 'v) btree_map \<Rightarrow> ('k, 'v) btree_map" where
  "btree_or_insert k v m = (case map_of m k of None \<Rightarrow> btree_insert k v m | Some _ \<Rightarrow> m)"

definition btree_remove :: "'k \<Rightarrow> ('k, 'v) btree_map \<Rightarrow> ('k, 'v) btree_map" where
  "btree_remove k m = filter (\<lambda>e. fst e \<noteq> k) m"

lemma map_of_btree_insert: "map_of (btree_insert k v m) = (map_of m)(k \<mapsto> v)"
  by (induction k v m rule: btree_insert.induct) (auto simp: fun_eq_iff)

lemma dom_btree_insert: "dom (map_of (btree_insert k v m)) = insert k (dom (map_of m))"
  by (simp add: map_of_btree_insert)

lemma btree_insert_keys: "fst ` set (btree_insert k v m) = insert k (fst ` set m)"
  by (induction k v m rule: btree_insert.induct) auto

lemma btree_Nil [simp]: "btree []"
  by (simp add: btree_def)

lemma btree_Cons: "btree (e # m) \<longleftrightarrow> (\<forall>e' \<in> set m. fst e < fst e') \<and> btree m"
  by (auto simp: btree_def order_less_le image_iff)

lemma btree_btree_insert: "btree m \<Longrightarrow> btree (btree_insert k v m)"
proof (induction k v m rule: btree_insert.induct)
  case (2 k v k' v' m)
  show ?case
  proof (cases "k \<le> k'")
    case True
    with 2 show ?thesis by (auto simp: btree_Cons)
  next
    case False
    have "k' < fst e" if "e \<in> set (btree_insert k v m)" for e
    proof -
      from that have "fst e \<in> insert k (fst ` set m)"
        using btree_insert_keys by (metis image_eqI)
      with False 2(2) show ?thesis by (auto simp: btree_Cons)
    qed
    with False 2 show ?thesis by (auto simp: btree_Cons)
  qed
qed (simp add: btree_Cons)

lemma btree_or_insert: "btree m \<Longrightarrow> btree (btree_or_insert k v m)"
  by (simp add: btree_or_insert_def btree_btree_insert split: option.split)

lemma map_of_btree_or_insert:
  "map_of (btree_or_insert k v m) =
     (case map_of m k of None \<Rightarrow> (map_of m)(k \<mapsto> v) | Some _ \<Rightarrow> map_of m)"
  by (simp add: btree_or_insert_def map_of_btree_insert split: option.split)

lemma btree_remove: "btree m \<Longrightarrow> btree (btree_remove k m)"
  by (simp add: btree_def btree_remove_def distinct_map_filter sorted_filter)

lemma map_of_btree_remove: "map_of (btree_remove k m) = (map_of m)(k := None)"
  by (induction m) (auto simp: btree_remove_def fun_eq_iff)

lemma btree_map_of_set: "btree m \<Longrightarrow> map_of m k = Some v \<longleftrightarrow> (k, v) \<in> set m"
  by (simp add: btree_def)

lemma btree_eqI: "btree m \<Longrightarrow> btree n \<Longrightarrow> map_of m = map_of n \<Longrightarrow> m = n"
proof -
  assume m: "btree m" and n: "btree n" and eq: "map_of m = map_of n"
  have "set m = set n"
    using btree_map_of_set[OF m] btree_map_of_set[OF n] eq by (auto simp: set_eq_iff)
  moreover have "inj_on fst (set m \<union> set m)" using m by (simp add: btree_def distinct_map)
  ultimately show "m = n"
    using m n by (auto simp: btree_def intro: map_sorted_distinct_set_unique)
qed

section \<open>The contract of insertion\<close>

locale insert_map =
  fixes insert_at :: "'k \<Rightarrow> 'v \<Rightarrow> 'm \<Rightarrow> 'm"
    and look :: "'m \<Rightarrow> 'k \<Rightarrow> 'v option"
    and ok_map :: "'m \<Rightarrow> bool"
  assumes look_insert: "ok_map m \<Longrightarrow> look (insert_at k v m) = (look m)(k \<mapsto> v)"
    and ok_insert: "ok_map m \<Longrightarrow> ok_map (insert_at k v m)"
begin

text \<open>Insert a list of entries in order; a later entry replaces an earlier one.\<close>

primrec insert_all :: "('k \<times> 'v) list \<Rightarrow> 'm \<Rightarrow> 'm" where
  "insert_all [] m = m"
| "insert_all (e # es) m = insert_all es (insert_at (fst e) (snd e) m)"

lemma insert_all_ok: "ok_map m \<Longrightarrow> ok_map (insert_all es m)"
  by (induction es arbitrary: m) (auto intro: ok_insert)

lemma look_insert_all: "ok_map m \<Longrightarrow> look (insert_all es m) = look m ++ map_of (rev es)"
proof (induction es arbitrary: m)
  case (Cons e es)
  then have "look (insert_all (e # es) m) = (look m)(fst e \<mapsto> snd e) ++ map_of (rev es)"
    by (simp only: insert_all.simps ok_insert look_insert)
  also have "(look m)(fst e \<mapsto> snd e) ++ map_of (rev es) = look m ++ map_of (rev (e # es))"
    by (cases e) (simp add: map_add_def fun_eq_iff split: option.split)
  finally show ?case .
qed simp

definition or_insert_at :: "'k \<Rightarrow> 'v \<Rightarrow> 'm \<Rightarrow> 'm" where
  "or_insert_at k v m = (case look m k of None \<Rightarrow> insert_at k v m | Some _ \<Rightarrow> m)"

primrec or_insert_all :: "('k \<times> 'v) list \<Rightarrow> 'm \<Rightarrow> 'm" where
  "or_insert_all [] m = m"
| "or_insert_all (e # es) m = or_insert_all es (or_insert_at (fst e) (snd e) m)"

lemma or_insert_at_ok: "ok_map m \<Longrightarrow> ok_map (or_insert_at k v m)"
  by (simp add: or_insert_at_def ok_insert split: option.split)

lemma or_insert_all_ok: "ok_map m \<Longrightarrow> ok_map (or_insert_all es m)"
  by (induction es arbitrary: m) (auto intro: or_insert_at_ok)

text \<open>The first entry of a key wins, and an entry already present outranks them all.\<close>

lemma look_or_insert_all: "ok_map m \<Longrightarrow> look (or_insert_all es m) = map_of es ++ look m"
proof (induction es arbitrary: m)
  case Nil
  then show ?case by simp
next
  case (Cons e es)
  have "look (or_insert_at (fst e) (snd e) m) = [fst e \<mapsto> snd e] ++ look m"
    using Cons.prems
    by (auto simp: or_insert_at_def look_insert fun_eq_iff map_add_def split: option.split)
  with Cons show ?case
    by (cases e) (auto simp: or_insert_at_ok fun_eq_iff map_add_def split: option.splits)
qed

end

interpretation btree: insert_map btree_insert map_of btree
  by unfold_locales (simp_all add: map_of_btree_insert btree_btree_insert)

lemma btree_or_insert_at [simp]: "btree.or_insert_at = btree_or_insert"
  by (simp add: fun_eq_iff btree.or_insert_at_def btree_or_insert_def)

end
