(* ===== verification/Text_Ops.thy ===== *)
theory Text_Ops
  imports Prelude
begin

text \<open>
  The operations of Rust's \<open>str\<close> and byte slices that several components use: \<open>trim\<close>,
  \<open>split\<close> on one byte, \<open>strip_prefix\<close> and the ASCII case functions.  A string is the list of the
  bytes of its UTF-8 encoding.
\<close>

section \<open>White space\<close>

text \<open>The UTF-8 encodings of the characters with Unicode's \<open>White_Space\<close> property.\<close>

definition white_space :: "string list" where
  "white_space =
     map (\<lambda>c. [c]) [CHR 0x09, CHR 0x0A, CHR 0x0B, CHR 0x0C, CHR 0x0D, CHR 0x20]
     @ [[CHR 0xC2, CHR 0x85], [CHR 0xC2, CHR 0xA0], [CHR 0xE1, CHR 0x9A, CHR 0x80]]
     @ map (\<lambda>c. [CHR 0xE2, CHR 0x80, c])
         [CHR 0x80, CHR 0x81, CHR 0x82, CHR 0x83, CHR 0x84, CHR 0x85, CHR 0x86, CHR 0x87,
          CHR 0x88, CHR 0x89, CHR 0x8A, CHR 0xA8, CHR 0xA9, CHR 0xAF]
     @ [[CHR 0xE2, CHR 0x81, CHR 0x9F], [CHR 0xE3, CHR 0x80, CHR 0x80]]"

text \<open>Drop members of \<open>ws\<close> from the front as long as one of them is there.\<close>

function trim_front :: "string list \<Rightarrow> string \<Rightarrow> string" where
  "trim_front ws s =
     (case find (\<lambda>w. w \<noteq> [] \<and> prefix w s) ws of None \<Rightarrow> s
      | Some w \<Rightarrow> trim_front ws (drop (length w) s))"
  by pat_completeness auto

termination
proof (relation "measure (length \<circ> snd)")
  fix ws s w
  assume "find (\<lambda>w. w \<noteq> [] \<and> prefix w s) ws = Some w"
  then have "w \<noteq> []" "prefix w s" by (auto simp: find_Some_iff)
  then have "0 < length w" "length w \<le> length s" by (auto dest: prefix_length_le)
  then show "((ws, drop (length w) s), ws, s) \<in> measure (length \<circ> snd)"
    by (cases s) auto
qed simp

declare trim_front.simps [simp del]

definition trim :: "string \<Rightarrow> string" where
  "trim s = rev (trim_front (map rev white_space) (rev (trim_front white_space s)))"

lemma trim_front_suffix: "suffix (trim_front ws s) s"
proof (induction ws s rule: trim_front.induct)
  case (1 ws s)
  show ?case
  proof (cases "find (\<lambda>w. w \<noteq> [] \<and> prefix w s) ws")
    case None
    then show ?thesis by (simp add: trim_front.simps[of ws s])
  next
    case (Some w)
    with 1 have "suffix (trim_front ws (drop (length w) s)) (drop (length w) s)" by simp
    then show ?thesis
      using Some by (simp add: trim_front.simps[of ws s])
        (metis suffix_drop suffix_order.trans)
  qed
qed

lemma trim_front_stop: "w \<in> set ws \<Longrightarrow> w \<noteq> [] \<Longrightarrow> \<not> prefix w (trim_front ws s)"
proof (induction ws s rule: trim_front.induct)
  case (1 ws s)
  show ?case
  proof (cases "find (\<lambda>w. w \<noteq> [] \<and> prefix w s) ws")
    case None
    moreover have "\<not> prefix w s" using None 1(2,3) by (auto simp: find_None_iff)
    ultimately show ?thesis by (simp add: trim_front.simps[of ws s])
  next
    case (Some w')
    with 1 show ?thesis by (simp add: trim_front.simps[of ws s])
  qed
qed

lemma trim_front_Nil [simp]: "trim_front ws [] = []"
  using trim_front_suffix[of ws "[]"] by simp

lemma trim_length: "length (trim s) \<le> length s"
  unfolding trim_def
  by (metis length_rev suffix_length_le trim_front_suffix order_trans)

section \<open>Splitting\<close>

text \<open>\<open>split(|b| b == c)\<close>: the pieces between the separators, at least one.\<close>

fun split_on :: "char \<Rightarrow> string \<Rightarrow> string list" where
  "split_on c [] = [[]]"
| "split_on c (x # xs) =
     (if x = c then [] # split_on c xs
      else case split_on c xs of [] \<Rightarrow> [[x]] | p # ps \<Rightarrow> (x # p) # ps)"

lemma split_on_Nil [simp]: "split_on c s \<noteq> []"
  by (induction c s rule: split_on.induct) (auto split: list.splits)

lemma split_on_pieces: "p \<in> set (split_on c s) \<Longrightarrow> c \<notin> set p"
  by (induction c s arbitrary: p rule: split_on.induct) (auto split: if_splits list.splits)

definition join_with :: "char \<Rightarrow> string list \<Rightarrow> string" where
  "join_with c ps = (case ps of [] \<Rightarrow> [] | p # ps \<Rightarrow> p @ concat (map (\<lambda>q. c # q) ps))"

lemma join_split_on: "join_with c (split_on c s) = s"
proof (induction c s rule: split_on.induct)
  case (1 c)
  then show ?case by (simp add: join_with_def)
next
  case (2 c x xs)
  then show ?case
    by (cases "split_on c xs") (auto simp: join_with_def)
qed

lemma split_on_append:
  "c \<notin> set p \<Longrightarrow> split_on c (p @ c # s) = p # split_on c s"
  by (induction p) auto

lemma split_on_single: "c \<notin> set p \<Longrightarrow> split_on c p = [p]"
  by (induction p) auto

lemma split_join_with:
  "\<forall>p \<in> set (p # ps). c \<notin> set p \<Longrightarrow> split_on c (join_with c (p # ps)) = p # ps"
  by (induction ps arbitrary: p) (auto simp: join_with_def split_on_single split_on_append)

definition strip_prefix :: "string \<Rightarrow> string \<Rightarrow> string option" where
  "strip_prefix p s = (if prefix p s then Some (drop (length p) s) else None)"

lemma strip_prefix_Some: "strip_prefix p s = Some t \<longleftrightarrow> s = p @ t"
  by (auto simp: strip_prefix_def prefix_def)

section \<open>Substrings and ASCII case\<close>

fun is_substring :: "string \<Rightarrow> string \<Rightarrow> bool" where
  "is_substring p [] = (p = [])"
| "is_substring p (x # xs) = (prefix p (x # xs) \<or> is_substring p xs)"

definition ascii_lower :: "char \<Rightarrow> char" where
  "ascii_lower c =
     (let n = of_char c :: nat in if 65 \<le> n \<and> n \<le> 90 then char_of (n + 32) else c)"

definition to_ascii_lowercase :: "string \<Rightarrow> string" where
  "to_ascii_lowercase s = map ascii_lower s"

definition eq_ignore_ascii_case :: "string \<Rightarrow> string \<Rightarrow> bool" where
  "eq_ignore_ascii_case s t \<longleftrightarrow> to_ascii_lowercase s = to_ascii_lowercase t"

lemma is_substring_sublist: "is_substring p s \<longleftrightarrow> sublist p s"
  by (induction s) (auto simp: sublist_Cons_right)

section \<open>UTF-8\<close>

text \<open>
  The first sequence of a byte string, as \<open>String::from_utf8_lossy\<close> reads it: whether it is a
  character and how many bytes it has.  An ill-formed sequence is the longest proper prefix
  of a character that is there, at least one byte.
\<close>

definition byte_in :: "nat \<Rightarrow> nat \<Rightarrow> string \<Rightarrow> nat \<Rightarrow> bool" where
  "byte_in lo hi s i \<longleftrightarrow> i < length s \<and> lo \<le> (of_char (s ! i) :: nat) \<and> (of_char (s ! i) :: nat) \<le> hi"

definition second_range :: "nat \<Rightarrow> nat \<times> nat" where
  "second_range b = (if b = 0xE0 then (0xA0, 0xBF) else if b = 0xED then (0x80, 0x9F)
     else if b = 0xF0 then (0x90, 0xBF) else if b = 0xF4 then (0x80, 0x8F) else (0x80, 0xBF))"

definition utf8_width :: "nat \<Rightarrow> nat" where
  "utf8_width b = (if b < 0x80 then 1 else if 0xC2 \<le> b \<and> b \<le> 0xDF then 2
     else if 0xE0 \<le> b \<and> b \<le> 0xEF then 3 else if 0xF0 \<le> b \<and> b \<le> 0xF4 then 4 else 0)"

definition first_sequence :: "string \<Rightarrow> bool \<times> nat" where
  "first_sequence s =
     (let b = of_char (hd s) :: nat; w = utf8_width b; (lo, hi) = second_range b
      in if w = 0 then (False, 1)
         else if w = 1 then (True, 1)
         else if \<not> byte_in lo hi s 1 then (False, 1)
         else if w = 2 then (True, 2)
         else if \<not> byte_in 0x80 0xBF s 2 then (False, 2)
         else if w = 3 then (True, 3)
         else if \<not> byte_in 0x80 0xBF s 3 then (False, 3)
         else (True, 4))"

definition REPLACEMENT :: string where
  "REPLACEMENT = [CHR 0xEF, CHR 0xBF, CHR 0xBD]"

lemma first_sequence_pos: "0 < snd (first_sequence s)"
  by (simp add: first_sequence_def Let_def split: prod.split)

function from_utf8_lossy :: "string \<Rightarrow> string" where
  "from_utf8_lossy s =
     (if s = [] then []
      else let (valid, n) = first_sequence s
           in (if valid then take n s else REPLACEMENT) @ from_utf8_lossy (drop n s))"
  by pat_completeness auto

termination
proof (relation "measure length")
  fix s :: string and p :: "bool \<times> nat" and valid n
  assume "s \<noteq> []" "p = first_sequence s" "(valid, n) = p"
  then show "(drop n s, s) \<in> measure length"
    using first_sequence_pos[of s] by (cases s) (auto simp: prod_eq_iff)
qed simp

declare from_utf8_lossy.simps [simp del]

function utf8_valid :: "string \<Rightarrow> bool" where
  "utf8_valid s =
     (if s = [] then True
      else if fst (first_sequence s) then utf8_valid (drop (snd (first_sequence s)) s) else False)"
  by pat_completeness auto

termination
proof (relation "measure length")
  fix s :: string
  assume "s \<noteq> []" "fst (first_sequence s)"
  then show "(drop (snd (first_sequence s)) s, s) \<in> measure length"
    using first_sequence_pos[of s] by (cases s) auto
qed simp

declare utf8_valid.simps [simp del]

lemma from_utf8_lossy_valid: "utf8_valid s \<Longrightarrow> from_utf8_lossy s = s"
proof (induction s rule: utf8_valid.induct)
  case (1 s)
  show ?case
  proof (cases "s = []")
    case True
    then show ?thesis by (simp add: from_utf8_lossy.simps)
  next
    case False
    with 1(2) have "fst (first_sequence s)" "utf8_valid (drop (snd (first_sequence s)) s)"
      by (auto simp: utf8_valid.simps[of s] split: if_splits)
    with 1(1) False show ?thesis
      by (simp add: from_utf8_lossy.simps[of s] split_beta)
  qed
qed

section \<open>Fields\<close>

text \<open>\<open>splitn(n + 1, c).nth(n)\<close>: what follows the first \<open>n\<close> separators.\<close>

fun skip_fields :: "nat \<Rightarrow> char \<Rightarrow> string \<Rightarrow> string option" where
  "skip_fields 0 c s = Some s"
| "skip_fields (Suc n) c [] = None"
| "skip_fields (Suc n) c (x # xs) = (if x = c then skip_fields n c xs else skip_fields (Suc n) c xs)"

text \<open>\<open>split_once(c)\<close>\<close>

fun split_once :: "char \<Rightarrow> string \<Rightarrow> (string \<times> string) option" where
  "split_once c [] = None"
| "split_once c (x # xs) =
     (if x = c then Some ([], xs) else map_option (\<lambda>(a, b). (x # a, b)) (split_once c xs))"

lemma split_once_Some: "split_once c s = Some (a, b) \<longleftrightarrow> s = a @ c # b \<and> c \<notin> set a"
proof (induction s arbitrary: a)
  case (Cons x s)
  show ?case
  proof (cases "x = c")
    case True
    then show ?thesis by (cases a) auto
  next
    case False
    then have "split_once c (x # s) = Some (a, b) \<longleftrightarrow>
        (\<exists>a'. a = x # a' \<and> split_once c s = Some (a', b))" by (cases "split_once c s") auto
    with False Cons.IH show ?thesis by (cases a) auto
  qed
qed simp

text \<open>\<open>split_whitespace\<close>\<close>

fun span_word :: "string \<Rightarrow> string \<times> string" where
  "span_word [] = ([], [])"
| "span_word (x # xs) =
     (if list_ex (\<lambda>w. prefix w (x # xs)) white_space then ([], x # xs)
      else case span_word xs of (a, b) \<Rightarrow> (x # a, b))"

lemma span_word_append: "span_word s = (a, b) \<Longrightarrow> s = a @ b"
  by (induction s arbitrary: a b) (auto split: if_splits prod.splits)

lemma word_shorter:
  assumes "trim_front white_space s = x # xs" "span_word xs = (a, b)"
  shows "length b < length s"
proof -
  have "length (x # xs) \<le> length s"
    using trim_front_suffix[of white_space s] assms(1) by (auto dest: suffix_length_le)
  with span_word_append[OF assms(2)] show ?thesis by simp
qed

function split_whitespace :: "string \<Rightarrow> string list" where
  "split_whitespace s =
     (case trim_front white_space s of [] \<Rightarrow> []
      | x # xs \<Rightarrow> (case span_word xs of (a, b) \<Rightarrow> (x # a) # split_whitespace b))"
  by pat_completeness auto

termination
  by (relation "measure length") (auto intro: word_shorter dest: sym)

declare split_whitespace.simps [simp del]

text \<open>\<open>replace\<close> of one character by another.\<close>

definition replace_char :: "char \<Rightarrow> char \<Rightarrow> string \<Rightarrow> string" where
  "replace_char c d s = map (\<lambda>x. if x = c then d else x) s"

end
