(* ===== verification/Repository_Roots.thy ===== *)
theory Repository_Roots
  imports Paths Btree Text_Ops
begin

text \<open>
  Expansion of the configured workspace roots by linked Git worktrees, from
  \<open>src/repository_roots.rs\<close>.  Git and SHA-256 are outside the repository: \<open>run_git\<close> is the
  result of running \<open>git\<close> with some arguments in a directory, and \<open>sha256\<close> the hexadecimal
  digest of a byte string.
\<close>

section \<open>Data\<close>

datatype root_source = ExplicitRoot | LinkedGitWorktree

record RepositoryIdentity =
  ri_kind :: string
  ri_digest :: string

record EffectiveRoot =
  er_path :: path
  er_source :: root_source
  er_repository_identity :: "RepositoryIdentity option"
  er_head_revision :: "string option"
  er_dirty :: "bool option"

record git_output =
  go_success :: bool
  go_stdout :: string
  go_stderr :: string

record host =
  h_fs :: filesystem
  h_run_git :: "path \<Rightarrow> string list \<Rightarrow> string + git_output"
  h_sha256 :: "string \<Rightarrow> string"

text \<open>The messages of the code's \<open>anyhow\<close> errors, as constructors with their arguments.\<close>

datatype roots_error =
    RootRequired
  | RootNotCanonical path
  | RepositoryNotCanonical path
  | WorktreeNotCanonical path
  | CommonDirectoryNotCanonical path
  | DifferentCommonDirectory path
  | GitFailed path string
  | NotAGitWorktree path
  | CannotEnumerate path string
  | NonUtf8Worktree
  | NoWorktrees path
  | NoEffectiveRoots

section \<open>Questions to Git\<close>

definition successful_stdout :: "git_output \<Rightarrow> string option" where
  "successful_stdout out =
     (if go_success out
      then let value = trim (from_utf8_lossy (go_stdout out)) in if value = [] then None else Some value
      else None)"

definition run_git :: "host \<Rightarrow> path \<Rightarrow> string list \<Rightarrow> roots_error + git_output" where
  "run_git h directory args = map_err (GitFailed directory) (h_run_git h directory args)"

definition repository_identity :: "host \<Rightarrow> path \<Rightarrow> RepositoryIdentity" where
  "repository_identity h common_directory =
     \<lparr>ri_kind = ''local_git_common_dir_sha256'',
      ri_digest = h_sha256 h (fs_display (h_fs h) common_directory)\<rparr>"

definition git_common_directory :: "host \<Rightarrow> path \<Rightarrow> roots_error + path" where
  "git_common_directory h repository =
     rbind (run_git h repository [''rev-parse'', ''--path-format=absolute'', ''--git-common-dir''])
       (\<lambda>out. rbind (or_err (NotAGitWorktree repository) (successful_stdout out))
         (\<lambda>common_directory.
            map_err (\<lambda>_. CommonDirectoryNotCanonical repository)
              (fs_canonicalize (h_fs h) (fs_from_str (h_fs h) common_directory))))"

definition linked_worktrees :: "host \<Rightarrow> path \<Rightarrow> roots_error + path list" where
  "linked_worktrees h repository =
     rbind (run_git h repository [''worktree'', ''list'', ''--porcelain'', ''-z''])
       (\<lambda>out.
          if \<not> go_success out
          then Inl (CannotEnumerate repository (trim (from_utf8_lossy (go_stderr out))))
          else rbind (rmap (\<lambda>p. if utf8_valid p then Inr (fs_from_str (h_fs h) p) else Inl NonUtf8Worktree)
                 (List.map_filter (strip_prefix ''worktree '') (split_on (CHR 0x00) (go_stdout out))))
                 (\<lambda>worktrees. if worktrees = [] then Inl (NoWorktrees repository) else Inr worktrees))"

definition effective_root ::
    "host \<Rightarrow> path \<Rightarrow> root_source \<Rightarrow> RepositoryIdentity option \<Rightarrow> EffectiveRoot" where
  "effective_root h p source known_identity =
     (let common_directory = ok (git_common_directory h p) in
      \<lparr>er_path = p, er_source = source,
       er_repository_identity =
         (case known_identity of Some i \<Rightarrow> Some i
          | None \<Rightarrow> map_option (repository_identity h) common_directory),
       er_head_revision =
         Option.bind (ok (run_git h p [''rev-parse'', ''HEAD''])) successful_stdout,
       er_dirty =
         (case ok (run_git h p
                 [''status'', ''--porcelain=v2'', ''-z'', ''--untracked-files=all'']) of
            None \<Rightarrow> None
          | Some out \<Rightarrow> if go_success out then Some (go_stdout out \<noteq> []) else None)\<rparr>)"

section \<open>Expansion\<close>

type_synonym root_map = "(path, EffectiveRoot) btree_map"

fun add_explicit_roots :: "host \<Rightarrow> path list \<Rightarrow> root_map \<Rightarrow> roots_error + root_map" where
  "add_explicit_roots h [] roots = Inr roots"
| "add_explicit_roots h (root # rs) roots =
     rbind (map_err (\<lambda>_. RootNotCanonical root) (fs_canonicalize (h_fs h) root))
       (\<lambda>canonical. add_explicit_roots h rs
          (btree_insert canonical (effective_root h canonical ExplicitRoot None) roots))"

fun add_worktrees ::
    "host \<Rightarrow> path \<Rightarrow> RepositoryIdentity \<Rightarrow> path list \<Rightarrow> root_map \<Rightarrow> roots_error + root_map" where
  "add_worktrees h common_directory identity [] roots = Inr roots"
| "add_worktrees h common_directory identity (w # ws) roots =
     rbind (map_err (\<lambda>_. WorktreeNotCanonical w) (fs_canonicalize (h_fs h) w))
       (\<lambda>worktree. rbind (git_common_directory h worktree)
         (\<lambda>candidate.
            if candidate \<noteq> common_directory then Inl (DifferentCommonDirectory worktree)
            else add_worktrees h common_directory identity ws
              (btree_or_insert worktree
                (effective_root h worktree LinkedGitWorktree (Some identity)) roots)))"

fun add_repositories :: "host \<Rightarrow> path list \<Rightarrow> root_map \<Rightarrow> roots_error + root_map" where
  "add_repositories h [] roots = Inr roots"
| "add_repositories h (r # rs) roots =
     rbind (map_err (\<lambda>_. RepositoryNotCanonical r) (fs_canonicalize (h_fs h) r))
       (\<lambda>repository. rbind (git_common_directory h repository)
         (\<lambda>common_directory. rbind (linked_worktrees h repository)
           (\<lambda>worktrees. rbind
              (add_worktrees h common_directory (repository_identity h common_directory) worktrees roots)
              (add_repositories h rs))))"

definition expand_effective_roots ::
    "host \<Rightarrow> path list \<Rightarrow> path list \<Rightarrow> roots_error + EffectiveRoot list" where
  "expand_effective_roots h explicit_roots repositories =
     (if explicit_roots = [] \<and> repositories = [] then Inl RootRequired
      else rbind (add_explicit_roots h explicit_roots [])
        (\<lambda>roots. rbind (add_repositories h repositories roots)
          (\<lambda>roots. if roots = [] then Inl NoEffectiveRoots else Inr (map snd roots))))"

section \<open>Where every root comes from\<close>

definition explicit_root :: "host \<Rightarrow> path list \<Rightarrow> path \<Rightarrow> bool" where
  "explicit_root h explicit p \<longleftrightarrow> (\<exists>e \<in> set explicit. fs_canonicalize (h_fs h) e = Inr p)"

text \<open>
  A path is authorised through a configured repository when Git lists it as a worktree of
  that repository and both have the same common directory.
\<close>

definition linked_root :: "host \<Rightarrow> path list \<Rightarrow> path \<Rightarrow> RepositoryIdentity \<Rightarrow> bool" where
  "linked_root h repositories p identity \<longleftrightarrow>
     (\<exists>r \<in> set repositories. \<exists>repository common worktrees. \<exists>w \<in> set worktrees.
        fs_canonicalize (h_fs h) r = Inr repository \<and>
        git_common_directory h repository = Inr common \<and>
        linked_worktrees h repository = Inr worktrees \<and>
        fs_canonicalize (h_fs h) w = Inr p \<and> git_common_directory h p = Inr common \<and>
        identity = repository_identity h common)"

definition root_entry :: "host \<Rightarrow> path list \<Rightarrow> path list \<Rightarrow> path \<Rightarrow> EffectiveRoot \<Rightarrow> bool" where
  "root_entry h explicit repositories p e \<longleftrightarrow>
     (if explicit_root h explicit p then e = effective_root h p ExplicitRoot None
      else \<exists>identity. linked_root h repositories p identity \<and>
             e = effective_root h p LinkedGitWorktree (Some identity))"

definition roots_inv :: "host \<Rightarrow> path list \<Rightarrow> path list \<Rightarrow> root_map \<Rightarrow> bool" where
  "roots_inv h explicit repositories m \<longleftrightarrow> btree m \<and>
     (\<forall>p e. map_of m p = Some e \<longrightarrow> root_entry h explicit repositories p e) \<and>
     (\<forall>p. explicit_root h explicit p \<longrightarrow> p \<in> dom (map_of m))"

lemma effective_root_simps [simp]:
  "er_path (effective_root h p s i) = p" "er_source (effective_root h p s i) = s"
  "er_repository_identity (effective_root h p s (Some x)) = Some x"
  by (simp_all add: effective_root_def Let_def)

lemma add_explicit_roots_insert:
  assumes "add_explicit_roots h rs m = Inr m'"
  obtains cs where "list_all2 (\<lambda>r c. fs_canonicalize (h_fs h) r = Inr c) rs cs"
    "m' = btree.insert_all (map (\<lambda>c. (c, effective_root h c ExplicitRoot None)) cs) m"
  using assms
proof (induction rs arbitrary: m thesis)
  case Nil
  from Nil.prems(1)[of "[]"] Nil.prems(2) show ?case by simp
next
  case (Cons r rs)
  then obtain c where c: "fs_canonicalize (h_fs h) r = Inr c"
    "add_explicit_roots h rs (btree_insert c (effective_root h c ExplicitRoot None) m) = Inr m'"
    by (auto simp: result_Inr)
  obtain cs where "list_all2 (\<lambda>r c. fs_canonicalize (h_fs h) r = Inr c) rs cs"
    "m' = btree.insert_all (map (\<lambda>c. (c, effective_root h c ExplicitRoot None)) cs)
            (btree_insert c (effective_root h c ExplicitRoot None) m)"
    using Cons.IH[OF _ c(2)] by blast
  with c(1) Cons.prems(1)[of "c # cs"] show ?case by simp
qed

lemma add_explicit_roots_inv:
  assumes "add_explicit_roots h explicit [] = Inr m"
  shows "roots_inv h explicit repositories m"
proof -
  obtain cs where cs: "list_all2 (\<lambda>r c. fs_canonicalize (h_fs h) r = Inr c) explicit cs"
    "m = btree.insert_all (map (\<lambda>c. (c, effective_root h c ExplicitRoot None)) cs) []"
    using assms by (rule add_explicit_roots_insert)
  have m: "map_of m = map_of (rev (map (\<lambda>c. (c, effective_root h c ExplicitRoot None)) cs))"
    using btree.look_insert_all[of "[]"] cs(2) by simp
  have explicit: "explicit_root h explicit p \<longleftrightarrow> p \<in> set cs" for p
    unfolding explicit_root_def by (rule list_all2_Inr_set[OF cs(1)])
  have "map_of m p = (if p \<in> set cs then Some (effective_root h p ExplicitRoot None) else None)" for p
    unfolding m rev_map by (simp add: map_of_map_restrict)
  then show ?thesis
    using btree.insert_all_ok[of "[]"] cs(2) explicit
    by (auto simp: roots_inv_def root_entry_def split: if_splits)
qed

lemma add_worktrees_inv:
  assumes "add_worktrees h common identity ws m = Inr m'" "roots_inv h explicit repositories m"
    and "\<And>w p. w \<in> set ws \<Longrightarrow> fs_canonicalize (h_fs h) w = Inr p \<Longrightarrow>
           git_common_directory h p = Inr common \<Longrightarrow> linked_root h repositories p identity"
  shows "roots_inv h explicit repositories m'"
  using assms
proof (induction ws arbitrary: m)
  case (Cons w ws)
  then obtain p where p: "fs_canonicalize (h_fs h) w = Inr p" "git_common_directory h p = Inr common"
    "add_worktrees h common identity ws
       (btree_or_insert p (effective_root h p LinkedGitWorktree (Some identity)) m) = Inr m'"
    by (auto simp: result_Inr split: if_splits)
  have "linked_root h repositories p identity" using Cons.prems(3) p by auto
  then have "roots_inv h explicit repositories
     (btree_or_insert p (effective_root h p LinkedGitWorktree (Some identity)) m)"
    using Cons.prems(2)
    by (auto simp: roots_inv_def btree_or_insert map_of_btree_or_insert root_entry_def dom_def
        split: option.splits if_splits)
  from Cons.IH[OF p(3) this] Cons.prems(3) show ?case by auto
qed simp

lemma add_repositories_inv:
  assumes "add_repositories h rs m = Inr m'" "roots_inv h explicit repositories m"
    "set rs \<subseteq> set repositories"
  shows "roots_inv h explicit repositories m'"
  using assms
proof (induction rs arbitrary: m)
  case (Cons r rs)
  then obtain repository common worktrees m1 where r:
    "fs_canonicalize (h_fs h) r = Inr repository" "git_common_directory h repository = Inr common"
    "linked_worktrees h repository = Inr worktrees"
    "add_worktrees h common (repository_identity h common) worktrees m = Inr m1"
    "add_repositories h rs m1 = Inr m'"
    by (auto simp: result_Inr)
  have "roots_inv h explicit repositories m1"
    using r(4) Cons.prems(2)
  proof (rule add_worktrees_inv)
    fix w p assume "w \<in> set worktrees" "fs_canonicalize (h_fs h) w = Inr p"
      "git_common_directory h p = Inr common"
    with r Cons.prems(3) show "linked_root h repositories p (repository_identity h common)"
      unfolding linked_root_def by fastforce
  qed
  with Cons r(5) show ?case by simp
qed simp

lemma expand_effective_roots_inv:
  assumes "expand_effective_roots h explicit repositories = Inr roots"
  obtains m where "roots_inv h explicit repositories m" "roots = map snd m" "m \<noteq> []"
proof -
  obtain m1 m where m: "add_explicit_roots h explicit [] = Inr m1"
    "add_repositories h repositories m1 = Inr m" "m \<noteq> []" "roots = map snd m"
    using assms by (auto simp: expand_effective_roots_def result_Inr split: if_splits)
  have "roots_inv h explicit repositories m"
    using add_repositories_inv[OF m(2) add_explicit_roots_inv[OF m(1)]] by simp
  with m show thesis using that by blast
qed

lemma roots_inv_paths:
  assumes "roots_inv h explicit repositories m"
  shows "map er_path (map snd m) = map fst m"
proof -
  have "er_path e = p" if "(p, e) \<in> set m" for p e
  proof -
    have "map_of m p = Some e" using that assms by (simp add: roots_inv_def btree_def)
    with assms have "root_entry h explicit repositories p e" by (simp add: roots_inv_def)
    then show ?thesis by (auto simp: root_entry_def split: if_splits)
  qed
  then show ?thesis by auto
qed

lemma root_entryD:
  "root_entry h explicit repositories p e \<Longrightarrow> er_path e = p \<and>
     (if explicit_root h explicit p then er_source e = ExplicitRoot
      else er_source e = LinkedGitWorktree \<and>
        (\<exists>identity. er_repository_identity e = Some identity \<and> linked_root h repositories p identity))"
  by (auto simp: root_entry_def split: if_splits)

section \<open>Property\<close>

text \<open>
  C3. The expanded roots are non-empty, in path order and without duplicates; every
  explicit root is among them and outranks discovery; and every other root is a worktree
  Git lists for a configured repository, verified to have that repository's common
  directory and labelled with the identity of it.
\<close>

theorem expand_effective_roots_authorised:
  assumes "expand_effective_roots h explicit repositories = Inr roots"
  shows "roots \<noteq> [] \<and> sorted (map er_path roots) \<and> distinct (map er_path roots)
    \<and> (\<forall>p \<in> set explicit. \<exists>r \<in> set roots.
          fs_canonicalize (h_fs h) p = Inr (er_path r) \<and> er_source r = ExplicitRoot)
    \<and> (\<forall>r \<in> set roots.
          if explicit_root h explicit (er_path r) then er_source r = ExplicitRoot
          else er_source r = LinkedGitWorktree \<and>
            (\<exists>identity. er_repository_identity r = Some identity \<and>
                linked_root h repositories (er_path r) identity))"
proof -
  obtain m where m: "roots_inv h explicit repositories m" "roots = map snd m" "m \<noteq> []"
    using assms by (rule expand_effective_roots_inv)
  have paths: "map er_path roots = map fst m" using roots_inv_paths[OF m(1)] m(2) by simp
  have entry: "root_entry h explicit repositories (er_path r) r" if r: "r \<in> set roots" for r
  proof -
    from r m(2) obtain p where p: "(p, r) \<in> set m" by auto
    then have "map_of m p = Some r" using m(1) by (simp add: roots_inv_def btree_def)
    then have "root_entry h explicit repositories p r" using m(1) by (simp add: roots_inv_def)
    with root_entryD[OF this] show ?thesis by simp
  qed
  have "\<exists>r \<in> set roots. fs_canonicalize (h_fs h) p = Inr (er_path r) \<and> er_source r = ExplicitRoot"
    if p: "p \<in> set explicit" for p
  proof -
    obtain m1 where "add_explicit_roots h explicit [] = Inr m1"
      using assms by (auto simp: expand_effective_roots_def result_Inr split: if_splits)
    then obtain cs where "list_all2 (\<lambda>r c. fs_canonicalize (h_fs h) r = Inr c) explicit cs"
      by (rule add_explicit_roots_insert)
    with p obtain c where c: "fs_canonicalize (h_fs h) p = Inr c"
      by (auto simp: list_all2_conv_all_nth in_set_conv_nth)
    with p have e: "explicit_root h explicit c" by (auto simp: explicit_root_def)
    then obtain r where "map_of m c = Some r" using m(1) by (auto simp: roots_inv_def dom_def)
    then have "(c, r) \<in> set m" "root_entry h explicit repositories c r"
      using m(1) by (auto simp: roots_inv_def dest: map_of_SomeD)
    with e c m(2) root_entryD[of h explicit repositories c r] show ?thesis
      by (intro bexI[of _ r]) (simp_all add: rev_image_eqI)
  qed
  moreover have "if explicit_root h explicit (er_path r) then er_source r = ExplicitRoot
          else er_source r = LinkedGitWorktree \<and>
            (\<exists>identity. er_repository_identity r = Some identity \<and>
                linked_root h repositories (er_path r) identity)" if "r \<in> set roots" for r
    by (rule conjunct2[OF root_entryD[OF entry[OF that]]])
  moreover have "sorted (map er_path roots)" "distinct (map er_path roots)"
    unfolding paths using m(1) by (simp_all add: roots_inv_def btree_def)
  moreover have "roots \<noteq> []" using m by simp
  ultimately show ?thesis by blast
qed

text \<open>
  A host on which one repository \<open>/r\<close> has the worktrees \<open>/r\<close> and \<open>/w\<close>; \<open>/x\<close> is no
  repository.
\<close>

definition demo_path :: "string \<Rightarrow> path" where
  "demo_path s = [RootDir, Normal s]"

definition demo_host :: host where
  "demo_host = \<lparr>h_fs = \<lparr>fs_canonicalize = Inr, fs_exists = (\<lambda>_. True),
       fs_symlink_metadata = (\<lambda>_. Inr Directory), fs_display = (\<lambda>_. ''p''),
       fs_from_str = demo_path\<rparr>,
     h_run_git = (\<lambda>d args.
       if d = demo_path ''x'' then Inl ''fatal''
       else if take 1 args = [''worktree'']
       then Inr \<lparr>go_success = True,
              go_stdout = ''worktree r'' @ CHR 0x00 # ''worktree w'' @ [CHR 0x00], go_stderr = []\<rparr>
       else Inr \<lparr>go_success = True, go_stdout = ''g'', go_stderr = []\<rparr>),
     h_sha256 = (\<lambda>_. ''ff'')\<rparr>"

lemma demo_expand:
  "map_err (\<lambda>_. ()) (rbind (expand_effective_roots demo_host [demo_path ''x''] [demo_path ''r''])
      (\<lambda>roots. Inr (map (\<lambda>r. (er_path r, er_source r)) roots)))
   = Inr [(demo_path ''r'', LinkedGitWorktree), (demo_path ''w'', LinkedGitWorktree),
          (demo_path ''x'', ExplicitRoot)]"
  by code_simp

theorem expand_effective_roots_authorised_witness:
  "\<exists>roots. expand_effective_roots demo_host [demo_path ''x''] [demo_path ''r''] = Inr roots
     \<and> length roots = 3
     \<and> (\<forall>r \<in> set roots. er_source r = LinkedGitWorktree \<longrightarrow>
          (\<exists>identity. linked_root demo_host [demo_path ''r''] (er_path r) identity))"
proof -
  obtain roots where roots:
    "expand_effective_roots demo_host [demo_path ''x''] [demo_path ''r''] = Inr roots"
    "map (\<lambda>r. (er_path r, er_source r)) roots = [(demo_path ''r'', LinkedGitWorktree),
       (demo_path ''w'', LinkedGitWorktree), (demo_path ''x'', ExplicitRoot)]"
    using demo_expand by (auto simp: result_Inr)
  have "length roots = 3" using arg_cong[OF roots(2), of length] by simp
  moreover have "\<exists>identity. linked_root demo_host [demo_path ''r''] (er_path r) identity"
    if "r \<in> set roots" "er_source r = LinkedGitWorktree" for r
  proof -
    have "if explicit_root demo_host [demo_path ''x''] (er_path r) then er_source r = ExplicitRoot
        else er_source r = LinkedGitWorktree \<and> (\<exists>identity. er_repository_identity r = Some identity \<and>
          linked_root demo_host [demo_path ''r''] (er_path r) identity)"
      using expand_effective_roots_authorised[OF roots(1)] that(1) by blast
    with that(2) show ?thesis by (auto split: if_splits)
  qed
  ultimately show ?thesis using roots(1) by blast
qed

end
