(* ===== verification/Path_Policy.thy ===== *)
theory Path_Policy
  imports Repository_Roots
begin

text \<open>
  The path policy, from \<open>src/path_policy.rs\<close>: which paths a tool may read, write or execute,
  given the workspace roots and the executable allowlist fixed at startup.  An error carries
  its code, path, message and the policy's context, as \<open>PolicyError\<close> does.

  What the tools rely on is the locale \<open>authorizer\<close>: a decision that yields a path grants it.
\<close>

section \<open>Data\<close>

record policy_context =
  pc_containment_mode :: string
  pc_policy_source :: string
  pc_effective_roots :: "EffectiveRoot list"

record policy_error =
  pe_code :: string
  pe_path :: path
  pe_message :: string
  pe_context :: policy_context

record path_policy =
  pp_roots :: "path list"
  pp_effective_roots :: "EffectiveRoot list"
  pp_executables :: "path list"

record path_policy_status =
  ps_containment_mode :: string
  ps_policy_source :: string
  ps_effective_roots :: "EffectiveRoot list"
  ps_compiler_allowlist :: "path list"

section \<open>Errors and their context\<close>

definition empty_context :: policy_context where
  "empty_context = \<lparr>pc_containment_mode = ''immutable_startup_roots'',
     pc_policy_source = ''server_startup_configuration'', pc_effective_roots = []\<rparr>"

definition context_of :: "path_policy \<Rightarrow> policy_context" where
  "context_of pol = \<lparr>pc_containment_mode = ''immutable_startup_roots'',
     pc_policy_source = ''server_startup_configuration'',
     pc_effective_roots = pp_effective_roots pol\<rparr>"

definition policy_failure :: "path_policy \<Rightarrow> string \<Rightarrow> path \<Rightarrow> string \<Rightarrow> policy_error" where
  "policy_failure pol code p message =
     \<lparr>pe_code = code, pe_path = p, pe_message = message, pe_context = context_of pol\<rparr>"

definition startup_failure :: "string \<Rightarrow> path \<Rightarrow> string \<Rightarrow> policy_error" where
  "startup_failure code p message =
     \<lparr>pe_code = code, pe_path = p, pe_message = message, pe_context = empty_context\<rparr>"

definition status :: "path_policy \<Rightarrow> path_policy_status" where
  "status pol = \<lparr>ps_containment_mode = ''immutable_startup_roots'',
     ps_policy_source = ''server_startup_configuration'',
     ps_effective_roots = pp_effective_roots pol, ps_compiler_allowlist = pp_executables pol\<rparr>"

section \<open>Construction\<close>

definition cannot_resolve :: "filesystem \<Rightarrow> path \<Rightarrow> string \<Rightarrow> string" where
  "cannot_resolve fs p source = ''cannot resolve '' @ fs_display fs p @ '': '' @ source"

definition canonicalize ::
    "filesystem \<Rightarrow> path list \<Rightarrow> string \<Rightarrow> policy_error + path list" where
  "canonicalize fs paths code =
     rmap (\<lambda>p. map_err (\<lambda>source. startup_failure code p (cannot_resolve fs p source))
                 (fs_canonicalize fs p)) paths"

definition policy_new :: "filesystem \<Rightarrow> path list \<Rightarrow> path list \<Rightarrow> policy_error + path_policy" where
  "policy_new fs roots executables =
     (if roots = []
      then Inl (startup_failure ''no_workspace_roots'' [] ''no workspace roots configured'')
      else rbind (canonicalize fs roots ''invalid_workspace_root'') (\<lambda>roots.
        let effective_roots = map (\<lambda>p. \<lparr>er_path = p, er_source = ExplicitRoot,
              er_repository_identity = None, er_head_revision = None, er_dirty = None\<rparr>) roots
        in rbind (canonicalize fs executables ''invalid_executable'') (\<lambda>executables.
          Inr \<lparr>pp_roots = roots, pp_effective_roots = effective_roots,
                pp_executables = executables\<rparr>)))"

definition canonical_root :: "filesystem \<Rightarrow> EffectiveRoot \<Rightarrow> policy_error + EffectiveRoot" where
  "canonical_root fs root =
     rbind (map_err (\<lambda>source. startup_failure ''invalid_workspace_root'' (er_path root)
                        (cannot_resolve fs (er_path root) source))
              (fs_canonicalize fs (er_path root)))
       (\<lambda>p. Inr (root\<lparr>er_path := p\<rparr>))"

definition from_effective_roots ::
    "filesystem \<Rightarrow> EffectiveRoot list \<Rightarrow> path list \<Rightarrow> policy_error + path_policy" where
  "from_effective_roots fs effective_roots executables =
     (if effective_roots = []
      then Inl (startup_failure ''no_workspace_roots'' [] ''no workspace roots configured'')
      else rbind (rmap (canonical_root fs) effective_roots) (\<lambda>normalized.
        let normalized = dedup_key er_path (sort_key er_path normalized)
        in rbind (canonicalize fs executables ''invalid_executable'') (\<lambda>executables.
          Inr \<lparr>pp_roots = map er_path normalized, pp_effective_roots = normalized,
                pp_executables = executables\<rparr>)))"

section \<open>Decisions\<close>

definition require_contained :: "path_policy \<Rightarrow> path \<Rightarrow> policy_error + path" where
  "require_contained pol p =
     (if \<exists>root \<in> set (pp_roots pol). path_starts_with p root then Inr p
      else Inl (policy_failure pol ''path_outside_workspace'' p
                  ''path is outside configured workspace roots''))"

definition read_path :: "filesystem \<Rightarrow> path_policy \<Rightarrow> path \<Rightarrow> policy_error + path" where
  "read_path fs pol input =
     rbind (map_err (\<lambda>source. policy_failure pol ''path_not_found'' input
                        (cannot_resolve fs input source))
              (fs_canonicalize fs input))
       (require_contained pol)"

definition output_path :: "filesystem \<Rightarrow> path_policy \<Rightarrow> path \<Rightarrow> bool \<Rightarrow> policy_error + path" where
  "output_path fs pol input overwrite =
     (if fs_exists fs input then
        rbind (read_path fs pol input) (\<lambda>canonical.
          if \<not> overwrite
          then Inl (policy_failure pol ''output_exists'' canonical
                      ''output already exists; set overwrite=true'')
          else Inr canonical)
      else
        rbind (or_err (policy_failure pol ''invalid_output_path'' input ''output path has no parent'')
                 (parent input)) (\<lambda>dir.
        rbind (map_err (\<lambda>source. policy_failure pol ''output_parent_not_found'' dir
                           (''cannot resolve output parent: '' @ source))
                 (fs_canonicalize fs dir)) (\<lambda>dir.
        rbind (or_err (policy_failure pol ''invalid_output_path'' input ''output path has no file name'')
                 (file_name input)) (\<lambda>name.
        require_contained pol (join_name dir name)))))"

definition executable :: "filesystem \<Rightarrow> path_policy \<Rightarrow> path \<Rightarrow> policy_error + path" where
  "executable fs pol input =
     rbind (map_err (\<lambda>_. policy_failure pol ''executable_not_allowed'' input
                       ''executable is not allowlisted'')
              (fs_canonicalize fs input)) (\<lambda>canonical.
       if canonical \<in> set (pp_executables pol) then Inr canonical
       else Inl (policy_failure pol ''executable_not_allowed'' canonical
                   ''executable is not allowlisted''))"

definition runtime_dmb :: "filesystem \<Rightarrow> path_policy \<Rightarrow> path \<Rightarrow> policy_error + path" where
  "runtime_dmb fs pol p = read_path fs pol p"

text \<open>\<open>ReadPolicy::resolve\<close>, which the parser calls for every include.\<close>

definition resolve :: "filesystem \<Rightarrow> path_policy \<Rightarrow> path \<Rightarrow> policy_error + path" where
  "resolve fs pol p = read_path fs pol p"

section \<open>The contract of a decision\<close>

locale authorizer =
  fixes decide :: "'r \<Rightarrow> 'e + 'p"
    and granted :: "'p \<Rightarrow> bool"
  assumes decide_granted: "decide r = Inr p \<Longrightarrow> granted p"
begin

lemma decide_all_granted: "rmap decide rs = Inr ps \<Longrightarrow> \<forall>p \<in> set ps. granted p"
  by (auto dest!: rmap_Inr_set decide_granted)

end

text \<open>A decision that resolves a name and then judges only what it resolves to.\<close>

locale resolver = authorizer +
  fixes look_up :: "'r \<Rightarrow> 'x + 'p"
  assumes decide_iff: "decide r = Inr p \<longleftrightarrow> look_up r = Inr p \<and> granted p"
begin

lemma decide_all_iff:
  "rmap decide rs = Inr ps \<longleftrightarrow>
     list_all2 (\<lambda>r p. look_up r = Inr p) rs ps \<and> (\<forall>p \<in> set ps. granted p)"
proof -
  have "list_all2 (\<lambda>r p. decide r = Inr p) rs ps \<longleftrightarrow>
      list_all2 (\<lambda>r p. look_up r = Inr p) rs ps \<and> (\<forall>p \<in> set ps. granted p)"
    by (induction rs arbitrary: ps) (auto simp: decide_iff list_all2_Cons1)
  then show ?thesis by (simp add: rmap_Inr)
qed

lemma decide_same: "look_up r = look_up s \<Longrightarrow> decide r = Inr p \<longleftrightarrow> decide s = Inr p"
  by (simp add: decide_iff)

end

definition contained :: "path_policy \<Rightarrow> path \<Rightarrow> bool" where
  "contained pol p \<longleftrightarrow> (\<exists>root \<in> set (pp_roots pol). path_starts_with p root)"

lemma require_contained_Inr:
  "require_contained pol p = Inr q \<longleftrightarrow> q = p \<and> contained pol p"
  by (auto simp: require_contained_def contained_def)

interpretation reading: resolver "read_path fs pol" "contained pol" "fs_canonicalize fs" for fs pol
  by unfold_locales (auto simp: read_path_def result_Inr require_contained_Inr)

interpretation executing: resolver "executable fs pol" "\<lambda>p. p \<in> set (pp_executables pol)"
    "fs_canonicalize fs" for fs pol
  by unfold_locales (auto simp: executable_def result_Inr split: if_splits)

interpretation writing: authorizer "\<lambda>(p, overwrite). output_path fs pol p overwrite"
    "contained pol" for fs pol
  by unfold_locales
    (auto simp: output_path_def result_Inr reading.decide_iff require_contained_Inr split: if_splits)

lemma output_path_Inr:
  "output_path fs pol input overwrite = Inr c \<longleftrightarrow>
     (if fs_exists fs input then overwrite \<and> read_path fs pol input = Inr c
      else contained pol c \<and>
        (\<exists>dir canonical name. parent input = Some dir \<and> fs_canonicalize fs dir = Inr canonical \<and>
           file_name input = Some name \<and> c = join_name canonical name))"
  by (auto simp: output_path_def result_Inr require_contained_Inr)

lemma contained_subpath: "contained pol p \<Longrightarrow> path_starts_with q p \<Longrightarrow> contained pol q"
  by (auto simp: contained_def intro: starts_with_trans)

lemma canonicalize_Inr:
  "canonicalize fs ps code = Inr cs \<longleftrightarrow> list_all2 (\<lambda>p c. fs_canonicalize fs p = Inr c) ps cs"
  by (simp add: canonicalize_def rmap_Inr map_err_Inr)

lemma canonical_root_Inr:
  "canonical_root fs r = Inr r' \<longleftrightarrow>
     (\<exists>p. fs_canonicalize fs (er_path r) = Inr p \<and> r' = r\<lparr>er_path := p\<rparr>)"
  by (auto simp: canonical_root_def result_Inr)

lemma canonical_roots_paths:
  "rmap (canonical_root fs) rs = Inr ns \<Longrightarrow>
   p \<in> er_path ` set ns \<longleftrightarrow> (\<exists>r \<in> set rs. fs_canonicalize fs (er_path r) = Inr p)"
proof (induction rs arbitrary: ns)
  case (Cons r rs)
  then obtain q ns' where "fs_canonicalize fs (er_path r) = Inr q"
    "rmap (canonical_root fs) rs = Inr ns'" "ns = r\<lparr>er_path := q\<rparr> # ns'"
    by (auto simp: rbind_Inr canonical_root_Inr)
  with Cons.IH[of ns'] show ?case by auto
qed simp

lemma from_effective_roots_Inr:
  assumes "from_effective_roots fs roots execs = Inr pol"
  obtains ns where "rmap (canonical_root fs) roots = Inr ns"
    "pp_effective_roots pol = dedup_key er_path (sort_key er_path ns)"
    "pp_roots pol = map er_path (pp_effective_roots pol)"
    "canonicalize fs execs ''invalid_executable'' = Inr (pp_executables pol)"
    "roots \<noteq> []"
  using assms by (auto simp: from_effective_roots_def result_Inr Let_def split: if_splits)

section \<open>Properties\<close>

text \<open>
  C4. A policy built at startup decides exactly by containment: a path is readable iff it
  resolves to a path under the canonical form of a configured root; it is writable iff it
  exists, overwriting was allowed and it is readable, or it does not exist and its resolved
  parent joined with its file name is under such a root; and it is executable iff it
  resolves to the canonical form of an allowlisted executable.
\<close>

theorem policy_decides_by_containment:
  assumes "from_effective_roots fs roots execs = Inr pol"
  shows "(\<forall>p c. read_path fs pol p = Inr c \<longleftrightarrow>
            fs_canonicalize fs p = Inr c \<and>
            (\<exists>r \<in> set roots. \<exists>d. fs_canonicalize fs (er_path r) = Inr d \<and> path_starts_with c d))
    \<and> (\<forall>p overwrite c. output_path fs pol p overwrite = Inr c \<longleftrightarrow>
            (if fs_exists fs p then overwrite \<and> fs_canonicalize fs p = Inr c
             else \<exists>dir canonical name. parent p = Some dir \<and>
               fs_canonicalize fs dir = Inr canonical \<and> file_name p = Some name \<and>
               c = join_name canonical name)
            \<and> (\<exists>r \<in> set roots. \<exists>d. fs_canonicalize fs (er_path r) = Inr d \<and> path_starts_with c d))
    \<and> (\<forall>p c. executable fs pol p = Inr c \<longleftrightarrow>
            fs_canonicalize fs p = Inr c \<and> (\<exists>e \<in> set execs. fs_canonicalize fs e = Inr c))"
proof -
  obtain ns where ns: "rmap (canonical_root fs) roots = Inr ns"
    "pp_effective_roots pol = dedup_key er_path (sort_key er_path ns)"
    "pp_roots pol = map er_path (pp_effective_roots pol)"
    "canonicalize fs execs ''invalid_executable'' = Inr (pp_executables pol)"
    using assms by (rule from_effective_roots_Inr)
  have "set (pp_roots pol) = er_path ` set ns"
    by (simp add: ns(2,3) dedup_key_keys)
  then have "contained pol c \<longleftrightarrow>
      (\<exists>r \<in> set roots. \<exists>d. fs_canonicalize fs (er_path r) = Inr d \<and> path_starts_with c d)" for c
    unfolding contained_def using canonical_roots_paths[OF ns(1)] by blast
  moreover have "(\<exists>e \<in> set execs. fs_canonicalize fs e = Inr c) \<longleftrightarrow> c \<in> set (pp_executables pol)" for c
    using ns(4) by (intro list_all2_Inr_set) (simp add: canonicalize_Inr)
  ultimately show ?thesis
    by (auto simp: output_path_Inr reading.decide_iff executing.decide_iff)
qed

text \<open>
  The policy's roots are in path order without duplicates, they are exactly the
  canonical forms of the configured roots, and of several roots with one canonical path the
  first configured one is kept.
\<close>

lemma from_effective_roots_normal:
  assumes "from_effective_roots fs roots execs = Inr pol"
  shows "pp_roots pol = map er_path (pp_effective_roots pol)
    \<and> sorted (pp_roots pol) \<and> distinct (pp_roots pol)
    \<and> (\<exists>canonical. list_all2 (\<lambda>r r'. \<exists>p. fs_canonicalize fs (er_path r) = Inr p \<and> r' = r\<lparr>er_path := p\<rparr>)
            roots canonical
        \<and> (\<forall>p. find (\<lambda>e. er_path e = p) (pp_effective_roots pol)
                 = find (\<lambda>e. er_path e = p) canonical))"
proof -
  obtain ns where ns: "rmap (canonical_root fs) roots = Inr ns"
    "pp_effective_roots pol = dedup_key er_path (sort_key er_path ns)"
    "pp_roots pol = map er_path (pp_effective_roots pol)"
    using assms by (rule from_effective_roots_Inr)
  then have "list_all2 (\<lambda>r r'. \<exists>p. fs_canonicalize fs (er_path r) = Inr p \<and> r' = r\<lparr>er_path := p\<rparr>)
      roots ns"
    by (simp add: rmap_Inr canonical_root_Inr)
  moreover have "find (\<lambda>e. er_path e = p) (pp_effective_roots pol) = find (\<lambda>e. er_path e = p) ns" for p
    by (simp add: ns(2) find_dedup_key find_sort_key)
  ultimately show ?thesis
    using dedup_key_sorted_distinct[of er_path "sort_key er_path ns"] ns by auto
qed

text \<open>
  Two roots with one canonical path \<open>/b\<close>, and a file system in which \<open>/l\<close> is a link to it.
\<close>

definition linked_fs :: filesystem where
  "linked_fs = (h_fs demo_host)\<lparr>
     fs_canonicalize := (\<lambda>p. if p = demo_path ''l'' then Inr (demo_path ''b'') else Inr p),
     fs_exists := (\<lambda>p. p = demo_path ''l'')\<rparr>"

definition demo_root :: "string \<Rightarrow> root_source \<Rightarrow> EffectiveRoot" where
  "demo_root s source = \<lparr>er_path = demo_path s, er_source = source,
     er_repository_identity = None, er_head_revision = None, er_dirty = None\<rparr>"

definition demo_roots :: "EffectiveRoot list" where
  "demo_roots = [demo_root ''l'' LinkedGitWorktree, demo_root ''b'' ExplicitRoot,
     demo_root ''a'' ExplicitRoot]"

definition demo_policy :: path_policy where
  "demo_policy = \<lparr>pp_roots = [demo_path ''a'', demo_path ''b''],
     pp_effective_roots = [demo_root ''a'' ExplicitRoot, demo_root ''b'' LinkedGitWorktree],
     pp_executables = [demo_path ''dm'']\<rparr>"

lemma demo_policy: "from_effective_roots linked_fs demo_roots [demo_path ''dm''] = Inr demo_policy"
  by code_simp

theorem policy_decides_by_containment_witness:
  "read_path linked_fs demo_policy (demo_path ''l'') = Inr (demo_path ''b'')
   \<and> (\<forall>c. output_path linked_fs demo_policy (demo_path ''l'') False \<noteq> Inr c)
   \<and> output_path linked_fs demo_policy (join_name (demo_path ''a'') ''n'') False
       = Inr (join_name (demo_path ''a'') ''n'')"
proof -
  note p = policy_decides_by_containment[OF demo_policy]
  have exists: "fs_exists linked_fs (demo_path ''l'')"
    "\<not> fs_exists linked_fs (join_name (demo_path ''a'') ''n'')" by code_simp+
  have "\<exists>r \<in> set demo_roots. \<exists>d. fs_canonicalize linked_fs (er_path r) = Inr d
      \<and> path_starts_with (demo_path ''b'') d"
    by (simp add: demo_roots_def demo_root_def linked_fs_def)
  moreover have "\<exists>r \<in> set demo_roots. \<exists>d. fs_canonicalize linked_fs (er_path r) = Inr d
      \<and> path_starts_with (join_name (demo_path ''a'') ''n'') d"
    by (simp add: demo_roots_def demo_root_def linked_fs_def demo_path_def join_name_def
        path_starts_with_def)
  moreover have "fs_canonicalize linked_fs (demo_path ''l'') = Inr (demo_path ''b'')"
    "fs_canonicalize linked_fs (demo_path ''a'') = Inr (demo_path ''a'')" by code_simp+
  ultimately show ?thesis using p exists by auto
qed

lemma from_effective_roots_normal_witness:
  "\<exists>canonical. length canonical = 3 \<and>
     find (\<lambda>e. er_path e = demo_path ''b'') canonical = Some (demo_root ''b'' LinkedGitWorktree)"
proof -
  obtain canonical where c: "list_all2 (\<lambda>r r'. \<exists>p. fs_canonicalize linked_fs (er_path r) = Inr p \<and>
        r' = r\<lparr>er_path := p\<rparr>) demo_roots canonical"
    "\<And>p. find (\<lambda>e. er_path e = p) (pp_effective_roots demo_policy) = find (\<lambda>e. er_path e = p) canonical"
    using from_effective_roots_normal[OF demo_policy] by blast
  have "find (\<lambda>e. er_path e = demo_path ''b'') (pp_effective_roots demo_policy)
      = Some (demo_root ''b'' LinkedGitWorktree)" by code_simp
  moreover have "length canonical = 3" using c(1) by (auto dest!: list_all2_lengthD simp: demo_roots_def)
  ultimately show ?thesis using c(2) by auto
qed

end
