(* ===== verification/Atomic_Output.thy ===== *)
theory Atomic_Output
  imports Path_Policy
begin

text \<open>
  Atomic file output, from \<open>src/atomic_output.rs\<close>: a private temporary file beside the output
  is filled, synced and renamed over it, with the previous file kept as a backup until the
  rename succeeded.  The disk is a map from canonical paths to nodes with a counter of the
  system calls made; which calls fail, the random bytes and SHA-256 are the record
  \<open>disk_host\<close>.  The \<open>Drop\<close> of \<open>TemporaryOutput\<close> is \<open>guard_temporary\<close>.
\<close>

section \<open>The disk and its system calls\<close>

datatype node = Regular string | DirNode | LinkTo path

type_synonym nodes = "path \<rightharpoonup> node"

record disk =
  dk_nodes :: nodes
  dk_clock :: nat

text \<open>
  \<open>dh_fault n\<close> is the operating system's failure of call number \<open>n\<close>, \<open>dh_random n\<close> the
  answer of \<open>getrandom\<close>, as lower-case hexadecimal digits, when it is call number \<open>n\<close>;
  \<open>dh_view\<close> is what the path policy sees of the nodes.
\<close>

record disk_host =
  dh_view :: "nodes \<Rightarrow> filesystem"
  dh_fault :: "nat \<Rightarrow> string option"
  dh_random :: "nat \<Rightarrow> string + string"
  dh_digest :: "string \<Rightarrow> string"

datatype atomic_error =
    PolicyRefused policy_error
  | AtomicIo string
  | InvalidOutputType path
  | TemporaryNameExhausted
  | Entropy string
  | WriterFailed string
  | Replacement string string

record output_artifact =
  oa_path :: path
  oa_bytes :: u64
  oa_sha256 :: string

definition writer_error :: "string \<Rightarrow> atomic_error" where
  "writer_error message = WriterFailed message"

definition policy_code :: "atomic_error \<Rightarrow> string option" where
  "policy_code e = (case e of PolicyRefused p \<Rightarrow> Some (pe_code p) | _ \<Rightarrow> None)"

text \<open>A path resolves through at most forty symbolic links.\<close>

fun follow :: "nat \<Rightarrow> nodes \<Rightarrow> path \<Rightarrow> node option" where
  "follow 0 ns p = None"
| "follow (Suc n) ns p = (case ns p of Some (LinkTo q) \<Rightarrow> follow n ns q | r \<Rightarrow> r)"

definition tick :: "disk \<Rightarrow> disk" where
  "tick d = d\<lparr>dk_clock := Suc (dk_clock d)\<rparr>"

definition sys ::
    "disk_host \<Rightarrow> (nodes \<Rightarrow> string + ('a \<times> nodes)) \<Rightarrow> disk \<Rightarrow> (atomic_error + 'a) \<times> disk" where
  "sys h f d =
     (case dh_fault h (dk_clock d) of Some e \<Rightarrow> (Inl (AtomicIo e), tick d)
      | None \<Rightarrow>
          (case f (dk_nodes d) of Inl e \<Rightarrow> (Inl (AtomicIo e), tick d)
           | Inr (x, ns) \<Rightarrow> (Inr x, (tick d)\<lparr>dk_nodes := ns\<rparr>)))"

definition read_node :: "path \<Rightarrow> nodes \<Rightarrow> string + (string \<times> nodes)" where
  "read_node p ns =
     (case follow 40 ns p of Some (Regular c) \<Rightarrow> Inr (c, ns) | Some _ \<Rightarrow> Inl ''is a directory''
      | None \<Rightarrow> Inl ''not found'')"

definition rename_node :: "path \<Rightarrow> path \<Rightarrow> nodes \<Rightarrow> string + (unit \<times> nodes)" where
  "rename_node a b ns =
     (case ns a of None \<Rightarrow> Inl ''not found''
      | Some n \<Rightarrow> if ns b = Some DirNode \<and> a \<noteq> b then Inl ''is a directory''
                  else Inr ((), ns(a := None, b := Some n)))"

definition remove_node :: "path \<Rightarrow> nodes \<Rightarrow> string + (unit \<times> nodes)" where
  "remove_node p ns =
     (case ns p of None \<Rightarrow> Inl ''not found'' | Some DirNode \<Rightarrow> Inl ''is a directory''
      | Some _ \<Rightarrow> Inr ((), ns(p := None)))"

text \<open>\<open>Path::exists\<close> and \<open>Path::is_file\<close> answer \<open>false\<close> when the call fails.\<close>

definition path_exists :: "disk_host \<Rightarrow> path \<Rightarrow> disk \<Rightarrow> bool \<times> disk" where
  "path_exists h p d =
     (dh_fault h (dk_clock d) = None \<and> follow 40 (dk_nodes d) p \<noteq> None, tick d)"

definition path_is_file :: "disk_host \<Rightarrow> path \<Rightarrow> disk \<Rightarrow> bool \<times> disk" where
  "path_is_file h p d =
     (dh_fault h (dk_clock d) = None \<and>
        (case follow 40 (dk_nodes d) p of Some (Regular _) \<Rightarrow> True | _ \<Rightarrow> False), tick d)"

section \<open>Sequencing\<close>

text \<open>\<open>act_bind\<close> is \<open>?\<close> on a step that also changes the disk.\<close>

definition act_bind ::
    "('s \<Rightarrow> ('e + 'a) \<times> 's) \<Rightarrow> ('a \<Rightarrow> 's \<Rightarrow> ('e + 'b) \<times> 's) \<Rightarrow> 's \<Rightarrow> ('e + 'b) \<times> 's" where
  "act_bind m f s = (case m s of (Inl e, s) \<Rightarrow> (Inl e, s) | (Inr x, s) \<Rightarrow> f x s)"

definition act_return :: "'e + 'a \<Rightarrow> 's \<Rightarrow> ('e + 'a) \<times> 's" where
  "act_return r s = (r, s)"

lemma act_bindE:
  assumes "act_bind m f s = (r, s')"
  obtains e where "m s = (Inl e, s')" "r = Inl e"
  | x s1 where "m s = (Inr x, s1)" "f x s1 = (r, s')"
  using assms by (auto simp: act_bind_def split: prod.splits sum.splits)

lemma sysE:
  assumes "sys h f d = (r, d')"
  obtains e where "r = Inl (AtomicIo e)" "dk_nodes d' = dk_nodes d"
  | x where "r = Inr x" "f (dk_nodes d) = Inr (x, dk_nodes d')"
  using assms by (auto simp: sys_def tick_def split: option.splits sum.splits)

section \<open>Private names\<close>

definition RANDOM_NAME_ATTEMPTS :: nat where
  "RANDOM_NAME_ATTEMPTS = 32"

definition private_name :: "string \<Rightarrow> string \<Rightarrow> string" where
  "private_name hex purpose = ''.meridian-mcp-'' @ hex @ ''.'' @ purpose"

definition private_path ::
    "disk_host \<Rightarrow> path \<Rightarrow> string \<Rightarrow> disk \<Rightarrow> (atomic_error + path) \<times> disk" where
  "private_path h dir purpose d =
     (map_err Entropy (case dh_random h (dk_clock d) of Inl e \<Rightarrow> Inl e
        | Inr hex \<Rightarrow> Inr (join_name dir (private_name hex purpose))), tick d)"

text \<open>Opening with \<open>create_new\<close>: \<open>AlreadyExists\<close> is the value \<open>False\<close>.\<close>

definition create_new :: "path \<Rightarrow> nodes \<Rightarrow> string + (bool \<times> nodes)" where
  "create_new p ns =
     (if ns p = None then Inr (True, ns(p := Some (Regular []))) else Inr (False, ns))"

fun create_private_file ::
    "nat \<Rightarrow> disk_host \<Rightarrow> path \<Rightarrow> string \<Rightarrow> disk \<Rightarrow> (atomic_error + path) \<times> disk" where
  "create_private_file 0 h dir purpose d = (Inl TemporaryNameExhausted, d)"
| "create_private_file (Suc n) h dir purpose d =
     act_bind (private_path h dir purpose) (\<lambda>p.
     act_bind (sys h (create_new p)) (\<lambda>created.
       if created then act_return (Inr p) else create_private_file n h dir purpose)) d"

fun private_available_path ::
    "nat \<Rightarrow> disk_host \<Rightarrow> path \<Rightarrow> string \<Rightarrow> disk \<Rightarrow> (atomic_error + path) \<times> disk" where
  "private_available_path 0 h dir purpose d = (Inl TemporaryNameExhausted, d)"
| "private_available_path (Suc n) h dir purpose d =
     act_bind (private_path h dir purpose) (\<lambda>p d.
       case path_exists h p d of (present, d) \<Rightarrow>
         if present then private_available_path n h dir purpose d else (Inr p, d)) d"

section \<open>Installing a temporary\<close>

text \<open>An armed temporary that is dropped removes its file; a failure to remove is ignored.\<close>

definition guard_temporary ::
    "disk_host \<Rightarrow> path \<Rightarrow> (disk \<Rightarrow> (atomic_error + 'a) \<times> disk) \<Rightarrow> disk \<Rightarrow> (atomic_error + 'a) \<times> disk"
  where
  "guard_temporary h temporary m d =
     (case m d of (Inl e, d) \<Rightarrow> (Inl e, snd (sys h (remove_node temporary) d)) | r \<Rightarrow> r)"

definition no_parent :: atomic_error where
  "no_parent = AtomicIo ''output path has no parent''"

text \<open>Moving the existing output away; \<open>None\<close> when there is none.\<close>

definition take_backup ::
    "disk_host \<Rightarrow> path \<Rightarrow> path \<Rightarrow> disk \<Rightarrow> (atomic_error + path option) \<times> disk" where
  "take_backup h dir output d =
     (case path_exists h output d of (present, d) \<Rightarrow>
        if present then
          act_bind (private_available_path RANDOM_NAME_ATTEMPTS h dir ''backup'') (\<lambda>backup.
          act_bind (sys h (rename_node output backup)) (\<lambda>_. act_return (Inr (Some backup)))) d
        else (Inr None, d))"

text \<open>
  The rename, and the restoration of the backup when it fails: the error is \<open>Replacement\<close>
  when the restoration fails too.
\<close>

definition replace_output ::
    "disk_host \<Rightarrow> path \<Rightarrow> path \<Rightarrow> path option \<Rightarrow> disk \<Rightarrow> (atomic_error + unit) \<times> disk" where
  "replace_output h output temporary backup d =
     (case sys h (rename_node temporary output) d of
        (Inr _, d) \<Rightarrow> (Inr (), d)
      | (Inl install, d) \<Rightarrow>
          (case backup of None \<Rightarrow> (Inl install, d)
           | Some b \<Rightarrow>
               (case sys h (rename_node b output) d of
                  (Inr _, d) \<Rightarrow> (Inl install, d)
                | (Inl restore, d) \<Rightarrow>
                    (Inl (case (install, restore) of
                            (AtomicIo i, AtomicIo r) \<Rightarrow> Replacement i r | _ \<Rightarrow> install), d))))"

definition install_armed ::
    "disk_host \<Rightarrow> path \<Rightarrow> path \<Rightarrow> disk \<Rightarrow> (atomic_error + u64 \<times> string \<times> path option) \<times> disk" where
  "install_armed h output temporary =
     act_bind (act_return (or_err no_parent (parent output))) (\<lambda>dir.
     act_bind (sys h (read_node temporary)) (\<lambda>measured.
     act_bind (sys h (read_node temporary)) (\<lambda>content.
     act_bind (take_backup h dir output) (\<lambda>backup.
     act_bind (replace_output h output temporary backup) (\<lambda>_.
     act_return (Inr (word_of_nat (length measured), dh_digest h content, backup)))))))"

definition install_temporary ::
    "disk_host \<Rightarrow> path \<Rightarrow> path \<Rightarrow> disk \<Rightarrow> (atomic_error + output_artifact) \<times> disk" where
  "install_temporary h output temporary =
     act_bind (guard_temporary h temporary (install_armed h output temporary)) (\<lambda>(bytes, sha256, backup).
     act_bind (case backup of None \<Rightarrow> act_return (Inr ()) | Some b \<Rightarrow> sys h (remove_node b)) (\<lambda>_.
     act_bind (sys h (\<lambda>ns. rbind (fs_canonicalize (dh_view h ns) output) (\<lambda>p. Inr (p, ns)))) (\<lambda>p.
     act_return (Inr \<lparr>oa_path = p, oa_bytes = bytes, oa_sha256 = sha256\<rparr>))))"

section \<open>Writing, promoting and reserving\<close>

text \<open>What the three entry points do first: authorise, check the type, create the temporary.\<close>

definition open_output ::
    "disk_host \<Rightarrow> path_policy \<Rightarrow> path \<Rightarrow> bool \<Rightarrow> string \<Rightarrow> disk
     \<Rightarrow> (atomic_error + path \<times> path) \<times> disk" where
  "open_output h pol output overwrite purpose =
     act_bind (\<lambda>d. (map_err PolicyRefused (output_path (dh_view h (dk_nodes d)) pol output overwrite), d))
       (\<lambda>output d.
     case path_exists h output d of (present, d) \<Rightarrow>
     case (if present then path_is_file h output d else (True, d)) of (file, d) \<Rightarrow>
     if present \<and> \<not> file then (Inl (InvalidOutputType output), d)
     else
       act_bind (act_return (or_err no_parent (parent output))) (\<lambda>dir.
       act_bind (create_private_file RANDOM_NAME_ATTEMPTS h dir purpose) (\<lambda>temporary.
       act_return (Inr (output, temporary)))) d)"

text \<open>
  A writer is what it leaves in the temporary file, and the error it stopped with if any;
  \<open>flush\<close> and \<open>sync_all\<close> are calls that may fail.
\<close>

type_synonym file_writer = "string \<times> atomic_error option"

definition sync_file :: "disk_host \<Rightarrow> disk \<Rightarrow> (atomic_error + unit) \<times> disk" where
  "sync_file h = sys h (\<lambda>ns. Inr ((), ns))"

definition fill_temporary ::
    "disk_host \<Rightarrow> path \<Rightarrow> file_writer \<Rightarrow> disk \<Rightarrow> (atomic_error + unit) \<times> disk" where
  "fill_temporary h temporary w =
     act_bind (\<lambda>d. (case snd w of None \<Rightarrow> Inr () | Some e \<Rightarrow> Inl e,
                    d\<lparr>dk_nodes := (dk_nodes d)(temporary := Some (Regular (fst w)))\<rparr>)) (\<lambda>_.
     act_bind (sync_file h) (\<lambda>_. sync_file h))"

definition write_atomic ::
    "disk_host \<Rightarrow> path_policy \<Rightarrow> path \<Rightarrow> bool \<Rightarrow> file_writer \<Rightarrow> disk
     \<Rightarrow> (atomic_error + output_artifact) \<times> disk" where
  "write_atomic h pol output overwrite w =
     act_bind (open_output h pol output overwrite ''tmp'') (\<lambda>(output, temporary).
     act_bind (guard_temporary h temporary (fill_temporary h temporary w)) (\<lambda>_.
     install_temporary h output temporary))"

text \<open>What an external program left is accepted only when it is a regular file.\<close>

definition check_produced :: "disk_host \<Rightarrow> path \<Rightarrow> disk \<Rightarrow> (atomic_error + unit) \<times> disk" where
  "check_produced h temporary =
     act_bind (sys h (\<lambda>ns. case ns temporary of None \<Rightarrow> Inl ''not found'' | Some n \<Rightarrow> Inr (n, ns))) (\<lambda>n.
     case n of Regular _ \<Rightarrow> act_bind (sync_file h) (\<lambda>_. sync_file h)
     | _ \<Rightarrow> act_return (Inl (InvalidOutputType temporary)))"

definition promote_external_atomic ::
    "disk_host \<Rightarrow> path_policy \<Rightarrow> path \<Rightarrow> bool
     \<Rightarrow> (path \<Rightarrow> disk \<Rightarrow> (atomic_error + unit) \<times> disk) \<Rightarrow> disk
     \<Rightarrow> (atomic_error + output_artifact) \<times> disk" where
  "promote_external_atomic h pol output overwrite produce =
     act_bind (open_output h pol output overwrite ''external'') (\<lambda>(output, temporary).
     act_bind (guard_temporary h temporary
                 (act_bind (produce temporary) (\<lambda>_. check_produced h temporary))) (\<lambda>_.
     install_temporary h output temporary))"

record reserved_output =
  ro_output :: path
  ro_temporary :: path

definition reserve_external_atomic ::
    "disk_host \<Rightarrow> path_policy \<Rightarrow> path \<Rightarrow> bool \<Rightarrow> disk \<Rightarrow> (atomic_error + reserved_output) \<times> disk" where
  "reserve_external_atomic h pol output overwrite =
     act_bind (open_output h pol output overwrite ''external'') (\<lambda>(output, temporary).
       act_return (Inr \<lparr>ro_output = output, ro_temporary = temporary\<rparr>))"

definition commit_reserved ::
    "disk_host \<Rightarrow> reserved_output \<Rightarrow> disk \<Rightarrow> (atomic_error + output_artifact) \<times> disk" where
  "commit_reserved h r =
     act_bind (guard_temporary h (ro_temporary r) (check_produced h (ro_temporary r))) (\<lambda>_.
       install_temporary h (ro_output r) (ro_temporary r))"

definition drop_reserved :: "disk_host \<Rightarrow> reserved_output \<Rightarrow> disk \<Rightarrow> disk" where
  "drop_reserved h r d = snd (sys h (remove_node (ro_temporary r)) d)"

section \<open>Lemmas\<close>

text \<open>The names a directory's temporaries and backups have.\<close>

definition private_in :: "string \<Rightarrow> path \<Rightarrow> path \<Rightarrow> bool" where
  "private_in purpose out p \<longleftrightarrow>
     (\<exists>dir hex. parent out = Some dir \<and> p = join_name dir (private_name hex purpose))"

definition named_privately :: "path \<Rightarrow> bool" where
  "named_privately p \<longleftrightarrow> (\<exists>n. file_name p = Some n \<and> prefix ''.meridian-mcp-'' n)"

lemma private_named: "private_in purpose out p \<Longrightarrow> named_privately p"
  by (auto simp: private_in_def named_privately_def private_name_def)

lemma private_purposes_differ:
  assumes "private_in ''backup'' out p" "private_in purpose out q"
    "purpose \<in> {''tmp'', ''external''}"
  shows "p \<noteq> q"
proof
  assume "p = q"
  with assms(1,2) obtain a b where "private_name a ''backup'' = private_name b purpose"
    by (auto simp: private_in_def join_name_def)
  from arg_cong[OF this, of rev] show False using assms(3) by (auto simp: private_name_def)
qed

lemma tick_nodes [simp]: "dk_nodes (tick d) = dk_nodes d"
  by (simp add: tick_def)

lemma path_exists_nodes: "path_exists h p d = (b, d') \<Longrightarrow> dk_nodes d' = dk_nodes d"
  by (auto simp: path_exists_def)

lemma private_pathE:
  assumes "private_path h dir purpose d = (r, d')"
  obtains e where "r = Inl (Entropy e)" "dk_nodes d' = dk_nodes d"
  | hex where "r = Inr (join_name dir (private_name hex purpose))" "dk_nodes d' = dk_nodes d"
  using assms by (auto simp: private_path_def map_err_def split: sum.splits)

lemma create_private_file_post:
  "create_private_file n h dir purpose d = (r, d') \<Longrightarrow>
     (case r of Inl e \<Rightarrow> dk_nodes d' = dk_nodes d
      | Inr p \<Rightarrow> (\<exists>hex. p = join_name dir (private_name hex purpose)) \<and> dk_nodes d p = None
          \<and> dk_nodes d' = (dk_nodes d)(p := Some (Regular [])))"
proof (induction n arbitrary: d)
  case 0
  then show ?case by auto
next
  case (Suc n)
  from Suc.prems show ?case
    unfolding create_private_file.simps
  proof (rule act_bindE)
    fix e
    assume "private_path h dir purpose d = (Inl e, d')" "r = Inl e"
    then show ?thesis by (auto elim: private_pathE)
  next
    fix p s1
    assume first: "private_path h dir purpose d = (Inr p, s1)"
      and run: "act_bind (sys h (create_new p)) (\<lambda>created. if created then act_return (Inr p)
         else create_private_file n h dir purpose) s1 = (r, d')"
    have s1: "dk_nodes s1 = dk_nodes d" and p: "\<exists>hex. p = join_name dir (private_name hex purpose)"
      using first by (auto elim: private_pathE)
    from run show ?thesis
    proof (rule act_bindE)
      fix e
      assume "sys h (create_new p) s1 = (Inl e, d')" "r = Inl e"
      then show ?thesis using s1 by (auto elim: sysE)
    next
      fix created s2
      assume "sys h (create_new p) s1 = (Inr created, s2)"
        and rest: "(if created then act_return (Inr p) else create_private_file n h dir purpose) s2 = (r, d')"
      then have new: "create_new p (dk_nodes d) = Inr (created, dk_nodes s2)"
        using s1 by (auto elim: sysE)
      show ?thesis
      proof (cases created)
        case True
        with new have "dk_nodes d p = None" "dk_nodes s2 = (dk_nodes d)(p := Some (Regular []))"
          by (simp_all add: create_new_def split: if_splits)
        moreover have "r = Inr p" "d' = s2" using rest True by (simp_all add: act_return_def)
        ultimately show ?thesis using p by simp
      next
        case False
        with new have "dk_nodes s2 = dk_nodes d"
          by (simp add: create_new_def split: if_splits)
        then show ?thesis using rest False Suc.IH[of s2] by (simp split: sum.splits)
      qed
    qed
  qed
qed

lemma private_available_path_post:
  "private_available_path n h dir purpose d = (r, d') \<Longrightarrow>
     dk_nodes d' = dk_nodes d
     \<and> (\<forall>p. r = Inr p \<longrightarrow> (\<exists>hex. p = join_name dir (private_name hex purpose)))"
proof (induction n arbitrary: d)
  case 0
  then show ?case by auto
next
  case (Suc n)
  from Suc.prems show ?case
    unfolding private_available_path.simps
  proof (rule act_bindE)
    fix e
    assume "private_path h dir purpose d = (Inl e, d')" "r = Inl e"
    then show ?thesis by (auto elim: private_pathE)
  next
    fix p s1
    assume first: "private_path h dir purpose d = (Inr p, s1)"
      and run: "(case path_exists h p s1 of (present, d) \<Rightarrow>
         if present then private_available_path n h dir purpose d else (Inr p, d)) = (r, d')"
    obtain present d1 where p: "path_exists h p s1 = (present, d1)"
      by fastforce
    have "dk_nodes d1 = dk_nodes d" "\<exists>hex. p = join_name dir (private_name hex purpose)"
      using path_exists_nodes[OF p] first by (auto elim: private_pathE)
    then show ?thesis
      using run Suc.IH[of d1] by (cases present) (auto simp: p)
  qed
qed

text \<open>The backup and the replacement, as changes of the nodes.\<close>

lemma take_backup_post:
  assumes "take_backup h dir out d = (r, d')"
  shows "case r of Inr (Some b) \<Rightarrow> (\<exists>hex. b = join_name dir (private_name hex ''backup''))
            \<and> dk_nodes d' = (dk_nodes d)(out := None, b := dk_nodes d out)
          | _ \<Rightarrow> dk_nodes d' = dk_nodes d"
proof -
  obtain present d1 where p: "path_exists h out d = (present, d1)" by fastforce
  then have d1: "dk_nodes d1 = dk_nodes d" by (rule path_exists_nodes)
  show ?thesis
  proof (cases present)
    case False
    then show ?thesis using assms d1 by (auto simp: take_backup_def p)
  next
    case True
    with assms have "act_bind (private_available_path RANDOM_NAME_ATTEMPTS h dir ''backup'') (\<lambda>backup.
        act_bind (sys h (rename_node out backup)) (\<lambda>_. act_return (Inr (Some backup)))) d1 = (r, d')"
      by (simp add: take_backup_def p)
    then show ?thesis
      by (elim act_bindE sysE)
        (auto simp: act_return_def rename_node_def d1 dest!: private_available_path_post
          split: option.splits if_splits)
  qed
qed

lemma replace_output_post:
  assumes "replace_output h out tmp backup d = (r, d')" "dk_nodes d tmp = Some n" "tmp \<noteq> out"
  shows "case r of Inr _ \<Rightarrow> dk_nodes d' = (dk_nodes d)(tmp := None, out := Some n)
          | Inl e \<Rightarrow> dk_nodes d' = dk_nodes d \<and> (backup = None \<or> (\<exists>i s. e = Replacement i s))
              \<or> (\<exists>b m. backup = Some b \<and> dk_nodes d b = Some m \<and>
                    dk_nodes d' = (dk_nodes d)(b := None, out := Some m))"
proof -
  obtain r1 d1 where first: "sys h (rename_node tmp out) d = (r1, d1)" by fastforce
  show ?thesis
  proof (cases r1)
    case (Inr u)
    with first have "rename_node tmp out (dk_nodes d) = Inr ((), dk_nodes d1)"
      by (auto elim: sysE)
    then show ?thesis
      using assms Inr by (auto simp: replace_output_def first rename_node_def split: if_splits)
  next
    case (Inl install)
    with first obtain i where i: "install = AtomicIo i" and d1: "dk_nodes d1 = dk_nodes d"
      by (auto elim: sysE)
    show ?thesis
    proof (cases backup)
      case None
      then show ?thesis using assms(1) Inl d1 by (auto simp: replace_output_def first)
    next
      case (Some b)
      obtain r2 d2 where second: "sys h (rename_node b out) d1 = (r2, d2)" by fastforce
      then show ?thesis
      proof (cases rule: sysE)
        case (1 e)
        then show ?thesis using assms(1) Inl Some i d1 by (auto simp: replace_output_def first second)
      next
        case (2 u)
        then show ?thesis
          using assms(1) Inl Some d1
          by (auto simp: replace_output_def first second rename_node_def split: option.splits if_splits)
      qed
    qed
  qed
qed

lemma sys_remove:
  assumes "sys h (remove_node p) d = (r, d')"
  shows "dk_nodes d' = dk_nodes d \<or> dk_nodes d' = (dk_nodes d)(p := None)"
  using assms by (rule sysE) (auto simp: remove_node_def split: option.splits node.splits)

lemma guard_temporaryE:
  assumes "guard_temporary h tmp m d = (r, d')"
  obtains x where "m d = (Inr x, d')" "r = Inr x"
  | e d1 where "m d = (Inl e, d1)" "r = Inl e"
      "dk_nodes d' = dk_nodes d1 \<or> dk_nodes d' = (dk_nodes d1)(tmp := None)"
proof (cases "m d")
  case (Pair r1 d1)
  show ?thesis
  proof (cases r1)
    case (Inr x)
    then show ?thesis using assms Pair that(1) by (auto simp: guard_temporary_def)
  next
    case (Inl e)
    obtain r2 d2 where drop: "sys h (remove_node tmp) d1 = (r2, d2)" by fastforce
    then have "dk_nodes d2 = dk_nodes d1 \<or> dk_nodes d2 = (dk_nodes d1)(tmp := None)"
      by (rule sys_remove)
    then show ?thesis using assms Pair Inl that(2) by (auto simp: guard_temporary_def drop)
  qed
qed

text \<open>
  The outcome of an installation on nodes \<open>ns\<close> that hold the content \<open>c\<close> at the temporary:
  \<open>kept\<close> leaves the output as it was, \<open>saved\<close> has it at a backup, \<open>placed\<close> has the new one.
\<close>

definition frame :: "path \<Rightarrow> nodes \<Rightarrow> nodes \<Rightarrow> bool" where
  "frame out ns ns' \<longleftrightarrow> (\<forall>p. p \<noteq> out \<and> \<not> named_privately p \<longrightarrow> ns' p = ns p)"

definition saved :: "path \<Rightarrow> nodes \<Rightarrow> nodes \<Rightarrow> atomic_error \<Rightarrow> bool" where
  "saved out ns ns' e \<longleftrightarrow> ns' out = None \<and> (\<exists>i s. e = Replacement i s)
     \<and> (\<exists>b. private_in ''backup'' out b \<and> ns' b = ns out)"

lemma savedD:
  assumes "saved out ns ns' e"
  shows "ns' out = None \<and> (\<exists>i s. e = Replacement i s)
    \<and> (\<exists>b. named_privately b \<and> parent b = parent out \<and> ns' b = ns out)"
proof -
  have "private_in ''backup'' out b \<Longrightarrow> parent b = parent out" for b
    by (auto simp: private_in_def)
  then show ?thesis using assms private_named unfolding saved_def by metis
qed

lemma frame_trans: "frame out a b \<Longrightarrow> frame out b c \<Longrightarrow> frame out a c"
  by (simp add: frame_def)

lemma follow_regular: "ns p = Some (Regular c) \<Longrightarrow> follow 40 ns p = Some (Regular c)"
  by (simp add: numeral_eq_Suc)

definition install_outcome ::
    "disk_host \<Rightarrow> path \<Rightarrow> string \<Rightarrow> nodes \<Rightarrow> nodes \<Rightarrow> atomic_error + u64 \<times> string \<times> path option \<Rightarrow> bool"
  where
  "install_outcome h out c ns ns' r \<longleftrightarrow> frame out ns ns' \<and>
    (case r of Inr (bytes, sha, backup) \<Rightarrow>
        ns' out = Some (Regular c) \<and> bytes = word_of_nat (length c) \<and> sha = dh_digest h c
        \<and> (\<forall>b. backup = Some b \<longrightarrow> private_in ''backup'' out b)
     | Inl e \<Rightarrow> ns' out = ns out \<or> saved out ns ns' e)"

lemma install_outcome_same: "install_outcome h out c ns ns (Inl e)"
  by (simp add: install_outcome_def frame_def)

lemma replace_outcome:
  assumes run: "act_bind (take_backup h dir out) (\<lambda>backup.
       act_bind (replace_output h out tmp backup) (\<lambda>_.
       act_return (Inr (word_of_nat (length c), dh_digest h c, backup)))) d = (r, d')"
    and dir: "parent out = Some dir"
    and tmp: "private_in purpose out tmp" "purpose \<in> {''tmp'', ''external''}"
    and out: "\<not> named_privately out"
    and content: "dk_nodes d tmp = Some (Regular c)"
  shows "install_outcome h out c (dk_nodes d) (dk_nodes d') r"
proof -
  have tmp_out: "tmp \<noteq> out" using out private_named[OF tmp(1)] by auto
  have tmp_named: "named_privately tmp" using tmp(1) by (rule private_named)
  from run show ?thesis
  proof (rule act_bindE)
    fix e
    assume "take_backup h dir out d = (Inl e, d')" "r = Inl e"
    then show ?thesis using take_backup_post[of h dir out d "Inl e" d'] by (simp add: install_outcome_same)
  next
    fix backup d1
    assume backup: "take_backup h dir out d = (Inr backup, d1)"
    define taken where "taken = (case backup of Some b \<Rightarrow> private_in ''backup'' out b \<and> b \<noteq> out \<and> b \<noteq> tmp
        \<and> named_privately b \<and> dk_nodes d1 = (dk_nodes d)(out := None, b := dk_nodes d out)
      | None \<Rightarrow> dk_nodes d1 = dk_nodes d)"
    have taken: taken
    proof (cases backup)
      case None
      then show ?thesis using take_backup_post[OF backup] by (simp add: taken_def)
    next
      case (Some b)
      then have b: "private_in ''backup'' out b" "dk_nodes d1 = (dk_nodes d)(out := None, b := dk_nodes d out)"
        using take_backup_post[OF backup] dir by (auto simp: private_in_def)
      moreover have "b \<noteq> tmp" using private_purposes_differ[OF b(1) tmp] .
      moreover have "named_privately b" using b(1) by (rule private_named)
      ultimately show ?thesis using out Some by (auto simp: taken_def)
    qed
    then have tmp1: "dk_nodes d1 tmp = Some (Regular c)"
      using content tmp_out by (auto simp: taken_def split: option.splits)
    assume "act_bind (replace_output h out tmp backup) (\<lambda>_.
       act_return (Inr (word_of_nat (length c), dh_digest h c, backup))) d1 = (r, d')"
    then show ?thesis
    proof (rule act_bindE)
      fix e
      assume "replace_output h out tmp backup d1 = (Inl e, d')" "r = Inl e"
      then show ?thesis
        using replace_output_post[of h out tmp backup d1 "Inl e" d', OF _ tmp1 tmp_out] taken
        by (cases backup) (auto simp: taken_def install_outcome_def frame_def saved_def)
    next
      fix u d2
      assume "replace_output h out tmp backup d1 = (Inr u, d2)"
        "act_return (Inr (word_of_nat (length c), dh_digest h c, backup)) d2 = (r, d')"
      then show ?thesis
        using replace_output_post[of h out tmp backup d1 "Inr u" d2, OF _ tmp1 tmp_out] taken tmp_named
        by (cases backup) (auto simp: taken_def install_outcome_def frame_def act_return_def)
    qed
  qed
qed

lemma install_armed_post:
  assumes run: "install_armed h out tmp d = (r, d')"
    and tmp: "private_in purpose out tmp" "purpose \<in> {''tmp'', ''external''}"
    and out: "\<not> named_privately out"
    and content: "dk_nodes d tmp = Some (Regular c)"
  shows "install_outcome h out c (dk_nodes d) (dk_nodes d') r"
proof -
  obtain dir where dir: "parent out = Some dir" using tmp by (auto simp: private_in_def)
  have read: "read_node tmp (dk_nodes d) = Inr (c, dk_nodes d)"
    using content by (simp add: read_node_def follow_regular)
  let ?tail = "\<lambda>m c'. act_bind (take_backup h dir out) (\<lambda>backup.
     act_bind (replace_output h out tmp backup) (\<lambda>_.
     act_return (Inr (word_of_nat (length m), dh_digest h c', backup))))"
  from run have "act_bind (sys h (read_node tmp)) (\<lambda>m. act_bind (sys h (read_node tmp)) (?tail m)) d = (r, d')"
    by (simp add: install_armed_def dir act_bind_def[of "act_return _"] act_return_def or_err_def)
  then show ?thesis
  proof (rule act_bindE)
    fix e
    assume "sys h (read_node tmp) d = (Inl e, d')" "r = Inl e"
    then show ?thesis using install_outcome_same by (auto elim!: sysE)
  next
    fix m d1
    assume "sys h (read_node tmp) d = (Inr m, d1)"
    then have d1: "m = c" "dk_nodes d1 = dk_nodes d" using read by (auto elim!: sysE)
    assume "act_bind (sys h (read_node tmp)) (?tail m) d1 = (r, d')"
    then show ?thesis
    proof (rule act_bindE)
      fix e
      assume "sys h (read_node tmp) d1 = (Inl e, d')" "r = Inl e"
      then show ?thesis using d1 install_outcome_same by (auto elim!: sysE)
    next
      fix c' d2
      assume "sys h (read_node tmp) d1 = (Inr c', d2)"
      then have d2: "c' = c" "dk_nodes d2 = dk_nodes d" using read d1 by (auto elim!: sysE)
      assume "?tail m c' d2 = (r, d')"
      then show ?thesis
        using replace_outcome[OF _ dir tmp out, of h c d2] content d1 d2 by simp
    qed
  qed
qed

text \<open>The outcome of a whole call: what the artifact describes is what the output holds.\<close>

definition written_outcome ::
    "disk_host \<Rightarrow> path \<Rightarrow> (string \<Rightarrow> bool) \<Rightarrow> nodes \<Rightarrow> nodes \<Rightarrow> atomic_error + output_artifact \<Rightarrow> bool" where
  "written_outcome h out content ns ns' r \<longleftrightarrow> frame out ns ns' \<and>
    (case r of Inr a \<Rightarrow> (\<exists>c. content c \<and> ns' out = Some (Regular c)
          \<and> oa_bytes a = word_of_nat (length c) \<and> oa_sha256 a = dh_digest h c)
     | Inl e \<Rightarrow> ns' out = ns out \<or> (\<exists>c. content c \<and> ns' out = Some (Regular c)) \<or> saved out ns ns' e)"

lemma frame_remove: "named_privately p \<Longrightarrow> frame out ns ns' \<Longrightarrow> frame out ns (ns'(p := v))"
  by (auto simp: frame_def)

lemma written_same: "written_outcome h out content ns ns (Inl e)"
  by (simp add: written_outcome_def frame_def)

text \<open>Changing only private files before the installation does not matter to its outcome.\<close>

lemma written_before:
  assumes "written_outcome h out content ns1 ns' r" "frame out ns ns1" "ns1 out = ns out"
  shows "written_outcome h out content ns ns' r"
proof -
  have "saved out ns1 ns' e \<Longrightarrow> saved out ns ns' e" for e
    using assms(3) by (simp add: saved_def)
  then show ?thesis
    using assms frame_trans[OF assms(2)] by (auto simp: written_outcome_def split: sum.splits)
qed

lemma written_failed:
  assumes "frame out ns ns'" "ns' out = ns out"
  shows "written_outcome h out content ns ns' (Inl e)"
  using assms by (simp add: written_outcome_def)

lemma install_temporary_post:
  assumes run: "install_temporary h out tmp d = (r, d')"
    and tmp: "private_in purpose out tmp" "purpose \<in> {''tmp'', ''external''}"
    and out: "\<not> named_privately out"
    and content: "dk_nodes d tmp = Some (Regular c)"
  shows "written_outcome h out ((=) c) (dk_nodes d) (dk_nodes d') r"
proof -
  have named: "named_privately tmp" using tmp(1) by (rule private_named)
  have tmp_out: "tmp \<noteq> out" using out named by auto
  from run[unfolded install_temporary_def] show ?thesis
  proof (rule act_bindE)
    fix e
    assume "guard_temporary h tmp (install_armed h out tmp) d = (Inl e, d')" and r: "r = Inl e"
    then obtain d1 where d1: "install_armed h out tmp d = (Inl e, d1)"
      "dk_nodes d' = dk_nodes d1 \<or> dk_nodes d' = (dk_nodes d1)(tmp := None)"
      by (auto elim: guard_temporaryE)
    have o: "frame out (dk_nodes d) (dk_nodes d1)"
      "dk_nodes d1 out = dk_nodes d out \<or> saved out (dk_nodes d) (dk_nodes d1) e"
      using install_armed_post[OF d1(1) tmp out content] by (simp_all add: install_outcome_def)
    have "saved out (dk_nodes d) ns e \<Longrightarrow> saved out (dk_nodes d) (ns(tmp := None)) e" for ns
      using tmp_out private_purposes_differ[OF _ tmp, of _] unfolding saved_def by (metis fun_upd_other)
    then show ?thesis
      using o d1(2) frame_remove[OF named o(1)] tmp_out unfolding r written_outcome_def by auto
  next
    fix x :: "u64 \<times> string \<times> path option" and d1
    obtain bytes sha backup where x: "x = (bytes, sha, backup)" by (cases x)
    assume "guard_temporary h tmp (install_armed h out tmp) d = (Inr x, d1)"
    then have "install_armed h out tmp d = (Inr x, d1)" by (auto elim: guard_temporaryE)
    then have o: "frame out (dk_nodes d) (dk_nodes d1)" "dk_nodes d1 out = Some (Regular c)"
      "bytes = word_of_nat (length c)" "sha = dh_digest h c"
      "\<And>b. backup = Some b \<Longrightarrow> named_privately b"
      using install_armed_post[OF _ tmp out content, of h "Inr x" d1] private_named
      by (auto simp: install_outcome_def x)
    assume "(case x of (bytes, sha256, backup) \<Rightarrow>
       act_bind (case backup of None \<Rightarrow> act_return (Inr ()) | Some b \<Rightarrow> sys h (remove_node b)) (\<lambda>_.
       act_bind (sys h (\<lambda>ns. rbind (fs_canonicalize (dh_view h ns) out) (\<lambda>p. Inr (p, ns)))) (\<lambda>p.
       act_return (Inr \<lparr>oa_path = p, oa_bytes = bytes, oa_sha256 = sha256\<rparr>)))) d1 = (r, d')"
    then have rest: "act_bind (case backup of None \<Rightarrow> act_return (Inr ()) | Some b \<Rightarrow> sys h (remove_node b)) (\<lambda>_.
       act_bind (sys h (\<lambda>ns. rbind (fs_canonicalize (dh_view h ns) out) (\<lambda>p. Inr (p, ns)))) (\<lambda>p.
       act_return (Inr \<lparr>oa_path = p, oa_bytes = bytes, oa_sha256 = sha\<rparr>))) d1 = (r, d')"
      by (simp add: x)
    have removed: "frame out (dk_nodes d) (dk_nodes d2) \<and> dk_nodes d2 out = Some (Regular c)"
      if "(case backup of None \<Rightarrow> act_return (Inr ()) | Some b \<Rightarrow> sys h (remove_node b)) d1 = (s, d2)" for s d2
    proof (cases backup)
      case None
      then show ?thesis using that o by (simp add: act_return_def)
    next
      case (Some b)
      then show ?thesis
        using sys_remove[of h b d1 s d2] that o(1,2) frame_remove[OF o(5) o(1)] o(5)[of b] out by auto
    qed
    from rest have "frame out (dk_nodes d) (dk_nodes d') \<and> dk_nodes d' out = Some (Regular c)
        \<and> (\<forall>a. r = Inr a \<longrightarrow> oa_bytes a = bytes \<and> oa_sha256 a = sha)"
      by (elim act_bindE sysE) (auto simp: act_return_def rbind_Inr dest: removed)
    then show ?thesis using o unfolding written_outcome_def by (cases r) auto
  qed
qed

lemma open_output_post:
  assumes "open_output h pol output overwrite purpose d = (r, d')"
  shows "case r of Inl e \<Rightarrow> dk_nodes d' = dk_nodes d
    | Inr (out, tmp) \<Rightarrow> output_path (dh_view h (dk_nodes d)) pol output overwrite = Inr out
        \<and> private_in purpose out tmp \<and> dk_nodes d tmp = None
        \<and> dk_nodes d' = (dk_nodes d)(tmp := Some (Regular []))"
  using assms unfolding open_output_def
proof (rule act_bindE)
  fix e
  assume "(map_err PolicyRefused (output_path (dh_view h (dk_nodes d)) pol output overwrite), d) = (Inl e, d')"
    "r = Inl e"
  then show ?thesis by auto
next
  fix out d1
  assume "(map_err PolicyRefused (output_path (dh_view h (dk_nodes d)) pol output overwrite), d) = (Inr out, d1)"
  then have out: "output_path (dh_view h (dk_nodes d)) pol output overwrite = Inr out" and d1: "d1 = d"
    by (auto simp: map_err_Inr)
  obtain present d2 where present: "path_exists h out d1 = (present, d2)" by fastforce
  obtain isfile d3 where type: "(if present then path_is_file h out d2 else (True, d2)) = (isfile, d3)"
    by fastforce
  have d3: "dk_nodes d3 = dk_nodes d"
    using type path_exists_nodes[OF present] d1 by (auto simp: path_is_file_def split: if_splits)
  assume "(case path_exists h out d1 of (present, d) \<Rightarrow>
     case (if present then path_is_file h out d else (True, d)) of (file, d) \<Rightarrow>
     if present \<and> \<not> file then (Inl (InvalidOutputType out), d)
     else
       act_bind (act_return (or_err no_parent (parent out))) (\<lambda>dir.
       act_bind (create_private_file RANDOM_NAME_ATTEMPTS h dir purpose) (\<lambda>temporary.
       act_return (Inr (out, temporary)))) d) = (r, d')"
  then have rest: "(if present \<and> \<not> isfile then (Inl (InvalidOutputType out), d3)
     else act_bind (act_return (or_err no_parent (parent out))) (\<lambda>dir.
       act_bind (create_private_file RANDOM_NAME_ATTEMPTS h dir purpose) (\<lambda>temporary.
       act_return (Inr (out, temporary)))) d3) = (r, d')"
    by (simp only: present type prod.case)
  show ?thesis
  proof (cases "present \<and> \<not> isfile")
    case True
    then show ?thesis using rest d3 by auto
  next
    case False
    with rest have "act_bind (act_return (or_err no_parent (parent out))) (\<lambda>dir.
       act_bind (create_private_file RANDOM_NAME_ATTEMPTS h dir purpose) (\<lambda>temporary.
       act_return (Inr (out, temporary)))) d3 = (r, d')" by meson
    then show ?thesis
    proof (elim act_bindE)
      fix dir s1 e
      assume "act_return (or_err no_parent (parent out)) d3 = (Inr dir, s1)"
        "create_private_file RANDOM_NAME_ATTEMPTS h dir purpose s1 = (Inl e, d')" "r = Inl e"
      then show ?thesis
        using create_private_file_post[of RANDOM_NAME_ATTEMPTS h dir purpose s1 "Inl e" d'] d3
        by (simp add: act_return_def)
    next
      fix dir s1 tmp s2
      assume "act_return (or_err no_parent (parent out)) d3 = (Inr dir, s1)"
        and create: "create_private_file RANDOM_NAME_ATTEMPTS h dir purpose s1 = (Inr tmp, s2)"
        and "act_return (Inr (out, tmp)) s2 = (r, d')"
      then have "parent out = Some dir" "dk_nodes s1 = dk_nodes d" "r = Inr (out, tmp)" "s2 = d'"
        using d3 by (auto simp: act_return_def or_err_Inr)
      then show ?thesis
        using create_private_file_post[OF create] out by (auto simp: private_in_def)
    qed (use d3 in \<open>auto simp: act_return_def\<close>)
  qed
qed

lemma fill_temporary_post:
  assumes "fill_temporary h tmp w d = (r, d')"
  shows "dk_nodes d' = (dk_nodes d)(tmp := Some (Regular (fst w))) \<and> (\<forall>u. r = Inr u \<longrightarrow> snd w = None)"
  using assms unfolding fill_temporary_def sync_file_def
  by (elim act_bindE sysE) (auto split: option.splits)

lemma check_produced_post:
  assumes "check_produced h tmp d = (r, d')"
  shows "dk_nodes d' = dk_nodes d \<and> (\<forall>u. r = Inr u \<longrightarrow> (\<exists>c. dk_nodes d tmp = Some (Regular c)))"
  using assms unfolding check_produced_def sync_file_def
  by (elim act_bindE sysE)
    (auto simp: act_return_def split: option.splits node.splits elim!: act_bindE sysE)

text \<open>A guarded preparation of the temporary followed by its installation.\<close>

lemma prepare_and_install:
  assumes run: "act_bind (guard_temporary h tmp m) (\<lambda>_. install_temporary h out tmp) d = (r, d')"
    and tmp: "private_in purpose out tmp" "purpose \<in> {''tmp'', ''external''}"
    and out: "\<not> named_privately out"
    and frame: "\<And>s d1. m d = (s, d1) \<Longrightarrow> (\<forall>p. p \<noteq> tmp \<longrightarrow> dk_nodes d1 p = dk_nodes d p)"
    and filled: "\<And>u d1. m d = (Inr u, d1) \<Longrightarrow> \<exists>c. content c \<and> dk_nodes d1 tmp = Some (Regular c)"
  shows "written_outcome h out content (dk_nodes d) (dk_nodes d') r"
proof -
  have named: "named_privately tmp" "tmp \<noteq> out" using private_named[OF tmp(1)] out by auto
  have before: "Atomic_Output.frame out (dk_nodes d) (dk_nodes d1) \<and> dk_nodes d1 out = dk_nodes d out"
    if "m d = (s, d1)" for s d1
    using frame[OF that] named by (auto simp: frame_def)
  from run show ?thesis
  proof (rule act_bindE)
    fix e
    assume "guard_temporary h tmp m d = (Inl e, d')" and r: "r = Inl e"
    then obtain d1 where d1: "m d = (Inl e, d1)"
      "dk_nodes d' = dk_nodes d1 \<or> dk_nodes d' = (dk_nodes d1)(tmp := None)"
      by (auto elim: guard_temporaryE)
    have "Atomic_Output.frame out (dk_nodes d) (dk_nodes d')" "dk_nodes d' out = dk_nodes d out"
      using d1(2) before[OF d1(1)] named frame_remove[OF named(1)] by auto
    then show ?thesis unfolding r by (rule written_failed)
  next
    fix u d1
    assume "guard_temporary h tmp m d = (Inr u, d1)"
    then have d1: "m d = (Inr u, d1)" by (auto elim: guard_temporaryE)
    then obtain c where c: "content c" "dk_nodes d1 tmp = Some (Regular c)" using filled by blast
    assume "install_temporary h out tmp d1 = (r, d')"
    from install_temporary_post[OF this tmp out c(2)]
    have "written_outcome h out content (dk_nodes d1) (dk_nodes d') r"
      using c(1) unfolding written_outcome_def by (cases r) auto
    moreover have "Atomic_Output.frame out (dk_nodes d) (dk_nodes d1)" "dk_nodes d1 out = dk_nodes d out"
      using before[OF d1] by simp_all
    ultimately show ?thesis by (rule written_before)
  qed
qed

lemma write_atomic_outcome:
  assumes "output_path (dh_view h (dk_nodes d)) pol path overwrite = Inr out"
    and "\<not> named_privately out"
    and "write_atomic h pol path overwrite w d = (r, d')"
  shows "(\<forall>p. p \<noteq> out \<and> \<not> named_privately p \<longrightarrow> dk_nodes d' p = dk_nodes d p)
    \<and> (case r of
         Inr a \<Rightarrow> snd w = None \<and> dk_nodes d' out = Some (Regular (fst w))
           \<and> oa_bytes a = word_of_nat (length (fst w)) \<and> oa_sha256 a = dh_digest h (fst w)
       | Inl e \<Rightarrow> dk_nodes d' out = dk_nodes d out
           \<or> snd w = None \<and> dk_nodes d' out = Some (Regular (fst w))
           \<or> dk_nodes d' out = None \<and> (\<exists>i s. e = Replacement i s)
              \<and> (\<exists>b. named_privately b \<and> parent b = parent out \<and> dk_nodes d' b = dk_nodes d out))"
proof -
  have "written_outcome h out (\<lambda>c. snd w = None \<and> c = fst w) (dk_nodes d) (dk_nodes d') r"
    using assms(3) unfolding write_atomic_def
  proof (rule act_bindE)
    fix e
    assume "open_output h pol path overwrite ''tmp'' d = (Inl e, d')" "r = Inl e"
    then show ?thesis using open_output_post[of h pol path overwrite "''tmp''" d "Inl e" d'] written_same by simp
  next
    fix x d1
    assume opened: "open_output h pol path overwrite ''tmp'' d = (Inr x, d1)"
      and rest: "(case x of (output, temporary) \<Rightarrow>
         act_bind (guard_temporary h temporary (fill_temporary h temporary w)) (\<lambda>_.
         install_temporary h output temporary)) d1 = (r, d')"
    obtain tmp where x: "x = (out, tmp)" and tmp: "private_in ''tmp'' out tmp"
      and d1: "dk_nodes d1 = (dk_nodes d)(tmp := Some (Regular []))"
      using open_output_post[OF opened] assms(1) by (cases x) auto
    have named: "named_privately tmp" "tmp \<noteq> out" using private_named[OF tmp] assms(2) by auto
    have "written_outcome h out (\<lambda>c. snd w = None \<and> c = fst w) (dk_nodes d1) (dk_nodes d') r"
    proof (rule prepare_and_install[where m = "fill_temporary h tmp w", OF _ tmp _ assms(2)])
      show "act_bind (guard_temporary h tmp (fill_temporary h tmp w))
          (\<lambda>_. install_temporary h out tmp) d1 = (r, d')"
        using rest by (simp add: x)
    qed (auto dest!: fill_temporary_post)
    then show ?thesis by (rule written_before) (use named in \<open>auto simp: d1 frame_def\<close>)
  qed
  then show ?thesis
    unfolding written_outcome_def frame_def by (cases r) (auto dest: savedD)
qed

text \<open>
  C11. Writing a file atomically never leaves the output half-written, whatever system calls
  fail: on success the output holds exactly what the writer wrote and the returned artifact
  states its length and digest; on failure the output is as it was, or holds everything the
  writer wrote, or (only with the \<open>Replacement\<close> error) its previous node is intact at a backup
  beside it; and no other file but the private temporaries changes.
\<close>

theorem write_atomic_all_or_nothing:
  assumes "output_path (dh_view h (dk_nodes d)) pol path overwrite = Inr out"
    and "\<not> named_privately out"
    and "write_atomic h pol path overwrite w d = (r, d')"
  shows "(\<forall>p. p \<noteq> out \<and> \<not> named_privately p \<longrightarrow> dk_nodes d' p = dk_nodes d p)
    \<and> (case r of
         Inr a \<Rightarrow> snd w = None \<and> dk_nodes d' out = Some (Regular (fst w))
           \<and> oa_bytes a = word_of_nat (length (fst w)) \<and> oa_sha256 a = dh_digest h (fst w)
       | Inl e \<Rightarrow> dk_nodes d' out = dk_nodes d out
           \<or> snd w = None \<and> dk_nodes d' out = Some (Regular (fst w))
           \<or> dk_nodes d' out = None \<and> (\<exists>i s. e = Replacement i s)
              \<and> (\<exists>b. named_privately b \<and> parent b = parent out \<and> dk_nodes d' b = dk_nodes d out))"
  using assms by (rule write_atomic_outcome)

text \<open>
  Promoting what an external program produced, when the program changes nothing but the
  temporary file it was given, installs exactly the regular file the program left there or
  leaves the output alone; a directory or link in its place is never installed.
\<close>

lemma promote_external_all_or_nothing:
  assumes "output_path (dh_view h (dk_nodes d)) pol path overwrite = Inr out"
    and "\<not> named_privately out"
    and produced: "\<And>tmp d s d1 p. produce tmp d = (s, d1) \<Longrightarrow> p \<noteq> tmp \<Longrightarrow> dk_nodes d1 p = dk_nodes d p"
    and run: "promote_external_atomic h pol path overwrite produce d = (r, d')"
  shows "(\<forall>p. p \<noteq> out \<and> \<not> named_privately p \<longrightarrow> dk_nodes d' p = dk_nodes d p)
    \<and> (case r of
         Inr a \<Rightarrow> \<exists>c. dk_nodes d' out = Some (Regular c) \<and> (\<exists>tmp d0 u d1. produce tmp d0 = (Inr u, d1)
             \<and> dk_nodes d1 tmp = Some (Regular c))
           \<and> oa_bytes a = word_of_nat (length c) \<and> oa_sha256 a = dh_digest h c
       | Inl e \<Rightarrow> dk_nodes d' out = dk_nodes d out
           \<or> (\<exists>c tmp d0 u d1. produce tmp d0 = (Inr u, d1) \<and> dk_nodes d1 tmp = Some (Regular c)
                \<and> dk_nodes d' out = Some (Regular c))
           \<or> dk_nodes d' out = None \<and> (\<exists>i s. e = Replacement i s)
              \<and> (\<exists>b. named_privately b \<and> parent b = parent out \<and> dk_nodes d' b = dk_nodes d out))"
proof -
  let ?content = "\<lambda>c. \<exists>tmp d0 u d1. produce tmp d0 = (Inr u, d1) \<and> dk_nodes d1 tmp = Some (Regular c)"
  have "written_outcome h out ?content (dk_nodes d) (dk_nodes d') r"
    using run unfolding promote_external_atomic_def
  proof (rule act_bindE)
    fix e
    assume "open_output h pol path overwrite ''external'' d = (Inl e, d')" "r = Inl e"
    then show ?thesis
      using open_output_post[of h pol path overwrite "''external''" d "Inl e" d'] written_same by simp
  next
    fix x d1
    assume opened: "open_output h pol path overwrite ''external'' d = (Inr x, d1)"
      and rest: "(case x of (output, temporary) \<Rightarrow>
         act_bind (guard_temporary h temporary
                 (act_bind (produce temporary) (\<lambda>_. check_produced h temporary))) (\<lambda>_.
         install_temporary h output temporary)) d1 = (r, d')"
    obtain tmp where x: "x = (out, tmp)" and tmp: "private_in ''external'' out tmp"
      and d1: "dk_nodes d1 = (dk_nodes d)(tmp := Some (Regular []))"
      using open_output_post[OF opened] assms(1) by (cases x) auto
    have named: "named_privately tmp" "tmp \<noteq> out" using private_named[OF tmp] assms(2) by auto
    have "written_outcome h out ?content (dk_nodes d1) (dk_nodes d') r"
    proof (rule prepare_and_install[where m = "act_bind (produce tmp) (\<lambda>_. check_produced h tmp)",
          OF _ tmp _ assms(2)])
      show "act_bind (guard_temporary h tmp (act_bind (produce tmp) (\<lambda>_. check_produced h tmp)))
          (\<lambda>_. install_temporary h out tmp) d1 = (r, d')"
        using rest by (simp add: x)
    next
      fix s d2
      assume "act_bind (produce tmp) (\<lambda>_. check_produced h tmp) d1 = (s, d2)"
      then show "\<forall>p. p \<noteq> tmp \<longrightarrow> dk_nodes d2 p = dk_nodes d1 p"
        by (rule act_bindE) (auto dest!: check_produced_post produced)
    next
      fix u d2
      assume "act_bind (produce tmp) (\<lambda>_. check_produced h tmp) d1 = (Inr u, d2)"
      then show "\<exists>c. ?content c \<and> dk_nodes d2 tmp = Some (Regular c)"
        by (rule act_bindE) (use check_produced_post in fastforce)+
    qed simp
    then show ?thesis by (rule written_before) (use named in \<open>auto simp: d1 frame_def\<close>)
  qed
  then show ?thesis
    unfolding written_outcome_def frame_def by (cases r) (auto dest: savedD)
qed

text \<open>An empty directory \<open>/a\<close> in which nothing fails, and the same disk failing at one call.\<close>

definition demo_disk :: disk where
  "demo_disk = \<lparr>dk_nodes = [join_name (demo_path ''a'') ''n'' \<mapsto> Regular ''old''], dk_clock = 0\<rparr>"

definition demo_disk_host :: "(nat \<Rightarrow> string option) \<Rightarrow> disk_host" where
  "demo_disk_host fault = \<lparr>dh_view = (\<lambda>ns. linked_fs\<lparr>fs_exists := (\<lambda>p. ns p \<noteq> None)\<rparr>),
     dh_fault = fault, dh_random = (\<lambda>n. Inr [CHR ''0'']), dh_digest = (\<lambda>c. c)\<rparr>"

definition demo_out :: path where
  "demo_out = join_name (demo_path ''a'') ''n''"

definition demo_produce :: "path \<Rightarrow> disk \<Rightarrow> (atomic_error + unit) \<times> disk" where
  "demo_produce tmp d = (Inr (), d\<lparr>dk_nodes := (dk_nodes d)(tmp := Some (Regular ''x''))\<rparr>)"

lemma demo_out: "output_path (dh_view (demo_disk_host f) (dk_nodes demo_disk)) demo_policy demo_out True
    = Inr demo_out"
  by code_simp

lemma demo_out_named: "\<not> named_privately demo_out"
  by (simp add: named_privately_def demo_out_def prefix_def)

theorem write_atomic_all_or_nothing_witness:
  "\<exists>a d'. write_atomic (demo_disk_host (\<lambda>_. None)) demo_policy demo_out True (''new'', None) demo_disk = (Inr a, d')
     \<and> dk_nodes d' demo_out = Some (Regular ''new'')"
proof -
  let ?run = "write_atomic (demo_disk_host (\<lambda>_. None)) demo_policy demo_out True (''new'', None) demo_disk"
  have "ok (fst ?run) \<noteq> None" by code_simp
  then obtain a d' where "?run = (Inr a, d')" by (cases ?run; cases "fst ?run") auto
  then show ?thesis
    using write_atomic_all_or_nothing[OF demo_out demo_out_named, of "\<lambda>_. None" "(''new'', None)" "Inr a" d']
    by simp
qed

lemma promote_external_all_or_nothing_witness:
  "\<exists>e d'. promote_external_atomic (demo_disk_host (\<lambda>n. if n = 13 then Some ''EIO'' else None)) demo_policy
       demo_out True demo_produce demo_disk = (Inl e, d')
     \<and> (dk_nodes d' demo_out = Some (Regular ''old'') \<or> dk_nodes d' demo_out = Some (Regular ''x'')
        \<or> (\<exists>b. dk_nodes d' b = Some (Regular ''old'')))"
proof -
  let ?f = "\<lambda>n. if n = (13::nat) then Some ''EIO'' else None"
  let ?run = "promote_external_atomic (demo_disk_host ?f) demo_policy demo_out True demo_produce demo_disk"
  have "ok (fst ?run) = None" by code_simp
  then obtain e d' where run: "?run = (Inl e, d')" by (cases ?run; cases "fst ?run") auto
  have old: "dk_nodes demo_disk demo_out = Some (Regular ''old'')"
    by (simp add: demo_disk_def demo_out_def)
  have frame: "demo_produce t d = (s, d1) \<Longrightarrow> p \<noteq> t \<Longrightarrow> dk_nodes d1 p = dk_nodes d p" for t d s d1 p
    by (auto simp: demo_produce_def)
  have made: "demo_produce t d = (s, d1) \<Longrightarrow> dk_nodes d1 t = Some (Regular c) \<Longrightarrow> c = ''x''" for t d s d1 c
    by (auto simp: demo_produce_def)
  show ?thesis
    using promote_external_all_or_nothing[OF demo_out demo_out_named frame run] run old made
    by fastforce
qed

end
