(* ===== verification/Btree_Groups.thy ===== *)
theory Btree_Groups
  imports Btree "HOL-Library.Multiset"
begin

text \<open>
  Collecting under a key: \<open>map.entry(k).or_default()\<close> followed by an addition to what is there
  (\<open>push\<close>, \<open>insert\<close>, \<open>+=\<close>).  What a key holds after a run of additions depends only on the
  additions to that key, in their order.
\<close>

definition group_add ::
  "('v \<Rightarrow> 'c \<Rightarrow> 'c) \<Rightarrow> 'c \<Rightarrow> 'k::linorder \<Rightarrow> 'v \<Rightarrow> ('k, 'c) btree_map \<Rightarrow> ('k, 'c) btree_map" where
  "group_add add e k v m =
     btree_insert k (add v (case map_of m k of Some c \<Rightarrow> c | None \<Rightarrow> e)) m"

definition group_all ::
  "('v \<Rightarrow> 'c \<Rightarrow> 'c) \<Rightarrow> 'c \<Rightarrow> ('k::linorder \<times> 'v) list \<Rightarrow> ('k, 'c) btree_map \<Rightarrow> ('k, 'c) btree_map" where
  "group_all add e es m = fold (\<lambda>(k, v) m. group_add add e k v m) es m"

text \<open>The values added under one key.\<close>

definition values_of :: "'k \<Rightarrow> ('k \<times> 'v) list \<Rightarrow> 'v list" where
  "values_of k es = map snd (filter (\<lambda>e. fst e = k) es)"

lemma values_of_simps [simp]:
  "values_of k [] = []"
  "values_of k ((k', v) # es) = (if k' = k then v # values_of k es else values_of k es)"
  "values_of k (es @ es') = values_of k es @ values_of k es'"
  by (simp_all add: values_of_def)

lemma values_of_Nil: "values_of k es = [] \<longleftrightarrow> k \<notin> fst ` set es"
  by (auto simp: values_of_def filter_empty_conv)

lemma values_of_concat: "values_of k (concat ess) = concat (map (values_of k) ess)"
  by (induction ess) simp_all

lemma values_of_other: "k \<notin> fst ` set es \<Longrightarrow> values_of k es = []"
  by (simp add: values_of_Nil)

lemma values_of_const [simp]: "values_of k (map (Pair k') vs) = (if k' = k then vs else [])"
  by (induction vs) auto

lemma btree_group_all: "btree m \<Longrightarrow> btree (group_all add e es m)"
  unfolding group_all_def
  by (induction es arbitrary: m) (auto simp: group_add_def btree_btree_insert)

lemma map_of_group_all:
  "map_of (group_all add e es m) k =
     (if values_of k es = [] then map_of m k
      else Some (fold add (values_of k es) (case map_of m k of Some c \<Rightarrow> c | None \<Rightarrow> e)))"
proof (induction es arbitrary: m)
  case (Cons x es)
  obtain k' v where x: "x = (k', v)" by (cases x)
  have "group_all add e (x # es) m = group_all add e es (group_add add e k' v m)"
    by (simp add: x group_all_def)
  then show ?case
    using Cons[of "group_add add e k' v m"] x
    by (simp add: group_add_def map_of_btree_insert)
qed (simp add: group_all_def)

text \<open>\<open>Vec::push\<close> as the addition: a key holds its values in the order they came.\<close>

definition push_back :: "'v \<Rightarrow> 'v list \<Rightarrow> 'v list" where
  "push_back v vs = vs @ [v]"

lemma fold_push_back: "fold push_back vs acc = acc @ vs"
  by (induction vs arbitrary: acc) (simp_all add: push_back_def)

lemma map_of_group_push:
  "map_of (group_all push_back [] es []) k =
     (if values_of k es = [] then None else Some (values_of k es))"
  by (simp add: map_of_group_all fold_push_back)

text \<open>\<open>BTreeSet::insert\<close> as the addition.\<close>

lemma btree_set_fold_insert: "btree_set xs \<Longrightarrow> btree_set (fold insort_insert vs xs)"
  by (induction vs arbitrary: xs) auto

lemma set_fold_insert: "set (fold insort_insert vs xs) = set vs \<union> set xs"
  by (induction vs arbitrary: xs) (auto simp: set_insort_insert)


lemma group_all_append:
  "group_all add e (es @ es') m = group_all add e es' (group_all add e es m)"
  by (simp add: group_all_def)

lemma group_all_Nil [simp]: "group_all add e [] m = m"
  by (simp add: group_all_def)

lemma fold_insert_sorted_set: "fold insort_insert vs [] = sorted_list_of_set (set vs)"
proof -
  have "btree_set (fold insort_insert vs [])" by (intro btree_set_fold_insert) simp
  then show ?thesis
    using set_fold_insert[of vs "[]"] sorted_list_of_set.idem_if_sorted_distinct
    by (metis Un_empty_right btree_set_def list.set(1) strict_sorted_iff)
qed

text \<open>Sorting by an injective key forgets the order of the list.\<close>

lemma sort_key_mset:
  assumes "inj k" "mset xs = mset ys"
  shows "sort_key k xs = sort_key k ys"
proof (rule properties_for_sort_key)
  fix a
  have "filter (\<lambda>x. k a = k x) zs = replicate (count (mset zs) a) a" for zs
    using assms(1) by (simp add: inj_eq replicate_count_mset_eq_filter_eq)
  then show "filter (\<lambda>x. k a = k x) (sort_key k ys) = filter (\<lambda>x. k a = k x) xs" using assms(2) by simp
qed (use assms(2) in simp_all)

end
