(* ===== verification/Text_Lines.thy ===== *)
theory Text_Lines
  imports Text_Ops
begin

text \<open>
  Lines and substring search of Rust's \<open>str\<close>, shared by the source excerpts, the semantic chunks
  and the readers of textual records: \<open>str::find\<close> with a string pattern, \<open>strip_suffix\<close>,
  \<open>str::lines\<close> and \<open>match_indices\<close> of one byte.
\<close>

section \<open>Substring search\<close>

text \<open>\<open>s.find(p)\<close>: the byte index of the first occurrence.\<close>

fun find_sub :: "string \<Rightarrow> string \<Rightarrow> nat option" where
  "find_sub p [] = (if p = [] then Some 0 else None)"
| "find_sub p (x # xs) =
     (if prefix p (x # xs) then Some 0 else map_option Suc (find_sub p xs))"

lemma find_sub_Some:
  "find_sub p s = Some i \<Longrightarrow> i + length p \<le> length s \<and> take (length p) (drop i s) = p"
proof (induction p s arbitrary: i rule: find_sub.induct)
  case (2 p x xs)
  then show ?case
    using prefix_length_le[of p "x # xs"] by (auto split: if_splits simp: prefix_def)
qed (auto split: if_splits)

lemma find_sub_None: "find_sub p s = None \<longleftrightarrow> \<not> is_substring p s"
  by (induction p s rule: find_sub.induct) auto

text \<open>\<open>strip_suffix\<close> of one character.\<close>

definition strip_suffix_char :: "char \<Rightarrow> string \<Rightarrow> string option" where
  "strip_suffix_char c s = (if s \<noteq> [] \<and> last s = c then Some (butlast s) else None)"

definition strip_cr :: "string \<Rightarrow> string" where
  "strip_cr s = (case strip_suffix_char (CHR 0x0D) s of Some t \<Rightarrow> t | None \<Rightarrow> s)"

lemma strip_suffix_char_snoc [simp]: "strip_suffix_char c (s @ [c]) = Some s"
  by (simp add: strip_suffix_char_def)

lemma strip_suffix_char_None: "c \<notin> set s \<Longrightarrow> strip_suffix_char c s = None"
  using last_in_set[of s] by (auto simp: strip_suffix_char_def)

section \<open>Lines\<close>

text \<open>
  The lines of a text by their line feeds: a final line feed does not open a line.  These are
  the pieces that both \<open>str::lines\<close> and the line table of \<open>IndexedSource\<close> know, before either
  removes a carriage return.
\<close>

fun raw_lines :: "string \<Rightarrow> string list" where
  "raw_lines [] = []"
| "raw_lines (x # xs) =
     (if x = CHR 0x0A then [] # raw_lines xs
      else case raw_lines xs of
        [] \<Rightarrow> [[x]]
      | l # ls \<Rightarrow> (x # l) # ls)"

lemma raw_lines_line:
  "CHR 0x0A \<notin> set l \<Longrightarrow> raw_lines (l @ CHR 0x0A # t) = l # raw_lines t"
proof (induction l)
  case (Cons x l)
  then show ?case by (cases l) auto
qed simp

lemma raw_lines_last: "CHR 0x0A \<notin> set l \<Longrightarrow> l \<noteq> [] \<Longrightarrow> raw_lines l = [l]"
proof (induction l)
  case (Cons x l)
  then show ?case by (cases l) auto
qed simp

text \<open>A text is empty, one line without a line feed, or a line, its line feed and the rest.\<close>

lemma text_cases:
  obtains (empty) "s = []"
  | (last) "CHR 0x0A \<notin> set s" "s \<noteq> []"
  | (line) l t where "s = l @ CHR 0x0A # t" "CHR 0x0A \<notin> set l"
proof (cases "CHR 0x0A \<in> set s")
  case True
  then obtain l t where "s = l @ CHR 0x0A # t" "CHR 0x0A \<notin> set l"
    by (meson split_list_first)
  with line show thesis by blast
next
  case False
  with empty last show thesis by blast
qed

lemma raw_lines_Nil [simp]: "raw_lines s = [] \<longleftrightarrow> s = []"
  by (cases s rule: text_cases) (simp_all add: raw_lines_line raw_lines_last)

lemma raw_lines_no_newline: "l \<in> set (raw_lines s) \<Longrightarrow> CHR 0x0A \<notin> set l"
proof (induction "length s" arbitrary: s rule: less_induct)
  case less
  show ?case
  proof (cases s rule: text_cases)
    case (line k t)
    with less.prems less.hyps[of t] show ?thesis by (auto simp: raw_lines_line)
  qed (use less.prems in \<open>auto simp: raw_lines_last\<close>)
qed

text \<open>
  \<open>str::lines\<close>: a carriage return counts as part of the line break only before a line feed, so
  the last line keeps one when no line feed follows it.
\<close>

definition str_lines :: "string \<Rightarrow> string list" where
  "str_lines s =
     (let ls = raw_lines s in
      if s \<noteq> [] \<and> last s = CHR 0x0A then map strip_cr ls
      else map strip_cr (butlast ls) @ (if ls = [] then [] else [last ls]))"

lemma str_lines_length: "length (str_lines s) = length (raw_lines s)"
  by (auto simp: str_lines_def Let_def)

lemma strip_cr_set: "set (strip_cr s) \<subseteq> set s"
  by (auto simp: strip_cr_def strip_suffix_char_def dest: in_set_butlastD)

lemma str_lines_no_newline: "l \<in> set (str_lines s) \<Longrightarrow> CHR 0x0A \<notin> set l"
  using raw_lines_no_newline[of _ s] strip_cr_set
  by (fastforce simp: str_lines_def Let_def split: if_splits
        dest: in_set_butlastD intro: last_in_set)

text \<open>\<open>match_indices\<close> of one byte: the positions at which it stands, counted from \<open>i\<close>.\<close>

fun match_indices :: "char \<Rightarrow> nat \<Rightarrow> string \<Rightarrow> nat list" where
  "match_indices c i [] = []"
| "match_indices c i (x # xs) =
     (if x = c then i # match_indices c (Suc i) xs else match_indices c (Suc i) xs)"

lemma match_indices_none: "c \<notin> set s \<Longrightarrow> match_indices c i s = []"
  by (induction s arbitrary: i) auto

lemma match_indices_append:
  "match_indices c i (s @ t) = match_indices c i s @ match_indices c (i + length s) t"
  by (induction s arbitrary: i) auto

lemma match_indices_shift: "match_indices c (i + k) s = map ((+) k) (match_indices c i s)"
proof (induction s arbitrary: i)
  case (Cons x s)
  show ?case using Cons.IH[of "Suc i"] by (simp add: add.commute)
qed simp

lemma match_indices_bound: "n \<in> set (match_indices c i s) \<Longrightarrow> i \<le> n \<and> n < i + length s"
  by (induction s arbitrary: i) (fastforce split: if_splits)+

end
