(* ===== verification/File_Identity.thy ===== *)
theory File_Identity
  imports Path_Policy Text_Lines
begin

text \<open>
  Identities of files and snapshots of build artifacts, from \<open>src/artifact.rs\<close>.  What the file
  system answers is the record \<open>file_host\<close>: it extends the answers the path policy asks for by
  lengths, contents and modification times; \<open>fh_sha256\<close> is the hexadecimal SHA-256 digest.
\<close>

record file_host =
  fh_fs :: filesystem
  fh_len :: "path \<Rightarrow> u64"
  fh_metadata :: "path \<Rightarrow> string + bool \<times> u64 \<times> nat option"
  fh_read :: "path \<Rightarrow> string + string"
  fh_sha256 :: "string \<Rightarrow> string"

datatype file_error =
    CannotInspect path
  | NotRegularFile path
  | CannotCanonicalize path
  | EscapesRoot path
  | ParentTraversal
  | FileIo string

record file_identity =
  fi_path :: path
  fi_size :: u64
  fi_sha256 :: string

record artifact_snapshot =
  as_path :: path
  as_exists :: bool
  as_size :: "u64 option"
  as_modified_unix_ms :: "nat option"
  as_sha256 :: "string option"

definition hash_file :: "file_host \<Rightarrow> path \<Rightarrow> file_error + string" where
  "hash_file h p = rbind (map_err FileIo (fh_read h p)) (\<lambda>bytes. Inr (fh_sha256 h bytes))"

definition capture_file_identity :: "file_host \<Rightarrow> path \<Rightarrow> file_error + file_identity" where
  "capture_file_identity h p =
     rbind (map_err (\<lambda>_. CannotInspect p) (fs_symlink_metadata (fh_fs h) p)) (\<lambda>kind.
       if kind \<noteq> RegularFile then Inl (NotRegularFile p)
       else
         rbind (map_err FileIo (fs_canonicalize (fh_fs h) p)) (\<lambda>q.
         rbind (hash_file h q) (\<lambda>digest.
         Inr \<lparr>fi_path = q, fi_size = fh_len h p, fi_sha256 = digest\<rparr>)))"

definition ensure_contained :: "path \<Rightarrow> path \<Rightarrow> file_error + unit" where
  "ensure_contained root p =
     (if p = root \<or> path_starts_with p root then Inr () else Inl (EscapesRoot p))"

text \<open>\<open>PathBuf::pop\<close> leaves a root or a prefix alone and says so.\<close>

fun normalize_components :: "path \<Rightarrow> path \<Rightarrow> file_error + path" where
  "normalize_components normalized [] = Inr normalized"
| "normalize_components normalized (CurDir # cs) = normalize_components normalized cs"
| "normalize_components normalized (ParentDir # cs) =
     (case parent normalized of
        None \<Rightarrow> Inl ParentTraversal
      | Some p \<Rightarrow> normalize_components p cs)"
| "normalize_components normalized (c # cs) = normalize_components (normalized @ [c]) cs"

definition normalize_missing_path :: "path \<Rightarrow> file_error + path" where
  "normalize_missing_path p = normalize_components [] p"

definition snapshot_existing :: "file_host \<Rightarrow> path \<Rightarrow> path \<Rightarrow> file_error + artifact_snapshot" where
  "snapshot_existing h project_root requested =
     rbind (map_err (\<lambda>_. CannotCanonicalize requested) (fs_canonicalize (fh_fs h) requested)) (\<lambda>p.
     rbind (ensure_contained project_root p) (\<lambda>_.
     rbind (map_err (\<lambda>_. CannotInspect p) (fh_metadata h p)) (\<lambda>(is_file, len, modified).
       if \<not> is_file then Inl (NotRegularFile p)
       else rbind (hash_file h p) (\<lambda>digest.
         Inr \<lparr>as_path = p, as_exists = True, as_size = Some len, as_modified_unix_ms = modified,
              as_sha256 = Some digest\<rparr>))))"

definition snapshot_missing :: "path \<Rightarrow> path \<Rightarrow> file_error + artifact_snapshot" where
  "snapshot_missing project_root requested =
     rbind (normalize_missing_path requested) (\<lambda>p.
     rbind (ensure_contained project_root p) (\<lambda>_.
     Inr \<lparr>as_path = p, as_exists = False, as_size = None, as_modified_unix_ms = None,
          as_sha256 = None\<rparr>))"

definition capture_artifact :: "file_host \<Rightarrow> path \<Rightarrow> path \<Rightarrow> file_error + artifact_snapshot" where
  "capture_artifact h project_root artifact_path =
     rbind (map_err (\<lambda>_. CannotCanonicalize project_root)
              (fs_canonicalize (fh_fs h) project_root)) (\<lambda>project_root.
       let requested = (if is_absolute artifact_path then artifact_path
                        else join project_root artifact_path) in
       if fs_exists (fh_fs h) requested then snapshot_existing h project_root requested
       else snapshot_missing project_root requested)"

section \<open>What they promise\<close>

lemma file_identity_Inr:
  "capture_file_identity h p = Inr i \<longleftrightarrow>
     fs_symlink_metadata (fh_fs h) p = Inr RegularFile \<and>
     fs_canonicalize (fh_fs h) p = Inr (fi_path i) \<and> fi_size i = fh_len h p \<and>
     (\<exists>bytes. fh_read h (fi_path i) = Inr bytes \<and> fi_sha256 i = fh_sha256 h bytes)"
  by (cases i) (auto simp: capture_file_identity_def hash_file_def result_Inr split: if_splits)

lemma capture_artifact_contained:
  assumes "capture_artifact h root p = Inr a"
  shows "\<exists>r. fs_canonicalize (fh_fs h) root = Inr r \<and> path_starts_with (as_path a) r"
  using assms
  by (auto simp: capture_artifact_def snapshot_existing_def snapshot_missing_def result_Inr
      ensure_contained_def Let_def split: if_splits)

text \<open>A normalised missing path has no dot components left.\<close>

lemma normalize_components_plain:
  "normalize_components n cs = Inr p \<Longrightarrow> CurDir \<notin> set n \<Longrightarrow> ParentDir \<notin> set n \<Longrightarrow>
   CurDir \<notin> set p \<and> ParentDir \<notin> set p"
proof (induction n cs rule: normalize_components.induct)
  case (3 n cs)
  then obtain q where q: "parent n = Some q" "normalize_components q cs = Inr p"
    by (auto split: option.splits)
  have "set q \<subseteq> set n"
    using q(1) by (auto simp: parent_def split: if_splits component.splits dest: in_set_butlastD)
  with 3 q show ?case by auto
qed auto

end
