(* ===== verification/Build_Provenance.thy ===== *)
theory Build_Provenance
  imports File_Identity Btree
begin

text \<open>
  Build provenance, from \<open>src/build_provenance.rs\<close> and \<open>src/build_identity.rs\<close>: what a successful
  build was made from, what later attempts said, and whether an artifact may be launched as the
  verified result of a build.  The private state directory is its three namespaces of records
  (\<open>locations\<close>, \<open>builds\<close>, \<open>attempts\<close>) by name, the \<open>serde\<close> codecs between records and files being
  the identity here; reading, writing and locking may fail as \<open>provenance_host\<close> says.
\<close>

section \<open>Identity of the server build\<close>

record build_identity_input =
  bi_version :: string
  bi_source_revision :: "string option"
  bi_source_dirty :: "bool option"
  bi_target :: string
  bi_profile :: string
  bi_executable_sha256 :: "string option"

record build_identity =
  bd_schema :: u32
  bd_build_id :: string
  bd_complete :: bool
  bd_version :: string
  bd_source_revision :: "string option"
  bd_source_dirty :: "bool option"
  bd_target :: string
  bd_profile :: string
  bd_executable_sha256 :: "string option"

definition from_input :: "(string \<Rightarrow> string) \<Rightarrow> (build_identity_input \<Rightarrow> string) \<Rightarrow> build_identity_input \<Rightarrow> build_identity" where
  "from_input sha256 to_json input =
     \<lparr>bd_schema = 1, bd_build_id = sha256 (to_json input),
      bd_complete =
        (bi_source_revision input \<noteq> None \<and> bi_source_dirty input \<noteq> None \<and>
         bi_executable_sha256 input \<noteq> None \<and> bi_target input \<noteq> ''unknown'' \<and>
         bi_profile input \<noteq> ''unknown''),
      bd_version = bi_version input, bd_source_revision = bi_source_revision input,
      bd_source_dirty = bi_source_dirty input, bd_target = bi_target input,
      bd_profile = bi_profile input, bd_executable_sha256 = bi_executable_sha256 input\<rparr>"

definition as_input :: "build_identity \<Rightarrow> build_identity_input" where
  "as_input i =
     \<lparr>bi_version = bd_version i, bi_source_revision = bd_source_revision i,
      bi_source_dirty = bd_source_dirty i, bi_target = bd_target i, bi_profile = bd_profile i,
      bi_executable_sha256 = bd_executable_sha256 i\<rparr>"

lemma as_input_from_input: "as_input (from_input sha256 to_json input) = input"
  by (simp add: as_input_def from_input_def)

section \<open>Records\<close>

record project_build_identity =
  pi_root :: path
  pi_repository_identity :: string
  pi_head_revision :: "string option"
  pi_dirty :: "bool option"

record build_input_identity =
  ii_path :: path
  ii_resolved_path :: "path option"
  ii_relative_path :: string
  ii_role :: string
  ii_size :: u64
  ii_sha256 :: string

record build_verification =
  bv_method :: string
  bv_arguments :: "string list"
  bv_working_directory :: path
  bv_absent_inputs :: "path list"

record build_record =
  br_schema :: u32
  br_record_id :: string
  br_artifact_key :: string
  br_mcp_build :: build_identity
  br_compiler :: file_identity
  br_project :: project_build_identity
  br_inputs :: "build_input_identity list"
  br_verification :: "build_verification option"
  br_dmb :: file_identity
  br_rsc :: "file_identity option"
  br_fixture_manifest_sha256 :: "string option"
  br_created_at_unix_ms :: nat

datatype build_attempt_outcome = AttemptSucceeded | AttemptFailed string | AttemptUnverified string

record build_attempt =
  at_schema :: u32
  at_attempt_id :: string
  at_artifact_key :: string
  at_outcome :: build_attempt_outcome
  at_observed_inputs :: "build_input_identity list"
  at_retained_dmb_sha256 :: "string option"
  at_created_at_unix_ms :: nat

datatype provenance_status = Verified | Unverified | Stale

record provenance_reason =
  re_code :: string
  re_message :: string
  re_role :: "string option"
  re_path :: "path option"

record launch_decision =
  ld_status :: provenance_status
  ld_allowed :: bool
  ld_record_id :: "string option"
  ld_reasons :: "provenance_reason list"

record artifact_location =
  al_schema :: u32
  al_artifact_key :: string

record provenance_files =
  pf_locations :: "(string, artifact_location) btree_map"
  pf_builds :: "(string, build_record) btree_map"
  pf_attempts :: "(string, build_attempt) btree_map"

record provenance_host =
  ph_files :: file_host
  ph_lock :: "string option"
  ph_read :: "string \<Rightarrow> string option"
  ph_write :: "string \<Rightarrow> string option"

datatype provenance_error =
    PolicyDenied policy_error
  | FileProblem file_error
  | StateIo string
  | NoParentDirectory
  | NoFileName
  | OutsideEffectiveRoots
  | OutsideProjectRoot
  | InvalidBuildRecord
  | ArtifactKeyMismatch
  | InvalidBuildAttempt
  | InvalidLocationRecord
  | RecordMissing string

section \<open>Paths, projects and keys\<close>

definition component_text :: "component \<Rightarrow> string" where
  "component_text c =
     (case c of Prefix s \<Rightarrow> s | RootDir \<Rightarrow> ''/'' | CurDir \<Rightarrow> ''.'' | ParentDir \<Rightarrow> ''..'' | Normal s \<Rightarrow> s)"

definition normalize_relative :: "path \<Rightarrow> string" where
  "normalize_relative p = join_with (CHR 0x2F) (map component_text p)"

definition strip_base :: "path \<Rightarrow> path \<Rightarrow> path option" where
  "strip_base p base = (if path_starts_with p base then Some (drop (length base) p) else None)"

definition capture_input ::
  "file_host \<Rightarrow> path \<Rightarrow> path \<Rightarrow> string \<Rightarrow> provenance_error + build_input_identity" where
  "capture_input h root p role =
     rbind (map_err (\<lambda>e. FileProblem (FileIo e)) (fs_canonicalize (fh_fs h) root)) (\<lambda>root.
     rbind (map_err FileProblem (capture_file_identity h p)) (\<lambda>identity.
     rbind (or_err OutsideProjectRoot (strip_base (fi_path identity) root)) (\<lambda>relative.
     Inr \<lparr>ii_path = fi_path identity, ii_resolved_path = None,
          ii_relative_path = normalize_relative relative, ii_role = role,
          ii_size = fi_size identity, ii_sha256 = fi_sha256 identity\<rparr>)))"

definition capture_authorized ::
  "file_host \<Rightarrow> path_policy \<Rightarrow> path \<Rightarrow> path \<Rightarrow> string \<Rightarrow> provenance_error + build_input_identity" where
  "capture_authorized h pol root p role =
     rbind (map_err PolicyDenied (read_path (fh_fs h) pol p)) (\<lambda>resolved.
     rbind (map_err FileProblem (capture_file_identity h resolved)) (\<lambda>identity.
     Inr \<lparr>ii_path = p, ii_resolved_path = Some (fi_path identity),
          ii_relative_path = (case strip_base p root of Some r \<Rightarrow> normalize_relative r
                              | None \<Rightarrow> ''<authorized-external>''),
          ii_role = role, ii_size = fi_size identity, ii_sha256 = fi_sha256 identity\<rparr>))"

text \<open>The path of an artifact that exists, or of one that could be created in its directory.\<close>

definition resolve_artifact :: "file_host \<Rightarrow> path_policy \<Rightarrow> path \<Rightarrow> provenance_error + path" where
  "resolve_artifact h pol p =
     (if fs_exists (fh_fs h) p then map_err PolicyDenied (read_path (fh_fs h) pol p)
      else
        rbind (or_err NoParentDirectory (parent p)) (\<lambda>dir.
        rbind (map_err PolicyDenied (read_path (fh_fs h) pol dir)) (\<lambda>dir.
        rbind (or_err NoFileName (file_name p)) (\<lambda>name.
        Inr (join_name dir name)))))"

text \<open>\<open>max_by_key\<close> keeps the last of several greatest elements.\<close>

fun max_by_key :: "('a \<Rightarrow> nat) \<Rightarrow> 'a list \<Rightarrow> 'a option" where
  "max_by_key f [] = None"
| "max_by_key f (x # xs) =
     (case max_by_key f xs of None \<Rightarrow> Some x | Some y \<Rightarrow> if f y < f x then Some x else Some y)"

definition project_and_relative ::
  "file_host \<Rightarrow> path_policy \<Rightarrow> path \<Rightarrow> provenance_error + project_build_identity \<times> string" where
  "project_and_relative h pol artifact_path =
     rbind (resolve_artifact h pol artifact_path) (\<lambda>artifact.
     rbind (or_err OutsideEffectiveRoots
              (max_by_key (\<lambda>root. length (er_path root))
                (filter (\<lambda>root. path_starts_with artifact (er_path root)) (pp_effective_roots pol))))
       (\<lambda>root.
     rbind (or_err OutsideEffectiveRoots (strip_base artifact (er_path root))) (\<lambda>relative.
     Inr (\<lparr>pi_root = er_path root,
           pi_repository_identity =
             (case er_repository_identity root of Some i \<Rightarrow> ri_digest i
              | None \<Rightarrow> fh_sha256 h (fs_display (fh_fs h) (er_path root))),
           pi_head_revision = er_head_revision root, pi_dirty = er_dirty root\<rparr>,
          normalize_relative relative))))"

definition project_identity ::
  "file_host \<Rightarrow> path_policy \<Rightarrow> path \<Rightarrow> provenance_error + project_build_identity" where
  "project_identity h pol artifact_path =
     rbind (project_and_relative h pol artifact_path) (\<lambda>(project, _). Inr project)"

definition artifact_key :: "file_host \<Rightarrow> path_policy \<Rightarrow> path \<Rightarrow> provenance_error + string" where
  "artifact_key h pol dmb_path =
     rbind (project_and_relative h pol dmb_path) (\<lambda>(project, relative).
       Inr (fh_sha256 h (pi_repository_identity project @ ''\<newline>'' @ relative)))"

text \<open>The name of the location record: a digest of the path, its ASCII letters in lower case.\<close>

definition location_key :: "file_host \<Rightarrow> path \<Rightarrow> provenance_error + string" where
  "location_key h p =
     rbind (if fs_exists (fh_fs h) p then map_err StateIo (fs_canonicalize (fh_fs h) p)
            else
              rbind (or_err NoParentDirectory (parent p)) (\<lambda>dir.
              rbind (map_err StateIo (fs_canonicalize (fh_fs h) dir)) (\<lambda>dir.
              rbind (or_err NoFileName (file_name p)) (\<lambda>name.
              Inr (join_name dir name))))) (\<lambda>q.
       Inr (fh_sha256 h (to_ascii_lowercase (fs_display (fh_fs h) q))))"

section \<open>Reading and writing records\<close>

definition record_name :: "string \<Rightarrow> string \<Rightarrow> string" where
  "record_name namespace key = namespace @ ''/'' @ key @ ''.json''"

definition lock_state :: "provenance_host \<Rightarrow> provenance_error + unit" where
  "lock_state ph = (case ph_lock ph of Some e \<Rightarrow> Inl (StateIo e) | None \<Rightarrow> Inr ())"

definition read_optional ::
  "provenance_host \<Rightarrow> string \<Rightarrow> (string, 'r) btree_map \<Rightarrow> string \<Rightarrow> provenance_error + 'r option" where
  "read_optional ph namespace records key =
     (case ph_read ph (record_name namespace key) of Some e \<Rightarrow> Inl (StateIo e)
      | None \<Rightarrow> Inr (map_of records key))"

definition read_required ::
  "provenance_host \<Rightarrow> string \<Rightarrow> (string, 'r) btree_map \<Rightarrow> string \<Rightarrow> provenance_error + 'r" where
  "read_required ph namespace records key =
     rbind (read_optional ph namespace records key) (or_err (RecordMissing (record_name namespace key)))"

definition write_record ::
  "provenance_host \<Rightarrow> string \<Rightarrow> string \<Rightarrow> (provenance_files \<Rightarrow> provenance_files) \<Rightarrow> provenance_files
   \<Rightarrow> (provenance_error + unit) \<times> provenance_files" where
  "write_record ph namespace key put st =
     (case lock_state ph of Inl e \<Rightarrow> (Inl e, st)
      | Inr _ \<Rightarrow>
          (case ph_write ph (record_name namespace key) of Some e \<Rightarrow> (Inl (StateIo e), st)
           | None \<Rightarrow> (Inr (), put st)))"

definition record_success ::
  "provenance_host \<Rightarrow> path_policy \<Rightarrow> build_record \<Rightarrow> provenance_files
   \<Rightarrow> (provenance_error + unit) \<times> provenance_files" where
  "record_success ph pol r st =
     (if br_schema r \<noteq> 1 \<and> br_schema r \<noteq> 2 \<or> br_record_id r = [] \<or> length (br_artifact_key r) \<noteq> 64
      then (Inl InvalidBuildRecord, st)
      else case artifact_key (ph_files ph) pol (fi_path (br_dmb r)) of
        Inl e \<Rightarrow> (Inl e, st)
      | Inr current_key \<Rightarrow>
          if current_key \<noteq> br_artifact_key r then (Inl ArtifactKeyMismatch, st)
          else
            (case write_record ph ''builds'' (br_artifact_key r)
                    (\<lambda>st. st\<lparr>pf_builds := btree_insert (br_artifact_key r) r (pf_builds st)\<rparr>) st of
               (Inl e, st) \<Rightarrow> (Inl e, st)
             | (Inr _, st) \<Rightarrow>
                 (case location_key (ph_files ph) (fi_path (br_dmb r)) of
                    Inl e \<Rightarrow> (Inl e, st)
                  | Inr key \<Rightarrow>
                      write_record ph ''locations'' key
                        (\<lambda>st. st\<lparr>pf_locations := btree_insert key
                                  \<lparr>al_schema = 1, al_artifact_key = br_artifact_key r\<rparr>
                                  (pf_locations st)\<rparr>) st)))"

definition record_attempt ::
  "provenance_host \<Rightarrow> build_attempt \<Rightarrow> provenance_files
   \<Rightarrow> (provenance_error + unit) \<times> provenance_files" where
  "record_attempt ph a st =
     (if at_schema a \<noteq> 1 \<or> at_attempt_id a = [] \<or> length (at_artifact_key a) \<noteq> 64
      then (Inl InvalidBuildAttempt, st)
      else write_record ph ''attempts'' (at_artifact_key a)
             (\<lambda>st. st\<lparr>pf_attempts := btree_insert (at_artifact_key a) a (pf_attempts st)\<rparr>) st)"

section \<open>The launch decision\<close>

definition reason :: "string \<Rightarrow> string \<Rightarrow> string option \<Rightarrow> path option \<Rightarrow> provenance_reason" where
  "reason code message role p =
     \<lparr>re_code = code, re_message = message, re_role = role, re_path = p\<rparr>"

definition unverified :: "bool \<Rightarrow> launch_decision" where
  "unverified require_verified =
     \<lparr>ld_status = Unverified, ld_allowed = (\<not> require_verified), ld_record_id = None,
      ld_reasons = [reason ''no_build_record''
        ''no managed successful build record exists for this artifact'' None None]\<rparr>"

definition same_output :: "file_host \<Rightarrow> file_identity \<Rightarrow> bool" where
  "same_output h recorded =
     (case capture_file_identity h (fi_path recorded) of
        Inr current \<Rightarrow> fi_size current = fi_size recorded \<and> fi_sha256 current = fi_sha256 recorded
      | Inl _ \<Rightarrow> False)"

definition compare_output :: "file_host \<Rightarrow> file_identity \<Rightarrow> string \<Rightarrow> string \<Rightarrow> provenance_reason list" where
  "compare_output h recorded code message =
     (if same_output h recorded then [] else [reason code message None (Some (fi_path recorded))])"

definition same_input :: "build_input_identity \<Rightarrow> file_identity \<Rightarrow> bool" where
  "same_input input current \<longleftrightarrow>
     fi_size current = ii_size input \<and> fi_sha256 current = ii_sha256 input \<and>
     (case ii_resolved_path input of None \<Rightarrow> True | Some p \<Rightarrow> p = fi_path current)"

definition input_reasons :: "file_host \<Rightarrow> build_input_identity \<Rightarrow> provenance_reason list" where
  "input_reasons h input =
     (case capture_file_identity h (ii_path input) of
        Inr current \<Rightarrow>
          if same_input input current then []
          else [reason ''input_changed'' ''a recorded build input changed''
                  (Some (ii_role input)) (Some (ii_path input))]
      | Inl _ \<Rightarrow>
          [reason ''input_missing'' ''a recorded build input is missing or not a regular file''
             (Some (ii_role input)) (Some (ii_path input))])"

definition appeared :: "file_host \<Rightarrow> path \<Rightarrow> bool" where
  "appeared h p \<longleftrightarrow> ok (fs_symlink_metadata (fh_fs h) p) \<noteq> None"

definition absent_reasons :: "file_host \<Rightarrow> path \<Rightarrow> provenance_reason list" where
  "absent_reasons h p =
     (if appeared h p
      then [reason ''input_appeared'' ''an absent build configuration input appeared'' None (Some p)]
      else [])"

definition attempt_reasons :: "build_record \<Rightarrow> path \<Rightarrow> build_attempt option \<Rightarrow> provenance_reason list" where
  "attempt_reasons r dmb_path attempt =
     (case attempt of None \<Rightarrow> []
      | Some a \<Rightarrow>
          if br_created_at_unix_ms r \<le> at_created_at_unix_ms a \<and> at_outcome a \<noteq> AttemptSucceeded
          then [reason (case at_outcome a of AttemptFailed _ \<Rightarrow> ''later_compile_failed''
                        | _ \<Rightarrow> ''later_compile_unverified'')
                  ''a later compile attempt did not establish verified provenance'' None
                  (Some dmb_path)]
          else [])"

definition launch_reasons ::
  "file_host \<Rightarrow> build_record \<Rightarrow> project_build_identity \<Rightarrow> path \<Rightarrow> build_attempt option
   \<Rightarrow> provenance_reason list" where
  "launch_reasons h r current_project dmb_path attempt =
     (if current_project \<noteq> br_project r
      then [reason ''repository_identity_changed''
              ''the current project identity differs from the recorded successful build'' None
              (Some (pi_root current_project))]
      else [])
     @ concat (map (input_reasons h) (br_inputs r))
     @ (case br_verification r of None \<Rightarrow> []
        | Some v \<Rightarrow> concat (map (absent_reasons h) (bv_absent_inputs v)))
     @ compare_output h (br_dmb r) ''dmb_changed'' ''the managed DMB changed''
     @ (case br_rsc r of None \<Rightarrow> []
        | Some rsc \<Rightarrow> compare_output h rsc ''rsc_changed'' ''the managed RSC changed'')
     @ attempt_reasons r dmb_path attempt"

definition verification_supported :: "build_record \<Rightarrow> bool" where
  "verification_supported r \<longleftrightarrow>
     br_schema r = 2 \<and>
     (case br_verification r of None \<Rightarrow> False
      | Some v \<Rightarrow> bv_method v = ''literal_dm_closure_v1'' \<and> bv_arguments v \<noteq> [])"

definition decide_launch :: "build_record \<Rightarrow> bool \<Rightarrow> provenance_reason list \<Rightarrow> launch_decision" where
  "decide_launch r require_verified reasons =
     (if reasons = [] \<and> \<not> verification_supported r
      then \<lparr>ld_status = Unverified, ld_allowed = (\<not> require_verified),
            ld_record_id = Some (br_record_id r),
            ld_reasons = [reason ''unsupported_build_verification''
              ''legacy or unsupported build evidence cannot prove effective compiler inputs''
              None None]\<rparr>
      else if reasons = []
      then \<lparr>ld_status = Verified, ld_allowed = True, ld_record_id = Some (br_record_id r),
            ld_reasons = reasons\<rparr>
      else \<lparr>ld_status = Stale, ld_allowed = False, ld_record_id = Some (br_record_id r),
            ld_reasons = reasons\<rparr>)"

text \<open>The read transaction: one lock, then the location, its build record and its last attempt.\<close>

definition read_build ::
  "provenance_host \<Rightarrow> provenance_files \<Rightarrow> string
   \<Rightarrow> provenance_error + (build_record \<times> build_attempt option) option" where
  "read_build ph st key =
     rbind (lock_state ph) (\<lambda>_.
     rbind (read_optional ph ''locations'' (pf_locations st) key) (\<lambda>location.
     case location of None \<Rightarrow> Inr None
     | Some l \<Rightarrow>
         rbind (require (al_schema l = 1 \<and> length (al_artifact_key l) = 64) InvalidLocationRecord) (\<lambda>_.
         rbind (read_required ph ''builds'' (pf_builds st) (al_artifact_key l)) (\<lambda>r.
         rbind (read_optional ph ''attempts'' (pf_attempts st) (br_artifact_key r)) (\<lambda>attempt.
         Inr (Some (r, attempt)))))))"

definition evaluate_launch ::
  "provenance_host \<Rightarrow> path_policy \<Rightarrow> provenance_files \<Rightarrow> path \<Rightarrow> bool
   \<Rightarrow> provenance_error + launch_decision" where
  "evaluate_launch ph pol st dmb_path require_verified =
     rbind (resolve_artifact (ph_files ph) pol dmb_path) (\<lambda>dmb_path.
     rbind (location_key (ph_files ph) dmb_path) (\<lambda>key.
     rbind (read_build ph st key) (\<lambda>found.
     case found of None \<Rightarrow> Inr (unverified require_verified)
     | Some (r, attempt) \<Rightarrow>
         rbind (project_identity (ph_files ph) pol dmb_path) (\<lambda>current_project.
         Inr (decide_launch r require_verified
                (launch_reasons (ph_files ph) r current_project dmb_path attempt))))))"


section \<open>What the store promises\<close>

text \<open>The reasons are empty exactly when nothing the record rests on has changed.\<close>

definition input_unchanged :: "file_host \<Rightarrow> build_input_identity \<Rightarrow> bool" where
  "input_unchanged h input \<longleftrightarrow>
     (case capture_file_identity h (ii_path input) of Inl _ \<Rightarrow> False
      | Inr current \<Rightarrow> same_input input current)"

definition build_unchanged ::
  "file_host \<Rightarrow> build_record \<Rightarrow> project_build_identity \<Rightarrow> build_attempt option \<Rightarrow> bool" where
  "build_unchanged h r current_project attempt \<longleftrightarrow>
     current_project = br_project r \<and>
     list_all (input_unchanged h) (br_inputs r) \<and>
     (case br_verification r of None \<Rightarrow> True
      | Some v \<Rightarrow> list_all (\<lambda>p. \<not> appeared h p) (bv_absent_inputs v)) \<and>
     same_output h (br_dmb r) \<and>
     (case br_rsc r of None \<Rightarrow> True | Some rsc \<Rightarrow> same_output h rsc) \<and>
     (case attempt of None \<Rightarrow> True
      | Some a \<Rightarrow> at_created_at_unix_ms a < br_created_at_unix_ms r \<or> at_outcome a = AttemptSucceeded)"

lemma input_reasons_Nil: "input_reasons h i = [] \<longleftrightarrow> input_unchanged h i"
  by (simp add: input_reasons_def input_unchanged_def split: sum.split)

lemma absent_reasons_Nil: "absent_reasons h p = [] \<longleftrightarrow> \<not> appeared h p"
  by (simp add: absent_reasons_def)

lemma compare_output_Nil: "compare_output h r c m = [] \<longleftrightarrow> same_output h r"
  by (simp add: compare_output_def)

lemma attempt_reasons_Nil:
  "attempt_reasons r p attempt = [] \<longleftrightarrow>
     (case attempt of None \<Rightarrow> True
      | Some a \<Rightarrow> at_created_at_unix_ms a < br_created_at_unix_ms r \<or> at_outcome a = AttemptSucceeded)"
  by (auto simp: attempt_reasons_def not_le split: option.split)

lemmas reasons_Nil = input_reasons_Nil absent_reasons_Nil compare_output_Nil attempt_reasons_Nil

lemma launch_reasons_Nil:
  "launch_reasons h r project p attempt = [] \<longleftrightarrow> build_unchanged h r project attempt"
  by (simp add: launch_reasons_def build_unchanged_def reasons_Nil list_all_iff concat_eq_Nil_conv
      split: option.split)

lemma decide_launch_cases:
  "decide_launch r req reasons = d \<Longrightarrow>
     ld_record_id d = Some (br_record_id r) \<and>
     (ld_status d = Verified \<longleftrightarrow> reasons = [] \<and> verification_supported r) \<and>
     (ld_status d = Stale \<longleftrightarrow> reasons \<noteq> []) \<and>
     (ld_allowed d \<longleftrightarrow> reasons = [] \<and> (verification_supported r \<or> \<not> req))"
  by (cases "reasons = []"; cases "verification_supported r") (auto simp: decide_launch_def)

text \<open>What \<open>evaluate_launch\<close> consults, for an artifact path.\<close>

lemma evaluate_launch_Inr:
  "evaluate_launch ph pol st p req = Inr d \<longleftrightarrow>
     (\<exists>dmb_path key found. resolve_artifact (ph_files ph) pol p = Inr dmb_path \<and>
        location_key (ph_files ph) dmb_path = Inr key \<and> read_build ph st key = Inr found \<and>
        (case found of None \<Rightarrow> d = unverified req
         | Some (r, attempt) \<Rightarrow> \<exists>project. project_identity (ph_files ph) pol dmb_path = Inr project \<and>
             d = decide_launch r req (launch_reasons (ph_files ph) r project dmb_path attempt)))"
proof -
  have found: "(case found of None \<Rightarrow> Inr (unverified req)
      | Some (r, attempt) \<Rightarrow> rbind (project_identity (ph_files ph) pol q) (\<lambda>project.
          Inr (decide_launch r req (launch_reasons (ph_files ph) r project q attempt)))) = Inr d \<longleftrightarrow>
      (case found of None \<Rightarrow> d = unverified req
       | Some (r, attempt) \<Rightarrow> \<exists>project. project_identity (ph_files ph) pol q = Inr project \<and>
           d = decide_launch r req (launch_reasons (ph_files ph) r project q attempt))"
    for found q by (cases found) (auto simp: rbind_Inr)
  show ?thesis by (simp add: evaluate_launch_def rbind_Inr found)
qed

lemma read_build_None:
  "read_build ph st key = Inr None \<Longrightarrow> map_of (pf_locations st) key = None"
  by (auto simp: read_build_def read_optional_def rbind_Inr split: option.splits)

lemma read_build_Some:
  "read_build ph st key = Inr (Some (r, attempt)) \<Longrightarrow>
     \<exists>l. map_of (pf_locations st) key = Some l \<and> al_schema l = 1 \<and>
         map_of (pf_builds st) (al_artifact_key l) = Some r \<and>
         map_of (pf_attempts st) (br_artifact_key r) = attempt"
  by (auto simp: read_build_def read_optional_def read_required_def rbind_Inr or_err_Inr require_Inr
      split: option.splits)

lemma read_buildI:
  "ph_lock ph = None \<Longrightarrow> ph_read ph (record_name ''locations'' key) = None \<Longrightarrow>
   map_of (pf_locations st) key = Some l \<Longrightarrow> al_schema l = 1 \<Longrightarrow> length (al_artifact_key l) = 64 \<Longrightarrow>
   ph_read ph (record_name ''builds'' (al_artifact_key l)) = None \<Longrightarrow>
   map_of (pf_builds st) (al_artifact_key l) = Some r \<Longrightarrow>
   ph_read ph (record_name ''attempts'' (br_artifact_key r)) = None \<Longrightarrow>
   read_build ph st key = Inr (Some (r, map_of (pf_attempts st) (br_artifact_key r)))"
  by (simp add: read_build_def read_optional_def read_required_def lock_state_def or_err_def)

end
