(* ===== verification/Byte_Codec.thy ===== *)
theory Byte_Codec
  imports Prelude
begin

text \<open>
  Fixed-width integers as bytes, most significant first (\<open>to_be_bytes\<close> and \<open>from_be_bytes\<close>),
  and the length-prefixed concatenation that the digests of identities are taken over.
\<close>

lemma unat_of_nat32: "n < 2 ^ 32 \<Longrightarrow> unat (of_nat n :: u32) = n"
  by (simp add: unat_of_nat take_bit_nat_eq_self)

section \<open>Big-endian integers\<close>

fun be_bytes :: "nat \<Rightarrow> nat \<Rightarrow> string" where
  "be_bytes 0 n = []"
| "be_bytes (Suc k) n = be_bytes k (n div 256) @ [char_of (n mod 256)]"

definition be_value :: "string \<Rightarrow> nat" where
  "be_value s = foldl (\<lambda>a c. a * 256 + of_char c) 0 s"

lemma be_bytes_length [simp]: "length (be_bytes k n) = k"
  by (induction k n rule: be_bytes.induct) auto

lemma be_value_snoc [simp]: "be_value (s @ [c]) = be_value s * 256 + of_char c"
  by (simp add: be_value_def)

lemma be_value_Nil [simp]: "be_value [] = 0"
  by (simp add: be_value_def)

lemma be_value_bytes: "n < 256 ^ k \<Longrightarrow> be_value (be_bytes k n) = n"
proof (induction k n rule: be_bytes.induct)
  case (2 k n)
  then have "be_value (be_bytes k (n div 256)) = n div 256"
    by (simp add: less_mult_imp_div_less mult.commute)
  then show ?case by (simp add: div_mult_mod_eq)
qed simp

lemma be_value_less: "be_value s < 256 ^ length s"
proof (induction s rule: rev_induct)
  case (snoc c s)
  have "(of_char c :: nat) < 256" by simp
  then have "be_value s * 256 + of_char c < (be_value s + 1) * 256" by simp
  also have "(be_value s + 1) * 256 \<le> 256 ^ length s * 256"
    using snoc by (intro mult_le_mono1) simp
  finally show ?case by (simp add: mult.commute)
qed simp

lemma be_bytes_value: "be_bytes (length s) (be_value s) = s"
proof (induction s rule: rev_induct)
  case (snoc c s)
  have "(of_char c :: nat) < 256" by simp
  with snoc show ?case by simp
qed simp

lemma be_bytes_inj: "be_bytes k m = be_bytes k n \<Longrightarrow> m < 256 ^ k \<Longrightarrow> n < 256 ^ k \<Longrightarrow> m = n"
  by (metis be_value_bytes)

section \<open>Length-prefixed parts\<close>

text \<open>
  \<open>update((part.len() as u64).to_be_bytes())\<close>, then the part: what a digest over several parts
  is taken over.
\<close>

definition part_bytes :: "string \<Rightarrow> string" where
  "part_bytes p = be_bytes 8 (length p) @ p"

definition parts_bytes :: "string list \<Rightarrow> string" where
  "parts_bytes ps = concat (map part_bytes ps)"

lemma parts_bytes_simps [simp]:
  "parts_bytes [] = []" "parts_bytes (p # ps) = part_bytes p @ parts_bytes ps"
  by (simp_all add: parts_bytes_def)

text \<open>The parts can be read back, so different parts are never the same bytes.\<close>

lemma part_bytes_append_inj:
  assumes "part_bytes p @ x = part_bytes q @ y" "length p < 2 ^ 64" "length q < 2 ^ 64"
  shows "p = q \<and> x = y"
proof -
  have "be_bytes 8 (length p) @ p @ x = be_bytes 8 (length q) @ q @ y"
    using assms(1) by (simp add: part_bytes_def)
  then have eq: "be_bytes 8 (length p) = be_bytes 8 (length q)" "p @ x = q @ y"
    using append_eq_append_conv[of "be_bytes 8 (length p)" "be_bytes 8 (length q)"] by auto
  have "length p = length q" using be_bytes_inj[OF eq(1)] assms(2,3) by simp
  with eq(2) show ?thesis by simp
qed

lemma part_bytes_not_Nil [simp]: "part_bytes p \<noteq> []"
  by (metis append_is_Nil_conv be_bytes_length length_0_conv part_bytes_def zero_neq_numeral)

lemma parts_bytes_inj:
  assumes "parts_bytes ps = parts_bytes qs"
    and "\<forall>p \<in> set ps. length p < 2 ^ 64" "\<forall>q \<in> set qs. length q < 2 ^ 64"
  shows "ps = qs"
  using assms
proof (induction ps arbitrary: qs)
  case Nil
  then show ?case by (cases qs) auto
next
  case (Cons p ps)
  then obtain q qs' where q: "qs = q # qs'" by (cases qs) auto
  with Cons.prems have "p = q" "parts_bytes ps = parts_bytes qs'"
    using part_bytes_append_inj[of p "parts_bytes ps" q "parts_bytes qs'"] by auto
  with Cons q show ?case by auto
qed

end
