(* ===== verification/Tracy_Protocol.thy ===== *)
theory Tracy_Protocol
  imports Prelude
begin

text \<open>
  The line protocol between the server and its Tracy helper process, from
  \<open>src/tracy_protocol.rs\<close>: commands, errors, \<open>build_request\<close> and \<open>parse_response\<close>, and the
  two classifiers of helper errors in \<open>src/tracy_collector.rs\<close>.

  JSON values belong to the external crate \<open>serde_json\<close>.  They are an abstract type \<open>'v\<close>, and
  the operations of the crate the code calls are the fields of the record \<open>json_api\<close>, which
  every definition that needs them takes as its argument.
\<close>

section \<open>The JSON interface\<close>

record 'v json_api =
  ja_parse :: "string \<Rightarrow> string + 'v"
  ja_index :: "'v \<Rightarrow> string \<Rightarrow> 'v"
  ja_get :: "'v \<Rightarrow> string \<Rightarrow> 'v option"
  ja_u64 :: "'v \<Rightarrow> u64 option"
  ja_bool :: "'v \<Rightarrow> bool option"
  ja_str :: "'v \<Rightarrow> string option"
  ja_is_object :: "'v \<Rightarrow> bool"
  ja_null :: 'v
  ja_envelope :: "u64 \<Rightarrow> u64 \<Rightarrow> string \<Rightarrow> 'v \<Rightarrow> string + string"

text \<open>
  \<open>ja_envelope j schema rid command params\<close> is \<open>serde_json::to_vec\<close> of the request object with
  those four members.
\<close>

section \<open>Commands, errors and the two directions of the protocol\<close>

definition TRACY_HELPER_SCHEMA_VERSION :: u64 where
  "TRACY_HELPER_SCHEMA_VERSION = 2"

datatype tracy_command = Capture | Hotspots | Zone | FrameStats | Compare

fun command_as_str :: "tracy_command \<Rightarrow> string" where
  "command_as_str Capture = ''capture''"
| "command_as_str Hotspots = ''hotspots''"
| "command_as_str Zone = ''zone''"
| "command_as_str FrameStats = ''frame_stats''"
| "command_as_str Compare = ''compare''"

datatype termination_reason = Exited | WallTimeout | IdleTimeout | Cancelled | SpawnFailed

datatype 'v tracy_error =
    InvalidParams
  | Serialize string
  | RequestTooLarge
  | Timeout u64
  | Transport string
  | MultipleResponses
  | EmptyResponse
  | ResponseSchema
  | ResponseId u64 u64
  | MissingResult
  | Helper string string 'v
  | Process termination_reason
  | Runner string

definition build_request ::
    "'v json_api \<Rightarrow> u64 \<Rightarrow> tracy_command \<Rightarrow> 'v \<Rightarrow> 'v tracy_error + string" where
  "build_request j rid command params =
     (if \<not> ja_is_object j params then Inl InvalidParams
      else case ja_envelope j TRACY_HELPER_SCHEMA_VERSION rid (command_as_str command) params of
             Inl e \<Rightarrow> Inl (Serialize e)
           | Inr request \<Rightarrow> Inr (request @ [CHR 0x0A]))"

text \<open>\<open>response.ends_with(..)\<close> followed by dropping the last byte.\<close>

definition strip_last :: "char \<Rightarrow> string \<Rightarrow> string" where
  "strip_last c s = (if s \<noteq> [] \<and> last s = c then butlast s else s)"

definition helper_error :: "'v json_api \<Rightarrow> 'v \<Rightarrow> 'v tracy_error" where
  "helper_error j document =
     (let e = ja_index j document ''error''
      in Helper
           (case ja_str j (ja_index j e ''code'') of Some c \<Rightarrow> c | None \<Rightarrow> ''unknown'')
           (case ja_str j (ja_index j e ''message'') of Some m \<Rightarrow> m | None \<Rightarrow> ''helper failed'')
           (case ja_get j e ''details'' of Some d \<Rightarrow> d | None \<Rightarrow> ja_null j))"

definition parse_response :: "'v json_api \<Rightarrow> u64 \<Rightarrow> string \<Rightarrow> 'v tracy_error + 'v" where
  "parse_response j rid bytes =
     (let response = strip_last (CHR 0x0D) (strip_last (CHR 0x0A) bytes)
      in if response = [] then Inl EmptyResponse
         else if CHR 0x0A \<in> set response \<or> CHR 0x0D \<in> set response then Inl MultipleResponses
         else case ja_parse j response of Inl e \<Rightarrow> Inl (Serialize e) | Inr document \<Rightarrow>
           if Option.bind (ja_get j document ''schema_version'') (ja_u64 j)
              \<noteq> Some TRACY_HELPER_SCHEMA_VERSION
           then Inl ResponseSchema
           else case Option.bind (ja_get j document ''id'') (ja_u64 j) of
                  None \<Rightarrow> Inl ResponseSchema
                | Some actual \<Rightarrow>
                    if actual \<noteq> rid then Inl (ResponseId rid actual)
                    else if Option.bind (ja_get j document ''ok'') (ja_bool j) = Some False
                    then Inl (helper_error j document)
                    else case ja_get j document ''result'' of
                           Some r \<Rightarrow> Inr r | None \<Rightarrow> Inl MissingResult)"

section \<open>Classification of helper errors\<close>

definition capture_window_started :: "'v json_api \<Rightarrow> 'v tracy_error \<Rightarrow> bool" where
  "capture_window_started j e =
     (case e of Helper code message details \<Rightarrow>
        ja_bool j (ja_index j details ''window_started'') = Some True
      | _ \<Rightarrow> False)"

text \<open>\<open>ToolErrorCode\<close> of \<open>src/result.rs\<close>.\<close>

datatype tool_error_code =
    InvalidInput | PathOutsideWorkspace | ParseRequired | StaleGeneration | NotFound
  | AmbiguousSymbol | UnsupportedUpstream | LimitExceeded | TimedOut | InvalidCapture
  | CaptureNotReady | RecoveryRequired | WorkspaceIntegrityViolation | PartialEvidence
  | HelperFailure | HelperChecksumMismatch | ExternalToolFailure | ToolNotAvailable | Internal

definition capture_failure_code :: "'v json_api \<Rightarrow> 'v tracy_error \<Rightarrow> tool_error_code" where
  "capture_failure_code j e =
     (case e of Helper code message details \<Rightarrow>
        if \<not> capture_window_started j e \<and>
           code \<in> {''connect_timeout'', ''handshake_dropped'', ''client_disconnected'',
                    ''profiler_busy'', ''health_timeout''}
        then CaptureNotReady else HelperFailure
      | _ \<Rightarrow> HelperFailure)"

section \<open>Lemmas\<close>

lemma strip_last_snoc [simp]: "strip_last c (s @ [c]) = s"
  by (simp add: strip_last_def)

lemma strip_last_noop: "c \<notin> set s \<Longrightarrow> strip_last c s = s"
  by (auto simp: strip_last_def)

text \<open>A complete response line, with either line ending, is read as its document.\<close>

definition response_line :: "string \<Rightarrow> bool \<Rightarrow> string" where
  "response_line payload crlf = payload @ (if crlf then [CHR 0x0D, CHR 0x0A] else [CHR 0x0A])"

lemma strip_response_line:
  assumes "CHR 0x0A \<notin> set payload" "CHR 0x0D \<notin> set payload"
  shows "strip_last (CHR 0x0D) (strip_last (CHR 0x0A) (response_line payload crlf)) = payload"
proof (cases crlf)
  case True
  have "payload @ [CHR 0x0D, CHR 0x0A] = (payload @ [CHR 0x0D]) @ [CHR 0x0A]" by simp
  with True show ?thesis
    unfolding response_line_def by (simp only: if_True strip_last_snoc)
next
  case False
  with assms show ?thesis by (simp add: response_line_def strip_last_noop)
qed

lemma strip_response_line_crlf:
  "strip_last (CHR 0x0D) (strip_last (CHR 0x0A) (response_line payload True)) = payload"
proof -
  have "payload @ [CHR 0x0D, CHR 0x0A] = (payload @ [CHR 0x0D]) @ [CHR 0x0A]" by simp
  then show ?thesis unfolding response_line_def by (simp only: if_True strip_last_snoc)
qed

lemma parse_response_ok:
  "parse_response j rid bytes = Inr r \<Longrightarrow>
    \<exists>document. ja_parse j (strip_last (CHR 0x0D) (strip_last (CHR 0x0A) bytes)) = Inr document
      \<and> Option.bind (ja_get j document ''schema_version'') (ja_u64 j) = Some TRACY_HELPER_SCHEMA_VERSION
      \<and> Option.bind (ja_get j document ''id'') (ja_u64 j) = Some rid
      \<and> Option.bind (ja_get j document ''ok'') (ja_bool j) \<noteq> Some False
      \<and> ja_get j document ''result'' = Some r"
  by (auto simp: parse_response_def Let_def split: if_splits sum.splits option.splits)

section \<open>Properties\<close>

text \<open>
  On a payload without line breaks, terminated by LF or by CRLF, \<open>parse_response\<close>
  returns a value exactly when the payload parses as JSON, carries the protocol's schema
  version and this request's id, is not marked as failed, and has a \<open>result\<close>, and it is
  that result; and a response whose stripped text still has a line break is never accepted.
\<close>

lemma parse_response_accepts:
  "if CHR 0x0A \<in> set payload \<or> CHR 0x0D \<in> set payload
   then parse_response j rid (response_line payload True) = Inl MultipleResponses
   else parse_response j rid (response_line payload crlf) = Inr r \<longleftrightarrow>
     payload \<noteq> [] \<and>
     (\<exists>document. ja_parse j payload = Inr document \<and>
        Option.bind (ja_get j document ''schema_version'') (ja_u64 j) = Some 2 \<and>
        Option.bind (ja_get j document ''id'') (ja_u64 j) = Some rid \<and>
        Option.bind (ja_get j document ''ok'') (ja_bool j) \<noteq> Some False \<and>
        ja_get j document ''result'' = Some r)"
  using strip_response_line[of payload crlf] strip_response_line_crlf[of payload]
  by (auto simp: parse_response_def Let_def TRACY_HELPER_SCHEMA_VERSION_def
      split: if_splits sum.splits option.splits)

end
