(* ===== verification/Output_Log.thy ===== *)
theory Output_Log
  imports Prelude
begin

text \<open>
  The bounded buffers that retain what child processes print: the runtime output log of
  \<open>src/state.rs\<close> (\<open>RuntimeOutputBuffer\<close>, \<open>push_output_line_at\<close>, \<open>nearest_output_before\<close>,
  \<open>recent_output\<close>) and the tail buffers in which \<open>src/process.rs\<close> captures the output of
  contained processes (\<open>TailBuffer\<close>, \<open>append_output\<close>).  Both are instances of the
  \<open>bounded_tail\<close> interface of the prelude.

  The mutex around the log is not modelled: every function holds it from its first access
  to its last, so each call is one atomic step.  \<open>Instant\<close>s are milliseconds as natural
  numbers.
\<close>

section \<open>Constants and data\<close>

definition OUTPUT_LOG_CAPACITY :: nat where
  "OUTPUT_LOG_CAPACITY = 500"

definition OUTPUT_LINE_MAX_BYTES :: nat where
  "OUTPUT_LINE_MAX_BYTES = 16 * 1024"

definition OUTPUT_LOG_MAX_BYTES :: nat where
  "OUTPUT_LOG_MAX_BYTES = 1024 * 1024"

definition OUTPUT_TRUNCATED_SUFFIX :: string where
  "OUTPUT_TRUNCATED_SUFFIX = ''... [truncated]''"

lemmas output_limits =
  OUTPUT_LOG_CAPACITY_def OUTPUT_LINE_MAX_BYTES_def OUTPUT_LOG_MAX_BYTES_def
  OUTPUT_TRUNCATED_SUFFIX_def

record output_entry =
  oe_sequence :: u64
  oe_offset :: u64
  oe_text :: string

record output_buffer =
  ob_entries :: "output_entry list"
  ob_started_at :: nat
  ob_next_sequence :: u64
  ob_running :: bool
  ob_drained :: bool
  ob_last_exit_code :: "int option"
  ob_changes :: u64

definition output_buffer_default :: "nat \<Rightarrow> output_buffer" where
  "output_buffer_default now =
     \<lparr>ob_entries = [], ob_started_at = now, ob_next_sequence = 1, ob_running = False,
      ob_drained = True, ob_last_exit_code = None, ob_changes = 0\<rparr>"

section \<open>Operations\<close>

text \<open>\<open>str::is_char_boundary\<close>: a byte index at an end of the string or at a byte that is
  not a UTF-8 continuation byte.\<close>

definition is_continuation :: "char \<Rightarrow> bool" where
  "is_continuation c \<longleftrightarrow> 128 \<le> (of_char c :: nat) \<and> (of_char c :: nat) < 192"

definition is_char_boundary :: "string \<Rightarrow> nat \<Rightarrow> bool" where
  "is_char_boundary s i \<longleftrightarrow>
     (if i = 0 \<or> i = length s then True
      else if i < length s then \<not> is_continuation (s ! i) else False)"

text \<open>The loop \<open>while !line.is_char_boundary(split_at) { split_at -= 1 }\<close>; index 0 is always
  a boundary.\<close>

fun floor_char_boundary :: "string \<Rightarrow> nat \<Rightarrow> nat" where
  "floor_char_boundary s 0 = 0"
| "floor_char_boundary s (Suc i) =
     (if is_char_boundary s (Suc i) then Suc i else floor_char_boundary s i)"

definition truncate_output_line :: "string \<Rightarrow> string" where
  "truncate_output_line line =
     (if length line \<le> OUTPUT_LINE_MAX_BYTES then line
      else let content_limit = OUTPUT_LINE_MAX_BYTES - length OUTPUT_TRUNCATED_SUFFIX;
               split_at = floor_char_boundary line content_limit
           in take split_at line @ OUTPUT_TRUNCATED_SUFFIX)"

definition output_log_byte_len :: "output_entry list \<Rightarrow> nat" where
  "output_log_byte_len es = sum_list (map (\<lambda>e. length (oe_text e)) es)"

text \<open>The loop \<open>while output_log_byte_len(..) > OUTPUT_LOG_MAX_BYTES { pop_front() }\<close>.\<close>

fun evict_bytes :: "output_entry list \<Rightarrow> output_entry list" where
  "evict_bytes [] = []"
| "evict_bytes (e # es) =
     (if output_log_byte_len (e # es) > OUTPUT_LOG_MAX_BYTES then evict_bytes es else e # es)"

definition push_output_line_at :: "output_buffer \<Rightarrow> u64 \<Rightarrow> string \<Rightarrow> output_buffer" where
  "push_output_line_at b offset line =
     (let line = truncate_output_line line;
          es = (if length (ob_entries b) \<ge> OUTPUT_LOG_CAPACITY
                then tl (ob_entries b) else ob_entries b);
          sequence = ob_next_sequence b;
          es = es @ [\<lparr>oe_sequence = sequence, oe_offset = offset, oe_text = line\<rparr>]
      in b\<lparr>ob_next_sequence := sat_add64 sequence 1,
           ob_entries := evict_bytes es,
           ob_changes := ob_changes b + 1\<rparr>)"

text \<open>\<open>as_millis() as u64\<close> keeps the low 64 bits.\<close>

definition push_output_line :: "output_buffer \<Rightarrow> nat \<Rightarrow> string \<Rightarrow> output_buffer" where
  "push_output_line b now line =
     push_output_line_at b (of_nat (now - ob_started_at b)) line"

definition nearest_output_before :: "output_buffer \<Rightarrow> u64 \<Rightarrow> output_entry option" where
  "nearest_output_before b offset = find (\<lambda>e. oe_offset e \<le> offset) (rev (ob_entries b))"

definition recent_output :: "output_buffer \<Rightarrow> nat \<Rightarrow> string list" where
  "recent_output b limit =
     (if limit = 0 then []
      else map oe_text (drop (length (ob_entries b) - limit) (ob_entries b)))"

definition recent_output_entries :: "output_buffer \<Rightarrow> nat \<Rightarrow> output_entry list" where
  "recent_output_entries b limit = drop (length (ob_entries b) - limit) (ob_entries b)"

section \<open>Captured process output\<close>

definition MAX_PROCESS_OUTPUT_BYTES :: nat where
  "MAX_PROCESS_OUTPUT_BYTES = 512 * 1024"

record tail_buffer =
  tb_bytes :: string
  tb_truncated_bytes :: u64

definition tail_buffer_new :: tail_buffer where
  "tail_buffer_new = \<lparr>tb_bytes = [], tb_truncated_bytes = 0\<rparr>"

definition tail_push :: "tail_buffer \<Rightarrow> string \<Rightarrow> tail_buffer" where
  "tail_push b chunk =
     (if length chunk \<ge> MAX_PROCESS_OUTPUT_BYTES then
        \<lparr>tb_bytes = drop (length chunk - MAX_PROCESS_OUTPUT_BYTES) chunk,
         tb_truncated_bytes =
           sat_add64 (sat_add64 (tb_truncated_bytes b) (of_nat (length (tb_bytes b))))
             (of_nat (length chunk - MAX_PROCESS_OUTPUT_BYTES))\<rparr>
      else
        let overflow = length (tb_bytes b) + length chunk - MAX_PROCESS_OUTPUT_BYTES;
            b = (if overflow \<noteq> 0
                 then b\<lparr>tb_bytes := drop overflow (tb_bytes b),
                        tb_truncated_bytes :=
                          sat_add64 (tb_truncated_bytes b) (of_nat overflow)\<rparr>
                 else b)
        in b\<lparr>tb_bytes := tb_bytes b @ chunk\<rparr>)"

record bounded_output =
  bo_text :: string
  bo_captured_bytes :: nat
  bo_truncated_bytes :: u64

text \<open>\<open>String::from_utf8_lossy\<close> is the parameter \<open>lossy\<close>.\<close>

definition tail_finish :: "(string \<Rightarrow> string) \<Rightarrow> tail_buffer \<Rightarrow> bounded_output" where
  "tail_finish lossy b =
     \<lparr>bo_text = lossy (tb_bytes b), bo_captured_bytes = length (tb_bytes b),
      bo_truncated_bytes = tb_truncated_bytes b\<rparr>"

datatype output_stream = Stdout | Stderr

definition append_output ::
    "tail_buffer \<times> tail_buffer \<Rightarrow> output_stream \<times> string \<Rightarrow> tail_buffer \<times> tail_buffer" where
  "append_output bs m =
     (case fst m of Stdout \<Rightarrow> (tail_push (fst bs) (snd m), snd bs)
      | Stderr \<Rightarrow> (fst bs, tail_push (snd bs) (snd m)))"

section \<open>Truncation of a line\<close>

lemma floor_char_boundary_le: "floor_char_boundary s i \<le> i"
  by (induction i) auto

lemma floor_char_boundary_boundary: "is_char_boundary s (floor_char_boundary s i)"
  by (induction i) (auto simp: is_char_boundary_def[of s 0])

lemma floor_char_boundary_greatest:
  "j \<le> i \<Longrightarrow> is_char_boundary s j \<Longrightarrow> j \<le> floor_char_boundary s i"
  by (induction i) (auto simp: le_Suc_eq)

lemma truncate_output_line_length: "length (truncate_output_line line) \<le> OUTPUT_LINE_MAX_BYTES"
proof -
  have "floor_char_boundary line (OUTPUT_LINE_MAX_BYTES - length OUTPUT_TRUNCATED_SUFFIX)
      \<le> OUTPUT_LINE_MAX_BYTES - length OUTPUT_TRUNCATED_SUFFIX"
    by (rule floor_char_boundary_le)
  then show ?thesis
    by (auto simp: truncate_output_line_def Let_def output_limits)
qed

text \<open>
  Valid UTF-8 as a concatenation of encoded characters: a leading byte that is not a
  continuation byte, then at most three continuation bytes.
\<close>

definition utf8_char :: "string \<Rightarrow> bool" where
  "utf8_char u \<longleftrightarrow> u \<noteq> [] \<and> length u \<le> 4 \<and> \<not> is_continuation (hd u) \<and>
     (\<forall>c \<in> set (tl u). is_continuation c)"

lemma utf8_char_inner: "utf8_char u \<Longrightarrow> 0 < i \<Longrightarrow> i < length u \<Longrightarrow> is_continuation (u ! i)"
  by (cases u) (auto simp: utf8_char_def nth_Cons')

lemma concat_first_not_continuation:
  "list_all utf8_char us \<Longrightarrow> concat us \<noteq> [] \<Longrightarrow> \<not> is_continuation (concat us ! 0)"
  by (cases us) (auto simp: utf8_char_def nth_append hd_conv_nth)

lemma boundary_concat:
  assumes "list_all utf8_char us" "is_char_boundary (concat us) i" "i \<le> length (concat us)"
  shows "\<exists>k \<le> length us. i = length (concat (take k us))"
  using assms
proof (induction us arbitrary: i)
  case Nil
  then show ?case by simp
next
  case (Cons u us)
  consider "i = 0" | "0 < i" "i < length u" | "length u \<le> i" by linarith
  then show ?case
  proof cases
    case 1
    then show ?thesis by (intro exI[of _ 0]) simp
  next
    case 2
    with Cons.prems have "is_continuation (u ! i)"
      by (auto intro: utf8_char_inner)
    with 2 Cons.prems show ?thesis
      by (auto simp: is_char_boundary_def nth_append split: if_splits)
  next
    case 3
    have "is_char_boundary (concat us) (i - length u)"
      using 3 Cons.prems by (auto simp: is_char_boundary_def nth_append split: if_splits)
    moreover have "i - length u \<le> length (concat us)" "list_all utf8_char us"
      using Cons.prems by auto
    ultimately obtain k where "k \<le> length us" "i - length u = length (concat (take k us))"
      using Cons.IH by blast
    with 3 show ?thesis by (intro exI[of _ "Suc k"]) auto
  qed
qed

lemma concat_take_boundary:
  assumes "list_all utf8_char us"
  shows "is_char_boundary (concat us) (length (concat (take k us)))"
proof (cases "concat (drop k us) = []")
  case True
  then have "length (concat us) = length (concat (take k us))"
    by (metis append_Nil2 append_take_drop_id concat_append)
  then show ?thesis by (simp add: is_char_boundary_def)
next
  case False
  have "concat us ! length (concat (take k us)) = concat (drop k us) ! 0"
    by (metis append_take_drop_id concat_append nth_append_length_plus add_0_right)
  moreover have "\<not> is_continuation (concat (drop k us) ! 0)"
    using False assms by (intro concat_first_not_continuation)
      (auto simp: list_all_iff dest: in_set_dropD)
  moreover have "length (concat (take k us)) < length (concat us)"
    using False by (metis append_take_drop_id concat_append length_append length_greater_0_conv
        less_add_same_cancel1)
  ultimately show ?thesis by (simp add: is_char_boundary_def)
qed

lemma floor_char_boundary_concat:
  assumes "list_all utf8_char us" "n < length (concat us)"
  shows "\<exists>k < length us. floor_char_boundary (concat us) n = length (concat (take k us))
           \<and> n < length (concat (take (Suc k) us))"
proof -
  let ?f = "floor_char_boundary (concat us) n"
  have le: "?f \<le> n" by (rule floor_char_boundary_le)
  with assms obtain k where k: "k \<le> length us" "?f = length (concat (take k us))"
    using boundary_concat[OF assms(1) floor_char_boundary_boundary] by (metis le_trans less_imp_le)
  then have "k < length us"
    using le assms(2) by (metis le_neq_implies_less not_le take_all_iff le_refl)
  then have "length (concat (take k us)) < length (concat (take (Suc k) us))"
    using assms(1) by (auto simp: take_Suc_conv_app_nth list_all_length utf8_char_def)
  then have "n < length (concat (take (Suc k) us))"
    using floor_char_boundary_greatest[OF _ concat_take_boundary[OF assms(1)], of "Suc k" n] k(2)
    by (metis not_le)
  with k \<open>k < length us\<close> show ?thesis by blast
qed

text \<open>
  Truncation keeps a prefix of whole characters and gives up at most three bytes of the
  limit to do so.
\<close>

lemma truncate_output_line_utf8:
  assumes "list_all utf8_char us" "OUTPUT_LINE_MAX_BYTES < length (concat us)"
  obtains k where "k < length us"
    "truncate_output_line (concat us) = concat (take k us) @ OUTPUT_TRUNCATED_SUFFIX"
    "OUTPUT_LINE_MAX_BYTES < length (truncate_output_line (concat us)) + 4"
proof -
  let ?n = "OUTPUT_LINE_MAX_BYTES - length OUTPUT_TRUNCATED_SUFFIX"
  have "?n < length (concat us)" using assms(2) by simp
  with floor_char_boundary_concat[OF assms(1) this] obtain k where k: "k < length us"
    "floor_char_boundary (concat us) ?n = length (concat (take k us))"
    "?n < length (concat (take (Suc k) us))" by blast
  have take: "take (length (concat (take k us))) (concat us) = concat (take k us)"
    by (metis append_eq_conv_conj append_take_drop_id concat_append)
  have "length (us ! k) \<le> 4" using assms(1) k(1) by (auto simp: list_all_length utf8_char_def)
  then have "?n < length (concat (take k us)) + 4"
    using k(1,3) by (auto simp: take_Suc_conv_app_nth)
  moreover have eq: "truncate_output_line (concat us) = concat (take k us) @ OUTPUT_TRUNCATED_SUFFIX"
    using assms(2) k(2) take by (simp add: truncate_output_line_def Let_def)
  ultimately have "OUTPUT_LINE_MAX_BYTES < length (truncate_output_line (concat us)) + 4"
    by (simp add: output_limits)
  with k(1) eq show thesis by (rule that)
qed

section \<open>The output log is a bounded tail\<close>

definition log_bound :: "output_entry list \<Rightarrow> bool" where
  "log_bound es \<longleftrightarrow>
     length es \<le> OUTPUT_LOG_CAPACITY \<and> output_log_byte_len es \<le> OUTPUT_LOG_MAX_BYTES"

text \<open>The log's invariant: both bounds, and every retained line within the line limit.\<close>

definition log_inv :: "output_buffer \<Rightarrow> bool" where
  "log_inv b \<longleftrightarrow> log_bound (ob_entries b) \<and>
     (\<forall>e \<in> set (ob_entries b). length (oe_text e) \<le> OUTPUT_LINE_MAX_BYTES)"

definition log_entry :: "output_buffer \<Rightarrow> u64 \<times> string \<Rightarrow> output_entry" where
  "log_entry b c = \<lparr>oe_sequence = ob_next_sequence b, oe_offset = fst c,
     oe_text = truncate_output_line (snd c)\<rparr>"

lemma byte_len_append [simp]:
  "output_log_byte_len (xs @ ys) = output_log_byte_len xs + output_log_byte_len ys"
  "output_log_byte_len [] = 0"
  "output_log_byte_len (e # xs) = length (oe_text e) + output_log_byte_len xs"
  by (simp_all add: output_log_byte_len_def)

lemma log_bound_closed: "infix_closed log_bound"
  by (auto intro!: infix_closedI simp: log_bound_def output_limits)

lemma evict_bytes_bounded_suffix:
  "evict_bytes es = bounded_suffix (\<lambda>es. output_log_byte_len es \<le> OUTPUT_LOG_MAX_BYTES) es"
  by (induction es) auto

lemma bounded_suffix_log_bound:
  "length es \<le> OUTPUT_LOG_CAPACITY \<Longrightarrow> evict_bytes es = bounded_suffix log_bound es"
  by (induction es) (auto simp: log_bound_def)

lemma push_output_line_at_entries:
  assumes "log_bound (ob_entries b)"
  shows "ob_entries (push_output_line_at b (fst c) (snd c))
       = bounded_suffix log_bound (ob_entries b @ [log_entry b c])"
proof (cases "length (ob_entries b) \<ge> OUTPUT_LOG_CAPACITY")
  case True
  then obtain e es where es: "ob_entries b = e # es" "length es < OUTPUT_LOG_CAPACITY"
    using assms by (cases "ob_entries b") (auto simp: log_bound_def output_limits)
  have "\<not> log_bound (e # es @ [log_entry b c])"
    using True es by (auto simp: log_bound_def)
  with True es show ?thesis
    by (simp add: push_output_line_at_def Let_def log_entry_def bounded_suffix_log_bound)
next
  case False
  then show ?thesis
    by (simp add: push_output_line_at_def Let_def log_entry_def bounded_suffix_log_bound)
qed

lemma log_inv_push: "log_inv b \<Longrightarrow> log_inv (push_output_line_at b o1 line)"
proof -
  assume inv: "log_inv b"
  have "log_bound (ob_entries (push_output_line_at b o1 line))"
    using push_output_line_at_entries[of b "(o1, line)"] inv
    by (simp add: log_inv_def bounded_suffix_holds infix_closed_Nil[OF log_bound_closed])
  moreover have "set (ob_entries (push_output_line_at b o1 line))
      \<subseteq> insert (log_entry b (o1, line)) (set (ob_entries b))"
    using push_output_line_at_entries[of b "(o1, line)"] inv
      set_mono_suffix[OF suffix_bounded_suffix, of log_bound "ob_entries b @ [log_entry b (o1, line)]"]
    by (simp add: log_inv_def)
  ultimately show ?thesis
    using inv truncate_output_line_length by (auto simp: log_inv_def log_entry_def)
qed

interpretation log: bounded_tail "\<lambda>b c. push_output_line_at b (fst c) (snd c)" ob_entries
  "\<lambda>b c. [log_entry b c]" log_bound log_inv
proof (unfold_locales, goal_cases)
  case (1 b c)
  then show ?case by (intro push_output_line_at_entries) (simp add: log_inv_def)
next
  case (2 b c)
  then show ?case by (rule log_inv_push)
next
  case (3 b)
  then show ?case by (simp add: log_inv_def)
next
  case 4
  show ?case by (rule log_bound_closed)
qed

section \<open>Tail buffers are bounded tails\<close>

lemma tail_push_bytes:
  "tb_bytes (tail_push b chunk) =
     drop (length (tb_bytes b @ chunk) - MAX_PROCESS_OUTPUT_BYTES) (tb_bytes b @ chunk)"
  by (auto simp: tail_push_def Let_def)

interpretation tail: bounded_tail tail_push tb_bytes "\<lambda>_ chunk. chunk"
  "\<lambda>xs. length xs \<le> MAX_PROCESS_OUTPUT_BYTES"
  "\<lambda>b. length (tb_bytes b) \<le> MAX_PROCESS_OUTPUT_BYTES"
  by unfold_locales (auto simp: tail_push_bytes bounded_suffix_length infix_closed_length)

lemma tail_history: "tail.history b cs = concat cs"
  by (induction cs arbitrary: b) auto

text \<open>The invariant of a capture: nothing is lost without being counted.\<close>

lemma tail_push_accounts:
  assumes "length (tb_bytes b) \<le> MAX_PROCESS_OUTPUT_BYTES"
    "unat (tb_truncated_bytes b) + length (tb_bytes b) + length chunk < 2 ^ 64"
  shows "unat (tb_truncated_bytes (tail_push b chunk)) + length (tb_bytes (tail_push b chunk))
       = unat (tb_truncated_bytes b) + length (tb_bytes b) + length chunk"
  using assms
  by (auto simp: tail_push_def Let_def unat_sat_add64 unat_of_nat64 simp del: of_nat_diff of_nat_add)

lemma tail_run_accounts:
  assumes "length (tb_bytes b) \<le> MAX_PROCESS_OUTPUT_BYTES"
    "unat (tb_truncated_bytes b) + length (tb_bytes b) + length (concat cs) < 2 ^ 64"
  shows "unat (tb_truncated_bytes (foldl tail_push b cs)) + length (tb_bytes (foldl tail_push b cs))
       = unat (tb_truncated_bytes b) + length (tb_bytes b) + length (concat cs)"
  using assms
proof (induction cs arbitrary: b)
  case Nil
  then show ?case by simp
next
  case (Cons c cs)
  have "length (tb_bytes (tail_push b c)) \<le> MAX_PROCESS_OUTPUT_BYTES"
    using Cons.prems(1) by (rule tail.inv_push)
  then show ?case
    using Cons.IH[of "tail_push b c"] Cons.prems tail_push_accounts[of b c] by simp
qed

text \<open>What one stream contributes to the interleaved messages of the capture channel.\<close>

primrec stream_chunks :: "output_stream \<Rightarrow> (output_stream \<times> string) list \<Rightarrow> string list" where
  "stream_chunks s [] = []"
| "stream_chunks s (m # ms) = (if fst m = s then snd m # stream_chunks s ms else stream_chunks s ms)"

lemma append_output_run:
  "foldl append_output (so, se) ms =
     (foldl tail_push so (stream_chunks Stdout ms), foldl tail_push se (stream_chunks Stderr ms))"
  by (induction ms arbitrary: so se) (auto simp: append_output_def split: output_stream.splits)

section \<open>Sequence numbers\<close>

text \<open>
  The retained lines carry consecutive sequence numbers that end just below the next one,
  until the 64-bit counter saturates.
\<close>

definition sequences_contiguous :: "output_buffer \<Rightarrow> bool" where
  "sequences_contiguous b \<longleftrightarrow>
     (let n = length (ob_entries b); nxt = unat (ob_next_sequence b)
      in n < nxt \<and> (\<forall>i < n. unat (oe_sequence (ob_entries b ! i)) + n = nxt + i))"

lemma contiguous_suffix:
  assumes "suffix ys xs" "\<forall>i < length xs. f (xs ! i) + length xs = (m::nat) + i"
  shows "\<forall>i < length ys. f (ys ! i) + length ys = m + i"
proof (intro allI impI)
  fix i assume i: "i < length ys"
  obtain zs where xs: "xs = zs @ ys" using assms(1) by (auto simp: suffix_def)
  with i assms(2)[rule_format, of "length zs + i"] show "f (ys ! i) + length ys = m + i" by simp
qed

lemma sequences_contiguous_push:
  assumes "log_inv b" "sequences_contiguous b" "ob_next_sequence b < -1"
  shows "sequences_contiguous (push_output_line_at b o1 line)"
proof -
  let ?b = "push_output_line_at b o1 line"
  let ?xs = "ob_entries b @ [log_entry b (o1, line)]"
  have suf: "suffix (ob_entries ?b) ?xs"
    using push_output_line_at_entries[of b "(o1, line)"] assms(1)
      suffix_bounded_suffix[of log_bound ?xs] by (simp add: log_inv_def)
  have nxt: "unat (ob_next_sequence ?b) = Suc (unat (ob_next_sequence b))"
    using assms(3) unat_max64
    by (simp add: push_output_line_at_def Let_def unat_sat_add64 word_less_nat_alt)
  have "\<forall>i < length ?xs. unat (oe_sequence (?xs ! i)) + length ?xs = unat (ob_next_sequence ?b) + i"
    using assms(2) unfolding nxt
    by (auto simp: sequences_contiguous_def Let_def nth_append log_entry_def less_Suc_eq)
  from contiguous_suffix[OF suf this]
  have "\<forall>i < length (ob_entries ?b).
      unat (oe_sequence (ob_entries ?b ! i)) + length (ob_entries ?b) = unat (ob_next_sequence ?b) + i" .
  moreover have "length (ob_entries ?b) < unat (ob_next_sequence ?b)"
    using suffix_length_le[OF suf] assms(2) nxt by (simp add: sequences_contiguous_def Let_def)
  ultimately show ?thesis by (simp add: sequences_contiguous_def Let_def)
qed

lemma sequences_contiguous_run:
  assumes "log_inv b" "sequences_contiguous b" "unat (ob_next_sequence b) + length cs < 2 ^ 64"
  shows "sequences_contiguous (foldl (\<lambda>b c. push_output_line_at b (fst c) (snd c)) b cs) \<and>
    unat (ob_next_sequence (foldl (\<lambda>b c. push_output_line_at b (fst c) (snd c)) b cs))
      = unat (ob_next_sequence b) + length cs"
  using assms
proof (induction cs arbitrary: b)
  case Nil
  then show ?case by simp
next
  case (Cons c cs)
  let ?b = "push_output_line_at b (fst c) (snd c)"
  have less: "ob_next_sequence b < -1"
    using Cons.prems(3) unat_max64 by (simp add: word_less_nat_alt)
  have nxt: "unat (ob_next_sequence ?b) = Suc (unat (ob_next_sequence b))"
    using Cons.prems(3) by (simp add: push_output_line_at_def Let_def unat_sat_add64)
  have "log_inv ?b" "sequences_contiguous ?b"
    using Cons.prems less by (auto intro: log_inv_push sequences_contiguous_push)
  then show ?case
    using Cons.IH[of ?b] Cons.prems(3) nxt by simp
qed

lemma default_inv: "log_inv (output_buffer_default t)" "sequences_contiguous (output_buffer_default t)"
  by (simp_all add: log_inv_def log_bound_def output_buffer_default_def sequences_contiguous_def)

section \<open>Properties\<close>

text \<open>Everything pushed, with the sequence numbers the buffer hands out.\<close>

primrec log_history :: "u64 \<Rightarrow> (u64 \<times> string) list \<Rightarrow> output_entry list" where
  "log_history n [] = []"
| "log_history n (c # cs) =
     \<lparr>oe_sequence = n, oe_offset = fst c, oe_text = truncate_output_line (snd c)\<rparr>
       # log_history (sat_add64 n 1) cs"

lemma log_history_eq: "log.history b cs = log_history (ob_next_sequence b) cs"
proof (induction cs arbitrary: b)
  case Nil
  show ?case by simp
next
  case (Cons c cs)
  have "ob_next_sequence (push_output_line_at b (fst c) (snd c)) = sat_add64 (ob_next_sequence b) 1"
    by (simp add: push_output_line_at_def Let_def)
  with Cons.IH have "log.history b (c # cs)
      = log_entry b c # log_history (sat_add64 (ob_next_sequence b) 1) cs" by simp
  then show ?case by (simp only: log_entry_def log_history.simps)
qed

text \<open>
  C1. After any sequence of pushes the log keeps its bounds (500 lines, 1 MiB, 16 KiB per
  line) and holds exactly the longest tail of everything pushed that fits them: eviction
  takes the oldest lines only and never more than the bounds require.
\<close>

theorem output_log_retains_longest_tail:
  "let b = foldl (\<lambda>b c. push_output_line_at b (fst c) (snd c)) (output_buffer_default t) cs
   in log_inv b \<and> ob_entries b = bounded_suffix log_bound (log_history 1 cs)"
  using log.inv_run[OF default_inv(1)] log.run_contents[OF default_inv(1)]
  by (simp add: Let_def log_history_eq output_buffer_default_def)

text \<open>What a capture of a stream must report: the last bytes of it and how many were cut.\<close>

definition captures :: "tail_buffer \<Rightarrow> string \<Rightarrow> bool" where
  "captures b s \<longleftrightarrow>
     tb_bytes b = drop (length s - MAX_PROCESS_OUTPUT_BYTES) s \<and>
     unat (tb_truncated_bytes b) = length s - MAX_PROCESS_OUTPUT_BYTES"

lemma tail_run_captures:
  assumes "length (concat cs) < 2 ^ 64"
  shows "captures (foldl tail_push tail_buffer_new cs) (concat cs)"
  using tail.run_contents[of tail_buffer_new cs] tail_run_accounts[of tail_buffer_new cs] assms
  by (auto simp: captures_def tail_buffer_new_def tail_history bounded_suffix_length)

text \<open>
  However the chunks of the two pipes interleave, each captured stream is the last
  512 KiB of that pipe's own bytes, and the truncation counter is exactly what was cut.
\<close>

lemma captured_streams_are_tails:
  assumes "length (concat (stream_chunks Stdout ms)) < 2 ^ 64"
    and "length (concat (stream_chunks Stderr ms)) < 2 ^ 64"
    and "foldl append_output (tail_buffer_new, tail_buffer_new) ms = (so, se)"
  shows "captures so (concat (stream_chunks Stdout ms))
       \<and> captures se (concat (stream_chunks Stderr ms))"
  using assms by (auto simp: append_output_run tail_run_captures)

lemma captured_streams_are_tails_witness:
  "captures (tail_push (tail_push tail_buffer_new ''ab'') ''c'') ''abc''
     \<and> captures (tail_push tail_buffer_new ''e'') ''e''"
  using captured_streams_are_tails[of "[(Stdout, ''ab''), (Stderr, ''e''), (Stdout, ''c'')]"
      "tail_push (tail_push tail_buffer_new ''ab'') ''c''" "tail_push tail_buffer_new ''e''"]
  by (simp add: append_output_def)

end
