(* ===== verification/Collector_Transport.thy ===== *)
theory Collector_Transport
  imports Tracy_Protocol Output_Log
begin

text \<open>
  The request/response transport to the Tracy collector process, from
  \<open>src/tracy_collector.rs\<close>: bounded line framing (\<open>bounded_line\<close>), the registry of pending and
  abandoned requests (\<open>Registry\<close>, \<open>RequestGuard\<close>, \<open>fail_transport\<close>), the reader task of
  \<open>CollectorTransport::new\<close> and \<open>request_with_timeout\<close>, and the retained tail of stderr.

  Concurrency: every access to the registry happens under its mutex, and a critical section
  is one function of this theory.  Where the code releases the lock and then calls
  \<open>fail_transport\<close>, the message waits in \<open>sy_failing\<close>, so other threads may act in between.  A
  \<open>oneshot\<close> channel is named by the request id whose receiver it is: ids are handed out once,
  by \<open>next_request_id\<close>.  A value is put into a channel (\<open>rg_sent\<close>) in the critical section that
  takes its sender out of the registry; the receiver may still look at it at any later time.
\<close>

section \<open>Line framing\<close>

definition MAX_TRACY_REQUEST_BYTES :: nat where
  "MAX_TRACY_REQUEST_BYTES = 1024 * 1024"

definition MAX_TRACY_RESPONSE_BYTES :: nat where
  "MAX_TRACY_RESPONSE_BYTES = 4 * 1024 * 1024"

definition MAX_PENDING_REQUESTS :: nat where
  "MAX_PENDING_REQUESTS = 256"

definition MAX_ABANDONED_REQUESTS :: nat where
  "MAX_ABANDONED_REQUESTS = 256"

definition MAX_STDERR_LINE_BYTES :: nat where
  "MAX_STDERR_LINE_BYTES = 4096"

definition MAX_STDERR_LINES :: nat where
  "MAX_STDERR_LINES = 64"

text \<open>
  The reader delivers what \<open>fill_buf\<close> returns, one item per call, and an empty list is the end
  of the stream.  \<open>reader.consume\<close> leaves the rest of a partly used buffer for the next call.
\<close>

datatype fill = Filled string | FillError string

fun position :: "char \<Rightarrow> string \<Rightarrow> nat option" where
  "position c [] = None"
| "position c (x # xs) = (if x = c then Some 0 else map_option Suc (position c xs))"

definition FRAME_LIMIT_ERROR :: string where
  "FRAME_LIMIT_ERROR = ''collector frame exceeded fixed byte limit''"

fun bounded_line ::
    "nat \<Rightarrow> bool \<Rightarrow> fill list \<Rightarrow> string \<Rightarrow> bool
     \<Rightarrow> (string + (string \<times> bool) option) \<times> fill list" where
  "bounded_line limit drain [] bytes truncated =
     (Inr (if bytes \<noteq> [] \<or> truncated then Some (bytes, truncated) else None), [])"
| "bounded_line limit drain (FillError e # fs) bytes truncated = (Inl e, fs)"
| "bounded_line limit drain (Filled available # fs) bytes truncated =
     (if available = [] then
        (Inr (if bytes \<noteq> [] \<or> truncated then Some (bytes, truncated) else None),
         Filled available # fs)
      else
        let newline = position (CHR 0x0A) available;
            consumed = (case newline of None \<Rightarrow> length available | Some index \<Rightarrow> index + 1);
            retained = min consumed (limit - length bytes);
            bytes = bytes @ take retained available;
            truncated = (truncated \<or> retained < consumed);
            rest = (if consumed < length available
                    then Filled (drop consumed available) # fs else fs)
        in if truncated \<and> \<not> drain then (Inl FRAME_LIMIT_ERROR, rest)
           else if newline \<noteq> None then (Inr (Some (bytes, truncated)), rest)
           else bounded_line limit drain fs bytes truncated)"

section \<open>The registry\<close>

datatype 'v pending_result = Answer 'v | Failure string

record 'v registry =
  rg_pending :: "u64 list"
  rg_abandoned :: "u64 list"
  rg_terminal :: "string option"
  rg_shutdown :: bool
  rg_sent :: "(u64 \<times> 'v pending_result) list"

definition registry_new :: "'v registry" where
  "registry_new = \<lparr>rg_pending = [], rg_abandoned = [], rg_terminal = None,
     rg_shutdown = False, rg_sent = []\<rparr>"

definition fail_transport :: "'v registry \<Rightarrow> string \<Rightarrow> 'v registry" where
  "fail_transport r message =
     (if rg_terminal r \<noteq> None then r
      else r\<lparr>rg_terminal := Some message, rg_abandoned := [], rg_shutdown := True,
             rg_pending := [],
             rg_sent := rg_sent r @ map (\<lambda>i. (i, Failure message)) (rg_pending r)\<rparr>)"

text \<open>
  \<open>RequestGuard::drop\<close>.  The second component is the message of the \<open>fail_transport\<close> call the
  guard makes after it has released the registry.
\<close>

definition guard_drop :: "'v registry \<Rightarrow> u64 \<Rightarrow> bool \<Rightarrow> 'v registry \<times> string option" where
  "guard_drop r i complete =
     (if \<not> complete then (r, Some ''collector request frame was abandoned during write'')
      else let r' = r\<lparr>rg_pending := remove1 i (rg_pending r)\<rparr>
           in if i \<in> set (rg_pending r) \<and> rg_terminal r = None then
                if length (rg_abandoned r) = MAX_ABANDONED_REQUESTS
                then (r', Some ''collector abandoned-request capacity exceeded'')
                else (r'\<lparr>rg_abandoned := insort_insert i (rg_abandoned r)\<rparr>, None)
              else (r', None))"

section \<open>The reader task\<close>

text \<open>
  One pass of the reader loop: the frame is stripped, decoded, and routed by its id.  The
  result is the registry after the critical section and the error, if any, that ends the
  task.
\<close>

definition strip_frame :: "string \<Rightarrow> string" where
  "strip_frame bytes = strip_last (CHR 0x0D) (strip_last (CHR 0x0A) bytes)"

definition decode_frame ::
    "'v json_api \<Rightarrow> string + (string \<times> bool) option \<Rightarrow> string + (u64 \<times> 'v)" where
  "decode_frame j frame =
     (case frame of Inl e \<Rightarrow> Inl (''collector read failed: '' @ e)
      | Inr None \<Rightarrow> Inl ''collector closed stdout''
      | Inr (Some (bytes, t)) \<Rightarrow>
          let bytes = strip_frame bytes
          in if length bytes > MAX_TRACY_RESPONSE_BYTES
             then Inl ''collector response exceeded the fixed byte limit''
             else case ja_parse j bytes of
                    Inl e \<Rightarrow> Inl (''collector returned invalid JSON: '' @ e)
                  | Inr document \<Rightarrow>
                      if ja_u64 j (ja_index j document ''schema_version'')
                         \<noteq> Some TRACY_HELPER_SCHEMA_VERSION
                      then Inl ''collector response schema mismatch''
                      else case ja_u64 j (ja_index j document ''id'') of
                             None \<Rightarrow> Inl ''collector response omitted its id''
                           | Some i \<Rightarrow> Inr (i, document))"

definition route_document :: "'v registry \<Rightarrow> u64 \<Rightarrow> 'v \<Rightarrow> 'v registry \<times> string option" where
  "route_document r i document =
     (if rg_terminal r \<noteq> None then (r, None)
      else if i \<in> set (rg_pending r) then
        (r\<lparr>rg_pending := remove1 i (rg_pending r),
           rg_sent := rg_sent r @ [(i, Answer document)]\<rparr>, None)
      else if i \<in> set (rg_abandoned r) then
        (r\<lparr>rg_abandoned := remove1 i (rg_abandoned r)\<rparr>, None)
      else (r, Some (''collector returned unknown or duplicate response id '' @ show_nat (unat i))))"

definition reader_pass ::
    "'v json_api \<Rightarrow> 'v registry \<Rightarrow> string + (string \<times> bool) option
     \<Rightarrow> 'v registry \<times> string option" where
  "reader_pass j r frame =
     (case decode_frame j frame of Inl e \<Rightarrow> (r, Some e)
      | Inr (i, document) \<Rightarrow> route_document r i document)"

section \<open>Requests\<close>

text \<open>
  \<open>next_request_id.fetch_update(.., |id| id.checked_add(1))\<close>: the id handed out and the new
  counter.
\<close>

definition allocate_id :: "u64 \<Rightarrow> (u64 \<times> u64) option" where
  "allocate_id n = map_option (\<lambda>n'. (n, n')) (checked_add64 n 1)"

text \<open>The frame of a request, with its byte limit.\<close>

definition request_frame ::
    "'v json_api \<Rightarrow> u64 \<Rightarrow> string \<Rightarrow> 'v \<Rightarrow> 'v tracy_error + string" where
  "request_frame j i command params =
     (case ja_envelope j TRACY_HELPER_SCHEMA_VERSION i command params of
        Inl e \<Rightarrow> Inl (Serialize e)
      | Inr request \<Rightarrow>
          let request = request @ [CHR 0x0A]
          in if length request > MAX_TRACY_REQUEST_BYTES then Inl RequestTooLarge else Inr request)"

definition register_request :: "'v registry \<Rightarrow> u64 \<Rightarrow> 'v tracy_error + 'v registry" where
  "register_request r i =
     (case rg_terminal r of Some e \<Rightarrow> Inl (Transport e)
      | None \<Rightarrow>
          if length (rg_pending r) = MAX_PENDING_REQUESTS
          then Inl (Transport ''collector pending-request capacity exceeded'')
          else Inr (r\<lparr>rg_pending := insort_insert i (rg_pending r)\<rparr>))"

definition finish_request :: "'v json_api \<Rightarrow> 'v pending_result \<Rightarrow> 'v tracy_error + 'v" where
  "finish_request j result =
     (case result of Failure e \<Rightarrow> Inl (Transport e)
      | Answer document \<Rightarrow>
          if ja_bool j (ja_index j document ''ok'') = Some False
          then Inl (helper_error j document)
          else case ja_get j document ''result'' of Some r \<Rightarrow> Inr r | None \<Rightarrow> Inl MissingResult)"

section \<open>The retained tail of stderr\<close>

text \<open>The line as it is stored; \<open>lossy\<close> is \<open>String::from_utf8_lossy\<close>.\<close>

definition stderr_line :: "(string \<Rightarrow> string) \<Rightarrow> string \<times> bool \<Rightarrow> string" where
  "stderr_line lossy frame =
     (let line = lossy (strip_frame (fst frame));
          limit = floor_char_boundary line (min (length line) MAX_STDERR_LINE_BYTES);
          decoded_truncated = limit < length line;
          line = take limit line
      in if snd frame \<or> decoded_truncated then line @ ''... [truncated]'' else line)"

definition stderr_push :: "string list \<Rightarrow> string \<Rightarrow> string list" where
  "stderr_push tail line =
     (if length tail = MAX_STDERR_LINES then tl tail else tail) @ [line]"

section \<open>Framing does not depend on how the bytes arrive\<close>

text \<open>
  The line at the head of a byte stream, and what follows it: up to and including the first
  newline, or everything at the end of the stream; at most \<open>limit\<close> bytes are retained.
\<close>

definition stream_line :: "nat \<Rightarrow> string \<Rightarrow> (string \<times> bool) option" where
  "stream_line limit s =
     (case position (CHR 0x0A) s of
        None \<Rightarrow> if s = [] then None else Some (take limit s, limit < length s)
      | Some p \<Rightarrow> Some (take limit (take (Suc p) s), limit < Suc p))"

definition stream_rest :: "string \<Rightarrow> string" where
  "stream_rest s = (case position (CHR 0x0A) s of None \<Rightarrow> [] | Some p \<Rightarrow> drop (Suc p) s)"

definition line_overflows :: "nat \<Rightarrow> string \<Rightarrow> bool" where
  "line_overflows limit s \<longleftrightarrow> (case stream_line limit s of None \<Rightarrow> False | Some (_, t) \<Rightarrow> t)"

lemma position_append:
  "position c (xs @ ys) =
     (case position c xs of Some p \<Rightarrow> Some p | None \<Rightarrow> map_option ((+) (length xs)) (position c ys))"
  by (induction xs) (auto split: option.splits simp: option.map_comp o_def option.map_ident,
    (cases "position c ys"; simp)+)

lemma position_None: "position c xs = None \<longleftrightarrow> c \<notin> set xs"
  by (induction xs) auto

lemma position_less: "position c xs = Some p \<Longrightarrow> p < length xs"
  by (induction xs arbitrary: p) (auto split: if_splits)

lemma bounded_line_stream:
  assumes "[] \<notin> set cs" "CHR 0x0A \<notin> set acc" "\<not> drain \<longrightarrow> length acc \<le> limit"
  shows "case bounded_line limit drain (map Filled cs) (take limit acc) (limit < length acc) of
     (r, rest) \<Rightarrow>
       if \<not> drain \<and> line_overflows limit (acc @ concat cs) then r = Inl FRAME_LIMIT_ERROR
       else r = Inr (stream_line limit (acc @ concat cs)) \<and>
         (\<exists>cs'. rest = map Filled cs' \<and> [] \<notin> set cs' \<and> concat cs' = stream_rest (acc @ concat cs))"
  using assms
proof (induction cs arbitrary: acc)
  case Nil
  then have "position (CHR 0x0A) acc = None" by (simp add: position_None)
  with Nil show ?case
    by (auto simp: stream_line_def stream_rest_def line_overflows_def)
next
  case (Cons c cs)
  have acc: "position (CHR 0x0A) acc = None" using Cons.prems by (simp add: position_None)
  have c: "c \<noteq> []" using Cons.prems by auto
  show ?case
  proof (cases "position (CHR 0x0A) c")
    case None
    have IH: "case bounded_line limit drain (map Filled cs) (take limit (acc @ c))
          (limit < length (acc @ c)) of
     (r, rest) \<Rightarrow>
       if \<not> drain \<and> line_overflows limit ((acc @ c) @ concat cs) then r = Inl FRAME_LIMIT_ERROR
       else r = Inr (stream_line limit ((acc @ c) @ concat cs)) \<and>
         (\<exists>cs'. rest = map Filled cs' \<and> [] \<notin> set cs' \<and>
            concat cs' = stream_rest ((acc @ c) @ concat cs))"
      if "\<not> drain \<longrightarrow> length (acc @ c) \<le> limit"
      using Cons.prems None that by (intro Cons.IH) (auto simp: position_None)
    have tr2: "(limit < length acc \<or> min (length c) (limit - min (length acc) limit) < length c)
        = (limit < length (acc @ c))" by auto
    have tk2: "take limit acc @ take (min (length c) (limit - min (length acc) limit)) c
        = take limit (acc @ c)" by (auto simp: min_def)
    have over: "limit < length (acc @ c) \<Longrightarrow> line_overflows limit ((acc @ c) @ concat cs)"
      using acc None c
      by (auto simp: line_overflows_def stream_line_def position_append split: option.splits
          simp: o_def)
    show ?thesis
    proof (cases "\<not> drain \<and> limit < length (acc @ c)")
      case True
      with over c None Cons.prems show ?thesis
        by (auto simp: Let_def)
    next
      case False
      then have "bounded_line limit drain (map Filled (c # cs)) (take limit acc) (limit < length acc)
          = bounded_line limit drain (map Filled cs) (take limit (acc @ c)) (limit < length (acc @ c))"
        using c None tk2 tr2 by (auto simp: Let_def)
      with IH False show ?thesis by (auto simp: not_le)
    qed
  next
    case (Some p)
    then have p: "p < length c" by (rule position_less)
    have pos: "position (CHR 0x0A) (acc @ c @ concat cs) = Some (length acc + p)"
      using acc Some by (simp add: position_append)
    have rest: "stream_rest (acc @ c @ concat cs) = drop (Suc p) c @ concat cs"
      using pos p by (simp add: stream_rest_def)
    have line: "stream_line limit (acc @ c @ concat cs)
        = Some (take limit (acc @ take (Suc p) c), limit < length acc + Suc p)"
      using pos p by (simp add: stream_line_def)
    have tk: "take limit acc @ take (min (Suc p) (limit - min (length acc) limit)) c
        = take limit (acc @ take (Suc p) c)"
      using p by (auto simp: min_def)
    have ex: "\<exists>cs'. (if Suc p < length c then Filled (drop (Suc p) c) # map Filled cs
          else map Filled cs) = map Filled cs' \<and> [] \<notin> set cs' \<and> concat cs' = drop (Suc p) c @ concat cs"
    proof (cases "Suc p < length c")
      case True
      with Cons.prems show ?thesis by (intro exI[of _ "drop (Suc p) c # cs"]) auto
    next
      case False
      with Cons.prems show ?thesis by (intro exI[of _ cs]) auto
    qed
    have tr: "(limit < length acc \<or> min (Suc p) (limit - min (length acc) limit) < Suc p)
        = (limit < length acc + Suc p)" by auto
    show ?thesis
      using c Some ex
      by (cases "Suc p < length c") (simp_all add: Let_def line_overflows_def line rest tk tr)
  qed
qed

section \<open>The transport as a system of threads\<close>

text \<open>
  A request is queued for the writer lock, writes its frame, waits for its channel and is
  done with the outcome \<open>request_with_timeout\<close> returns.  Deadlines are not measured: at each
  \<open>timeout_at\<close> either branch may be taken.  Dropping the future of a request is the same
  step as its timeout, because both run \<open>RequestGuard::drop\<close>.
\<close>

datatype 'v phase = Queued | Writing | Waiting | Done "'v tracy_error + 'v"

record 'v system =
  sy_registry :: "'v registry"
  sy_next_id :: u64
  sy_phase :: "u64 \<Rightarrow> 'v phase option"
  sy_writer :: "u64 option"
  sy_open :: bool
  sy_failing :: "string list"
  sy_reading :: bool

definition system_new :: "'v system" where
  "system_new = \<lparr>sy_registry = registry_new, sy_next_id = 1, sy_phase = (\<lambda>_. None),
     sy_writer = None, sy_open = True, sy_failing = [], sy_reading = True\<rparr>"

definition enter_phase :: "'v system \<Rightarrow> u64 \<Rightarrow> 'v phase \<Rightarrow> 'v system" where
  "enter_phase s i p = s\<lparr>sy_phase := (sy_phase s)(i \<mapsto> p)\<rparr>"

text \<open>Run \<open>RequestGuard::drop\<close>: the registry changes now, a failure is raised afterwards.\<close>

definition drop_guard :: "'v system \<Rightarrow> u64 \<Rightarrow> bool \<Rightarrow> 'v system" where
  "drop_guard s i complete =
     (case guard_drop (sy_registry s) i complete of (r, e) \<Rightarrow>
        s\<lparr>sy_registry := r,
          sy_failing := sy_failing s @ (case e of None \<Rightarrow> [] | Some m \<Rightarrow> [m])\<rparr>)"

inductive step :: "'v json_api \<Rightarrow> 'v system \<Rightarrow> 'v system \<Rightarrow> bool" for j where
  allocate:
    "allocate_id (sy_next_id s) = Some (i, n) \<Longrightarrow>
     step j s (enter_phase (s\<lparr>sy_next_id := n\<rparr>) i Queued)"
| not_sent:
    "sy_phase s i = Some Queued \<Longrightarrow>
     e \<in> {RequestTooLarge, Timeout i} \<union> range Serialize \<Longrightarrow>
     step j s (enter_phase s i (Done (Inl e)))"
| stdin_closed:
    "sy_phase s i = Some Queued \<Longrightarrow> sy_writer s = None \<Longrightarrow> \<not> sy_open s \<Longrightarrow>
     step j s (enter_phase s i (Done (Inl (Transport ''collector stdin closed''))))"
| refused:
    "sy_phase s i = Some Queued \<Longrightarrow> sy_writer s = None \<Longrightarrow> sy_open s \<Longrightarrow>
     register_request (sy_registry s) i = Inl e \<Longrightarrow> step j s (enter_phase s i (Done (Inl e)))"
| registered:
    "sy_phase s i = Some Queued \<Longrightarrow> sy_writer s = None \<Longrightarrow> sy_open s \<Longrightarrow>
     register_request (sy_registry s) i = Inr r \<Longrightarrow>
     step j s (enter_phase (s\<lparr>sy_registry := r, sy_writer := Some i\<rparr>) i Writing)"
| written:
    "sy_phase s i = Some Writing \<Longrightarrow>
     step j s (enter_phase (s\<lparr>sy_writer := None\<rparr>) i Waiting)"
| write_failed:
    "sy_phase s i = Some Writing \<Longrightarrow>
     e \<in> insert (Timeout i) (range (\<lambda>m. Transport (''collector write failed: '' @ m))) \<Longrightarrow>
     step j s (enter_phase (drop_guard (s\<lparr>sy_writer := None\<rparr>) i False) i (Done (Inl e)))"
| received:
    "sy_phase s i = Some Waiting \<Longrightarrow> (i, a) \<in> set (rg_sent (sy_registry s)) \<Longrightarrow>
     step j s (enter_phase (drop_guard s i True) i (Done (finish_request j a)))"
| timed_out:
    "sy_phase s i = Some Waiting \<Longrightarrow>
     step j s (enter_phase (drop_guard s i True) i (Done (Inl (Timeout i))))"
| read:
    "sy_reading s \<Longrightarrow> reader_pass j (sy_registry s) f = (r, None) \<Longrightarrow>
     step j s (s\<lparr>sy_registry := r\<rparr>)"
| read_failed:
    "sy_reading s \<Longrightarrow> reader_pass j (sy_registry s) f = (r, Some m) \<Longrightarrow>
     step j s (s\<lparr>sy_registry := r, sy_reading := False, sy_failing := sy_failing s @ [m]\<rparr>)"
| reader_stopped:
    "sy_reading s \<Longrightarrow> rg_shutdown (sy_registry s) \<Longrightarrow> step j s (s\<lparr>sy_reading := False\<rparr>)"
| fail:
    "sy_failing s = ms @ m # ns \<Longrightarrow>
     step j s (s\<lparr>sy_registry := fail_transport (sy_registry s) m, sy_failing := ms @ ns\<rparr>)"
| writer_closed:
    "sy_writer s = None \<Longrightarrow> step j s (s\<lparr>sy_open := False\<rparr>)"
| owner_dropped:
    "step j s (s\<lparr>sy_failing := sy_failing s @ [''collector transport dropped'']\<rparr>)"

inductive reachable :: "'v json_api \<Rightarrow> 'v system \<Rightarrow> bool" for j where
  start: "reachable j system_new"
| step: "reachable j s \<Longrightarrow> step j s t \<Longrightarrow> reachable j t"

section \<open>The invariant of the registry\<close>

text \<open>
  The registry part: sorted duplicate-free sets within their capacities, disjoint; nothing
  left over once a terminal error is set; one value per channel; an answer sits in the
  channel of the request whose id it carries.
\<close>

definition sent_ids :: "'v registry \<Rightarrow> u64 set" where
  "sent_ids r = fst ` set (rg_sent r)"

definition channels_ok :: "'v json_api \<Rightarrow> 'v registry \<Rightarrow> bool" where
  "channels_ok j r \<longleftrightarrow> distinct (map fst (rg_sent r)) \<and>
     (\<forall>(i, a) \<in> set (rg_sent r).
        case a of Answer d \<Rightarrow> ja_u64 j (ja_index j d ''id'') = Some i | Failure _ \<Rightarrow> True)"

definition registry_inv :: "'v json_api \<Rightarrow> 'v registry \<Rightarrow> bool" where
  "registry_inv j r \<longleftrightarrow>
     btree_set (rg_pending r) \<and> btree_set (rg_abandoned r) \<and>
     length (rg_pending r) \<le> MAX_PENDING_REQUESTS \<and>
     length (rg_abandoned r) \<le> MAX_ABANDONED_REQUESTS \<and>
     set (rg_pending r) \<inter> set (rg_abandoned r) = {} \<and>
     (set (rg_pending r) \<union> set (rg_abandoned r)) \<inter> sent_ids r = {} \<and>
     (rg_terminal r \<noteq> None \<longrightarrow> rg_pending r = [] \<and> rg_abandoned r = []) \<and>
     rg_shutdown r = (rg_terminal r \<noteq> None) \<and>
     channels_ok j r"

text \<open>Ids the registry still knows: waiting, abandoned or answered.\<close>

definition known_ids :: "'v registry \<Rightarrow> u64 set" where
  "known_ids r = set (rg_pending r) \<union> set (rg_abandoned r) \<union> sent_ids r"

lemma sent_ids_update [simp]:
  "sent_ids (r\<lparr>rg_pending := p\<rparr>) = sent_ids r"
  "sent_ids (r\<lparr>rg_abandoned := a\<rparr>) = sent_ids r"
  "channels_ok j (r\<lparr>rg_pending := p\<rparr>) = channels_ok j r"
  "channels_ok j (r\<lparr>rg_abandoned := a\<rparr>) = channels_ok j r"
  by (simp_all add: sent_ids_def channels_ok_def)

lemma channels_ok_answer:
  "channels_ok j r \<Longrightarrow> i \<notin> sent_ids r \<Longrightarrow> ja_u64 j (ja_index j d ''id'') = Some i \<Longrightarrow>
    channels_ok j (r\<lparr>rg_pending := p, rg_sent := rg_sent r @ [(i, Answer d)]\<rparr>)"
  by (auto simp: channels_ok_def sent_ids_def)

lemma channels_ok_fail:
  assumes "channels_ok j r" "btree_set (rg_pending r)" "set (rg_pending r) \<inter> sent_ids r = {}"
  shows "channels_ok j (fail_transport r m)"
  using assms
  by (auto simp: channels_ok_def sent_ids_def fail_transport_def btree_set_def comp_def)

lemma registry_new_inv: "registry_inv j registry_new"
  by (simp add: registry_inv_def registry_new_def channels_ok_def)

lemma fail_transport_inv: "registry_inv j r \<Longrightarrow> registry_inv j (fail_transport r m)"
proof -
  assume inv: "registry_inv j r"
  then have "channels_ok j (fail_transport r m)"
    by (intro channels_ok_fail) (auto simp: registry_inv_def)
  with inv show ?thesis by (simp add: registry_inv_def fail_transport_def)
qed

lemma guard_drop_inv: "registry_inv j r \<Longrightarrow> registry_inv j (fst (guard_drop r i c))"
  using length_remove1_le[of i "rg_pending r"] length_insort_insert_le[of i "rg_abandoned r"]
  unfolding registry_inv_def
  by (auto simp add: guard_drop_def Let_def set_insort_insert)

lemma decode_frame_id:
  "decode_frame j f = Inr (i, d) \<Longrightarrow> ja_u64 j (ja_index j d ''id'') = Some i"
  by (auto simp: decode_frame_def Let_def split: sum.splits option.splits if_splits)

lemma route_document_inv:
  assumes "registry_inv j r" "ja_u64 j (ja_index j d ''id'') = Some i"
  shows "registry_inv j (fst (route_document r i d))"
proof (cases "rg_terminal r = None \<and> i \<in> set (rg_pending r)")
  case True
  let ?r = "r\<lparr>rg_pending := remove1 i (rg_pending r), rg_sent := rg_sent r @ [(i, Answer d)]\<rparr>"
  have "i \<notin> sent_ids r" "i \<notin> set (rg_abandoned r)" "channels_ok j r"
    using True assms(1) by (auto simp: registry_inv_def)
  then have "channels_ok j ?r" using assms(2) by (intro channels_ok_answer)
  moreover have "sent_ids ?r = insert i (sent_ids r)" by (simp add: sent_ids_def)
  ultimately have "registry_inv j ?r"
    using True assms(1) length_remove1_le[of i "rg_pending r"] \<open>i \<notin> set (rg_abandoned r)\<close>
    unfolding registry_inv_def by auto
  with True show ?thesis by (simp add: route_document_def)
next
  case False
  then show ?thesis
    using assms(1) length_remove1_le[of i "rg_abandoned r"]
    unfolding registry_inv_def by (auto simp: route_document_def)
qed

lemma reader_pass_inv: "registry_inv j r \<Longrightarrow> registry_inv j (fst (reader_pass j r f))"
  by (auto simp: reader_pass_def intro!: route_document_inv dest: decode_frame_id split: sum.splits)

lemma register_request_Inr:
  "register_request r i = Inr r' \<longleftrightarrow> rg_terminal r = None \<and>
     length (rg_pending r) \<noteq> MAX_PENDING_REQUESTS \<and>
     r' = r\<lparr>rg_pending := insort_insert i (rg_pending r)\<rparr>"
  by (auto simp: register_request_def split: option.splits)

lemma register_request_inv:
  assumes "registry_inv j r" "register_request r i = Inr r'" "i \<notin> known_ids r"
  shows "registry_inv j r'"
  using assms length_insort_insert_le[of i "rg_pending r"]
  unfolding registry_inv_def known_ids_def register_request_Inr
  by (auto simp: set_insort_insert)

section \<open>The invariant of the system\<close>

definition live :: "'v system \<Rightarrow> u64 \<Rightarrow> bool" where
  "live s i \<longleftrightarrow> sy_phase s i = Some Writing \<or> sy_phase s i = Some Waiting"

definition system_inv :: "'v json_api \<Rightarrow> 'v system \<Rightarrow> bool" where
  "system_inv j s \<longleftrightarrow> registry_inv j (sy_registry s) \<and>
     (\<forall>i. sy_phase s i \<noteq> None \<longrightarrow> i < sy_next_id s) \<and>
     (\<forall>i. i \<in> known_ids (sy_registry s) \<longrightarrow> sy_phase s i \<noteq> None \<and> sy_phase s i \<noteq> Some Queued) \<and>
     (\<forall>i. sy_phase s i = Some Writing \<longleftrightarrow> sy_writer s = Some i) \<and>
     (\<forall>i. live s i \<longrightarrow> i \<in> set (rg_pending (sy_registry s)) \<union> sent_ids (sy_registry s)) \<and>
     (sy_failing s = [] \<longrightarrow> (\<forall>i \<in> set (rg_pending (sy_registry s)). live s i)) \<and>
     (\<forall>i v. sy_phase s i = Some (Done (Inr v)) \<longrightarrow>
        (\<exists>d. (i, Answer d) \<in> set (rg_sent (sy_registry s)) \<and>
             ja_get j d ''result'' = Some v))"

lemma inv_writer: "system_inv j s \<Longrightarrow> (sy_phase s i = Some Writing) = (sy_writer s = Some i)"
  by (simp add: system_inv_def)

lemma inv_id: "system_inv j s \<Longrightarrow> sy_phase s i \<noteq> None \<Longrightarrow> i < sy_next_id s"
  by (simp add: system_inv_def)

text \<open>What each critical section may do to the registry, as seen by the other threads.\<close>

definition registry_step :: "'v registry \<Rightarrow> 'v registry \<Rightarrow> bool" where
  "registry_step r r' \<longleftrightarrow> known_ids r' \<subseteq> known_ids r \<and>
     set (rg_pending r') \<subseteq> set (rg_pending r) \<and> set (rg_sent r) \<subseteq> set (rg_sent r') \<and>
     set (rg_pending r) \<subseteq> set (rg_pending r') \<union> sent_ids r'"

lemma sent_ids_mono: "set (rg_sent r) \<subseteq> set (rg_sent r') \<Longrightarrow> sent_ids r \<subseteq> sent_ids r'"
  by (auto simp: sent_ids_def)

lemma fail_transport_step: "registry_step r (fail_transport r m)"
  by (auto simp: registry_step_def fail_transport_def known_ids_def sent_ids_def image_Un
      image_image)

lemma route_document_step: "registry_step r (fst (route_document r i d))"
proof -
  have sub: "set (remove1 x xs) \<subseteq> set xs" for x :: u64 and xs by (rule set_remove1_subset)
  have "y \<in> set (remove1 i xs)" if "y \<in> set xs" "y \<noteq> i" for y :: u64 and xs
    using that by (simp add: in_set_remove1)
  then show ?thesis
    using sub[of i "rg_pending r"] sub[of i "rg_abandoned r"]
    by (auto simp: registry_step_def route_document_def known_ids_def sent_ids_def
        dest: subsetD)
qed

lemma reader_pass_step: "registry_step r (fst (reader_pass j r f))"
proof (cases "decode_frame j f")
  case (Inl e)
  then show ?thesis by (simp add: reader_pass_def registry_step_def)
next
  case (Inr p)
  then show ?thesis
    using route_document_step[of r "fst p" "snd p"] by (cases p) (simp add: reader_pass_def)
qed

lemma system_inv_registry:
  assumes "system_inv j s" "registry_inv j r" "registry_step (sy_registry s) r"
    "sy_phase t = sy_phase s" "sy_next_id t = sy_next_id s" "sy_writer t = sy_writer s"
    "sy_registry t = r"
    "sy_failing t = [] \<Longrightarrow> sy_failing s = [] \<or> rg_pending r = []"
  shows "system_inv j t"
proof -
  have sent: "sent_ids (sy_registry s) \<subseteq> sent_ids r"
    using assms(3) by (simp add: registry_step_def sent_ids_mono)
  have live: "live t i = live s i" for i using assms(4) by (simp add: live_def)
  have "i \<in> set (rg_pending r) \<union> sent_ids r" if "live s i" for i
    using assms(1,3) sent that by (auto simp: system_inv_def registry_step_def)
  moreover have "\<exists>d. (i, Answer d) \<in> set (rg_sent r) \<and> ja_get j d ''result'' = Some v"
    if "sy_phase s i = Some (Done (Inr v))" for i v
    using assms(1,3) that unfolding system_inv_def registry_step_def by blast
  moreover have "sy_phase s i \<noteq> None \<and> sy_phase s i \<noteq> Some Queued" if "i \<in> known_ids r" for i
    using assms(1,3) that by (auto simp: system_inv_def registry_step_def)
  moreover have "live s i" if "sy_failing t = []" "i \<in> set (rg_pending r)" for i
    using assms(1,3,8) that by (auto simp: system_inv_def registry_step_def)
  ultimately show ?thesis
    using assms(1,2,4-7) unfolding system_inv_def live by auto
qed

text \<open>The registry changes one request makes when its own guard runs.\<close>

lemma drop_guard_sel [simp]:
  "sy_phase (drop_guard s i c) = sy_phase s" "sy_next_id (drop_guard s i c) = sy_next_id s"
  "sy_writer (drop_guard s i c) = sy_writer s"
  "sy_registry (drop_guard s i c) = fst (guard_drop (sy_registry s) i c)"
  by (simp_all add: drop_guard_def split: prod.splits)

lemma drop_guard_failing: "sy_failing (drop_guard s i c) = [] \<Longrightarrow> sy_failing s = [] \<and> c"
  by (auto simp: drop_guard_def guard_drop_def split: prod.splits option.splits if_splits)

lemma enter_phase_sel [simp]:
  "sy_registry (enter_phase s i p) = sy_registry s" "sy_next_id (enter_phase s i p) = sy_next_id s"
  "sy_writer (enter_phase s i p) = sy_writer s" "sy_failing (enter_phase s i p) = sy_failing s"
  "sy_phase (enter_phase s i p) = (sy_phase s)(i \<mapsto> p)"
  by (simp_all add: enter_phase_def)

lemma guard_drop_registry:
  assumes "btree_set (rg_pending r)"
  shows "rg_sent (fst (guard_drop r i c)) = rg_sent r"
    and "set (rg_pending (fst (guard_drop r i c))) = set (rg_pending r) - (if c then {i} else {})"
    and "known_ids (fst (guard_drop r i c)) \<subseteq> known_ids r"
  using assms
  by (auto simp: guard_drop_def Let_def known_ids_def sent_ids_def set_insort_insert)

text \<open>A request that leaves the registry for good.\<close>

lemma system_inv_finish:
  assumes inv: "system_inv j s" and live: "live s i"
    and writer: "w = (if sy_phase s i = Some Writing then None else sy_writer s)"
    and out: "\<And>v. out = Inr v \<Longrightarrow>
      \<exists>d. (i, Answer d) \<in> set (rg_sent (sy_registry s)) \<and> ja_get j d ''result'' = Some v"
  shows "system_inv j (enter_phase (drop_guard (s\<lparr>sy_writer := w\<rparr>) i c) i (Done out))"
    (is "system_inv j ?t")
proof -
  let ?r = "fst (guard_drop (sy_registry s) i c)"
  have reg: "registry_inv j (sy_registry s)" using inv by (simp add: system_inv_def)
  have bt: "btree_set (rg_pending (sy_registry s))" using reg by (simp add: registry_inv_def)
  note gd = guard_drop_registry[OF bt, of i c]
  have sent: "sent_ids ?r = sent_ids (sy_registry s)" using gd(1) by (simp add: sent_ids_def)
  have lv: "live ?t k \<longleftrightarrow> live s k \<and> k \<noteq> i" for k by (auto simp: live_def)
  have lv_s: "live s k \<longrightarrow> k \<in> set (rg_pending (sy_registry s)) \<union> sent_ids (sy_registry s)" for k
    using inv by (simp add: system_inv_def)
  have fl: "sy_failing ?t = [] \<Longrightarrow> (\<forall>k \<in> set (rg_pending ?r). live ?t k)"
  proof -
    assume "sy_failing ?t = []"
    then have c and e: "sy_failing s = []"
      using drop_guard_failing[of "s\<lparr>sy_writer := w\<rparr>" i c] by auto
    from e inv have "\<forall>k \<in> set (rg_pending (sy_registry s)). live s k"
      by (simp add: system_inv_def)
    with gd(2) \<open>c\<close> show ?thesis unfolding lv by auto
  qed
  have wr: "(sy_phase ?t k = Some Writing) = (sy_writer ?t = Some k)" for k
    using inv writer by (auto simp: system_inv_def)
  have ids: "k < sy_next_id s" if "sy_phase ?t k \<noteq> None" for k
    using inv live that by (cases "k = i") (auto simp: system_inv_def live_def)
  have kn: "sy_phase ?t k \<noteq> None \<and> sy_phase ?t k \<noteq> Some Queued" if "k \<in> known_ids ?r" for k
    using inv gd(3) that by (auto simp: system_inv_def)
  have done1: "\<exists>d. (k, Answer d) \<in> set (rg_sent ?r) \<and> ja_get j d ''result'' = Some v"
    if "sy_phase ?t k = Some (Done (Inr v))" for k v
    using inv out that gd(1) by (cases "k = i") (auto simp: system_inv_def)
  have "registry_inv j ?r" using reg by (rule guard_drop_inv)
  then show ?thesis
    unfolding system_inv_def using fl wr ids kn done1 lv lv_s gd(2) sent by auto
qed

lemma allocate_id_Some: "allocate_id n = Some (i, m) \<longleftrightarrow> unat n + 1 < 2 ^ 64 \<and> i = n \<and> m = n + 1"
  by (auto simp: allocate_id_def checked_add64_def)

lemma allocate_less: "unat n + 1 < 2 ^ 64 \<Longrightarrow> n < n + 1" for n :: u64
  by (simp add: word_less_nat_alt unat_add64)

lemma system_inv_allocate:
  assumes "system_inv j s" "allocate_id (sy_next_id s) = Some (i, n)"
  shows "system_inv j (enter_phase (s\<lparr>sy_next_id := n\<rparr>) i Queued)"
proof -
  have n: "i = sy_next_id s" "n = sy_next_id s + 1" "sy_next_id s < n"
    using assms(2) by (auto simp: allocate_id_Some intro: allocate_less)
  have "sy_phase s i = None" using assms(1) n(1) by (auto simp: system_inv_def)
  moreover from this have "i \<notin> known_ids (sy_registry s)" using assms(1) by (auto simp: system_inv_def)
  moreover have "k < n" if "sy_phase s k \<noteq> None" for k
    using assms(1) that n(3) by (auto simp: system_inv_def intro: order_less_trans)
  ultimately show ?thesis
    using assms(1) n by (auto simp: system_inv_def live_def known_ids_def)
qed

lemma system_inv_queued_done:
  assumes "system_inv j s" "sy_phase s i = Some Queued"
  shows "system_inv j (enter_phase s i (Done (Inl e)))"
proof -
  have "sy_writer s \<noteq> Some i" "i < sy_next_id s"
    using assms(2) inv_writer[OF assms(1), of i] inv_id[OF assms(1), of i] by auto
  with assms show ?thesis by (auto simp: system_inv_def live_def)
qed

lemma system_inv_registered:
  assumes "system_inv j s" "sy_phase s i = Some Queued" "sy_writer s = None"
    "register_request (sy_registry s) i = Inr r"
  shows "system_inv j (enter_phase (s\<lparr>sy_registry := r, sy_writer := Some i\<rparr>) i Writing)"
proof -
  have "i \<notin> known_ids (sy_registry s)" using assms(1,2) by (auto simp: system_inv_def)
  then have "registry_inv j r"
    using assms(1,4) by (auto simp: system_inv_def intro: register_request_inv)
  moreover have "set (rg_pending r) = insert i (set (rg_pending (sy_registry s)))"
    "rg_sent r = rg_sent (sy_registry s)" "rg_abandoned r = rg_abandoned (sy_registry s)"
    using assms(4) by (auto simp: register_request_Inr set_insort_insert)
  ultimately show ?thesis
    using assms(1-3) by (auto simp: system_inv_def live_def known_ids_def sent_ids_def)
qed

lemma system_inv_written:
  assumes "system_inv j s" "sy_phase s i = Some Writing"
  shows "system_inv j (enter_phase (s\<lparr>sy_writer := None\<rparr>) i Waiting)"
proof -
  have w: "sy_writer s = Some i" using assms by (simp add: system_inv_def)
  have "live (enter_phase (s\<lparr>sy_writer := None\<rparr>) i Waiting) k = live s k" for k
    using assms(2) by (auto simp: live_def)
  moreover have "i < sy_next_id s" using inv_id[OF assms(1), of i] assms(2) by simp
  ultimately show ?thesis using assms w by (auto simp: system_inv_def)
qed

lemma system_inv_reader:
  assumes "system_inv j s" "reader_pass j (sy_registry s) f = (r, e)"
    "sy_phase t = sy_phase s" "sy_next_id t = sy_next_id s" "sy_writer t = sy_writer s"
    "sy_registry t = r" "sy_failing t = [] \<Longrightarrow> sy_failing s = []"
  shows "system_inv j t"
proof (rule system_inv_registry[OF assms(1) _ _ assms(3-6)])
  have r: "r = fst (reader_pass j (sy_registry s) f)" using assms(2) by simp
  have "registry_inv j (sy_registry s)" using assms(1) by (simp add: system_inv_def)
  then show "registry_inv j r" unfolding r by (rule reader_pass_inv)
  show "registry_step (sy_registry s) r" unfolding r by (rule reader_pass_step)
  show "sy_failing s = [] \<or> rg_pending r = []" if "sy_failing t = []"
    using assms(7) that by simp
qed

lemma system_inv_unchanged:
  assumes "system_inv j s" "sy_phase t = sy_phase s" "sy_next_id t = sy_next_id s"
    "sy_writer t = sy_writer s" "sy_registry t = sy_registry s"
    "sy_failing t = [] \<Longrightarrow> sy_failing s = []"
  shows "system_inv j t"
proof (rule system_inv_registry[OF assms(1) _ _ assms(2-5)])
  show "registry_inv j (sy_registry s)" using assms(1) by (simp add: system_inv_def)
  show "registry_step (sy_registry s) (sy_registry s)" by (auto simp: registry_step_def)
  show "sy_failing s = [] \<or> rg_pending (sy_registry s) = []" if "sy_failing t = []"
    using assms(6) that by simp
qed

theorem step_preserves_system_inv: "step j s t \<Longrightarrow> system_inv j s \<Longrightarrow> system_inv j t"
proof (induction rule: step.induct)
  case (allocate s i n)
  then show ?case by (intro system_inv_allocate)
next
  case (not_sent s i e)
  then show ?case by (intro system_inv_queued_done)
next
  case (stdin_closed s i)
  then show ?case by (intro system_inv_queued_done)
next
  case (refused s i e)
  then show ?case by (intro system_inv_queued_done)
next
  case (registered s i r)
  then show ?case by (intro system_inv_registered)
next
  case (written s i)
  then show ?case by (intro system_inv_written)
next
  case (write_failed s i e)
  then show ?case by (intro system_inv_finish) (auto simp: live_def)
next
  case (received s i a)
  have "system_inv j (enter_phase (drop_guard (s\<lparr>sy_writer := sy_writer s\<rparr>) i True) i
      (Done (finish_request j a)))"
    using received
    by (intro system_inv_finish)
      (auto simp: live_def finish_request_def split: pending_result.splits if_splits option.splits)
  then show ?case by simp
next
  case (timed_out s i)
  have "system_inv j (enter_phase (drop_guard (s\<lparr>sy_writer := sy_writer s\<rparr>) i True) i
      (Done (Inl (Timeout i))))"
    using timed_out by (intro system_inv_finish) (auto simp: live_def)
  then show ?case by simp
next
  case (read s f r)
  show ?case by (rule system_inv_reader[OF read.prems read.hyps(2)]) simp_all
next
  case (read_failed s f r m)
  show ?case by (rule system_inv_reader[OF read_failed.prems read_failed.hyps(2)]) simp_all
next
  case (reader_stopped s)
  show ?case
    by (rule system_inv_unchanged[OF reader_stopped.prems]) simp_all
next
  case (fail s ms m ns)
  then have inv: "registry_inv j (sy_registry s)" by (simp add: system_inv_def)
  then have "rg_pending (fail_transport (sy_registry s) m) = []"
    by (auto simp: fail_transport_def registry_inv_def)
  then show ?case
    by (intro system_inv_registry[OF fail.prems fail_transport_inv[OF inv, of m]
          fail_transport_step]) simp_all
next
  case (writer_closed s)
  show ?case
    by (rule system_inv_unchanged[OF writer_closed.prems]) simp_all
next
  case (owner_dropped s)
  show ?case
    by (rule system_inv_unchanged[OF owner_dropped.prems]) simp_all
qed

lemma system_new_inv: "system_inv j system_new"
  by (simp add: system_inv_def system_new_def live_def registry_new_inv known_ids_def)
    (simp add: registry_new_def sent_ids_def)

lemma reachable_system_inv: "reachable j s \<Longrightarrow> system_inv j s"
  by (induction rule: reachable.induct) (auto intro: system_new_inv step_preserves_system_inv)

section \<open>Properties\<close>

text \<open>
  No request is ever given another request's answer: whatever the interleaving of
  callers, timeouts, malformed frames and transport failures, a request that succeeds
  returns the \<open>result\<close> of a document that carried that request's own id.
\<close>

lemma collector_answers_own_request:
  assumes "reachable j s" "sy_phase s i = Some (Done (Inr v))"
  shows "\<exists>d. (i, Answer d) \<in> set (rg_sent (sy_registry s)) \<and>
           ja_u64 j (ja_index j d ''id'') = Some i \<and> ja_get j d ''result'' = Some v"
proof -
  have inv: "system_inv j s" using assms(1) by (rule reachable_system_inv)
  then obtain d where d: "(i, Answer d) \<in> set (rg_sent (sy_registry s))" "ja_get j d ''result'' = Some v"
    using assms(2) unfolding system_inv_def by blast
  moreover have "ja_u64 j (ja_index j d ''id'') = Some i"
    using inv d(1) by (auto simp: system_inv_def registry_inv_def channels_ok_def)
  ultimately show ?thesis by blast
qed

text \<open>
  C2. No request is lost and nothing accumulates: a request that waits is either still
  registered with a working transport or has its answer or failure ready in its channel;
  the registry never exceeds its two capacities; and after a transport failure it is empty.
\<close>

theorem collector_waiting_requests_are_served:
  assumes "reachable j s"
  shows "(\<forall>i. sy_phase s i = Some Waiting \<longrightarrow>
            rg_terminal (sy_registry s) = None \<and> i \<in> set (rg_pending (sy_registry s)) \<or>
            (\<exists>a. (i, a) \<in> set (rg_sent (sy_registry s))))
       \<and> length (rg_pending (sy_registry s)) \<le> 256
       \<and> length (rg_abandoned (sy_registry s)) \<le> 256
       \<and> (rg_terminal (sy_registry s) \<noteq> None \<longrightarrow>
            rg_pending (sy_registry s) = [] \<and> rg_abandoned (sy_registry s) = [])"
proof -
  have inv: "system_inv j s" using assms by (rule reachable_system_inv)
  have "rg_terminal (sy_registry s) = None \<and> i \<in> set (rg_pending (sy_registry s)) \<or>
            (\<exists>a. (i, a) \<in> set (rg_sent (sy_registry s)))" if "sy_phase s i = Some Waiting" for i
  proof -
    have "i \<in> set (rg_pending (sy_registry s)) \<union> sent_ids (sy_registry s)"
      using inv that by (simp add: system_inv_def live_def)
    with inv show ?thesis by (auto simp: system_inv_def registry_inv_def sent_ids_def)
  qed
  with inv show ?thesis
    by (simp add: system_inv_def registry_inv_def MAX_PENDING_REQUESTS_def MAX_ABANDONED_REQUESTS_def)
qed

text \<open>A run with a JSON interface in which every document is the answer to request 1.\<close>

definition echo_api :: "u64 json_api" where
  "echo_api = \<lparr>ja_parse = (\<lambda>_. Inr 1),
     ja_index = (\<lambda>d k. if k = ''schema_version'' then 2 else d),
     ja_get = (\<lambda>d k. if k = ''result'' then Some d else None), ja_u64 = Some,
     ja_bool = (\<lambda>_. None), ja_str = (\<lambda>_. None), ja_is_object = (\<lambda>_. True), ja_null = 0,
     ja_envelope = (\<lambda>_ _ _ _. Inr [])\<rparr>"

lemma echo_waiting:
  "reachable echo_api (system_new\<lparr>sy_next_id := 2, sy_phase := [1 \<mapsto> Waiting],
     sy_registry := registry_new\<lparr>rg_pending := [1]\<rparr>\<rparr>)" (is "reachable _ ?s")
proof -
  let ?s1 = "enter_phase (system_new\<lparr>sy_next_id := 2\<rparr>) 1 Queued"
  let ?s2 = "enter_phase (?s1\<lparr>sy_registry := registry_new\<lparr>rg_pending := [1]\<rparr>, sy_writer := Some 1\<rparr>) 1 Writing"
  have s1: "reachable echo_api ?s1"
    by (rule reachable.step[OF reachable.start step.allocate])
      (simp add: system_new_def allocate_id_def checked_add64_def)
  have "reachable echo_api ?s2"
    by (rule reachable.step[OF s1 step.registered])
      (simp_all add: enter_phase_def system_new_def register_request_def registry_new_def
        MAX_PENDING_REQUESTS_def insort_insert_key_def)
  then have "reachable echo_api (enter_phase (?s2\<lparr>sy_writer := None\<rparr>) 1 Waiting)"
    by (rule reachable.step[OF _ step.written]) (simp add: enter_phase_def)
  moreover have "enter_phase (?s2\<lparr>sy_writer := None\<rparr>) 1 Waiting = ?s"
    by (simp add: enter_phase_def system_new_def)
  ultimately show ?thesis by simp
qed

lemma echo_done:
  "\<exists>s. reachable echo_api s \<and> sy_phase s 1 = Some (Done (Inr 1))"
proof -
  let ?s = "system_new\<lparr>sy_next_id := 2, sy_phase := [1 \<mapsto> Waiting],
     sy_registry := registry_new\<lparr>rg_pending := [1]\<rparr>\<rparr> :: u64 system"
  let ?r = "registry_new\<lparr>rg_sent := [(1, Answer 1)]\<rparr> :: u64 registry"
  have "reader_pass echo_api (sy_registry ?s) (Inr (Some ([], False))) = (?r, None)"
    by (simp add: reader_pass_def decode_frame_def strip_frame_def strip_last_def echo_api_def
        MAX_TRACY_RESPONSE_BYTES_def TRACY_HELPER_SCHEMA_VERSION_def route_document_def registry_new_def)
  then have "step echo_api ?s (?s\<lparr>sy_registry := ?r\<rparr>)"
    by (intro step.read) (simp_all add: system_new_def)
  then have r: "reachable echo_api (?s\<lparr>sy_registry := ?r\<rparr>)"
    by (rule reachable.step[OF echo_waiting])
  have "finish_request echo_api (Answer 1) = Inr 1"
    by (simp add: finish_request_def echo_api_def)
  moreover have "step echo_api (?s\<lparr>sy_registry := ?r\<rparr>)
      (enter_phase (drop_guard (?s\<lparr>sy_registry := ?r\<rparr>) 1 True) 1
        (Done (finish_request echo_api (Answer 1))))"
    by (rule step.received) simp_all
  ultimately show ?thesis using reachable.step[OF r] by fastforce
qed

lemma collector_answers_own_request_witness:
  "\<exists>s d. reachable echo_api s \<and> (1, Answer d) \<in> set (rg_sent (sy_registry s)) \<and>
     ja_u64 echo_api (ja_index echo_api d ''id'') = Some 1"
proof -
  obtain s where "reachable echo_api s" "sy_phase s 1 = Some (Done (Inr 1))"
    using echo_done by auto
  with collector_answers_own_request[OF this] show ?thesis by auto
qed

theorem collector_waiting_requests_are_served_witness:
  "\<exists>s. reachable echo_api s \<and> sy_phase s 1 = Some Waiting \<and>
     (rg_terminal (sy_registry s) = None \<and> 1 \<in> set (rg_pending (sy_registry s)) \<or>
            (\<exists>a. (1, a) \<in> set (rg_sent (sy_registry s))))"
proof (intro exI conjI)
  let ?s = "system_new\<lparr>sy_next_id := 2, sy_phase := [1 \<mapsto> Waiting],
     sy_registry := registry_new\<lparr>rg_pending := [1]\<rparr>\<rparr> :: u64 system"
  show "reachable echo_api ?s" by (rule echo_waiting)
  show p: "sy_phase ?s 1 = Some Waiting" by simp
  show "rg_terminal (sy_registry ?s) = None \<and> 1 \<in> set (rg_pending (sy_registry ?s)) \<or>
            (\<exists>a. (1, a) \<in> set (rg_sent (sy_registry ?s)))"
    using collector_waiting_requests_are_served[OF echo_waiting] p by blast
qed

text \<open>
  Framing is independent of chunking: from any non-empty chunks, a bounded read
  returns the line at the head of the byte stream with at most \<open>limit\<close> bytes of it and the
  right truncation mark, leaves exactly the bytes after that line for the next read, and
  without draining fails precisely when the line is longer than the limit.
\<close>

lemma bounded_line_reads_head_line:
  assumes "[] \<notin> set cs" "bounded_line limit drain (map Filled cs) [] False = (r, rest)"
  shows "if \<not> drain \<and> line_overflows limit (concat cs) then r = Inl FRAME_LIMIT_ERROR
    else r = Inr (stream_line limit (concat cs)) \<and>
      (\<exists>cs'. rest = map Filled cs' \<and> [] \<notin> set cs' \<and> concat cs' = stream_rest (concat cs))"
  using bounded_line_stream[of cs "[]" drain limit, unfolded append_Nil] assms
  by (auto split: if_splits)

lemma bounded_line_reads_head_line_witness:
  "bounded_line 5 False (map Filled [''ab'', ''c'' @ [CHR 0x0A] @ ''d'']) [] False
     = (Inr (Some (''abc'' @ [CHR 0x0A], False)), [Filled ''d''])
   \<and> stream_line 5 (''abc'' @ [CHR 0x0A] @ ''d'') = Some (''abc'' @ [CHR 0x0A], False)"
proof -
  have run: "bounded_line 5 False (map Filled [''ab'', ''c'' @ [CHR 0x0A] @ ''d'']) [] False
     = (Inr (Some (''abc'' @ [CHR 0x0A], False)), [Filled ''d''])"
    by (simp add: Let_def)
  have "\<not> line_overflows 5 (concat [''ab'', ''c'' @ [CHR 0x0A] @ ''d''])"
    by (simp add: line_overflows_def stream_line_def)
  with bounded_line_reads_head_line[OF _ run] run show ?thesis by simp
qed

section \<open>The stderr tail is a bounded tail\<close>

interpretation stderr: bounded_tail stderr_push "\<lambda>tail. tail" "\<lambda>_ line. [line]"
  "\<lambda>xs. length xs \<le> MAX_STDERR_LINES" "\<lambda>xs. length xs \<le> MAX_STDERR_LINES"
  by unfold_locales
    (auto simp: stderr_push_def bounded_suffix_length infix_closed_length MAX_STDERR_LINES_def
      drop_Suc Suc_diff_le)

lemma stderr_tail_last_lines:
  "foldl stderr_push [] ls = drop (length ls - MAX_STDERR_LINES) ls"
proof -
  have "stderr.history tail ls = ls" for tail by (induction ls arbitrary: tail) auto
  then show ?thesis using stderr.run_contents[of "[]" ls] by (simp add: bounded_suffix_length)
qed

end
