(* ===== verification/Launch_Gate.thy ===== *)
theory Launch_Gate
  imports Build_Provenance
begin

text \<open>
  The gate in front of every launch, \<open>require_launchable_artifact\<close> of \<open>src/tools/mod.rs\<close>: the
  DMB is identified, the build provenance store judges it, and the launch goes ahead with the
  judgement and the digest of the DMB, or is refused.  The store may be missing.
\<close>

section \<open>The gate\<close>

record provenance_store =
  bs_host :: provenance_host
  bs_policy :: path_policy
  bs_files :: provenance_files

record launch_provenance =
  lp_status :: provenance_status
  lp_build_record_id :: "string option"
  lp_dmb_sha256 :: string
  lp_warnings :: "provenance_reason list"

text \<open>The refusals, each with the code and the message of its structured error.\<close>

datatype launch_refusal =
    DmbNotIdentified path file_error
  | ProvenanceNotValidated path provenance_error
  | StaleBuildArtifact launch_provenance
  | BuildProvenanceUnavailable launch_provenance

definition store_decision ::
  "provenance_store option \<Rightarrow> file_identity \<Rightarrow> path \<Rightarrow> bool \<Rightarrow> provenance_error + launch_decision" where
  "store_decision store dmb dmb_path require_verified =
     (case store of
        Some s \<Rightarrow> evaluate_launch (bs_host s) (bs_policy s) (bs_files s) dmb_path require_verified
      | None \<Rightarrow>
          Inr \<lparr>ld_status = Unverified, ld_allowed = (\<not> require_verified), ld_record_id = None,
               ld_reasons = [reason ''no_build_record''
                 ''no managed successful build record exists for this artifact'' None
                 (Some (fi_path dmb))]\<rparr>)"

definition require_launchable_artifact ::
  "file_host \<Rightarrow> provenance_store option \<Rightarrow> path \<Rightarrow> bool \<Rightarrow> launch_refusal + launch_provenance" where
  "require_launchable_artifact h store dmb_path require_verified =
     rbind (map_err (DmbNotIdentified dmb_path) (capture_file_identity h dmb_path)) (\<lambda>dmb.
     rbind (map_err (ProvenanceNotValidated dmb_path)
              (store_decision store dmb dmb_path require_verified)) (\<lambda>decision.
       let launch = \<lparr>lp_status = ld_status decision, lp_build_record_id = ld_record_id decision,
                     lp_dmb_sha256 = fi_sha256 dmb, lp_warnings = ld_reasons decision\<rparr>
       in if ld_allowed decision then Inr launch
          else if lp_status launch = Stale then Inl (StaleBuildArtifact launch)
          else Inl (BuildProvenanceUnavailable launch)))"

section \<open>What it lets through\<close>

lemma launchable_Inr:
  "require_launchable_artifact h store p req = Inr l \<longleftrightarrow>
     (\<exists>dmb d. capture_file_identity h p = Inr dmb \<and> store_decision store dmb p req = Inr d \<and>
        ld_allowed d \<and> l = \<lparr>lp_status = ld_status d, lp_build_record_id = ld_record_id d,
          lp_dmb_sha256 = fi_sha256 dmb, lp_warnings = ld_reasons d\<rparr>)"
proof -
  have decided: "(if ld_allowed d then Inr x else if ld_status d = Stale then Inl (StaleBuildArtifact x)
      else Inl (BuildProvenanceUnavailable x)) = Inr l \<longleftrightarrow> ld_allowed d \<and> l = x" for d x
    by auto
  show ?thesis
    unfolding require_launchable_artifact_def rbind_Inr map_err_Inr Let_def
      launch_provenance.select_convs decided by blast
qed

lemma unverified_simps [simp]:
  "ld_status (unverified req) = Unverified" "ld_allowed (unverified req) \<longleftrightarrow> \<not> req"
  "ld_record_id (unverified req) = None"
  by (simp_all add: unverified_def)

text \<open>The digest of an unchanged output is that of the file its recorded path leads to.\<close>

lemma same_output_digest:
  assumes "same_output h recorded" "capture_file_identity h p = Inr dmb"
    and "fs_canonicalize (fh_fs h) (fi_path recorded) = Inr (fi_path dmb)"
  shows "fi_sha256 dmb = fi_sha256 recorded"
  using assms by (auto simp: same_output_def file_identity_Inr split: sum.splits)

text \<open>
  The verdict of \<open>evaluate_launch\<close>: without a location record for the artifact it is
  unverified, and allowed unless verification is required.  With one, the verdict is stale
  exactly when something the build record rests on has changed (project, any input, a
  configuration file that was absent, either output, or a later attempt that did not succeed);
  otherwise it is verified exactly when the record carries the supported evidence.  A stale
  artifact is never allowed, a verified one always, an unverified one unless verification is
  required.
\<close>

lemma launch_verdict_follows_changes:
  assumes "evaluate_launch ph pol st p req = Inr d"
  shows "\<exists>q key. resolve_artifact (ph_files ph) pol p = Inr q \<and>
    location_key (ph_files ph) q = Inr key \<and>
    (case map_of (pf_locations st) key of
       None \<Rightarrow> d = unverified req
     | Some l \<Rightarrow> \<exists>r project. map_of (pf_builds st) (al_artifact_key l) = Some r \<and>
         project_identity (ph_files ph) pol q = Inr project \<and>
         ld_record_id d = Some (br_record_id r) \<and>
         (ld_status d = Stale \<longleftrightarrow>
            \<not> build_unchanged (ph_files ph) r project (map_of (pf_attempts st) (br_artifact_key r))) \<and>
         (ld_status d = Verified \<longleftrightarrow> verification_supported r \<and>
            build_unchanged (ph_files ph) r project (map_of (pf_attempts st) (br_artifact_key r))) \<and>
         (ld_allowed d \<longleftrightarrow>
            (case ld_status d of Verified \<Rightarrow> True | Unverified \<Rightarrow> \<not> req | Stale \<Rightarrow> False)))"
proof -
  obtain q key found where q: "resolve_artifact (ph_files ph) pol p = Inr q"
    "location_key (ph_files ph) q = Inr key" and found: "read_build ph st key = Inr found"
    and d: "case found of None \<Rightarrow> d = unverified req
      | Some (r, attempt) \<Rightarrow> \<exists>project. project_identity (ph_files ph) pol q = Inr project \<and>
          d = decide_launch r req (launch_reasons (ph_files ph) r project q attempt)"
    using assms by (auto simp: evaluate_launch_Inr)
  show ?thesis
  proof (cases found)
    case None
    with q found d show ?thesis by (auto dest!: read_build_None)
  next
    case (Some ra)
    then obtain r attempt where ra: "found = Some (r, attempt)" by (cases ra) auto
    with d obtain project where project: "project_identity (ph_files ph) pol q = Inr project"
      and decided: "decide_launch r req (launch_reasons (ph_files ph) r project q attempt) = d" by auto
    obtain l where l: "map_of (pf_locations st) key = Some l"
      "map_of (pf_builds st) (al_artifact_key l) = Some r"
      "map_of (pf_attempts st) (br_artifact_key r) = attempt"
      using read_build_Some found ra by blast
    note verdict = decide_launch_cases[OF decided, unfolded launch_reasons_Nil]
    have allowed: "ld_allowed d \<longleftrightarrow>
        (case ld_status d of Verified \<Rightarrow> True | Unverified \<Rightarrow> \<not> req | Stale \<Rightarrow> False)"
      using verdict by (cases "ld_status d") simp_all
    show ?thesis
      using verdict allowed project
      by (intro exI[of _ q] exI[of _ key] conjI q, unfold l(1) option.case)
        (intro exI[of _ r] exI[of _ project], simp only: l, blast)
  qed
qed

lemma verified_launch_facts:
  assumes "require_launchable_artifact (ph_files (bs_host s)) (Some s) p True = Inr l"
  shows "\<exists>dmb q key r attempt project.
    capture_file_identity (ph_files (bs_host s)) p = Inr dmb \<and> lp_dmb_sha256 l = fi_sha256 dmb \<and>
    resolve_artifact (ph_files (bs_host s)) (bs_policy s) p = Inr q \<and>
    location_key (ph_files (bs_host s)) q = Inr key \<and>
    read_build (bs_host s) (bs_files s) key = Inr (Some (r, attempt)) \<and>
    project_identity (ph_files (bs_host s)) (bs_policy s) q = Inr project \<and>
    lp_status l = Verified \<and> lp_build_record_id l = Some (br_record_id r) \<and>
    verification_supported r \<and> build_unchanged (ph_files (bs_host s)) r project attempt \<and>
    (fs_canonicalize (fh_fs (ph_files (bs_host s))) (fi_path (br_dmb r)) = Inr (fi_path dmb) \<longrightarrow>
       lp_dmb_sha256 l = fi_sha256 (br_dmb r))"
proof -
  let ?h = "ph_files (bs_host s)"
  obtain dmb d where dmb: "capture_file_identity ?h p = Inr dmb"
    and d: "evaluate_launch (bs_host s) (bs_policy s) (bs_files s) p True = Inr d" "ld_allowed d"
    and l: "l = \<lparr>lp_status = ld_status d, lp_build_record_id = ld_record_id d,
          lp_dmb_sha256 = fi_sha256 dmb, lp_warnings = ld_reasons d\<rparr>"
    using assms by (auto simp: launchable_Inr store_decision_def)
  obtain q key found where q: "resolve_artifact ?h (bs_policy s) p = Inr q"
    "location_key ?h q = Inr key" and found: "read_build (bs_host s) (bs_files s) key = Inr found"
    and found_d: "case found of None \<Rightarrow> d = unverified True
      | Some (r, attempt) \<Rightarrow> \<exists>project. project_identity ?h (bs_policy s) q = Inr project \<and>
          d = decide_launch r True (launch_reasons ?h r project q attempt)"
    using d(1) by (auto simp: evaluate_launch_Inr)
  obtain r attempt where ra: "found = Some (r, attempt)"
    using found_d d(2) by (cases found) auto
  with found_d obtain project where project: "project_identity ?h (bs_policy s) q = Inr project"
    and decided: "decide_launch r True (launch_reasons ?h r project q attempt) = d" by auto
  note verdict = decide_launch_cases[OF decided, unfolded launch_reasons_Nil]
  have digest: "fs_canonicalize (fh_fs ?h) (fi_path (br_dmb r)) = Inr (fi_path dmb) \<longrightarrow>
      fi_sha256 dmb = fi_sha256 (br_dmb r)"
    using same_output_digest[OF _ dmb] verdict d(2) by (auto simp: build_unchanged_def)
  show ?thesis
    using dmb q found ra project verdict d(2) digest l by auto
qed

text \<open>
  What a launch that asks for verification rests on: the gate lets it through only with a
  build record that carries the supported evidence and none of whose inputs, configuration
  files and outputs has changed since, under the same project identity and with no later failed
  attempt; and when the recorded DMB path leads to the launched file, the digest the gate
  reports is the digest of the recorded build.
\<close>

lemma verified_launch_runs_recorded_build:
  assumes "require_launchable_artifact (ph_files (bs_host s)) (Some s) p True = Inr l"
  shows "\<exists>dmb q key r attempt project.
    capture_file_identity (ph_files (bs_host s)) p = Inr dmb \<and> lp_dmb_sha256 l = fi_sha256 dmb \<and>
    resolve_artifact (ph_files (bs_host s)) (bs_policy s) p = Inr q \<and>
    location_key (ph_files (bs_host s)) q = Inr key \<and>
    read_build (bs_host s) (bs_files s) key = Inr (Some (r, attempt)) \<and>
    project_identity (ph_files (bs_host s)) (bs_policy s) q = Inr project \<and>
    lp_status l = Verified \<and> lp_build_record_id l = Some (br_record_id r) \<and>
    verification_supported r \<and> build_unchanged (ph_files (bs_host s)) r project attempt \<and>
    (fs_canonicalize (fh_fs (ph_files (bs_host s))) (fi_path (br_dmb r)) = Inr (fi_path dmb) \<longrightarrow>
       lp_dmb_sha256 l = fi_sha256 (br_dmb r))"
  using verified_launch_facts[OF assms] .

text \<open>
  C19. Two artifacts whose paths differ only in the case of ASCII letters have one location
  record, and the recorded path is not compared: when one of them is launched as verified, so
  is the other, whatever its bytes, with the first one's build record and its own digest.
\<close>

theorem case_twin_inherits_verification:
  assumes "require_launchable_artifact (ph_files (bs_host s)) (Some s) p True = Inr l"
    and "capture_file_identity (ph_files (bs_host s)) twin = Inr dmb"
    and "resolve_artifact (ph_files (bs_host s)) (bs_policy s) p = Inr q"
    and "resolve_artifact (ph_files (bs_host s)) (bs_policy s) twin = Inr q'"
    and "fs_exists (fh_fs (ph_files (bs_host s))) q" "fs_exists (fh_fs (ph_files (bs_host s))) q'"
    and "fs_canonicalize (fh_fs (ph_files (bs_host s))) q = Inr c"
    and "fs_canonicalize (fh_fs (ph_files (bs_host s))) q' = Inr c'"
    and "to_ascii_lowercase (fs_display (fh_fs (ph_files (bs_host s))) c)
       = to_ascii_lowercase (fs_display (fh_fs (ph_files (bs_host s))) c')"
    and "project_identity (ph_files (bs_host s)) (bs_policy s) q
       = project_identity (ph_files (bs_host s)) (bs_policy s) q'"
  shows "\<exists>l'. require_launchable_artifact (ph_files (bs_host s)) (Some s) twin True = Inr l' \<and>
    lp_status l' = Verified \<and> lp_build_record_id l' = lp_build_record_id l \<and>
    lp_dmb_sha256 l' = fi_sha256 dmb"
proof -
  let ?h = "ph_files (bs_host s)"
  obtain key r attempt project where first: "location_key ?h q = Inr key"
    "read_build (bs_host s) (bs_files s) key = Inr (Some (r, attempt))"
    "project_identity ?h (bs_policy s) q = Inr project"
    "lp_build_record_id l = Some (br_record_id r)"
    "verification_supported r" "build_unchanged ?h r project attempt"
    using verified_launch_facts[OF assms(1)] assms(3) by auto
  have key: "location_key ?h q' = Inr key"
    using first(1) assms(5-9) by (auto simp: location_key_def rbind_Inr map_err_Inr)
  let ?d = "decide_launch r True (launch_reasons ?h r project q' attempt)"
  have "evaluate_launch (bs_host s) (bs_policy s) (bs_files s) twin True = Inr ?d"
    using assms(4) key first(2,3) by (simp add: evaluate_launch_def assms(10)[symmetric])
  moreover have "ld_allowed ?d \<and> ld_status ?d = Verified \<and> ld_record_id ?d = Some (br_record_id r)"
    using decide_launch_cases[OF refl, of r True "launch_reasons ?h r project q' attempt"]
      first(5,6) by (simp add: launch_reasons_Nil)
  ultimately show ?thesis
    using assms(2) first(4) by (auto simp: launchable_Inr store_decision_def)
qed

section \<open>A concrete world\<close>

text \<open>
  A project \<open>/w\<close> with one source, a recorded build of \<open>Game.dmb\<close> and, on a file system that
  distinguishes cases, an unrelated \<open>game.dmb\<close> beside it.  The digest is a padding to 64 bytes.
\<close>

definition pad_digest :: "string \<Rightarrow> string" where
  "pad_digest s = take 64 (s @ replicate 64 (CHR ''0''))"

definition w_path :: "string \<Rightarrow> path" where
  "w_path s = [RootDir, Normal ''w'', Normal s]"

definition w_files :: "path list" where
  "w_files = map w_path [''a.dme'', ''Game.dmb'', ''game.dmb'']"

definition w_host :: file_host where
  "w_host =
     \<lparr>fh_fs = \<lparr>fs_canonicalize = (\<lambda>p. Inr p), fs_exists = (\<lambda>p. p \<in> set w_files),
               fs_symlink_metadata = (\<lambda>p. if p \<in> set w_files then Inr RegularFile else Inl ''absent''),
               fs_display = normalize_relative, fs_from_str = (\<lambda>s. [Normal s])\<rparr>,
      fh_len = (\<lambda>p. 1), fh_metadata = (\<lambda>p. Inl ''absent''),
      fh_read = (\<lambda>p. Inr (if p = w_path ''game.dmb'' then ''2'' else ''1'')), fh_sha256 = pad_digest\<rparr>"

definition w_root :: EffectiveRoot where
  "w_root = \<lparr>er_path = [RootDir, Normal ''w''], er_source = ExplicitRoot,
     er_repository_identity = None, er_head_revision = None, er_dirty = None\<rparr>"

definition w_policy :: path_policy where
  "w_policy = \<lparr>pp_roots = [er_path w_root], pp_effective_roots = [w_root], pp_executables = []\<rparr>"

definition w_identity :: "string \<Rightarrow> file_identity" where
  "w_identity s = \<lparr>fi_path = w_path s, fi_size = 1, fi_sha256 = pad_digest ''1''\<rparr>"

definition w_record :: build_record where
  "w_record =
     \<lparr>br_schema = 2, br_record_id = ''r'', br_artifact_key = pad_digest ''k'',
      br_mcp_build = from_input pad_digest (\<lambda>_. [])
        \<lparr>bi_version = ''1'', bi_source_revision = None, bi_source_dirty = None, bi_target = ''t'',
         bi_profile = ''p'', bi_executable_sha256 = None\<rparr>,
      br_compiler = w_identity ''DreamMaker'',
      br_project = \<lparr>pi_root = er_path w_root,
        pi_repository_identity = pad_digest (normalize_relative (er_path w_root)),
        pi_head_revision = None, pi_dirty = None\<rparr>,
      br_inputs = [\<lparr>ii_path = w_path ''a.dme'', ii_resolved_path = Some (w_path ''a.dme''),
        ii_relative_path = ''a.dme'', ii_role = ''source'', ii_size = 1, ii_sha256 = pad_digest ''1''\<rparr>],
      br_verification = Some \<lparr>bv_method = ''literal_dm_closure_v1'', bv_arguments = [''a.dme''],
        bv_working_directory = er_path w_root, bv_absent_inputs = [w_path ''c'']\<rparr>,
      br_dmb = w_identity ''Game.dmb'', br_rsc = None, br_fixture_manifest_sha256 = None,
      br_created_at_unix_ms = 5\<rparr>"

definition w_location :: string where
  "w_location = pad_digest (to_ascii_lowercase (normalize_relative (w_path ''Game.dmb'')))"

definition w_store :: provenance_store where
  "w_store =
     \<lparr>bs_host = \<lparr>ph_files = w_host, ph_lock = None, ph_read = (\<lambda>_. None), ph_write = (\<lambda>_. None)\<rparr>,
      bs_policy = w_policy,
      bs_files = \<lparr>pf_locations = [(w_location, \<lparr>al_schema = 1, al_artifact_key = pad_digest ''k''\<rparr>)],
        pf_builds = [(pad_digest ''k'', w_record)], pf_attempts = []\<rparr>\<rparr>"

definition w_launch :: launch_provenance where
  "w_launch = \<lparr>lp_status = Verified, lp_build_record_id = Some ''r'',
     lp_dmb_sha256 = pad_digest ''1'', lp_warnings = []\<rparr>"

definition w_decision :: launch_decision where
  "w_decision = \<lparr>ld_status = Verified, ld_allowed = True, ld_record_id = Some ''r'', ld_reasons = []\<rparr>"

lemma w_evaluates:
  "evaluate_launch (bs_host w_store) (bs_policy w_store) (bs_files w_store) (w_path ''Game.dmb'') True
     = Inr w_decision"
  by code_simp

lemma w_launches:
  "require_launchable_artifact (ph_files (bs_host w_store)) (Some w_store) (w_path ''Game.dmb'') True
     = Inr w_launch"
  by code_simp

lemma launch_verdict_follows_changes_witness:
  "\<exists>q key. resolve_artifact w_host w_policy (w_path ''Game.dmb'') = Inr q \<and>
     location_key w_host q = Inr key \<and> key = w_location \<and>
     build_unchanged w_host w_record (br_project w_record) None"
proof -
  have "location_key w_host (w_path ''Game.dmb'') = Inr w_location"
    "resolve_artifact w_host w_policy (w_path ''Game.dmb'') = Inr (w_path ''Game.dmb'')"
    "project_identity w_host w_policy (w_path ''Game.dmb'') = Inr (br_project w_record)" by code_simp+
  with launch_verdict_follows_changes[OF w_evaluates] show ?thesis
    by (simp add: w_store_def w_decision_def w_record_def)
qed

lemma verified_launch_runs_recorded_build_witness:
  "verification_supported w_record \<and> build_unchanged w_host w_record (br_project w_record) None \<and>
   lp_dmb_sha256 w_launch = fi_sha256 (br_dmb w_record)"
proof -
  have here: "ph_files (bs_host w_store) = w_host" "bs_policy w_store = w_policy"
    by (simp_all add: w_store_def)
  have facts: "capture_file_identity w_host (w_path ''Game.dmb'') = Inr (w_identity ''Game.dmb'')"
    "location_key w_host (w_path ''Game.dmb'') = Inr w_location"
    "resolve_artifact w_host w_policy (w_path ''Game.dmb'') = Inr (w_path ''Game.dmb'')"
    "read_build (bs_host w_store) (bs_files w_store) w_location = Inr (Some (w_record, None))"
    "project_identity w_host w_policy (w_path ''Game.dmb'') = Inr (br_project w_record)" by code_simp+
  have "fs_canonicalize (fh_fs w_host) (fi_path (br_dmb w_record)) = Inr (fi_path (w_identity ''Game.dmb''))"
    by (simp add: w_host_def w_record_def w_identity_def)
  with verified_launch_runs_recorded_build[OF w_launches, unfolded here] facts show ?thesis by auto
qed

theorem case_twin_inherits_verification_witness:
  "\<exists>l'. require_launchable_artifact w_host (Some w_store) (w_path ''game.dmb'') True = Inr l' \<and>
     lp_status l' = Verified \<and> lp_dmb_sha256 l' \<noteq> fi_sha256 (br_dmb w_record)"
proof -
  let ?i = "\<lparr>fi_path = w_path ''game.dmb'', fi_size = 1, fi_sha256 = pad_digest ''2''\<rparr>"
  have "\<exists>l'. require_launchable_artifact (ph_files (bs_host w_store)) (Some w_store)
      (w_path ''game.dmb'') True = Inr l' \<and>
    lp_status l' = Verified \<and> lp_build_record_id l' = lp_build_record_id w_launch \<and>
    lp_dmb_sha256 l' = fi_sha256 ?i"
    by (rule case_twin_inherits_verification[OF w_launches, where q = "w_path ''Game.dmb''"
        and q' = "w_path ''game.dmb''" and c = "w_path ''Game.dmb''" and c' = "w_path ''game.dmb''"])
      code_simp+
  moreover have "ph_files (bs_host w_store) = w_host" by (simp add: w_store_def)
  moreover have "pad_digest ''2'' \<noteq> fi_sha256 (br_dmb w_record)" by code_simp
  ultimately show ?thesis by auto
qed

end
