(* ===== verification/Json.thy ===== *)
theory Json
  imports Btree Text_Ops "HOL-Library.Char_ord" "HOL-Library.List_Lexorder"
begin

text \<open>
  \<open>serde_json::Value\<close> as a datatype and the accessors the program calls on it.  The crate's
  \<open>Map\<close> is a \<open>BTreeMap\<close> (its \<open>preserve_order\<close> feature is off), so the members of an object are
  kept in key order.  Floating-point numbers are their IEEE bits.  Text is not parsed or
  printed here: \<open>from_slice\<close> and \<open>to_string\<close> belong to the crate.
\<close>

datatype json_number = PosInt u64 | NegInt int | Float u64

datatype json =
    JNull
  | JBool bool
  | JNum json_number
  | JStr string
  | JArr "json list"
  | JObj "(string \<times> json) list"

section \<open>Accessors\<close>

text \<open>\<open>Value::get\<close> with a string, and \<open>value[key]\<close>, which is \<open>Null\<close> when there is no such member.\<close>

fun json_get :: "json \<Rightarrow> string \<Rightarrow> json option" where
  "json_get (JObj m) k = map_of m k"
| "json_get _ k = None"

definition json_index :: "json \<Rightarrow> string \<Rightarrow> json" where
  "json_index v k = (case json_get v k of None \<Rightarrow> JNull | Some x \<Rightarrow> x)"

fun as_str :: "json \<Rightarrow> string option" where
  "as_str (JStr s) = Some s"
| "as_str _ = None"

fun as_bool :: "json \<Rightarrow> bool option" where
  "as_bool (JBool b) = Some b"
| "as_bool _ = None"

fun as_u64 :: "json \<Rightarrow> u64 option" where
  "as_u64 (JNum (PosInt n)) = Some n"
| "as_u64 _ = None"

fun as_i64 :: "json \<Rightarrow> int option" where
  "as_i64 (JNum (PosInt n)) = (if uint n < 2 ^ 63 then Some (uint n) else None)"
| "as_i64 (JNum (NegInt n)) = Some n"
| "as_i64 _ = None"

fun as_array :: "json \<Rightarrow> json list option" where
  "as_array (JArr xs) = Some xs"
| "as_array _ = None"

fun as_object :: "json \<Rightarrow> (string \<times> json) list option" where
  "as_object (JObj m) = Some m"
| "as_object _ = None"

definition get_str :: "json \<Rightarrow> string \<Rightarrow> string option" where
  "get_str v k = Option.bind (json_get v k) as_str"

definition get_bool :: "json \<Rightarrow> string \<Rightarrow> bool option" where
  "get_bool v k = Option.bind (json_get v k) as_bool"

text \<open>
  \<open>value[key] = x\<close>: an object gains or replaces the member, \<open>Null\<close> becomes an object, anything
  else panics.
\<close>

fun json_set :: "json \<Rightarrow> string \<Rightarrow> json \<Rightarrow> json option" where
  "json_set (JObj m) k x = Some (JObj (btree_insert k x m))"
| "json_set JNull k x = Some (JObj [(k, x)])"
| "json_set _ k x = None"

text \<open>The object \<open>json!({..})\<close> builds.\<close>

definition object_members :: "(string \<times> json) list \<Rightarrow> (string \<times> json) list" where
  "object_members ms = fold (\<lambda>(k, v) m. btree_insert k v m) ms []"

definition json_object :: "(string \<times> json) list \<Rightarrow> json" where
  "json_object ms = JObj (object_members ms)"

definition json_opt_str :: "string option \<Rightarrow> json" where
  "json_opt_str x = (case x of None \<Rightarrow> JNull | Some s \<Rightarrow> JStr s)"

section \<open>Lemmas\<close>

lemma json_get_set:
  "json_set v k x = Some w \<Longrightarrow> json_get w k' = (if k' = k then Some x else json_get v k')"
  by (cases v) (auto simp: map_of_btree_insert)

lemma map_of_rev_distinct: "distinct (map fst ms) \<Longrightarrow> map_of (rev ms) = map_of ms"
  by (simp add: map_of_inject_set rev_map[symmetric])

lemma fold_insert_all: "fold (\<lambda>(k, v) m. btree_insert k v m) es m = btree.insert_all es m"
  by (induction es arbitrary: m) auto

lemma object_members_btree: "btree (object_members ms)"
  by (simp add: object_members_def fold_insert_all btree.insert_all_ok)

lemma map_of_object_members: "distinct (map fst ms) \<Longrightarrow> map_of (object_members ms) = map_of ms"
  by (simp add: object_members_def fold_insert_all btree.look_insert_all map_of_rev_distinct)

lemma json_set_present: "json_get v k = Some y \<Longrightarrow> \<exists>w. json_set v k x = Some w"
  by (cases v) auto

lemma as_str_Some: "as_str v = Some s \<longleftrightarrow> v = JStr s"
  by (cases v) auto

lemma get_str_Some: "get_str v k = Some s \<longleftrightarrow> json_get v k = Some (JStr s)"
  by (cases "json_get v k") (simp_all add: get_str_def as_str_Some)

end
