(* ===== verification/Fixture_Manifest.thy ===== *)
theory Fixture_Manifest
  imports File_Identity Json "HOL-Library.Multiset"
begin

text \<open>
  Fixture manifests, from \<open>src/fixture_manifest.rs\<close>: the document and its validation, the
  resolution of its paths under the manifest's own directory and the identity of the verified
  manifest.  The \<open>serde_json\<close> reader and writer and SHA-256 are parameters; \<open>split\<close> and
  \<open>join\<close> of a validated relative path are the splitting of its text at the slashes.
\<close>

section \<open>Documents\<close>

definition MAX_MANIFEST_BYTES :: u64 where "MAX_MANIFEST_BYTES = 4 * 1024 * 1024"
definition MAX_FIXTURE_ID_BYTES :: nat where "MAX_FIXTURE_ID_BYTES = 128"
definition MAX_PATH_BYTES :: nat where "MAX_PATH_BYTES = 4096"
definition MAX_INPUTS :: nat where "MAX_INPUTS = 10000"
definition MAX_REQUIRED_PROCS :: nat where "MAX_REQUIRED_PROCS = 1000"
definition MAX_REQUIRED_TOKENS :: nat where "MAX_REQUIRED_TOKENS = 1000"
definition MAX_TOKEN_BYTES :: nat where "MAX_TOKEN_BYTES = 4096"

datatype fixture_input_role =
  SourceInput | GeneratedBinding | NativeModule | ServiceExecutable | ConfigurationInput

fun role_str :: "fixture_input_role \<Rightarrow> string" where
  "role_str SourceInput = ''source''"
| "role_str GeneratedBinding = ''generated_binding''"
| "role_str NativeModule = ''native_module''"
| "role_str ServiceExecutable = ''service_executable''"
| "role_str ConfigurationInput = ''configuration''"

record fixture_input_document =
  fd_path :: string
  fd_role :: fixture_input_role

record required_proc_document =
  rp_path :: string
  rp_arguments :: "string list"

record fixture_manifest_document =
  fm_schema :: u32
  fm_fixture_id :: string
  fm_dme_path :: string
  fm_dmb_path :: string
  fm_rsc_path :: "string option"
  fm_inputs :: "fixture_input_document list"
  fm_required_procs :: "required_proc_document list"
  fm_required_tokens :: "string list"

record verified_fixture_input =
  vi_relative_path :: string
  vi_canonical_path :: path
  vi_role :: fixture_input_role
  vi_size :: u64
  vi_sha256 :: string

record verified_fixture_manifest =
  vm_manifest_path :: path
  vm_fixture_root :: path
  vm_fixture_id :: string
  vm_dme_path :: path
  vm_dmb_path :: path
  vm_rsc_path :: "path option"
  vm_inputs :: "verified_fixture_input list"
  vm_required_procs :: "required_proc_document list"
  vm_required_tokens :: "string list"
  vm_identity_sha256 :: string

datatype fixture_error =
    FixturePolicy policy_error
  | FixtureIo string
  | FixtureJson string
  | FixtureInvalid string

text \<open>The codec of \<open>serde_json\<close> at the two types it is used with.\<close>

record fixture_codec =
  fc_from_reader :: "string \<Rightarrow> string + fixture_manifest_document"
  fc_to_vec :: "json \<Rightarrow> string + string"

section \<open>Validation\<close>

definition path_shape :: "string \<Rightarrow> bool" where
  "path_shape p \<longleftrightarrow>
     p \<noteq> [] \<and> length p \<le> MAX_PATH_BYTES \<and> CHR 0x5C \<notin> set p \<and> \<not> is_substring ''://'' p \<and>
     list_all (\<lambda>c. c \<notin> set ''*?[]'') p \<and> \<not> prefix ''/'' p \<and> CHR 0x3A \<notin> set p"

definition plain_component :: "string \<Rightarrow> bool" where
  "plain_component c \<longleftrightarrow> c \<noteq> [] \<and> c \<noteq> ''.'' \<and> c \<noteq> ''..''"

definition validate_relative_path :: "string \<Rightarrow> fixture_error + string" where
  "validate_relative_path p =
     (if \<not> path_shape p
      then Inl (FixtureInvalid ''paths must be bounded forward-slash relative paths'')
      else
        let components = split_on (CHR 0x2F) p in
        if \<not> list_all plain_component components
        then Inl (FixtureInvalid ''paths cannot contain empty, dot, or parent components'')
        else Inr (join_with (CHR 0x2F) components))"

definition is_word_char :: "char \<Rightarrow> bool" where
  "is_word_char c \<longleftrightarrow>
     c = CHR ''_'' \<or> is_digit c \<or> 65 \<le> (of_char c :: nat) \<and> (of_char c :: nat) \<le> 90 \<or>
     97 \<le> (of_char c :: nat) \<and> (of_char c :: nat) \<le> 122"

definition required_proc_ok :: "required_proc_document \<Rightarrow> bool" where
  "required_proc_ok r \<longleftrightarrow>
     prefix ''/'' (rp_path r) \<and> length (rp_path r) \<le> MAX_PATH_BYTES \<and>
     length (rp_arguments r) \<le> 1000 \<and>
     list_all (\<lambda>a. a \<noteq> [] \<and> length a \<le> MAX_PATH_BYTES \<and> list_all is_word_char a) (rp_arguments r)"

definition token_ok :: "string \<Rightarrow> bool" where
  "token_ok t \<longleftrightarrow> t \<noteq> [] \<and> length t \<le> MAX_TOKEN_BYTES"

definition validate_document :: "fixture_manifest_document \<Rightarrow> fixture_error + unit" where
  "validate_document d =
     rbind (require (fm_schema d = 1) (FixtureInvalid ''schema must be 1'')) (\<lambda>_.
     rbind (require (fm_fixture_id d \<noteq> [] \<and> length (fm_fixture_id d) \<le> MAX_FIXTURE_ID_BYTES)
              (FixtureInvalid ''fixture_id must contain 1-128 bytes'')) (\<lambda>_.
     rbind (validate_relative_path (fm_dme_path d)) (\<lambda>_.
     rbind (validate_relative_path (fm_dmb_path d)) (\<lambda>_.
     rbind (case fm_rsc_path d of None \<Rightarrow> Inr [] | Some p \<Rightarrow> validate_relative_path p) (\<lambda>_.
     rbind (require (fm_inputs d \<noteq> [] \<and> length (fm_inputs d) \<le> MAX_INPUTS)
              (FixtureInvalid ''inputs must contain 1-10000 entries'')) (\<lambda>_.
     rbind (require (length (fm_required_procs d) \<le> MAX_REQUIRED_PROCS)
              (FixtureInvalid ''required_procs exceeds 1000 entries'')) (\<lambda>_.
     rbind (require (length (fm_required_tokens d) \<le> MAX_REQUIRED_TOKENS)
              (FixtureInvalid ''required_tokens exceeds 1000 entries'')) (\<lambda>_.
     rbind (require (list_all required_proc_ok (fm_required_procs d))
              (FixtureInvalid ''required proc contract is invalid'')) (\<lambda>_.
     require (list_all token_ok (fm_required_tokens d))
       (FixtureInvalid ''required token must contain 1-4096 bytes''))))))))))"

section \<open>Resolution\<close>

definition join_relative :: "path \<Rightarrow> string \<Rightarrow> path" where
  "join_relative root p = root @ map Normal (split_on (CHR 0x2F) p)"

definition regular_metadata :: "file_host \<Rightarrow> path \<Rightarrow> string \<Rightarrow> fixture_error + unit" where
  "regular_metadata h p message =
     rbind (map_err FixtureIo (fs_symlink_metadata (fh_fs h) p)) (\<lambda>kind.
       require (kind = RegularFile) (FixtureInvalid message))"

definition resolve_existing ::
  "file_host \<Rightarrow> path_policy \<Rightarrow> path \<Rightarrow> string \<Rightarrow> fixture_error + path" where
  "resolve_existing h pol root relative =
     rbind (validate_relative_path relative) (\<lambda>normalized.
     let requested = join_relative root normalized in
     rbind (regular_metadata h requested ''fixture DME must be a regular non-symlink file'') (\<lambda>_.
     map_err FixturePolicy (read_path (fh_fs h) pol requested)))"

definition resolve_output :: "path \<Rightarrow> string \<Rightarrow> fixture_error + path" where
  "resolve_output root relative =
     rbind (validate_relative_path relative) (\<lambda>normalized. Inr (join_relative root normalized))"

definition hash_input :: "file_host \<Rightarrow> path \<Rightarrow> fixture_error + string" where
  "hash_input h p =
     rbind (map_err FixtureIo (fh_read h p)) (\<lambda>bytes. Inr (fh_sha256 h bytes))"

text \<open>
  The loop over the inputs, with the two sets of keys seen so far and the inputs verified so far.
\<close>

definition normalized_key :: "string \<Rightarrow> string" where
  "normalized_key p = to_ascii_lowercase p"

definition canonical_key :: "file_host \<Rightarrow> path \<Rightarrow> string" where
  "canonical_key h p = to_ascii_lowercase (fs_display (fh_fs h) p)"

fun load_inputs ::
  "file_host \<Rightarrow> path_policy \<Rightarrow> path \<Rightarrow> string set \<Rightarrow> string set \<Rightarrow> verified_fixture_input list
   \<Rightarrow> fixture_input_document list \<Rightarrow> fixture_error + verified_fixture_input list" where
  "load_inputs h pol root seen canonical inputs [] = Inr inputs"
| "load_inputs h pol root seen canonical inputs (d # ds) =
     rbind (validate_relative_path (fd_path d)) (\<lambda>normalized.
     rbind (require (normalized_key normalized \<notin> seen)
              (FixtureInvalid ''input paths are duplicated after normalization'')) (\<lambda>_.
     let requested = join_relative root normalized in
     rbind (regular_metadata h requested
              (''input must be a regular non-symlink file: '' @ fd_path d)) (\<lambda>_.
     rbind (map_err FixturePolicy (read_path (fh_fs h) pol requested)) (\<lambda>canonical_path.
     rbind (require (canonical_key h canonical_path \<notin> canonical)
              (FixtureInvalid ''multiple inputs resolve to the same canonical file'')) (\<lambda>_.
     rbind (hash_input h canonical_path) (\<lambda>digest.
     load_inputs h pol root (insert (normalized_key normalized) seen)
       (insert (canonical_key h canonical_path) canonical)
       (inputs @ [\<lparr>vi_relative_path = normalized, vi_canonical_path = canonical_path,
                   vi_role = fd_role d, vi_size = fh_len h requested, vi_sha256 = digest\<rparr>])
       ds))))))"

definition input_order :: "verified_fixture_input \<Rightarrow> string \<times> string" where
  "input_order i = (role_str (vi_role i), vi_relative_path i)"

definition portable_input :: "verified_fixture_input \<Rightarrow> json" where
  "portable_input i =
     json_object [(''path'', JStr (vi_relative_path i)), (''role'', JStr (role_str (vi_role i))),
       (''size'', JNum (PosInt (vi_size i))), (''sha256'', JStr (vi_sha256 i))]"

definition proc_json :: "required_proc_document \<Rightarrow> json" where
  "proc_json r =
     json_object [(''path'', JStr (rp_path r)), (''arguments'', JArr (map JStr (rp_arguments r)))]"

definition manifest_identity ::
  "file_host \<Rightarrow> fixture_codec \<Rightarrow> fixture_manifest_document \<Rightarrow> verified_fixture_input list
   \<Rightarrow> fixture_error + string" where
  "manifest_identity h codec d inputs =
     rbind (map_err FixtureJson (fc_to_vec codec (json_object
       [(''schema'', JNum (PosInt (ucast (fm_schema d)))), (''fixture_id'', JStr (fm_fixture_id d)),
        (''dme_path'', JStr (fm_dme_path d)), (''dmb_path'', JStr (fm_dmb_path d)),
        (''rsc_path'', json_opt_str (fm_rsc_path d)), (''inputs'', JArr (map portable_input inputs)),
        (''required_procs'', JArr (map proc_json (fm_required_procs d))),
        (''required_tokens'', JArr (map JStr (fm_required_tokens d)))]))) (\<lambda>bytes.
     Inr (fh_sha256 h bytes))"

definition read_manifest ::
  "file_host \<Rightarrow> fixture_codec \<Rightarrow> path_policy \<Rightarrow> path \<Rightarrow> fixture_error + path \<times> fixture_manifest_document" where
  "read_manifest h codec pol p =
     rbind (regular_metadata h p ''manifest must be a regular non-symlink file'') (\<lambda>_.
     rbind (require (fh_len h p \<le> MAX_MANIFEST_BYTES)
              (FixtureInvalid ''manifest exceeds the 4 MiB limit'')) (\<lambda>_.
     rbind (map_err FixturePolicy (read_path (fh_fs h) pol p)) (\<lambda>manifest_path.
     rbind (map_err FixtureIo (fh_read h manifest_path)) (\<lambda>bytes.
     rbind (map_err FixtureJson (fc_from_reader codec bytes)) (\<lambda>d.
     rbind (validate_document d) (\<lambda>_.
     Inr (manifest_path, d)))))))"

definition verify_fixture ::
  "file_host \<Rightarrow> fixture_codec \<Rightarrow> path_policy \<Rightarrow> path \<Rightarrow> path \<Rightarrow> fixture_manifest_document
   \<Rightarrow> fixture_error + verified_fixture_manifest" where
  "verify_fixture h codec pol manifest_path root d =
     rbind (resolve_existing h pol root (fm_dme_path d)) (\<lambda>dme.
     rbind (resolve_output root (fm_dmb_path d)) (\<lambda>dmb.
     rbind (case fm_rsc_path d of None \<Rightarrow> Inr None
            | Some p \<Rightarrow> rbind (resolve_output root p) (\<lambda>q. Inr (Some q))) (\<lambda>rsc.
     rbind (load_inputs h pol root {} {} [] (fm_inputs d)) (\<lambda>inputs.
     let inputs = sort_key input_order inputs in
     rbind (manifest_identity h codec d inputs) (\<lambda>identity.
     Inr \<lparr>vm_manifest_path = manifest_path, vm_fixture_root = root,
          vm_fixture_id = fm_fixture_id d, vm_dme_path = dme, vm_dmb_path = dmb, vm_rsc_path = rsc,
          vm_inputs = inputs, vm_required_procs = fm_required_procs d,
          vm_required_tokens = fm_required_tokens d, vm_identity_sha256 = identity\<rparr>)))))"

text \<open>
  \<open>FixtureManifest::load\<close>.  Its result is an option: the \<open>expect\<close> on the directory of the
  canonical manifest path panics, which is \<open>None\<close>, when that path has none.
\<close>

definition fixture_load ::
  "file_host \<Rightarrow> fixture_codec \<Rightarrow> path_policy \<Rightarrow> path \<Rightarrow> (fixture_error + verified_fixture_manifest) option" where
  "fixture_load h codec pol p =
     (case read_manifest h codec pol p of
        Inl e \<Rightarrow> Some (Inl e)
      | Inr (manifest_path, d) \<Rightarrow>
          (case parent manifest_path of None \<Rightarrow> None
           | Some root \<Rightarrow> Some (verify_fixture h codec pol manifest_path root d)))"


section \<open>What a verified manifest is\<close>

definition relative_ok :: "string \<Rightarrow> bool" where
  "relative_ok p \<longleftrightarrow> path_shape p \<and> list_all plain_component (split_on (CHR 0x2F) p)"

lemma validate_relative_path_Inr:
  "validate_relative_path p = Inr n \<longleftrightarrow> relative_ok p \<and> n = p"
  by (auto simp: validate_relative_path_def relative_ok_def Let_def join_split_on)

lemma regular_metadata_Inr:
  "regular_metadata h p m = Inr u \<longleftrightarrow> fs_symlink_metadata (fh_fs h) p = Inr RegularFile"
  by (auto simp: regular_metadata_def rbind_Inr map_err_Inr require_Inr)

lemma hash_input_Inr:
  "hash_input h p = Inr s \<longleftrightarrow> (\<exists>bytes. fh_read h p = Inr bytes \<and> s = fh_sha256 h bytes)"
  by (auto simp: hash_input_def rbind_Inr map_err_Inr)

lemma validate_document_Inr:
  "validate_document d = Inr u \<longleftrightarrow>
     fm_schema d = 1 \<and> fm_fixture_id d \<noteq> [] \<and> length (fm_fixture_id d) \<le> MAX_FIXTURE_ID_BYTES \<and>
     relative_ok (fm_dme_path d) \<and> relative_ok (fm_dmb_path d) \<and>
     (\<forall>p. fm_rsc_path d = Some p \<longrightarrow> relative_ok p) \<and>
     fm_inputs d \<noteq> [] \<and> length (fm_inputs d) \<le> MAX_INPUTS \<and>
     length (fm_required_procs d) \<le> MAX_REQUIRED_PROCS \<and>
     length (fm_required_tokens d) \<le> MAX_REQUIRED_TOKENS \<and>
     list_all required_proc_ok (fm_required_procs d) \<and> list_all token_ok (fm_required_tokens d)"
  by (cases "fm_rsc_path d")
    (simp_all add: validate_document_def rbind_Inr require_Inr validate_relative_path_Inr)

definition verified_input_ok :: "file_host \<Rightarrow> path_policy \<Rightarrow> path \<Rightarrow> verified_fixture_input \<Rightarrow> bool" where
  "verified_input_ok h pol root i \<longleftrightarrow>
     relative_ok (vi_relative_path i) \<and>
     fs_symlink_metadata (fh_fs h) (join_relative root (vi_relative_path i)) = Inr RegularFile \<and>
     read_path (fh_fs h) pol (join_relative root (vi_relative_path i)) = Inr (vi_canonical_path i) \<and>
     vi_size i = fh_len h (join_relative root (vi_relative_path i)) \<and>
     (\<exists>bytes. fh_read h (vi_canonical_path i) = Inr bytes \<and> vi_sha256 i = fh_sha256 h bytes)"

lemmas input_steps_Inr = result_Inr regular_metadata_Inr hash_input_Inr
  validate_relative_path_Inr

lemma load_inputs_Cons:
  "load_inputs h pol root seen canonical inputs (d # ds) = Inr out \<longleftrightarrow>
     (\<exists>i. verified_input_ok h pol root i \<and> vi_relative_path i = fd_path d \<and> vi_role i = fd_role d \<and>
        normalized_key (vi_relative_path i) \<notin> seen \<and>
        canonical_key h (vi_canonical_path i) \<notin> canonical \<and>
        load_inputs h pol root (insert (normalized_key (vi_relative_path i)) seen)
          (insert (canonical_key h (vi_canonical_path i)) canonical) (inputs @ [i]) ds = Inr out)"
    (is "?l \<longleftrightarrow> (\<exists>i. ?r i)")
proof
  assume ?l
  then obtain c bytes where facts: "relative_ok (fd_path d)" "normalized_key (fd_path d) \<notin> seen"
    "fs_symlink_metadata (fh_fs h) (join_relative root (fd_path d)) = Inr RegularFile"
    "read_path (fh_fs h) pol (join_relative root (fd_path d)) = Inr c"
    "canonical_key h c \<notin> canonical" "fh_read h c = Inr bytes"
    "load_inputs h pol root (insert (normalized_key (fd_path d)) seen)
       (insert (canonical_key h c) canonical)
       (inputs @ [\<lparr>vi_relative_path = fd_path d, vi_canonical_path = c, vi_role = fd_role d,
          vi_size = fh_len h (join_relative root (fd_path d)), vi_sha256 = fh_sha256 h bytes\<rparr>]) ds
       = Inr out"
    by (auto simp: input_steps_Inr Let_def)
  then show "\<exists>i. ?r i"
    by (intro exI[of _ "\<lparr>vi_relative_path = fd_path d, vi_canonical_path = c, vi_role = fd_role d,
        vi_size = fh_len h (join_relative root (fd_path d)), vi_sha256 = fh_sha256 h bytes\<rparr>"])
      (simp add: verified_input_ok_def)
next
  assume "\<exists>i. ?r i"
  then obtain i where i: "?r i" ..
  then obtain bytes where bytes: "fh_read h (vi_canonical_path i) = Inr bytes"
    "vi_sha256 i = fh_sha256 h bytes" by (auto simp: verified_input_ok_def)
  let ?i = "\<lparr>vi_relative_path = fd_path d, vi_canonical_path = vi_canonical_path i,
      vi_role = fd_role d, vi_size = fh_len h (join_relative root (fd_path d)),
      vi_sha256 = fh_sha256 h bytes\<rparr>"
  have "?i = i" using i bytes by (cases i) (simp add: verified_input_ok_def)
  then have "inputs @ [i] = inputs @ [?i]" by (simp only:)
  with i bytes show ?l
    by (auto simp: input_steps_Inr Let_def verified_input_ok_def)
qed


text \<open>The input an entry of the document stands for; it is the only one.\<close>

definition input_for ::
  "file_host \<Rightarrow> path_policy \<Rightarrow> path \<Rightarrow> fixture_input_document \<Rightarrow> verified_fixture_input \<Rightarrow> bool" where
  "input_for h pol root d i \<longleftrightarrow>
     verified_input_ok h pol root i \<and> vi_relative_path i = fd_path d \<and> vi_role i = fd_role d"

lemma input_for_unique: "input_for h pol root d i \<Longrightarrow> input_for h pol root d j \<Longrightarrow> i = j"
  by (cases i; cases j) (auto simp: input_for_def verified_input_ok_def)

definition fresh_keys :: "('a \<Rightarrow> 'k) \<Rightarrow> 'k set \<Rightarrow> 'a list \<Rightarrow> bool" where
  "fresh_keys k seen xs \<longleftrightarrow> distinct (map k xs) \<and> seen \<inter> k ` set xs = {}"

lemma fresh_keys_simps [simp]:
  "fresh_keys k seen []"
  "fresh_keys k seen (x # xs) \<longleftrightarrow> k x \<notin> seen \<and> fresh_keys k (insert (k x) seen) xs"
  by (auto simp: fresh_keys_def)

definition relative_key :: "verified_fixture_input \<Rightarrow> string" where
  "relative_key i = normalized_key (vi_relative_path i)"

definition file_key :: "file_host \<Rightarrow> verified_fixture_input \<Rightarrow> string" where
  "file_key h i = canonical_key h (vi_canonical_path i)"

lemma load_inputs_Inr:
  "load_inputs h pol root seen canonical inputs ds = Inr out \<longleftrightarrow>
     (\<exists>vs. out = inputs @ vs \<and> list_all2 (input_for h pol root) ds vs \<and>
        fresh_keys relative_key seen vs \<and> fresh_keys (file_key h) canonical vs)"
proof (induction ds arbitrary: seen canonical inputs)
  case (Cons d ds)
  have "load_inputs h pol root seen canonical inputs (d # ds) = Inr out \<longleftrightarrow>
      (\<exists>i vs. out = inputs @ i # vs \<and> input_for h pol root d i \<and>
         list_all2 (input_for h pol root) ds vs \<and>
         fresh_keys relative_key seen (i # vs) \<and> fresh_keys (file_key h) canonical (i # vs))"
    unfolding load_inputs_Cons Cons.IH
    by (auto simp: input_for_def relative_key_def[symmetric] file_key_def[symmetric])
  then show ?case by (auto simp: list_all2_Cons1)
qed auto

text \<open>The order of the entries does not matter, up to the order of the inputs.\<close>

lemma input_for_list_functional:
  "list_all2 (input_for h pol root) ds vs \<Longrightarrow>
   \<exists>f. vs = map f ds \<and> (\<forall>d \<in> set ds. input_for h pol root d (f d))"
proof -
  assume l: "list_all2 (input_for h pol root) ds vs"
  let ?f = "\<lambda>d. THE i. input_for h pol root d i"
  have f: "input_for h pol root d i \<Longrightarrow> ?f d = i" for d i
    by (auto intro: input_for_unique)
  have "vs = map ?f ds \<and> (\<forall>d \<in> set ds. input_for h pol root d (?f d))"
    using l by (induction rule: list_all2_induct) (auto simp: f)
  then show ?thesis by blast
qed

lemma load_inputs_permuted:
  assumes "load_inputs h pol root {} {} [] ds = Inr vs" "mset ds = mset ds'"
  shows "\<exists>vs'. load_inputs h pol root {} {} [] ds' = Inr vs' \<and> mset vs' = mset vs"
proof -
  have vs: "list_all2 (input_for h pol root) ds vs"
    and fresh: "fresh_keys relative_key {} vs" "fresh_keys (file_key h) {} vs"
    using assms(1) by (auto simp: load_inputs_Inr)
  then obtain f where f: "vs = map f ds" "\<forall>d \<in> set ds. input_for h pol root d (f d)"
    using input_for_list_functional by blast
  have same: "mset (map f ds') = mset vs" using f(1) assms(2) by simp
  then have keys: "mset (map k (map f ds')) = mset (map k vs)" for k :: "verified_fixture_input \<Rightarrow> string"
    by (simp only: mset_map[of k] same)
  have "fresh_keys k {} (map f ds') = fresh_keys k {} vs" for k :: "verified_fixture_input \<Rightarrow> string"
    using mset_eq_imp_distinct_iff[OF keys[of k]] by (simp add: fresh_keys_def)
  moreover have "list_all2 (input_for h pol root) ds' (map f ds')"
    using f(2) mset_eq_setD[OF assms(2)] by (simp add: list_all2_conv_all_nth)
  ultimately have "load_inputs h pol root {} {} [] ds' = Inr (map f ds')"
    using fresh by (simp add: load_inputs_Inr)
  with same show ?thesis by blast
qed

lemma input_order_inj:
  "fresh_keys relative_key {} vs \<Longrightarrow> inj_on input_order (set vs)"
  unfolding inj_on_def fresh_keys_def distinct_map relative_key_def input_order_def by auto

lemma sorted_inputs_permuted:
  assumes "fresh_keys relative_key {} vs" "mset vs' = mset vs"
  shows "sort_key input_order vs' = sort_key input_order vs"
proof (rule sort_key_inj_key_eq)
  show "mset vs' = mset (sort_key input_order vs)" using assms(2) by simp
  show "inj_on input_order (set vs')"
    using input_order_inj[OF assms(1)] mset_eq_setD[OF assms(2)] by simp
qed simp


definition outputs_below :: "path \<Rightarrow> path \<Rightarrow> bool" where
  "outputs_below root p \<longleftrightarrow>
     (\<exists>cs. p = root @ map Normal cs \<and> cs \<noteq> [] \<and> list_all plain_component cs)"

definition verified_manifest_ok ::
  "file_host \<Rightarrow> path_policy \<Rightarrow> verified_fixture_manifest \<Rightarrow> bool" where
  "verified_manifest_ok h pol f \<longleftrightarrow>
     contained pol (vm_manifest_path f) \<and> parent (vm_manifest_path f) = Some (vm_fixture_root f) \<and>
     vm_fixture_id f \<noteq> [] \<and> length (vm_fixture_id f) \<le> MAX_FIXTURE_ID_BYTES \<and>
     contained pol (vm_dme_path f) \<and> outputs_below (vm_fixture_root f) (vm_dmb_path f) \<and>
     (\<forall>rsc. vm_rsc_path f = Some rsc \<longrightarrow> outputs_below (vm_fixture_root f) rsc) \<and>
     vm_inputs f \<noteq> [] \<and> length (vm_inputs f) \<le> MAX_INPUTS \<and>
     sorted (map input_order (vm_inputs f)) \<and>
     list_all (verified_input_ok h pol (vm_fixture_root f)) (vm_inputs f) \<and>
     distinct (map relative_key (vm_inputs f)) \<and> distinct (map (file_key h) (vm_inputs f)) \<and>
     length (vm_required_procs f) \<le> MAX_REQUIRED_PROCS \<and>
     list_all required_proc_ok (vm_required_procs f) \<and>
     length (vm_required_tokens f) \<le> MAX_REQUIRED_TOKENS \<and>
     list_all token_ok (vm_required_tokens f)"

lemma resolve_output_Inr:
  "resolve_output root p = Inr q \<longleftrightarrow> relative_ok p \<and> q = join_relative root p"
  by (auto simp: resolve_output_def result_Inr validate_relative_path_Inr)

lemma outputs_below_join: "relative_ok p \<Longrightarrow> outputs_below root (join_relative root p)"
  by (auto simp: outputs_below_def join_relative_def relative_ok_def)

lemma resolve_existing_contained: "resolve_existing h pol root p = Inr q \<Longrightarrow> contained pol q"
  by (auto simp: resolve_existing_def input_steps_Inr Let_def reading.decide_iff)

lemma read_manifest_Inr:
  "read_manifest h codec pol p = Inr (m, d) \<Longrightarrow> contained pol m \<and> validate_document d = Inr ()"
  by (auto simp: read_manifest_def input_steps_Inr reading.decide_iff)

lemma verify_fixture_Inr:
  "verify_fixture h codec pol m root d = Inr f \<longleftrightarrow>
     (\<exists>dme dmb rsc inputs identity.
        resolve_existing h pol root (fm_dme_path d) = Inr dme \<and>
        resolve_output root (fm_dmb_path d) = Inr dmb \<and>
        (case fm_rsc_path d of None \<Rightarrow> rsc = None
         | Some p \<Rightarrow> \<exists>q. resolve_output root p = Inr q \<and> rsc = Some q) \<and>
        load_inputs h pol root {} {} [] (fm_inputs d) = Inr inputs \<and>
        manifest_identity h codec d (sort_key input_order inputs) = Inr identity \<and>
        f = \<lparr>vm_manifest_path = m, vm_fixture_root = root, vm_fixture_id = fm_fixture_id d,
             vm_dme_path = dme, vm_dmb_path = dmb, vm_rsc_path = rsc,
             vm_inputs = sort_key input_order inputs, vm_required_procs = fm_required_procs d,
             vm_required_tokens = fm_required_tokens d, vm_identity_sha256 = identity\<rparr>)"
  by (cases "fm_rsc_path d") (auto simp: verify_fixture_def rbind_Inr Let_def)

lemma loaded_inputs_ok:
  assumes "load_inputs h pol root {} {} [] ds = Inr vs"
  shows "length vs = length ds \<and> list_all (verified_input_ok h pol root) (sort_key input_order vs) \<and>
    distinct (map relative_key (sort_key input_order vs)) \<and>
    distinct (map (file_key h) (sort_key input_order vs))"
proof -
  have vs: "list_all2 (input_for h pol root) ds vs" "distinct (map relative_key vs)"
    "distinct (map (file_key h) vs)"
    using assms by (auto simp: load_inputs_Inr fresh_keys_def)
  have "mset (map k (sort_key input_order vs)) = mset (map k vs)"
    for k :: "verified_fixture_input \<Rightarrow> string" by simp
  from mset_eq_imp_distinct_iff[OF this] have
    "distinct (map k (sort_key input_order vs)) = distinct (map k vs)"
    for k :: "verified_fixture_input \<Rightarrow> string" .
  moreover have "verified_input_ok h pol root v" if "v \<in> set vs" for v
    using vs(1) that by (auto simp: list_all2_conv_all_nth in_set_conv_nth input_for_def)
  ultimately show ?thesis
    using vs list_all2_lengthD[OF vs(1)] by (simp add: list_all_iff)
qed

text \<open>
  C20. What \<open>FixtureManifest::load\<close> returns is a well-formed verified manifest: the manifest and
  the environment lie inside the policy's roots, the outputs below the manifest's directory;
  there are between 1 and 10,000 inputs, in the order of role and path, no two of them equal up
  to the case of their relative paths or of their canonical paths, each a regular file reached
  by a plain relative path, contained, with the size and the digest of what is on disk; the
  required procedures and tokens satisfy their bounds.
\<close>

theorem fixture_load_well_formed:
  assumes "fixture_load h codec pol p = Some (Inr f)"
  shows "verified_manifest_ok h pol f"
proof -
  obtain m root d where read: "read_manifest h codec pol p = Inr (m, d)"
    and root: "parent m = Some root"
    and verified: "verify_fixture h codec pol m root d = Inr f"
    using assms by (auto simp: fixture_load_def split: sum.splits prod.splits option.splits)
  note document = read_manifest_Inr[OF read, unfolded validate_document_Inr]
  obtain dme dmb rsc inputs identity where dme: "resolve_existing h pol root (fm_dme_path d) = Inr dme"
    and dmb: "resolve_output root (fm_dmb_path d) = Inr dmb"
    and rsc: "case fm_rsc_path d of None \<Rightarrow> rsc = None
      | Some p \<Rightarrow> \<exists>q. resolve_output root p = Inr q \<and> rsc = Some q"
    and inputs: "load_inputs h pol root {} {} [] (fm_inputs d) = Inr inputs"
    and f: "f = \<lparr>vm_manifest_path = m, vm_fixture_root = root, vm_fixture_id = fm_fixture_id d,
             vm_dme_path = dme, vm_dmb_path = dmb, vm_rsc_path = rsc,
             vm_inputs = sort_key input_order inputs, vm_required_procs = fm_required_procs d,
             vm_required_tokens = fm_required_tokens d, vm_identity_sha256 = identity\<rparr>"
    using verified unfolding verify_fixture_Inr by blast
  have "outputs_below root dmb" "\<forall>q. rsc = Some q \<longrightarrow> outputs_below root q" "contained pol dme"
    using dmb rsc resolve_existing_contained[OF dme]
    by (auto simp: resolve_output_Inr outputs_below_join split: option.splits)
  moreover have "inputs \<noteq> []" "length inputs \<le> MAX_INPUTS"
    using loaded_inputs_ok[OF inputs] document by auto
  moreover from this(1) have "sort_key input_order inputs \<noteq> []"
    by (metis length_0_conv length_sort)
  ultimately show ?thesis
    using loaded_inputs_ok[OF inputs] root document
    by (simp add: verified_manifest_ok_def f)
qed

text \<open>
  The verified manifest, its identity digest included, does not depend on the order of the
  document's inputs, and neither does whether the inputs are accepted.
\<close>

lemma fixture_inputs_order_independent:
  assumes "mset ds = mset (fm_inputs d)"
  shows "verify_fixture h codec pol m root (d\<lparr>fm_inputs := ds\<rparr>) = Inr f \<longleftrightarrow>
    verify_fixture h codec pol m root d = Inr f"
proof -
  have identity: "manifest_identity h codec (d\<lparr>fm_inputs := x\<rparr>) = manifest_identity h codec d" for x
    by (simp add: manifest_identity_def fun_eq_iff)
  have transfer: "verify_fixture h codec pol m root (d\<lparr>fm_inputs := b\<rparr>) = Inr f"
    if old: "verify_fixture h codec pol m root (d\<lparr>fm_inputs := a\<rparr>) = Inr f" and eq: "mset a = mset b"
    for a b
  proof -
    obtain inputs where inputs: "load_inputs h pol root {} {} [] a = Inr inputs"
      using old by (auto simp: verify_fixture_Inr)
    then obtain inputs' where inputs': "load_inputs h pol root {} {} [] b = Inr inputs'"
      "mset inputs' = mset inputs" using load_inputs_permuted eq by blast
    have "sort_key input_order inputs' = sort_key input_order inputs"
      using inputs inputs'(2) by (intro sorted_inputs_permuted) (auto simp: load_inputs_Inr)
    with old inputs inputs'(1) show ?thesis by (simp add: verify_fixture_Inr identity)
  qed
  show ?thesis
    using transfer[of ds "fm_inputs d"] transfer[of "fm_inputs d" ds] assms by (auto simp: identity)
qed


section \<open>A concrete manifest\<close>

definition fx_document :: fixture_manifest_document where
  "fx_document =
     \<lparr>fm_schema = 1, fm_fixture_id = ''f'', fm_dme_path = ''a.dme'', fm_dmb_path = ''out/a.dmb'',
      fm_rsc_path = None,
      fm_inputs = [\<lparr>fd_path = ''a.dme'', fd_role = SourceInput\<rparr>,
                   \<lparr>fd_path = ''n.so'', fd_role = NativeModule\<rparr>],
      fm_required_procs = [\<lparr>rp_path = ''/proc/x'', rp_arguments = [''a1'']\<rparr>],
      fm_required_tokens = [''t'']\<rparr>"

definition fx_path :: "string \<Rightarrow> path" where
  "fx_path s = [RootDir, Normal ''w'', Normal s]"

definition fx_host :: file_host where
  "fx_host =
     \<lparr>fh_fs = \<lparr>fs_canonicalize = (\<lambda>p. Inr p), fs_exists = (\<lambda>p. True),
               fs_symlink_metadata = (\<lambda>p. Inr RegularFile),
               fs_display = (\<lambda>p. case last p of Normal s \<Rightarrow> s | _ \<Rightarrow> []), fs_from_str = (\<lambda>s. [Normal s])\<rparr>,
      fh_len = (\<lambda>p. 1), fh_metadata = (\<lambda>p. Inl ''absent''), fh_read = (\<lambda>p. Inr ''1''),
      fh_sha256 = (\<lambda>s. s)\<rparr>"

definition fx_codec :: fixture_codec where
  "fx_codec = \<lparr>fc_from_reader = (\<lambda>_. Inr fx_document), fc_to_vec = (\<lambda>_. Inr ''j'')\<rparr>"

definition fx_policy :: path_policy where
  "fx_policy = \<lparr>pp_roots = [[RootDir, Normal ''w'']], pp_effective_roots = [], pp_executables = []\<rparr>"

definition fx_manifest :: verified_fixture_manifest where
  "fx_manifest =
     \<lparr>vm_manifest_path = fx_path ''m.json'', vm_fixture_root = [RootDir, Normal ''w''],
      vm_fixture_id = ''f'', vm_dme_path = fx_path ''a.dme'',
      vm_dmb_path = [RootDir, Normal ''w'', Normal ''out'', Normal ''a.dmb''], vm_rsc_path = None,
      vm_inputs =
        [\<lparr>vi_relative_path = ''n.so'', vi_canonical_path = fx_path ''n.so'', vi_role = NativeModule,
          vi_size = 1, vi_sha256 = ''1''\<rparr>,
         \<lparr>vi_relative_path = ''a.dme'', vi_canonical_path = fx_path ''a.dme'', vi_role = SourceInput,
          vi_size = 1, vi_sha256 = ''1''\<rparr>],
      vm_required_procs = fm_required_procs fx_document,
      vm_required_tokens = fm_required_tokens fx_document, vm_identity_sha256 = ''j''\<rparr>"

lemma fx_loads: "fixture_load fx_host fx_codec fx_policy (fx_path ''m.json'') = Some (Inr fx_manifest)"
  by code_simp

theorem fixture_load_well_formed_witness: "verified_manifest_ok fx_host fx_policy fx_manifest"
  by (rule fixture_load_well_formed[OF fx_loads])

lemma fixture_inputs_order_independent_witness:
  "verify_fixture fx_host fx_codec fx_policy (fx_path ''m.json'') [RootDir, Normal ''w'']
     (fx_document\<lparr>fm_inputs := rev (fm_inputs fx_document)\<rparr>) = Inr fx_manifest"
proof -
  have "verify_fixture fx_host fx_codec fx_policy (fx_path ''m.json'') [RootDir, Normal ''w''] fx_document
      = Inr fx_manifest" by code_simp
  then show ?thesis by (simp add: fixture_inputs_order_independent)
qed

end
