(* ===== verification/Source_Fingerprint.thy ===== *)
theory Source_Fingerprint
  imports Paths
begin

text \<open>
  Metadata fingerprints of the files behind an analysis snapshot, from
  \<open>src/source_fingerprint.rs\<close>.  Times are nanoseconds since the epoch; \<open>checked_sub\<close> on a
  \<open>SystemTime\<close> fails below the epoch's representable range, which the natural numbers cut at
  zero.  What the operating system answers for a path is a record of functions.
\<close>

section \<open>Data\<close>

datatype io_error = IoNotFound | IoOther string

record file_metadata =
  fm_len :: u64
  fm_modified :: "nat option"
  fm_is_file :: bool

record stat_host =
  sh_metadata :: "path \<Rightarrow> io_error + file_metadata"
  sh_symlink_metadata_ok :: "path \<Rightarrow> bool"
  sh_canonicalize :: "path \<Rightarrow> path option"

record fingerprint_entry =
  fe_path :: path
  fe_resolved :: path
  fe_len :: u64
  fe_modified :: nat

record source_fingerprint =
  sf_entries :: "fingerprint_entry list"
  sf_discovery_paths :: "path list"
  sf_reusable :: bool

definition MTIME_SETTLE_WINDOW :: nat where
  "MTIME_SETTLE_WINDOW = 2 * 1000000000"

definition checked_sub_time :: "nat \<Rightarrow> nat \<Rightarrow> nat option" where
  "checked_sub_time t d = (if d \<le> t then Some (t - d) else None)"

section \<open>Capture\<close>

text \<open>
  One iteration of the capture loop for a path: the entry it pushes, if any, and whether the
  fingerprint stays reusable.
\<close>

definition capture_one :: "stat_host \<Rightarrow> nat \<Rightarrow> path \<Rightarrow> bool \<Rightarrow> fingerprint_entry option \<times> bool" where
  "capture_one h settled_before p optional =
     (case sh_metadata h p of
        Inl e \<Rightarrow> (None, \<not> (\<not> optional \<or> e \<noteq> IoNotFound \<or> sh_symlink_metadata_ok h p))
      | Inr m \<Rightarrow>
          (case sh_canonicalize h p of None \<Rightarrow> (None, False)
           | Some resolved \<Rightarrow>
               (case fm_modified m of None \<Rightarrow> (None, False)
                | Some modified \<Rightarrow>
                    (Some \<lparr>fe_path = p, fe_resolved = resolved, fe_len = fm_len m,
                           fe_modified = modified\<rparr>,
                     \<not> (modified \<ge> settled_before \<or> \<not> fm_is_file m)))))"

fun capture_all ::
    "stat_host \<Rightarrow> nat \<Rightarrow> (path \<times> bool) list \<Rightarrow> fingerprint_entry list \<Rightarrow> bool
     \<Rightarrow> fingerprint_entry list \<times> bool" where
  "capture_all h settled_before [] entries reusable = (entries, reusable)"
| "capture_all h settled_before ((p, optional) # ps) entries reusable =
     (case capture_one h settled_before p optional of (entry, keep) \<Rightarrow>
        capture_all h settled_before ps
          (case entry of None \<Rightarrow> entries | Some e \<Rightarrow> entries @ [e]) (reusable \<and> keep))"

definition capture_with_discovery ::
    "stat_host \<Rightarrow> path list \<Rightarrow> path list \<Rightarrow> nat \<Rightarrow> source_fingerprint" where
  "capture_with_discovery h inputs discovery_paths observed_at =
     (let settled_before = (case checked_sub_time observed_at MTIME_SETTLE_WINDOW of
                              Some t \<Rightarrow> t | None \<Rightarrow> observed_at);
          (entries, reusable) = capture_all h settled_before
             (map (\<lambda>p. (p, False)) inputs @ map (\<lambda>p. (p, True)) discovery_paths) [] True
      in \<lparr>sf_entries = sort_key fe_path entries, sf_discovery_paths = discovery_paths,
          sf_reusable = reusable\<rparr>)"

definition capture :: "stat_host \<Rightarrow> path list \<Rightarrow> nat \<Rightarrow> source_fingerprint" where
  "capture h inputs observed_at = capture_with_discovery h inputs [] observed_at"

definition fingerprint_matches :: "source_fingerprint \<Rightarrow> source_fingerprint \<Rightarrow> bool" where
  "fingerprint_matches f g \<longleftrightarrow> sf_reusable f \<and> sf_reusable g \<and> sf_entries f = sf_entries g
     \<and> sf_discovery_paths f = sf_discovery_paths g"

definition is_reusable :: "source_fingerprint \<Rightarrow> bool" where
  "is_reusable f = sf_reusable f"

definition fingerprint_len :: "source_fingerprint \<Rightarrow> nat" where
  "fingerprint_len f = length (sf_entries f)"

definition fingerprint_is_empty :: "source_fingerprint \<Rightarrow> bool" where
  "fingerprint_is_empty f = (sf_entries f = [])"

definition fingerprint_paths :: "source_fingerprint \<Rightarrow> path list" where
  "fingerprint_paths f = map fe_path (sf_entries f)"

section \<open>What a reusable fingerprint says\<close>

text \<open>The observation of one path: its entry, or its absence.\<close>

definition observed_entry :: "stat_host \<Rightarrow> path \<Rightarrow> fingerprint_entry option" where
  "observed_entry h p =
     (case sh_metadata h p of Inl _ \<Rightarrow> None
      | Inr m \<Rightarrow> (case sh_canonicalize h p of None \<Rightarrow> None
          | Some resolved \<Rightarrow> map_option (\<lambda>t. \<lparr>fe_path = p, fe_resolved = resolved,
                fe_len = fm_len m, fe_modified = t\<rparr>) (fm_modified m)))"

definition settled :: "stat_host \<Rightarrow> nat \<Rightarrow> path \<Rightarrow> bool" where
  "settled h before p \<longleftrightarrow>
     (\<exists>m t. sh_metadata h p = Inr m \<and> fm_is_file m \<and> fm_modified m = Some t \<and> t < before
        \<and> sh_canonicalize h p \<noteq> None)"

definition absent :: "stat_host \<Rightarrow> path \<Rightarrow> bool" where
  "absent h p \<longleftrightarrow> sh_metadata h p = Inl IoNotFound \<and> \<not> sh_symlink_metadata_ok h p"

lemma capture_one_entry: "fst (capture_one h b p optional) = observed_entry h p"
  by (simp add: capture_one_def observed_entry_def split: sum.split option.split)

lemma capture_one_keep:
  "snd (capture_one h b p optional) \<longleftrightarrow> settled h b p \<or> (optional \<and> absent h p)"
  by (auto simp: capture_one_def settled_def absent_def split: sum.split option.split)

lemma capture_all_eq:
  "capture_all h b ps entries reusable =
     (entries @ List.map_filter (\<lambda>(p, _). observed_entry h p) ps,
      reusable \<and> (\<forall>(p, optional) \<in> set ps. settled h b p \<or> (optional \<and> absent h p)))"
proof (induction ps arbitrary: entries reusable)
  case (Cons q ps)
  obtain p optional where q: "q = (p, optional)" by fastforce
  obtain e k where ek: "capture_one h b p optional = (e, k)" by fastforce
  then have "e = observed_entry h p" "k \<longleftrightarrow> settled h b p \<or> (optional \<and> absent h p)"
    using capture_one_entry[of h b p optional] capture_one_keep[of h b p optional] by simp_all
  with q ek show ?case
    by (auto simp: Cons.IH map_filter_simps split: option.split)
qed (simp add: map_filter_simps)

definition settle_limit :: "nat \<Rightarrow> nat" where
  "settle_limit t = (if MTIME_SETTLE_WINDOW \<le> t then t - MTIME_SETTLE_WINDOW else t)"

lemma capture_fields:
  "sf_entries (capture_with_discovery h inputs disc t)
     = sort_key fe_path (List.map_filter (observed_entry h) (inputs @ disc))"
  "sf_discovery_paths (capture_with_discovery h inputs disc t) = disc"
  "sf_reusable (capture_with_discovery h inputs disc t) \<longleftrightarrow>
     (\<forall>p \<in> set inputs. settled h (settle_limit t) p) \<and>
     (\<forall>p \<in> set disc. settled h (settle_limit t) p \<or> absent h p)"
proof -
  have "List.map_filter (\<lambda>(p, _). observed_entry h p) (map (\<lambda>p. (p, b)) ps)
      = List.map_filter (observed_entry h) ps" for b :: bool and ps
    by (induction ps) (auto simp: map_filter_simps split: option.split)
  then have f: "List.map_filter (\<lambda>(p, _). observed_entry h p)
        (map (\<lambda>p. (p, False)) inputs @ map (\<lambda>p. (p, True)) disc)
      = List.map_filter (observed_entry h) (inputs @ disc)"
    by (simp add: List.map_filter_def)
  show "sf_entries (capture_with_discovery h inputs disc t)
     = sort_key fe_path (List.map_filter (observed_entry h) (inputs @ disc))"
    by (simp add: capture_with_discovery_def capture_all_eq Let_def f)
  show "sf_discovery_paths (capture_with_discovery h inputs disc t) = disc"
    by (simp add: capture_with_discovery_def capture_all_eq Let_def)
  show "sf_reusable (capture_with_discovery h inputs disc t) \<longleftrightarrow>
     (\<forall>p \<in> set inputs. settled h (settle_limit t) p) \<and>
     (\<forall>p \<in> set disc. settled h (settle_limit t) p \<or> absent h p)"
    by (auto simp: capture_with_discovery_def capture_all_eq Let_def settle_limit_def
        checked_sub_time_def)
qed

lemma observed_path: "observed_entry h p = Some e \<Longrightarrow> fe_path e = p"
  by (auto simp: observed_entry_def split: sum.splits option.splits)

lemma settled_observed: "settled h b p \<Longrightarrow> observed_entry h p \<noteq> None"
  by (auto simp: settled_def observed_entry_def)

lemma absent_observed: "absent h p \<Longrightarrow> observed_entry h p = None"
  by (simp add: absent_def observed_entry_def)

lemma map_filter_set: "e \<in> set (List.map_filter f xs) \<longleftrightarrow> (\<exists>x \<in> set xs. f x = Some e)"
  by (induction xs) (auto simp: map_filter_simps split: option.splits)

lemma map_filter_cong: "(\<And>x. x \<in> set xs \<Longrightarrow> f x = g x) \<Longrightarrow> List.map_filter f xs = List.map_filter g xs"
  by (induction xs) (auto simp: map_filter_simps split: option.splits)

section \<open>Property\<close>

text \<open>
  Reuse is exact: fingerprints of the same inputs taken at two moments match iff every
  input is at both moments a regular file whose modification time lies before the settle
  window of its capture, every discovery candidate is such a file or absent both times, and
  every path resolved to the same file with the same length and modification time.
\<close>

lemma fingerprint_match_exact:
  "fingerprint_matches (capture_with_discovery h inputs disc t) (capture_with_discovery h' inputs disc t')
   \<longleftrightarrow>
   (\<forall>p \<in> set inputs. settled h (settle_limit t) p \<and> settled h' (settle_limit t') p) \<and>
   (\<forall>p \<in> set disc. (settled h (settle_limit t) p \<or> absent h p) \<and>
                     (settled h' (settle_limit t') p \<or> absent h' p)) \<and>
   (\<forall>p \<in> set inputs \<union> set disc. observed_entry h p = observed_entry h' p)"
proof -
  let ?e = "\<lambda>h. List.map_filter (observed_entry h) (inputs @ disc)"
  have sub: "observed_entry k p = Some e"
    if "sort_key fe_path (?e h) = sort_key fe_path (?e k)" "p \<in> set (inputs @ disc)"
      "observed_entry h p = Some e" for h k p e
  proof -
    have "e \<in> set (?e h)" using that(2,3) unfolding map_filter_set by blast
    then have "e \<in> set (?e k)" using that(1) by (metis set_sort)
    then obtain q where "observed_entry k q = Some e" unfolding map_filter_set by blast
    with observed_path[OF this] observed_path[OF that(3)] show ?thesis by simp
  qed
  have "observed_entry h p = observed_entry h' p"
    if "sort_key fe_path (?e h) = sort_key fe_path (?e h')" "p \<in> set (inputs @ disc)" for p
    using sub[OF that(1,2)] sub[OF that(1)[symmetric] that(2)]
    by (cases "observed_entry h p"; cases "observed_entry h' p") fastforce+
  moreover have "?e h = ?e h'" if "\<forall>p \<in> set inputs \<union> set disc. observed_entry h p = observed_entry h' p"
    using that by (intro map_filter_cong) auto
  ultimately show ?thesis
    by (auto simp: fingerprint_matches_def capture_fields)
qed

text \<open>One settled file, an absent candidate, and a second host on which the file was touched.\<close>

definition demo_stat :: "nat \<Rightarrow> stat_host" where
  "demo_stat modified = \<lparr>sh_metadata = (\<lambda>p. if p = [Normal ''c''] then Inl IoNotFound
       else Inr \<lparr>fm_len = 3, fm_modified = Some modified, fm_is_file = True\<rparr>),
     sh_symlink_metadata_ok = (\<lambda>_. False), sh_canonicalize = Some\<rparr>"

lemma fingerprint_match_exact_witness:
  "fingerprint_matches
     (capture_with_discovery (demo_stat 5) [[Normal ''a'']] [[Normal ''c'']] 3000000000)
     (capture_with_discovery (demo_stat 5) [[Normal ''a'']] [[Normal ''c'']] 9000000000)
   \<and> \<not> fingerprint_matches
     (capture_with_discovery (demo_stat 5) [[Normal ''a'']] [[Normal ''c'']] 3000000000)
     (capture_with_discovery (demo_stat 6) [[Normal ''a'']] [[Normal ''c'']] 9000000000)"
  unfolding fingerprint_match_exact
  by (simp add: demo_stat_def settled_def absent_def observed_entry_def settle_limit_def
      MTIME_SETTLE_WINDOW_def)

end
