(* ===== verification/Prepared_Build.thy ===== *)
theory Prepared_Build
  imports Build_Provenance Fixture_Manifest Source_Fingerprint
begin

text \<open>
  Evidence gathered before the compiler runs, \<open>PreparedBuild\<close> of \<open>src/build_provenance.rs\<close>: the
  files reached from the environment through literal includes are followed and identified, and
  anything that leaves the literal grammar is a reason not to claim verification.
\<close>

section \<open>Data\<close>

text \<open>What the capture uses of an analysis snapshot.\<close>

record analysis_view =
  av_environment_path :: path
  av_source_inputs :: "path list"
  av_source_fingerprint :: source_fingerprint

record prepared_build =
  pb_inputs :: "build_input_identity list"
  pb_compiler :: file_identity
  pb_verification :: build_verification
  pb_reason :: "string option"

text \<open>The stack of pending files has its top at the head.\<close>

record closure_state =
  cs_inputs :: "build_input_identity list"
  cs_reason :: "string option"
  cs_pending :: "path list"
  cs_visited :: "path list"

definition VISITED_LIMIT :: nat where
  "VISITED_LIMIT = 10000"

section \<open>The literal grammar of a line\<close>

definition define_name_char :: "nat \<Rightarrow> char \<Rightarrow> bool" where
  "define_name_char index c \<longleftrightarrow>
     c = CHR ''_'' \<or> 65 \<le> (of_char c :: nat) \<and> (of_char c :: nat) \<le> 90 \<or>
     97 \<le> (of_char c :: nat) \<and> (of_char c :: nat) \<le> 122 \<or> (0 < index \<and> is_digit c)"

definition literal_define :: "string \<Rightarrow> bool" where
  "literal_define line \<longleftrightarrow>
     (case strip_prefix ''#define '' line of None \<Rightarrow> False
      | Some body \<Rightarrow>
          (case split_whitespace body of
             [name, digits] \<Rightarrow>
               list_all (\<lambda>(index, c). define_name_char index c) (enumerate 0 name) \<and>
               digits \<noteq> [] \<and> list_all is_digit digits
           | _ \<Rightarrow> False))"

definition include_text :: "string \<Rightarrow> string option" where
  "include_text line =
     (case strip_prefix ''#include \"'' line of None \<Rightarrow> None
      | Some rest \<Rightarrow>
          (case strip_suffix_char (CHR 0x22) rest of None \<Rightarrow> None
           | Some s \<Rightarrow> if CHR 0x22 \<in> set s \<or> CHR 0x23 \<in> set s \<or> s = [] then None else Some s))"

text \<open>\<open>components\<close> of a joined path has no \<open>.\<close> of the joined part.\<close>

definition include_path :: "filesystem \<Rightarrow> path \<Rightarrow> path \<Rightarrow> string \<Rightarrow> path" where
  "include_path fs root p s =
     join (case parent p of Some d \<Rightarrow> d | None \<Rightarrow> root) (filter (\<lambda>c. c \<noteq> CurDir) (fs_from_str fs s))"

definition extension :: "path \<Rightarrow> string option" where
  "extension p =
     (case file_name p of None \<Rightarrow> None
      | Some s \<Rightarrow> if name_stem s = s then None else Some (drop (Suc (length (name_stem s))) s))"

definition dm_file :: "path \<Rightarrow> bool" where
  "dm_file p \<longleftrightarrow> extension p = Some ''dm'' \<or> extension p = Some ''dme''"

section \<open>Scanning one file\<close>

definition put_reason :: "string \<Rightarrow> closure_state \<Rightarrow> closure_state" where
  "put_reason r s = s\<lparr>cs_reason := Some r\<rparr>"

definition put_reason_if :: "bool \<Rightarrow> string \<Rightarrow> closure_state \<Rightarrow> closure_state" where
  "put_reason_if b r s = (if b then put_reason r s else s)"

text \<open>What a line inside a block comment, or opening one, must not contain.\<close>

definition comment_hides :: "string \<Rightarrow> bool" where
  "comment_hides body \<longleftrightarrow>
     CHR 0x23 \<in> set body \<or> CHR 0x22 \<in> set body \<or> is_substring ''/*'' body \<or>
     (case find_sub ''*/'' body of None \<Rightarrow> False | Some stop \<Rightarrow> trim (drop (stop + 2) body) \<noteq> [])"

definition scan_directive :: "filesystem \<Rightarrow> path \<Rightarrow> path \<Rightarrow> string \<Rightarrow> closure_state \<Rightarrow> closure_state" where
  "scan_directive fs root p line s =
     (if CHR 0x23 \<notin> set line then s
      else if literal_define line then s
      else case include_text line of
        None \<Rightarrow> put_reason ''preprocessor_closure_not_proved'' s
      | Some include \<Rightarrow>
          let included = include_path fs root p include in
          if \<not> dm_file included
          then put_reason ''compiler_map_skin_script_closure_not_proved'' s
          else s\<lparr>cs_pending := included # cs_pending s\<rparr>)"

fun scan_lines ::
  "filesystem \<Rightarrow> path \<Rightarrow> path \<Rightarrow> bool \<Rightarrow> string list \<Rightarrow> closure_state \<Rightarrow> bool \<times> closure_state" where
  "scan_lines fs root p block_comment [] s = (block_comment, s)"
| "scan_lines fs root p block_comment (raw # ls) s =
     (let line = trim raw in
      if block_comment \<or> prefix ''/*'' line then
        let body = (if block_comment then line else drop 2 line) in
        scan_lines fs root p (\<not> suffix ''*/'' body) ls
          (put_reason_if (comment_hides body) ''comment_lexical_closure_not_proved'' s)
      else if is_substring ''/*'' line \<or> is_substring ''*/'' line then
        scan_lines fs root p block_comment ls
          (put_reason ''comment_lexical_closure_not_proved'' s)
      else scan_lines fs root p block_comment ls (scan_directive fs root p line s))"

definition literal_text :: "string \<Rightarrow> bool" where
  "literal_text t \<longleftrightarrow>
     CHR 0x5C \<notin> set t \<and> CHR 0x27 \<notin> set t \<and> CHR 0x00 \<notin> set t \<and>
     list_all (\<lambda>c. (of_char c :: nat) < 128) t"

definition scan_text ::
  "filesystem \<Rightarrow> path \<Rightarrow> path \<Rightarrow> string \<Rightarrow> closure_state \<Rightarrow> closure_state" where
  "scan_text fs root p t s =
     (if \<not> literal_text t
      then put_reason ''compiler_resource_or_lexical_closure_not_proved'' s
      else case scan_lines fs root p False (str_lines t) s of
        (block_comment, s) \<Rightarrow>
          put_reason_if block_comment ''comment_lexical_closure_not_proved'' s)"

definition read_to_string :: "file_host \<Rightarrow> path \<Rightarrow> string option" where
  "read_to_string h p =
     (case fh_read h p of Inl _ \<Rightarrow> None | Inr b \<Rightarrow> if utf8_valid b then Some b else None)"

definition known_to_snapshot :: "analysis_view \<Rightarrow> path \<Rightarrow> build_input_identity \<Rightarrow> bool" where
  "known_to_snapshot snapshot p input \<longleftrightarrow>
     list_ex (\<lambda>item. item = p \<or> Some item = ii_resolved_path input) (av_source_inputs snapshot)"

text \<open>One file taken from the stack that was not visited before.\<close>

definition visit_file ::
  "file_host \<Rightarrow> path_policy \<Rightarrow> analysis_view option \<Rightarrow> path \<Rightarrow> path \<Rightarrow> closure_state \<Rightarrow> closure_state" where
  "visit_file h pol matching root p s =
     (case capture_authorized h pol root p ''source'' of
        Inl _ \<Rightarrow> put_reason ''build_input_unavailable'' s
      | Inr input \<Rightarrow>
          let s = put_reason_if
                (case matching of None \<Rightarrow> False | Some snapshot \<Rightarrow> \<not> known_to_snapshot snapshot p input)
                ''parser_closure_changed'' s;
              s = s\<lparr>cs_inputs := cs_inputs s @ [input]\<rparr>
          in (case read_to_string h p of
                None \<Rightarrow> put_reason ''source_encoding_not_proved'' s
              | Some t \<Rightarrow>
                  scan_text (fh_fs h) root p t
                    (put_reason_if (fh_sha256 h t \<noteq> ii_sha256 input) ''build_inputs_changed'' s)))"

lemma put_reason_simps [simp]:
  "cs_inputs (put_reason r s) = cs_inputs s" "cs_pending (put_reason r s) = cs_pending s"
  "cs_visited (put_reason r s) = cs_visited s" "cs_reason (put_reason r s) = Some r"
  "cs_inputs (put_reason_if b r s) = cs_inputs s" "cs_pending (put_reason_if b r s) = cs_pending s"
  "cs_visited (put_reason_if b r s) = cs_visited s"
  "cs_reason (put_reason_if b r s) = (if b then Some r else cs_reason s)"
  by (simp_all add: put_reason_def put_reason_if_def)

lemma scan_directive_visited [simp]: "cs_visited (scan_directive fs root p l s) = cs_visited s"
  by (simp add: scan_directive_def Let_def split: option.split)

lemma scan_lines_visited [simp]: "cs_visited (snd (scan_lines fs root p b ls s)) = cs_visited s"
  by (induction fs root p b ls s rule: scan_lines.induct) (simp_all add: Let_def)

lemma scan_text_visited [simp]: "cs_visited (scan_text fs root p t s) = cs_visited s"
  by (simp add: scan_text_def case_prod_unfold)

lemma visit_file_visited [simp]: "cs_visited (visit_file h pol m root p s) = cs_visited s"
  by (simp add: visit_file_def Let_def split: sum.split option.split)

section \<open>Following the includes\<close>

lemma length_insort_insert_new: "p \<notin> set xs \<Longrightarrow> length (insort_insert p xs) = Suc (length xs)"
  by (simp add: insort_insert_key_def)

function follow_includes ::
  "file_host \<Rightarrow> path_policy \<Rightarrow> analysis_view option \<Rightarrow> path \<Rightarrow> closure_state \<Rightarrow> closure_state" where
  "follow_includes h pol matching root s =
     (case cs_pending s of [] \<Rightarrow> s
      | p # rest \<Rightarrow>
          if VISITED_LIMIT \<le> length (cs_visited s)
          then put_reason ''build_input_limit'' (s\<lparr>cs_pending := rest\<rparr>)
          else if p \<in> set (cs_visited s)
          then follow_includes h pol matching root (s\<lparr>cs_pending := rest\<rparr>)
          else follow_includes h pol matching root
            (visit_file h pol matching root p
              (s\<lparr>cs_pending := rest, cs_visited := insort_insert p (cs_visited s)\<rparr>)))"
  by pat_completeness auto

termination
  by (relation "measures [\<lambda>(h, pol, m, root, s). VISITED_LIMIT - length (cs_visited s),
      \<lambda>(h, pol, m, root, s). length (cs_pending s)]")
    (auto simp: length_insort_insert_new)

declare follow_includes.simps [simp del]


section \<open>Capture and finish\<close>

definition evidence_of :: "verified_fixture_manifest \<Rightarrow> (path \<times> string) list" where
  "evidence_of f =
     (vm_manifest_path f, ''fixture_manifest'')
     # map (\<lambda>i. (vi_canonical_path i, role_str (vi_role i))) (vm_inputs f)"

text \<open>One more input with a role of its own, or the reason that it is not available.\<close>

definition add_input ::
  "file_host \<Rightarrow> path_policy \<Rightarrow> path \<Rightarrow> path \<Rightarrow> string \<Rightarrow> prepared_build \<Rightarrow> prepared_build" where
  "add_input h pol root p role b =
     (case capture_authorized h pol root p role of
        Inr input \<Rightarrow> b\<lparr>pb_inputs := pb_inputs b @ [input]\<rparr>
      | Inl _ \<Rightarrow> b\<lparr>pb_reason := Some ''build_input_unavailable''\<rparr>)"

definition add_source_input ::
  "file_host \<Rightarrow> path_policy \<Rightarrow> path \<Rightarrow> path \<Rightarrow> prepared_build \<Rightarrow> prepared_build" where
  "add_source_input h pol root p b =
     (if list_ex (\<lambda>input. ii_path input = p) (pb_inputs b) then b
      else add_input h pol root p ''analysis_input'' b)"

text \<open>\<open>not_found\<close> says which errors of \<open>symlink_metadata\<close> are \<open>ErrorKind::NotFound\<close>.\<close>

definition add_discovery ::
  "file_host \<Rightarrow> (string \<Rightarrow> bool) \<Rightarrow> path_policy \<Rightarrow> path \<Rightarrow> path \<Rightarrow> prepared_build \<Rightarrow> prepared_build" where
  "add_discovery h not_found pol root p b =
     (case fs_symlink_metadata (fh_fs h) p of
        Inl e \<Rightarrow>
          if not_found e
          then b\<lparr>pb_verification := (pb_verification b)
                   \<lparr>bv_absent_inputs := bv_absent_inputs (pb_verification b) @ [p]\<rparr>\<rparr>
          else b\<lparr>pb_reason := Some ''build_input_unavailable''\<rparr>
      | Inr _ \<Rightarrow> add_input h pol root p ''configuration'' b)"

definition prepare_inputs ::
  "file_host \<Rightarrow> (string \<Rightarrow> bool) \<Rightarrow> path_policy \<Rightarrow> path \<Rightarrow> analysis_view option
   \<Rightarrow> verified_fixture_manifest option \<Rightarrow> prepared_build \<Rightarrow> prepared_build" where
  "prepare_inputs h not_found pol root matching fixture b =
     (let b = (case matching of None \<Rightarrow> b
               | Some snapshot \<Rightarrow>
                   fold (add_discovery h not_found pol root)
                     (sf_discovery_paths (av_source_fingerprint snapshot))
                     (fold (add_source_input h pol root) (av_source_inputs snapshot) b))
      in case fixture of None \<Rightarrow> b
         | Some f \<Rightarrow> fold (\<lambda>(p, role). add_input h pol root p role) (evidence_of f) b)"

definition initial_reason :: "analysis_view option \<Rightarrow> string list \<Rightarrow> string option" where
  "initial_reason matching arguments =
     (if length arguments \<noteq> 1 then Some ''effective_defines_not_proved''
      else if matching = None then Some ''matching_snapshot_required'' else None)"

definition prepared_capture ::
  "file_host \<Rightarrow> (string \<Rightarrow> bool) \<Rightarrow> path_policy \<Rightarrow> analysis_view option
   \<Rightarrow> verified_fixture_manifest option \<Rightarrow> path \<Rightarrow> path \<Rightarrow> string list \<Rightarrow> path
   \<Rightarrow> provenance_error + prepared_build" where
  "prepared_capture h not_found pol snapshot fixture dme compiler arguments working_directory =
     rbind (map_err FileProblem (capture_file_identity h compiler)) (\<lambda>compiler.
     rbind (or_err NoParentDirectory (parent dme)) (\<lambda>root.
       let matching = (case snapshot of None \<Rightarrow> None
                       | Some s \<Rightarrow> if av_environment_path s = dme then Some s else None);
           closure = follow_includes h pol matching root
             \<lparr>cs_inputs = [], cs_reason = initial_reason matching arguments, cs_pending = [dme],
              cs_visited = []\<rparr>
       in Inr (prepare_inputs h not_found pol root matching fixture
            \<lparr>pb_inputs = cs_inputs closure, pb_compiler = compiler,
             pb_verification =
               \<lparr>bv_method = ''literal_dm_closure_v1'', bv_arguments = arguments,
                bv_working_directory = working_directory, bv_absent_inputs = []\<rparr>,
             pb_reason = cs_reason closure\<rparr>)))"

definition finish_reason :: "file_host \<Rightarrow> prepared_build \<Rightarrow> string option" where
  "finish_reason h b =
     (if list_ex (\<lambda>input. \<not> input_unchanged h input) (pb_inputs b)
         \<or> list_ex (appeared h) (bv_absent_inputs (pb_verification b))
         \<or> \<not> same_output h (pb_compiler b)
      then Some ''build_inputs_changed'' else pb_reason b)"


section \<open>What a capture without a reason has proved\<close>

text \<open>A line that names nothing but a numeric macro or a DM file of \<open>Q\<close>.\<close>

definition literal_line :: "filesystem \<Rightarrow> path \<Rightarrow> path \<Rightarrow> path set \<Rightarrow> string \<Rightarrow> bool" where
  "literal_line fs root p Q line \<longleftrightarrow>
     (CHR 0x23 \<in> set line \<longrightarrow> literal_define line \<or>
       (\<exists>s. include_text line = Some s \<and> dm_file (include_path fs root p s) \<and>
            include_path fs root p s \<in> Q))"

lemma literal_line_mono: "literal_line fs root p Q l \<Longrightarrow> Q \<subseteq> Q' \<Longrightarrow> literal_line fs root p Q' l"
  by (auto simp: literal_line_def)

lemma scan_directive_None:
  "cs_reason (scan_directive fs root p l s) = None \<Longrightarrow>
     cs_reason s = None \<and> cs_inputs (scan_directive fs root p l s) = cs_inputs s \<and>
     set (cs_pending s) \<subseteq> set (cs_pending (scan_directive fs root p l s)) \<and>
     literal_line fs root p (set (cs_pending (scan_directive fs root p l s))) l"
  by (auto simp: scan_directive_def literal_line_def Let_def split: option.splits if_splits)

lemma comment_hides_hash: "\<not> comment_hides body \<Longrightarrow> CHR 0x23 \<notin> set body"
  by (simp add: comment_hides_def)

lemma comment_line_literal:
  assumes "b \<or> prefix ''/*'' l" "\<not> comment_hides (if b then l else drop 2 l)"
  shows "literal_line fs root p Q l"
proof -
  have "CHR 0x23 \<notin> set l"
  proof (cases b)
    case True
    with assms show ?thesis by (simp add: comment_hides_hash)
  next
    case False
    then obtain t where "l = ''/*'' @ t" using assms(1) by (auto simp: prefix_def)
    with assms False show ?thesis by (auto dest: comment_hides_hash)
  qed
  then show ?thesis by (simp add: literal_line_def)
qed

lemma scan_lines_None:
  assumes "cs_reason (snd (scan_lines fs root p b ls s)) = None"
  shows "cs_reason s = None \<and> cs_inputs (snd (scan_lines fs root p b ls s)) = cs_inputs s \<and>
     set (cs_pending s) \<subseteq> set (cs_pending (snd (scan_lines fs root p b ls s))) \<and>
     (\<forall>raw \<in> set ls.
        literal_line fs root p (set (cs_pending (snd (scan_lines fs root p b ls s)))) (trim raw))"
  using assms
proof (induction fs root p b ls s rule: scan_lines.induct)
  case (2 fs root p b raw ls s)
  let ?l = "trim raw" and ?body = "if b then trim raw else drop 2 (trim raw)"
  consider (comment) "b \<or> prefix ''/*'' ?l"
    | (mark) "\<not> (b \<or> prefix ''/*'' ?l)" "is_substring ''/*'' ?l \<or> is_substring ''*/'' ?l"
    | (directive) "\<not> (b \<or> prefix ''/*'' ?l)" "\<not> (is_substring ''/*'' ?l \<or> is_substring ''*/'' ?l)"
    by blast
  then show ?case
  proof cases
    case comment
    let ?s = "put_reason_if (comment_hides ?body) ''comment_lexical_closure_not_proved'' s"
    have step: "scan_lines fs root p b (raw # ls) s = scan_lines fs root p (\<not> suffix ''*/'' ?body) ls ?s"
      by (simp only: scan_lines.simps Let_def comment if_True)
    have IH: "cs_reason ?s = None" "cs_inputs (snd (scan_lines fs root p (\<not> suffix ''*/'' ?body) ls ?s)) = cs_inputs ?s"
      "set (cs_pending ?s) \<subseteq> set (cs_pending (snd (scan_lines fs root p (\<not> suffix ''*/'' ?body) ls ?s)))"
      "\<forall>raw \<in> set ls. literal_line fs root p
         (set (cs_pending (snd (scan_lines fs root p (\<not> suffix ''*/'' ?body) ls ?s)))) (trim raw)"
      using "2.IH"(1)[OF refl comment refl] "2.prems" unfolding step by blast+
    have "\<not> comment_hides ?body" using IH(1) by (auto split: if_splits)
    with IH comment_line_literal[OF comment this] show ?thesis
      unfolding step by (auto split: if_splits)
  next
    case mark
    have step: "scan_lines fs root p b (raw # ls) s
        = scan_lines fs root p b ls (put_reason ''comment_lexical_closure_not_proved'' s)"
      by (simp only: scan_lines.simps Let_def mark if_False if_True)
    show ?thesis using "2.IH"(2)[OF refl mark] "2.prems" unfolding step by simp
  next
    case directive
    let ?s = "scan_directive fs root p ?l s"
    have step: "scan_lines fs root p b (raw # ls) s = scan_lines fs root p b ls ?s"
      by (simp only: scan_lines.simps Let_def directive if_False)
    have IH: "cs_reason ?s = None" "cs_inputs (snd (scan_lines fs root p b ls ?s)) = cs_inputs ?s"
      "set (cs_pending ?s) \<subseteq> set (cs_pending (snd (scan_lines fs root p b ls ?s)))"
      "\<forall>raw \<in> set ls. literal_line fs root p
         (set (cs_pending (snd (scan_lines fs root p b ls ?s)))) (trim raw)"
      using "2.IH"(3)[OF refl directive] "2.prems" unfolding step by blast+
    with scan_directive_None[OF IH(1)] show ?thesis
      unfolding step by (auto elim: literal_line_mono)
  qed
qed simp

definition literal_file ::
  "filesystem \<Rightarrow> path \<Rightarrow> path \<Rightarrow> path set \<Rightarrow> string \<Rightarrow> bool" where
  "literal_file fs root p Q t \<longleftrightarrow>
     literal_text t \<and> (\<forall>raw \<in> set (str_lines t). literal_line fs root p Q (trim raw))"

lemma scan_text_None:
  assumes "cs_reason (scan_text fs root p t s) = None"
  shows "cs_reason s = None \<and> cs_inputs (scan_text fs root p t s) = cs_inputs s \<and>
     set (cs_pending s) \<subseteq> set (cs_pending (scan_text fs root p t s)) \<and>
     literal_file fs root p (set (cs_pending (scan_text fs root p t s))) t"
proof -
  have t: "literal_text t" using assms by (auto simp: scan_text_def split: if_splits)
  obtain b s' where scan: "scan_lines fs root p False (str_lines t) s = (b, s')" by fastforce
  have "\<not> b" "cs_reason s' = None"
    using assms t by (auto simp: scan_text_def scan split: if_splits)
  then have "scan_text fs root p t s = s'" using t by (simp add: scan_text_def scan put_reason_if_def)
  with scan_lines_None[of fs root p False "str_lines t" s] t \<open>cs_reason s' = None\<close> show ?thesis
    by (simp add: scan literal_file_def)
qed

text \<open>A visited file is an authorised input whose text is literal and leads only into \<open>Q\<close>.\<close>

definition file_covered ::
  "file_host \<Rightarrow> path_policy \<Rightarrow> analysis_view option \<Rightarrow> path \<Rightarrow> build_input_identity set \<Rightarrow> path set
   \<Rightarrow> path \<Rightarrow> bool" where
  "file_covered h pol matching root inputs Q p \<longleftrightarrow>
     (\<exists>input t. capture_authorized h pol root p ''source'' = Inr input \<and> input \<in> inputs \<and>
        (case matching of None \<Rightarrow> True | Some snapshot \<Rightarrow> known_to_snapshot snapshot p input) \<and>
        read_to_string h p = Some t \<and> ii_sha256 input = fh_sha256 h t \<and>
        literal_file (fh_fs h) root p Q t)"

lemma file_covered_mono:
  "file_covered h pol m root I Q p \<Longrightarrow> I \<subseteq> I' \<Longrightarrow> Q \<subseteq> Q' \<Longrightarrow> file_covered h pol m root I' Q' p"
  unfolding file_covered_def literal_file_def by (blast intro: literal_line_mono)

lemma visit_file_None:
  assumes "cs_reason (visit_file h pol m root p s) = None"
  shows "cs_reason s = None \<and> set (cs_inputs s) \<subseteq> set (cs_inputs (visit_file h pol m root p s)) \<and>
     set (cs_pending s) \<subseteq> set (cs_pending (visit_file h pol m root p s)) \<and>
     file_covered h pol m root (set (cs_inputs (visit_file h pol m root p s)))
       (set (cs_pending (visit_file h pol m root p s))) p"
proof -
  obtain input where input: "capture_authorized h pol root p ''source'' = Inr input"
    using assms by (auto simp: visit_file_def split: sum.splits)
  obtain t where t: "read_to_string h p = Some t"
    using assms input by (auto simp: visit_file_def Let_def split: option.splits)
  let ?b = "case m of None \<Rightarrow> False | Some snapshot \<Rightarrow> \<not> known_to_snapshot snapshot p input"
  define s1 where "s1 = put_reason_if ?b ''parser_closure_changed'' s"
  define s2 where "s2 = put_reason_if (fh_sha256 h t \<noteq> ii_sha256 input) ''build_inputs_changed''
    (s1\<lparr>cs_inputs := cs_inputs s1 @ [input]\<rparr>)"
  have step: "visit_file h pol m root p s = scan_text (fh_fs h) root p t s2"
    unfolding s2_def s1_def by (simp add: visit_file_def input t Let_def)
  note scanned = scan_text_None[OF assms[unfolded step]]
  have sha: "ii_sha256 input = fh_sha256 h t" and s1: "cs_reason s1 = None"
    using scanned unfolding s2_def by (auto split: if_splits)
  have b: "\<not> ?b" and s: "cs_reason s = None" using s1 unfolding s1_def by (auto split: if_splits)
  have same: "cs_inputs s2 = cs_inputs s @ [input]" "cs_pending s2 = cs_pending s"
    unfolding s2_def s1_def by simp_all
  have known: "case m of None \<Rightarrow> True | Some snapshot \<Rightarrow> known_to_snapshot snapshot p input"
    using b by (cases m) simp_all
  show ?thesis
    unfolding step file_covered_def using scanned s sha t input known by (auto simp: same)
qed


text \<open>The invariant of the work list, while no reason has been found.\<close>

definition closure_inv ::
  "file_host \<Rightarrow> path_policy \<Rightarrow> analysis_view option \<Rightarrow> path \<Rightarrow> path \<Rightarrow> closure_state \<Rightarrow> bool" where
  "closure_inv h pol m root dme s \<longleftrightarrow>
     (cs_reason s = None \<longrightarrow> m \<noteq> None \<and>
        dme \<in> set (cs_visited s) \<union> set (cs_pending s) \<and>
        (\<forall>p \<in> set (cs_visited s).
           file_covered h pol m root (set (cs_inputs s)) (set (cs_visited s) \<union> set (cs_pending s)) p))"

lemma closure_inv_visit:
  assumes "closure_inv h pol m root dme s" "cs_pending s = p # rest"
  shows "closure_inv h pol m root dme (visit_file h pol m root p
    (s\<lparr>cs_pending := rest, cs_visited := insort_insert p (cs_visited s)\<rparr>))"
  unfolding closure_inv_def
proof (intro impI)
  let ?s = "s\<lparr>cs_pending := rest, cs_visited := insort_insert p (cs_visited s)\<rparr>"
  let ?v = "visit_file h pol m root p ?s"
  let ?Q = "set (cs_visited ?v) \<union> set (cs_pending ?v)"
  assume "cs_reason ?v = None"
  note v = visit_file_None[OF this]
  then have s: "cs_reason s = None" "set (cs_inputs s) \<subseteq> set (cs_inputs ?v)"
    "set rest \<subseteq> set (cs_pending ?v)" by simp_all
  have vis: "set (cs_visited ?v) = insert p (set (cs_visited s))" by (simp add: set_insort_insert)
  have sub: "set (cs_visited s) \<union> set (cs_pending s) \<subseteq> ?Q" using s(3) assms(2) vis by auto
  have old: "m \<noteq> None" "dme \<in> set (cs_visited s) \<union> set (cs_pending s)"
    "\<forall>q \<in> set (cs_visited s).
       file_covered h pol m root (set (cs_inputs s)) (set (cs_visited s) \<union> set (cs_pending s)) q"
    using assms(1) s(1) unfolding closure_inv_def by blast+
  have "file_covered h pol m root (set (cs_inputs ?v)) ?Q p"
    using v by (blast intro: file_covered_mono)
  moreover have "file_covered h pol m root (set (cs_inputs ?v)) ?Q q" if "q \<in> set (cs_visited s)" for q
    using old(3) that s(2) sub file_covered_mono by blast
  ultimately show "m \<noteq> None \<and> dme \<in> ?Q \<and> (\<forall>q \<in> set (cs_visited ?v). file_covered h pol m root (set (cs_inputs ?v)) ?Q q)"
    using old(1,2) sub vis by auto
qed

lemma follow_includes_inv:
  "closure_inv h pol m root dme s \<Longrightarrow>
   closure_inv h pol m root dme (follow_includes h pol m root s) \<and>
   (cs_reason (follow_includes h pol m root s) = None \<longrightarrow>
      cs_pending (follow_includes h pol m root s) = [])"
proof (induction h pol m root s rule: follow_includes.induct)
  case (1 h pol m root s)
  show ?case
  proof (cases "cs_pending s")
    case Nil
    with 1(3) show ?thesis by (simp add: follow_includes.simps[of h pol m root s])
  next
    case (Cons p rest)
    consider "VISITED_LIMIT \<le> length (cs_visited s)"
      | "\<not> VISITED_LIMIT \<le> length (cs_visited s)" "p \<in> set (cs_visited s)"
      | "\<not> VISITED_LIMIT \<le> length (cs_visited s)" "p \<notin> set (cs_visited s)" by blast
    then show ?thesis
    proof cases
      case 1
      with Cons show ?thesis
        by (simp add: follow_includes.simps[of h pol m root s] closure_inv_def)
    next
      case 2
      have "closure_inv h pol m root dme (s\<lparr>cs_pending := rest\<rparr>)"
        using 1(3) 2(2) Cons by (auto simp: closure_inv_def insert_absorb)
      with 1(1)[OF Cons 2] Cons 2 show ?thesis by (simp add: follow_includes.simps[of h pol m root s])
    next
      case 3
      with 1(2)[OF Cons 3] closure_inv_visit[OF 1(3) Cons] Cons show ?thesis
        by (simp add: follow_includes.simps[of h pol m root s])
    qed
  qed
qed

lemma follow_includes_reason:
  "cs_reason (follow_includes h pol m root s) = None \<Longrightarrow> cs_reason s = None"
proof (induction h pol m root s rule: follow_includes.induct)
  case (1 h pol m root s)
  show ?case
  proof (cases "cs_pending s")
    case Nil
    with 1(3) show ?thesis by (simp add: follow_includes.simps[of h pol m root s])
  next
    case (Cons p rest)
    note step = follow_includes.simps[of h pol m root s] Cons
    show ?thesis
    proof (cases "VISITED_LIMIT \<le> length (cs_visited s)")
      case True
      with 1(3) show ?thesis by (simp add: step)
    next
      case limit: False
      show ?thesis
      proof (cases "p \<in> set (cs_visited s)")
        case True
        with 1(1)[OF Cons limit True] 1(3) limit show ?thesis by (simp add: step)
      next
        case False
        with 1(3) limit have "cs_reason (follow_includes h pol m root (visit_file h pol m root p
          (s\<lparr>cs_pending := rest, cs_visited := insort_insert p (cs_visited s)\<rparr>))) = None"
          by (simp add: step)
        from visit_file_None[OF 1(2)[OF Cons limit False this]] show ?thesis by simp
      qed
    qed
  qed
qed

text \<open>The inputs only grow afterwards, and a reason stays.\<close>

definition extends :: "prepared_build \<Rightarrow> prepared_build \<Rightarrow> bool" where
  "extends b b' \<longleftrightarrow>
     set (pb_inputs b) \<subseteq> set (pb_inputs b') \<and> pb_compiler b' = pb_compiler b \<and>
     bv_arguments (pb_verification b') = bv_arguments (pb_verification b) \<and>
     bv_method (pb_verification b') = bv_method (pb_verification b) \<and>
     (pb_reason b' = None \<longrightarrow> pb_reason b = None)"

lemma extends_refl [simp]: "extends b b"
  by (simp add: extends_def)

lemma extends_trans: "extends a b \<Longrightarrow> extends b c \<Longrightarrow> extends a c"
  by (auto simp: extends_def)

lemma extends_fold: "(\<And>x b. extends b (f x b)) \<Longrightarrow> extends b (fold f xs b)"
  by (induction xs arbitrary: b) (auto intro: extends_trans)

lemma extends_add_input: "extends b (add_input h pol root p role b)"
  by (auto simp: add_input_def extends_def split: sum.split)

lemma extends_add_source: "extends b (add_source_input h pol root p b)"
  by (simp add: add_source_input_def extends_add_input)

lemma extends_add_discovery: "extends b (add_discovery h nf pol root p b)"
  by (auto simp: add_discovery_def extends_add_input split: sum.split) (simp_all add: extends_def)

lemma extends_prepare: "extends b (prepare_inputs h nf pol root m f b)"
proof -
  have sources: "extends b (fold (add_source_input h pol root) xs b)" for xs b
    by (rule extends_fold) (rule extends_add_source)
  have discoveries: "extends b (fold (add_discovery h nf pol root) xs b)" for xs b
    by (rule extends_fold) (rule extends_add_discovery)
  have fixtures: "extends b (fold (\<lambda>(p, role). add_input h pol root p role) xs b)" for xs b
    by (rule extends_fold) (simp add: case_prod_unfold extends_add_input)
  show ?thesis
    by (auto simp: prepare_inputs_def Let_def split: option.split
        intro: fixtures extends_trans[OF sources discoveries]
          extends_trans[OF extends_trans[OF sources discoveries] fixtures])
qed


section \<open>The include closure\<close>

text \<open>
  The files the compiler reads, seen from the file system alone: the environment, and every file
  named by an include line of one of them.
\<close>

inductive included_from :: "file_host \<Rightarrow> path \<Rightarrow> path \<Rightarrow> path \<Rightarrow> bool" for h root dme where
  environment: "included_from h root dme dme"
| included: "included_from h root dme p \<Longrightarrow> read_to_string h p = Some t \<Longrightarrow> raw \<in> set (str_lines t)
    \<Longrightarrow> include_text (trim raw) = Some s
    \<Longrightarrow> included_from h root dme (include_path (fh_fs h) root p s)"

lemma include_text_hash: "include_text l = Some s \<Longrightarrow> CHR 0x23 \<in> set l \<and> \<not> literal_define l"
  by (auto simp: include_text_def literal_define_def strip_prefix_Some split: option.splits if_splits
      dest!: strip_prefix_Some[THEN iffD1])

lemma literal_file_reached:
  "included_from h root dme p \<Longrightarrow> read_to_string h p = Some t \<Longrightarrow> literal_file (fh_fs h) root p Q t \<Longrightarrow>
   literal_file (fh_fs h) root p {q. included_from h root dme q} t"
  unfolding literal_file_def literal_line_def by (blast intro: included)

lemma capture_covers_closure:
  assumes "prepared_capture h nf pol snapshot fixture dme compiler arguments wd = Inr b"
    and "pb_reason b = None" and "parent dme = Some root" and "included_from h root dme p"
  shows "\<exists>input t s. capture_authorized h pol root p ''source'' = Inr input \<and>
    input \<in> set (pb_inputs b) \<and> read_to_string h p = Some t \<and> ii_sha256 input = fh_sha256 h t \<and>
    snapshot = Some s \<and> av_environment_path s = dme \<and> known_to_snapshot s p input \<and>
    literal_file (fh_fs h) root p {q. included_from h root dme q} t"
proof -
  define m where "m = (case snapshot of None \<Rightarrow> None
    | Some s \<Rightarrow> if av_environment_path s = dme then Some s else None)"
  let ?s = "\<lparr>cs_inputs = [], cs_reason = initial_reason m arguments, cs_pending = [dme], cs_visited = []\<rparr>"
  define c where "c = follow_includes h pol m root ?s"
  obtain i where b: "b = prepare_inputs h nf pol root m fixture
      \<lparr>pb_inputs = cs_inputs c, pb_compiler = i,
       pb_verification = \<lparr>bv_method = ''literal_dm_closure_v1'', bv_arguments = arguments,
         bv_working_directory = wd, bv_absent_inputs = []\<rparr>, pb_reason = cs_reason c\<rparr>"
    using assms(1,3) unfolding c_def m_def
    by (auto simp: prepared_capture_def result_Inr Let_def)
  let ?b = "\<lparr>pb_inputs = cs_inputs c, pb_compiler = i,
       pb_verification = \<lparr>bv_method = ''literal_dm_closure_v1'', bv_arguments = arguments,
         bv_working_directory = wd, bv_absent_inputs = []\<rparr>, pb_reason = cs_reason c\<rparr>"
  have "extends ?b b" unfolding b by (rule extends_prepare)
  then have grown: "set (cs_inputs c) \<subseteq> set (pb_inputs b)" and none: "cs_reason c = None"
    using assms(2) by (simp_all add: extends_def)
  have "closure_inv h pol m root dme ?s" by (simp add: closure_inv_def initial_reason_def)
  from follow_includes_inv[OF this] none have "m \<noteq> None" and visited: "dme \<in> set (cs_visited c)"
      "\<forall>q \<in> set (cs_visited c). file_covered h pol m root (set (cs_inputs c)) (set (cs_visited c)) q"
    unfolding c_def[symmetric] closure_inv_def by auto
  then obtain v where v: "m = Some v" by blast
  then have view: "snapshot = Some v" "av_environment_path v = dme"
    unfolding m_def by (auto split: option.splits if_splits)
  have reached: "q \<in> set (cs_visited c)" if "included_from h root dme q" for q
    using that
  proof induction
    case (included p t raw s)
    then obtain t' where "read_to_string h p = Some t'"
      "literal_file (fh_fs h) root p (set (cs_visited c)) t'"
      using visited(2) unfolding file_covered_def by blast
    with included include_text_hash[OF included(4)] show ?case
      by (auto simp: literal_file_def literal_line_def)
  qed (rule visited(1))
  obtain input t where facts: "capture_authorized h pol root p ''source'' = Inr input"
    "input \<in> set (cs_inputs c)" "known_to_snapshot v p input" "read_to_string h p = Some t"
    "ii_sha256 input = fh_sha256 h t" "literal_file (fh_fs h) root p (set (cs_visited c)) t"
    using visited(2) reached[OF assms(4)] unfolding file_covered_def v option.case by blast
  have "literal_file (fh_fs h) root p {q. included_from h root dme q} t"
    using facts(6) by (rule literal_file_reached[OF assms(4) facts(4)])
  with facts grown view show ?thesis by blast
qed


text \<open>
  When a capture finds no reason to refuse verification, every file of the include closure
  of the environment is an authorised input of the build, recorded with the digest of the text
  that was scanned and known to the analysis snapshot, and every line of it that mentions a
  directive is a numeric macro definition or the include of another DM file: nothing the
  compiler reads through an include escapes the record.
\<close>

lemma capture_covers_include_closure:
  assumes "prepared_capture h nf pol snapshot fixture dme compiler arguments wd = Inr b"
    and "pb_reason b = None" and "parent dme = Some root" and "included_from h root dme p"
  shows "\<exists>input t s. capture_authorized h pol root p ''source'' = Inr input \<and>
    input \<in> set (pb_inputs b) \<and> read_to_string h p = Some t \<and> ii_sha256 input = fh_sha256 h t \<and>
    snapshot = Some s \<and> av_environment_path s = dme \<and> known_to_snapshot s p input \<and>
    literal_file (fh_fs h) root p {q. included_from h root dme q} t"
  using capture_covers_closure[OF assms] .

lemma capture_evidence:
  assumes "prepared_capture h nf pol snapshot fixture dme compiler arguments wd = Inr b"
    and "pb_reason b = None"
  shows "bv_method (pb_verification b) = ''literal_dm_closure_v1'' \<and>
    length (bv_arguments (pb_verification b)) = 1"
proof -
  obtain root i where parts: "parent dme = Some root"
    "capture_file_identity h compiler = Inr i"
    using assms(1) by (auto simp: prepared_capture_def result_Inr)
  define m where "m = (case snapshot of None \<Rightarrow> None
    | Some s \<Rightarrow> if av_environment_path s = dme then Some s else None)"
  define c where "c = follow_includes h pol m root
    \<lparr>cs_inputs = [], cs_reason = initial_reason m arguments, cs_pending = [dme], cs_visited = []\<rparr>"
  let ?b = "\<lparr>pb_inputs = cs_inputs c, pb_compiler = i,
       pb_verification = \<lparr>bv_method = ''literal_dm_closure_v1'', bv_arguments = arguments,
         bv_working_directory = wd, bv_absent_inputs = []\<rparr>, pb_reason = cs_reason c\<rparr>"
  have b: "b = prepare_inputs h nf pol root m fixture ?b"
    using assms(1) parts unfolding c_def m_def
    by (auto simp: prepared_capture_def result_Inr Let_def)
  have "extends ?b b" unfolding b by (rule extends_prepare)
  then have e: "bv_method (pb_verification b) = ''literal_dm_closure_v1''"
    "bv_arguments (pb_verification b) = arguments" "cs_reason c = None"
    using assms(2) by (simp_all add: extends_def)
  from follow_includes_reason[OF e(3)[unfolded c_def]] have "length arguments = 1"
    by (simp add: initial_reason_def split: if_splits)
  with e show ?thesis by simp
qed

section \<open>A concrete capture\<close>

definition inc_path :: "string \<Rightarrow> path" where
  "inc_path s = [RootDir, Normal ''w'', Normal s]"

definition inc_text :: "path \<Rightarrow> string" where
  "inc_text p = (if p = inc_path ''a.dme'' then ''#include \"b.dm\"'' else ''x=1'')"

definition inc_host :: file_host where
  "inc_host =
     \<lparr>fh_fs = \<lparr>fs_canonicalize = (\<lambda>p. Inr p), fs_exists = (\<lambda>p. True),
               fs_symlink_metadata = (\<lambda>p. Inr RegularFile),
               fs_display = (\<lambda>p. []), fs_from_str = (\<lambda>s. [Normal s])\<rparr>,
      fh_len = (\<lambda>p. 1), fh_metadata = (\<lambda>p. Inl ''absent''), fh_read = (\<lambda>p. Inr (inc_text p)),
      fh_sha256 = (\<lambda>s. s)\<rparr>"

definition inc_policy :: path_policy where
  "inc_policy = \<lparr>pp_roots = [[RootDir, Normal ''w'']], pp_effective_roots = [], pp_executables = []\<rparr>"

definition inc_view :: analysis_view where
  "inc_view =
     \<lparr>av_environment_path = inc_path ''a.dme'',
      av_source_inputs = [inc_path ''a.dme'', inc_path ''b.dm''],
      av_source_fingerprint = \<lparr>sf_entries = [], sf_discovery_paths = [], sf_reusable = True\<rparr>\<rparr>"

definition inc_input :: "string \<Rightarrow> build_input_identity" where
  "inc_input s =
     \<lparr>ii_path = inc_path s, ii_resolved_path = Some (inc_path s), ii_relative_path = s,
      ii_role = ''source'', ii_size = 1, ii_sha256 = inc_text (inc_path s)\<rparr>"

definition inc_build :: prepared_build where
  "inc_build =
     \<lparr>pb_inputs = [inc_input ''a.dme'', inc_input ''b.dm''],
      pb_compiler = \<lparr>fi_path = inc_path ''dm'', fi_size = 1, fi_sha256 = ''x=1''\<rparr>,
      pb_verification = \<lparr>bv_method = ''literal_dm_closure_v1'', bv_arguments = [''a.dme''],
        bv_working_directory = [RootDir, Normal ''w''], bv_absent_inputs = []\<rparr>,
      pb_reason = None\<rparr>"

lemma inc_capture:
  "prepared_capture inc_host (\<lambda>_. True) inc_policy (Some inc_view) None (inc_path ''a.dme'')
     (inc_path ''dm'') [''a.dme''] [RootDir, Normal ''w''] = Inr inc_build"
  by code_simp

lemma capture_covers_include_closure_witness:
  "inc_input ''b.dm'' \<in> set (pb_inputs inc_build) \<and>
   included_from inc_host [RootDir, Normal ''w''] (inc_path ''a.dme'') (inc_path ''b.dm'')"
proof -
  have "read_to_string inc_host (inc_path ''a.dme'') = Some (inc_text (inc_path ''a.dme''))"
    "inc_text (inc_path ''a.dme'') \<in> set (str_lines (inc_text (inc_path ''a.dme'')))"
    "include_text (trim (inc_text (inc_path ''a.dme''))) = Some ''b.dm''" by code_simp+
  from included[OF environment this] have
    "included_from inc_host [RootDir, Normal ''w''] (inc_path ''a.dme'')
       (include_path (fh_fs inc_host) [RootDir, Normal ''w''] (inc_path ''a.dme'') ''b.dm'')" .
  moreover have "include_path (fh_fs inc_host) [RootDir, Normal ''w''] (inc_path ''a.dme'') ''b.dm''
      = inc_path ''b.dm''" by code_simp
  ultimately have reached:
    "included_from inc_host [RootDir, Normal ''w''] (inc_path ''a.dme'') (inc_path ''b.dm'')" by simp
  have "pb_reason inc_build = None" "parent (inc_path ''a.dme'') = Some [RootDir, Normal ''w'']"
    "capture_authorized inc_host inc_policy [RootDir, Normal ''w''] (inc_path ''b.dm'') ''source''
      = Inr (inc_input ''b.dm'')" by code_simp+
  with capture_covers_include_closure[OF inc_capture _ _ reached] reached show ?thesis by auto
qed

end
