(* ===== verification/Compile_Provenance.thy ===== *)
theory Compile_Provenance
  imports Launch_Gate Prepared_Build
begin

text \<open>
  How a compilation writes provenance, \<open>record_compile_provenance\<close> of \<open>src/tools/compile.rs\<close>: a
  successful, fresh and fully evidenced build becomes a build record, a location and a succeeded
  attempt; anything else that left an artifact becomes an attempt that says so, and the verdict
  is what the launch gate would now say.  Random identifiers, the clock and the identity of the
  server build are arguments.
\<close>

section \<open>Recording a compilation\<close>

text \<open>Reasons of the verdict: of the gate, or a code alone.\<close>

datatype verdict_reason = CodeOnly string | FullReason provenance_reason

record compile_verdict =
  cv_status :: provenance_status
  cv_record_id :: "string option"
  cv_reasons :: "verdict_reason list"
  cv_retained_dmb_sha256 :: "string option"

text \<open>What a recording takes from its surroundings.\<close>

record recording_env =
  rc_host :: provenance_host
  rc_policy :: path_policy
  rc_mcp_build :: build_identity
  rc_now :: nat
  rc_record_id :: "string + string"
  rc_attempt_id :: "string + string"

definition build_input_order :: "build_input_identity \<Rightarrow> string \<times> string" where
  "build_input_order i = (ii_role i, ii_relative_path i)"

definition is_file :: "file_host \<Rightarrow> path \<Rightarrow> bool" where
  "is_file h p = (case fh_metadata h p of Inr (b, _, _) \<Rightarrow> b | Inl _ \<Rightarrow> False)"

definition fixture_rsc :: "verified_fixture_manifest option \<Rightarrow> path option" where
  "fixture_rsc fixture = (case fixture of None \<Rightarrow> None | Some f \<Rightarrow> vm_rsc_path f)"

definition rsc_path_of :: "verified_fixture_manifest option \<Rightarrow> path \<Rightarrow> path" where
  "rsc_path_of fixture dme =
     (case fixture_rsc fixture of Some p \<Rightarrow> p | None \<Rightarrow> with_extension dme ''rsc'')"

definition verification_reason ::
  "file_host \<Rightarrow> prepared_build \<Rightarrow> verified_fixture_manifest option \<Rightarrow> path \<Rightarrow> string option" where
  "verification_reason h prepared fixture dme =
     (case finish_reason h prepared of Some r \<Rightarrow> Some r
      | None \<Rightarrow>
          if fixture_rsc fixture \<noteq> None \<and> \<not> is_file h (rsc_path_of fixture dme)
          then Some ''required_rsc_missing'' else None)"

definition capture_rsc :: "file_host \<Rightarrow> path \<Rightarrow> file_error + file_identity option" where
  "capture_rsc h p =
     (if fs_exists (fh_fs h) p then rbind (capture_file_identity h p) (\<lambda>i. Inr (Some i))
      else Inr None)"

definition success_record ::
  "recording_env \<Rightarrow> prepared_build \<Rightarrow> verified_fixture_manifest option \<Rightarrow> string \<Rightarrow> string
   \<Rightarrow> project_build_identity \<Rightarrow> file_identity \<Rightarrow> file_identity option \<Rightarrow> build_record" where
  "success_record env prepared fixture key record_id project dmb rsc =
     \<lparr>br_schema = 2, br_record_id = record_id, br_artifact_key = key,
      br_mcp_build = rc_mcp_build env, br_compiler = pb_compiler prepared, br_project = project,
      br_inputs = sort_key build_input_order (pb_inputs prepared),
      br_verification = Some (pb_verification prepared), br_dmb = dmb, br_rsc = rsc,
      br_fixture_manifest_sha256 = (case fixture of None \<Rightarrow> None | Some f \<Rightarrow> Some (vm_identity_sha256 f)),
      br_created_at_unix_ms = rc_now env\<rparr>"

text \<open>The branch of a successful, fresh and evidenced build.\<close>

definition record_built ::
  "recording_env \<Rightarrow> prepared_build \<Rightarrow> verified_fixture_manifest option \<Rightarrow> path \<Rightarrow> path \<Rightarrow> string
   \<Rightarrow> string option \<Rightarrow> provenance_files \<Rightarrow> (provenance_error + compile_verdict) \<times> provenance_files" where
  "record_built env prepared fixture dme dmb_path key retained st =
     (let h = ph_files (rc_host env) in
      case rbind (map_err FileProblem (capture_file_identity h dmb_path)) (\<lambda>dmb.
           rbind (map_err FileProblem (capture_rsc h (rsc_path_of fixture dme))) (\<lambda>rsc.
           rbind (map_err StateIo (rc_record_id env)) (\<lambda>record_id.
           rbind (project_identity h (rc_policy env) dmb_path) (\<lambda>project.
           Inr (success_record env prepared fixture key record_id project dmb rsc)))))
      of Inl e \<Rightarrow> (Inl e, st)
       | Inr r \<Rightarrow>
           (case record_success (rc_host env) (rc_policy env) r st of
              (Inl e, st) \<Rightarrow> (Inl e, st)
            | (Inr _, st) \<Rightarrow>
                (case rc_attempt_id env of Inl e \<Rightarrow> (Inl (StateIo e), st)
                 | Inr attempt_id \<Rightarrow>
                     (case record_attempt (rc_host env)
                        \<lparr>at_schema = 1, at_attempt_id = attempt_id, at_artifact_key = key,
                         at_outcome = AttemptSucceeded,
                         at_observed_inputs = sort_key build_input_order (pb_inputs prepared),
                         at_retained_dmb_sha256 = retained, at_created_at_unix_ms = rc_now env\<rparr> st of
                        (Inl e, st) \<Rightarrow> (Inl e, st)
                      | (Inr _, st) \<Rightarrow>
                          (Inr \<lparr>cv_status = Verified, cv_record_id = Some (br_record_id r),
                                cv_reasons = [], cv_retained_dmb_sha256 = retained\<rparr>, st)))))"

text \<open>The branch of a build that left an artifact but established nothing.\<close>

definition record_unproven ::
  "recording_env \<Rightarrow> prepared_build \<Rightarrow> path \<Rightarrow> string \<Rightarrow> string option \<Rightarrow> bool \<Rightarrow> string
   \<Rightarrow> provenance_files \<Rightarrow> (provenance_error + compile_verdict) \<times> provenance_files" where
  "record_unproven env prepared dmb_path key retained success code st =
     (case rc_attempt_id env of Inl e \<Rightarrow> (Inl (StateIo e), st)
      | Inr attempt_id \<Rightarrow>
          (case record_attempt (rc_host env)
             \<lparr>at_schema = 1, at_attempt_id = attempt_id, at_artifact_key = key,
              at_outcome = (if success then AttemptUnverified code else AttemptFailed code),
              at_observed_inputs = pb_inputs prepared, at_retained_dmb_sha256 = retained,
              at_created_at_unix_ms = rc_now env\<rparr> st of
             (Inl e, st) \<Rightarrow> (Inl e, st)
           | (Inr _, st) \<Rightarrow>
               (case evaluate_launch (rc_host env) (rc_policy env) st dmb_path False of
                  Inl e \<Rightarrow> (Inl e, st)
                | Inr d \<Rightarrow>
                    (Inr \<lparr>cv_status = ld_status d, cv_record_id = ld_record_id d,
                          cv_reasons = map FullReason (ld_reasons d @
                            [reason code
                              ''the build did not establish complete stable compiler input evidence''
                              None None]),
                          cv_retained_dmb_sha256 = retained\<rparr>, st))))"

definition record_compile_provenance ::
  "recording_env option \<Rightarrow> prepared_build \<Rightarrow> verified_fixture_manifest option \<Rightarrow> path \<Rightarrow> path
   \<Rightarrow> artifact_snapshot \<Rightarrow> bool \<Rightarrow> bool \<Rightarrow> string \<Rightarrow> provenance_files
   \<Rightarrow> (provenance_error + compile_verdict) \<times> provenance_files" where
  "record_compile_provenance store prepared fixture dme dmb_path artifact_after success dmb_updated
     failure_code st =
     (case store of
        None \<Rightarrow> (Inr \<lparr>cv_status = Unverified, cv_record_id = None,
                       cv_reasons = [CodeOnly ''private_state_unavailable''],
                       cv_retained_dmb_sha256 = as_sha256 artifact_after\<rparr>, st)
      | Some env \<Rightarrow>
          (let h = ph_files (rc_host env); why = verification_reason h prepared fixture dme in
           case artifact_key h (rc_policy env) dmb_path of Inl e \<Rightarrow> (Inl e, st)
           | Inr key \<Rightarrow>
               if success \<and> dmb_updated \<and> why = None \<and> as_exists artifact_after
               then record_built env prepared fixture dme dmb_path key (as_sha256 artifact_after) st
               else if as_exists artifact_after \<or> fixture \<noteq> None
               then record_unproven env prepared dmb_path key (as_sha256 artifact_after) success
                 (if success then case why of Some r \<Rightarrow> r | None \<Rightarrow> ''artifact_not_fresh''
                  else failure_code) st
               else (Inr \<lparr>cv_status = Unverified, cv_record_id = None,
                          cv_reasons = [CodeOnly (case why of Some r \<Rightarrow> r
                                                  | None \<Rightarrow> ''artifact_not_fresh'')],
                          cv_retained_dmb_sha256 = as_sha256 artifact_after\<rparr>, st)))"


section \<open>Recording and launching agree\<close>

text \<open>
  What the file system is relied on for: a canonical path exists, is its own canonical path, and
  denotes the file it was obtained from.
\<close>

definition coherent_host :: "file_host \<Rightarrow> bool" where
  "coherent_host h \<longleftrightarrow>
     (\<forall>p q. fs_canonicalize (fh_fs h) p = Inr q \<longrightarrow>
        fs_canonicalize (fh_fs h) q = Inr q \<and> fs_exists (fh_fs h) p \<and> fs_exists (fh_fs h) q \<and>
        (fs_symlink_metadata (fh_fs h) p = Inr RegularFile \<longrightarrow>
           fs_symlink_metadata (fh_fs h) q = Inr RegularFile \<and> fh_len h q = fh_len h p))"

lemma coherent_hostD:
  assumes "coherent_host h" "fs_canonicalize (fh_fs h) p = Inr q"
  shows "fs_canonicalize (fh_fs h) q = Inr q" "fs_exists (fh_fs h) p" "fs_exists (fh_fs h) q"
    "fs_symlink_metadata (fh_fs h) p = Inr RegularFile \<Longrightarrow>
       fs_symlink_metadata (fh_fs h) q = Inr RegularFile \<and> fh_len h q = fh_len h p"
  using assms unfolding coherent_host_def by blast+

lemma captured_same_output:
  "coherent_host h \<Longrightarrow> capture_file_identity h p = Inr i \<Longrightarrow> same_output h i"
proof -
  assume h: "coherent_host h" and i: "capture_file_identity h p = Inr i"
  then have "capture_file_identity h (fi_path i) = Inr i"
    using coherent_hostD[OF h, of p "fi_path i"] by (auto simp: file_identity_Inr)
  then show ?thesis by (simp add: same_output_def)
qed

lemma resolve_canonical:
  assumes "coherent_host h" "fs_canonicalize (fh_fs h) p = Inr c" "resolve_artifact h pol p = Inr q"
  shows "q = c" "resolve_artifact h pol c = Inr c"
  using assms(3) coherent_hostD[OF assms(1,2)] assms(2)
  by (auto simp: resolve_artifact_def map_err_Inr reading.decide_iff)

lemma project_and_relative_canonical:
  assumes "coherent_host h" "fs_canonicalize (fh_fs h) p = Inr c" "resolve_artifact h pol p = Inr q"
  shows "project_and_relative h pol c = project_and_relative h pol p"
  using resolve_canonical[OF assms] assms(3) by (simp add: project_and_relative_def)

lemma write_record_Inr:
  "write_record ph ns key put st = (Inr u, st') \<longleftrightarrow>
     ph_lock ph = None \<and> ph_write ph (record_name ns key) = None \<and> st' = put st"
  by (auto simp: write_record_def lock_state_def split: option.splits)

lemma record_success_Inr:
  assumes "record_success ph pol r st = (Inr u, st')"
  shows "ph_lock ph = None" "length (br_artifact_key r) = 64"
    "artifact_key (ph_files ph) pol (fi_path (br_dmb r)) = Inr (br_artifact_key r)"
    "\<exists>key. location_key (ph_files ph) (fi_path (br_dmb r)) = Inr key \<and>
       map_of (pf_locations st') key = Some \<lparr>al_schema = 1, al_artifact_key = br_artifact_key r\<rparr> \<and>
       map_of (pf_builds st') (br_artifact_key r) = Some r"
  using assms
  by (auto simp: record_success_def write_record_Inr map_of_btree_insert split: if_splits sum.splits prod.splits)

lemma record_attempt_Inr:
  assumes "record_attempt ph a st = (Inr u, st')"
  shows "ph_lock ph = None" "length (at_artifact_key a) = 64" "at_attempt_id a \<noteq> []"
    "st' = st\<lparr>pf_attempts := btree_insert (at_artifact_key a) a (pf_attempts st)\<rparr>"
  using assms by (auto simp: record_attempt_def write_record_Inr split: if_splits)

lemma record_built_Inr:
  assumes "record_built env prepared fixture dme dmb_path key retained st = (Inr v, st')"
  shows "\<exists>dmb rsc record_id project st1 attempt_id.
    capture_file_identity (ph_files (rc_host env)) dmb_path = Inr dmb \<and>
    capture_rsc (ph_files (rc_host env)) (rsc_path_of fixture dme) = Inr rsc \<and>
    project_identity (ph_files (rc_host env)) (rc_policy env) dmb_path = Inr project \<and>
    record_success (rc_host env) (rc_policy env)
      (success_record env prepared fixture key record_id project dmb rsc) st = (Inr (), st1) \<and>
    record_attempt (rc_host env)
      \<lparr>at_schema = 1, at_attempt_id = attempt_id, at_artifact_key = key,
       at_outcome = AttemptSucceeded,
       at_observed_inputs = sort_key build_input_order (pb_inputs prepared),
       at_retained_dmb_sha256 = retained, at_created_at_unix_ms = rc_now env\<rparr> st1 = (Inr (), st') \<and>
    v = \<lparr>cv_status = Verified, cv_record_id = Some record_id, cv_reasons = [],
         cv_retained_dmb_sha256 = retained\<rparr>"
  using assms
  by (auto simp: record_built_def Let_def result_Inr success_record_def
      split: sum.splits prod.splits)


text \<open>A verdict without reasons comes from a recorded build with nothing left to prove.\<close>

lemma record_compile_clean:
  assumes "record_compile_provenance (Some env) prepared fixture dme dmb_path after success updated
      code st = (Inr v, st')" and "cv_reasons v = []"
  shows "verification_reason (ph_files (rc_host env)) prepared fixture dme = None \<and>
    success \<and> updated \<and> as_exists after \<and>
    (\<exists>key. artifact_key (ph_files (rc_host env)) (rc_policy env) dmb_path = Inr key \<and>
       record_built env prepared fixture dme dmb_path key (as_sha256 after) st = (Inr v, st'))"
proof -
  have unproven: "cv_reasons v' \<noteq> []"
    if "record_unproven env prepared dmb_path key retained s c st = (Inr v', st'')"
    for key retained s c v' st''
    using that by (auto simp: record_unproven_def split: sum.splits prod.splits)
  show ?thesis
    using assms unproven
    by (auto simp: record_compile_provenance_def Let_def split: sum.splits if_splits)
qed

lemma finish_reason_None:
  "finish_reason h b = None \<longleftrightarrow>
     pb_reason b = None \<and> list_all (input_unchanged h) (pb_inputs b) \<and>
     list_all (\<lambda>p. \<not> appeared h p) (bv_absent_inputs (pb_verification b)) \<and>
     same_output h (pb_compiler b)"
  by (auto simp: finish_reason_def list_ex_iff list_all_iff)

lemma verification_reason_None:
  "verification_reason h b fixture dme = None \<Longrightarrow> finish_reason h b = None"
  by (auto simp: verification_reason_def split: option.splits)

lemma clean_compile_launches:
  assumes "prepared_capture h0 nf pol snapshot fixture dme compiler arguments wd = Inr prepared"
    and "record_compile_provenance (Some env) prepared fixture dme dmb_path after success updated
      code st = (Inr v, st')" and "cv_reasons v = []"
    and "coherent_host (ph_files (rc_host env))" and "ph_read (rc_host env) = (\<lambda>_. None)"
  shows "\<exists>l. require_launchable_artifact (ph_files (rc_host env))
      (Some \<lparr>bs_host = rc_host env, bs_policy = rc_policy env, bs_files = st'\<rparr>) dmb_path True = Inr l \<and>
    lp_status l = Verified \<and> lp_build_record_id l = cv_record_id v \<and> lp_warnings l = []"
proof -
  let ?h = "ph_files (rc_host env)" and ?pol = "rc_policy env"
  obtain key where clean: "verification_reason ?h prepared fixture dme = None"
    and key: "artifact_key ?h ?pol dmb_path = Inr key"
    and built: "record_built env prepared fixture dme dmb_path key (as_sha256 after) st = (Inr v, st')"
    using record_compile_clean[OF assms(2,3)] by blast
  obtain dmb rsc record_id project st1 attempt_id where
    dmb: "capture_file_identity ?h dmb_path = Inr dmb"
    and rsc: "capture_rsc ?h (rsc_path_of fixture dme) = Inr rsc"
    and project: "project_identity ?h ?pol dmb_path = Inr project"
    and success: "record_success (rc_host env) ?pol
      (success_record env prepared fixture key record_id project dmb rsc) st = (Inr (), st1)"
    and attempt: "record_attempt (rc_host env)
      \<lparr>at_schema = 1, at_attempt_id = attempt_id, at_artifact_key = key,
       at_outcome = AttemptSucceeded,
       at_observed_inputs = sort_key build_input_order (pb_inputs prepared),
       at_retained_dmb_sha256 = as_sha256 after, at_created_at_unix_ms = rc_now env\<rparr> st1 = (Inr (), st')"
    and v: "v = \<lparr>cv_status = Verified, cv_record_id = Some record_id, cv_reasons = [],
         cv_retained_dmb_sha256 = as_sha256 after\<rparr>"
    using record_built_Inr[OF built] by blast
  let ?r = "success_record env prepared fixture key record_id project dmb rsc"
  note wrote = record_success_Inr[OF success] and tried = record_attempt_Inr[OF attempt]
  have r: "br_artifact_key ?r = key" "br_dmb ?r = dmb" "br_record_id ?r = record_id"
    "br_project ?r = project" by (simp_all add: success_record_def)
  obtain location where location: "location_key ?h (fi_path dmb) = Inr location"
    "map_of (pf_locations st1) location = Some \<lparr>al_schema = 1, al_artifact_key = key\<rparr>"
    "map_of (pf_builds st1) key = Some ?r"
    using wrote(4) unfolding r by blast
  have canonical: "fs_canonicalize (fh_fs ?h) dmb_path = Inr (fi_path dmb)"
    using dmb by (simp add: file_identity_Inr)
  obtain q where q: "resolve_artifact ?h ?pol dmb_path = Inr q"
    using key by (auto simp: artifact_key_def project_and_relative_def rbind_Inr)
  have q': "q = fi_path dmb" using resolve_canonical(1)[OF assms(4) canonical q] .
  have project': "project_identity ?h ?pol (fi_path dmb) = Inr project"
    using project project_and_relative_canonical[OF assms(4) canonical q]
    by (simp add: project_identity_def)
  let ?a = "map_of (pf_attempts st') key"
  have found: "read_build (rc_host env) st' location = Inr (Some (?r, ?a))"
    using read_buildI[of "rc_host env" location st' _ ?r] wrote(1,2) assms(5) location tried(4)
    unfolding r by simp
  have unchanged: "build_unchanged ?h ?r project ?a"
  proof -
    have "list_all (input_unchanged ?h) (sort_key build_input_order (pb_inputs prepared))"
      "list_all (\<lambda>p. \<not> appeared ?h p) (bv_absent_inputs (pb_verification prepared))"
      using verification_reason_None[OF clean] by (simp_all add: finish_reason_None list_all_iff)
    moreover have "same_output ?h dmb" using captured_same_output[OF assms(4) dmb] .
    moreover have "case rsc of None \<Rightarrow> True | Some i \<Rightarrow> same_output ?h i"
      using rsc captured_same_output[OF assms(4)]
      by (auto simp: capture_rsc_def rbind_Inr split: option.split if_splits)
    ultimately show ?thesis
      using tried(4) by (simp add: build_unchanged_def success_record_def map_of_btree_insert)
  qed
  have supported: "verification_supported ?r"
    using capture_evidence[OF assms(1)] verification_reason_None[OF clean]
    by (auto simp: finish_reason_None verification_supported_def success_record_def)
  let ?d = "decide_launch ?r True (launch_reasons ?h ?r project (fi_path dmb) ?a)"
  have "evaluate_launch (rc_host env) ?pol st' dmb_path True = Inr ?d"
    using q q' location(1) found project' by (simp add: evaluate_launch_def)
  moreover have none: "launch_reasons ?h ?r project (fi_path dmb) ?a = []"
    using unchanged by (simp add: launch_reasons_Nil)
  ultimately show ?thesis
    using dmb v r(3) supported
    by (auto simp: launchable_Inr store_decision_def decide_launch_def)
qed


text \<open>
  C21. Compiling and launching agree: when the verdict of a compilation is verified without
  reservations, the gate at once lets the artifact through as verified, with the build record
  the compilation wrote and without warnings, provided nothing changes on disk in between and
  the private state can be read.
\<close>

theorem clean_compile_is_launchable:
  assumes "prepared_capture h0 nf pol snapshot fixture dme compiler arguments wd = Inr prepared"
    and "record_compile_provenance (Some env) prepared fixture dme dmb_path after success updated
      code st = (Inr v, st')" and "cv_reasons v = []"
    and "coherent_host (ph_files (rc_host env))" and "ph_read (rc_host env) = (\<lambda>_. None)"
  shows "\<exists>l. require_launchable_artifact (ph_files (rc_host env))
      (Some \<lparr>bs_host = rc_host env, bs_policy = rc_policy env, bs_files = st'\<rparr>) dmb_path True = Inr l \<and>
    lp_status l = Verified \<and> lp_build_record_id l = cv_record_id v \<and> lp_warnings l = []"
  using clean_compile_launches[OF assms] .

text \<open>The canonical path the policy grants is the one the identity records.\<close>

lemma capture_authorized_canonical:
  "coherent_host h \<Longrightarrow> capture_authorized h pol root p role = Inr i \<Longrightarrow>
     ii_path i = p \<and> (\<exists>c. fs_canonicalize (fh_fs h) p = Inr c \<and> ii_resolved_path i = Some c)"
  using coherent_hostD(1)
  by (fastforce simp: capture_authorized_def result_Inr file_identity_Inr reading.decide_iff)

text \<open>
  C22. From the launch back to the sources: when the gate lets an artifact through as verified on
  the record a compilation wrote, every file of the include closure the compilation scanned
  still leads to the same canonical file, and its present content has the digest of the text
  that was scanned then.
\<close>

theorem verified_launch_matches_compiled_closure:
  assumes "prepared_capture h0 nf pol snapshot fixture dme compiler arguments wd = Inr prepared"
    and "pb_reason prepared = None" and "parent dme = Some root"
    and "require_launchable_artifact (ph_files (bs_host s)) (Some s) p True = Inr l"
    and "resolve_artifact (ph_files (bs_host s)) (bs_policy s) p = Inr q"
    and "location_key (ph_files (bs_host s)) q = Inr location"
    and "read_build (bs_host s) (bs_files s) location
      = Inr (Some (success_record env prepared fixture key record_id project dmb rsc, attempt))"
    and "included_from h0 root dme f" and "coherent_host h0"
  shows "\<exists>t now bytes. read_to_string h0 f = Some t \<and>
    capture_file_identity (ph_files (bs_host s)) f = Inr now \<and>
    fs_canonicalize (fh_fs h0) f = Inr (fi_path now) \<and>
    fh_read (ph_files (bs_host s)) (fi_path now) = Inr bytes \<and>
    fh_sha256 (ph_files (bs_host s)) bytes = fh_sha256 h0 t"
proof -
  let ?h = "ph_files (bs_host s)"
  obtain input t where input: "capture_authorized h0 pol root f ''source'' = Inr input"
    "input \<in> set (pb_inputs prepared)" "read_to_string h0 f = Some t"
    "ii_sha256 input = fh_sha256 h0 t"
    using capture_covers_closure[OF assms(1-3,8)] by blast
  obtain c where c: "fs_canonicalize (fh_fs h0) f = Inr c" "ii_path input = f"
    "ii_resolved_path input = Some c"
    using capture_authorized_canonical[OF assms(9) input(1)] by blast
  have "build_unchanged ?h (success_record env prepared fixture key record_id project dmb rsc) project' attempt"
    if "project_identity ?h (bs_policy s) q = Inr project'" for project'
    using verified_launch_facts[OF assms(4)] assms(5-7) that by auto
  moreover obtain project' where "project_identity ?h (bs_policy s) q = Inr project'"
    using verified_launch_facts[OF assms(4)] assms(5) by auto
  ultimately have "input_unchanged ?h input"
    using input(2) by (auto simp: build_unchanged_def success_record_def list_all_iff)
  then obtain now where now: "capture_file_identity ?h f = Inr now" "same_input input now"
    using c(2) by (auto simp: input_unchanged_def split: sum.splits)
  then have "fi_path now = c" "fi_sha256 now = fh_sha256 h0 t"
    using c(3) input(4) by (simp_all add: same_input_def)
  with now(1) c(1) input(3) show ?thesis by (auto simp: file_identity_Inr)
qed


section \<open>A concrete compilation\<close>

text \<open>The project of the concrete capture, with a digest of 64 bytes and an empty private state.\<close>

definition cw_host :: file_host where
  "cw_host = inc_host\<lparr>fh_sha256 := pad_digest\<rparr>"

definition cw_policy :: path_policy where
  "cw_policy = inc_policy\<lparr>pp_effective_roots := [w_root]\<rparr>"

definition cw_env :: recording_env where
  "cw_env =
     \<lparr>rc_host = \<lparr>ph_files = cw_host, ph_lock = None, ph_read = (\<lambda>_. None), ph_write = (\<lambda>_. None)\<rparr>,
      rc_policy = cw_policy, rc_mcp_build = br_mcp_build w_record, rc_now = 7,
      rc_record_id = Inr ''r'', rc_attempt_id = Inr ''t''\<rparr>"

definition cw_identity :: "string \<Rightarrow> file_identity" where
  "cw_identity s = \<lparr>fi_path = inc_path s, fi_size = 1, fi_sha256 = pad_digest (inc_text (inc_path s))\<rparr>"

definition cw_input :: "string \<Rightarrow> build_input_identity" where
  "cw_input s = (inc_input s)\<lparr>ii_sha256 := pad_digest (inc_text (inc_path s))\<rparr>"

definition cw_prepared :: prepared_build where
  "cw_prepared = inc_build\<lparr>pb_inputs := [cw_input ''a.dme'', cw_input ''b.dm''],
     pb_compiler := cw_identity ''dm''\<rparr>"

definition cw_after :: artifact_snapshot where
  "cw_after = \<lparr>as_path = inc_path ''a.dmb'', as_exists = True, as_size = Some 1,
     as_modified_unix_ms = None, as_sha256 = Some (pad_digest ''x=1'')\<rparr>"

definition cw_key :: string where
  "cw_key = pad_digest (pad_digest [] @ ''\<newline>a.dmb'')"

definition cw_record :: build_record where
  "cw_record = success_record cw_env cw_prepared None cw_key ''r''
     \<lparr>pi_root = er_path w_root, pi_repository_identity = pad_digest [], pi_head_revision = None,
      pi_dirty = None\<rparr> (cw_identity ''a.dmb'') (Some (cw_identity ''a.rsc''))"

definition cw_attempt :: build_attempt where
  "cw_attempt = \<lparr>at_schema = 1, at_attempt_id = ''t'', at_artifact_key = cw_key,
     at_outcome = AttemptSucceeded, at_observed_inputs = [cw_input ''a.dme'', cw_input ''b.dm''],
     at_retained_dmb_sha256 = Some (pad_digest ''x=1''), at_created_at_unix_ms = 7\<rparr>"

definition cw_files :: provenance_files where
  "cw_files = \<lparr>pf_locations = [(pad_digest [], \<lparr>al_schema = 1, al_artifact_key = cw_key\<rparr>)],
     pf_builds = [(cw_key, cw_record)], pf_attempts = [(cw_key, cw_attempt)]\<rparr>"

definition cw_store :: provenance_store where
  "cw_store = \<lparr>bs_host = rc_host cw_env, bs_policy = rc_policy cw_env, bs_files = cw_files\<rparr>"

lemma cw_captured:
  "prepared_capture cw_host (\<lambda>_. True) inc_policy (Some inc_view) None (inc_path ''a.dme'')
     (inc_path ''dm'') [''a.dme''] [RootDir, Normal ''w''] = Inr cw_prepared"
  by code_simp

lemma cw_recorded:
  "record_compile_provenance (Some cw_env) cw_prepared None (inc_path ''a.dme'')
     (inc_path ''a.dmb'') cw_after True True ''compiler_failed''
     \<lparr>pf_locations = [], pf_builds = [], pf_attempts = []\<rparr>
   = (Inr \<lparr>cv_status = Verified, cv_record_id = Some ''r'', cv_reasons = [],
           cv_retained_dmb_sha256 = Some (pad_digest ''x=1'')\<rparr>, cw_files)"
  by code_simp

lemma cw_coherent: "coherent_host cw_host"
  by (simp add: coherent_host_def cw_host_def inc_host_def)

theorem clean_compile_is_launchable_witness:
  "\<exists>l. require_launchable_artifact cw_host (Some cw_store) (inc_path ''a.dmb'') True = Inr l \<and>
     lp_status l = Verified \<and> lp_build_record_id l = Some ''r''"
proof -
  have here: "ph_files (rc_host cw_env) = cw_host" "ph_read (rc_host cw_env) = (\<lambda>_. None)"
    by (simp_all add: cw_env_def)
  from clean_compile_is_launchable[OF cw_captured cw_recorded] cw_coherent show ?thesis
    by (auto simp: here cw_store_def)
qed

theorem verified_launch_matches_compiled_closure_witness:
  "\<exists>now. capture_file_identity cw_host (inc_path ''a.dme'') = Inr now \<and>
     fi_sha256 now = pad_digest ''#include \"b.dm\"''"
proof -
  have here: "ph_files (rc_host cw_env) = cw_host" "ph_read (rc_host cw_env) = (\<lambda>_. None)"
    "ph_files (bs_host cw_store) = cw_host"
    by (simp_all add: cw_env_def cw_store_def)
  obtain l where l: "require_launchable_artifact cw_host (Some cw_store) (inc_path ''a.dmb'') True = Inr l"
    using clean_compile_launches[OF cw_captured cw_recorded] cw_coherent by (auto simp: here cw_store_def)
  have facts: "pb_reason cw_prepared = None" "parent (inc_path ''a.dme'') = Some [RootDir, Normal ''w'']"
    "resolve_artifact cw_host (bs_policy cw_store) (inc_path ''a.dmb'') = Inr (inc_path ''a.dmb'')"
    "location_key cw_host (inc_path ''a.dmb'') = Inr (pad_digest [])" by code_simp+
  have found: "read_build (bs_host cw_store) (bs_files cw_store) (pad_digest [])
      = Inr (Some (cw_record, Some cw_attempt))" by code_simp
  obtain t now bytes where "read_to_string cw_host (inc_path ''a.dme'') = Some t"
    "capture_file_identity cw_host (inc_path ''a.dme'') = Inr now"
    "fh_read cw_host (fi_path now) = Inr bytes" "fh_sha256 cw_host bytes = fh_sha256 cw_host t"
    using verified_launch_matches_compiled_closure[OF cw_captured facts(1,2), where s = cw_store,
        unfolded here, OF l facts(3,4) found[unfolded cw_record_def] environment cw_coherent] by blast
  moreover have "read_to_string cw_host (inc_path ''a.dme'') = Some ''#include \"b.dm\"''" by code_simp
  moreover have "fh_sha256 cw_host = pad_digest" by (simp add: cw_host_def)
  ultimately show ?thesis by (auto simp: file_identity_Inr)
qed

end
