(* ===== verification/Tool_Result.thy ===== *)
theory Tool_Result
  imports Json Tracy_Protocol
begin

text \<open>
  The shape of every tool result, from \<open>src/result.rs\<close>: metadata, success payloads and
  structured errors.  Printing JSON belongs to \<open>serde_json\<close>: \<open>compact\<close> stands for
  \<open>Value::to_string\<close> and \<open>pretty\<close> for \<open>to_string_pretty\<close>.  A payload arrives as the result of
  \<open>serde_json::to_value\<close>, which may fail.
\<close>

section \<open>Results\<close>

record domain_result =
  dr_content :: "string list"
  dr_is_error :: "bool option"

definition result_text :: "string \<Rightarrow> domain_result" where
  "result_text s = \<lparr>dr_content = [s], dr_is_error = None\<rparr>"

definition result_error :: "string \<Rightarrow> domain_result" where
  "result_error s = \<lparr>dr_content = [s], dr_is_error = Some True\<rparr>"

text \<open>\<open>ToolErrorCode\<close> is serialised in snake case.\<close>

fun error_code_name :: "tool_error_code \<Rightarrow> string" where
  "error_code_name InvalidInput = ''invalid_input''"
| "error_code_name PathOutsideWorkspace = ''path_outside_workspace''"
| "error_code_name ParseRequired = ''parse_required''"
| "error_code_name StaleGeneration = ''stale_generation''"
| "error_code_name NotFound = ''not_found''"
| "error_code_name AmbiguousSymbol = ''ambiguous_symbol''"
| "error_code_name UnsupportedUpstream = ''unsupported_upstream''"
| "error_code_name LimitExceeded = ''limit_exceeded''"
| "error_code_name TimedOut = ''timed_out''"
| "error_code_name InvalidCapture = ''invalid_capture''"
| "error_code_name CaptureNotReady = ''capture_not_ready''"
| "error_code_name RecoveryRequired = ''recovery_required''"
| "error_code_name WorkspaceIntegrityViolation = ''workspace_integrity_violation''"
| "error_code_name PartialEvidence = ''partial_evidence''"
| "error_code_name HelperFailure = ''helper_failure''"
| "error_code_name HelperChecksumMismatch = ''helper_checksum_mismatch''"
| "error_code_name ExternalToolFailure = ''external_tool_failure''"
| "error_code_name ToolNotAvailable = ''tool_not_available''"
| "error_code_name Internal = ''internal''"

definition structured_error_value ::
    "(json \<Rightarrow> string) \<Rightarrow> json \<Rightarrow> string \<Rightarrow> string option \<Rightarrow> (string \<times> json) list \<Rightarrow> domain_result" where
  "structured_error_value compact code message recovery details =
     result_error (compact (json_object [(''code'', code), (''message'', JStr message),
       (''recovery'', json_opt_str recovery), (''details'', JObj details)]))"

definition structured_error ::
    "(json \<Rightarrow> string) \<Rightarrow> tool_error_code \<Rightarrow> string \<Rightarrow> string option \<Rightarrow> json \<Rightarrow> domain_result" where
  "structured_error compact code message recovery details =
     structured_error_value compact (JStr (error_code_name code)) message recovery
       (case details of JObj m \<Rightarrow> m | v \<Rightarrow> [(''value'', v)])"

text \<open>\<open>DomainToolResult::structured_error\<close>\<close>

definition domain_structured_error ::
    "(json \<Rightarrow> string) \<Rightarrow> string \<Rightarrow> string \<Rightarrow> string \<Rightarrow> domain_result" where
  "domain_structured_error compact code message recovery =
     structured_error_value compact (JStr code) message (Some recovery) []"

section \<open>Success\<close>

text \<open>The build identity and the pinned upstream revision are values of the build.\<close>

record tool_metadata =
  tm_version :: string
  tm_build :: json
  tm_spacemandmm_revision :: string
  tm_state_generation :: "u64 option"
  tm_asset_generation :: "u64 option"
  tm_truncated :: bool
  tm_truncation_reasons :: "string list"

definition metadata_complete :: "string \<Rightarrow> json \<Rightarrow> string \<Rightarrow> u64 option \<Rightarrow> tool_metadata" where
  "metadata_complete version build revision generation =
     \<lparr>tm_version = version, tm_build = build, tm_spacemandmm_revision = revision,
      tm_state_generation = generation, tm_asset_generation = None, tm_truncated = False,
      tm_truncation_reasons = []\<rparr>"

definition generation_member :: "string \<Rightarrow> u64 option \<Rightarrow> (string \<times> json) list" where
  "generation_member key g = (case g of None \<Rightarrow> [] | Some n \<Rightarrow> [(key, JNum (PosInt n))])"

definition metadata_members :: "tool_metadata \<Rightarrow> (string \<times> json) list" where
  "metadata_members m =
     [(''meridian_mcp_version'', JStr (tm_version m)),
      (''meridian_mcp_build'', tm_build m),
      (''spacemandmm_revision'', JStr (tm_spacemandmm_revision m))]
     @ generation_member ''state_generation'' (tm_state_generation m)
     @ generation_member ''asset_generation'' (tm_asset_generation m)
     @ [(''truncated'', JBool (tm_truncated m)),
        (''truncation_reasons'', JArr (map JStr (tm_truncation_reasons m)))]"

fun json_type_name :: "json \<Rightarrow> string" where
  "json_type_name JNull = ''null''"
| "json_type_name (JBool _) = ''boolean''"
| "json_type_name (JNum _) = ''number''"
| "json_type_name (JStr _) = ''string''"
| "json_type_name (JArr _) = ''array''"
| "json_type_name (JObj _) = ''object''"

text \<open>The payload with the metadata inserted, member by member.\<close>

definition success_payload :: "tool_metadata \<Rightarrow> (string \<times> json) list \<Rightarrow> (string \<times> json) list" where
  "success_payload metadata payload =
     fold (\<lambda>(k, v) m. btree_insert k v m)
       (object_members (metadata_members metadata)) payload"

definition json_success ::
    "(json \<Rightarrow> string) \<Rightarrow> (json \<Rightarrow> string) \<Rightarrow> tool_metadata \<Rightarrow> string + json \<Rightarrow> domain_result" where
  "json_success compact pretty metadata data =
     (case data of
        Inl e \<Rightarrow> structured_error compact Internal ''could not serialize tool result'' None
                   (json_object [(''serialization_error'', JStr e)])
      | Inr (JObj payload) \<Rightarrow> result_text (pretty (JObj (success_payload metadata payload)))
      | Inr v \<Rightarrow> structured_error compact Internal ''tool success payload must be a JSON object'' None
                   (json_object [(''payload_type'', JStr (json_type_name v))]))"


lemma metadata_members_distinct: "distinct (map fst (metadata_members m))"
  by (auto simp: metadata_members_def generation_member_def split: option.splits)

lemma success_payload_members:
  assumes "btree payload"
  shows "btree (success_payload m payload)"
    and "map_of (success_payload m payload) = map_of payload ++ map_of (metadata_members m)"
proof -
  let ?ms = "object_members (metadata_members m)"
  have d: "distinct (map fst ?ms)" using object_members_btree by (simp add: btree_def)
  show "btree (success_payload m payload)"
    using assms by (simp add: success_payload_def fold_insert_all btree.insert_all_ok)
  show "map_of (success_payload m payload) = map_of payload ++ map_of (metadata_members m)"
    using assms metadata_members_distinct[of m] d
    by (simp add: success_payload_def fold_insert_all btree.look_insert_all map_of_rev_distinct
        map_of_object_members)
qed

section \<open>Property\<close>

text \<open>
  A success result is the payload with all of the metadata: every member of the payload
  that is not a metadata key is kept, every metadata key has the metadata's value even when
  the payload had a member of that name, and the members stay in key order.
\<close>

lemma json_success_carries_metadata:
  assumes "btree payload"
  shows "\<exists>members. json_success compact pretty m (Inr (JObj payload)) = result_text (pretty (JObj members))
    \<and> btree members
    \<and> (\<forall>k. map_of members k =
          (case map_of (metadata_members m) k of Some v \<Rightarrow> Some v | None \<Rightarrow> map_of payload k))
    \<and> json_get (JObj members) ''truncated'' = Some (JBool (tm_truncated m))"
proof (intro exI conjI)
  show "json_success compact pretty m (Inr (JObj payload))
      = result_text (pretty (JObj (success_payload m payload)))"
    by (simp add: json_success_def)
  show "btree (success_payload m payload)" using assms by (rule success_payload_members)
  show "\<forall>k. map_of (success_payload m payload) k =
      (case map_of (metadata_members m) k of Some v \<Rightarrow> Some v | None \<Rightarrow> map_of payload k)"
    using success_payload_members(2)[OF assms] by (simp add: map_add_def)
  have "map_of (metadata_members m) ''truncated'' = Some (JBool (tm_truncated m))"
    by (simp add: metadata_members_def generation_member_def split: option.split)
  then show "json_get (JObj (success_payload m payload)) ''truncated'' = Some (JBool (tm_truncated m))"
    by (simp add: success_payload_members(2)[OF assms])
qed

lemma json_success_carries_metadata_witness:
  "\<exists>members. json_success (\<lambda>_. []) (\<lambda>_. ''p'') (metadata_complete ''1'' JNull ''r'' (Some 7))
      (Inr (JObj [(''n'', JNull), (''truncated'', JNull)])) = result_text ''p''
    \<and> map_of members ''n'' = Some JNull \<and> map_of members ''truncated'' = Some (JBool False)"
proof -
  let ?m = "metadata_complete ''1'' JNull ''r'' (Some 7)"
  have "btree [(''n'', JNull), (''truncated'', JNull)]" by code_simp
  from json_success_carries_metadata[OF this, of "\<lambda>_. []" "\<lambda>_. ''p''" ?m]
  obtain members where "json_success (\<lambda>_. []) (\<lambda>_. ''p'') ?m
      (Inr (JObj [(''n'', JNull), (''truncated'', JNull)])) = result_text ''p''"
    "map_of members ''n'' = (case map_of (metadata_members ?m) ''n'' of Some v \<Rightarrow> Some v
        | None \<Rightarrow> map_of [(''n'', JNull), (''truncated'', JNull)] ''n'')"
    "map_of members ''truncated'' = Some (JBool (tm_truncated ?m))" by auto
  then show ?thesis
    by (intro exI[of _ members])
      (simp add: metadata_members_def generation_member_def metadata_complete_def)
qed

end
