(* ===== verification/Compile_Tool.thy ===== *)
theory Compile_Tool
  imports Compile_Provenance Tool_Result Tracy_Protocol
begin

text \<open>
  The compile tool, \<open>compile\<close> of \<open>src/tools/compile.rs\<close>, on a system that is not Windows: the
  request is read from its JSON arguments, the compiler is chosen from the allowlist, the
  evidence is captured, the compiler runs, its output is read for diagnostics, and the build is
  recorded.  Running the compiler turns the disk before into the disk after; the matches of the
  diagnostic pattern, the clock and the random identifiers are parameters.
\<close>

section \<open>Diagnostics\<close>

datatype diagnostic_severity = SeverityError | SeverityWarning

record compiler_diagnostic =
  di_file :: string
  di_line :: u32
  di_column :: "u32 option"
  di_severity :: diagnostic_severity
  di_message :: string

text \<open>The named groups of a match of the diagnostic pattern.\<close>

record diagnostic_captures =
  dc_file :: string
  dc_line :: string
  dc_column :: "string option"
  dc_severity :: string
  dc_message :: string

definition trim_end :: "string \<Rightarrow> string" where
  "trim_end s = rev (trim_front (map rev white_space) (rev s))"

definition parse_u32 :: "string \<Rightarrow> u32 option" where
  "parse_u32 s =
     (let digits = (case s of [] \<Rightarrow> s | c # cs \<Rightarrow> if c = CHR ''+'' then cs else s) in
      if digits \<noteq> [] \<and> list_all is_digit digits \<and> digits_value digits < 2 ^ 32
      then Some (of_nat (digits_value digits)) else None)"

definition parse_diagnostic_line ::
  "(string \<Rightarrow> diagnostic_captures option) \<Rightarrow> string \<Rightarrow> compiler_diagnostic option" where
  "parse_diagnostic_line captures line =
     Option.bind (captures (trim_end line)) (\<lambda>c.
     let name = to_ascii_lowercase (dc_severity c) in
     Option.bind (if name = ''error'' then Some SeverityError
                  else if name = ''warning'' then Some SeverityWarning else None) (\<lambda>severity.
     Option.bind (parse_u32 (dc_line c)) (\<lambda>n.
     Some \<lparr>di_file = dc_file c, di_line = n, di_column = Option.bind (dc_column c) parse_u32,
           di_severity = severity, di_message = trim (dc_message c)\<rparr>)))"

definition compile_succeeded :: "bool \<Rightarrow> nat \<Rightarrow> bool" where
  "compile_succeeded process_succeeded error_count \<longleftrightarrow> process_succeeded \<and> error_count = 0"

text \<open>The two lists the loop over the lines of both streams fills.\<close>

definition collect_diagnostics ::
  "(string \<Rightarrow> diagnostic_captures option) \<Rightarrow> string \<Rightarrow> string
   \<Rightarrow> compiler_diagnostic list \<times> compiler_diagnostic list" where
  "collect_diagnostics captures stdout stderr =
     fold (\<lambda>line (errors, warnings).
         case parse_diagnostic_line captures line of None \<Rightarrow> (errors, warnings)
         | Some d \<Rightarrow> (case di_severity d of
               SeverityError \<Rightarrow> (errors @ [d], warnings)
             | SeverityWarning \<Rightarrow> (errors, warnings @ [d])))
       (str_lines stdout @ str_lines stderr) ([], [])"

section \<open>Paths and arguments\<close>

definition resolve_requested_path :: "path \<Rightarrow> path option \<Rightarrow> path" where
  "resolve_requested_path requested working_directory =
     (if is_absolute requested then requested
      else case working_directory of Some d \<Rightarrow> join d requested | None \<Rightarrow> requested)"

definition normalize_spawn_path :: "path \<Rightarrow> path" where
  "normalize_spawn_path p = p"

definition compiler_dme_argument :: "filesystem \<Rightarrow> path \<Rightarrow> path \<Rightarrow> string" where
  "compiler_dme_argument fs p working_directory =
     fs_display fs (case strip_base p working_directory of
        Some relative \<Rightarrow> if relative \<noteq> [] then relative else p
      | None \<Rightarrow> p)"

definition DEFAULT_IDLE_TIMEOUT_MS :: u64 where "DEFAULT_IDLE_TIMEOUT_MS = 45000"
definition MAX_IDLE_TIMEOUT_MS :: u64 where "MAX_IDLE_TIMEOUT_MS = 900000"

definition unwrap_or :: "'a \<Rightarrow> 'a option \<Rightarrow> 'a" where
  "unwrap_or d x = (case x of None \<Rightarrow> d | Some y \<Rightarrow> y)"

definition compile_timeout :: "json \<Rightarrow> u64" where
  "compile_timeout args = min (unwrap_or 600000 (Option.bind (json_get args ''timeout_ms'') as_u64)) 1800000"

definition compile_idle_timeout :: "json \<Rightarrow> u64" where
  "compile_idle_timeout args =
     max 1000 (min (unwrap_or DEFAULT_IDLE_TIMEOUT_MS (Option.bind (json_get args ''idle_timeout_ms'') as_u64))
       MAX_IDLE_TIMEOUT_MS)"

definition compile_defines :: "json \<Rightarrow> string list" where
  "compile_defines args =
     (case Option.bind (json_get args ''defines'') as_array of None \<Rightarrow> []
      | Some values \<Rightarrow> map (\<lambda>d. if prefix ''-D'' d then d else ''-D'' @ d) (List.map_filter as_str values))"


section \<open>The tool\<close>

record process_spec =
  ps_program :: path
  ps_arguments :: "string list"
  ps_working_directory :: path
  ps_environment :: "(string \<times> string) list"
  ps_timeout_ms :: u64
  ps_idle_timeout_ms :: u64
  ps_capture_network :: bool

record process_execution =
  px_termination :: termination_reason
  px_exit_code :: "int option"
  px_duration_ms :: nat
  px_stdout :: string
  px_stderr :: string
  px_stdout_truncated :: u64
  px_stderr_truncated :: u64
  px_network_audit :: "json option"

record compile_report =
  cr_success :: bool
  cr_timed_out :: bool
  cr_idle :: bool
  cr_termination :: termination_reason
  cr_duration_ms :: nat
  cr_timeout_ms :: u64
  cr_idle_timeout_ms :: u64
  cr_exit_code :: "int option"
  cr_dme_argument :: string
  cr_spawn_working_directory :: string
  cr_dmb_exists :: bool
  cr_dmb_updated :: bool
  cr_dmb_path :: "string option"
  cr_artifact_before :: artifact_snapshot
  cr_artifact_after :: artifact_snapshot
  cr_compiler :: string
  cr_working_directory :: "string option"
  cr_defines :: json
  cr_errors :: "compiler_diagnostic list"
  cr_warnings :: "compiler_diagnostic list"
  cr_stdout :: string
  cr_stderr :: string
  cr_stdout_truncated_bytes :: u64
  cr_stderr_truncated_bytes :: u64
  cr_network_audit :: "json option"
  cr_provenance :: compile_verdict

text \<open>
  The results of the tool: a plain error text, a structured error by its code and message, or
  the report, which is a success exactly when the build is.
\<close>

datatype compile_outcome =
    CompileText string
  | CompileRefused string string
  | CompileReport compile_report

datatype compile_failure =
    MissingDmePath
  | FixtureRejected fixture_error
  | CompileIo string
  | NoProjectRoot
  | ArtifactRejected file_error
  | ProvenanceFailed provenance_error

record compile_env =
  ce_disk :: file_host
  ce_policy :: path_policy
  ce_codec :: fixture_codec
  ce_snapshot :: "analysis_view option"
  ce_not_found :: "string \<Rightarrow> bool"
  ce_environment :: "(string \<times> string) list"
  ce_run :: "process_spec \<Rightarrow> string + process_execution \<times> file_host"
  ce_captures :: "string \<Rightarrow> diagnostic_captures option"
  ce_store :: "recording_env option"

text \<open>The store as it is after the compiler ran.\<close>

definition store_on :: "file_host \<Rightarrow> recording_env option \<Rightarrow> recording_env option" where
  "store_on h store =
     map_option (\<lambda>env. env\<lparr>rc_host := (rc_host env)\<lparr>ph_files := h\<rparr>\<rparr>) store"

definition select_compiler :: "filesystem \<Rightarrow> path_policy \<Rightarrow> json \<Rightarrow> compile_outcome + path" where
  "select_compiler fs pol args =
     (let allowed = (\<lambda>p. map_err (\<lambda>e. CompileRefused (pe_code e) (pe_message e)) (executable fs pol p)) in
      case get_str args ''compiler_path'' of
        Some s \<Rightarrow> allowed (fs_from_str fs s)
      | None \<Rightarrow>
          (case pp_executables pol of
             [] \<Rightarrow> Inl (CompileRefused ''compiler_not_configured''
               ''dm_compile requires a startup-allowlisted DreamMaker compiler when compiler_path is omitted.'')
           | [configured] \<Rightarrow> allowed configured
           | _ \<Rightarrow> Inl (CompileRefused ''compiler_ambiguous''
               ''dm_compile cannot select among multiple startup-allowlisted compilers when compiler_path is omitted.'')))"

definition dmb_fresh :: "artifact_snapshot \<Rightarrow> artifact_snapshot \<Rightarrow> bool" where
  "dmb_fresh before after \<longleftrightarrow>
     as_exists after \<and>
     (\<not> as_exists before \<or> as_sha256 before \<noteq> as_sha256 after \<or>
      as_modified_unix_ms before \<noteq> as_modified_unix_ms after)"

definition failure_code_of :: "termination_reason \<Rightarrow> string" where
  "failure_code_of t =
     (if t = WallTimeout then ''compile_timed_out''
      else if t = IdleTimeout then ''compile_idle_timed_out'' else ''compiler_failed'')"

text \<open>The request: the environment, the fixture and the compiler, or an early result.\<close>

definition load_fixture ::
  "compile_env \<Rightarrow> json \<Rightarrow> (compile_failure + verified_fixture_manifest option) option" where
  "load_fixture env args =
     (case get_str args ''fixture_manifest_path'' of None \<Rightarrow> Some (Inr None)
      | Some s \<Rightarrow>
          map_option (\<lambda>r. rbind (map_err FixtureRejected r) (\<lambda>f. Inr (Some f)))
            (fixture_load (ce_disk env) (ce_codec env) (ce_policy env)
              (fs_from_str (fh_fs (ce_disk env)) s)))"

definition fixture_matches :: "verified_fixture_manifest option \<Rightarrow> path \<Rightarrow> bool" where
  "fixture_matches fixture dme =
     (case fixture of None \<Rightarrow> True
      | Some f \<Rightarrow> vm_dme_path f = dme \<and> vm_dmb_path f = with_extension dme ''dmb'')"

text \<open>What is run: the directory of the compiler, its arguments, its limits.\<close>

definition compiler_directory :: "path \<Rightarrow> path option \<Rightarrow> path" where
  "compiler_directory dme working_directory =
     (case map_option normalize_spawn_path working_directory of Some d \<Rightarrow> d
      | None \<Rightarrow> unwrap_or [CurDir] (parent (normalize_spawn_path dme)))"

definition compile_spec :: "compile_env \<Rightarrow> json \<Rightarrow> path \<Rightarrow> path option \<Rightarrow> path \<Rightarrow> process_spec" where
  "compile_spec env args dme working_directory compiler =
     \<lparr>ps_program = compiler,
      ps_arguments = compile_defines args @
        [compiler_dme_argument (fh_fs (ce_disk env)) (normalize_spawn_path dme)
           (compiler_directory dme working_directory)],
      ps_working_directory = compiler_directory dme working_directory,
      ps_environment = ce_environment env, ps_timeout_ms = compile_timeout args,
      ps_idle_timeout_ms = compile_idle_timeout args,
      ps_capture_network = unwrap_or False (get_bool args ''capture_network'')\<rparr>"

text \<open>The evidence, the run of the compiler, and the artifact before and after it.\<close>

record compile_run =
  cn_before :: artifact_snapshot
  cn_prepared :: prepared_build
  cn_execution :: process_execution
  cn_disk :: file_host
  cn_after :: artifact_snapshot

definition run_compiler ::
  "compile_env \<Rightarrow> path \<Rightarrow> verified_fixture_manifest option \<Rightarrow> process_spec \<Rightarrow> compile_failure + compile_run" where
  "run_compiler env dme fixture spec =
     (let h = ce_disk env; dmb_path = with_extension dme ''dmb'' in
      rbind (or_err NoProjectRoot (parent dme)) (\<lambda>project_root.
      rbind (map_err ArtifactRejected (capture_artifact h project_root dmb_path)) (\<lambda>before.
      rbind (map_err ProvenanceFailed (prepared_capture h (ce_not_found env) (ce_policy env)
               (ce_snapshot env) fixture dme (ps_program spec) (ps_arguments spec)
               (ps_working_directory spec))) (\<lambda>prepared.
      rbind (map_err CompileIo (ce_run env spec)) (\<lambda>(execution, disk).
      rbind (map_err ArtifactRejected (capture_artifact disk project_root dmb_path)) (\<lambda>after.
      Inr \<lparr>cn_before = before, cn_prepared = prepared, cn_execution = execution, cn_disk = disk,
           cn_after = after\<rparr>))))))"

definition run_errors :: "compile_env \<Rightarrow> compile_run \<Rightarrow> compiler_diagnostic list \<times> compiler_diagnostic list" where
  "run_errors env run =
     collect_diagnostics (ce_captures env) (px_stdout (cn_execution run)) (px_stderr (cn_execution run))"

definition run_succeeded :: "compile_env \<Rightarrow> compile_run \<Rightarrow> bool" where
  "run_succeeded env run =
     compile_succeeded
       (px_termination (cn_execution run) = Exited \<and> px_exit_code (cn_execution run) = Some 0)
       (length (fst (run_errors env run)))"

definition compile_report_of ::
  "compile_env \<Rightarrow> json \<Rightarrow> path option \<Rightarrow> process_spec \<Rightarrow> compile_run \<Rightarrow> compile_verdict \<Rightarrow> compile_report" where
  "compile_report_of env args working_directory spec run v =
     (let fs = fh_fs (ce_disk env); execution = cn_execution run; after = cn_after run in
      \<lparr>cr_success = run_succeeded env run,
       cr_timed_out = (px_termination execution = WallTimeout),
       cr_idle = (px_termination execution = IdleTimeout),
       cr_termination = px_termination execution, cr_duration_ms = px_duration_ms execution,
       cr_timeout_ms = ps_timeout_ms spec, cr_idle_timeout_ms = ps_idle_timeout_ms spec,
       cr_exit_code = px_exit_code execution, cr_dme_argument = last (ps_arguments spec),
       cr_spawn_working_directory = fs_display fs (ps_working_directory spec),
       cr_dmb_exists = as_exists after, cr_dmb_updated = dmb_fresh (cn_before run) after,
       cr_dmb_path = (if as_exists after then Some (fs_display fs (as_path after)) else None),
       cr_artifact_before = cn_before run, cr_artifact_after = after,
       cr_compiler = fs_display fs (ps_program spec),
       cr_working_directory = map_option (fs_display fs) working_directory,
       cr_defines = unwrap_or (JArr []) (json_get args ''defines''),
       cr_errors = fst (run_errors env run), cr_warnings = snd (run_errors env run),
       cr_stdout = px_stdout execution, cr_stderr = px_stderr execution,
       cr_stdout_truncated_bytes = px_stdout_truncated execution,
       cr_stderr_truncated_bytes = px_stderr_truncated execution,
       cr_network_audit = px_network_audit execution, cr_provenance = v\<rparr>)"

text \<open>From the evidence to the report, once the request is settled.\<close>

definition run_compile ::
  "compile_env \<Rightarrow> json \<Rightarrow> path \<Rightarrow> path option \<Rightarrow> verified_fixture_manifest option \<Rightarrow> path
   \<Rightarrow> provenance_files \<Rightarrow> (compile_failure + compile_outcome) \<times> provenance_files" where
  "run_compile env args dme working_directory fixture compiler st =
     (let spec = compile_spec env args dme working_directory compiler in
      case run_compiler env dme fixture spec of Inl e \<Rightarrow> (Inl e, st)
      | Inr run \<Rightarrow>
          (case record_compile_provenance (store_on (cn_disk run) (ce_store env)) (cn_prepared run)
                  fixture dme (with_extension dme ''dmb'') (cn_after run) (run_succeeded env run)
                  (dmb_fresh (cn_before run) (cn_after run))
                  (failure_code_of (px_termination (cn_execution run))) st of
             (Inl e, st) \<Rightarrow> (Inl (ProvenanceFailed e), st)
           | (Inr v, st) \<Rightarrow>
               (Inr (CompileReport (compile_report_of env args working_directory spec run v)), st)))"

text \<open>
  The whole tool.  \<open>None\<close> is the panic inside \<open>FixtureManifest::load\<close> of a canonical manifest
  path without a directory.
\<close>

definition compile_tool ::
  "compile_env \<Rightarrow> json \<Rightarrow> provenance_files
   \<Rightarrow> ((compile_failure + compile_outcome) \<times> provenance_files) option" where
  "compile_tool env args st =
     (let h = ce_disk env; fs = fh_fs h in
      case get_str args ''dme_path'' of None \<Rightarrow> Some (Inl MissingDmePath, st)
      | Some dme_text \<Rightarrow>
          (let requested_directory = map_option (fs_from_str fs) (get_str args ''working_directory'');
               p = resolve_requested_path (fs_from_str fs dme_text) requested_directory
           in if \<not> fs_exists fs p then Some (Inr (CompileText (''File not found: '' @ dme_text)), st)
              else case fs_canonicalize fs p of Inl e \<Rightarrow> Some (Inl (CompileIo e), st)
              | Inr dme \<Rightarrow>
                  (case load_fixture env args of None \<Rightarrow> None
                   | Some (Inl e) \<Rightarrow> Some (Inl e, st)
                   | Some (Inr fixture) \<Rightarrow>
                       if \<not> fixture_matches fixture dme
                       then Some (Inr (CompileRefused ''fixture_manifest_mismatch''
                         ''fixture manifest DME/DMB paths do not match the compile request''), st)
                       else case select_compiler fs (ce_policy env) args of
                         Inl refused \<Rightarrow> Some (Inr refused, st)
                       | Inr compiler \<Rightarrow>
                           (case (case requested_directory of None \<Rightarrow> Inr (parent dme)
                                  | Some d \<Rightarrow> rbind (fs_canonicalize fs (resolve_requested_path d None))
                                                (\<lambda>d. Inr (Some d)))
                            of Inl e \<Rightarrow> Some (Inl (CompileIo e), st)
                             | Inr working_directory \<Rightarrow>
                                 Some (run_compile env args dme working_directory fixture compiler st)))))"


section \<open>What a report says\<close>

lemma collect_diagnostics_filter:
  "collect_diagnostics captures stdout stderr =
     (filter (\<lambda>d. di_severity d = SeverityError)
        (List.map_filter (parse_diagnostic_line captures) (str_lines stdout @ str_lines stderr)),
      filter (\<lambda>d. di_severity d = SeverityWarning)
        (List.map_filter (parse_diagnostic_line captures) (str_lines stdout @ str_lines stderr)))"
proof -
  let ?step = "\<lambda>line (errors, warnings).
      case parse_diagnostic_line captures line of None \<Rightarrow> (errors, warnings)
      | Some d \<Rightarrow> (case di_severity d of SeverityError \<Rightarrow> (errors @ [d], warnings)
          | SeverityWarning \<Rightarrow> (errors, warnings @ [d]))"
  have "fold ?step ls (es, ws) =
      (es @ filter (\<lambda>d. di_severity d = SeverityError) (List.map_filter (parse_diagnostic_line captures) ls),
       ws @ filter (\<lambda>d. di_severity d = SeverityWarning) (List.map_filter (parse_diagnostic_line captures) ls))"
    for ls es ws
  proof (induction ls arbitrary: es ws)
    case (Cons l ls)
    show ?case
    proof (cases "parse_diagnostic_line captures l")
      case None
      with Cons show ?thesis by (simp add: map_filter_simps)
    next
      case (Some d)
      with Cons show ?thesis by (cases "di_severity d") (simp_all add: map_filter_simps)
    qed
  qed (simp add: map_filter_simps)
  from this[of "str_lines stdout @ str_lines stderr" "[]" "[]"] show ?thesis
    by (simp add: collect_diagnostics_def)
qed

lemma filter_map_filter_Nil:
  "filter P (List.map_filter f xs) = [] \<longleftrightarrow> (\<forall>x \<in> set xs. \<forall>y. f x = Some y \<longrightarrow> \<not> P y)"
  by (induction xs) (auto simp: map_filter_simps split: option.split)

lemma compile_timeout_bound: "compile_timeout args \<le> 1800000"
  by (simp add: compile_timeout_def)

lemma compile_idle_timeout_bounds:
  "1000 \<le> compile_idle_timeout args" "compile_idle_timeout args \<le> 900000"
  by (simp_all add: compile_idle_timeout_def MAX_IDLE_TIMEOUT_MS_def)

lemma select_compiler_allowed:
  "select_compiler fs pol args = Inr p \<Longrightarrow> p \<in> set (pp_executables pol)"
  by (auto simp: select_compiler_def Let_def map_err_Inr executing.decide_iff split: option.splits list.splits)

lemma select_compiler_refused:
  "select_compiler fs pol args = Inl x \<Longrightarrow> x \<noteq> CompileReport r"
  by (auto simp: select_compiler_def Let_def map_err_def split: option.splits list.splits sum.splits)

lemma run_compiler_Inr:
  "run_compiler env dme fixture spec = Inr run \<Longrightarrow>
     ce_run env spec = Inr (cn_execution run, cn_disk run) \<and>
     prepared_capture (ce_disk env) (ce_not_found env) (ce_policy env) (ce_snapshot env) fixture dme
       (ps_program spec) (ps_arguments spec) (ps_working_directory spec) = Inr (cn_prepared run) \<and>
     (\<exists>root. parent dme = Some root \<and>
        capture_artifact (ce_disk env) root (with_extension dme ''dmb'') = Inr (cn_before run) \<and>
        capture_artifact (cn_disk run) root (with_extension dme ''dmb'') = Inr (cn_after run))"
  by (auto simp: run_compiler_def Let_def result_Inr)

lemma run_compile_report:
  assumes "run_compile env args dme wd fixture compiler st = (Inr (CompileReport r), st')"
  shows "\<exists>run. run_compiler env dme fixture (compile_spec env args dme wd compiler) = Inr run \<and>
    r = compile_report_of env args wd (compile_spec env args dme wd compiler) run (cr_provenance r) \<and>
    record_compile_provenance (store_on (cn_disk run) (ce_store env)) (cn_prepared run)
      fixture dme (with_extension dme ''dmb'') (cn_after run) (run_succeeded env run)
      (dmb_fresh (cn_before run) (cn_after run))
      (failure_code_of (px_termination (cn_execution run))) st = (Inr (cr_provenance r), st')"
proof -
  let ?spec = "compile_spec env args dme wd compiler"
  obtain run where run: "run_compiler env dme fixture ?spec = Inr run"
    using assms by (cases "run_compiler env dme fixture ?spec") (simp_all add: run_compile_def)
  let ?res = "record_compile_provenance (store_on (cn_disk run) (ce_store env)) (cn_prepared run)
      fixture dme (with_extension dme ''dmb'') (cn_after run) (run_succeeded env run)
      (dmb_fresh (cn_before run) (cn_after run))
      (failure_code_of (px_termination (cn_execution run))) st"
  have step: "run_compile env args dme wd fixture compiler st = (case ?res of
      (Inl e, st) \<Rightarrow> (Inl (ProvenanceFailed e), st)
    | (Inr v, st) \<Rightarrow> (Inr (CompileReport (compile_report_of env args wd ?spec run v)), st))"
    by (simp add: run_compile_def run)
  obtain a b where ab: "?res = (a, b)" by (cases ?res)
  obtain v where a: "a = Inr v" using assms unfolding step ab by (cases a) simp_all
  have "(Inr (CompileReport (compile_report_of env args wd ?spec run v)), b)
      = (Inr (CompileReport r) :: compile_failure + compile_outcome, st')"
    using assms by (simp only: step ab a prod.case sum.case)
  then have r: "r = compile_report_of env args wd ?spec run v" and b: "b = st'"
    by (blast, blast)
  have v: "?res = (Inr v, st')" by (simp only: ab a b)
  have pv: "cr_provenance r = v" unfolding r by (simp add: compile_report_of_def Let_def)
  show ?thesis
    by (rule exI[of _ run], intro conjI run, unfold pv) (rule r, rule v)
qed

lemma compile_tool_report:
  assumes "compile_tool env args st = Some (Inr (CompileReport r), st')"
  shows "\<exists>dme wd fixture compiler. run_compile env args dme wd fixture compiler st
      = (Inr (CompileReport r), st') \<and>
    select_compiler (fh_fs (ce_disk env)) (ce_policy env) args = Inr compiler \<and>
    fixture_matches fixture dme"
  using assms
  by (auto simp: compile_tool_def Let_def split: option.splits if_splits sum.splits
      dest: select_compiler_refused)


text \<open>
  C23. What a compile report says: a compilation is reported as a success exactly when the
  compiler, which is one of the allowlist and was run within the bounds of its two timeouts,
  exited by itself with code 0 and no line of its output is an error diagnostic; and the
  provenance verdict is without reservations only for a success that left a fresh artifact.
\<close>

theorem compile_report_is_truthful:
  assumes "compile_tool env args st = Some (Inr (CompileReport r), st')"
  shows "\<exists>spec execution disk. ce_run env spec = Inr (execution, disk) \<and>
    ps_program spec \<in> set (pp_executables (ce_policy env)) \<and>
    ps_timeout_ms spec \<le> 1800000 \<and> 1000 \<le> ps_idle_timeout_ms spec \<and>
    ps_idle_timeout_ms spec \<le> 900000 \<and>
    (cr_success r \<longleftrightarrow> px_termination execution = Exited \<and> px_exit_code execution = Some 0 \<and>
       (\<forall>line \<in> set (str_lines (px_stdout execution) @ str_lines (px_stderr execution)).
          \<forall>d. parse_diagnostic_line (ce_captures env) line = Some d \<longrightarrow> di_severity d \<noteq> SeverityError)) \<and>
    (ce_store env \<noteq> None \<and> cv_reasons (cr_provenance r) = [] \<longrightarrow>
       cr_success r \<and> dmb_fresh (cr_artifact_before r) (cr_artifact_after r))"
proof -
  obtain dme wd fixture compiler where
    run_tool: "run_compile env args dme wd fixture compiler st = (Inr (CompileReport r), st')"
    and compiler: "select_compiler (fh_fs (ce_disk env)) (ce_policy env) args = Inr compiler"
    using compile_tool_report[OF assms] by blast
  let ?spec = "compile_spec env args dme wd compiler"
  obtain run where run: "run_compiler env dme fixture ?spec = Inr run"
    and r: "r = compile_report_of env args wd ?spec run (cr_provenance r)"
    and recorded: "record_compile_provenance (store_on (cn_disk run) (ce_store env)) (cn_prepared run)
      fixture dme (with_extension dme ''dmb'') (cn_after run) (run_succeeded env run)
      (dmb_fresh (cn_before run) (cn_after run))
      (failure_code_of (px_termination (cn_execution run))) st = (Inr (cr_provenance r), st')"
    using run_compile_report[OF run_tool] by (elim exE conjE)
  have fields: "cr_success r = run_succeeded env run" "cr_artifact_before r = cn_before run"
    "cr_artifact_after r = cn_after run"
    by (subst r, simp add: compile_report_of_def Let_def)+
  have spec: "ps_program ?spec = compiler" "ps_timeout_ms ?spec = compile_timeout args"
    "ps_idle_timeout_ms ?spec = compile_idle_timeout args"
    by (simp_all add: compile_spec_def)
  have success: "run_succeeded env run \<longleftrightarrow>
      px_termination (cn_execution run) = Exited \<and> px_exit_code (cn_execution run) = Some 0 \<and>
      (\<forall>line \<in> set (str_lines (px_stdout (cn_execution run)) @ str_lines (px_stderr (cn_execution run))).
         \<forall>d. parse_diagnostic_line (ce_captures env) line = Some d \<longrightarrow> di_severity d \<noteq> SeverityError)"
    by (simp only: run_succeeded_def compile_succeeded_def run_errors_def collect_diagnostics_filter
        fst_conv length_0_conv filter_map_filter_Nil simp_thms conj_assoc)
  have clean: "run_succeeded env run \<and> dmb_fresh (cn_before run) (cn_after run)"
    if store: "ce_store env \<noteq> None" and none: "cv_reasons (cr_provenance r) = []"
  proof -
    obtain rc where rc: "ce_store env = Some rc" using store by auto
    show ?thesis
      using record_compile_clean[OF recorded[unfolded store_on_def rc option.map] none] by simp
  qed
  show ?thesis
    using run_compiler_Inr[OF run] select_compiler_allowed[OF compiler] compile_timeout_bound
      compile_idle_timeout_bounds success clean unfolding fields
    by (intro exI[of _ ?spec] exI[of _ "cn_execution run"] exI[of _ "cn_disk run"]) (simp add: spec)
qed


section \<open>A concrete run of the tool\<close>

definition ct_host :: "nat \<Rightarrow> file_host" where
  "ct_host modified = cw_host
     \<lparr>fh_fs := (fh_fs cw_host)\<lparr>fs_from_str := inc_path\<rparr>,
      fh_metadata := (\<lambda>p. Inr (True, 1, Some modified))\<rparr>"

definition ct_execution :: process_execution where
  "ct_execution = \<lparr>px_termination = Exited, px_exit_code = Some 0, px_duration_ms = 3,
     px_stdout = [], px_stderr = [], px_stdout_truncated = 0,
     px_stderr_truncated = 0, px_network_audit = None\<rparr>"

definition ct_env :: compile_env where
  "ct_env =
     \<lparr>ce_disk = ct_host 1, ce_policy = cw_policy\<lparr>pp_executables := [inc_path ''dm'']\<rparr>,
      ce_codec = fx_codec, ce_snapshot = Some inc_view, ce_not_found = (\<lambda>_. True),
      ce_environment = [], ce_run = (\<lambda>_. Inr (ct_execution, ct_host 2)),
      ce_captures = (\<lambda>line. Some \<lparr>dc_file = ''a.dme'', dc_line = ''1'', dc_column = None,
        dc_severity = ''Warning'', dc_message = ''w''\<rparr>),
      ce_store = None\<rparr>"

definition ct_args :: json where
  "ct_args = JObj [(''dme_path'', JStr ''a.dme'')]"

definition ct_files :: provenance_files where
  "ct_files = \<lparr>pf_locations = [], pf_builds = [], pf_attempts = []\<rparr>"

definition ct_spec :: process_spec where
  "ct_spec = \<lparr>ps_program = inc_path ''dm'', ps_arguments = [[]],
     ps_working_directory = [RootDir, Normal ''w''], ps_environment = [], ps_timeout_ms = 600000,
     ps_idle_timeout_ms = 45000, ps_capture_network = False\<rparr>"

lemma ct_spec: "compile_spec ct_env ct_args (inc_path ''a.dme'') (Some [RootDir, Normal ''w'']) (inc_path ''dm'') = ct_spec"
  by code_simp

lemma ct_captured:
  "prepared_capture (ct_host 1) (\<lambda>_. True) (cw_policy\<lparr>pp_executables := [inc_path ''dm'']\<rparr>)
     (Some inc_view) None (inc_path ''a.dme'') (inc_path ''dm'') [[]] [RootDir, Normal ''w'']
   = Inr (cw_prepared\<lparr>pb_verification := (pb_verification cw_prepared)\<lparr>bv_arguments := [[]]\<rparr>\<rparr>)"
  by code_simp

definition ct_snapshot :: "nat \<Rightarrow> artifact_snapshot" where
  "ct_snapshot modified = \<lparr>as_path = inc_path ''a.dmb'', as_exists = True, as_size = Some 1,
     as_modified_unix_ms = Some modified, as_sha256 = Some (pad_digest ''x=1'')\<rparr>"

definition ct_run :: compile_run where
  "ct_run = \<lparr>cn_before = ct_snapshot 1,
     cn_prepared = cw_prepared\<lparr>pb_verification := (pb_verification cw_prepared)\<lparr>bv_arguments := [[]]\<rparr>\<rparr>,
     cn_execution = ct_execution, cn_disk = ct_host 2, cn_after = ct_snapshot 2\<rparr>"

lemma ct_snapshots:
  "capture_artifact (ct_host n) [RootDir, Normal ''w''] (with_extension (inc_path ''a.dme'') ''dmb'')
     = Inr (ct_snapshot n)"
  by code_simp

lemma ct_runs: "run_compiler ct_env (inc_path ''a.dme'') None ct_spec = Inr ct_run"
proof -
  have "parent (inc_path ''a.dme'') = Some [RootDir, Normal ''w'']" by code_simp
  then show ?thesis
    using ct_captured ct_snapshots
    by (simp add: run_compiler_def ct_env_def ct_spec_def ct_run_def or_err_def map_err_def)
qed

lemma ct_tool:
  "compile_tool ct_env ct_args ct_files =
     (Some (run_compile ct_env ct_args (inc_path ''a.dme'') (Some [RootDir, Normal ''w'']) None
       (inc_path ''dm'') ct_files))"
proof -
  have request: "get_str ct_args ''dme_path'' = Some ''a.dme''" "get_str ct_args ''working_directory'' = None"
    "parent (inc_path ''a.dme'') = Some [RootDir, Normal ''w'']" "is_absolute (inc_path ''a.dme'')"
    "get_str ct_args ''fixture_manifest_path'' = None" "get_str ct_args ''compiler_path'' = None"
    by code_simp+
  have fs: "fs_canonicalize (fh_fs (ce_disk ct_env)) p = Inr p" "fs_exists (fh_fs (ce_disk ct_env)) p"
    "fs_from_str (fh_fs (ce_disk ct_env)) s = inc_path s" for p s
    by (simp_all add: ct_env_def ct_host_def cw_host_def inc_host_def)
  have allowed: "pp_executables (ce_policy ct_env) = [inc_path ''dm'']" by (simp add: ct_env_def)
  then have "executable (fh_fs (ce_disk ct_env)) (ce_policy ct_env) (inc_path ''dm'') = Inr (inc_path ''dm'')"
    by (simp add: executing.decide_iff fs)
  then have chosen: "select_compiler (fh_fs (ce_disk ct_env)) (ce_policy ct_env) ct_args = Inr (inc_path ''dm'')"
    by (simp add: select_compiler_def request allowed map_err_def)
  show ?thesis 
    by (simp add: compile_tool_def Let_def request fs chosen load_fixture_def resolve_requested_path_def
        fixture_matches_def)
qed

theorem compile_report_is_truthful_witness:
  "\<exists>r st'. compile_tool ct_env ct_args ct_files = Some (Inr (CompileReport r), st') \<and> cr_success r \<and>
    (\<exists>spec execution disk. ce_run ct_env spec = Inr (execution, disk) \<and> px_exit_code execution = Some 0)"
proof -
  have none: "ce_store ct_env = None" by (simp add: ct_env_def)
  let ?report = "compile_report_of ct_env ct_args (Some [RootDir, Normal ''w'']) ct_spec ct_run"
  obtain v where recorded: "record_compile_provenance None (cn_prepared ct_run) None (inc_path ''a.dme'')
      (with_extension (inc_path ''a.dme'') ''dmb'') (cn_after ct_run) (run_succeeded ct_env ct_run)
      (dmb_fresh (cn_before ct_run) (cn_after ct_run))
      (failure_code_of (px_termination (cn_execution ct_run))) ct_files = (Inr v, ct_files)"
    by (rule that, unfold record_compile_provenance_def option.case, rule refl)
  have tool: "compile_tool ct_env ct_args ct_files = Some (Inr (CompileReport (?report v)), ct_files)"
    unfolding ct_tool run_compile_def Let_def ct_spec ct_runs sum.case none store_on_def option.map
      recorded prod.case ..
  have "run_succeeded ct_env ct_run"
    by (simp add: run_succeeded_def compile_succeeded_def run_errors_def collect_diagnostics_def
        str_lines_def ct_run_def ct_execution_def)
  then have "cr_success (?report v)"
    by (simp add: compile_report_of_def Let_def)
  moreover from this compile_report_is_truthful[OF tool] have
    "\<exists>spec execution disk. ce_run ct_env spec = Inr (execution, disk) \<and> px_exit_code execution = Some 0"
    by blast
  ultimately show ?thesis using tool by blast
qed

end
