(* ===== verification/Limits.thy ===== *)
theory Limits
  imports Prelude
begin

text \<open>
  The fixed limits of \<open>src/limits.rs\<close>.  Sizes and counts are natural numbers; the sizes that
  the code keeps in 64 bits are compared after conversion, which their values do not overflow.
\<close>

record server_limits =
  max_result_bytes :: nat
  max_blocking_jobs :: nat
  max_reference_results :: nat
  max_document_symbols :: nat
  max_dmi_files :: nat
  max_dmi_input_bytes :: nat
  max_dmi_file_bytes :: nat
  max_dmi_decoded_pixels :: nat
  max_dmi_metadata_bytes :: nat
  max_dmi_decoder_bytes :: nat
  max_dmi_scan_decoded_bytes :: nat
  max_dmi_scan_metadata_bytes :: nat
  max_dmi_scan_states :: nat
  max_dmi_scan_frames :: nat
  max_dmi_states :: nat
  max_dmi_frames :: nat
  max_dmi_cache_entries :: nat
  max_dmi_cache_bytes :: nat
  max_dmi_matches :: nat
  max_dmi_candidates :: nat
  max_map_differences :: nat
  max_render_pixels :: nat
  max_render_output_bytes :: nat
  max_render_files :: nat
  max_render_chunks :: nat
  max_docs_files :: nat
  max_docs_output_bytes :: nat
  max_docs_duration_ms :: nat
  max_debug_message_bytes :: nat
  max_debug_events :: nat
  max_debug_output_bytes :: nat
  max_debug_startup_ms :: nat
  max_debug_request_ms :: nat
  max_debug_frames :: nat
  max_debug_variables :: nat

definition default_limits :: server_limits where
  "default_limits = \<lparr>
     max_result_bytes = 1048576,
     max_blocking_jobs = 4,
     max_reference_results = 10000,
     max_document_symbols = 20000,
     max_dmi_files = 20000,
     max_dmi_input_bytes = 2 * 1024 * 1024 * 1024,
     max_dmi_file_bytes = 64 * 1024 * 1024,
     max_dmi_decoded_pixels = 64000000,
     max_dmi_metadata_bytes = 4 * 1024 * 1024,
     max_dmi_decoder_bytes = 256 * 1024 * 1024,
     max_dmi_scan_decoded_bytes = 512 * 1024 * 1024,
     max_dmi_scan_metadata_bytes = 32 * 1024 * 1024,
     max_dmi_scan_states = 100000,
     max_dmi_scan_frames = 1000000,
     max_dmi_states = 100000,
     max_dmi_frames = 1000000,
     max_dmi_cache_entries = 128,
     max_dmi_cache_bytes = 512 * 1024 * 1024,
     max_dmi_matches = 10000,
     max_dmi_candidates = 2000000,
     max_map_differences = 100000,
     max_render_pixels = 268435456,
     max_render_output_bytes = 512 * 1024 * 1024,
     max_render_files = 128,
     max_render_chunks = 512,
     max_docs_files = 100000,
     max_docs_output_bytes = 1024 * 1024 * 1024,
     max_docs_duration_ms = 600000,
     max_debug_message_bytes = 8 * 1024 * 1024,
     max_debug_events = 1000,
     max_debug_output_bytes = 1024 * 1024,
     max_debug_startup_ms = 60000,
     max_debug_request_ms = 30000,
     max_debug_frames = 1000,
     max_debug_variables = 10000\<rparr>"

definition MAX_EVIDENCE_ARTIFACTS :: nat where
  "MAX_EVIDENCE_ARTIFACTS = 32"

definition MAX_EVIDENCE_FILE_BYTES :: nat where
  "MAX_EVIDENCE_FILE_BYTES = 256 * 1024 * 1024"

definition MAX_EVIDENCE_TOTAL_BYTES :: nat where
  "MAX_EVIDENCE_TOTAL_BYTES = 1024 * 1024 * 1024"

definition MAX_EVIDENCE_ROWS :: nat where
  "MAX_EVIDENCE_ROWS = 5000000"

definition MAX_EVIDENCE_COLUMNS :: nat where
  "MAX_EVIDENCE_COLUMNS = 512"

definition MAX_EVIDENCE_LINE_BYTES :: nat where
  "MAX_EVIDENCE_LINE_BYTES = 1024 * 1024"

definition MAX_EVIDENCE_STRING_BYTES :: nat where
  "MAX_EVIDENCE_STRING_BYTES = 64 * 1024"

definition MAX_EVIDENCE_GROUPS :: nat where
  "MAX_EVIDENCE_GROUPS = 100000"

definition MAX_EVIDENCE_PHASES :: nat where
  "MAX_EVIDENCE_PHASES = 64"

definition MAX_EVIDENCE_SELECTED_METRICS :: nat where
  "MAX_EVIDENCE_SELECTED_METRICS = 64"

definition MAX_EVIDENCE_RETURNED_GROUPS :: nat where
  "MAX_EVIDENCE_RETURNED_GROUPS = 1000"

definition MAX_EVIDENCE_COMPARISON_RUNS :: nat where
  "MAX_EVIDENCE_COMPARISON_RUNS = 20"

lemma limits_positive:
  "max_debug_message_bytes default_limits < 2 ^ 32" "0 < max_debug_events default_limits"
  by (simp_all add: default_limits_def)

end
