(* ===== verification/Debug_Connection.thy ===== *)
theory Debug_Connection
  imports Limits Text_Ops
begin

text \<open>
  The connection to the auxtools debug server, from \<open>src/spaceman/debugger.rs\<close>: messages are
  framed by their length as a little-endian 32-bit number, and events that arrive while a
  response is awaited are queued.  \<open>bincode\<close> is a parameter.  What the socket delivers while a
  read waits is a schedule of deliveries; characters are bytes.
\<close>

section \<open>Messages\<close>

record proc_ref =
  pr_path :: string
  pr_override_id :: "32 word"

record instruction_ref =
  ir_proc :: proc_ref
  ir_offset :: "32 word"

datatype breakpoint_reason = ReasonBreakpoint | ReasonStep | ReasonPause | ReasonRuntime string

datatype continue_kind = ContinueRun | StepOver "32 word" | StepInto "32 word" | StepOut "32 word"

record debug_stack =
  dst_id :: "32 word"
  dst_name :: string

record stack_frame =
  sf_id :: "32 word"
  sf_instruction :: instruction_ref
  sf_line :: "32 word option"

datatype breakpoint_set_result = SetSuccess "32 word option" | SetFailed

datatype variables_ref = VariablesRef "32 word"

record debug_variable =
  dv_name :: string
  dv_value :: string
  dv_variables :: "variables_ref option"

record eval_response =
  er_value :: string
  er_variables :: "variables_ref option"

datatype aux_request_message =
    ReqDisconnect
  | ReqConfigured
  | ReqStdDef
  | ReqEval "32 word option" string "string option"
  | ReqCurrentInstruction "32 word"
  | ReqBreakpointSet instruction_ref "string option"
  | ReqBreakpointUnset instruction_ref
  | ReqCatchRuntimes bool
  | ReqLineNumber proc_ref "32 word"
  | ReqOffset proc_ref "32 word"
  | ReqStacks
  | ReqStackFrames "32 word" "32 word option" "32 word option"
  | ReqScopes "32 word"
  | ReqVariables variables_ref
  | ReqContinue continue_kind
  | ReqPause

datatype aux_response =
    Ack
  | RespStdDef "string option"
  | RespEval eval_response
  | RespCurrentInstruction "instruction_ref option"
  | RespBreakpointSet breakpoint_set_result
  | RespBreakpointUnset bool
  | RespLineNumber "32 word option"
  | RespOffset "32 word option"
  | RespStacks "debug_stack list"
  | RespStackFrames "stack_frame list" "32 word"
  | RespScopes "variables_ref option" "variables_ref option" "variables_ref option"
  | RespVariables "debug_variable list"
  | RespDisconnect
  | Notification string
  | BreakpointHit breakpoint_reason

datatype aux_error =
    AuxIo string
  | AuxCodec string
  | AuxLength "32 word"
  | AuxTimeout
  | AuxDisconnected

record aux_codec =
  serialize_request :: "aux_request_message \<Rightarrow> string + string"
  deserialize_response :: "string \<Rightarrow> string + aux_response"

section \<open>Framing\<close>

definition u32_le :: "32 word \<Rightarrow> string" where
  "u32_le n = map (\<lambda>i. char_of (unat n div 256 ^ i)) [0..<4]"

definition le_u32 :: "string \<Rightarrow> 32 word" where
  "le_u32 bs = word_of_nat (\<Sum>i<4. of_char (bs ! i) * 256 ^ i)"

text \<open>
  The connection: bytes received and not yet read, bytes sent, queued events, and what the
  socket will deliver while the next reads wait: bytes, and whether the peer closed it then.
  \<open>cn_writes\<close> are the socket's answers to the next writes, which succeed once it is empty.
\<close>

record aux_connection =
  cn_buffer :: string
  cn_sent :: string
  cn_max_message_bytes :: nat
  cn_events :: "aux_response list"
  cn_deliveries :: "(string \<times> bool) list"
  cn_writes :: "(string + unit) list"

definition connection_new :: "nat \<Rightarrow> (string \<times> bool) list \<Rightarrow> aux_connection" where
  "connection_new max_bytes deliveries = \<lparr>cn_buffer = [], cn_sent = [],
     cn_max_message_bytes = max_bytes, cn_events = [], cn_deliveries = deliveries,
     cn_writes = []\<rparr>"

definition aux_send ::
    "aux_codec \<Rightarrow> aux_request_message \<Rightarrow> aux_connection \<Rightarrow> (aux_error + unit) \<times> aux_connection" where
  "aux_send codec request cn =
     (case serialize_request codec request of Inl e \<Rightarrow> (Inl (AuxCodec e), cn)
      | Inr payload \<Rightarrow>
          if payload = [] \<or> length payload > cn_max_message_bytes cn
          then (Inl (AuxLength (word_of_nat (length payload))), cn)
          else case cn_writes cn of
            Inl e # ws \<Rightarrow> (Inl (AuxIo e), cn\<lparr>cn_writes := ws\<rparr>)
          | ws \<Rightarrow> (Inr (), cn\<lparr>
              cn_sent := cn_sent cn @ u32_le (word_of_nat (length payload)) @ payload,
              cn_writes := tl ws\<rparr>))"

text \<open>
  Reading one response within its timeout.  A read that the timeout or the end of the stream
  cuts off has already taken the bytes that arrived.
\<close>

definition parse_frame ::
    "aux_codec \<Rightarrow> nat \<Rightarrow> bool \<Rightarrow> string \<Rightarrow> (aux_error + aux_response) \<times> string" where
  "parse_frame codec max_bytes closed bs =
     (let cut = (if closed then AuxIo ''early eof'' else AuxTimeout) in
      if length bs < 4 then (Inl cut, [])
      else
        let len = le_u32 (take 4 bs); rest = drop 4 bs in
        if len = 0 \<or> unat len > max_bytes then (Inl (AuxLength len), rest)
        else if length rest < unat len then (Inl cut, [])
        else (map_err AuxCodec (deserialize_response codec (take (unat len) rest)), drop (unat len) rest))"

definition next_delivery :: "aux_connection \<Rightarrow> (string \<times> bool) \<times> (string \<times> bool) list" where
  "next_delivery cn = (case cn_deliveries cn of [] \<Rightarrow> (([], False), []) | d # ds \<Rightarrow> (d, ds))"

definition read_response ::
    "aux_codec \<Rightarrow> aux_connection \<Rightarrow> (aux_error + aux_response) \<times> aux_connection" where
  "read_response codec cn =
     (case next_delivery cn of ((bytes, closed), ds) \<Rightarrow>
      case parse_frame codec (cn_max_message_bytes cn) closed (cn_buffer cn @ bytes) of (r, rest) \<Rightarrow>
        (r, cn\<lparr>cn_buffer := rest, cn_deliveries := ds\<rparr>))"

section \<open>Requests and events\<close>

fun is_event :: "aux_response \<Rightarrow> bool" where
  "is_event (Notification _) = True"
| "is_event (BreakpointHit _) = True"
| "is_event _ = False"

text \<open>
  The loop of \<open>request\<close>.  Every turn reads one response; \<open>n\<close> bounds the turns, and a read with
  nothing buffered and nothing delivered times out.
\<close>

fun await_response ::
    "nat \<Rightarrow> aux_codec \<Rightarrow> aux_connection \<Rightarrow> ((aux_error + aux_response) \<times> aux_connection) option" where
  "await_response 0 codec cn = None"
| "await_response (Suc n) codec cn =
     (case read_response codec cn of
        (Inl e, cn) \<Rightarrow> Some (Inl e, cn)
      | (Inr r, cn) \<Rightarrow>
          if is_event r then await_response n codec (cn\<lparr>cn_events := cn_events cn @ [r]\<rparr>)
          else if r = RespDisconnect then Some (Inl AuxDisconnected, cn)
          else Some (Inr r, cn))"

text \<open>Every frame takes at least five bytes, so this many turns are enough.\<close>

definition request_fuel :: "aux_connection \<Rightarrow> nat" where
  "request_fuel cn = Suc (length (cn_buffer cn) + length (concat (map fst (cn_deliveries cn)))
     + length (cn_deliveries cn))"

definition aux_request ::
    "aux_codec \<Rightarrow> aux_request_message \<Rightarrow> aux_connection
     \<Rightarrow> ((aux_error + aux_response) \<times> aux_connection) option" where
  "aux_request codec request cn =
     (case aux_send codec request cn of
        (Inl e, cn) \<Rightarrow> Some (Inl e, cn)
      | (Inr _, cn) \<Rightarrow> await_response (request_fuel cn) codec cn)"

definition pop_event :: "aux_connection \<Rightarrow> aux_response option \<times> aux_connection" where
  "pop_event cn = (case cn_events cn of [] \<Rightarrow> (None, cn) | e # es \<Rightarrow> (Some e, cn\<lparr>cn_events := es\<rparr>))"

definition next_event :: "aux_codec \<Rightarrow> aux_connection \<Rightarrow> (aux_error + aux_response) \<times> aux_connection" where
  "next_event codec cn =
     (case cn_events cn of e # es \<Rightarrow> (Inr e, cn\<lparr>cn_events := es\<rparr>) | [] \<Rightarrow> read_response codec cn)"

text \<open>\<open>shutdown\<close> is the socket's answer.\<close>

definition aux_disconnect ::
    "aux_codec \<Rightarrow> string + unit \<Rightarrow> aux_connection \<Rightarrow> ((aux_error + unit) \<times> aux_connection) option"
  where
  "aux_disconnect codec shutdown cn =
     Option.bind (aux_request codec ReqDisconnect cn) (\<lambda>(_, cn). Some (map_err AuxIo shutdown, cn))"

section \<open>Round trips\<close>

text \<open>What the debug server reads back: the inverse framing, with its own decoder.\<close>

definition frame_bytes :: "string \<Rightarrow> string" where
  "frame_bytes payload = u32_le (word_of_nat (length payload)) @ payload"

lemma length_u32_le [simp]: "length (u32_le n) = 4"
  by (simp add: u32_le_def)

lemma base_256_digits: "(\<Sum>i<k. (n div 256 ^ i mod 256) * 256 ^ i) = n mod 256 ^ k" for n :: nat
proof (induction k)
  case (Suc k)
  have "n mod (256 ^ k * 256) = 256 ^ k * (n div 256 ^ k mod 256) + n mod 256 ^ k"
    by (rule mod_mult2_eq)
  then show ?case using Suc by (simp add: mult.commute)
qed simp

lemma le_u32_u32_le [simp]: "le_u32 (u32_le n) = n"
proof -
  have "unat n < 256 ^ 4" using unsigned_less[of n, where ?'a = nat] by simp
  then have "(\<Sum>i<4. (unat n div 256 ^ i mod 256) * 256 ^ i) = unat n"
    by (simp add: base_256_digits)
  moreover have "(\<Sum>i<4. of_char (u32_le n ! i) * 256 ^ i) = (\<Sum>i<4. (unat n div 256 ^ i mod 256) * 256 ^ i)"
    by (rule sum.cong) (simp_all add: u32_le_def)
  ultimately show ?thesis by (simp add: le_u32_def)
qed

lemma parse_frame_bytes:
  assumes "deserialize_response codec payload = Inr r" "payload \<noteq> []" "length payload \<le> m" "m < 2 ^ 32"
  shows "parse_frame codec m closed (frame_bytes payload @ rest) = (Inr r, rest)"
proof -
  have "unat (word_of_nat (length payload) :: 32 word) = length payload"
    using assms(3,4) by (simp add: unat_of_nat take_bit_nat_eq_self)
  moreover from this have "(word_of_nat (length payload) :: 32 word) \<noteq> 0" using assms(2) by auto
  ultimately show ?thesis
    using assms by (simp add: parse_frame_def frame_bytes_def Let_def map_err_def)
qed

lemma parse_frame_consumes:
  "parse_frame codec m closed bs = (Inr r, rest) \<Longrightarrow> length rest + 5 \<le> length bs"
proof -
  assume p: "parse_frame codec m closed bs = (Inr r, rest)"
  let ?n = "unat (le_u32 (take 4 bs))"
  have "\<not> length bs < 4" "le_u32 (take 4 bs) \<noteq> 0" "?n \<le> length (drop 4 bs)"
    "rest = drop ?n (drop 4 bs)"
    using p by (auto simp: parse_frame_def Let_def map_err_Inr split: if_splits)
  moreover from this(2) have "0 < ?n" by (simp add: unat_gt_0)
  ultimately show ?thesis by simp
qed

definition pending :: "aux_connection \<Rightarrow> nat" where
  "pending cn = length (cn_buffer cn) + length (concat (map fst (cn_deliveries cn))) + length (cn_deliveries cn)"

lemma read_response_pending:
  assumes "read_response codec cn = (Inr r, cn')"
  shows "pending cn' < pending cn"
proof (cases "cn_deliveries cn")
  case Nil
  then show ?thesis using assms parse_frame_consumes
    by (fastforce simp: read_response_def next_delivery_def pending_def split: prod.splits)
next
  case (Cons d ds)
  then show ?thesis using assms parse_frame_consumes
    by (fastforce simp: read_response_def next_delivery_def pending_def split: prod.splits)
qed

lemma read_response_fields:
  assumes "read_response codec cn = (r, cn')"
  shows "cn_events cn' = cn_events cn \<and> cn_sent cn' = cn_sent cn
    \<and> cn_max_message_bytes cn' = cn_max_message_bytes cn"
  using assms by (auto simp: read_response_def split: prod.splits)

lemma await_response_returns: "pending cn < n \<Longrightarrow> \<exists>r cn'. await_response n codec cn = Some (r, cn')"
proof (induction n arbitrary: cn)
  case 0
  then show ?case by simp
next
  case (Suc n)
  obtain r cn1 where read: "read_response codec cn = (r, cn1)" by fastforce
  show ?case
  proof (cases r)
    case (Inl e)
    then show ?thesis by (simp add: read)
  next
    case (Inr x)
    with read have "pending cn1 < pending cn" using read_response_pending by blast
    then have "pending (cn1\<lparr>cn_events := cn_events cn1 @ [x]\<rparr>) < n"
      using Suc.prems by (simp add: pending_def)
    with Suc.IH Inr show ?thesis by (simp add: read)
  qed
qed

text \<open>
  The responses a connection reads, one per turn, up to the first error: the reference for
  what \<open>request\<close> does with them.
\<close>

fun responses :: "nat \<Rightarrow> aux_codec \<Rightarrow> aux_connection \<Rightarrow> aux_response list" where
  "responses 0 codec cn = []"
| "responses (Suc n) codec cn =
     (case read_response codec cn of (Inl _, _) \<Rightarrow> [] | (Inr r, cn) \<Rightarrow> r # responses n codec cn)"

lemma responses_events: "responses n codec (cn\<lparr>cn_events := es\<rparr>) = responses n codec cn"
proof (induction n arbitrary: cn)
  case (Suc n)
  have "read_response codec (cn\<lparr>cn_events := es\<rparr>)
      = (case read_response codec cn of (r, cn) \<Rightarrow> (r, cn\<lparr>cn_events := es\<rparr>))"
    by (simp add: read_response_def next_delivery_def split: list.splits prod.splits)
  then show ?case using Suc by (auto split: prod.splits sum.splits)
qed simp

lemma await_response_routes:
  assumes "await_response n codec cn = Some (r, cn')"
  shows "cn_events cn' = cn_events cn @ takeWhile is_event (responses n codec cn)
    \<and> cn_sent cn' = cn_sent cn
    \<and> (case dropWhile is_event (responses n codec cn) of
         [] \<Rightarrow> \<exists>e. r = Inl e \<and> e \<noteq> AuxDisconnected
       | x # _ \<Rightarrow> r = (if x = RespDisconnect then Inl AuxDisconnected else Inr x))"
  using assms
proof (induction n arbitrary: cn)
  case 0
  then show ?case by simp
next
  case (Suc n)
  obtain x cn1 where read: "read_response codec cn = (x, cn1)" by fastforce
  have f: "cn_events cn1 = cn_events cn" "cn_sent cn1 = cn_sent cn"
    using read_response_fields[OF read] by simp_all
  show ?case
  proof (cases x)
    case (Inl e)
    then have "e \<noteq> AuxDisconnected" using read
      by (auto simp: read_response_def parse_frame_def Let_def map_err_def split: prod.splits if_splits sum.splits)
    then show ?thesis using Suc.prems Inl read f by auto
  next
    case (Inr y)
    show ?thesis
    proof (cases "is_event y")
      case True
      then show ?thesis
        using Suc.IH[of "cn1\<lparr>cn_events := cn_events cn1 @ [y]\<rparr>"] Suc.prems Inr read f
        by (simp add: responses_events)
    next
      case False
      then show ?thesis using Suc.prems Inr read f by auto
    qed
  qed
qed

section \<open>Properties\<close>

text \<open>
  A request always returns, whatever the socket delivers: it fails when sending failed, and
  otherwise it answers the first response that is not an event, queueing exactly the events
  that came before it in order and losing none; a disconnect is an error.
\<close>

lemma aux_request_routes_events:
  "\<exists>r cn'. aux_request codec req cn = Some (r, cn') \<and>
    (case aux_send codec req cn of
       (Inl e, cn1) \<Rightarrow> r = Inl e \<and> cn' = cn1
     | (Inr _, cn1) \<Rightarrow>
         let rs = responses (request_fuel cn) codec cn in
         cn_events cn' = cn_events cn @ takeWhile is_event rs
         \<and> (case dropWhile is_event rs of
              [] \<Rightarrow> \<exists>e. r = Inl e \<and> e \<noteq> AuxDisconnected
            | x # _ \<Rightarrow> r = (if x = RespDisconnect then Inl AuxDisconnected else Inr x)))"
proof -
  obtain s cn1 where send: "aux_send codec req cn = (s, cn1)" by fastforce
  show ?thesis
  proof (cases s)
    case (Inl e)
    then show ?thesis by (simp add: aux_request_def send)
  next
    case (Inr u)
    then obtain sent ws where cn1: "cn1 = cn\<lparr>cn_sent := sent, cn_writes := ws\<rparr>"
      using send by (auto simp: aux_send_def split: sum.split_asm if_split_asm list.split_asm)
    then have fuel: "request_fuel cn1 = request_fuel cn" "pending cn1 < request_fuel cn"
      by (simp_all add: request_fuel_def pending_def)
    have sent: "read_response codec (cn\<lparr>cn_sent := sent, cn_writes := ws\<rparr>)
        = (case read_response codec cn of (r, cn) \<Rightarrow> (r, cn\<lparr>cn_sent := sent, cn_writes := ws\<rparr>))" for cn
      by (simp add: read_response_def next_delivery_def split: list.splits prod.splits)
    have "responses n codec (cn\<lparr>cn_sent := sent, cn_writes := ws\<rparr>) = responses n codec cn" for n cn
      by (induction n arbitrary: cn) (auto simp: sent split: prod.splits sum.splits)
    moreover obtain r cn' where run: "await_response (request_fuel cn) codec cn1 = Some (r, cn')"
      using await_response_returns[OF fuel(2)] by blast
    moreover have "cn_events cn1 = cn_events cn" by (simp add: cn1)
    ultimately show ?thesis
      using await_response_routes[OF run] Inr
      by (simp add: aux_request_def send fuel(1) Let_def) (simp add: cn1)
  qed
qed

text \<open>
  Framing round-trips: a sent request appears on the wire as one frame that the same framing
  splits off exactly, and a sequence of framed responses that has arrived is read back response
  by response with nothing left over, for every codec that decodes what it encodes.
\<close>

lemma aux_frames_roundtrip:
  assumes "\<And>r. r \<in> set rs \<Longrightarrow> deserialize_response codec (encode r) = Inr r \<and> encode r \<noteq> []
      \<and> length (encode r) \<le> cn_max_message_bytes cn"
    and "cn_max_message_bytes cn < 2 ^ 32"
    and "cn_buffer cn @ fst (fst (next_delivery cn)) = concat (map (frame_bytes \<circ> encode) rs)"
    and "snd (next_delivery cn) = []" and "cn_writes cn = []"
  shows "responses (Suc (length rs)) codec cn = rs
    \<and> (\<forall>req payload. serialize_request codec req = Inr payload \<and> payload \<noteq> []
          \<and> length payload \<le> cn_max_message_bytes cn \<longrightarrow>
        (\<exists>bs. cn_sent (snd (aux_send codec req cn)) = cn_sent cn @ bs
            \<and> unat (le_u32 (take 4 bs)) = length payload \<and> drop 4 bs = payload))"
proof -
  have wire: "\<exists>bs. cn_sent (snd (aux_send codec req cn)) = cn_sent cn @ bs
      \<and> unat (le_u32 (take 4 bs)) = length payload \<and> drop 4 bs = payload"
    if "serialize_request codec req = Inr payload" "payload \<noteq> []" "length payload \<le> cn_max_message_bytes cn"
    for req payload
  proof (intro exI conjI)
    let ?bs = "u32_le (word_of_nat (length payload)) @ payload"
    show "cn_sent (snd (aux_send codec req cn)) = cn_sent cn @ ?bs"
      using that assms(5) by (simp add: aux_send_def)
    have "length payload < 2 ^ 32" using that(3) assms(2) by linarith
    then show "unat (le_u32 (take 4 ?bs)) = length payload"
      by (simp add: unat_of_nat take_bit_nat_eq_self)
  qed simp
  have "responses (Suc (length rs)) codec cn = rs"
    using assms(1-4)
  proof (induction rs arbitrary: cn)
    case Nil
    then show ?case
      by (cases "next_delivery cn") (auto simp: read_response_def parse_frame_def Let_def)
  next
    case (Cons r rs)
    obtain bytes closed where d: "next_delivery cn = ((bytes, closed), [])"
      using Cons.prems(4) by (cases "next_delivery cn") auto
    have "cn_buffer cn @ bytes = frame_bytes (encode r) @ concat (map (frame_bytes \<circ> encode) rs)"
      using Cons.prems(3) by (simp add: d comp_def)
    moreover have "parse_frame codec (cn_max_message_bytes cn) closed (frame_bytes (encode r) @ rest) = (Inr r, rest)" for rest
      using Cons.prems(1)[of r] Cons.prems(2) by (intro parse_frame_bytes) auto
    ultimately have read: "read_response codec cn
        = (Inr r, cn\<lparr>cn_buffer := concat (map (frame_bytes \<circ> encode) rs), cn_deliveries := []\<rparr>)"
      by (simp add: read_response_def d comp_def)
    have "responses (Suc (length rs)) codec
        (cn\<lparr>cn_buffer := concat (map (frame_bytes \<circ> encode) rs), cn_deliveries := []\<rparr>) = rs"
      by (rule Cons.IH) (use Cons.prems in \<open>auto simp: next_delivery_def comp_def\<close>)
    then show ?case by (simp add: read)
  qed
  with wire show ?thesis by blast
qed

text \<open>
  C14. A read that times out inside a frame loses the bytes of the frame that had arrived, so
  the next read takes the rest of that frame for a new one.
\<close>

theorem timeout_desynchronises_stream:
  assumes "0 < k" "k < length (frame_bytes payload)"
    and "payload \<noteq> []" "length payload \<le> cn_max_message_bytes cn" "cn_max_message_bytes cn < 2 ^ 32"
    and "cn_buffer cn = []"
    and "cn_deliveries cn = [(take k (frame_bytes payload), False), (drop k (frame_bytes payload), False)]"
  shows "\<exists>cn1. read_response codec cn = (Inl AuxTimeout, cn1) \<and> cn_buffer cn1 = []
    \<and> fst (read_response codec cn1)
        = fst (parse_frame codec (cn_max_message_bytes cn) False (drop k (frame_bytes payload)))"
proof -
  let ?f = "frame_bytes payload"
  have len: "unat (word_of_nat (length payload) :: 32 word) = length payload"
    using assms(4,5) by (simp add: unat_of_nat take_bit_nat_eq_self)
  then have "(word_of_nat (length payload) :: 32 word) \<noteq> 0" using assms(3) by auto
  then have "parse_frame codec (cn_max_message_bytes cn) False (take k ?f) = (Inl AuxTimeout, [])"
    using assms(2,4) len by (auto simp: parse_frame_def frame_bytes_def Let_def min_def)
  then show ?thesis
    using assms(6,7) by (simp add: read_response_def next_delivery_def split: prod.split)
qed

definition demo_codec :: aux_codec where
  "demo_codec = \<lparr>serialize_request = (\<lambda>_. Inr ''s''),
     deserialize_response = (\<lambda>bs. if bs = ''n'' then Inr (Notification ''hi'') else Inr Ack)\<rparr>"

definition demo_encode :: "aux_response \<Rightarrow> string" where
  "demo_encode r = (if r = Ack then ''a'' else ''n'')"

definition demo_connection :: aux_connection where
  "demo_connection = (connection_new 1024 [])\<lparr>cn_buffer := frame_bytes ''n'' @ frame_bytes ''a''\<rparr>"

lemma aux_frames_roundtrip_witness:
  "responses (Suc (length [Notification ''hi'', Ack])) demo_codec demo_connection = [Notification ''hi'', Ack]"
proof (rule conjunct1[OF aux_frames_roundtrip[of _ demo_codec demo_encode]])
  show "cn_buffer demo_connection @ fst (fst (next_delivery demo_connection))
      = concat (map (frame_bytes \<circ> demo_encode) [Notification ''hi'', Ack])"
    by (simp add: demo_connection_def connection_new_def next_delivery_def demo_encode_def)
qed (auto simp: demo_connection_def connection_new_def next_delivery_def demo_encode_def demo_codec_def)

theorem timeout_desynchronises_stream_witness:
  "\<exists>cn1. read_response demo_codec
       ((connection_new 1024 [])\<lparr>cn_deliveries := [(take 2 (frame_bytes ''a''), False), (drop 2 (frame_bytes ''a''), False)]\<rparr>)
     = (Inl AuxTimeout, cn1) \<and> cn_buffer cn1 = []"
  using timeout_desynchronises_stream[of 2 "''a''" "(connection_new 1024 [])\<lparr>cn_deliveries :=
      [(take 2 (frame_bytes ''a''), False), (drop 2 (frame_bytes ''a''), False)]\<rparr>" demo_codec]
  by (auto simp: connection_new_def frame_bytes_def)

end
