(* ===== verification/Debugger_Tools.thy ===== *)
theory Debugger_Tools
  imports Debug_Connection Tool_Result Paths
begin

text \<open>
  The debugger tools of \<open>src/tools/debugger.rs\<close> on a \<open>DebuggerSession\<close>.  Launching and killing
  the debugger host belong to the operating system and are not here.  Printing results and the
  build's metadata are the record \<open>debug_env\<close>.
\<close>

section \<open>Sessions\<close>

record debugger_event_record =
  de_sequence :: u64
  de_kind :: string
  de_message :: "string option"

datatype debugger_lifecycle = DebuggerRunning | DebuggerFailed

record debugger_session =
  ds_lifecycle :: debugger_lifecycle
  ds_connection :: aux_connection
  ds_port :: "16 word"
  ds_dmb_path :: path
  ds_stddef_source :: "string option"
  ds_state_generation :: u64
  ds_event_sequence :: u64
  ds_last_exception :: "string option"
  ds_active_breakpoints :: "instruction_ref list"
  ds_events :: "debugger_event_record list"
  ds_dropped_events :: u64
  ds_launch_provenance :: json

text \<open>
  The set of active breakpoints is kept in the order in which the hash set iterates, which
  the program does not determine.
\<close>

datatype debug_error = DbgMessage string | DbgProtocol aux_error

record debug_env =
  ev_codec :: aux_codec
  ev_compact :: "json \<Rightarrow> string"
  ev_pretty :: "json \<Rightarrow> string"
  ev_complete :: "u64 option \<Rightarrow> tool_metadata"

definition debug_success :: "debug_env \<Rightarrow> tool_metadata \<Rightarrow> json \<Rightarrow> domain_result" where
  "debug_success ev metadata data = json_success (ev_compact ev) (ev_pretty ev) metadata (Inr data)"

section \<open>JSON of the messages\<close>

definition json_u32 :: "32 word \<Rightarrow> json" where
  "json_u32 n = JNum (PosInt (ucast n))"

definition json_opt :: "('a \<Rightarrow> json) \<Rightarrow> 'a option \<Rightarrow> json" where
  "json_opt f x = (case x of None \<Rightarrow> JNull | Some a \<Rightarrow> f a)"

definition json_variables_ref :: "variables_ref \<Rightarrow> json" where
  "json_variables_ref r = (case r of VariablesRef n \<Rightarrow>
     JNum (if sint n < 0 then NegInt (sint n) else PosInt (ucast n)))"

definition json_instruction :: "instruction_ref \<Rightarrow> json" where
  "json_instruction i = json_object [(''proc'', json_object [(''path'', JStr (pr_path (ir_proc i))),
     (''override_id'', json_u32 (pr_override_id (ir_proc i)))]), (''offset'', json_u32 (ir_offset i))]"

definition json_stack :: "debug_stack \<Rightarrow> json" where
  "json_stack s = json_object [(''id'', json_u32 (dst_id s)), (''name'', JStr (dst_name s))]"

definition json_frame :: "stack_frame \<Rightarrow> json" where
  "json_frame f = json_object [(''id'', json_u32 (sf_id f)),
     (''instruction'', json_instruction (sf_instruction f)), (''line'', json_opt json_u32 (sf_line f))]"

definition json_variable :: "debug_variable \<Rightarrow> json" where
  "json_variable v = json_object [(''name'', JStr (dv_name v)), (''value'', JStr (dv_value v)),
     (''variables'', json_opt json_variables_ref (dv_variables v))]"

definition json_eval :: "eval_response \<Rightarrow> json" where
  "json_eval e = json_object [(''value'', JStr (er_value e)),
     (''variables'', json_opt json_variables_ref (er_variables e))]"

definition json_event :: "debugger_event_record \<Rightarrow> json" where
  "json_event e = json_object ([(''sequence'', JNum (PosInt (de_sequence e))), (''kind'', JStr (de_kind e))]
     @ (case de_message e of None \<Rightarrow> [] | Some m \<Rightarrow> [(''message'', JStr m)]))"

section \<open>Arguments\<close>

definition get_u64 :: "json \<Rightarrow> string \<Rightarrow> u64 option" where
  "get_u64 args key = Option.bind (json_get args key) as_u64"

definition duration_ms :: "json \<Rightarrow> string \<Rightarrow> u64 \<Rightarrow> u64 \<Rightarrow> u64" where
  "duration_ms args key default_ms maximum =
     min (case get_u64 args key of Some v \<Rightarrow> v | None \<Rightarrow> default_ms) maximum"

definition missing :: "string \<Rightarrow> debug_error" where
  "missing key = DbgMessage (''Missing '' @ key)"

text \<open>\<open>as u32\<close> keeps the low 32 bits.\<close>

definition required_u32 :: "json \<Rightarrow> string \<Rightarrow> debug_error + 32 word" where
  "required_u32 args key = map_sum id ucast (or_err (missing key) (get_u64 args key))"

definition optional_u32 :: "json \<Rightarrow> string \<Rightarrow> 32 word option" where
  "optional_u32 args key = map_option ucast (get_u64 args key)"

definition required_string :: "json \<Rightarrow> string \<Rightarrow> nat \<Rightarrow> debug_error + string" where
  "required_string args key maximum =
     rbind (or_err (missing key) (get_str args key)) (\<lambda>s.
       if length s > maximum then Inl (DbgMessage (key @ '' exceeds maximum length'')) else Inr s)"

definition optional_string :: "json \<Rightarrow> string \<Rightarrow> nat \<Rightarrow> debug_error + string option" where
  "optional_string args key maximum =
     (case get_str args key of None \<Rightarrow> Inr None
      | Some _ \<Rightarrow> map_sum id Some (required_string args key maximum))"

datatype host_mode = Interactive | Headless

definition debugger_host :: "json \<Rightarrow> debug_error + host_mode" where
  "debugger_host args =
     (let mode = (case get_str args ''host_mode'' of Some m \<Rightarrow> m | None \<Rightarrow> ''interactive'') in
      if mode = ''interactive'' then Inr Interactive
      else if mode = ''headless'' then Inr Headless
      else Inl (DbgMessage (''unsupported host_mode'' @ mode)))"

section \<open>Requests\<close>

text \<open>A session's request always returns (\<open>aux_request_routes_events\<close>).\<close>

definition session_request ::
    "debug_env \<Rightarrow> aux_request_message \<Rightarrow> debugger_session \<Rightarrow> (debug_error + aux_response) \<times> debugger_session" where
  "session_request ev req s =
     (case the (aux_request (ev_codec ev) req (ds_connection s)) of
        (r, cn) \<Rightarrow> (map_err DbgProtocol r, s\<lparr>ds_connection := cn\<rparr>))"

definition no_session :: debug_error where
  "no_session = DbgMessage ''no debugger session is active''"

text \<open>A tool runs in the slot of the session, which stays in it.\<close>

definition in_session ::
    "(debugger_session \<Rightarrow> (debug_error + 'a) \<times> debugger_session) \<Rightarrow> debugger_session option
     \<Rightarrow> (debug_error + 'a) \<times> debugger_session option" where
  "in_session f slot =
     (case slot of None \<Rightarrow> (Inl no_session, None)
      | Some s \<Rightarrow> (case f s of (r, s) \<Rightarrow> (r, Some s)))"

definition request_tool ::
    "debug_env \<Rightarrow> (debug_error + aux_request_message) \<Rightarrow> (u64 \<Rightarrow> aux_response \<Rightarrow> debug_error + domain_result)
     \<Rightarrow> debugger_session option \<Rightarrow> (debug_error + domain_result) \<times> debugger_session option" where
  "request_tool ev req reply slot =
     (case req of Inl e \<Rightarrow> (Inl e, slot)
      | Inr req \<Rightarrow>
          in_session (\<lambda>s. case session_request ev req s of (r, s) \<Rightarrow>
            (rbind r (reply (ds_state_generation s)), s)) slot)"

definition dbg_threads where
  "dbg_threads ev = request_tool ev (Inr ReqStacks) (\<lambda>generation response.
     case response of
       RespStacks stacks \<Rightarrow> Inr (debug_success ev (ev_complete ev (Some generation))
         (json_object [(''threads'', JArr (map json_stack stacks))]))
     | _ \<Rightarrow> Inl (DbgMessage ''unexpected stacks response''))"

definition dbg_stack_trace where
  "dbg_stack_trace ev args = request_tool ev
     (rbind (required_u32 args ''thread_id'') (\<lambda>thread_id.
        Inr (ReqStackFrames thread_id (optional_u32 args ''start_frame'')
          (map_option (\<lambda>c. ucast (min c (word_of_nat (max_debug_frames default_limits))))
            (get_u64 args ''count'')))))
     (\<lambda>generation response.
     case response of
       RespStackFrames frames total_count \<Rightarrow>
         let cut = length frames < unat total_count in
         Inr (debug_success ev ((ev_complete ev (Some generation))\<lparr>tm_truncated := cut,
             tm_truncation_reasons := (if cut then [''debug_frame_limit''] else [])\<rparr>)
           (json_object [(''frames'', JArr (map json_frame frames)), (''total_count'', json_u32 total_count)]))
     | _ \<Rightarrow> Inl (DbgMessage ''unexpected stack frames response''))"

definition dbg_scopes where
  "dbg_scopes ev args = request_tool ev (rbind (required_u32 args ''frame_id'') (\<lambda>f. Inr (ReqScopes f)))
     (\<lambda>generation response.
     case response of
       RespScopes arguments locals globals \<Rightarrow>
         Inr (debug_success ev (ev_complete ev (Some generation))
           (json_object [(''arguments'', json_opt json_variables_ref arguments),
              (''locals'', json_opt json_variables_ref locals),
              (''globals'', json_opt json_variables_ref globals)]))
     | _ \<Rightarrow> Inl (DbgMessage ''unexpected scopes response''))"

definition dbg_variables where
  "dbg_variables ev args = request_tool ev
     (rbind (or_err (missing ''variables_reference'') (Option.bind (json_get args ''variables_reference'') as_i64))
        (\<lambda>n. Inr (ReqVariables (VariablesRef (word_of_int n)))))
     (\<lambda>generation response.
     case response of
       RespVariables vars \<Rightarrow>
         let limit = max_debug_variables default_limits; cut = length vars > limit in
         Inr (debug_success ev ((ev_complete ev (Some generation))\<lparr>tm_truncated := cut,
             tm_truncation_reasons := (if cut then [''debug_variable_limit''] else [])\<rparr>)
           (json_object [(''variables'', JArr (map json_variable (take limit vars)))]))
     | _ \<Rightarrow> Inl (DbgMessage ''unexpected variables response''))"

definition dbg_evaluate where
  "dbg_evaluate ev args = request_tool ev
     (rbind (required_string args ''expression'' 16384) (\<lambda>expression.
        let context = get_str args ''context'' in
        if context \<noteq> None \<and> context \<notin> {Some ''watch'', Some ''repl'', Some ''hover''}
        then Inl (DbgMessage ''unknown evaluation context'')
        else Inr (ReqEval (optional_u32 args ''frame_id'') expression context)))
     (\<lambda>generation response.
     case response of
       RespEval result \<Rightarrow> Inr (debug_success ev (ev_complete ev (Some generation))
           (json_object [(''result'', json_eval result)]))
     | _ \<Rightarrow> Inl (DbgMessage ''unexpected evaluation response''))"

definition dbg_set_exception_breakpoints where
  "dbg_set_exception_breakpoints ev args slot =
     (case get_bool args ''break_on_runtimes'' of None \<Rightarrow> (Inl (missing ''break_on_runtimes''), slot)
      | Some enabled \<Rightarrow>
          in_session (\<lambda>s. case aux_send (ev_codec ev) (ReqCatchRuntimes enabled) (ds_connection s) of
            (r, cn) \<Rightarrow> (rbind (map_err DbgProtocol r) (\<lambda>_.
               Inr (debug_success ev (ev_complete ev (Some (ds_state_generation s)))
                 (json_object [(''break_on_runtimes'', JBool enabled)]))), s\<lparr>ds_connection := cn\<rparr>)) slot)"

definition step_kind :: "string \<Rightarrow> ('a \<Rightarrow> continue_kind) \<Rightarrow> 'a option \<Rightarrow> debug_error + aux_request_message" where
  "step_kind action kind thread =
     rbind (or_err (DbgMessage (action @ '' requires thread_id'')) thread) (\<lambda>t. Inr (ReqContinue (kind t)))"

definition control_request :: "json \<Rightarrow> string \<Rightarrow> debug_error + aux_request_message" where
  "control_request args action =
     (let thread = optional_u32 args ''thread_id'' in
      if action = ''pause'' then Inr ReqPause
      else if action = ''continue'' then Inr (ReqContinue ContinueRun)
      else if action = ''step_in'' then step_kind action StepInto thread
      else if action = ''step_over'' then step_kind action StepOver thread
      else if action = ''step_out'' then step_kind action StepOut thread
      else Inl (DbgMessage ''unknown debugger control action''))"

definition dbg_control where
  "dbg_control ev args slot =
     (case get_str args ''action'' of None \<Rightarrow> (Inl (missing ''action''), slot)
      | Some action \<Rightarrow>
          request_tool ev (control_request args action) (\<lambda>generation response.
            if response \<noteq> Ack then Inl (DbgMessage ''debugger control was not acknowledged'')
            else Inr (debug_success ev (ev_complete ev (Some generation))
                   (json_object [(''action'', JStr action)]))) slot)"

section \<open>Breakpoints\<close>

text \<open>
  Replacing the breakpoints of a session: first every active one that is no longer desired is
  removed, then every desired one is set.  The session records the result only at the end.
\<close>

fun unset_breakpoints ::
    "debug_env \<Rightarrow> instruction_ref list \<Rightarrow> debugger_session \<Rightarrow> (debug_error + unit) \<times> debugger_session" where
  "unset_breakpoints ev [] s = (Inr (), s)"
| "unset_breakpoints ev (i # is) s =
     (case session_request ev (ReqBreakpointUnset i) s of
        (Inl e, s) \<Rightarrow> (Inl e, s)
      | (Inr response, s) \<Rightarrow>
          if response = RespBreakpointUnset True then unset_breakpoints ev is s
          else (Inl (DbgMessage ''auxtools failed to remove a stale breakpoint''), s))"

definition is_set_success :: "aux_response \<Rightarrow> bool" where
  "is_set_success r = (case r of RespBreakpointSet (SetSuccess _) \<Rightarrow> True | _ \<Rightarrow> False)"

fun set_desired ::
    "debug_env \<Rightarrow> (instruction_ref \<times> string option) list \<Rightarrow> instruction_ref list \<Rightarrow> (instruction_ref \<times> bool) list
     \<Rightarrow> debugger_session \<Rightarrow> (debug_error + instruction_ref list \<times> (instruction_ref \<times> bool) list) \<times> debugger_session"
  where
  "set_desired ev [] installed results s = (Inr (installed, results), s)"
| "set_desired ev ((i, condition) # ds) installed results s =
     (case session_request ev (ReqBreakpointSet i condition) s of
        (Inl e, s) \<Rightarrow> (Inl e, s)
      | (Inr response, s) \<Rightarrow>
          let verified = is_set_success response in
          set_desired ev ds (if verified then List.insert i installed else installed)
            (results @ [(i, verified)]) s)"

definition breakpoint_result :: "instruction_ref \<times> bool \<Rightarrow> json" where
  "breakpoint_result r = json_object [(''instruction'', json_instruction (fst r)), (''verified'', JBool (snd r))]"

definition replace_breakpoints_in_session ::
    "debug_env \<Rightarrow> (instruction_ref \<times> string option) list \<Rightarrow> debugger_session
     \<Rightarrow> (debug_error + domain_result) \<times> debugger_session" where
  "replace_breakpoints_in_session ev desired s =
     (case unset_breakpoints ev (filter (\<lambda>i. i \<notin> fst ` set desired) (ds_active_breakpoints s)) s of
        (Inl e, s) \<Rightarrow> (Inl e, s)
      | (Inr _, s) \<Rightarrow>
          (case set_desired ev desired [] [] s of
             (Inl e, s) \<Rightarrow> (Inl e, s)
           | (Inr (installed, results), s) \<Rightarrow>
               (Inr (debug_success ev (ev_complete ev (Some (ds_state_generation s)))
                  (json_object [(''breakpoints'', JArr (map breakpoint_result results))])),
                s\<lparr>ds_active_breakpoints := installed\<rparr>)))"

definition breakpoint_array :: "json \<Rightarrow> debug_error + json list" where
  "breakpoint_array args =
     rbind (or_err (DbgMessage ''breakpoints must be an array'')
              (Option.bind (json_get args ''breakpoints'') as_array)) (\<lambda>bs.
       if length bs > 10000 then Inl (DbgMessage ''breakpoint limit exceeded'') else Inr bs)"

definition function_breakpoint :: "json \<Rightarrow> debug_error + instruction_ref \<times> string option" where
  "function_breakpoint b =
     rbind (required_string b ''proc_path'' 4096) (\<lambda>p.
       if \<not> prefix ''/'' p then Inl (DbgMessage ''proc_path must be canonical'')
       else rbind (optional_string b ''condition'' 4096) (\<lambda>condition.
         Inr (\<lparr>ir_proc = \<lparr>pr_path = p,
                 pr_override_id = (case optional_u32 b ''override_id'' of Some n \<Rightarrow> n | None \<Rightarrow> 0)\<rparr>,
               ir_offset = (case optional_u32 b ''offset'' of Some n \<Rightarrow> n | None \<Rightarrow> 0)\<rparr>, condition)))"

definition dbg_set_function_breakpoints where
  "dbg_set_function_breakpoints ev args slot =
     (case rbind (breakpoint_array args) (rmap function_breakpoint) of
        Inl e \<Rightarrow> (Inl e, slot)
      | Inr desired \<Rightarrow> in_session (replace_breakpoints_in_session ev desired) slot)"

text \<open>
  Source breakpoints: \<open>proc_at\<close> is the language index of the active snapshot, giving the owner,
  the name and the override index of the procedure around a line.
\<close>

definition source_breakpoint ::
    "debug_env \<Rightarrow> (32 word \<Rightarrow> (string \<times> string \<times> u64) option) \<Rightarrow> json \<Rightarrow> debugger_session
     \<Rightarrow> (debug_error + instruction_ref \<times> string option) \<times> debugger_session" where
  "source_breakpoint ev proc_at b s =
     (case rbind (required_u32 b ''line'') (\<lambda>line.
             rbind (or_err (DbgMessage ''breakpoint line is not inside a parsed procedure'') (proc_at line))
               (\<lambda>(owner, name, override_index).
                 Inr (line, \<lparr>pr_path = owner @ ''/proc/'' @ name, pr_override_id = ucast override_index\<rparr>))) of
        Inl e \<Rightarrow> (Inl e, s)
      | Inr (line, pr) \<Rightarrow>
          (case session_request ev (ReqOffset pr line) s of
             (Inl e, s) \<Rightarrow> (Inl e, s)
           | (Inr (RespOffset (Some offset)), s) \<Rightarrow>
               (map_sum id (\<lambda>c. (\<lparr>ir_proc = pr, ir_offset = offset\<rparr>, c)) (optional_string b ''condition'' 4096), s)
           | (Inr _, s) \<Rightarrow>
               (Inl (DbgMessage (''auxtools could not resolve breakpoint line '' @ show_nat (unat line))), s)))"

fun source_breakpoints ::
    "debug_env \<Rightarrow> (32 word \<Rightarrow> (string \<times> string \<times> u64) option) \<Rightarrow> json list \<Rightarrow> debugger_session
     \<Rightarrow> (debug_error + (instruction_ref \<times> string option) list) \<times> debugger_session" where
  "source_breakpoints ev proc_at [] s = (Inr [], s)"
| "source_breakpoints ev proc_at (b # bs) s =
     (case source_breakpoint ev proc_at b s of
        (Inl e, s) \<Rightarrow> (Inl e, s)
      | (Inr d, s) \<Rightarrow>
          (case source_breakpoints ev proc_at bs s of
             (Inl e, s) \<Rightarrow> (Inl e, s) | (Inr ds, s) \<Rightarrow> (Inr (d # ds), s)))"

text \<open>\<open>snapshot\<close> is the generation and the index of the active snapshot, if there is one.\<close>

definition dbg_set_breakpoints ::
    "debug_env \<Rightarrow> debug_error + u64 \<times> (string \<Rightarrow> 32 word \<Rightarrow> (string \<times> string \<times> u64) option)
     \<Rightarrow> json \<Rightarrow> debugger_session option \<Rightarrow> (debug_error + domain_result) \<times> debugger_session option" where
  "dbg_set_breakpoints ev snapshot args slot =
     (case rbind (or_err (missing ''source_path'') (get_str args ''source_path'')) (\<lambda>source_path.
           rbind snapshot (\<lambda>snapshot.
           rbind (breakpoint_array args) (\<lambda>bs. Inr (source_path, snapshot, bs)))) of
        Inl e \<Rightarrow> (Inl e, slot)
      | Inr (source_path, (generation, proc_at), bs) \<Rightarrow>
          in_session (\<lambda>s.
            if ds_state_generation s \<noteq> generation
            then (Inl (DbgMessage ''debugger session uses a stale analysis generation''), s)
            else case source_breakpoints ev (proc_at source_path) bs s of
              (Inl e, s) \<Rightarrow> (Inl e, s)
            | (Inr desired, s) \<Rightarrow> replace_breakpoints_in_session ev desired s) slot)"

section \<open>Events\<close>

definition dbg_exception_info where
  "dbg_exception_info ev slot = in_session (\<lambda>s.
     (Inr (debug_success ev (ev_complete ev (Some (ds_state_generation s)))
        (json_object [(''message'', json_opt_str (ds_last_exception s)),
           (''sequence'', JNum (PosInt (ds_event_sequence s)))])), s)) slot"

definition dbg_source where
  "dbg_source ev args slot =
     (if get_u64 args ''source_reference'' \<noteq> Some 1
      then (Inl (DbgMessage ''unknown debugger source reference''), slot)
      else in_session (\<lambda>s.
        let content = (case ds_stddef_source s of Some c \<Rightarrow> c | None \<Rightarrow> []) in
        if length content > max_debug_output_bytes default_limits
        then (Inl (DbgMessage ''debugger source exceeds output limit''), s)
        else (Inr (debug_success ev (ev_complete ev (Some (ds_state_generation s)))
          (json_object [(''source_reference'', JNum (PosInt 1)), (''name'', JStr ''stddef.dm''),
             (''content'', JStr content)])), s)) slot)"

fun event_kind :: "aux_response \<Rightarrow> (string \<times> string option) option" where
  "event_kind (Notification message) = Some (''output'', Some message)"
| "event_kind (BreakpointHit ReasonBreakpoint) = Some (''breakpoint'', None)"
| "event_kind (BreakpointHit ReasonStep) = Some (''step'', None)"
| "event_kind (BreakpointHit ReasonPause) = Some (''pause'', None)"
| "event_kind (BreakpointHit (ReasonRuntime message)) = Some (''runtime'', Some message)"
| "event_kind RespDisconnect = Some (''terminated'', None)"
| "event_kind _ = None"

definition debugger_event ::
    "aux_response \<Rightarrow> debugger_session \<Rightarrow> (debug_error + debugger_event_record) \<times> debugger_session" where
  "debugger_event response s =
     (let s = s\<lparr>ds_event_sequence := sat_add64 (ds_event_sequence s) 1\<rparr> in
      case event_kind response of None \<Rightarrow> (Inl (DbgMessage ''unexpected debugger event''), s)
      | Some (kind, message) \<Rightarrow>
          (Inr \<lparr>de_sequence = ds_event_sequence s, de_kind = kind, de_message = message\<rparr>,
           case response of
             BreakpointHit (ReasonRuntime m) \<Rightarrow> s\<lparr>ds_last_exception := Some m\<rparr> | _ \<Rightarrow> s))"

text \<open>Recording an event in the bounded queue of the session.\<close>

definition queue_event :: "debugger_event_record \<Rightarrow> debugger_session \<Rightarrow> debugger_session" where
  "queue_event e s =
     (let s = (if length (ds_events s) \<ge> max_debug_events default_limits
               then s\<lparr>ds_events := tl (ds_events s), ds_dropped_events := sat_add64 (ds_dropped_events s) 1\<rparr>
               else s)
      in s\<lparr>ds_events := ds_events s @ [e]\<rparr>)"

definition record_event ::
    "aux_response \<Rightarrow> debugger_session \<Rightarrow> (debug_error + debugger_event_record) \<times> debugger_session" where
  "record_event response s =
     (case debugger_event response s of
        (Inl e, s) \<Rightarrow> (Inl e, s) | (Inr e, s) \<Rightarrow> (Inr e, queue_event e s))"

definition event_result :: "debug_env \<Rightarrow> debugger_session \<Rightarrow> debugger_event_record option \<Rightarrow> bool \<Rightarrow> domain_result" where
  "event_result ev s event timed_out =
     debug_success ev (ev_complete ev (Some (ds_state_generation s)))
       (json_object [(''event'', json_opt json_event event), (''timed_out'', JBool timed_out),
          (''dropped_events'', JNum (PosInt (ds_dropped_events s)))])"

definition event_wanted :: "u64 \<Rightarrow> string list \<Rightarrow> debugger_event_record \<Rightarrow> bool" where
  "event_wanted after kinds e \<longleftrightarrow> de_sequence e > after \<and> (kinds = [] \<or> de_kind e \<in> set kinds)"

text \<open>
  The loop of \<open>wait_for_event\<close>: \<open>expired i\<close> tells whether the deadline has passed at the
  \<open>i\<close>-th turn.  Every turn takes a queued event or reads a frame, so \<open>wait_fuel\<close> turns suffice.
\<close>

fun await_event ::
    "nat \<Rightarrow> debug_env \<Rightarrow> (nat \<Rightarrow> bool) \<Rightarrow> nat \<Rightarrow> u64 \<Rightarrow> string list \<Rightarrow> debugger_session
     \<Rightarrow> ((debug_error + domain_result) \<times> debugger_session) option" where
  "await_event 0 ev expired i after kinds s = None"
| "await_event (Suc n) ev expired i after kinds s =
     (if expired i then Some (Inr (event_result ev s None True), s)
      else case next_event (ev_codec ev) (ds_connection s) of (r, cn) \<Rightarrow>
        let s = s\<lparr>ds_connection := cn\<rparr> in
        case r of
          Inl AuxTimeout \<Rightarrow> Some (Inr (event_result ev s None True), s)
        | Inl e \<Rightarrow> Some (Inl (DbgProtocol e), s)
        | Inr response \<Rightarrow>
            (case record_event response s of
               (Inl e, s) \<Rightarrow> Some (Inl e, s)
             | (Inr e, s) \<Rightarrow>
                 if event_wanted after kinds e then Some (Inr (event_result ev s (Some e) False), s)
                 else await_event n ev expired (Suc i) after kinds s))"

definition wait_fuel :: "debugger_session \<Rightarrow> nat" where
  "wait_fuel s = Suc (pending (ds_connection s) + length (cn_events (ds_connection s)))"

definition event_kinds :: "json \<Rightarrow> string list" where
  "event_kinds args =
     (case Option.bind (json_get args ''kinds'') as_array of None \<Rightarrow> []
      | Some vs \<Rightarrow> List.map_filter as_str vs)"

definition dbg_wait_for_event ::
    "debug_env \<Rightarrow> (u64 \<Rightarrow> nat \<Rightarrow> bool) \<Rightarrow> json \<Rightarrow> debugger_session option
     \<Rightarrow> ((debug_error + domain_result) \<times> debugger_session option) option" where
  "dbg_wait_for_event ev expired args slot =
     (let after = (case get_u64 args ''after_sequence'' of Some n \<Rightarrow> n | None \<Rightarrow> 0);
          kinds = event_kinds args
      in case slot of None \<Rightarrow> Some (Inl no_session, None)
      | Some s \<Rightarrow>
          (case find (event_wanted after kinds) (ds_events s) of
             Some e \<Rightarrow> Some (Inr (event_result ev s (Some e) False), Some s)
           | None \<Rightarrow>
               map_option (\<lambda>(r, s). (r, Some s))
                 (await_event (wait_fuel s) ev (expired (duration_ms args ''timeout_ms'' 30000 300000)) 0
                    after kinds s)))"

section \<open>The event queue\<close>

definition event_of :: "debugger_session \<Rightarrow> aux_response \<Rightarrow> debugger_event_record list" where
  "event_of s response =
     (case event_kind response of None \<Rightarrow> []
      | Some (kind, message) \<Rightarrow>
          [\<lparr>de_sequence = sat_add64 (ds_event_sequence s) 1, de_kind = kind, de_message = message\<rparr>])"

lemma debugger_event_simps:
  assumes "debugger_event response s = (r, s')"
  shows "ds_events s' = ds_events s" "ds_event_sequence s' = sat_add64 (ds_event_sequence s) 1"
    "ds_connection s' = ds_connection s" "ds_dropped_events s' = ds_dropped_events s"
    "event_of s response = (case r of Inl _ \<Rightarrow> [] | Inr e \<Rightarrow> [e])"
  using assms
  by (auto simp: debugger_event_def event_of_def Let_def
      split: option.splits prod.splits aux_response.splits breakpoint_reason.splits)

lemma record_event_events:
  assumes "length (ds_events s) \<le> max_debug_events default_limits"
  shows "ds_events (snd (record_event response s))
    = drop (length (ds_events s @ event_of s response) - max_debug_events default_limits)
        (ds_events s @ event_of s response)"
proof -
  obtain r s1 where e: "debugger_event response s = (r, s1)" by fastforce
  note f = debugger_event_simps[OF e]
  show ?thesis
  proof (cases r)
    case (Inl x)
    then show ?thesis using f assms by (simp add: record_event_def e)
  next
    case (Inr x)
    have "drop (Suc (length es) - m) (es @ [x]) = (if length es \<ge> m then tl es else es) @ [x]"
      if "length es \<le> m" "0 < m" for es :: "debugger_event_record list" and m
      using that by (cases "length es = m") (auto simp: drop_Suc)
    then show ?thesis
      using f assms Inr limits_positive(2) by (simp add: record_event_def e queue_event_def Let_def)
  qed
qed

interpretation debug_queue: bounded_tail "\<lambda>s response. snd (record_event response s)" ds_events event_of
  "\<lambda>es. length es \<le> max_debug_events default_limits"
  "\<lambda>s. length (ds_events s) \<le> max_debug_events default_limits"
proof
  fix s :: debugger_session and response
  assume "length (ds_events s) \<le> max_debug_events default_limits"
  note e = record_event_events[OF this, of response]
  show "ds_events (snd (record_event response s))
      = bounded_suffix (\<lambda>es. length es \<le> max_debug_events default_limits) (ds_events s @ event_of s response)"
    by (simp add: e bounded_suffix_length)
  show "length (ds_events (snd (record_event response s))) \<le> max_debug_events default_limits"
    by (simp add: e)
qed (auto simp: infix_closed_length)

text \<open>
  The session keeps exactly its most recent thousand events: after any responses its queue
  is the last part of the old queue followed by one event per response that is an event, in
  order, and nothing else.
\<close>

lemma debugger_event_queue_is_tail:
  assumes "length (ds_events s) \<le> max_debug_events default_limits"
  shows "\<exists>es. ds_events (foldl (\<lambda>s r. snd (record_event r s)) s rs)
        = drop (length es - max_debug_events default_limits) es
      \<and> prefix (ds_events s) es
      \<and> map (\<lambda>e. (de_kind e, de_message e)) (drop (length (ds_events s)) es) = List.map_filter event_kind rs"
proof -
  have "map (\<lambda>e. (de_kind e, de_message e)) (debug_queue.history s rs) = List.map_filter event_kind rs" for s
    by (induction rs arbitrary: s) (auto simp: event_of_def List.map_filter_def split: option.splits)
  then show ?thesis
    using debug_queue.run_contents[OF assms, of rs]
    by (intro exI[of _ "ds_events s @ debug_queue.history s rs"]) (simp add: bounded_suffix_length)
qed

section \<open>Waiting\<close>

lemma next_event_pending:
  assumes "next_event codec cn = (Inr r, cn')"
  shows "pending cn' + length (cn_events cn') < pending cn + length (cn_events cn)"
proof (cases "cn_events cn")
  case Nil
  then have read: "read_response codec cn = (Inr r, cn')" using assms by (simp add: next_event_def)
  then show ?thesis using read_response_pending[OF read] read_response_fields[OF read] by simp
next
  case (Cons e es)
  then show ?thesis using assms by (auto simp: next_event_def pending_def)
qed

lemma record_event_connection:
  "record_event response s = (r, s') \<Longrightarrow> ds_connection s' = ds_connection s"
  by (auto simp: record_event_def queue_event_def Let_def debugger_event_simps split: prod.splits sum.splits)

lemma await_event_returns:
  "pending (ds_connection s) + length (cn_events (ds_connection s)) < n \<Longrightarrow>
     length (ds_events s) \<le> max_debug_events default_limits \<Longrightarrow>
     \<exists>r s'. await_event n ev expired i after kinds s = Some (r, s')
       \<and> length (ds_events s') \<le> max_debug_events default_limits
       \<and> (\<forall>result. r = Inr result \<longrightarrow> (\<exists>event. result = event_result ev s' event (event = None)
            \<and> (\<forall>e. event = Some e \<longrightarrow> event_wanted after kinds e)))"
proof (induction n arbitrary: s i)
  case 0
  then show ?case by simp
next
  case (Suc n)
  obtain r cn where "next": "next_event (ev_codec ev) (ds_connection s) = (r, cn)" by fastforce
  let ?s = "s\<lparr>ds_connection := cn\<rparr>"
  have timed_out: "\<exists>event. event_result ev s None True = event_result ev s event (event = None)
      \<and> (\<forall>e. event = Some e \<longrightarrow> event_wanted after kinds e)" for s
    by (rule exI[of _ None]) simp
  show ?case
  proof (cases "expired i")
    case True
    then show ?thesis using Suc.prems timed_out by simp
  next
    case False
    show ?thesis
    proof (cases r)
      case (Inl e)
      then show ?thesis using Suc.prems False "next" timed_out by (cases e) (simp_all add: Let_def)
    next
      case (Inr response)
      obtain x s1 where rec: "record_event response ?s = (x, s1)" by fastforce
      have len: "length (ds_events s1) \<le> max_debug_events default_limits"
        using debug_queue.inv_push[of ?s response] Suc.prems(2) rec by simp
      have "pending (ds_connection s1) + length (cn_events (ds_connection s1)) < n"
        using next_event_pending[OF "next"[unfolded Inr]] record_event_connection[OF rec] Suc.prems(1) by simp
      from Suc.IH[OF this len, of "Suc i"] show ?thesis
        using False "next" Inr rec len by (cases x) (auto simp: Let_def intro: exI[of _ "Some _"])
    qed
  qed
qed

text \<open>
  Waiting for an event always returns, whatever the debug server sends and however long
  it keeps sending: with an event that is newer than asked for and of a wanted kind, with a
  time-out, or with an error; and the queue stays within its bound.
\<close>

lemma wait_for_event_returns:
  assumes "length (ds_events s) \<le> max_debug_events default_limits"
  shows "\<exists>r s'. dbg_wait_for_event ev expired args (Some s) = Some (r, Some s')
    \<and> length (ds_events s') \<le> max_debug_events default_limits
    \<and> (\<forall>result. r = Inr result \<longrightarrow> (\<exists>event. result = event_result ev s' event (event = None)
         \<and> (\<forall>e. event = Some e \<longrightarrow>
              event_wanted (case get_u64 args ''after_sequence'' of Some n \<Rightarrow> n | None \<Rightarrow> 0) (event_kinds args) e)))"
proof -
  let ?after = "case get_u64 args ''after_sequence'' of Some n \<Rightarrow> n | None \<Rightarrow> 0"
  show ?thesis
  proof (cases "find (event_wanted ?after (event_kinds args)) (ds_events s)")
    case (Some e)
    then have "event_wanted ?after (event_kinds args) e" by (simp add: find_Some_iff) blast
    then show ?thesis using Some assms by (force simp: dbg_wait_for_event_def Let_def)
  next
    case None
    obtain r s' where run: "await_event (wait_fuel s) ev (expired (duration_ms args ''timeout_ms'' 30000 300000)) 0
        ?after (event_kinds args) s = Some (r, s')"
      and post: "length (ds_events s') \<le> max_debug_events default_limits"
        "\<forall>result. r = Inr result \<longrightarrow> (\<exists>event. result = event_result ev s' event (event = None)
            \<and> (\<forall>e. event = Some e \<longrightarrow> event_wanted ?after (event_kinds args) e))"
      using await_event_returns[of s "wait_fuel s"] assms unfolding wait_fuel_def by blast
    have "dbg_wait_for_event ev expired args (Some s) = Some (r, Some s')"
      using None run by (simp add: dbg_wait_for_event_def Let_def)
    with post show ?thesis by blast
  qed
qed

section \<open>Replacing breakpoints\<close>

text \<open>The requests of a conversation, one after the other, up to the first that fails.\<close>

fun exchange ::
    "debug_env \<Rightarrow> aux_request_message list \<Rightarrow> debugger_session \<Rightarrow> (debug_error + aux_response list) \<times> debugger_session"
  where
  "exchange ev [] s = (Inr [], s)"
| "exchange ev (q # qs) s =
     (case session_request ev q s of
        (Inl e, s) \<Rightarrow> (Inl e, s)
      | (Inr r, s) \<Rightarrow>
          (case exchange ev qs s of (Inl e, s) \<Rightarrow> (Inl e, s) | (Inr rs, s) \<Rightarrow> (Inr (r # rs), s)))"

definition verified_instructions ::
    "(instruction_ref \<times> string option) list \<Rightarrow> aux_response list \<Rightarrow> instruction_ref set" where
  "verified_instructions ds vs = {fst d | d v. (d, v) \<in> set (zip ds vs) \<and> is_set_success v}"

lemma verified_instructions_simps [simp]:
  "verified_instructions [] vs = {}"
  "verified_instructions (d # ds) (v # vs) =
     (if is_set_success v then {fst d} else {}) \<union> verified_instructions ds vs"
  by (cases d; auto simp: verified_instructions_def)+

lemma session_request_fields:
  "session_request ev q s = (r, s') \<Longrightarrow> ds_active_breakpoints s' = ds_active_breakpoints s
     \<and> ds_state_generation s' = ds_state_generation s"
  by (auto simp: session_request_def split: prod.splits)

lemma unset_breakpoints_exchange:
  "unset_breakpoints ev is s = (r, s') \<Longrightarrow>
     ds_active_breakpoints s' = ds_active_breakpoints s \<and>
     (r = Inr () \<longrightarrow> (\<exists>us. exchange ev (map ReqBreakpointUnset is) s = (Inr us, s')
        \<and> set us \<subseteq> {RespBreakpointUnset True}))"
proof (induction "is" arbitrary: s)
  case Nil
  then show ?case by auto
next
  case (Cons i "is")
  obtain x s1 where req: "session_request ev (ReqBreakpointUnset i) s = (x, s1)" by fastforce
  note f = session_request_fields[OF req]
  show ?case
  proof (cases "x = Inr (RespBreakpointUnset True)")
    case True
    then show ?thesis using Cons.IH[of s1] Cons.prems f by (auto simp: req)
  next
    case False
    then show ?thesis using Cons.prems f by (cases x) (auto simp: req)
  qed
qed

lemma set_desired_exchange:
  "set_desired ev ds installed results s = (r, s') \<Longrightarrow>
     ds_active_breakpoints s' = ds_active_breakpoints s \<and> ds_state_generation s' = ds_state_generation s \<and>
     (\<forall>x. r = Inr x \<longrightarrow> (\<exists>vs. exchange ev (map (\<lambda>(i, c). ReqBreakpointSet i c) ds) s = (Inr vs, s')
        \<and> length vs = length ds
        \<and> set (fst x) = set installed \<union> verified_instructions ds vs
        \<and> snd x = results @ map2 (\<lambda>d v. (fst d, is_set_success v)) ds vs))"
proof (induction ds arbitrary: installed results s)
  case Nil
  then show ?case by auto
next
  case (Cons d ds)
  obtain i c where d: "d = (i, c)" by fastforce
  obtain x s1 where req: "session_request ev (ReqBreakpointSet i c) s = (x, s1)" by fastforce
  note f = session_request_fields[OF req]
  show ?case
  proof (cases x)
    case (Inl e)
    then show ?thesis using Cons.prems f by (auto simp: d req)
  next
    case (Inr v)
    let ?installed = "if is_set_success v then List.insert i installed else installed"
    have run: "set_desired ev ds ?installed (results @ [(i, is_set_success v)]) s1 = (r, s')"
      using Cons.prems Inr by (simp add: d req Let_def)
    note ih = Cons.IH[OF run]
    show ?thesis
    proof (intro conjI allI impI)
      fix x
      assume "r = Inr x"
      with ih obtain vs where "exchange ev (map (\<lambda>(i, c). ReqBreakpointSet i c) ds) s1 = (Inr vs, s')"
        "length vs = length ds"
        "set (fst x) = set ?installed \<union> verified_instructions ds vs"
        "snd x = (results @ [(i, is_set_success v)]) @ map2 (\<lambda>d v. (fst d, is_set_success v)) ds vs"
        by blast
      then show "\<exists>vs. exchange ev (map (\<lambda>(i, c). ReqBreakpointSet i c) (d # ds)) s = (Inr vs, s')
        \<and> length vs = length (d # ds)
        \<and> set (fst x) = set installed \<union> verified_instructions (d # ds) vs
        \<and> snd x = results @ map2 (\<lambda>d v. (fst d, is_set_success v)) (d # ds) vs"
        using Inr req d by (intro exI[of _ "v # vs"]) auto
    qed (use ih f in auto)
  qed
qed

text \<open>
  Replacing the breakpoints succeeds only when the debug server acknowledged the removal of
  every active breakpoint that is no longer desired and answered every desired one; the
  session then holds exactly the desired breakpoints that were verified.  When any step fails,
  the session still holds the old set, even for breakpoints already removed.
\<close>

lemma replace_breakpoints_outcome:
  "case replace_breakpoints_in_session ev desired s of
     (Inl _, s') \<Rightarrow> ds_active_breakpoints s' = ds_active_breakpoints s
   | (Inr result, s') \<Rightarrow> \<exists>us vs s1 s2.
       exchange ev (map ReqBreakpointUnset (filter (\<lambda>i. i \<notin> fst ` set desired) (ds_active_breakpoints s))) s
         = (Inr us, s1) \<and> set us \<subseteq> {RespBreakpointUnset True}
       \<and> exchange ev (map (\<lambda>(i, c). ReqBreakpointSet i c) desired) s1 = (Inr vs, s2)
       \<and> set (ds_active_breakpoints s') = verified_instructions desired vs
       \<and> result = debug_success ev (ev_complete ev (Some (ds_state_generation s')))
           (json_object [(''breakpoints'', JArr (map2 (\<lambda>d v. breakpoint_result (fst d, is_set_success v)) desired vs))])"
proof -
  let ?stale = "filter (\<lambda>i. i \<notin> fst ` set desired) (ds_active_breakpoints s)"
  obtain r1 s1 where un: "unset_breakpoints ev ?stale s = (r1, s1)" by fastforce
  note u = unset_breakpoints_exchange[OF un]
  obtain r2 s2 where set: "set_desired ev desired [] [] s1 = (r2, s2)" by fastforce
  note d = set_desired_exchange[OF set]
  show ?thesis
  proof (cases r1)
    case (Inl e)
    then show ?thesis using u by (simp add: replace_breakpoints_in_session_def un)
  next
    case ok: (Inr x)
    show ?thesis
    proof (cases r2)
      case (Inl e)
      then show ?thesis using u d ok by (simp add: replace_breakpoints_in_session_def un set)
    next
      case (Inr y)
      obtain us where us: "exchange ev (map ReqBreakpointUnset ?stale) s = (Inr us, s1)"
        "set us \<subseteq> {RespBreakpointUnset True}" using u ok by auto
      obtain vs where "exchange ev (map (\<lambda>(i, c). ReqBreakpointSet i c) desired) s1 = (Inr vs, s2)"
        "set (fst y) = verified_instructions desired vs"
        "snd y = map2 (\<lambda>d v. (fst d, is_set_success v)) desired vs"
        using d Inr by auto
      then have "\<exists>us vs s1' s2'. exchange ev (map ReqBreakpointUnset ?stale) s = (Inr us, s1')
          \<and> set us \<subseteq> {RespBreakpointUnset True}
          \<and> exchange ev (map (\<lambda>(i, c). ReqBreakpointSet i c) desired) s1' = (Inr vs, s2')
          \<and> set (fst y) = verified_instructions desired vs
          \<and> map breakpoint_result (snd y) = map2 (\<lambda>d v. breakpoint_result (fst d, is_set_success v)) desired vs"
        using us by (intro exI[of _ us] exI[of _ vs] exI[of _ s1] exI[of _ s2])
          (simp add: case_prod_unfold)
      then show ?thesis using ok Inr
        by (cases y) (fastforce simp: replace_breakpoints_in_session_def un set)
    qed
  qed
qed

definition demo_debug_session :: debugger_session where
  "demo_debug_session = \<lparr>ds_lifecycle = DebuggerRunning, ds_connection = demo_connection, ds_port = 1,
     ds_dmb_path = [], ds_stddef_source = None, ds_state_generation = 1, ds_event_sequence = 0,
     ds_last_exception = None, ds_active_breakpoints = [], ds_events = [], ds_dropped_events = 0,
     ds_launch_provenance = JNull\<rparr>"

lemma debugger_event_queue_is_tail_witness:
  "\<exists>es. ds_events (foldl (\<lambda>s r. snd (record_event r s)) demo_debug_session [Notification ''a'', Ack])
        = drop (length es - 1000) es
      \<and> map (\<lambda>e. (de_kind e, de_message e)) es = [(''output'', Some ''a'')]"
proof -
  have "length (ds_events demo_debug_session) \<le> max_debug_events default_limits"
    by (simp add: demo_debug_session_def)
  from debugger_event_queue_is_tail[OF this, of "[Notification ''a'', Ack]"] show ?thesis
    by (auto simp: demo_debug_session_def default_limits_def List.map_filter_def)
qed

lemma wait_for_event_returns_witness:
  "\<exists>r s'. dbg_wait_for_event \<lparr>ev_codec = demo_codec, ev_compact = (\<lambda>_. []), ev_pretty = (\<lambda>_. []),
       ev_complete = metadata_complete [] JNull []\<rparr> (\<lambda>_ _. False) JNull (Some demo_debug_session) = Some (r, Some s')"
proof -
  have "length (ds_events demo_debug_session) \<le> max_debug_events default_limits"
    by (simp add: demo_debug_session_def)
  from wait_for_event_returns[OF this] show ?thesis by blast
qed

end
