(* ===== verification/Evidence_Timeline.thy ===== *)
theory Evidence_Timeline
  imports Prelude Btree Path_Policy
begin

text \<open>
  The phases of a run and the assignment of evidence records to them, from
  \<open>src/native_evidence/model.rs\<close> and \<open>timeline.rs\<close>.  \<open>rfc3339\<close>, the parser of the \<open>time\<close> crate, is a
  parameter: it returns an instant in milliseconds.
\<close>

section \<open>Data\<close>

record phase_input =
  ep_id :: string
  ep_wall_start :: "string option"
  ep_wall_end :: "string option"
  ep_world_start_ds :: "int option"
  ep_world_end_ds :: "int option"

record evidence_record =
  ev_wall_unix_ms :: "int option"
  ev_world_deciseconds :: "int option"
  ev_sample_index :: nat
  ev_metrics :: "(string, u64) btree_map"
  ev_groups :: "(string, string) btree_map"

datatype evidence_error =
    ArtifactCount
  | PhaseLimit
  | PhaseIdentifierLength
  | WallTimeInvalid string
  | WallRangeNotIncreasing
  | WorldRangeNotIncreasing
  | PhasesOverlap
  | PhaseIdentifiersNotUnique
  | SelectedMetricLimit
  | GroupFieldLimit
  | OptionNamesNotUnique
  | MultiplePhases
  | ClocksDisagree
  | EvidencePolicy policy_error
  | EvidenceIo string
  | EvidenceFileTooLarge
  | EvidenceTotalOverflow
  | EvidenceTotalTooLarge
  | EvidenceFileGrew
  | NoEffectiveRootForEvidence
  | JsonTooDeep
  | JsonStringTooLong
  | EvidenceSyntax string
  | EvidenceColumnLimit
  | HeadersNotUnique
  | EvidenceRowLimit
  | EvidenceLineLimit
  | NotObjectOrArray
  | ArtifactPathsNotUnique
  | EvidenceGroupLimit
  | EvidenceIdentity string
  | ComparisonRunCount
  | IdentityMismatch string
  | EvidencePanicked

type_synonym instant_parser = "string \<Rightarrow> string + int"

section \<open>Clocks\<close>

definition wall_ms :: "instant_parser \<Rightarrow> string option \<Rightarrow> evidence_error + int option" where
  "wall_ms rfc3339 v =
     (case v of None \<Rightarrow> Inr None
      | Some s \<Rightarrow> rbind (map_err WallTimeInvalid (rfc3339 s)) (\<lambda>ms. Inr (Some ms)))"

text \<open>\<open>wall_ms(..).ok().flatten()\<close>.\<close>

definition wall_value :: "instant_parser \<Rightarrow> string option \<Rightarrow> int option" where
  "wall_value rfc3339 v = (case wall_ms rfc3339 v of Inl _ \<Rightarrow> None | Inr ms \<Rightarrow> ms)"

fun contains_instant :: "int option \<Rightarrow> int option \<Rightarrow> int option \<Rightarrow> bool" where
  "contains_instant (Some start) (Some finish) (Some v) \<longleftrightarrow> start \<le> v \<and> v < finish"
| "contains_instant _ _ _ \<longleftrightarrow> False"

fun overlaps :: "int option \<Rightarrow> int option \<Rightarrow> int option \<Rightarrow> int option \<Rightarrow> bool" where
  "overlaps (Some a) (Some b) (Some c) (Some d) \<longleftrightarrow> a < d \<and> c < b"
| "overlaps _ _ _ _ \<longleftrightarrow> False"

fun increasing :: "int option \<Rightarrow> int option \<Rightarrow> bool" where
  "increasing (Some start) (Some finish) \<longleftrightarrow> start < finish"
| "increasing _ _ \<longleftrightarrow> True"

section \<open>Validation\<close>

fun check_phase_ranges :: "instant_parser \<Rightarrow> phase_input list \<Rightarrow> evidence_error + unit" where
  "check_phase_ranges rfc3339 [] = Inr ()"
| "check_phase_ranges rfc3339 (p # ps) =
     (if ep_id p = [] \<or> 256 < length (ep_id p) then Inl PhaseIdentifierLength
      else rbind (wall_ms rfc3339 (ep_wall_start p)) (\<lambda>start.
           rbind (wall_ms rfc3339 (ep_wall_end p)) (\<lambda>finish.
             if \<not> increasing start finish then Inl WallRangeNotIncreasing
             else if \<not> increasing (ep_world_start_ds p) (ep_world_end_ds p) then Inl WorldRangeNotIncreasing
             else check_phase_ranges rfc3339 ps)))"

fun check_overlaps_with :: "instant_parser \<Rightarrow> phase_input \<Rightarrow> phase_input list \<Rightarrow> evidence_error + unit" where
  "check_overlaps_with rfc3339 left [] = Inr ()"
| "check_overlaps_with rfc3339 left (right # ps) =
     (if overlaps (ep_world_start_ds left) (ep_world_end_ds left) (ep_world_start_ds right) (ep_world_end_ds right)
      then Inl PhasesOverlap
      else rbind (wall_ms rfc3339 (ep_wall_start left)) (\<lambda>a.
           rbind (wall_ms rfc3339 (ep_wall_end left)) (\<lambda>b.
           rbind (wall_ms rfc3339 (ep_wall_start right)) (\<lambda>c.
           rbind (wall_ms rfc3339 (ep_wall_end right)) (\<lambda>d.
             if overlaps a b c d then Inl PhasesOverlap else check_overlaps_with rfc3339 left ps)))))"

fun check_overlaps :: "instant_parser \<Rightarrow> phase_input list \<Rightarrow> evidence_error + unit" where
  "check_overlaps rfc3339 [] = Inr ()"
| "check_overlaps rfc3339 (left # ps) =
     rbind (check_overlaps_with rfc3339 left ps) (\<lambda>_. check_overlaps rfc3339 ps)"

definition validate_phases :: "instant_parser \<Rightarrow> phase_input list \<Rightarrow> evidence_error + unit" where
  "validate_phases rfc3339 phases =
     rbind (check_phase_ranges rfc3339 phases) (\<lambda>_. check_overlaps rfc3339 phases)"

section \<open>Assignment\<close>

definition wall_covers :: "instant_parser \<Rightarrow> evidence_record \<Rightarrow> phase_input \<Rightarrow> bool" where
  "wall_covers rfc3339 r p \<longleftrightarrow> contains_instant (wall_value rfc3339 (ep_wall_start p))
     (wall_value rfc3339 (ep_wall_end p)) (ev_wall_unix_ms r)"

definition world_covers :: "evidence_record \<Rightarrow> phase_input \<Rightarrow> bool" where
  "world_covers r p \<longleftrightarrow> contains_instant (ep_world_start_ds p) (ep_world_end_ds p) (ev_world_deciseconds r)"

definition assign_phase ::
  "instant_parser \<Rightarrow> evidence_record \<Rightarrow> phase_input list \<Rightarrow> evidence_error + string option" where
  "assign_phase rfc3339 r phases =
     (let wall = map ep_id (filter (wall_covers rfc3339 r) phases);
          world = map ep_id (filter (world_covers r) phases)
      in if 1 < length wall \<or> 1 < length world then Inl MultiplePhases
         else case (wall, world) of
           (left # _, right # _) \<Rightarrow> if left \<noteq> right then Inl ClocksDisagree else Inr (Some left)
         | (v # _, []) \<Rightarrow> Inr (Some v)
         | ([], v # _) \<Rightarrow> Inr (Some v)
         | ([], []) \<Rightarrow> Inr None)"

section \<open>Valid phases never compete\<close>

lemma contains_overlap:
  "contains_instant a b v \<Longrightarrow> contains_instant c d v \<Longrightarrow> overlaps a b c d"
  by (cases a; cases b; cases c; cases d; cases v) auto

lemma wall_value_Inr: "wall_ms rfc3339 v = Inr ms \<Longrightarrow> wall_value rfc3339 v = ms"
  by (simp add: wall_value_def)

lemma check_overlaps_with_Inr:
  "check_overlaps_with rfc3339 left ps = Inr () \<Longrightarrow> right \<in> set ps \<Longrightarrow>
     \<not> (wall_covers rfc3339 r left \<and> wall_covers rfc3339 r right) \<and> \<not> (world_covers r left \<and> world_covers r right)"
proof (induction ps)
  case (Cons p ps)
  from Cons(2) obtain a b c d where w: "wall_ms rfc3339 (ep_wall_start left) = Inr a" "wall_ms rfc3339 (ep_wall_end left) = Inr b"
    "wall_ms rfc3339 (ep_wall_start p) = Inr c" "wall_ms rfc3339 (ep_wall_end p) = Inr d"
    and no: "\<not> overlaps a b c d"
      "\<not> overlaps (ep_world_start_ds left) (ep_world_end_ds left) (ep_world_start_ds p) (ep_world_end_ds p)"
    and rest: "check_overlaps_with rfc3339 left ps = Inr ()"
    by (auto simp: rbind_Inr split: if_splits)
  show ?case
  proof (cases "right = p")
    case True
    then show ?thesis using no contains_overlap
      by (auto simp: wall_covers_def world_covers_def w[THEN wall_value_Inr])
  next
    case False
    then show ?thesis using Cons(1)[OF rest] Cons(3) by auto
  qed
qed simp

lemma check_overlaps_Inr:
  "check_overlaps rfc3339 phases = Inr () \<Longrightarrow>
     length (filter (wall_covers rfc3339 r) phases) \<le> 1 \<and> length (filter (world_covers r) phases) \<le> 1"
proof (induction phases)
  case (Cons p ps)
  from Cons(2) have one: "check_overlaps_with rfc3339 p ps = Inr ()" and rest: "check_overlaps rfc3339 ps = Inr ()"
    by (auto simp: rbind_Inr)
  note apart = check_overlaps_with_Inr[OF one, of _ r]
  have "filter (wall_covers rfc3339 r) ps = []" if "wall_covers rfc3339 r p"
    using that apart by (auto simp: filter_empty_conv)
  moreover have "filter (world_covers r) ps = []" if "world_covers r p"
    using that apart by (auto simp: filter_empty_conv)
  ultimately show ?case using Cons(1)[OF rest] by simp
qed simp

lemma filter_le_one: "length (filter P xs) \<le> 1 \<Longrightarrow> filter P xs = [] \<or> (\<exists>x. filter P xs = [x])"
  by (cases "filter P xs") auto

lemma filter_only_one:
  assumes "filter P xs = [y]"
  shows "y \<in> set xs \<and> P y \<and> (\<forall>x \<in> set xs. P x \<longrightarrow> x = y)"
proof -
  have "set (filter P xs) = {y}" by (simp add: assms)
  then show ?thesis by auto
qed

text \<open>
  C36. Valid phases never compete for a record: once the phases of a request have been validated, no
  record matches two of them on one clock.  A record is left unassigned only when no phase covers
  it on either clock; it is assigned to a phase only if every phase that covers it has that
  identifier; and the assignment fails only when the two clocks name different phases.
\<close>

theorem validated_phases_assign_uniquely:
  assumes "validate_phases rfc3339 phases = Inr ()"
  shows "case assign_phase rfc3339 r phases of
      Inl e \<Rightarrow> e = ClocksDisagree \<and> (\<exists>p \<in> set phases. \<exists>q \<in> set phases.
        wall_covers rfc3339 r p \<and> world_covers r q \<and> ep_id p \<noteq> ep_id q)
    | Inr None \<Rightarrow> \<forall>p \<in> set phases. \<not> wall_covers rfc3339 r p \<and> \<not> world_covers r p
    | Inr (Some name) \<Rightarrow>
        (\<exists>p \<in> set phases. wall_covers rfc3339 r p \<or> world_covers r p)
        \<and> (\<forall>p \<in> set phases. wall_covers rfc3339 r p \<or> world_covers r p \<longrightarrow> ep_id p = name)"
proof -
  have few: "length (filter (wall_covers rfc3339 r) phases) \<le> 1" "length (filter (world_covers r) phases) \<le> 1"
    using assms check_overlaps_Inr by (auto simp: validate_phases_def rbind_Inr)
  from filter_le_one[OF few(1)] filter_le_one[OF few(2)]
  consider "filter (wall_covers rfc3339 r) phases = []" "filter (world_covers r) phases = []"
    | p where "filter (wall_covers rfc3339 r) phases = [p]" "filter (world_covers r) phases = []"
    | q where "filter (wall_covers rfc3339 r) phases = []" "filter (world_covers r) phases = [q]"
    | p q where "filter (wall_covers rfc3339 r) phases = [p]" "filter (world_covers r) phases = [q]" by blast
  then show ?thesis
  proof cases
    case 1
    then show ?thesis by (simp add: assign_phase_def filter_empty_conv)
  next
    case (2 p)
    note only = filter_only_one[OF 2(1)] and none = 2(2)[unfolded filter_empty_conv]
    show ?thesis using only none by (auto simp: assign_phase_def 2)
  next
    case (3 q)
    note only = filter_only_one[OF 3(2)] and none = 3(1)[unfolded filter_empty_conv]
    show ?thesis using only none by (auto simp: assign_phase_def 3)
  next
    case (4 p q)
    note only = filter_only_one[OF 4(1)] filter_only_one[OF 4(2)]
    show ?thesis
    proof (cases "ep_id p = ep_id q")
      case True
      then show ?thesis using only by (auto simp: assign_phase_def 4)
    next
      case False
      then have "assign_phase rfc3339 r phases = Inl ClocksDisagree" by (simp add: assign_phase_def 4)
      moreover have "p \<in> set phases" "q \<in> set phases" "wall_covers rfc3339 r p" "world_covers r q" using only by simp_all
      ultimately show ?thesis using False by auto
    qed
  qed
qed

definition demo_phase :: "string \<Rightarrow> int \<Rightarrow> int \<Rightarrow> phase_input" where
  "demo_phase name a b = \<lparr>ep_id = name, ep_wall_start = None, ep_wall_end = None,
     ep_world_start_ds = Some a, ep_world_end_ds = Some b\<rparr>"

definition demo_record :: "int \<Rightarrow> evidence_record" where
  "demo_record t = \<lparr>ev_wall_unix_ms = None, ev_world_deciseconds = Some t, ev_sample_index = 0,
     ev_metrics = [], ev_groups = []\<rparr>"

theorem validated_phases_assign_uniquely_witness:
  "assign_phase (\<lambda>_. Inl []) (demo_record 10) [demo_phase ''a'' 0 10, demo_phase ''b'' 10 20] = Inr (Some ''b'')
   \<and> \<not> world_covers (demo_record 10) (demo_phase ''a'' 0 10)"
proof -
  let ?ps = "[demo_phase ''a'' 0 10, demo_phase ''b'' 10 20]"
  have ok: "validate_phases (\<lambda>_. Inl []) ?ps = Inr ()"
    by (simp add: validate_phases_def demo_phase_def wall_ms_def)
  have run: "assign_phase (\<lambda>_. Inl []) (demo_record 10) ?ps = Inr (Some ''b'')"
    by (simp add: assign_phase_def wall_covers_def world_covers_def demo_phase_def demo_record_def wall_value_def wall_ms_def)
  from validated_phases_assign_uniquely[OF ok, of "demo_record 10"] run
  have "world_covers (demo_record 10) (demo_phase ''a'' 0 10) \<longrightarrow> ep_id (demo_phase ''a'' 0 10) = ''b''" by simp
  with run show ?thesis by (simp add: demo_phase_def)
qed

end
