(* ===== verification/Evidence_Redaction.thy ===== *)
theory Evidence_Redaction
  imports Text_Lines
begin

text \<open>
  The redaction of evidence text, from \<open>src/native_evidence/redaction.rs\<close>: the protected field
  names, and \<open>sanitize_text\<close>, which replaces the value after each \<open>field=\<close> marker.  The loop works
  on positions of a text it edits; it is shown to be one scan of the text per field, and that
  scan to leave no value of any protected field.
\<close>

section \<open>The code\<close>

definition PROTECTED_FIELDS :: "string list" where
  "PROTECTED_FIELDS =
     [''player'', ''player_id'', ''client'', ''client_id'', ''account'', ''account_id'', ''key'', ''ckey'',
      ''mob'', ''mob_id'', ''discord'', ''discord_id'']"

definition protected_name :: "string \<Rightarrow> bool" where
  "protected_name name \<longleftrightarrow>
     replace_char (CHR ''-'') (CHR ''_'') (to_ascii_lowercase name) \<in> set PROTECTED_FIELDS"

definition REDACTED :: string where
  "REDACTED = ''<redacted>''"

definition word_byte :: "char \<Rightarrow> bool" where
  "word_byte c \<longleftrightarrow> (let n = of_char c :: nat in
     48 \<le> n \<and> n \<le> 57 \<or> 65 \<le> n \<and> n \<le> 90 \<or> 97 \<le> n \<and> n \<le> 122 \<or> n = 95)"

definition delimiters :: "string list" where
  "delimiters = [CHR '',''] # [CHR '';''] # white_space"

definition delimiter_at :: "string \<Rightarrow> bool" where
  "delimiter_at s \<longleftrightarrow> list_ex (\<lambda>w. prefix w s) delimiters"

text \<open>The bytes before the first white space, comma or semicolon, or all of them.\<close>

fun value_length :: "string \<Rightarrow> nat" where
  "value_length [] = 0"
| "value_length (c # s) = (if delimiter_at (c # s) then 0 else Suc (value_length s))"

lemma find_marker_bound:
  assumes "find_sub (field @ ''='') (to_ascii_lowercase (drop cursor result)) = Some offset"
  shows "cursor + offset + length field + 1 \<le> length result"
proof -
  have "offset + length field + 1 \<le> length result - cursor"
    using find_sub_Some[OF assms] by (simp add: to_ascii_lowercase_def)
  then show ?thesis by linarith
qed

lemma value_length_le: "value_length s \<le> length s"
  by (induction s) auto

function redact_from :: "string \<Rightarrow> nat \<Rightarrow> string \<Rightarrow> nat \<Rightarrow> string \<times> nat" where
  "redact_from field cursor result n =
     (case find_sub (field @ ''='') (to_ascii_lowercase (drop cursor result)) of
        None \<Rightarrow> (result, n)
      | Some offset \<Rightarrow>
          (let start = cursor + offset in
           if 0 < start \<and> word_byte (result ! (start - 1)) then redact_from field (start + 1) result n
           else
             let value_start = start + length (field @ ''='');
                 finish = value_start + value_length (drop value_start result);
                 result = take value_start result @ REDACTED @ drop finish result
             in redact_from field (value_start + length REDACTED) result (n + 1)))"
  by pat_completeness auto

termination
proof (relation "measure (\<lambda>(field, cursor, result, n). length result - cursor)")
  fix field cursor result and n :: nat and offset start
  assume a: "find_sub (field @ ''='') (to_ascii_lowercase (drop cursor result)) = Some offset" "start = cursor + offset"
  note b = find_marker_bound[OF a(1)]
  show "((field, start + 1, result, n), field, cursor, result, n) \<in> measure (\<lambda>(field, cursor, result, n). length result - cursor)"
    using b a(2) by simp
  fix value_start finish edited
  assume e: "value_start = start + length (field @ ''='')"
    "finish = value_start + value_length (drop value_start result)"
    "edited = take value_start result @ REDACTED @ drop finish result"
  have "value_start \<le> length result" using b a(2) e(1) by simp
  then have "length edited = value_start + length REDACTED + (length result - finish)" by (simp add: e(3))
  then show "((field, value_start + length REDACTED, edited, n + 1), field, cursor, result, n)
      \<in> measure (\<lambda>(field, cursor, result, n). length result - cursor)"
    using b a(2) e(1,2) by simp
qed simp

declare redact_from.simps [simp del]

definition sanitize_text :: "string \<Rightarrow> string \<times> nat" where
  "sanitize_text s = fold (\<lambda>field (result, n). redact_from field 0 result n) PROTECTED_FIELDS (s, 0)"

section \<open>One scan per field\<close>

definition marker_here :: "string \<Rightarrow> string \<Rightarrow> bool" where
  "marker_here field s \<longleftrightarrow> prefix (field @ ''='') (to_ascii_lowercase s)"

definition word_before :: "char option \<Rightarrow> bool" where
  "word_before p = (case p of None \<Rightarrow> False | Some c \<Rightarrow> word_byte c)"

function scan_field :: "string \<Rightarrow> char option \<Rightarrow> string \<Rightarrow> string" where
  "scan_field field p [] = []"
| "scan_field field p (c # s) =
     (if marker_here field (c # s) \<and> \<not> word_before p
      then take (length field + 1) (c # s) @ REDACTED
        @ scan_field field (Some (CHR ''>'')) (drop (value_length (drop (length field) s)) (drop (length field) s))
      else c # scan_field field (Some c) s)"
  by pat_completeness auto

termination by (relation "measure (length \<circ> snd \<circ> snd)") auto

definition before :: "char option \<Rightarrow> string \<Rightarrow> nat \<Rightarrow> char option" where
  "before p s i = (if i = 0 then p else Some (s ! (i - 1)))"

lemma before_Cons [simp]: "before p (c # s) (Suc i) = before (Some c) s i"
  by (simp add: before_def nth_Cons')

lemma scan_skip:
  assumes "n \<le> length s" "\<forall>i<n. \<not> (marker_here field (drop i s) \<and> \<not> word_before (before p s i))"
  shows "scan_field field p s = take n s @ scan_field field (before p s n) (drop n s)"
  using assms
proof (induction n arbitrary: p s)
  case 0
  then show ?case by (simp add: before_def)
next
  case (Suc n)
  then obtain c t where s: "s = c # t" by (cases s) auto
  have "\<not> (marker_here field s \<and> \<not> word_before p)" using Suc(3) by (auto simp: before_def)
  moreover have "\<forall>i<n. \<not> (marker_here field (drop i t) \<and> \<not> word_before (before (Some c) t i))"
    using Suc(3) by (force simp: s)
  moreover have "n \<le> length t" using Suc(2) by (simp add: s)
  ultimately show ?case using Suc(1)[of t "Some c"] by (simp only: s scan_field.simps if_False take_Suc_Cons drop_Suc_Cons append_Cons before_Cons)
qed

lemma find_sub_first:
  "find_sub p s = Some n \<Longrightarrow> prefix p (drop n s) \<and> (\<forall>i<n. \<not> prefix p (drop i s))"
proof (induction p s arbitrary: n rule: find_sub.induct)
  case (2 p x xs)
  show ?case
  proof (cases "prefix p (x # xs)")
    case False
    with 2 obtain k where n: "n = Suc k" "find_sub p xs = Some k" by auto
    with 2(1)[OF False n(2)] False show ?thesis by (auto simp: less_Suc_eq_0_disj)
  qed (use 2 in simp)
qed (auto split: if_splits)

lemma find_sub_never: "find_sub p s = None \<Longrightarrow> \<not> prefix p (drop i s)"
proof (induction p s arbitrary: i rule: find_sub.induct)
  case (2 p x xs)
  then show ?case by (cases i) (auto split: if_splits)
qed (auto split: if_splits)

lemma lower_drop: "to_ascii_lowercase (drop i s) = drop i (to_ascii_lowercase s)"
  by (simp add: to_ascii_lowercase_def drop_map)

lemma redact_from_scan:
  "cursor \<le> length result \<Longrightarrow>
     fst (redact_from field cursor result n)
       = take cursor result @ scan_field field (before None result cursor) (drop cursor result)"
proof (induction field cursor result n rule: redact_from.induct)
  case (1 field cursor result n)
  let ?rest = "drop cursor result" and ?m = "field @ ''=''"
  show ?case
  proof (cases "find_sub ?m (to_ascii_lowercase ?rest)")
    case None
    then have "\<not> marker_here field (drop i ?rest)" for i
      using find_sub_never[OF None] by (simp add: marker_here_def lower_drop)
    then have "scan_field field (before None result cursor) ?rest = ?rest"
      using scan_skip[of "length ?rest" ?rest field] by simp
    with None show ?thesis by (simp add: redact_from.simps[of field cursor])
  next
    case (Some offset)
    note first = find_sub_first[OF Some]
    have bound: "cursor + offset + length field + 1 \<le> length result" by (rule find_marker_bound[OF Some])
    have free: "\<not> marker_here field (drop i ?rest)" if "i < offset" for i
      using first that by (simp add: marker_here_def lower_drop)
    have here: "marker_here field (drop offset ?rest)" using first by (simp add: marker_here_def lower_drop)
    let ?start = "cursor + offset"
    have prev: "before (before None result cursor) ?rest offset = before None result ?start"
      using bound by (auto simp: before_def)
    have skip: "scan_field field (before None result cursor) ?rest
        = take offset ?rest @ scan_field field (before None result ?start) (drop ?start result)"
      using scan_skip[of offset ?rest field "before None result cursor"] free bound prev
      by (simp add: add.commute)
    have front: "take cursor result @ take offset ?rest = take ?start result" by (simp add: take_add)
    obtain c t where tail: "drop ?start result = c # t" using bound by (cases "drop ?start result") auto
    have inside: "?start < length result" using bound by linarith
    then have "c # t = result ! ?start # drop (Suc ?start) result" by (simp add: tail[symmetric] Cons_nth_drop_Suc)
    then have t: "t = drop (?start + 1) result" "c = result ! ?start" and t1: "drop (Suc ?start) result = t" by simp_all
    show ?thesis
    proof (cases "0 < ?start \<and> word_byte (result ! (?start - 1))")
      case True
      then have word: "word_before (before None result ?start)" by (simp add: word_before_def before_def)
      have "fst (redact_from field (?start + 1) result n)
          = take (?start + 1) result @ scan_field field (before None result (?start + 1)) (drop (?start + 1) result)"
        by (rule 1(1)[OF Some refl True]) (use bound in simp)
      moreover have "take (?start + 1) result = take ?start result @ [c]"
        using bound by (simp add: t(2) take_Suc_conv_app_nth)
      moreover have "before None result (?start + 1) = Some c" by (simp add: before_def t(2))
      moreover have "redact_from field cursor result n = redact_from field (?start + 1) result n"
        using Some True by (simp add: redact_from.simps[of field cursor])
      ultimately show ?thesis using word by (simp add: skip tail t1 front[symmetric])
    next
      case False
      then have word: "\<not> word_before (before None result ?start)" by (auto simp: word_before_def before_def)
      let ?v = "?start + length ?m"
      let ?f = "?v + value_length (drop ?v result)"
      let ?r = "take ?v result @ REDACTED @ drop ?f result"
      have v: "?v \<le> length result" using bound by simp
      have call: "redact_from field cursor result n = redact_from field (?v + length REDACTED) ?r (n + 1)"
        by (subst redact_from.simps) (simp only: Some option.case Let_def False if_False)
      have run: "fst (redact_from field (?v + length REDACTED) ?r (n + 1))
          = take (?v + length REDACTED) ?r @ scan_field field (before None ?r (?v + length REDACTED)) (drop (?v + length REDACTED) ?r)"
        by (rule 1(2)[OF Some refl False refl refl refl]) (use v in simp)
      have parts: "take (?v + length REDACTED) ?r = take ?v result @ REDACTED"
        "drop (?v + length REDACTED) ?r = drop ?f result"
        "before None ?r (?v + length REDACTED) = Some (CHR ''>'')"
        using v by (simp_all add: before_def REDACTED_def nth_append)
      have here': "marker_here field (c # t)" using here tail by (simp add: add.commute)
      have scan: "scan_field field (before None result ?start) (c # t)
          = take (length field + 1) (c # t) @ REDACTED @ scan_field field (Some (CHR ''>'')) (drop ?f result)"
        using here' word by (simp add: t1[symmetric] add.commute add.left_commute)
      have marker: "take ?start result @ take (length field + 1) (c # t) = take ?v result"
        by (simp only: tail[symmetric] take_add[symmetric] length_append list.size add_0 One_nat_def add_0_right add_Suc_right)
      have "take cursor result @ scan_field field (before None result cursor) ?rest
          = (take cursor result @ take offset ?rest) @ take (length field + 1) (c # t) @ REDACTED
            @ scan_field field (Some (CHR ''>'')) (drop ?f result)"
        by (simp only: skip tail scan append_assoc)
      also have "\<dots> = take ?v result @ REDACTED @ scan_field field (Some (CHR ''>'')) (drop ?f result)"
        by (simp only: front append_assoc[symmetric] marker)
      also have "\<dots> = fst (redact_from field cursor result n)"
        by (simp only: call run parts append_assoc)
      finally show ?thesis by (rule sym)
    qed
  qed
qed

section \<open>What a scan leaves\<close>

definition field_name :: "string \<Rightarrow> bool" where
  "field_name f \<longleftrightarrow> f \<noteq> [] \<and> (\<forall>c \<in> set f. word_byte c)"

lemma protected_fields_names: "f \<in> set PROTECTED_FIELDS \<Longrightarrow> field_name f"
proof -
  have "list_all (\<lambda>f. f \<noteq> [] \<and> list_all word_byte f) PROTECTED_FIELDS" by code_simp
  then show "f \<in> set PROTECTED_FIELDS \<Longrightarrow> field_name f" by (auto simp: field_name_def list_all_iff)
qed

lemma word_byte_lower: "word_byte (ascii_lower c) \<longleftrightarrow> word_byte c"
  by (auto simp: word_byte_def ascii_lower_def Let_def)

lemma lower_equals: "ascii_lower c = CHR ''='' \<longleftrightarrow> c = CHR ''=''"
proof
  assume e: "ascii_lower c = CHR ''=''"
  show "c = CHR ''=''"
  proof (cases "65 \<le> (of_char c :: nat) \<and> (of_char c :: nat) \<le> 90")
    case True
    then have "ascii_lower c = char_of ((of_char c :: nat) + 32)" by (simp add: ascii_lower_def Let_def)
    with e have "of_char (char_of ((of_char c :: nat) + 32) :: char) = (61 :: nat)" by simp
    with True show ?thesis by simp
  next
    case False
    then show ?thesis using e by (simp add: ascii_lower_def Let_def split: if_splits)
  qed
qed (simp add: ascii_lower_def)

lemma not_words [simp]: "\<not> word_byte (CHR ''='')" "\<not> word_byte (CHR ''<'')" "\<not> word_byte (CHR ''>'')"
  by (simp_all add: word_byte_def)

text \<open>A marker is a run of word bytes that ends at the first byte that is none.\<close>

lemma marker_nth:
  assumes "marker_here f (drop i s)" "field_name f"
  shows "i + length f < length s" "s ! (i + length f) = CHR ''=''"
    "\<And>j. j < length f \<Longrightarrow> word_byte (s ! (i + j))"
    "map ascii_lower (take (length f) (drop i s)) = f"
proof -
  obtain r where r: "map ascii_lower (drop i s) = (f @ ''='') @ r"
    using assms(1) by (auto simp: marker_here_def prefix_def to_ascii_lowercase_def)
  have "length (map ascii_lower (drop i s)) = length f + 1 + length r" by (simp add: r)
  then show len: "i + length f < length s" by simp
  have at: "ascii_lower (s ! (i + j)) = ((f @ ''='') @ r) ! j" if "j \<le> length f" for j
  proof -
    have "ascii_lower (s ! (i + j)) = map ascii_lower (drop i s) ! j" using that len by simp
    then show ?thesis by (simp only: r)
  qed
  from at[of "length f"] show "s ! (i + length f) = CHR ''=''" by (simp add: lower_equals)
  show "word_byte (s ! (i + j))" if "j < length f" for j
  proof -
    have "ascii_lower (s ! (i + j)) = f ! j" using at[of j] that by (simp add: nth_append)
    then have "word_byte (ascii_lower (s ! (i + j)))" using assms(2) that by (simp add: field_name_def)
    then show ?thesis by (simp only: word_byte_lower)
  qed
  have "map ascii_lower (take (length f) (drop i s)) = take (length f) ((f @ ''='') @ r)"
    by (simp only: r[symmetric] take_map)
  then show "map ascii_lower (take (length f) (drop i s)) = f" by simp
qed

definition redacted :: "string \<Rightarrow> bool" where
  "redacted s \<longleftrightarrow> take (value_length s) s = REDACTED"

text \<open>A value of field \<open>f\<close> that is not redacted.\<close>

definition leaks :: "string \<Rightarrow> char option \<Rightarrow> string \<Rightarrow> bool" where
  "leaks f p s \<longleftrightarrow> (\<exists>i. marker_here f (drop i s) \<and> \<not> word_before (before p s i)
     \<and> \<not> redacted (drop (i + length f + 1) s))"

lemma delimiter_bytes: "delimiter_at (c # s) \<Longrightarrow> \<not> word_byte c \<and> c \<noteq> CHR ''<'' \<and> c \<noteq> CHR ''>''"
proof -
  have "list_all (\<lambda>w. w \<noteq> [] \<and> list_all (\<lambda>c. \<not> word_byte c \<and> c \<noteq> CHR ''<'' \<and> c \<noteq> CHR ''>'') w) delimiters" by code_simp
  moreover assume "delimiter_at (c # s)"
  then obtain w where "w \<in> set delimiters" "prefix w (c # s)" by (auto simp: delimiter_at_def list_ex_iff)
  ultimately show ?thesis by (cases w) (auto simp: list_all_iff)
qed

lemma delimiter_head:
  assumes "delimiter_at s"
  obtains w t where "s = w @ t" "w \<noteq> []" "\<forall>c \<in> set w. \<not> word_byte c" "\<And>u. delimiter_at (w @ u)"
proof -
  have all: "list_all (\<lambda>w. w \<noteq> [] \<and> list_all (\<lambda>c. \<not> word_byte c) w) delimiters" by code_simp
  from assms obtain w where w: "w \<in> set delimiters" "prefix w s" by (auto simp: delimiter_at_def list_ex_iff)
  then have "delimiter_at (w @ u)" for u
    unfolding delimiter_at_def list_ex_iff by (intro bexI[of _ w]) simp_all
  with w all that show thesis by (auto simp: prefix_def list_all_iff)
qed

lemma value_length_REDACTED:
  assumes "t = [] \<or> delimiter_at t"
  shows "value_length (REDACTED @ t) = length REDACTED"
proof -
  have skip: "value_length (x @ t) = length x" if "\<forall>c \<in> set x. word_byte c \<or> c = CHR ''<'' \<or> c = CHR ''>''" for x
    using that
  proof (induction x)
    case Nil
    then show ?case using assms by (cases t) auto
  next
    case (Cons c x)
    then have "\<not> delimiter_at (c # x @ t)" using delimiter_bytes[of c] by auto
    with Cons show ?case by simp
  qed
  have "list_all (\<lambda>c. word_byte c \<or> c = CHR ''<'' \<or> c = CHR ''>'') REDACTED" by code_simp
  then show ?thesis by (intro skip) (simp add: list_all_iff)
qed

lemma redacted_tail: "t = [] \<or> delimiter_at t \<Longrightarrow> redacted (REDACTED @ t)"
  by (simp add: redacted_def value_length_REDACTED)

lemma value_end: "drop (value_length s) s = [] \<or> delimiter_at (drop (value_length s) s)"
  by (induction s) auto

lemma leaks_Nil [simp]: "\<not> leaks f p []"
  by (simp add: leaks_def marker_here_def to_ascii_lowercase_def)

lemma leaks_Cons:
  "leaks f p (c # s) \<longleftrightarrow>
     marker_here f (c # s) \<and> \<not> word_before p \<and> \<not> redacted (drop (length f) s) \<or> leaks f (Some c) s"
  (is "?l \<longleftrightarrow> ?a \<or> ?r")
proof
  assume ?l
  then obtain i where i: "marker_here f (drop i (c # s))" "\<not> word_before (before p (c # s) i)"
    "\<not> redacted (drop (i + length f + 1) (c # s))" by (auto simp: leaks_def)
  then show "?a \<or> ?r" by (cases i) (auto simp: leaks_def before_def[of p _ 0])
next
  assume "?a \<or> ?r"
  then show ?l
  proof
    assume ?a
    then show ?l unfolding leaks_def by (intro exI[of _ 0]) (simp add: before_def)
  next
    assume ?r
    then obtain i where "marker_here f (drop i s)" "\<not> word_before (before (Some c) s i)"
      "\<not> redacted (drop (i + length f + 1) s)" by (auto simp: leaks_def)
    then show ?l unfolding leaks_def by (intro exI[of _ "Suc i"]) simp
  qed
qed

lemma leaks_appendR: "leaks f (Some (last x)) s \<Longrightarrow> x \<noteq> [] \<Longrightarrow> leaks f q (x @ s)"
  by (induction x arbitrary: q) (auto simp: leaks_Cons split: if_splits)

text \<open>A text that begins with a delimiter has no marker at its start, whatever stands before it.\<close>

lemma marker_word: "marker_here f (c # s) \<Longrightarrow> field_name f \<Longrightarrow> word_byte c"
  using marker_nth(3)[of f 0 "c # s" 0] by (simp add: field_name_def)

lemma leaks_after_delimiter:
  "s = [] \<or> delimiter_at s \<Longrightarrow> field_name f \<Longrightarrow> leaks f p s \<longleftrightarrow> leaks f q s"
  by (cases s) (auto simp: leaks_Cons dest: delimiter_bytes marker_word)

text \<open>Bytes at which no marker starts are copied.\<close>

lemma scan_plain:
  assumes "field_name g" "\<forall>c \<in> set x. \<not> word_byte c"
  shows "scan_field g p (x @ s) = x @ scan_field g (if x = [] then p else Some (last x)) s"
  using assms(2)
proof (induction x arbitrary: p)
  case (Cons c x)
  then have "\<not> marker_here g (c # x @ s)" using marker_word[of g c] assms(1) by auto
  with Cons show ?case by simp
qed simp

lemma scan_after_delimiter:
  "delimiter_at s \<Longrightarrow> field_name g \<Longrightarrow> delimiter_at (scan_field g p s)"
  by (erule delimiter_head) (simp add: scan_plain)

text \<open>
  A run of word bytes that is followed by another byte than the equals sign, or whose first byte
  is not the start of a match, is copied.
\<close>

lemma scan_words:
  assumes "field_name g" "\<forall>c \<in> set x. word_byte c" "word_before p"
  shows "scan_field g p (x @ s) = x @ scan_field g (if x = [] then p else Some (last x)) s"
  using assms(2,3)
proof (induction x arbitrary: p)
  case (Cons c x)
  then have "word_before (Some c)" by (simp add: word_before_def)
  with Cons show ?case by (cases x) (simp_all add: Cons(1)[of "Some c"])
qed simp

lemma scan_redacted:
  assumes "field_name g" "\<not> word_byte q"
  shows "scan_field g (Some q) (REDACTED @ s) = REDACTED @ scan_field g (Some (CHR ''>'')) s"
proof -
  have "\<not> marker_here g (drop 1 (REDACTED @ s))"
  proof
    assume m: "marker_here g (drop 1 (REDACTED @ s))"
    have len: "1 + length g < length (REDACTED @ s)" and eq: "(REDACTED @ s) ! (1 + length g) = CHR ''=''"
      and w: "\<And>j. j < length g \<Longrightarrow> word_byte ((REDACTED @ s) ! (1 + j))"
      using marker_nth[OF m assms(1)] by simp_all
    have "length g \<le> 8" using w[of 8] by (cases "8 < length g") (simp_all add: REDACTED_def)
    moreover have "list_all (\<lambda>k. REDACTED ! (1 + k) \<noteq> CHR ''='') [0..<9]" by code_simp
    ultimately have "REDACTED ! (1 + length g) \<noteq> CHR ''=''" "1 + length g < length REDACTED"
      by (simp_all add: list_all_iff REDACTED_def)
    with eq show False by (simp add: nth_append)
  qed
  then have one: "\<not> marker_here g (''redacted>'' @ s)" by (simp add: REDACTED_def)
  have lt: "\<not> marker_here g (CHR ''<'' # t)" and gt: "\<not> marker_here g (CHR ''>'' # t)" for t
    using marker_word[of g] assms(1) by (auto dest: marker_word)
  have "scan_field g (Some (CHR ''<'')) (''redacted>'' @ s) = ''redacted>'' @ scan_field g (Some (CHR ''>'')) s"
    using one gt scan_words[OF assms(1), of "''edacted''" "Some (CHR ''r'')" "CHR ''>'' # s"]
    by (simp add: word_byte_def word_before_def)
  then show ?thesis using lt by (simp add: REDACTED_def)
qed

text \<open>
  A scan for one field leaves none of its values, and uncovers no value of another field.
\<close>

lemma copied_marker:
  assumes "CHR ''<'' \<notin> set (take k (scan_field g p s))"
  shows "take k (scan_field g p s) = take k s"
  using assms
proof (induction g p s arbitrary: k rule: scan_field.induct)
  case (2 g p c s)
  show ?case
  proof (cases "marker_here g (c # s) \<and> \<not> word_before p")
    case True
    let ?m = "take (length g + 1) (c # s)" and ?out = "scan_field g p (c # s)"
    have out: "?out = ?m @ CHR ''<'' # drop 1 REDACTED @ scan_field g (Some (CHR ''>''))
        (drop (value_length (drop (length g) s)) (drop (length g) s))"
      using True by (simp add: REDACTED_def)
    have "k \<le> length ?m"
    proof (rule ccontr)
      assume k: "\<not> ?thesis"
      then have "take k ?out ! length ?m = CHR ''<''" "length ?m < length (take k ?out)"
        unfolding out by (simp_all add: nth_append)
      then have "CHR ''<'' \<in> set (take k ?out)" by (metis nth_mem)
      with 2(3) show False by simp
    qed
    then have "take k (?m @ z) = take k ?m" for z by (simp only: take_append diff_is_0_eq[THEN iffD2] take_0 append_Nil2)
    then have "take k ?out = take k ?m" unfolding out .
    moreover have "k \<le> length g + 1" using \<open>k \<le> length ?m\<close> by simp
    ultimately show ?thesis by (simp only: take_take min_absorb1)
  next
    case False
    with 2 show ?thesis by (cases k) auto
  qed
qed simp

lemma prefix_take: "prefix p s \<longleftrightarrow> take (length p) s = p"
  by (metis append_eq_conv_conj prefix_def take_is_prefix)

lemma marker_take:
  assumes "marker_here f s" "take (length f + 1) t = take (length f + 1) s"
  shows "marker_here f t"
proof -
  have m: "marker_here f u \<longleftrightarrow> map ascii_lower (take (length f + 1) u) = f @ ''=''" for u
    by (simp add: marker_here_def to_ascii_lowercase_def prefix_take take_map)
  show ?thesis using assms(1) unfolding m assms(2) .
qed

lemma marker_bytes:
  assumes "marker_here f s" "field_name f"
  shows "\<forall>c \<in> set (take (length f + 1) s). word_byte c \<or> c = CHR ''=''"
proof -
  note nth = marker_nth[of f 0 s, simplified, OF assms]
  have "take (length f + 1) s = take (length f) s @ [CHR ''='']"
    using nth(1,2) by (simp add: take_Suc_conv_app_nth)
  moreover have "\<forall>c \<in> set (take (length f) s). word_byte c"
    using nth(1,3) by (auto simp: in_set_conv_nth)
  ultimately show ?thesis by auto
qed

lemma marker_free: "marker_here f s \<Longrightarrow> field_name f \<Longrightarrow> CHR ''<'' \<notin> set (take (length f + 1) s)"
  using marker_bytes[of f s] by (auto simp del: take_Suc)

text \<open>A redacted value stays where it is when the scan copies its marker.\<close>

lemma redacted_copied:
  assumes "field_name f" "field_name g" "marker_here f (c # s)" "redacted (drop (length f) s)"
  shows "redacted (drop (length f) (scan_field g (Some c) s))"
proof -
  note nth = marker_nth[of f 0 "c # s", simplified, OF assms(3,1)]
  let ?v = "drop (length f) s"
  define t where "t = drop (value_length ?v) ?v"
  have t: "t = [] \<or> delimiter_at t" unfolding t_def by (rule value_end)
  have v: "?v = REDACTED @ t"
    using assms(4) append_take_drop_id[of "value_length ?v" ?v] by (simp add: redacted_def t_def)
  obtain k where k: "length f = Suc k" using assms(1) by (cases f) (auto simp: field_name_def)
  define x where "x = take k s"
  have lx: "length x = k" using nth(1) k by (simp add: x_def)
  have "s = x @ s ! k # drop (Suc k) s" using nth(1) k by (simp add: x_def id_take_nth_drop)
  moreover have "s ! k = CHR ''=''" using nth(2) k by simp
  ultimately have s: "s = x @ CHR ''='' # REDACTED @ t" using v k by simp
  have words: "\<forall>c \<in> set x. word_byte c"
  proof
    fix a assume "a \<in> set x"
    then obtain j where "j < k" "a = s ! j" using nth(1) k by (auto simp: x_def in_set_conv_nth)
    then show "word_byte a" using nth(3)[of "Suc j"] k by simp
  qed
  have equals: "scan_field g q (CHR ''='' # u) = CHR ''='' # scan_field g (Some (CHR ''='')) u" for q u
    using scan_plain[OF assms(2), of "[CHR ''='']" q u] by (simp del: scan_field.simps)
  have "word_before (Some c)" using nth(3)[of 0] k by (simp add: word_before_def)
  from scan_words[OF assms(2) words this] have "scan_field g (Some c) s
      = x @ scan_field g (if x = [] then Some c else Some (last x)) ([CHR ''=''] @ REDACTED @ t)" by (simp add: s)
  also have "\<dots> = x @ CHR ''='' # REDACTED @ scan_field g (Some (CHR ''>'')) t"
    by (simp only: append_Cons append_Nil equals scan_redacted[OF assms(2) not_words(1)])
  finally have "drop (length f) (scan_field g (Some c) s) = REDACTED @ scan_field g (Some (CHR ''>'')) t"
    by (simp add: k lx)
  moreover have "scan_field g (Some (CHR ''>'')) t = [] \<or> delimiter_at (scan_field g (Some (CHR ''>'')) t)"
    using t scan_after_delimiter[OF _ assms(2)] by auto
  ultimately show ?thesis by (simp add: redacted_tail)
qed

text \<open>Behind a marker whose value is redacted nothing leaks before the rest of the text does.\<close>

lemma no_leak_behind:
  assumes "field_name f" "m ! n = CHR ''=''" "\<And>j. j < n \<Longrightarrow> word_byte (m ! j)" "length m = n + 1"
    and "r = [] \<or> delimiter_at r" "\<not> leaks f (Some (CHR ''>'')) r"
  shows "\<not> leaks f p (m @ REDACTED @ r)"
proof
  let ?out = "m @ REDACTED @ r"
  have LR: "length REDACTED = 10" by (simp add: REDACTED_def)
  assume "leaks f p ?out"
  then obtain i where i: "marker_here f (drop i ?out)" "\<not> word_before (before p ?out i)"
    "\<not> redacted (drop (i + length f + 1) ?out)" by (auto simp: leaks_def)
  note nth = marker_nth[OF i(1) assms(1)]
  have eq: "?out ! n = CHR ''=''" and words: "\<And>j. j < n \<Longrightarrow> word_byte (?out ! j)"
    using assms(2,3,4) by (simp_all add: nth_append)
  have mid: "?out ! (n + 1 + j) = REDACTED ! j" if "j < 10" for j
    using that assms(4) LR by (simp add: nth_append)
  have noeq: "REDACTED ! j \<noteq> CHR ''=''" if "j < 10" for j
  proof -
    have "list_all (\<lambda>j. REDACTED ! j \<noteq> CHR ''='') [0..<10]" by code_simp
    then show ?thesis using that by (simp add: list_all_iff)
  qed
  have "REDACTED ! 9 = CHR ''>''" by code_simp
  then have last: "?out ! (n + 10) = CHR ''>''" using mid[of 9] by (simp add: add.commute)
  consider "i \<le> n" | "n < i" "i \<le> n + 10" | "n + 10 < i" by linarith
  then show False
  proof cases
    case 1
    have "i + length f \<le> n" using nth(3)[of "n - i"] eq 1 by (cases "n - i < length f") auto
    moreover have "\<not> i + length f < n" using words[of "i + length f"] nth(2) by auto
    ultimately have "drop (i + length f + 1) ?out = REDACTED @ r" using assms(4) by simp
    with i(3) redacted_tail[OF assms(5)] show False by simp
  next
    case 2
    have "i + length f \<le> n + 10" using nth(3)[of "n + 10 - i"] last 2 by (cases "n + 10 - i < length f") auto
    moreover obtain k where k: "i = n + 1 + k" using 2(1) by (metis Suc_eq_plus1 add.commute add_Suc less_iff_Suc_add)
    ultimately have "k + length f < 10" by simp
    with mid[of "k + length f"] noeq[of "k + length f"] nth(2) k show False by (simp add: add.assoc)
  next
    case 3
    then obtain k where "i = Suc (n + 10 + k)" unfolding less_iff_Suc_add by blast
    then have k: "i = n + 11 + k" by simp
    have "drop i ?out = drop k r" "drop (i + length f + 1) ?out = drop (k + length f + 1) r"
      using assms(4) LR by (simp_all add: k)
    moreover have "before p ?out i = before (Some (CHR ''>'')) r k"
    proof (cases k)
      case 0
      then show ?thesis using last k by (simp add: before_def add.commute)
    next
      case (Suc j)
      then show ?thesis using assms(4) LR k by (simp add: before_def nth_append)
    qed
    ultimately show False using i assms(6) by (auto simp: leaks_def)
  qed
qed

lemma leaks_scan:
  assumes "field_name f" "field_name g" "f = g \<or> \<not> leaks f p s"
  shows "\<not> leaks f p (scan_field g p s)"
  using assms(2,3)
proof (induction g p s rule: scan_field.induct)
  case (2 g p c s)
  show ?case
  proof (cases "marker_here g (c # s) \<and> \<not> word_before p")
    case True
    define m where "m = take (length g + 1) (c # s)"
    define t where "t = drop (value_length (drop (length g) s)) (drop (length g) s)"
    note nth = marker_nth[of g 0 "c # s", simplified, OF conjunct1[OF True] 2(3)]
    have lm: "length m = length g + 1" using nth(1) by (simp add: m_def)
    have t: "t = [] \<or> delimiter_at t" unfolding t_def by (rule value_end)
    have rest: "scan_field g (Some (CHR ''>'')) t = [] \<or> delimiter_at (scan_field g (Some (CHR ''>'')) t)"
      using t scan_after_delimiter[OF _ 2(3)] by auto
    have out: "scan_field g p (c # s) = m @ REDACTED @ scan_field g (Some (CHR ''>'')) t"
      using True by (simp add: m_def t_def)
    define x where "x = take (length g + 1 + value_length (drop (length g) s)) (c # s)"
    have split: "c # s = x @ t" "x \<noteq> []" by (simp_all add: x_def t_def add.commute)
    have "f = g \<or> \<not> leaks f (Some (CHR ''>'')) t"
      using 2(4) leaks_appendR[of f x t p] leaks_after_delimiter[OF t assms(1), of "Some (last x)" "Some (CHR ''>'')"]
      by (auto simp: split)
    with 2(1)[OF True 2(3)] have inner: "\<not> leaks f (Some (CHR ''>'')) (scan_field g (Some (CHR ''>'')) t)"
      by (simp add: t_def)
    have mine: "m ! j = (c # s) ! j" if "j < length g + 1" for j using that unfolding m_def by (rule nth_take)
    show ?thesis unfolding out
      by (rule no_leak_behind[OF assms(1) _ _ lm rest inner]) (use nth(2,3) mine in simp_all)
  next
    case False
    show ?thesis
    proof
      assume leak: "leaks f p (scan_field g p (c # s))"
      have IH: "\<not> leaks f (Some c) (scan_field g (Some c) s)"
        by (rule 2(2)[OF False 2(3)]) (use 2(4) in \<open>auto simp: leaks_Cons\<close>)
      have out: "scan_field g p (c # s) = c # scan_field g (Some c) s" by (simp only: scan_field.simps False if_False)
      from leak IH have here: "marker_here f (scan_field g p (c # s))" "\<not> word_before p"
        and bad: "\<not> redacted (drop (length f) (scan_field g (Some c) s))" unfolding out leaks_Cons by blast+
      have same: "take (length f + 1) (scan_field g p (c # s)) = take (length f + 1) (c # s)"
        by (rule copied_marker) (rule marker_free[OF here(1) assms(1)])
      have mine: "marker_here f (c # s)" by (rule marker_take[OF here(1) same[symmetric]])
      with False here(2) have "f \<noteq> g" by auto
      with 2(4) mine here(2) have "redacted (drop (length f) s)" by (auto simp: leaks_Cons)
      with bad redacted_copied[OF assms(1) 2(3) mine] show False by blast
    qed
  qed
qed simp

section \<open>The sanitized text\<close>

lemma redact_from_start: "fst (redact_from field 0 s n) = scan_field field None s"
  by (simp add: redact_from_scan before_def)

lemma redact_all:
  assumes "\<forall>f \<in> set fields. field_name f" "\<forall>f \<in> clean. field_name f \<and> \<not> leaks f None s"
  shows "\<forall>f \<in> clean \<union> set fields. \<not> leaks f None (fst (fold (\<lambda>field (result, n). redact_from field 0 result n) fields (s, n)))"
  using assms
proof (induction fields arbitrary: clean s n)
  case (Cons g fields)
  obtain s' n' where one: "redact_from g 0 s n = (s', n')" by fastforce
  then have s': "s' = scan_field g None s" using redact_from_start[of g s n] by simp
  have "field_name f \<and> \<not> leaks f None s'" if "f \<in> insert g clean" for f
    using that Cons(2,3) leaks_scan[of f g None s] by (auto simp: s')
  then have "\<forall>f \<in> insert g clean. field_name f \<and> \<not> leaks f None s'" by blast
  from Cons(1)[OF _ this, of n'] Cons(2) one show ?case by simp
qed auto

text \<open>
  C35. A sanitized text holds no value of a protected field: wherever the name of one of the twelve
  fields stands in the result, in any case, as a word of its own and followed by an equals sign,
  the value up to the next white space, comma or semicolon is \<open><redacted>\<close>.  Redacting one field
  after the other uncovers none that an earlier turn has covered.
\<close>

theorem sanitized_text_has_no_protected_value:
  assumes "field \<in> set PROTECTED_FIELDS"
    and "map ascii_lower (take (length field + 1) (drop i (fst (sanitize_text s)))) = field @ ''=''"
    and "i = 0 \<or> \<not> word_byte (fst (sanitize_text s) ! (i - 1))"
  shows "take (value_length (drop (i + length field + 1) (fst (sanitize_text s))))
     (drop (i + length field + 1) (fst (sanitize_text s))) = ''<redacted>''"
proof -
  let ?s = "fst (sanitize_text s)"
  have "\<forall>f \<in> {} \<union> set PROTECTED_FIELDS. \<not> leaks f None ?s"
    unfolding sanitize_text_def by (rule redact_all) (auto dest: protected_fields_names)
  then have "\<not> leaks field None ?s" using assms(1) by blast
  moreover have "marker_here field (drop i ?s)"
    using assms(2) unfolding marker_here_def to_ascii_lowercase_def take_map[symmetric] by (metis take_is_prefix)
  moreover have "\<not> word_before (before None ?s i)" using assms(3) by (auto simp: word_before_def before_def)
  ultimately show ?thesis by (auto simp: leaks_def redacted_def REDACTED_def)
qed

theorem sanitized_text_has_no_protected_value_witness:
  "fst (sanitize_text ''CKEY=b;x'') = ''CKEY=<redacted>;x''
   \<and> take (value_length ''<redacted>;x'') ''<redacted>;x'' = ''<redacted>''"
proof -
  have s: "fst (sanitize_text ''CKEY=b;x'') = ''CKEY=<redacted>;x''" by code_simp
  have "''ckey'' \<in> set PROTECTED_FIELDS" by (simp add: PROTECTED_FIELDS_def)
  moreover have "map ascii_lower (take (length ''ckey'' + 1) (drop 0 ''CKEY=<redacted>;x'')) = ''ckey'' @ ''=''" by code_simp
  ultimately have "take (value_length (drop (0 + length ''ckey'' + 1) ''CKEY=<redacted>;x''))
     (drop (0 + length ''ckey'' + 1) ''CKEY=<redacted>;x'') = ''<redacted>''"
    using sanitized_text_has_no_protected_value[of "''ckey''" 0 "''CKEY=b;x''"] by (simp add: s)
  then show ?thesis by (simp add: s)
qed

end
