(* ===== verification/Evidence_Reader.thy ===== *)
theory Evidence_Reader
  imports Evidence_Timeline Evidence_Redaction File_Identity Json Limits
begin

text \<open>
  Reading evidence artifacts, from \<open>src/native_evidence/reader.rs\<close>, \<open>csv.rs\<close>, \<open>jsonl.rs\<close> and
  \<open>byond.rs\<close>.  The parsers of the crates are parameters: \<open>eh_json\<close> is \<open>serde_json\<close>, \<open>eh_csv\<close> the
  reader of the \<open>csv\<close> crate (its headers and its rows, \<open>None\<close> where a row is an error); so are
  \<open>str::parse::<f64>\<close> and the conversion of integers to \<open>f64\<close>.  Floats are their bits.
\<close>

unbundle bit_operations_syntax

section \<open>Descriptors\<close>

datatype artifact_kind =
    ByondProcProfileJson
  | ByondSendmapsJson
  | PerformanceCsv
  | RuntimeJsonl
  | EventJsonl

datatype evidence_semantics = CumulativeSnapshot | IntervalSeries | EventStream

record artifact_options =
  ao_selected_metrics :: "string list"
  ao_wall_time_field :: "string option"
  ao_world_time_field :: "string option"
  ao_group_fields :: "string list"

record artifact_descriptor =
  ad_kind :: artifact_kind
  ad_path :: path
  ad_options :: "artifact_options option"

record artifact_identity =
  ai_relative_path :: string
  ai_kind :: artifact_kind
  ai_bytes :: nat
  ai_sha256 :: string

record parsed_artifact =
  pa_identity :: artifact_identity
  pa_semantics :: evidence_semantics
  pa_records :: "evidence_record list"
  pa_accepted_records :: nat
  pa_rejected_records :: nat
  pa_unavailable_metrics :: "string list"

record evidence_host =
  eh_files :: file_host
  eh_rfc3339 :: instant_parser
  eh_json :: "string \<Rightarrow> string + json"
  eh_csv :: "string \<Rightarrow> string + string list \<times> string list option list"
  eh_parse_f64 :: "string \<Rightarrow> u64 option"
  eh_f64_of_int :: "int \<Rightarrow> u64"

section \<open>Reading a file\<close>

record read_artifact =
  ra_identity :: artifact_identity
  ra_bytes :: string

text \<open>The last of the roots with the most components.\<close>

definition deepest_root :: "EffectiveRoot list \<Rightarrow> EffectiveRoot option" where
  "deepest_root roots = fold (\<lambda>root best. case best of None \<Rightarrow> Some root
     | Some b \<Rightarrow> if length (er_path b) \<le> length (er_path root) then Some root else Some b) roots None"

definition read_artifact ::
  "evidence_host \<Rightarrow> path_policy \<Rightarrow> artifact_descriptor \<Rightarrow> u64 \<Rightarrow> (evidence_error + read_artifact) \<times> u64" where
  "read_artifact eh pol d so_far =
     (let h = eh_files eh in
      case rbind (map_err EvidencePolicy (read_path (fh_fs h) pol (ad_path d))) (\<lambda>p.
           rbind (map_err EvidenceIo (fh_metadata h p)) (\<lambda>(_, len, _).
             if MAX_EVIDENCE_FILE_BYTES < unat len then Inl EvidenceFileTooLarge
             else rbind (or_err EvidenceTotalOverflow (checked_add64 so_far len)) (\<lambda>all. Inr (p, all))))
      of Inl e \<Rightarrow> (Inl e, so_far)
       | Inr (p, all) \<Rightarrow>
           (if MAX_EVIDENCE_TOTAL_BYTES < unat all then Inl EvidenceTotalTooLarge
            else rbind (map_err EvidenceIo (fh_read h p)) (\<lambda>bytes.
              if MAX_EVIDENCE_FILE_BYTES < length bytes then Inl EvidenceFileGrew
              else rbind (or_err NoEffectiveRootForEvidence (deepest_root
                       (filter (\<lambda>root. path_starts_with p (er_path root)) (pp_effective_roots pol)))) (\<lambda>root.
                Inr \<lparr>ra_identity = \<lparr>ai_relative_path = replace_char (CHR 0x5C) (CHR ''/'')
                         (fs_display (fh_fs h) (drop (length (er_path root)) p)),
                       ai_kind = ad_kind d, ai_bytes = length bytes, ai_sha256 = fh_sha256 h bytes\<rparr>,
                     ra_bytes = bytes\<rparr>)), all))"

section \<open>Values\<close>

text \<open>The recursion ends below the depth limit, whatever the value.\<close>

fun validate_json_depth :: "json \<Rightarrow> nat \<Rightarrow> evidence_error + unit"
  and validate_all :: "json list \<Rightarrow> nat \<Rightarrow> evidence_error + unit"
  and validate_members :: "(string \<times> json) list \<Rightarrow> nat \<Rightarrow> evidence_error + unit" where
  "validate_json_depth v depth =
     (if 64 < depth then Inl JsonTooDeep
      else case v of JArr vs \<Rightarrow> validate_all vs (depth + 1)
        | JObj m \<Rightarrow> validate_members m (depth + 1)
        | JStr s \<Rightarrow> if MAX_EVIDENCE_STRING_BYTES < length s then Inl JsonStringTooLong else Inr ()
        | _ \<Rightarrow> Inr ())"
| "validate_all [] depth = Inr ()"
| "validate_all (v # vs) depth = rbind (validate_json_depth v depth) (\<lambda>_. validate_all vs depth)"
| "validate_members [] depth = Inr ()"
| "validate_members (m # ms) depth = rbind (validate_json_depth (snd m) depth) (\<lambda>_. validate_members ms depth)"

declare validate_json_depth.simps [simp del]

fun as_f64 :: "evidence_host \<Rightarrow> json \<Rightarrow> u64 option" where
  "as_f64 eh (JNum (PosInt n)) = Some (eh_f64_of_int eh (uint n))"
| "as_f64 eh (JNum (NegInt n)) = Some (eh_f64_of_int eh n)"
| "as_f64 eh (JNum (Float bits)) = Some bits"
| "as_f64 eh _ = None"

definition f64_is_finite :: "u64 \<Rightarrow> bool" where
  "f64_is_finite bits \<longleftrightarrow> drop_bit 52 bits AND 0x7FF \<noteq> 0x7FF"

text \<open>\<open>json!\<close> of a float: \<open>Null\<close> when it is not finite.\<close>

definition json_f64 :: "u64 \<Rightarrow> json" where
  "json_f64 bits = (if f64_is_finite bits then JNum (Float bits) else JNull)"

definition parse_wall :: "evidence_host \<Rightarrow> json \<Rightarrow> int option" where
  "parse_wall eh v =
     (case as_i64 v of Some n \<Rightarrow> Some n
      | None \<Rightarrow> Option.bind (as_str v) (\<lambda>s. ok (eh_rfc3339 eh s)))"

section \<open>Records\<close>

definition is_wall_field :: "artifact_options option \<Rightarrow> string \<Rightarrow> bool" where
  "is_wall_field options name \<longleftrightarrow> Option.bind options ao_wall_time_field = Some name"

definition is_world_field :: "artifact_options option \<Rightarrow> string \<Rightarrow> bool" where
  "is_world_field options name \<longleftrightarrow> Option.bind options ao_world_time_field = Some name"

definition metric_selected :: "artifact_options option \<Rightarrow> string \<Rightarrow> bool" where
  "metric_selected options name \<longleftrightarrow>
     (case options of None \<Rightarrow> True
      | Some opt \<Rightarrow> ao_selected_metrics opt = [] \<or> name \<in> set (ao_selected_metrics opt))"

definition is_group_field :: "artifact_options option \<Rightarrow> string \<Rightarrow> bool" where
  "is_group_field options name \<longleftrightarrow>
     (case options of None \<Rightarrow> False | Some opt \<Rightarrow> name \<in> set (ao_group_fields opt))"

text \<open>One member of the object: the record so far, and the number of redacted values.\<close>

definition scalar_member ::
  "evidence_host \<Rightarrow> artifact_options option \<Rightarrow> string \<times> json \<Rightarrow> evidence_record \<times> nat \<Rightarrow> evidence_record \<times> nat" where
  "scalar_member eh options member acc =
     (case (member, acc) of ((name, v), (r, redacted_count)) \<Rightarrow>
        if is_wall_field options name then (r\<lparr>ev_wall_unix_ms := parse_wall eh v\<rparr>, redacted_count)
        else if is_world_field options name then (r\<lparr>ev_world_deciseconds := as_i64 v\<rparr>, redacted_count)
        else case as_f64 eh v of
          Some number \<Rightarrow>
            (if metric_selected options name \<and> f64_is_finite number
             then r\<lparr>ev_metrics := btree_insert name number (ev_metrics r)\<rparr> else r, redacted_count)
        | None \<Rightarrow>
            (case as_str v of None \<Rightarrow> (r, redacted_count)
             | Some s \<Rightarrow>
                 if protected_name name then (r, redacted_count + 1)
                 else if \<not> is_group_field options name then (r, redacted_count)
                 else (case sanitize_text s of (s, n) \<Rightarrow>
                   (if length s \<le> MAX_EVIDENCE_STRING_BYTES then r\<lparr>ev_groups := btree_insert name s (ev_groups r)\<rparr> else r,
                    redacted_count + n))))"

definition empty_record :: "nat \<Rightarrow> evidence_record" where
  "empty_record index = \<lparr>ev_wall_unix_ms = None, ev_world_deciseconds = None, ev_sample_index = index,
     ev_metrics = [], ev_groups = []\<rparr>"

definition scalar_record ::
  "evidence_host \<Rightarrow> json \<Rightarrow> nat \<Rightarrow> artifact_options option \<Rightarrow> nat \<Rightarrow> evidence_record \<times> nat" where
  "scalar_record eh v index options redacted_count =
     (case as_object v of None \<Rightarrow> (empty_record index, redacted_count)
      | Some members \<Rightarrow> fold (scalar_member eh options) members (empty_record index, redacted_count))"

section \<open>The formats\<close>

text \<open>The row as an object; protected columns are counted and left out.\<close>

definition row_cell ::
  "evidence_host \<Rightarrow> string \<times> string \<Rightarrow> (string, json) btree_map \<times> nat \<Rightarrow> (string, json) btree_map \<times> nat" where
  "row_cell eh cell acc =
     (case (cell, acc) of ((header, s), (members, redacted_count)) \<Rightarrow>
        if protected_name header then (members, redacted_count + 1)
        else (btree_insert header (case eh_parse_f64 eh s of Some number \<Rightarrow> json_f64 number | None \<Rightarrow> JStr s) members,
              redacted_count))"

definition csv_row ::
  "evidence_host \<Rightarrow> artifact_options option \<Rightarrow> string list \<Rightarrow> nat \<Rightarrow> string list \<Rightarrow> nat \<Rightarrow> evidence_record \<times> nat" where
  "csv_row eh options headers index row redacted_count =
     (case fold (row_cell eh) (zip headers row) ([], redacted_count) of (members, redacted_count) \<Rightarrow>
        scalar_record eh (JObj members) index options redacted_count)"

fun csv_rows ::
  "evidence_host \<Rightarrow> artifact_options option \<Rightarrow> string list \<Rightarrow> nat \<Rightarrow> string list option list
   \<Rightarrow> evidence_record list \<times> nat \<times> nat \<Rightarrow> evidence_error + evidence_record list \<times> nat \<times> nat" where
  "csv_rows eh options headers index [] acc = Inr acc"
| "csv_rows eh options headers index (row # rows) (records, rejected, redacted_count) =
     (if MAX_EVIDENCE_ROWS \<le> index then Inl EvidenceRowLimit
      else case row of
        None \<Rightarrow> csv_rows eh options headers (index + 1) rows (records, rejected + 1, redacted_count)
      | Some cells \<Rightarrow>
          (case csv_row eh options headers index cells redacted_count of (r, redacted_count) \<Rightarrow>
             csv_rows eh options headers (index + 1) rows (records @ [r], rejected, redacted_count)))"

definition parse_csv ::
  "evidence_host \<Rightarrow> read_artifact \<Rightarrow> artifact_descriptor \<Rightarrow> nat \<Rightarrow> evidence_error + parsed_artifact \<times> nat" where
  "parse_csv eh ra d redacted_count =
     rbind (map_err EvidenceSyntax (eh_csv eh (ra_bytes ra))) (\<lambda>(headers, rows).
       if MAX_EVIDENCE_COLUMNS < length headers then Inl EvidenceColumnLimit
       else if \<not> distinct headers then Inl HeadersNotUnique
       else rbind (csv_rows eh (ad_options d) headers 0 rows ([], 0, redacted_count)) (\<lambda>(records, rejected, redacted_count).
         Inr (\<lparr>pa_identity = ra_identity ra, pa_semantics = IntervalSeries, pa_records = records,
               pa_accepted_records = length records, pa_rejected_records = rejected, pa_unavailable_metrics = []\<rparr>,
              redacted_count)))"

fun jsonl_lines ::
  "evidence_host \<Rightarrow> artifact_options option \<Rightarrow> nat \<Rightarrow> string list \<Rightarrow> evidence_record list \<times> nat
   \<Rightarrow> evidence_error + evidence_record list \<times> nat" where
  "jsonl_lines eh options index [] acc = Inr acc"
| "jsonl_lines eh options index (line # lines) (records, redacted_count) =
     (if MAX_EVIDENCE_LINE_BYTES < length line then Inl EvidenceLineLimit
      else if trim line = [] then jsonl_lines eh options (index + 1) lines (records, redacted_count)
      else if MAX_EVIDENCE_ROWS \<le> length records then Inl EvidenceRowLimit
      else rbind (map_err EvidenceSyntax (eh_json eh line)) (\<lambda>v.
           rbind (validate_json_depth v 0) (\<lambda>_.
             case scalar_record eh v index options redacted_count of (r, redacted_count) \<Rightarrow>
               jsonl_lines eh options (index + 1) lines (records @ [r], redacted_count))))"

definition parse_jsonl ::
  "evidence_host \<Rightarrow> read_artifact \<Rightarrow> artifact_descriptor \<Rightarrow> nat \<Rightarrow> evidence_error + parsed_artifact \<times> nat" where
  "parse_jsonl eh ra d redacted_count =
     (if \<not> utf8_valid (ra_bytes ra) then Inl (EvidenceSyntax ''invalid utf-8'')
      else rbind (jsonl_lines eh (ad_options d) 0 (str_lines (ra_bytes ra)) ([], redacted_count)) (\<lambda>(records, redacted_count).
        Inr (\<lparr>pa_identity = ra_identity ra, pa_semantics = EventStream, pa_records = records,
              pa_accepted_records = length records, pa_rejected_records = 0, pa_unavailable_metrics = []\<rparr>,
             redacted_count)))"

fun byond_records ::
  "evidence_host \<Rightarrow> artifact_options option \<Rightarrow> nat \<Rightarrow> json list \<Rightarrow> nat \<Rightarrow> evidence_record list \<times> nat" where
  "byond_records eh options index [] redacted_count = ([], redacted_count)"
| "byond_records eh options index (v # vs) redacted_count =
     (case scalar_record eh v index options redacted_count of (r, redacted_count) \<Rightarrow>
        case byond_records eh options (index + 1) vs redacted_count of (rs, redacted_count) \<Rightarrow> (r # rs, redacted_count))"

definition byond_values :: "json \<Rightarrow> evidence_error + json list" where
  "byond_values v =
     (case as_array v of Some vs \<Rightarrow> Inr vs
      | None \<Rightarrow>
          (case Option.bind (json_get v ''records'') as_array of Some vs \<Rightarrow> Inr vs
           | None \<Rightarrow> if as_object v \<noteq> None then Inr [v] else Inl NotObjectOrArray))"

definition parse_byond ::
  "evidence_host \<Rightarrow> read_artifact \<Rightarrow> artifact_descriptor \<Rightarrow> nat \<Rightarrow> evidence_error + parsed_artifact \<times> nat" where
  "parse_byond eh ra d redacted_count =
     rbind (map_err EvidenceSyntax (eh_json eh (ra_bytes ra))) (\<lambda>v.
     rbind (validate_json_depth v 0) (\<lambda>_.
     rbind (byond_values v) (\<lambda>vs.
       if MAX_EVIDENCE_ROWS < length vs then Inl EvidenceRowLimit
       else case byond_records eh (ad_options d) 0 vs redacted_count of (records, redacted_count) \<Rightarrow>
         Inr (\<lparr>pa_identity = ra_identity ra, pa_semantics = CumulativeSnapshot, pa_records = records,
               pa_accepted_records = length records, pa_rejected_records = 0, pa_unavailable_metrics = []\<rparr>,
              redacted_count))))"

definition parse_artifact ::
  "evidence_host \<Rightarrow> path_policy \<Rightarrow> artifact_descriptor \<Rightarrow> u64 \<Rightarrow> nat
   \<Rightarrow> evidence_error + parsed_artifact \<times> u64 \<times> nat" where
  "parse_artifact eh pol d so_far redacted_count =
     (case read_artifact eh pol d so_far of (r, so_far) \<Rightarrow>
        rbind r (\<lambda>ra.
        rbind (case ad_kind d of ByondProcProfileJson \<Rightarrow> parse_byond eh ra d redacted_count
               | ByondSendmapsJson \<Rightarrow> parse_byond eh ra d redacted_count
               | PerformanceCsv \<Rightarrow> parse_csv eh ra d redacted_count
               | RuntimeJsonl \<Rightarrow> parse_jsonl eh ra d redacted_count
               | EventJsonl \<Rightarrow> parse_jsonl eh ra d redacted_count) (\<lambda>(artifact, redacted_count).
          Inr (artifact, so_far, redacted_count))))"

section \<open>What a record can hold\<close>

lemma btree_insert_set: "set (btree_insert k v m) \<subseteq> insert (k, v) (set m)"
  by (induction k v m rule: btree_insert.induct) (auto split: if_splits)

definition clean_groups :: "evidence_record \<Rightarrow> bool" where
  "clean_groups r \<longleftrightarrow> (\<forall>(name, s) \<in> set (ev_groups r). \<not> protected_name name
     \<and> length s \<le> MAX_EVIDENCE_STRING_BYTES \<and> (\<forall>field \<in> set PROTECTED_FIELDS. \<not> leaks field None s))"

definition metric_names :: "evidence_record \<Rightarrow> string set" where
  "metric_names r = fst ` set (ev_metrics r)"

lemma sanitize_text_clean: "field \<in> set PROTECTED_FIELDS \<Longrightarrow> \<not> leaks field None (fst (sanitize_text s))"
proof -
  have "\<forall>f \<in> {} \<union> set PROTECTED_FIELDS. \<not> leaks f None (fst (sanitize_text s))"
    unfolding sanitize_text_def by (rule redact_all) (auto dest: protected_fields_names)
  then show "field \<in> set PROTECTED_FIELDS \<Longrightarrow> \<not> leaks field None (fst (sanitize_text s))" by blast
qed

lemma clean_groups_insert:
  assumes "clean_groups r" "\<not> protected_name name" "length (fst (sanitize_text s)) \<le> MAX_EVIDENCE_STRING_BYTES"
  shows "clean_groups (r\<lparr>ev_groups := btree_insert name (fst (sanitize_text s)) (ev_groups r)\<rparr>)"
  using assms btree_insert_set[of name "fst (sanitize_text s)" "ev_groups r"] sanitize_text_clean
  by (fastforce simp: clean_groups_def)

lemma scalar_member_cases:
  assumes "scalar_member eh options (name, v) (r, n) = (r', n')"
  obtains "r' = r" | ms where "r' = r\<lparr>ev_wall_unix_ms := ms\<rparr>"
  | "is_world_field options name" "r' = r\<lparr>ev_world_deciseconds := as_i64 v\<rparr>"
  | x where "r' = r\<lparr>ev_metrics := btree_insert name x (ev_metrics r)\<rparr>"
  | s where "\<not> protected_name name" "length (fst (sanitize_text s)) \<le> MAX_EVIDENCE_STRING_BYTES"
      "r' = r\<lparr>ev_groups := btree_insert name (fst (sanitize_text s)) (ev_groups r)\<rparr>"
  using assms that
  by (auto simp: scalar_member_def split: if_splits option.splits prod.splits)
    (metis fst_conv)+

lemma scalar_member_keeps:
  assumes "scalar_member eh options (name, v) (r, n) = (r', n')"
  shows "clean_groups r \<Longrightarrow> clean_groups r'" "metric_names r' \<subseteq> insert name (metric_names r)"
    "ev_world_deciseconds r = None \<Longrightarrow> as_i64 v = None \<Longrightarrow> ev_world_deciseconds r' = None"
  using assms
  by (auto elim!: scalar_member_cases simp: clean_groups_insert) 
    (auto simp: clean_groups_def metric_names_def btree_insert_keys)

lemma scalar_members_keep:
  assumes "fold (scalar_member eh options) members (r, n) = (r', n')"
  shows "clean_groups r \<Longrightarrow> clean_groups r'" "metric_names r' \<subseteq> fst ` set members \<union> metric_names r"
    "ev_world_deciseconds r = None \<Longrightarrow> \<forall>v \<in> snd ` set members. as_i64 v = None \<Longrightarrow> ev_world_deciseconds r' = None"
proof -
  have "(clean_groups r \<longrightarrow> clean_groups r') \<and> metric_names r' \<subseteq> fst ` set members \<union> metric_names r
    \<and> (ev_world_deciseconds r = None \<and> (\<forall>v \<in> snd ` set members. as_i64 v = None) \<longrightarrow> ev_world_deciseconds r' = None)"
    using assms
  proof (induction members arbitrary: r n)
    case (Cons m members)
    obtain name v where m: "m = (name, v)" by fastforce
    obtain r1 n1 where one: "scalar_member eh options (name, v) (r, n) = (r1, n1)" by fastforce
    with Cons(2) m have "fold (scalar_member eh options) members (r1, n1) = (r', n')" by simp
    from Cons(1)[OF this] scalar_member_keeps[OF one] show ?case by (auto simp: m)
  qed simp
  then show "clean_groups r \<Longrightarrow> clean_groups r'" "metric_names r' \<subseteq> fst ` set members \<union> metric_names r"
    "ev_world_deciseconds r = None \<Longrightarrow> \<forall>v \<in> snd ` set members. as_i64 v = None \<Longrightarrow> ev_world_deciseconds r' = None"
    by simp_all
qed

lemma empty_record_parts: "clean_groups (empty_record i)" "metric_names (empty_record i) = {}"
  "ev_world_deciseconds (empty_record i) = None"
  by (simp_all add: empty_record_def clean_groups_def metric_names_def)

lemma scalar_record_clean: "scalar_record eh v i options n = (r, n') \<Longrightarrow> clean_groups r"
  using scalar_members_keep(1)[OF _ empty_record_parts(1)] empty_record_parts(1)
  by (auto simp: scalar_record_def split: option.splits)

text \<open>A row of a CSV file has no integers and no protected columns.\<close>

lemma row_cells:
  "fold (row_cell eh) cells (members, n) = (members', n') \<Longrightarrow>
     \<forall>(name, v) \<in> set members. \<not> protected_name name \<and> as_i64 v = None \<Longrightarrow>
     \<forall>(name, v) \<in> set members'. \<not> protected_name name \<and> as_i64 v = None"
proof (induction cells arbitrary: members n)
  case (Cons c cells)
  obtain header s where c: "c = (header, s)" by fastforce
  obtain m1 n1 where one: "row_cell eh (header, s) (members, n) = (m1, n1)" by fastforce
  let ?v = "case eh_parse_f64 eh s of Some number \<Rightarrow> json_f64 number | None \<Rightarrow> JStr s"
  have "as_i64 ?v = None" by (simp add: json_f64_def split: option.splits)
  then have "\<forall>(name, v) \<in> set m1. \<not> protected_name name \<and> as_i64 v = None"
    using one Cons(3) btree_insert_set[of header ?v members]
    by (fastforce simp: row_cell_def split: if_splits)
  with Cons(1)[of m1 n1] Cons(2) one c show ?case by simp
qed simp

lemma csv_row_parts:
  assumes "csv_row eh options headers i row n = (r, n')"
  shows "clean_groups r" "\<forall>name \<in> metric_names r. \<not> protected_name name" "ev_world_deciseconds r = None"
proof -
  obtain members k where cells: "fold (row_cell eh) (zip headers row) ([], n) = (members, k)" by fastforce
  note ok = row_cells[OF cells]
  from assms cells have run: "fold (scalar_member eh options) members (empty_record i, k) = (r, n')"
    by (simp add: csv_row_def scalar_record_def)
  note keep = scalar_members_keep[OF run]
  show "clean_groups r" by (rule keep(1)[OF empty_record_parts(1)])
  show "\<forall>name \<in> metric_names r. \<not> protected_name name" using keep(2) ok by (fastforce simp: empty_record_parts(2))
  show "ev_world_deciseconds r = None" using keep(3)[OF empty_record_parts(3)] ok by fastforce
qed

lemma csv_rows_parts:
  "csv_rows eh options headers i rows (records, k, n) = Inr (records', k', n') \<Longrightarrow>
     \<forall>r \<in> set records'. r \<in> set records \<or> clean_groups r \<and> (\<forall>name \<in> metric_names r. \<not> protected_name name)
       \<and> ev_world_deciseconds r = None"
proof (induction rows arbitrary: i records k n)
  case (Cons row rows)
  show ?case
  proof (cases row)
    case None
    then show ?thesis using Cons by (simp split: if_splits)
  next
    case (Some cells)
    obtain r n1 where r: "csv_row eh options headers i cells n = (r, n1)" by fastforce
    with Cons(2) Some have "csv_rows eh options headers (i + 1) rows (records @ [r], k, n1) = Inr (records', k', n')"
      by (simp split: if_splits)
    from Cons(1)[OF this] csv_row_parts[OF r] show ?thesis by auto
  qed
qed simp

lemma jsonl_lines_clean:
  "jsonl_lines eh options i lines (records, n) = Inr (records', n') \<Longrightarrow>
     \<forall>r \<in> set records. clean_groups r \<Longrightarrow> \<forall>r \<in> set records'. clean_groups r"
proof (induction lines arbitrary: i records n)
  case (Cons line lines)
  show ?case
  proof (cases "trim line = []")
    case True
    then show ?thesis using Cons by (simp split: if_splits)
  next
    case False
    with Cons(2) obtain v where v: "eh_json eh line = Inr v"
      and "(case scalar_record eh v i options n of (r, n) \<Rightarrow> jsonl_lines eh options (i + 1) lines (records @ [r], n)) = Inr (records', n')"
      by (auto simp: rbind_Inr map_err_Inr split: if_splits)
    moreover obtain r n1 where r: "scalar_record eh v i options n = (r, n1)" by fastforce
    ultimately have "jsonl_lines eh options (i + 1) lines (records @ [r], n1) = Inr (records', n')" by simp
    from Cons(1)[OF this] Cons(3) scalar_record_clean[OF r] show ?thesis by simp
  qed
qed simp

lemma byond_records_clean:
  "byond_records eh options i vs n = (records, n') \<Longrightarrow> \<forall>r \<in> set records. clean_groups r"
  by (induction vs arbitrary: i n records) (auto split: prod.splits dest: scalar_record_clean)

section \<open>Properties\<close>

lemma parse_artifact_Inr:
  assumes "parse_artifact eh pol d t n = Inr (a, t', n')"
  obtains ra where "read_artifact eh pol d t = (Inr ra, t')"
    "ad_kind d = PerformanceCsv \<and> parse_csv eh ra d n = Inr (a, n')
     \<or> ad_kind d \<in> {RuntimeJsonl, EventJsonl} \<and> parse_jsonl eh ra d n = Inr (a, n')
     \<or> ad_kind d \<in> {ByondProcProfileJson, ByondSendmapsJson} \<and> parse_byond eh ra d n = Inr (a, n')"
proof -
  obtain r t1 where read: "read_artifact eh pol d t = (r, t1)" by fastforce
  then obtain ra where r: "r = Inr ra" using assms by (cases r) (auto simp: parse_artifact_def)
  show ?thesis
    using assms read r that by (cases "ad_kind d") (auto simp: parse_artifact_def rbind_Inr)
qed

lemma parse_csv_Inr:
  assumes "parse_csv eh ra d n = Inr (a, n')"
  shows "\<forall>r \<in> set (pa_records a). clean_groups r \<and> (\<forall>name \<in> metric_names r. \<not> protected_name name)
    \<and> ev_world_deciseconds r = None"
proof -
  from assms obtain headers rows records k where
    "csv_rows eh (ad_options d) headers 0 rows ([], 0, n) = Inr (records, k, n')" "pa_records a = records"
    by (auto simp: parse_csv_def rbind_Inr split: if_splits)
  then show ?thesis using csv_rows_parts by fastforce
qed

lemma parse_jsonl_Inr: "parse_jsonl eh ra d n = Inr (a, n') \<Longrightarrow> \<forall>r \<in> set (pa_records a). clean_groups r"
  using jsonl_lines_clean[of eh "ad_options d" 0 _ "[]" n] by (auto simp: parse_jsonl_def rbind_Inr split: if_splits)

lemma parse_byond_Inr: "parse_byond eh ra d n = Inr (a, n') \<Longrightarrow> \<forall>r \<in> set (pa_records a). clean_groups r"
  by (auto simp: parse_byond_def rbind_Inr split: if_splits prod.splits dest: byond_records_clean)

text \<open>
  The text of evidence leaves the reader redacted: in every record of an artifact that was
  parsed, whatever its format and the options of the caller, no group stands under a protected
  name, every group value is at most 64 KiB long and holds no value of a protected field, and in a
  CSV file no metric stands under a protected name either.
\<close>

lemma evidence_groups_are_sanitized:
  assumes "parse_artifact eh pol d so_far n = Inr (a, so_far', n')" "r \<in> set (pa_records a)"
  shows "(\<forall>(name, s) \<in> set (ev_groups r). \<not> protected_name name \<and> length s \<le> 65536
       \<and> (\<forall>field \<in> set PROTECTED_FIELDS. \<not> leaks field None s))
     \<and> (ad_kind d = PerformanceCsv \<longrightarrow> (\<forall>(name, x) \<in> set (ev_metrics r). \<not> protected_name name))"
proof -
  obtain ra where "ad_kind d = PerformanceCsv \<and> parse_csv eh ra d n = Inr (a, n')
     \<or> ad_kind d \<in> {RuntimeJsonl, EventJsonl} \<and> parse_jsonl eh ra d n = Inr (a, n')
     \<or> ad_kind d \<in> {ByondProcProfileJson, ByondSendmapsJson} \<and> parse_byond eh ra d n = Inr (a, n')"
    by (rule parse_artifact_Inr[OF assms(1)])
  then have "clean_groups r \<and> (ad_kind d = PerformanceCsv \<longrightarrow> (\<forall>name \<in> metric_names r. \<not> protected_name name))"
    using parse_csv_Inr[of eh ra d n a n'] parse_jsonl_Inr[of eh ra d n a n'] parse_byond_Inr[of eh ra d n a n'] assms(2) by auto
  then show ?thesis by (auto simp: clean_groups_def metric_names_def MAX_EVIDENCE_STRING_BYTES_def)
qed

text \<open>
  C37. The world clock of a CSV file is never read.  Every number of a row becomes a float, and
  \<open>as_i64\<close> of a float is \<open>None\<close>, so whatever column the caller names as the world time, no record
  of the file has one, and when the phases of the request are given by the world clock alone,
  every record is left unassigned.
\<close>

theorem csv_world_clock_never_read:
  assumes "ad_kind d = PerformanceCsv" "parse_artifact eh pol d so_far n = Inr (a, so_far', n')"
    and "r \<in> set (pa_records a)" "\<forall>p \<in> set phases. ep_wall_start p = None"
  shows "ev_world_deciseconds r = None \<and> assign_phase rfc3339 r phases = Inr None"
proof -
  obtain ra where "ad_kind d = PerformanceCsv \<and> parse_csv eh ra d n = Inr (a, n')
     \<or> ad_kind d \<in> {RuntimeJsonl, EventJsonl} \<and> parse_jsonl eh ra d n = Inr (a, n')
     \<or> ad_kind d \<in> {ByondProcProfileJson, ByondSendmapsJson} \<and> parse_byond eh ra d n = Inr (a, n')"
    by (rule parse_artifact_Inr[OF assms(2)])
  then have none: "ev_world_deciseconds r = None" using parse_csv_Inr[of eh ra d n a n'] assms(1,3) by auto
  have "filter (world_covers r) phases = []" by (simp add: filter_empty_conv world_covers_def none)
  moreover have "filter (wall_covers rfc3339 r) phases = []"
    using assms(4) by (simp add: filter_empty_conv wall_covers_def wall_value_def wall_ms_def)
  ultimately show ?thesis by (simp add: assign_phase_def none)
qed

lemma scalar_member_metric_other:
  assumes "scalar_member eh options (name', v) (r, n) = (r', n')" "name' \<noteq> name"
  shows "map_of (ev_metrics r') name = map_of (ev_metrics r) name"
  using assms by (auto elim!: scalar_member_cases simp: map_of_btree_insert)

lemma scalar_members_metric_other:
  "fold (scalar_member eh options) members (r, n) = (r', n') \<Longrightarrow> name \<notin> fst ` set members \<Longrightarrow>
     map_of (ev_metrics r') name = map_of (ev_metrics r) name"
proof (induction members arbitrary: r n)
  case (Cons m members)
  obtain name' v where m: "m = (name', v)" by fastforce
  obtain r1 n1 where one: "scalar_member eh options (name', v) (r, n) = (r1, n1)" by fastforce
  with Cons(2) m have "fold (scalar_member eh options) members (r1, n1) = (r', n')" by simp
  with Cons(1)[OF this] Cons(3) scalar_member_metric_other[OF one, of name] show ?case by (auto simp: m)
qed simp

text \<open>What one member adds to the count of redacted values does not depend on the record so far.\<close>

definition member_redactions :: "evidence_host \<Rightarrow> artifact_options option \<Rightarrow> string \<times> json \<Rightarrow> nat" where
  "member_redactions eh options m = snd (scalar_member eh options m (empty_record 0, 0))"

lemma scalar_member_count: "snd (scalar_member eh options m (r, n)) = n + member_redactions eh options m"
  by (cases m) (simp add: member_redactions_def scalar_member_def split: option.split prod.split)

lemma scalar_members_count:
  "snd (fold (scalar_member eh options) members (r, n)) = n + sum_list (map (member_redactions eh options) members)"
proof (induction members arbitrary: r n)
  case (Cons m members)
  obtain r1 n1 where one: "scalar_member eh options m (r, n) = (r1, n1)" by fastforce
  then have "n1 = n + member_redactions eh options m" using scalar_member_count[of eh options m r n] by simp
  then show ?case by (simp add: one Cons.IH)
qed simp

text \<open>
  C38. Protected fields are redacted only as text.  A finite number under a name, protected or
  not (\<open>player_id\<close>, say), that is neither the wall nor the world clock and is among the metrics
  the caller selected, or the caller selected none, becomes a metric of the record with its value;
  and it is not counted as redacted: the count of the record is the one of the record without it.
\<close>

theorem protected_number_is_reported:
  assumes "btree members" "map_of members name = Some v" "as_f64 eh v = Some x" "f64_is_finite x"
    and "\<not> is_wall_field options name" "\<not> is_world_field options name" "metric_selected options name"
  shows "map_of (ev_metrics (fst (scalar_record eh (JObj members) i options n))) name = Some x
     \<and> snd (scalar_record eh (JObj members) i options n)
        = snd (scalar_record eh (JObj (btree_remove name members)) i options n)"
proof -
  from assms(2) obtain ms ms' where split: "members = ms @ (name, v) # ms'"
    by (meson map_of_SomeD split_list)
  have alone: "name \<notin> fst ` set ms'" "name \<notin> fst ` set ms" using assms(1) by (auto simp: btree_def split)
  then have "filter (\<lambda>e. fst e \<noteq> name) ms = ms" "filter (\<lambda>e. fst e \<noteq> name) ms' = ms'"
    by (auto simp: filter_id_conv image_iff)
  then have rest: "btree_remove name members = ms @ ms'" by (simp add: btree_remove_def split)
  obtain r0 n0 where pre: "fold (scalar_member eh options) ms (empty_record i, n) = (r0, n0)" by fastforce
  let ?r1 = "r0\<lparr>ev_metrics := btree_insert name x (ev_metrics r0)\<rparr>"
  have one: "scalar_member eh options (name, v) (r, k) = (r\<lparr>ev_metrics := btree_insert name x (ev_metrics r)\<rparr>, k)" for r k
    using assms(3-7) by (simp add: scalar_member_def)
  obtain r2 n2 where post: "fold (scalar_member eh options) ms' (?r1, n0) = (r2, n2)" by fastforce
  have "scalar_record eh (JObj members) i options n = (r2, n2)"
    by (simp add: scalar_record_def split pre one post)
  moreover have "map_of (ev_metrics r2) name = Some x"
    using scalar_members_metric_other[OF post alone(1)] by (simp add: map_of_btree_insert)
  moreover have "member_redactions eh options (name, v) = 0" by (simp add: member_redactions_def one)
  then have "snd (scalar_record eh (JObj members) i options n)
      = snd (scalar_record eh (JObj (btree_remove name members)) i options n)"
    by (simp only: scalar_record_def as_object.simps option.case scalar_members_count rest) (simp add: split)
  ultimately show ?thesis by simp
qed

section \<open>Witnesses\<close>

text \<open>A CSV file with a column \<open>t\<close> for the world time, and an event with a note.\<close>

definition demo_evidence_files :: file_host where
  "demo_evidence_files = \<lparr>fh_fs = \<lparr>fs_canonicalize = Inr, fs_exists = (\<lambda>_. True),
       fs_symlink_metadata = (\<lambda>_. Inr RegularFile), fs_display = (\<lambda>_. ''e''), fs_from_str = (\<lambda>s. [Normal s])\<rparr>,
     fh_len = (\<lambda>_. 1), fh_metadata = (\<lambda>_. Inr (True, 1, None)), fh_read = (\<lambda>_. Inr ''e''), fh_sha256 = (\<lambda>s. s)\<rparr>"

definition demo_evidence_host :: evidence_host where
  "demo_evidence_host = \<lparr>eh_files = demo_evidence_files, eh_rfc3339 = (\<lambda>_. Inl []),
     eh_json = (\<lambda>_. Inr (JObj [(''note'', JStr ''key=x'')])), eh_csv = (\<lambda>_. Inr ([''t''], [Some [''5'']])),
     eh_parse_f64 = (\<lambda>_. Some 0), eh_f64_of_int = (\<lambda>_. 0)\<rparr>"

definition demo_evidence_policy :: path_policy where
  "demo_evidence_policy = \<lparr>pp_roots = [[RootDir]], pp_effective_roots = [\<lparr>er_path = [RootDir], er_source = ExplicitRoot,
     er_repository_identity = None, er_head_revision = None, er_dirty = None\<rparr>], pp_executables = []\<rparr>"

definition demo_descriptor :: "artifact_kind \<Rightarrow> artifact_descriptor" where
  "demo_descriptor kind = \<lparr>ad_kind = kind, ad_path = [RootDir, Normal ''e''],
     ad_options = Some \<lparr>ao_selected_metrics = [], ao_wall_time_field = None, ao_world_time_field = Some ''t'',
       ao_group_fields = [''note'']\<rparr>\<rparr>"

lemma demo_read:
  "\<exists>identity. read_artifact demo_evidence_host demo_evidence_policy (demo_descriptor kind) 0
     = (Inr \<lparr>ra_identity = identity, ra_bytes = ''e''\<rparr>, 1)"
  by (simp add: read_artifact_def demo_evidence_host_def demo_evidence_files_def demo_evidence_policy_def
      demo_descriptor_def read_path_def require_contained_def path_starts_with_def map_err_def or_err_def
      checked_add64_def MAX_EVIDENCE_FILE_BYTES_def MAX_EVIDENCE_TOTAL_BYTES_def deepest_root_def Let_def)

lemma demo_csv:
  "\<exists>a. parse_artifact demo_evidence_host demo_evidence_policy (demo_descriptor PerformanceCsv) 0 0 = Inr (a, 1, 0)
     \<and> length (pa_records a) = 1"
proof -
  obtain identity where r: "read_artifact demo_evidence_host demo_evidence_policy (demo_descriptor PerformanceCsv) 0
     = (Inr \<lparr>ra_identity = identity, ra_bytes = ''e''\<rparr>, 1)" using demo_read by blast
  have p: "protected_name ''t'' = False" by code_simp
  show ?thesis
    unfolding parse_artifact_def r
    by (simp add: demo_descriptor_def parse_csv_def demo_evidence_host_def map_err_def MAX_EVIDENCE_COLUMNS_def
        MAX_EVIDENCE_ROWS_def csv_row_def row_cell_def p json_f64_def f64_is_finite_def scalar_record_def
        scalar_member_def is_wall_field_def is_world_field_def empty_record_def)
qed

theorem csv_world_clock_never_read_witness:
  "\<exists>a r. parse_artifact demo_evidence_host demo_evidence_policy (demo_descriptor PerformanceCsv) 0 0 = Inr (a, 1, 0)
     \<and> r \<in> set (pa_records a) \<and> assign_phase (\<lambda>_. Inl []) r [demo_phase ''a'' 0 10] = Inr None"
proof -
  obtain a where a: "parse_artifact demo_evidence_host demo_evidence_policy (demo_descriptor PerformanceCsv) 0 0 = Inr (a, 1, 0)"
    "length (pa_records a) = 1" using demo_csv by blast
  then obtain r where r: "r \<in> set (pa_records a)" by (cases "pa_records a") auto
  have "ad_kind (demo_descriptor PerformanceCsv) = PerformanceCsv" "\<forall>p \<in> set [demo_phase ''a'' 0 10]. ep_wall_start p = None"
    by (simp_all add: demo_descriptor_def demo_phase_def)
  from csv_world_clock_never_read[OF this(1) a(1) r this(2), of "\<lambda>_. Inl []"] a(1) r show ?thesis by blast
qed

lemma demo_note_event:
  "\<exists>a r n. parse_artifact demo_evidence_host demo_evidence_policy (demo_descriptor ByondSendmapsJson) 0 0 = Inr (a, 1, n)
     \<and> r \<in> set (pa_records a) \<and> ev_groups r = [(''note'', fst (sanitize_text ''key=x''))]"
proof -
  obtain identity where r: "read_artifact demo_evidence_host demo_evidence_policy (demo_descriptor ByondSendmapsJson) 0
     = (Inr \<lparr>ra_identity = identity, ra_bytes = ''e''\<rparr>, 1)" using demo_read by blast
  obtain s n where s: "sanitize_text ''key=x'' = (s, n)" by fastforce
  have "fst (sanitize_text ''key=x'') = ''key=<redacted>''" by code_simp
  then have len: "length s \<le> 65536" by (simp add: s)
  have p: "protected_name ''note'' = False" by code_simp
  show ?thesis
    unfolding parse_artifact_def r
    by (simp add: demo_descriptor_def parse_byond_def demo_evidence_host_def map_err_def validate_json_depth.simps
        MAX_EVIDENCE_STRING_BYTES_def byond_values_def MAX_EVIDENCE_ROWS_def scalar_record_def scalar_member_def
        is_wall_field_def is_world_field_def is_group_field_def p s len empty_record_def)
qed

lemma evidence_groups_are_sanitized_witness:
  "\<exists>a r n s. parse_artifact demo_evidence_host demo_evidence_policy (demo_descriptor ByondSendmapsJson) 0 0 = Inr (a, 1, n)
     \<and> r \<in> set (pa_records a) \<and> ev_groups r = [(''note'', s)] \<and> \<not> leaks ''key'' None s"
proof -
  obtain a r n where a: "parse_artifact demo_evidence_host demo_evidence_policy (demo_descriptor ByondSendmapsJson) 0 0 = Inr (a, 1, n)"
    and r: "r \<in> set (pa_records a)" and g: "ev_groups r = [(''note'', fst (sanitize_text ''key=x''))]"
    using demo_note_event by (elim exE conjE)
  have "''key'' \<in> set PROTECTED_FIELDS" by (simp add: PROTECTED_FIELDS_def)
  with evidence_groups_are_sanitized[OF a r] g have "\<not> leaks ''key'' None (fst (sanitize_text ''key=x''))" by simp
  with a r g show ?thesis by blast
qed

theorem protected_number_is_reported_witness:
  "protected_name ''player_id'' \<and>
   map_of (ev_metrics (fst (scalar_record demo_evidence_host
     (JObj [(''key'', JStr ''x''), (''player_id'', JNum (Float 4611686018427387904))]) 0 None 0)))
       ''player_id'' = Some 4611686018427387904 \<and>
   snd (scalar_record demo_evidence_host
     (JObj [(''key'', JStr ''x''), (''player_id'', JNum (Float 4611686018427387904))]) 0 None 0) = 1"
proof -
  have p: "protected_name ''player_id''" "protected_name ''key''" by code_simp+
  have bt: "btree [(''key'', JStr ''x''), (''player_id'', JNum (Float 4611686018427387904))]" by code_simp
  have "snd (scalar_record demo_evidence_host (JObj [(''key'', JStr ''x'')]) 0 None 0) = 1"
    by (simp add: scalar_record_def scalar_member_def is_wall_field_def is_world_field_def p)
  with protected_number_is_reported[OF bt, of "''player_id''" "JNum (Float 4611686018427387904)" demo_evidence_host
      4611686018427387904 None 0 0] p
  show ?thesis by (simp add: f64_is_finite_def is_wall_field_def is_world_field_def metric_selected_def btree_remove_def)
qed

end
