(* ===== verification/Evidence_Run.thy ===== *)
theory Evidence_Run
  imports Evidence_Reader Btree_Groups Launch_Gate
begin

text \<open>
  Summaries of evidence runs and their comparison, from \<open>src/native_evidence/mod.rs\<close> and
  \<open>statistics.rs\<close>.  Floats are their bits: the order \<open>total_cmp\<close>, finiteness and the test against
  zero are defined on the bits, the arithmetic of IEEE 754 is the parameter \<open>float_ops\<close>, and so is
  the JSON text of a group.
\<close>

unbundle bit_operations_syntax

section \<open>Floats\<close>

record float_ops =
  fo_add :: "u64 \<Rightarrow> u64 \<Rightarrow> u64"
  fo_sub :: "u64 \<Rightarrow> u64 \<Rightarrow> u64"
  fo_mul :: "u64 \<Rightarrow> u64 \<Rightarrow> u64"
  fo_div :: "u64 \<Rightarrow> u64 \<Rightarrow> u64"
  fo_powi :: "u64 \<Rightarrow> int \<Rightarrow> u64"
  fo_sqrt :: "u64 \<Rightarrow> u64"
  fo_abs :: "u64 \<Rightarrow> u64"
  fo_of_nat :: "nat \<Rightarrow> u64"
  fo_floor :: "u64 \<Rightarrow> nat"
  fo_ceil :: "u64 \<Rightarrow> nat"

text \<open>\<open>f64::total_cmp\<close> compares the bits as signed integers, all but the sign of a negative flipped.\<close>

definition total_key :: "u64 \<Rightarrow> int" where
  "total_key bits = sint (if sint bits < 0 then bits XOR 0x7FFFFFFFFFFFFFFF else bits)"

definition f64_is_zero :: "u64 \<Rightarrow> bool" where
  "f64_is_zero bits \<longleftrightarrow> bits AND 0x7FFFFFFFFFFFFFFF = 0"

section \<open>Statistics\<close>

record numeric_summary =
  ns_count :: nat
  ns_missing_count :: nat
  ns_minimum :: u64
  ns_maximum :: u64
  ns_mean :: u64
  ns_p50 :: u64
  ns_p95 :: u64
  ns_p99 :: u64
  ns_sample_standard_deviation :: "u64 option"

fun compensated_loop :: "float_ops \<Rightarrow> u64 \<Rightarrow> u64 \<Rightarrow> u64 list \<Rightarrow> u64" where
  "compensated_loop ops sum_so_far correction [] = sum_so_far"
| "compensated_loop ops sum_so_far correction (v # vs) =
     (let adjusted = fo_sub ops v correction; after = fo_add ops sum_so_far adjusted
      in compensated_loop ops after (fo_sub ops (fo_sub ops after sum_so_far) adjusted) vs)"

definition compensated_sum :: "float_ops \<Rightarrow> u64 list \<Rightarrow> u64" where
  "compensated_sum ops values = compensated_loop ops 0 0 values"

text \<open>An index out of range panics.\<close>

definition percentile_type7 :: "float_ops \<Rightarrow> u64 list \<Rightarrow> u64 \<Rightarrow> evidence_error + u64 option" where
  "percentile_type7 ops sorted_values probability =
     (if sorted_values = [] then Inr None
      else
        let h = fo_mul ops (fo_of_nat ops (length sorted_values - 1)) probability;
            lower = fo_floor ops h; upper = fo_ceil ops h
        in if length sorted_values \<le> lower \<or> length sorted_values \<le> upper then Inl EvidencePanicked
           else Inr (Some (fo_add ops (sorted_values ! lower)
             (fo_mul ops (fo_sub ops h (fo_of_nat ops lower))
               (fo_sub ops (sorted_values ! upper) (sorted_values ! lower))))))"

text \<open>\<open>unwrap\<close>\<close>

definition unwrapped :: "'a option \<Rightarrow> evidence_error + 'a" where
  "unwrapped x = or_err EvidencePanicked x"

definition PROBABILITY_50 :: u64 where "PROBABILITY_50 = 0x3FE0000000000000"
definition PROBABILITY_95 :: u64 where "PROBABILITY_95 = 0x3FEE666666666666"
definition PROBABILITY_99 :: u64 where "PROBABILITY_99 = 0x3FEFAE147AE147AE"

definition sample_deviation :: "float_ops \<Rightarrow> u64 list \<Rightarrow> u64 \<Rightarrow> u64 option" where
  "sample_deviation ops sorted_values mean =
     (if 1 < length sorted_values
      then Some (fo_sqrt ops (fo_div ops
        (compensated_sum ops (map (\<lambda>v. fo_powi ops (fo_sub ops v mean) 2) sorted_values))
        (fo_of_nat ops (length sorted_values - 1))))
      else None)"

definition from_samples_with_total ::
  "float_ops \<Rightarrow> u64 list \<Rightarrow> nat \<Rightarrow> evidence_error + numeric_summary option" where
  "from_samples_with_total ops samples total_count =
     (if samples = [] \<or> list_ex (\<lambda>v. \<not> f64_is_finite v) samples then Inr None
      else
        let sorted_values = sort_key total_key samples;
            mean = fo_div ops (compensated_sum ops sorted_values) (fo_of_nat ops (length sorted_values))
        in rbind (rbind (percentile_type7 ops sorted_values PROBABILITY_50) unwrapped) (\<lambda>p50.
           rbind (rbind (percentile_type7 ops sorted_values PROBABILITY_95) unwrapped) (\<lambda>p95.
           rbind (rbind (percentile_type7 ops sorted_values PROBABILITY_99) unwrapped) (\<lambda>p99.
           Inr (Some \<lparr>ns_count = length sorted_values, ns_missing_count = total_count - length sorted_values,
             ns_minimum = sorted_values ! 0, ns_maximum = last sorted_values, ns_mean = mean,
             ns_p50 = p50, ns_p95 = p95, ns_p99 = p99,
             ns_sample_standard_deviation = sample_deviation ops sorted_values mean\<rparr>)))))"

definition from_samples :: "float_ops \<Rightarrow> u64 list \<Rightarrow> evidence_error + numeric_summary option" where
  "from_samples ops samples = from_samples_with_total ops samples (length samples)"

definition coefficient_of_variation :: "float_ops \<Rightarrow> numeric_summary \<Rightarrow> nat \<Rightarrow> u64 option" where
  "coefficient_of_variation ops s sample_count =
     (case ns_sample_standard_deviation s of None \<Rightarrow> None
      | Some deviation \<Rightarrow>
          if 3 \<le> sample_count \<and> \<not> f64_is_zero (ns_mean s)
          then Some (fo_div ops deviation (fo_abs ops (ns_mean s))) else None)"

section \<open>Requests and results\<close>

record workload_identity =
  wl_map :: "string option"
  wl_seed :: "string option"
  wl_configuration_profile :: "string option"
  wl_scenario :: "string option"

record evidence_request =
  nq_artifacts :: "artifact_descriptor list"
  nq_dmb_path :: "path option"
  nq_workload :: "workload_identity option"
  nq_phases :: "phase_input list"

record evidence_context =
  ec_host :: evidence_host
  ec_policy :: path_policy
  ec_provenance :: "provenance_store option"
  ec_ops :: float_ops
  ec_print_groups :: "(string, string) btree_map \<Rightarrow> string"

record group_summary =
  gr_key :: string
  gr_count :: nat

record dataset_summary =
  ds_artifact :: nat
  ds_semantics :: evidence_semantics
  ds_classification :: string
  ds_assigned_phase :: "string option"
  ds_raw_records :: nat
  ds_accepted_records :: nat
  ds_rejected_records :: nat
  ds_assigned_records :: nat
  ds_unassigned_records :: nat
  ds_metrics :: "(string, numeric_summary) btree_map"
  ds_groups :: "group_summary list"
  ds_unavailable_metrics :: "string list"

record native_run_identity =
  ni_identity_verification :: string
  ni_build_record_id :: "string option"
  ni_dmb_sha256 :: "string option"
  ni_workload :: "workload_identity option"

record normalized_run =
  nr_identity :: native_run_identity
  nr_artifacts :: "artifact_identity list"
  nr_phases :: "phase_input list"
  nr_datasets :: "dataset_summary list"
  nr_values_redacted :: nat

section \<open>Validation\<close>

definition validate_options :: "artifact_options \<Rightarrow> evidence_error + unit" where
  "validate_options opt =
     (if MAX_EVIDENCE_SELECTED_METRICS < length (ao_selected_metrics opt) then Inl SelectedMetricLimit
      else if 64 < length (ao_group_fields opt) \<or> list_ex (\<lambda>field. 256 < length field) (ao_group_fields opt)
      then Inl GroupFieldLimit
      else if \<not> distinct (ao_selected_metrics opt) \<or> \<not> distinct (ao_group_fields opt)
      then Inl OptionNamesNotUnique
      else Inr ())"

definition validate_request :: "instant_parser \<Rightarrow> evidence_request \<Rightarrow> evidence_error + unit" where
  "validate_request rfc3339 request =
     (if nq_artifacts request = [] \<or> MAX_EVIDENCE_ARTIFACTS < length (nq_artifacts request) then Inl ArtifactCount
      else if MAX_EVIDENCE_PHASES < length (nq_phases request) then Inl PhaseLimit
      else rbind (validate_phases rfc3339 (nq_phases request)) (\<lambda>_.
        if \<not> distinct (map ep_id (nq_phases request)) then Inl PhaseIdentifiersNotUnique
        else rbind (rmap (\<lambda>d. case ad_options d of None \<Rightarrow> Inr () | Some opt \<Rightarrow> validate_options opt)
               (nq_artifacts request)) (\<lambda>_. Inr ())))"

section \<open>Summaries\<close>

text \<open>The groups counted so far; the limit is checked after each record that has groups.\<close>

definition count_group ::
  "((string, string) btree_map \<Rightarrow> string) \<Rightarrow> evidence_record \<Rightarrow> (string, nat) btree_map
   \<Rightarrow> evidence_error + (string, nat) btree_map" where
  "count_group print_groups r groups =
     (if ev_groups r = [] then Inr groups
      else
        let groups = group_add (\<lambda>_ n. n + 1) 0 (print_groups (ev_groups r)) () groups
        in if MAX_EVIDENCE_GROUPS < length groups then Inl EvidenceGroupLimit else Inr groups)"

fun count_groups ::
  "((string, string) btree_map \<Rightarrow> string) \<Rightarrow> evidence_record list \<Rightarrow> (string, nat) btree_map
   \<Rightarrow> evidence_error + (string, nat) btree_map" where
  "count_groups print_groups [] groups = Inr groups"
| "count_groups print_groups (r # rs) groups = rbind (count_group print_groups r groups) (count_groups print_groups rs)"

definition metric_samples :: "evidence_record list \<Rightarrow> (string, u64 list) btree_map" where
  "metric_samples records = group_all push_back [] (concat (map ev_metrics records)) []"

text \<open>By count, descending, then by key: the stable sort by the count of the groups sorted by key.\<close>

definition returned_groups :: "(string, nat) btree_map \<Rightarrow> group_summary list" where
  "returned_groups groups = take MAX_EVIDENCE_RETURNED_GROUPS
     (map (\<lambda>(key, n). \<lparr>gr_key = key, gr_count = n\<rparr>) (sort_key (\<lambda>g. - int (snd g)) (sort_key fst groups)))"

fun summarize_metrics ::
  "float_ops \<Rightarrow> nat \<Rightarrow> (string, u64 list) btree_map \<Rightarrow> evidence_error + (string, numeric_summary) btree_map" where
  "summarize_metrics ops n [] = Inr []"
| "summarize_metrics ops n ((name, values) # samples) =
     rbind (from_samples_with_total ops values n) (\<lambda>s.
     rbind (summarize_metrics ops n samples) (\<lambda>rest.
       Inr (case s of Some summary \<Rightarrow> (name, summary) # rest | None \<Rightarrow> rest)))"

definition summarize_records ::
  "evidence_context \<Rightarrow> nat \<Rightarrow> evidence_semantics \<Rightarrow> string \<Rightarrow> string option \<Rightarrow> evidence_record list
   \<Rightarrow> nat \<Rightarrow> nat \<Rightarrow> nat \<Rightarrow> string list \<Rightarrow> evidence_error + dataset_summary" where
  "summarize_records ctx artifact semantics classification phase records rejected assigned unassigned unavailable =
     rbind (count_groups (ec_print_groups ctx) records []) (\<lambda>groups.
     rbind (summarize_metrics (ec_ops ctx) (length records) (metric_samples records)) (\<lambda>metrics.
     Inr \<lparr>ds_artifact = artifact, ds_semantics = semantics, ds_classification = classification,
       ds_assigned_phase = phase, ds_raw_records = length records + rejected,
       ds_accepted_records = length records, ds_rejected_records = rejected,
       ds_assigned_records = assigned, ds_unassigned_records = unassigned, ds_metrics = metrics,
       ds_groups = returned_groups groups, ds_unavailable_metrics = unavailable\<rparr>))"

definition run_identity ::
  "evidence_context \<Rightarrow> path option \<Rightarrow> workload_identity option \<Rightarrow> evidence_error + native_run_identity" where
  "run_identity ctx dmb_path workload =
     (case dmb_path of
        None \<Rightarrow> Inr \<lparr>ni_identity_verification = ''unavailable'', ni_build_record_id = None,
          ni_dmb_sha256 = None, ni_workload = workload\<rparr>
      | Some p \<Rightarrow>
          rbind (map_err (\<lambda>_. EvidenceIdentity ''file'') (capture_file_identity (eh_files (ec_host ctx)) p)) (\<lambda>dmb.
          rbind (case ec_provenance ctx of None \<Rightarrow> Inr None
             | Some s \<Rightarrow> rbind (map_err (\<lambda>_. EvidenceIdentity ''provenance'')
                 (evaluate_launch (bs_host s) (bs_policy s) (bs_files s) p False)) (\<lambda>d. Inr (Some d))) (\<lambda>decision.
          Inr \<lparr>ni_identity_verification =
                 (if (case decision of Some d \<Rightarrow> ld_status d = Verified | None \<Rightarrow> False)
                  then ''verified'' else ''unavailable''),
               ni_build_record_id = Option.bind decision ld_record_id,
               ni_dmb_sha256 = Some (fi_sha256 dmb), ni_workload = workload\<rparr>)))"

text \<open>The artifacts of a request, each path once.\<close>

fun parse_artifacts ::
  "evidence_context \<Rightarrow> path set \<Rightarrow> artifact_descriptor list \<Rightarrow> u64 \<Rightarrow> nat
   \<Rightarrow> evidence_error + parsed_artifact list \<times> nat" where
  "parse_artifacts ctx seen [] so_far redacted_count = Inr ([], redacted_count)"
| "parse_artifacts ctx seen (d # ds) so_far redacted_count =
     rbind (map_err EvidencePolicy (read_path (fh_fs (eh_files (ec_host ctx))) (ec_policy ctx) (ad_path d))) (\<lambda>canonical.
       if canonical \<in> seen then Inl ArtifactPathsNotUnique
       else rbind (parse_artifact (ec_host ctx) (ec_policy ctx) d so_far redacted_count) (\<lambda>(a, so_far, redacted_count).
         rbind (parse_artifacts ctx (insert canonical seen) ds so_far redacted_count) (\<lambda>(rest, redacted_count).
           Inr (a # rest, redacted_count))))"

fun before_instant :: "int option \<Rightarrow> int option \<Rightarrow> bool" where
  "before_instant (Some v) (Some start) \<longleftrightarrow> v < start"
| "before_instant _ _ \<longleftrightarrow> False"

definition is_pre_game :: "instant_parser \<Rightarrow> phase_input list \<Rightarrow> parsed_artifact \<Rightarrow> bool" where
  "is_pre_game rfc3339 phases a \<longleftrightarrow> pa_semantics a = CumulativeSnapshot \<and>
     (case find (\<lambda>p. ep_id p = ''game_start'') phases of None \<Rightarrow> False
      | Some p \<Rightarrow> list_all (\<lambda>r. before_instant (ev_wall_unix_ms r) (wall_value rfc3339 (ep_wall_start p))
          \<or> before_instant (ev_world_deciseconds r) (ep_world_start_ds p)) (pa_records a))"

definition full_classification :: "instant_parser \<Rightarrow> phase_input list \<Rightarrow> parsed_artifact \<Rightarrow> string" where
  "full_classification rfc3339 phases a =
     (if is_pre_game rfc3339 phases a then ''pre_game_cumulative''
      else if pa_semantics a = IntervalSeries then ''full_interval''
      else if pa_semantics a = EventStream then ''full_event_stream''
      else ''cumulative_snapshot'')"

definition phase_records :: "evidence_record list \<Rightarrow> string option list \<Rightarrow> string \<Rightarrow> evidence_record list" where
  "phase_records records assigned name = map fst (filter (\<lambda>(r, phase). phase = Some name) (zip records assigned))"

fun phase_datasets ::
  "evidence_context \<Rightarrow> nat \<Rightarrow> parsed_artifact \<Rightarrow> string option list \<Rightarrow> phase_input list
   \<Rightarrow> evidence_error + dataset_summary list" where
  "phase_datasets ctx index a assigned [] = Inr []"
| "phase_datasets ctx index a assigned (p # ps) =
     (let records = phase_records (pa_records a) assigned (ep_id p) in
      if records = [] then phase_datasets ctx index a assigned ps
      else rbind (summarize_records ctx index (pa_semantics a) ''assigned'' (Some (ep_id p)) records
             0 (length records) 0 (pa_unavailable_metrics a)) (\<lambda>ds.
           rbind (phase_datasets ctx index a assigned ps) (\<lambda>rest. Inr (ds # rest))))"

definition artifact_datasets ::
  "evidence_context \<Rightarrow> phase_input list \<Rightarrow> nat \<Rightarrow> parsed_artifact \<Rightarrow> evidence_error + dataset_summary list" where
  "artifact_datasets ctx phases index a =
     (let rfc3339 = eh_rfc3339 (ec_host ctx) in
      rbind (rmap (\<lambda>r. assign_phase rfc3339 r phases) (pa_records a)) (\<lambda>assigned.
      rbind (summarize_records ctx index (pa_semantics a) (full_classification rfc3339 phases a) None (pa_records a)
        (pa_rejected_records a) (length (filter (\<lambda>p. p \<noteq> None) assigned)) (length (filter (\<lambda>p. p = None) assigned))
        (pa_unavailable_metrics a)) (\<lambda>full.
      rbind (if pa_semantics a \<noteq> CumulativeSnapshot then phase_datasets ctx index a assigned phases else Inr []) (\<lambda>rest.
      Inr (full # rest)))))"

fun all_datasets ::
  "evidence_context \<Rightarrow> phase_input list \<Rightarrow> nat \<Rightarrow> parsed_artifact list \<Rightarrow> evidence_error + dataset_summary list" where
  "all_datasets ctx phases index [] = Inr []"
| "all_datasets ctx phases index (a # artifacts) =
     rbind (artifact_datasets ctx phases index a) (\<lambda>ds.
     rbind (all_datasets ctx phases (index + 1) artifacts) (\<lambda>rest. Inr (ds @ rest)))"

definition summarize_run :: "evidence_context \<Rightarrow> evidence_request \<Rightarrow> evidence_error + normalized_run" where
  "summarize_run ctx request =
     rbind (validate_request (eh_rfc3339 (ec_host ctx)) request) (\<lambda>_.
     rbind (parse_artifacts ctx {} (nq_artifacts request) 0 0) (\<lambda>(parsed, redacted_count).
     rbind (run_identity ctx (nq_dmb_path request) (nq_workload request)) (\<lambda>identity.
     rbind (all_datasets ctx (nq_phases request) 0 parsed) (\<lambda>datasets.
     Inr \<lparr>nr_identity = identity, nr_artifacts = map pa_identity parsed, nr_phases = nq_phases request,
       nr_datasets = datasets, nr_values_redacted = redacted_count\<rparr>))))"

section \<open>Comparison\<close>

record comparison_metric =
  cm_values :: "u64 list"
  cm_absolute_delta :: "u64 option"
  cm_percentage_delta :: "u64 option"
  cm_coefficient_of_variation :: "u64 option"
  cm_distribution :: numeric_summary

record comparison_result =
  cr_build_record_id :: string
  cr_run_count :: nat
  cr_metrics :: "(string, comparison_metric) btree_map"

definition semantics_debug :: "evidence_semantics \<Rightarrow> string" where
  "semantics_debug s = (case s of CumulativeSnapshot \<Rightarrow> ''CumulativeSnapshot''
     | IntervalSeries \<Rightarrow> ''IntervalSeries'' | EventStream \<Rightarrow> ''EventStream'')"

definition series_key :: "dataset_summary \<Rightarrow> string \<Rightarrow> string" where
  "series_key ds name = show_nat (ds_artifact ds) @ ''|'' @ semantics_debug (ds_semantics ds) @ ''|''
     @ ds_classification ds @ ''|'' @ (case ds_assigned_phase ds of Some phase \<Rightarrow> phase | None \<Rightarrow> ''unassigned'') @ ''|'' @ name"

definition run_means :: "normalized_run \<Rightarrow> (string \<times> u64) list" where
  "run_means run = concat (map (\<lambda>ds. map (\<lambda>(name, s). (series_key ds name, ns_mean s)) (ds_metrics ds)) (nr_datasets run))"

definition same_run_identity :: "normalized_run \<Rightarrow> normalized_run \<Rightarrow> bool" where
  "same_run_identity first run \<longleftrightarrow>
     ni_build_record_id (nr_identity run) = ni_build_record_id (nr_identity first)
     \<and> ni_workload (nr_identity run) = ni_workload (nr_identity first)
     \<and> ni_dmb_sha256 (nr_identity run) = ni_dmb_sha256 (nr_identity first)
     \<and> nr_phases run = nr_phases first
     \<and> map ai_kind (nr_artifacts run) = map ai_kind (nr_artifacts first)"

definition HUNDRED :: u64 where
  "HUNDRED = 0x4059000000000000"

definition compare_metric :: "float_ops \<Rightarrow> u64 list \<Rightarrow> evidence_error + comparison_metric" where
  "compare_metric ops values =
     rbind (rbind (from_samples ops values) unwrapped) (\<lambda>distribution.
       let absolute_delta = (if length values = 2 then Some (fo_sub ops (values ! 1) (values ! 0)) else None)
       in Inr \<lparr>cm_values = values, cm_absolute_delta = absolute_delta,
         cm_percentage_delta = (case absolute_delta of
             Some delta \<Rightarrow> if \<not> f64_is_zero (values ! 0)
               then Some (fo_mul ops (fo_div ops delta (values ! 0)) HUNDRED) else None
           | None \<Rightarrow> None),
         cm_coefficient_of_variation = coefficient_of_variation ops distribution (length values),
         cm_distribution = distribution\<rparr>)"

fun compare_metrics ::
  "float_ops \<Rightarrow> nat \<Rightarrow> (string, u64 list) btree_map \<Rightarrow> evidence_error + (string, comparison_metric) btree_map" where
  "compare_metrics ops n [] = Inr []"
| "compare_metrics ops n ((key, values) # series) =
     (if length values \<noteq> n then Inl (IdentityMismatch ''metric coverage differs between runs'')
      else rbind (compare_metric ops values) (\<lambda>m.
           rbind (compare_metrics ops n series) (\<lambda>rest. Inr ((key, m) # rest))))"

definition metric_series :: "normalized_run list \<Rightarrow> (string, u64 list) btree_map" where
  "metric_series runs = group_all push_back [] (concat (map run_means runs)) []"

definition compare_runs :: "evidence_context \<Rightarrow> evidence_request list \<Rightarrow> evidence_error + comparison_result" where
  "compare_runs ctx requests =
     (if length requests < 2 \<or> MAX_EVIDENCE_COMPARISON_RUNS < length requests then Inl ComparisonRunCount
      else rbind (rmap (summarize_run ctx) requests) (\<lambda>runs.
        if list_ex (\<lambda>run. ni_identity_verification (nr_identity run) \<noteq> ''verified'') runs
        then Inl (IdentityMismatch ''every run requires verified build identity'')
        else rbind (unwrapped (ni_build_record_id (nr_identity (hd runs)))) (\<lambda>record_id.
          if \<not> list_all (same_run_identity (hd runs)) runs
          then Inl (IdentityMismatch ''build, workload, phase, or format identity differs'')
          else rbind (compare_metrics (ec_ops ctx) (length runs) (metric_series runs)) (\<lambda>metrics.
            Inr \<lparr>cr_build_record_id = record_id, cr_run_count = length runs, cr_metrics = metrics\<rparr>))))"

section \<open>Statistics do not depend on the order of the records\<close>

lemma sint_negative: "sint (b :: u64) < 0 \<longleftrightarrow> bit b 63"
  by (simp add: sint_uint signed_take_bit_negative_iff bit_uint_iff)

lemma flip_negative: "sint (b :: u64) < 0 \<Longrightarrow> sint (b XOR 0x7FFFFFFFFFFFFFFF) < 0"
  by (simp add: sint_negative bit_xor_iff)

lemma total_key_inj: "inj total_key"
proof (rule injI)
  fix a b :: u64
  assume k: "total_key a = total_key b"
  have undo: "(c XOR m) XOR m = c" for c m :: u64 by (simp add: xor.assoc)
  show "a = b"
  proof (cases "sint a < 0"; cases "sint b < 0")
    assume n: "sint a < 0" "sint b < 0"
    from n have "a XOR 0x7FFFFFFFFFFFFFFF = b XOR 0x7FFFFFFFFFFFFFFF"
      using k unfolding total_key_def by (simp only: n if_True word_eq_iff_signed[symmetric])
    then show ?thesis using undo by metis
  next
    assume "sint a < 0" "\<not> sint b < 0"
    then show ?thesis using k flip_negative[of a] by (simp add: total_key_def)
  next
    assume "\<not> sint a < 0" "sint b < 0"
    then show ?thesis using k flip_negative[of b] by (simp add: total_key_def)
  next
    assume "\<not> sint a < 0" "\<not> sint b < 0"
    then show ?thesis using k by (simp add: total_key_def word_eq_iff_signed[symmetric])
  qed
qed

text \<open>
  C39. A numeric summary does not depend on the order of its samples: two runs of records with the
  same samples of a metric, however they are ordered, are summarized alike, the compensated sum
  included.  A summary that is returned counts every sample; its minimum and its maximum are
  samples, the least and the greatest in the order \<open>total_cmp\<close>; and every sample is finite.
\<close>

theorem numeric_summary_of_multiset:
  assumes "mset xs = mset ys" "from_samples_with_total ops xs n = Inr (Some s)"
  shows "from_samples_with_total ops ys n = Inr (Some s)
     \<and> ns_count s = length ys \<and> ns_missing_count s = n - length ys
     \<and> ns_minimum s \<in> set ys \<and> ns_maximum s \<in> set ys
     \<and> (\<forall>v \<in> set ys. f64_is_finite v \<and> total_key (ns_minimum s) \<le> total_key v \<and> total_key v \<le> total_key (ns_maximum s))"
proof -
  have same: "set xs = set ys" "length xs = length ys" using assms(1) by (metis set_mset_mset, metis size_mset)
  have sort: "sort_key total_key xs = sort_key total_key ys" by (rule sort_key_mset[OF total_key_inj assms(1)])
  have same_empty: "xs = [] \<longleftrightarrow> ys = []" using same(2) by auto
  have eq: "from_samples_with_total ops xs n = from_samples_with_total ops ys n"
    unfolding from_samples_with_total_def sort list_ex_iff same(1) same_empty ..
  let ?s = "sort_key total_key ys"
  have got: "from_samples_with_total ops ys n = Inr (Some s)" using assms(2) eq by simp
  then have ne: "ys \<noteq> []" and fin: "\<forall>v \<in> set ys. f64_is_finite v"
    by (simp_all add: from_samples_with_total_def list_ex_iff split: if_splits)
  have len: "length ?s = length ys" by simp
  have parts: "ns_count s = length ?s" "ns_missing_count s = n - length ?s" "ns_minimum s = ?s ! 0" "ns_maximum s = last ?s"
    using got ne fin by (auto simp: from_samples_with_total_def list_ex_iff Let_def rbind_Inr)
  have some: "?s \<noteq> []" using ne len by (metis length_0_conv)
  have bound: "total_key (?s ! 0) \<le> total_key v \<and> total_key v \<le> total_key (last ?s)" if "v \<in> set ys" for v
  proof -
    have "v \<in> set ?s" using that by simp
    then obtain i where i: "i < length ?s" "v = ?s ! i" unfolding in_set_conv_nth by blast
    have sorted: "sorted (map total_key ?s)" by simp
    have "map total_key ?s ! 0 \<le> map total_key ?s ! i" by (rule sorted_nth_mono[OF sorted]) (use i in simp_all)
    moreover have "map total_key ?s ! i \<le> map total_key ?s ! (length ?s - 1)" by (rule sorted_nth_mono[OF sorted]) (use i in simp_all)
    moreover have "last ?s = ?s ! (length ?s - 1)" using some by (rule last_conv_nth)
    moreover have "length ?s - 1 < length ?s" "0 < length ?s" using i(1) by linarith+
    ultimately show ?thesis using i by (simp only: nth_map)
  qed
  have "?s ! 0 \<in> set ?s" by (rule nth_mem) (use some length_greater_0_conv in blast)
  moreover have "last ?s \<in> set ?s" using some by (rule last_in_set)
  ultimately have ends: "?s ! 0 \<in> set ys" "last ?s \<in> set ys" by simp_all
  show ?thesis unfolding parts len using got fin bound ends by blast
qed

section \<open>Comparisons\<close>

lemma run_identity_verified:
  assumes "run_identity ctx p w = Inr identity" "ni_identity_verification identity = ''verified''"
  shows "\<exists>id'. ni_build_record_id identity = Some id'"
proof -
  have "ld_status (unverified False) \<noteq> Verified" by (simp add: unverified_def)
  then have launch: "ld_status d = Verified \<Longrightarrow> evaluate_launch ph pol st q False = Inr d \<Longrightarrow> ld_record_id d \<noteq> None"
    for ph pol st q d
    by (auto simp: evaluate_launch_Inr split: option.splits) (metis decide_launch_cases option.distinct(1))
  show ?thesis
  proof (cases p)
    case None
    then show ?thesis using assms by (simp add: run_identity_def) auto
  next
    case (Some q)
    with assms obtain decision where "case decision of Some d \<Rightarrow> ld_status d = Verified | None \<Rightarrow> False"
      "(case ec_provenance ctx of None \<Rightarrow> Inr None
             | Some s \<Rightarrow> rbind (map_err (\<lambda>_. EvidenceIdentity ''provenance'')
                 (evaluate_launch (bs_host s) (bs_policy s) (bs_files s) q False)) (\<lambda>d. Inr (Some d))) = Inr decision"
      "ni_build_record_id identity = Option.bind decision ld_record_id"
      by (auto simp: run_identity_def rbind_Inr split: if_splits)
    then show ?thesis using launch by (auto simp: rbind_Inr map_err_Inr split: option.splits)
  qed
qed

lemma summarize_run_Inr:
  "summarize_run ctx request = Inr run \<Longrightarrow>
     run_identity ctx (nq_dmb_path request) (nq_workload request) = Inr (nr_identity run) \<and> nr_phases run = nq_phases request"
  by (auto simp: summarize_run_def rbind_Inr)

lemma compare_metrics_Inr:
  "compare_metrics ops n series = Inr metrics \<Longrightarrow>
     map fst metrics = map fst series \<and> (\<forall>(key, m) \<in> set metrics. length (cm_values m) = n \<and> (key, cm_values m) \<in> set series)"
proof (induction series arbitrary: metrics)
  case (Cons s series)
  obtain key samples where s: "s = (key, samples)" by fastforce
  with Cons(2) obtain m rest where "length samples = n" "compare_metric ops samples = Inr m"
    "compare_metrics ops n series = Inr rest" "metrics = (key, m) # rest"
    by (auto simp: rbind_Inr split: if_splits)
  moreover then have "cm_values m = samples" by (auto simp: compare_metric_def rbind_Inr Let_def)
  ultimately show ?case using Cons(1)[of rest] by (auto simp: s)
qed simp

text \<open>
  C40. Only runs of one verified build are compared: a comparison that succeeds has between two and
  twenty runs, the identity of every one is verified and has the same build record, the one the
  result names, the same DMB digest, workload and phases; and every metric of the result has
  exactly one value per run.  A verified run always has a build record, so the \<open>unwrap\<close> of it
  never panics.
\<close>

theorem comparison_of_one_verified_build:
  assumes "compare_runs ctx requests = Inr result"
  shows "\<exists>runs. rmap (summarize_run ctx) requests = Inr runs \<and> 2 \<le> length runs \<and> length runs \<le> 20
     \<and> (\<forall>run \<in> set runs. ni_identity_verification (nr_identity run) = ''verified''
          \<and> ni_build_record_id (nr_identity run) = Some (cr_build_record_id result)
          \<and> ni_dmb_sha256 (nr_identity run) = ni_dmb_sha256 (nr_identity (hd runs))
          \<and> ni_workload (nr_identity run) = ni_workload (nr_identity (hd runs))
          \<and> nr_phases run = nr_phases (hd runs))
     \<and> (\<forall>(key, m) \<in> set (cr_metrics result). length (cm_values m) = length runs)
     \<and> (\<forall>request run. summarize_run ctx request = Inr run \<and> ni_identity_verification (nr_identity run) = ''verified''
          \<longrightarrow> ni_build_record_id (nr_identity run) \<noteq> None)"
proof -
  from assms obtain runs metrics where n: "2 \<le> length requests" "length requests \<le> 20"
    and runs: "rmap (summarize_run ctx) requests = Inr runs"
    and ver: "\<forall>run \<in> set runs. ni_identity_verification (nr_identity run) = ''verified''"
    and id': "ni_build_record_id (nr_identity (hd runs)) = Some (cr_build_record_id result)"
    and same: "\<forall>run \<in> set runs. same_run_identity (hd runs) run"
    and metrics: "compare_metrics (ec_ops ctx) (length runs) (metric_series runs) = Inr (cr_metrics result)"
    by (auto simp: compare_runs_def rbind_Inr unwrapped_def or_err_Inr list_ex_iff list_all_iff
        MAX_EVIDENCE_COMPARISON_RUNS_def split: if_splits)
  have "length runs = length requests" by (rule rmap_Inr_length[OF runs])
  moreover have "\<forall>request run. summarize_run ctx request = Inr run \<and> ni_identity_verification (nr_identity run) = ''verified''
          \<longrightarrow> ni_build_record_id (nr_identity run) \<noteq> None"
    using run_identity_verified summarize_run_Inr by blast
  ultimately show ?thesis
    using n runs ver id' same compare_metrics_Inr[OF metrics]
    by (intro exI[of _ runs]) (auto simp: same_run_identity_def)
qed

text \<open>A mean that is not finite.\<close>

lemma from_samples_not_finite: "list_ex (\<lambda>v. \<not> f64_is_finite v) values \<Longrightarrow> compare_metric ops values = Inl EvidencePanicked"
  by (simp add: compare_metric_def from_samples_def from_samples_with_total_def unwrapped_def or_err_def)

lemma compare_metric_Inl: "compare_metric ops values = Inl e \<Longrightarrow> e = EvidencePanicked"
  by (auto simp: compare_metric_def from_samples_def from_samples_with_total_def unwrapped_def or_err_def
      percentile_type7_def Let_def rbind_Inl split: if_splits option.splits)

lemma compare_metrics_panic:
  "\<forall>(key, values) \<in> set series. length values = n \<Longrightarrow>
   \<exists>(key, values) \<in> set series. list_ex (\<lambda>v. \<not> f64_is_finite v) values \<Longrightarrow>
     compare_metrics ops n series = Inl EvidencePanicked"
proof (induction series)
  case (Cons s series)
  obtain key samples where s: "s = (key, samples)" by fastforce
  show ?case
  proof (cases "compare_metric ops samples")
    case (Inl e)
    then show ?thesis using Cons(2) compare_metric_Inl[OF Inl] by (simp add: s)
  next
    case (Inr m)
    then have "\<not> list_ex (\<lambda>v. \<not> f64_is_finite v) samples" using from_samples_not_finite by fastforce
    then have "compare_metrics ops n series = Inl EvidencePanicked" using Cons by (auto simp: s)
    then show ?thesis using Inr Cons(2) by (simp add: s)
  qed
qed simp

text \<open>
  A mean that overflows makes the comparison panic: samples are finite, but their sum need not
  be, and when runs of one verified build cover the same metrics once each and some mean is not
  finite, \<open>NumericSummary::from_samples\<close> of the means is \<open>None\<close> and its \<open>unwrap\<close> panics.
\<close>

lemma overflowing_mean_panics_comparison:
  assumes "2 \<le> length requests" "length requests \<le> 20"
    and "rmap (summarize_run ctx) requests = Inr runs"
    and "\<forall>run \<in> set runs. ni_identity_verification (nr_identity run) = ''verified'' \<and> same_run_identity (hd runs) run"
    and "\<forall>(key, values) \<in> set (metric_series runs). length values = length runs"
    and "run \<in> set runs" "(key, mean) \<in> set (run_means run)" "\<not> f64_is_finite mean"
  shows "compare_runs ctx requests = Inl EvidencePanicked"
proof -
  have len: "length runs = length requests" by (rule rmap_Inr_length[OF assms(3)])
  have hd: "hd runs \<in> set runs" using assms(1) len by (intro hd_in_set) auto
  then obtain request where "summarize_run ctx request = Inr (hd runs)" using rmap_Inr_set[OF assms(3)] by blast
  then obtain id' where id': "ni_build_record_id (nr_identity (hd runs)) = Some id'"
    using run_identity_verified summarize_run_Inr assms(4) hd by blast
  let ?es = "concat (map run_means runs)"
  have "mean \<in> set (values_of key ?es)" using assms(6,7) by (force simp: values_of_def)
  then have "map_of (metric_series runs) key = Some (values_of key ?es)"
    unfolding metric_series_def map_of_group_push by auto
  then have "(key, values_of key ?es) \<in> set (metric_series runs)" by (rule map_of_SomeD)
  moreover have "list_ex (\<lambda>v. \<not> f64_is_finite v) (values_of key ?es)"
    using \<open>mean \<in> set (values_of key ?es)\<close> assms(8) by (auto simp: list_ex_iff)
  ultimately have "\<exists>(key, values) \<in> set (metric_series runs). list_ex (\<lambda>v. \<not> f64_is_finite v) values" by blast
  from compare_metrics_panic[OF assms(5) this, of "ec_ops ctx"] show ?thesis
    using assms(1-4) id' by (simp add: compare_runs_def unwrapped_def or_err_def list_ex_iff list_all_iff MAX_EVIDENCE_COMPARISON_RUNS_def)
qed

section \<open>Witnesses\<close>

text \<open>
  Two runs of the recorded build, each over one JSON file with one metric, whose mean is a
  parameter.
\<close>

definition demo_ops :: "u64 \<Rightarrow> float_ops" where
  "demo_ops mean = \<lparr>fo_add = (\<lambda>_ _. 0), fo_sub = (\<lambda>_ _. 0), fo_mul = (\<lambda>_ _. 0), fo_div = (\<lambda>_ _. mean),
     fo_powi = (\<lambda>_ _. 0), fo_sqrt = (\<lambda>_. 0), fo_abs = (\<lambda>b. b), fo_of_nat = (\<lambda>_. 0), fo_floor = (\<lambda>_. 0), fo_ceil = (\<lambda>_. 0)\<rparr>"

definition demo_evidence_context :: "u64 \<Rightarrow> evidence_context" where
  "demo_evidence_context mean = \<lparr>ec_host = \<lparr>eh_files = w_host\<lparr>fh_metadata := (\<lambda>_. Inr (True, 1, None))\<rparr>, eh_rfc3339 = (\<lambda>_. Inl []),
       eh_json = (\<lambda>_. Inr (JObj [(''calls'', JNum (Float 0))])), eh_csv = (\<lambda>_. Inl []),
       eh_parse_f64 = (\<lambda>_. None), eh_f64_of_int = (\<lambda>_. 0)\<rparr>,
     ec_policy = w_policy, ec_provenance = Some w_store, ec_ops = demo_ops mean, ec_print_groups = (\<lambda>_. [])\<rparr>"

definition demo_evidence_request :: evidence_request where
  "demo_evidence_request = \<lparr>nq_artifacts = [\<lparr>ad_kind = ByondSendmapsJson, ad_path = w_path ''a.dme'', ad_options = None\<rparr>],
     nq_dmb_path = Some (w_path ''Game.dmb''), nq_workload = None, nq_phases = []\<rparr>"

lemma demo_evidence_identity:
  "\<exists>identity. run_identity (demo_evidence_context mean) (Some (w_path ''Game.dmb'')) None = Inr identity
     \<and> ni_identity_verification identity = ''verified''"
proof -
  have launch: "evaluate_launch (bs_host w_store) (bs_policy w_store) (bs_files w_store) (w_path ''Game.dmb'') False
     = Inr w_decision" by code_simp
  have dmb: "capture_file_identity (w_host\<lparr>fh_metadata := (\<lambda>_. Inr (True, 1, None))\<rparr>) (w_path ''Game.dmb'') = Inr (w_identity ''Game.dmb'')"
    by code_simp
  show ?thesis
    by (simp add: run_identity_def demo_evidence_context_def dmb launch map_err_def w_decision_def)
qed

lemma demo_run:
  "\<exists>run. summarize_run (demo_evidence_context mean) demo_evidence_request = Inr run
     \<and> ni_identity_verification (nr_identity run) = ''verified''
     \<and> run_means run = [(series_key (hd (nr_datasets run)) ''calls'', mean)] \<and> nr_datasets run \<noteq> []"
proof -
  obtain identity where i: "run_identity (demo_evidence_context mean) (Some (w_path ''Game.dmb'')) None = Inr identity"
    "ni_identity_verification identity = ''verified''" using demo_evidence_identity by blast
  let ?host = "ec_host (demo_evidence_context mean)" and ?d = "\<lparr>ad_kind = ByondSendmapsJson, ad_path = w_path ''a.dme'', ad_options = None\<rparr>"
  obtain ra where ra: "read_artifact ?host w_policy ?d 0 = (Inr ra, 1)"
    by (simp add: read_artifact_def demo_evidence_context_def w_host_def w_policy_def w_root_def w_path_def read_path_def
      require_contained_def path_starts_with_def map_err_def or_err_def checked_add64_def MAX_EVIDENCE_FILE_BYTES_def
      MAX_EVIDENCE_TOTAL_BYTES_def deepest_root_def Let_def)
  have json: "eh_json ?host b = Inr (JObj [(''calls'', JNum (Float 0))])" for b by (simp add: demo_evidence_context_def)
  have a: "\<exists>a. parse_artifact ?host w_policy ?d 0 0 = Inr (a, 1, 0) \<and> pa_semantics a = CumulativeSnapshot
      \<and> pa_records a = [\<lparr>ev_wall_unix_ms = None, ev_world_deciseconds = None, ev_sample_index = 0,
           ev_metrics = [(''calls'', 0)], ev_groups = []\<rparr>]"
    unfolding parse_artifact_def ra
    by (simp add: parse_byond_def json map_err_def validate_json_depth.simps byond_values_def MAX_EVIDENCE_ROWS_def
        scalar_record_def scalar_member_def is_wall_field_def is_world_field_def metric_selected_def f64_is_finite_def empty_record_def)
  then obtain a where a: "parse_artifact ?host w_policy ?d 0 0 = Inr (a, 1, 0)" "pa_semantics a = CumulativeSnapshot"
    "pa_records a = [\<lparr>ev_wall_unix_ms = None, ev_world_deciseconds = None, ev_sample_index = 0,
           ev_metrics = [(''calls'', 0)], ev_groups = []\<rparr>]" by blast
  have path: "read_path (fh_fs (eh_files ?host)) (ec_policy (demo_evidence_context mean)) (w_path ''a.dme'') = Inr (w_path ''a.dme'')"
    by (simp add: demo_evidence_context_def w_host_def w_policy_def w_root_def w_path_def read_path_def require_contained_def path_starts_with_def map_err_def)
  have parsed: "parse_artifacts (demo_evidence_context mean) {} [?d] 0 0 = Inr ([a], 0)"
    using a(1) by (simp add: path map_err_def) (simp add: demo_evidence_context_def)
  have valid: "validate_request rfc demo_evidence_request = Inr ()" for rfc
    by (simp add: validate_request_def demo_evidence_request_def MAX_EVIDENCE_ARTIFACTS_def MAX_EVIDENCE_PHASES_def validate_phases_def)
  have stats: "\<exists>s. from_samples_with_total (demo_ops mean) [0] (Suc 0) = Inr (Some s) \<and> ns_mean s = mean"
    by (simp add: from_samples_with_total_def f64_is_finite_def percentile_type7_def demo_ops_def unwrapped_def or_err_def Let_def)
  then obtain s where s: "from_samples_with_total (demo_ops mean) [0] (Suc 0) = Inr (Some s)" "ns_mean s = mean" by blast
  have ops: "ec_ops (demo_evidence_context mean) = demo_ops mean" by (simp add: demo_evidence_context_def)
  have samples: "metric_samples (pa_records a) = [(''calls'', [0])]"
    by (simp add: metric_samples_def a(3) group_all_def group_add_def push_back_def)
  have "\<exists>ds. all_datasets (demo_evidence_context mean) [] 0 [a] = Inr [ds] \<and> ds_metrics ds = [(''calls'', s)]"
    using samples s(1) by (simp add: artifact_datasets_def a assign_phase_def summarize_records_def count_group_def ops Let_def)
  then obtain ds where ds: "all_datasets (demo_evidence_context mean) [] 0 [a] = Inr [ds]" "ds_metrics ds = [(''calls'', s)]" by blast
  have "summarize_run (demo_evidence_context mean) demo_evidence_request = Inr \<lparr>nr_identity = identity,
      nr_artifacts = [pa_identity a], nr_phases = [], nr_datasets = [ds], nr_values_redacted = 0\<rparr>"
    by (simp add: summarize_run_def valid) (simp add: demo_evidence_request_def parsed i(1) ds(1) del: parse_artifacts.simps all_datasets.simps)
  then show ?thesis using i(2) ds(2) s(2) by (simp add: run_means_def)
qed

theorem numeric_summary_of_multiset_witness:
  "\<exists>s. from_samples_with_total (demo_ops 0) [1, 0] 3 = Inr (Some s) \<and> from_samples_with_total (demo_ops 0) [0, 1] 3 = Inr (Some s)
     \<and> ns_missing_count s = 1"
proof -
  have "\<exists>s. from_samples_with_total (demo_ops 0) [1, 0] 3 = Inr (Some s)"
    by (simp add: from_samples_with_total_def f64_is_finite_def percentile_type7_def demo_ops_def unwrapped_def or_err_def Let_def)
  then obtain s where s: "from_samples_with_total (demo_ops 0) [1, 0] 3 = Inr (Some s)" by blast
  have "mset [1, 0 :: u64] = mset [0, 1]" by simp
  from numeric_summary_of_multiset[OF this s] s show ?thesis by auto
qed

lemma demo_runs:
  obtains run where "rmap (summarize_run (demo_evidence_context mean)) [demo_evidence_request, demo_evidence_request] = Inr [run, run]"
    "ni_identity_verification (nr_identity run) = ''verified''"
    "run_means run = [(series_key (hd (nr_datasets run)) ''calls'', mean)]"
    "metric_series [run, run] = [(series_key (hd (nr_datasets run)) ''calls'', [mean, mean])]"
proof -
  obtain run where run: "summarize_run (demo_evidence_context mean) demo_evidence_request = Inr run"
    "ni_identity_verification (nr_identity run) = ''verified''"
    "run_means run = [(series_key (hd (nr_datasets run)) ''calls'', mean)]" using demo_run by blast
  show thesis
    by (rule that[of run]) (use run in \<open>simp_all add: metric_series_def group_all_def group_add_def push_back_def\<close>)
qed

theorem comparison_of_one_verified_build_witness:
  "\<exists>result. compare_runs (demo_evidence_context 0) [demo_evidence_request, demo_evidence_request] = Inr result
     \<and> (\<exists>runs. rmap (summarize_run (demo_evidence_context 0)) [demo_evidence_request, demo_evidence_request] = Inr runs
          \<and> ni_build_record_id (nr_identity (hd runs)) = Some (cr_build_record_id result))"
proof -
  obtain run where run: "rmap (summarize_run (demo_evidence_context 0)) [demo_evidence_request, demo_evidence_request] = Inr [run, run]"
    "ni_identity_verification (nr_identity run) = ''verified''"
    "metric_series [run, run] = [(series_key (hd (nr_datasets run)) ''calls'', [0, 0])]" by (rule demo_runs)
  have "summarize_run (demo_evidence_context 0) demo_evidence_request = Inr run" using run(1) by (auto simp: rbind_Inr)
  then obtain id' where id': "ni_build_record_id (nr_identity run) = Some id'"
    using run_identity_verified summarize_run_Inr run(2) by blast
  have "\<exists>m. compare_metric (demo_ops 0) [0, 0] = Inr m"
    by (simp add: compare_metric_def from_samples_def from_samples_with_total_def f64_is_finite_def percentile_type7_def
        demo_ops_def unwrapped_def or_err_def Let_def)
  then have "\<exists>result. compare_runs (demo_evidence_context 0) [demo_evidence_request, demo_evidence_request] = Inr result"
    using run id' by (auto simp: compare_runs_def MAX_EVIDENCE_COMPARISON_RUNS_def unwrapped_def or_err_def same_run_identity_def
        demo_evidence_context_def simp del: rmap.simps)
  then obtain result where r: "compare_runs (demo_evidence_context 0) [demo_evidence_request, demo_evidence_request] = Inr result" by blast
  from comparison_of_one_verified_build[OF r] run(1) r show ?thesis by force
qed

lemma overflowing_mean_panics_comparison_witness:
  "compare_runs (demo_evidence_context 0x7FF0000000000000) [demo_evidence_request, demo_evidence_request] = Inl EvidencePanicked"
proof -
  let ?inf = "0x7FF0000000000000 :: u64"
  obtain run where run: "rmap (summarize_run (demo_evidence_context ?inf)) [demo_evidence_request, demo_evidence_request] = Inr [run, run]"
    "ni_identity_verification (nr_identity run) = ''verified''"
    "run_means run = [(series_key (hd (nr_datasets run)) ''calls'', ?inf)]"
    "metric_series [run, run] = [(series_key (hd (nr_datasets run)) ''calls'', [?inf, ?inf])]" by (rule demo_runs)
  show ?thesis
  proof (rule overflowing_mean_panics_comparison[OF _ _ run(1)])
    show "\<forall>r \<in> set [run, run]. ni_identity_verification (nr_identity r) = ''verified'' \<and> same_run_identity (hd [run, run]) r"
      using run(2) by (simp add: same_run_identity_def)
    show "\<forall>(key, vs) \<in> set (metric_series [run, run]). length vs = length [run, run]" by (simp add: run(4))
    show "run \<in> set [run, run]" by simp
    show "(series_key (hd (nr_datasets run)) ''calls'', ?inf) \<in> set (run_means run)" by (simp add: run(3))
    show "\<not> f64_is_finite ?inf" by (simp add: f64_is_finite_def drop_bit_eq_div)
  qed simp_all
qed

end
