(* ===== verification/Workspace_Integrity.thy ===== *)
theory Workspace_Integrity
  imports Atomic_Output
begin

text \<open>
  Workspace snapshots, their comparison, integrity baselines and checkpoints, from
  \<open>src/workspace_integrity.rs\<close>.  Running \<open>git\<close>, reading files, SHA-256 and the operating
  system's answers are the record \<open>integrity_host\<close>; a directory listing is a tree.  The
  session journal is in \<open>Integrity_Journal\<close>.
\<close>

section \<open>Data\<close>

definition MAX_INTEGRITY_ENTRIES :: nat where
  "MAX_INTEGRITY_ENTRIES = 250000"

definition MAX_INTEGRITY_BYTES :: u64 where
  "MAX_INTEGRITY_BYTES = 16 * 1024 * 1024 * 1024"

record file_identity =
  fi_tracked :: bool
  fi_git_object_kind :: "string option"
  fi_git_object_id :: "string option"
  fi_sha256 :: "string option"
  fi_size :: "u64 option"
  fi_status :: string

type_synonym records = "(string, file_identity) btree_map"

record workspace_snapshot =
  ws_root :: path
  ws_records :: records
  ws_digest :: string
  ws_preexisting_changes :: "string list"

datatype mutation_kind = Added | Modified | Deleted

record path_mutation =
  pm_relative_path :: string
  pm_change_kind :: mutation_kind
  pm_before :: "file_identity option"
  pm_after :: "file_identity option"

record integrity_delta =
  id_added :: "path_mutation list"
  id_modified :: "path_mutation list"
  id_deleted :: "path_mutation list"
  id_owned_paths :: "string list"
  id_current_digest :: string

record integrity_baseline =
  ib_snapshot :: workspace_snapshot
  ib_digest :: string
  ib_preexisting_changes :: "string list"

record integrity_checkpoint =
  ic_action :: string
  ic_baseline_digest :: string
  ic_current_digest :: string
  ic_added :: "string list"
  ic_modified :: "string list"
  ic_deleted :: "string list"
  ic_owned_paths :: "string list"

datatype integrity_error =
    IntegrityIo string
  | ScopeTooLarge
  | Violation "string list"
  | RecoveryRequired string
  | InvalidOwnedPath string
  | AtomicFailed atomic_error
  | SerializeFailed string

text \<open>A directory as \<open>read_dir\<close> lists it; an entry has a name that may not be UTF-8.\<close>

datatype dir_entry =
    DirEntry string "string option" "dir_entry list"
  | FileEntry string u64
  | OtherEntry string
  | BrokenEntry string

record integrity_host =
  ih_fs :: filesystem
  ih_is_dir :: "path \<Rightarrow> bool"
  ih_git :: "path \<Rightarrow> string list \<Rightarrow> string + git_output"
  ih_file :: "path \<Rightarrow> string + (string \<times> u64) option"
  ih_listing :: "path \<Rightarrow> dir_entry list"
  ih_digest :: "records \<Rightarrow> string"

text \<open>
  \<open>ih_file\<close> is what \<open>capture_identity\<close> asks of a path: an I/O error, nothing for a path that
  is not a regular file, or its SHA-256 digest and length.  \<open>BrokenEntry e\<close> is an entry, or
  the end of a listing, at which reading fails with \<open>e\<close>.
\<close>

section \<open>Capturing a snapshot\<close>

definition to_slashes :: "string \<Rightarrow> string" where
  "to_slashes s = replace_char (CHR 0x5C) (CHR 0x2F) s"

definition normalize_relative :: "filesystem \<Rightarrow> path \<Rightarrow> string" where
  "normalize_relative fs p = to_slashes (fs_display fs p)"

definition status_path :: "string \<Rightarrow> string option" where
  "status_path change =
     (case strip_prefix ''? '' change of Some p \<Rightarrow> Some p
      | None \<Rightarrow>
          if prefix ''1 '' change then skip_fields 8 (CHR 0x20) change
          else if prefix ''2 '' change then skip_fields 9 (CHR 0x20) change
          else None)"

definition capture_identity ::
    "integrity_host \<Rightarrow> path \<Rightarrow> bool \<Rightarrow> string option \<Rightarrow> string option \<Rightarrow> string option
     \<Rightarrow> integrity_error + file_identity" where
  "capture_identity h p tracked kind object st =
     rbind (map_err IntegrityIo (ih_file h p)) (\<lambda>content.
       Inr \<lparr>fi_tracked = tracked, fi_git_object_kind = kind, fi_git_object_id = object,
            fi_sha256 = map_option fst content, fi_size = map_option snd content,
            fi_status = (case st of Some s \<Rightarrow> s | None \<Rightarrow> ''clean'')\<rparr>)"

definition nonempty_fields :: "string \<Rightarrow> string list" where
  "nonempty_fields s = map from_utf8_lossy (filter (\<lambda>e. e \<noteq> []) (split_on (CHR 0x00) s))"

fun change_statuses :: "string list \<Rightarrow> (string, string) btree_map \<Rightarrow> (string, string) btree_map" where
  "change_statuses [] m = m"
| "change_statuses (c # cs) m =
     change_statuses cs (case status_path c of Some p \<Rightarrow> btree_insert (to_slashes p) c m | None \<Rightarrow> m)"

definition nth_field :: "string list \<Rightarrow> nat \<Rightarrow> string option" where
  "nth_field fs i = (if i < length fs then Some (fs ! i) else None)"

fun capture_tracked ::
    "integrity_host \<Rightarrow> path \<Rightarrow> (string, string) btree_map \<Rightarrow> string list \<Rightarrow> records
     \<Rightarrow> integrity_error + records" where
  "capture_tracked h root statuses [] records = Inr records"
| "capture_tracked h root statuses (entry # es) records =
     (case split_once (CHR 0x09) entry of
        None \<Rightarrow> capture_tracked h root statuses es records
      | Some (metadata, p) \<Rightarrow>
          let fields = split_whitespace metadata; relative = to_slashes p
          in rbind (capture_identity h (join root (fs_from_str (ih_fs h) p)) True
                      (nth_field fields 0) (nth_field fields 1) (map_of statuses relative))
               (\<lambda>identity.
                  let records = btree_insert relative identity records
                  in if length records > MAX_INTEGRITY_ENTRIES then Inl ScopeTooLarge
                     else capture_tracked h root statuses es records))"

fun capture_untracked ::
    "integrity_host \<Rightarrow> path \<Rightarrow> string list \<Rightarrow> records \<Rightarrow> integrity_error + records" where
  "capture_untracked h root [] records = Inr records"
| "capture_untracked h root (c # cs) records =
     (case strip_prefix ''? '' c of
        None \<Rightarrow> capture_untracked h root cs records
      | Some p \<Rightarrow>
          let relative = to_slashes p
          in rbind (capture_identity h (join root (fs_from_str (ih_fs h) relative)) False None None (Some c))
               (\<lambda>identity. capture_untracked h root cs (btree_insert relative identity records)))"

definition capture_git_records ::
    "integrity_host \<Rightarrow> path \<Rightarrow> string \<Rightarrow> integrity_error + (records \<times> string list)" where
  "capture_git_records h root status_bytes =
     (let changes = nonempty_fields status_bytes; statuses = change_statuses changes []
      in rbind (map_err IntegrityIo (ih_git h root [''ls-files'', ''-s'', ''-z''])) (\<lambda>tracked.
         rbind (capture_tracked h root statuses (nonempty_fields (go_stdout tracked)) []) (\<lambda>records.
         rbind (capture_untracked h root changes records) (\<lambda>records.
         Inr (records, changes)))))"

text \<open>The state of \<open>visit_files\<close> is the records and the bytes seen so far.\<close>

fun visit_files ::
    "integrity_host \<Rightarrow> path \<Rightarrow> path \<Rightarrow> dir_entry list \<Rightarrow> records \<Rightarrow> u64
     \<Rightarrow> integrity_error + (records \<times> u64)" where
  "visit_files h root directory [] records total_bytes = Inr (records, total_bytes)"
| "visit_files h root directory (DirEntry name utf8 entries # es) records total_bytes =
     (if utf8 \<in> {Some ''.git'', Some ''target'', Some ''.meridian-tracy-diagnostics''}
      then visit_files h root directory es records total_bytes
      else rbind (visit_files h root (join_name directory name) entries records total_bytes)
             (\<lambda>(records, total_bytes). visit_files h root directory es records total_bytes))"
| "visit_files h root directory (FileEntry name len # es) records total_bytes =
     (let total_bytes = sat_add64 total_bytes len; p = join_name directory name
      in if length records \<ge> MAX_INTEGRITY_ENTRIES \<or> total_bytes > MAX_INTEGRITY_BYTES
         then Inl ScopeTooLarge
         else rbind (capture_identity h p False None None None)
                (\<lambda>identity. visit_files h root directory es
                   (btree_insert (normalize_relative (ih_fs h) (drop (length root) p)) identity records)
                   total_bytes))"
| "visit_files h root directory (OtherEntry name # es) records total_bytes =
     visit_files h root directory es records total_bytes"
| "visit_files h root directory (BrokenEntry e # es) records total_bytes = Inl (IntegrityIo e)"

definition capture_records ::
    "integrity_host \<Rightarrow> path \<Rightarrow> integrity_error + (records \<times> string list)" where
  "capture_records h root =
     (case ih_git h root [''status'', ''--porcelain=v2'', ''-z'', ''--untracked-files=all''] of
        Inr st \<Rightarrow>
          if go_success st then capture_git_records h root (go_stdout st)
          else rbind (visit_files h root root (ih_listing h root) [] 0) (\<lambda>(records, _). Inr (records, []))
      | Inl _ \<Rightarrow> rbind (visit_files h root root (ih_listing h root) [] 0) (\<lambda>(records, _). Inr (records, [])))"

definition capture_snapshot :: "integrity_host \<Rightarrow> path \<Rightarrow> integrity_error + workspace_snapshot" where
  "capture_snapshot h root =
     rbind (map_err IntegrityIo (fs_canonicalize (ih_fs h) root)) (\<lambda>root.
     rbind (capture_records h root) (\<lambda>(records, preexisting).
     Inr \<lparr>ws_root = root, ws_records = records, ws_digest = ih_digest h records,
          ws_preexisting_changes = preexisting\<rparr>))"

section \<open>Comparison\<close>

definition path_strip_prefix :: "path \<Rightarrow> path \<Rightarrow> path option" where
  "path_strip_prefix p base = (if path_starts_with p base then Some (drop (length base) p) else None)"

fun owned_relatives ::
    "integrity_host \<Rightarrow> path \<Rightarrow> path list \<Rightarrow> (string, unit) btree_map
     \<Rightarrow> integrity_error + (string, unit) btree_map" where
  "owned_relatives h root [] owned = Inr owned"
| "owned_relatives h root (p # ps) owned =
     (if ih_is_dir h p then Inl (InvalidOwnedPath (fs_display (ih_fs h) p))
      else
        let absolute = (if is_absolute p then p else join root p);
            absolute = (case fs_canonicalize (ih_fs h) absolute of Inr c \<Rightarrow> c | Inl _ \<Rightarrow> absolute)
        in case path_strip_prefix absolute root of
             Some relative \<Rightarrow>
               owned_relatives h root ps (btree_insert (normalize_relative (ih_fs h) relative) () owned)
           | None \<Rightarrow>
               if is_absolute p then owned_relatives h root ps owned
               else Inl (InvalidOwnedPath (fs_display (ih_fs h) p)))"

text \<open>The two loops: over the current records, and over the baseline's.\<close>

definition mutation ::
    "string \<Rightarrow> mutation_kind \<Rightarrow> file_identity option \<Rightarrow> file_identity option \<Rightarrow> path_mutation" where
  "mutation p k b a = \<lparr>pm_relative_path = p, pm_change_kind = k, pm_before = b, pm_after = a\<rparr>"

definition added_mutations :: "string set \<Rightarrow> records \<Rightarrow> records \<Rightarrow> path_mutation list" where
  "added_mutations owned baseline current =
     List.map_filter (\<lambda>(p, after). if p \<in> owned then None
       else case map_of baseline p of None \<Rightarrow> Some (mutation p Added None (Some after)) | Some _ \<Rightarrow> None)
     current"

definition modified_mutations :: "string set \<Rightarrow> records \<Rightarrow> records \<Rightarrow> path_mutation list" where
  "modified_mutations owned baseline current =
     List.map_filter (\<lambda>(p, after). if p \<in> owned then None
       else case map_of baseline p of None \<Rightarrow> None
         | Some b \<Rightarrow> if b \<noteq> after then Some (mutation p Modified (Some b) (Some after)) else None)
     current"

definition deleted_mutations :: "string set \<Rightarrow> records \<Rightarrow> records \<Rightarrow> path_mutation list" where
  "deleted_mutations owned baseline current =
     List.map_filter (\<lambda>(p, b). if p \<notin> owned \<and> map_of current p = None
       then Some (mutation p Deleted (Some b) None) else None)
     baseline"

definition compare_snapshots ::
    "integrity_host \<Rightarrow> workspace_snapshot \<Rightarrow> workspace_snapshot \<Rightarrow> path list
     \<Rightarrow> integrity_error + integrity_delta" where
  "compare_snapshots h baseline current owned_paths =
     (if ws_root baseline \<noteq> ws_root current then Inl (InvalidOwnedPath ''snapshot roots differ'')
      else rbind (owned_relatives h (ws_root baseline) owned_paths []) (\<lambda>owned.
        let names = set (map fst owned) in
        Inr \<lparr>id_added = added_mutations names (ws_records baseline) (ws_records current),
             id_modified = modified_mutations names (ws_records baseline) (ws_records current),
             id_deleted = deleted_mutations names (ws_records baseline) (ws_records current),
             id_owned_paths = map fst owned, id_current_digest = ws_digest current\<rparr>))"

section \<open>Baselines and checkpoints\<close>

definition capture_baseline :: "integrity_host \<Rightarrow> path \<Rightarrow> integrity_error + integrity_baseline" where
  "capture_baseline h root =
     rbind (capture_snapshot h root) (\<lambda>snapshot.
       Inr \<lparr>ib_snapshot = snapshot, ib_digest = ws_digest snapshot,
            ib_preexisting_changes = ws_preexisting_changes snapshot\<rparr>)"

definition checkpoint_of ::
    "integrity_baseline \<Rightarrow> string \<Rightarrow> integrity_delta \<Rightarrow> integrity_checkpoint" where
  "checkpoint_of b action delta =
     \<lparr>ic_action = action, ic_baseline_digest = ib_digest b,
      ic_current_digest = id_current_digest delta,
      ic_added = map pm_relative_path (id_added delta),
      ic_modified = map pm_relative_path (id_modified delta),
      ic_deleted = map pm_relative_path (id_deleted delta),
      ic_owned_paths = id_owned_paths delta\<rparr>"

definition checkpoint ::
    "integrity_host \<Rightarrow> integrity_baseline \<Rightarrow> string \<Rightarrow> path list
     \<Rightarrow> integrity_error + integrity_checkpoint" where
  "checkpoint h b action owned_paths =
     rbind (capture_snapshot h (ws_root (ib_snapshot b))) (\<lambda>current.
     rbind (compare_snapshots h (ib_snapshot b) current owned_paths) (\<lambda>delta.
       let c = checkpoint_of b action delta;
           violations = ic_added c @ ic_modified c @ ic_deleted c
       in if violations = [] then Inr c else Inl (Violation violations)))"

section \<open>Lemmas\<close>

text \<open>The paths of the entries a comparison reports.\<close>

lemma map_filter_paths:
  assumes "\<And>p v m. f (p, v) = Some m \<Longrightarrow> g m = p"
  shows "p \<in> g ` set (List.map_filter f xs) \<longleftrightarrow> (\<exists>v. (p, v) \<in> set xs \<and> f (p, v) \<noteq> None)"
proof (induction xs)
  case (Cons x xs)
  obtain q v where x: "x = (q, v)" by fastforce
  show ?case
  proof (cases "f x")
    case None
    with Cons x show ?thesis by (auto simp: map_filter_simps)
  next
    case (Some m)
    with assms x have "g m = q" by auto
    with Cons x Some show ?thesis by (auto simp: map_filter_simps)
  qed
qed (simp add: map_filter_simps)

lemma added_paths:
  assumes "btree current"
  shows "p \<in> pm_relative_path ` set (added_mutations owned baseline current) \<longleftrightarrow>
     p \<notin> owned \<and> map_of baseline p = None \<and> map_of current p \<noteq> None"
  unfolding added_mutations_def
  by (subst map_filter_paths[where g = pm_relative_path])
    (auto simp: mutation_def btree_map_of_set[OF assms] split: if_splits option.splits)

lemma modified_paths:
  assumes "btree current"
  shows "p \<in> pm_relative_path ` set (modified_mutations owned baseline current) \<longleftrightarrow>
     p \<notin> owned \<and> (\<exists>x y. map_of baseline p = Some x \<and> map_of current p = Some y \<and> x \<noteq> y)"
proof -
  have "p \<in> pm_relative_path ` set (modified_mutations owned baseline current) \<longleftrightarrow>
     (\<exists>y. map_of current p = Some y \<and> (if p \<in> owned then None
       else case map_of baseline p of None \<Rightarrow> None
         | Some b \<Rightarrow> if b \<noteq> y then Some (mutation p Modified (Some b) (Some y)) else None) \<noteq> None)"
    unfolding modified_mutations_def
    by (subst map_filter_paths[where g = pm_relative_path])
      (auto simp: mutation_def btree_map_of_set[OF assms] split: if_splits option.splits)
  then show ?thesis by (cases "map_of baseline p") auto
qed

lemma deleted_paths:
  assumes "btree baseline"
  shows "p \<in> pm_relative_path ` set (deleted_mutations owned baseline current) \<longleftrightarrow>
     p \<notin> owned \<and> map_of baseline p \<noteq> None \<and> map_of current p = None"
  unfolding deleted_mutations_def
  by (subst map_filter_paths[where g = pm_relative_path])
    (auto simp: mutation_def btree_map_of_set[OF assms] split: if_splits option.splits)

text \<open>Nothing is reported exactly when the records agree outside the owned paths.\<close>

lemma no_mutations:
  assumes "btree baseline" "btree current"
  shows "added_mutations owned baseline current = [] \<and> modified_mutations owned baseline current = []
     \<and> deleted_mutations owned baseline current = []
   \<longleftrightarrow> (\<forall>p. p \<notin> owned \<longrightarrow> map_of baseline p = map_of current p)"
proof -
  have nil: "xs = [] \<longleftrightarrow> (\<forall>p. p \<notin> pm_relative_path ` set xs)" for xs by auto
  show ?thesis
    unfolding nil added_paths[OF assms(2)] modified_paths[OF assms(2)] deleted_paths[OF assms(1)]
    by (auto, metis option.exhaust)
qed

lemma capture_identity_Inr:
  "capture_identity h p tracked k obj s = Inr i \<Longrightarrow> fi_tracked i = tracked"
  by (auto simp: capture_identity_def result_Inr)

lemma capture_tracked_btree:
  "capture_tracked h root st es m = Inr m' \<Longrightarrow> btree m \<Longrightarrow> btree m'"
  by (induction h root st es m rule: capture_tracked.induct)
    (auto simp: result_Inr Let_def btree_btree_insert split: option.splits if_splits)

lemma capture_untracked_btree:
  "capture_untracked h root cs m = Inr m' \<Longrightarrow> btree m \<Longrightarrow> btree m'"
  by (induction h root cs m rule: capture_untracked.induct)
    (auto simp: result_Inr Let_def btree_btree_insert split: option.splits)

lemma visit_files_btree:
  "visit_files h root d es m n = Inr (m', n') \<Longrightarrow> btree m \<Longrightarrow> btree m'"
  by (induction h root d es m n arbitrary: m' n' rule: visit_files.induct)
    (auto simp: result_Inr Let_def btree_btree_insert split: if_splits)

lemma capture_records_btree: "capture_records h root = Inr (m, cs) \<Longrightarrow> btree m"
  by (auto simp: capture_records_def capture_git_records_def result_Inr Let_def
      split: sum.splits if_splits dest!: capture_tracked_btree capture_untracked_btree visit_files_btree)

lemma capture_snapshot_Inr:
  assumes "capture_snapshot h root = Inr s"
  shows "btree (ws_records s)" "fs_canonicalize (ih_fs h) root = Inr (ws_root s)"
    "capture_records h (ws_root s) = Inr (ws_records s, ws_preexisting_changes s)"
    "ws_digest s = ih_digest h (ws_records s)"
  using assms by (auto simp: capture_snapshot_def result_Inr dest: capture_records_btree)


lemma capture_tracked_dom:
  "capture_tracked h root st es m = Inr m' \<Longrightarrow>
   dom (map_of m') = dom (map_of m) \<union> {to_slashes p | e d p. e \<in> set es \<and> split_once (CHR 0x09) e = Some (d, p)}"
proof (induction h root st es m rule: capture_tracked.induct)
  case (2 h root st e es m)
  show ?case
  proof (cases "split_once (CHR 0x09) e")
    case None
    with 2 show ?thesis by auto
  next
    case (Some dp)
    obtain d p where dp: "dp = (d, p)" by fastforce
    with Some 2(3) obtain i where "\<not> MAX_INTEGRITY_ENTRIES < length (btree_insert (to_slashes p) i m)"
      "capture_tracked h root st es (btree_insert (to_slashes p) i m) = Inr m'"
      by (auto simp: result_Inr Let_def split: if_splits)
    moreover from this have "dom (map_of m') = dom (map_of (btree_insert (to_slashes p) i m))
        \<union> {to_slashes p | e d p. e \<in> set es \<and> split_once (CHR 0x09) e = Some (d, p)}"
      by (intro 2(2)[OF Some dp[symmetric] refl refl refl]) simp_all
    ultimately show ?thesis using Some dp unfolding dom_btree_insert by auto
  qed
qed simp

lemma capture_untracked_dom:
  "capture_untracked h root cs m = Inr m' \<Longrightarrow>
   dom (map_of m') = dom (map_of m) \<union> {to_slashes p | c p. c \<in> set cs \<and> strip_prefix ''? '' c = Some p}"
proof (induction h root cs m rule: capture_untracked.induct)
  case (2 h root c cs m)
  show ?case
  proof (cases "strip_prefix ''? '' c")
    case None
    with 2 show ?thesis by auto
  next
    case (Some p)
    with 2(3) obtain i where "capture_untracked h root cs (btree_insert (to_slashes p) i m) = Inr m'"
      by (auto simp: result_Inr Let_def)
    from 2(2)[OF Some refl this] Some show ?thesis unfolding dom_btree_insert by auto
  qed
qed simp

section \<open>Properties\<close>

text \<open>
  C10. A checkpoint is a sound and complete comparison with the baseline: when a fresh
  snapshot of the workspace can be taken, it succeeds iff every path that is not owned has
  the same record, or none, in both snapshots, and otherwise it reports exactly the paths
  that differ.
\<close>

theorem checkpoint_detects_every_change:
  assumes "capture_baseline h0 root = Inr b"
    and "capture_snapshot h (ws_root (ib_snapshot b)) = Inr current"
    and "ws_root current = ws_root (ib_snapshot b)"
    and "owned_relatives h (ws_root (ib_snapshot b)) owned_paths [] = Inr owned"
  shows "case checkpoint h b action owned_paths of
      Inr c \<Rightarrow> (\<forall>p. p \<notin> fst ` set owned \<longrightarrow>
             map_of (ws_records (ib_snapshot b)) p = map_of (ws_records current) p)
           \<and> ic_current_digest c = ws_digest current \<and> ic_owned_paths c = map fst owned
    | Inl e \<Rightarrow> \<exists>vs. e = Violation vs \<and> vs \<noteq> [] \<and>
           set vs = {p. p \<notin> fst ` set owned \<and>
             map_of (ws_records (ib_snapshot b)) p \<noteq> map_of (ws_records current) p}"
proof -
  let ?o = "fst ` set owned" and ?b = "ws_records (ib_snapshot b)" and ?c = "ws_records current"
  have b: "btree ?b" using assms(1) capture_snapshot_Inr(1)
    by (auto simp: capture_baseline_def result_Inr)
  have c: "btree ?c" using assms(2) by (rule capture_snapshot_Inr(1))
  define d where "d = \<lparr>id_added = added_mutations ?o ?b ?c, id_modified = modified_mutations ?o ?b ?c,
      id_deleted = deleted_mutations ?o ?b ?c, id_owned_paths = map fst owned,
      id_current_digest = ws_digest current\<rparr>"
  then have d: "compare_snapshots h (ib_snapshot b) current owned_paths = Inr d"
    "id_added d = added_mutations ?o ?b ?c" "id_modified d = modified_mutations ?o ?b ?c"
    "id_deleted d = deleted_mutations ?o ?b ?c" "id_owned_paths d = map fst owned"
    "id_current_digest d = ws_digest current"
    using assms(3,4) unfolding d_def by (simp_all add: compare_snapshots_def Let_def)
  let ?vs = "map pm_relative_path (id_added d) @ map pm_relative_path (id_modified d)
      @ map pm_relative_path (id_deleted d)"
  have run: "checkpoint h b action owned_paths =
      (if ?vs = [] then Inr (checkpoint_of b action d) else Inl (Violation ?vs))"
    using assms(2) d(1) by (simp add: checkpoint_def Let_def checkpoint_of_def)
  have nil: "?vs = [] \<longleftrightarrow> (\<forall>p. p \<notin> ?o \<longrightarrow> map_of ?b p = map_of ?c p)"
    using no_mutations[OF b c, of ?o] d by simp
  have "p \<in> set ?vs \<longleftrightarrow> p \<notin> ?o \<and> map_of ?b p \<noteq> map_of ?c p" for p
    using added_paths[OF c, of p ?o ?b] modified_paths[OF c, of p ?o ?b] deleted_paths[OF b, of p ?o ?c] d
    by (cases "map_of ?b p"; cases "map_of ?c p") (auto simp: image_Un)
  then show ?thesis
    unfolding run using nil d by (auto simp: checkpoint_of_def)
qed

text \<open>
  A Git snapshot covers exactly what Git reports: its records are the tracked files of
  \<open>ls-files\<close> and the untracked files of \<open>status\<close>, in path order, and the changes that existed
  before are Git's status entries.
\<close>

lemma git_snapshot_covers_git:
  assumes "ih_git h root [''ls-files'', ''-s'', ''-z''] = Inr listed"
    and "capture_git_records h root status_bytes = Inr (records, changes)"
  shows "btree records \<and> changes = nonempty_fields status_bytes
    \<and> dom (map_of records) =
        {to_slashes p | e d p. e \<in> set (nonempty_fields (go_stdout listed)) \<and>
            split_once (CHR 0x09) e = Some (d, p)}
        \<union> {to_slashes p | c p. c \<in> set changes \<and> strip_prefix ''? '' c = Some p}"
proof -
  obtain m where m: "capture_tracked h root (change_statuses (nonempty_fields status_bytes) [])
      (nonempty_fields (go_stdout listed)) [] = Inr m"
    "capture_untracked h root (nonempty_fields status_bytes) m = Inr records"
    "changes = nonempty_fields status_bytes"
    using assms by (auto simp: capture_git_records_def result_Inr Let_def)
  from capture_tracked_dom[OF m(1)] capture_untracked_dom[OF m(2)] m(3)
    capture_untracked_btree[OF m(2) capture_tracked_btree[OF m(1)]]
  show ?thesis by auto
qed

text \<open>A Git workspace with the tracked file \<open>a\<close> and the untracked file \<open>b\<close>, before and after \<open>a\<close> changed.\<close>

definition demo_integrity :: "string \<Rightarrow> integrity_host" where
  "demo_integrity digest = \<lparr>ih_fs = (h_fs demo_host)\<lparr>fs_canonicalize := Inr,
       fs_from_str := (\<lambda>s. [Normal s]),
       fs_display := (\<lambda>p. case file_name p of Some s \<Rightarrow> s | None \<Rightarrow> [])\<rparr>,
     ih_is_dir = (\<lambda>_. False),
     ih_git = (\<lambda>_ args. if hd args = ''ls-files''
       then Inr \<lparr>go_success = True,
              go_stdout = ''100644 x'' @ CHR 0x09 # ''a'' @ [CHR 0x00], go_stderr = []\<rparr>
       else Inr \<lparr>go_success = True, go_stdout = ''? b'' @ [CHR 0x00], go_stderr = []\<rparr>),
     ih_file = (\<lambda>p. Inr (Some (if file_name p = Some ''a'' then digest else ''d'', 1))),
     ih_listing = (\<lambda>_. []), ih_digest = (\<lambda>_. ''h'')\<rparr>"

definition demo_records :: "string \<Rightarrow> records" where
  "demo_records digest =
     [(''a'', \<lparr>fi_tracked = True, fi_git_object_kind = Some ''100644'', fi_git_object_id = Some ''x'',
              fi_sha256 = Some digest, fi_size = Some 1, fi_status = ''clean''\<rparr>),
      (''b'', \<lparr>fi_tracked = False, fi_git_object_kind = None, fi_git_object_id = None,
              fi_sha256 = Some ''d'', fi_size = Some 1, fi_status = ''? b''\<rparr>)]"

definition demo_snapshot :: "string \<Rightarrow> workspace_snapshot" where
  "demo_snapshot digest = \<lparr>ws_root = demo_path ''w'', ws_records = demo_records digest,
     ws_digest = ''h'', ws_preexisting_changes = [''? b'']\<rparr>"

definition demo_listed :: string where
  "demo_listed = ''100644 x'' @ CHR 0x09 # ''a'' @ [CHR 0x00]"

definition demo_status :: string where
  "demo_status = ''? b'' @ [CHR 0x00]"

lemma demo_fields:
  "nonempty_fields demo_listed = [''100644 x'' @ CHR 0x09 # ''a'']"
  "nonempty_fields demo_status = [''? b'']"
  "change_statuses [''? b''] [] = [(''b'', ''? b'')]"
  "split_once (CHR 0x09) (''100644 x'' @ CHR 0x09 # ''a'') = Some (''100644 x'', ''a'')"
  "split_whitespace ''100644 x'' = [''100644'', ''x'']"
  "status_path ''? b'' = Some ''b''"
  "strip_prefix ''? '' ''? b'' = Some ''b''" "to_slashes ''a'' = ''a''" "to_slashes ''b'' = ''b''"
  by code_simp+

lemma demo_git_answers:
  "ih_git (demo_integrity d) r [''ls-files'', ''-s'', ''-z'']
     = Inr \<lparr>go_success = True, go_stdout = demo_listed, go_stderr = []\<rparr>"
  "ih_git (demo_integrity d) r [''status'', ''--porcelain=v2'', ''-z'', ''--untracked-files=all'']
     = Inr \<lparr>go_success = True, go_stdout = demo_status, go_stderr = []\<rparr>"
  by (simp_all add: demo_integrity_def demo_listed_def demo_status_def)

lemma demo_identity:
  "capture_identity (demo_integrity d) (join r (fs_from_str (ih_fs (demo_integrity d)) ''a'')) t k x s
     = Inr \<lparr>fi_tracked = t, fi_git_object_kind = k, fi_git_object_id = x, fi_sha256 = Some d,
            fi_size = Some 1, fi_status = (case s of Some s \<Rightarrow> s | None \<Rightarrow> ''clean'')\<rparr>"
  "capture_identity (demo_integrity d) (join r (fs_from_str (ih_fs (demo_integrity d)) ''b'')) t k x s
     = Inr \<lparr>fi_tracked = t, fi_git_object_kind = k, fi_git_object_id = x, fi_sha256 = Some ''d'',
            fi_size = Some 1, fi_status = (case s of Some s \<Rightarrow> s | None \<Rightarrow> ''clean'')\<rparr>"
  by (simp_all add: capture_identity_def demo_integrity_def join_def file_name_def map_err_def)

lemma demo_git: "capture_git_records (demo_integrity d) r demo_status = Inr (demo_records d, [''? b''])"
proof -
  have "(''a'' :: string) < ''b''" "\<not> (''b'' :: string) < ''a''" by code_simp+
  then show ?thesis
    unfolding capture_git_records_def demo_git_answers
    by (simp del: change_statuses.simps add: Let_def demo_fields[unfolded append.simps] demo_fields demo_identity nth_field_def
        MAX_INTEGRITY_ENTRIES_def demo_records_def map_err_def)
qed

lemma demo_snapshot: "capture_snapshot (demo_integrity d) (demo_path ''w'') = Inr (demo_snapshot d)"
proof -
  have "capture_records (demo_integrity d) (demo_path ''w'') = Inr (demo_records d, [''? b''])"
    unfolding capture_records_def demo_git_answers by (simp add: demo_git)
  then show ?thesis
    by (simp add: capture_snapshot_def demo_snapshot_def map_err_def)
      (simp add: demo_integrity_def)
qed

lemma demo_root_eq: "ws_root (demo_snapshot d) = demo_path ''w''"
  by (simp add: demo_snapshot_def)

theorem checkpoint_detects_every_change_witness:
  "\<exists>vs. checkpoint (demo_integrity ''1'')
       \<lparr>ib_snapshot = demo_snapshot ''0'', ib_digest = ''h'', ib_preexisting_changes = [''? b'']\<rparr> ''run'' []
     = Inl (Violation vs) \<and> set vs = {''a''}"
proof -
  let ?b = "\<lparr>ib_snapshot = demo_snapshot ''0'', ib_digest = ''h'', ib_preexisting_changes = [''? b'']\<rparr>"
  have b: "capture_baseline (demo_integrity ''0'') (demo_path ''w'') = Inr ?b"
    by (simp add: capture_baseline_def demo_snapshot) (simp add: demo_snapshot_def)
  have root: "ws_root (ib_snapshot ?b) = demo_path ''w''" by (simp add: demo_snapshot_def)
  have differ: "map_of (ws_records (demo_snapshot ''0'')) p \<noteq> map_of (ws_records (demo_snapshot ''1'')) p
      \<longleftrightarrow> p = ''a''" for p
    by (simp add: demo_snapshot_def demo_records_def)
  have "case checkpoint (demo_integrity ''1'') ?b ''run'' [] of
      Inr c \<Rightarrow> (\<forall>p. p \<notin> fst ` set ([] :: (string \<times> unit) list) \<longrightarrow>
             map_of (ws_records (ib_snapshot ?b)) p = map_of (ws_records (demo_snapshot ''1'')) p)
           \<and> ic_current_digest c = ws_digest (demo_snapshot ''1'') \<and> ic_owned_paths c = map fst ([] :: (string \<times> unit) list)
    | Inl e \<Rightarrow> \<exists>vs. e = Violation vs \<and> vs \<noteq> [] \<and>
           set vs = {p. p \<notin> fst ` set ([] :: (string \<times> unit) list) \<and>
             map_of (ws_records (ib_snapshot ?b)) p \<noteq> map_of (ws_records (demo_snapshot ''1'')) p}"
    by (rule checkpoint_detects_every_change[OF b])
      (simp_all add: root demo_snapshot demo_root_eq)
  then show ?thesis
    using differ by (cases "checkpoint (demo_integrity ''1'') ?b ''run'' []") auto
qed

lemma git_snapshot_covers_git_witness:
  "dom (map_of (demo_records ''0'')) =
     {to_slashes p | e d p. e \<in> set (nonempty_fields demo_listed) \<and> split_once (CHR 0x09) e = Some (d, p)}
     \<union> {to_slashes p | c p. c \<in> set [''? b''] \<and> strip_prefix ''? '' c = Some p}"
  using git_snapshot_covers_git[OF demo_git_answers(1) demo_git]
  unfolding git_output.select_convs by blast

end
