(* ===== verification/Integrity_Journal.thy ===== *)
theory Integrity_Journal
  imports Workspace_Integrity
begin

text \<open>
  The session journal of \<open>src/workspace_integrity.rs\<close>: a document in memory that every
  operation writes atomically to \<open>.meridian-tracy-session.json\<close>.  The JSON encoding of the
  document (\<open>serde_json\<close>) is a parameter, as are the short writes of \<open>write_all\<close>.
\<close>

section \<open>Data\<close>

datatype journal_status_kind = JournalActive | JournalFinalized

record journal_document =
  jd_schema :: "32 word"
  jd_journal_id :: string
  jd_status :: journal_status_kind
  jd_baseline_digest :: string
  jd_preexisting_change_count :: u64
  jd_last_action :: string
  jd_checkpoints :: "integrity_checkpoint list"

record integrity_journal =
  jn_path :: path
  jn_document :: journal_document

record journal_summary =
  js_journal_id :: string
  js_status :: journal_status_kind
  js_last_action :: string
  js_checkpoint_count :: u64

text \<open>
  \<open>jh_write_fault n\<close> is a failure of the \<open>write_all\<close> made when the disk's clock is \<open>n\<close>: the
  number of bytes that reached the file, and the error.
\<close>

record journal_host =
  jh_disk :: disk_host
  jh_to_bytes :: "journal_document \<Rightarrow> string + string"
  jh_from_slice :: "string \<Rightarrow> string + journal_document"
  jh_write_fault :: "nat \<Rightarrow> (nat \<times> string) option"

section \<open>Operations\<close>

definition act_map_err :: "('e \<Rightarrow> 'f) \<Rightarrow> ('s \<Rightarrow> ('e + 'a) \<times> 's) \<Rightarrow> 's \<Rightarrow> ('f + 'a) \<times> 's" where
  "act_map_err f m s = (case m s of (r, s) \<Rightarrow> (map_err f r, s))"

definition write_all :: "journal_host \<Rightarrow> string \<Rightarrow> disk \<Rightarrow> file_writer" where
  "write_all h bytes d =
     (case jh_write_fault h (dk_clock d) of None \<Rightarrow> (bytes, None)
      | Some (n, e) \<Rightarrow> (take n bytes, Some (AtomicIo e)))"

definition persist_journal ::
    "journal_host \<Rightarrow> path_policy \<Rightarrow> path \<Rightarrow> bool \<Rightarrow> journal_document \<Rightarrow> disk
     \<Rightarrow> (integrity_error + path) \<times> disk" where
  "persist_journal h pol p overwrite document =
     act_bind (act_return (map_err SerializeFailed (jh_to_bytes h document))) (\<lambda>bytes d.
     act_bind (act_map_err AtomicFailed
         (write_atomic (jh_disk h) pol p overwrite (write_all h (bytes @ [CHR 0x0A]) d))) (\<lambda>artifact.
     act_return (Inr (oa_path artifact))) d)"

definition random_id :: "journal_host \<Rightarrow> disk \<Rightarrow> (integrity_error + string) \<times> disk" where
  "random_id h d = (map_err IntegrityIo (dh_random (jh_disk h) (dk_clock d)), tick d)"

definition read_journal :: "journal_host \<Rightarrow> path \<Rightarrow> disk \<Rightarrow> (integrity_error + string) \<times> disk" where
  "read_journal h p =
     act_map_err (\<lambda>e. case e of AtomicIo e \<Rightarrow> IntegrityIo e | e \<Rightarrow> AtomicFailed e)
       (sys (jh_disk h) (read_node p))"

text \<open>Whether an existing journal may be replaced.\<close>

definition check_previous ::
    "journal_host \<Rightarrow> path \<Rightarrow> disk \<Rightarrow> (integrity_error + bool) \<times> disk" where
  "check_previous h p d =
     (case path_is_file (jh_disk h) p d of (present, d) \<Rightarrow>
        if present then
          act_bind (read_journal h p) (\<lambda>bytes.
          act_bind (act_return (map_err SerializeFailed (jh_from_slice h bytes))) (\<lambda>existing.
          act_return (if jd_status existing \<noteq> JournalFinalized
            then Inl (RecoveryRequired (jd_last_action existing)) else Inr True))) d
        else (Inr False, d))"

definition journal_create ::
    "journal_host \<Rightarrow> path_policy \<Rightarrow> path \<Rightarrow> integrity_baseline \<Rightarrow> disk
     \<Rightarrow> (integrity_error + integrity_journal) \<times> disk" where
  "journal_create h pol evidence_directory baseline =
     (let p = join_name evidence_directory ''.meridian-tracy-session.json'' in
      act_bind (check_previous h p) (\<lambda>overwrite.
      act_bind (random_id h) (\<lambda>journal_id.
        let document = \<lparr>jd_schema = 1, jd_journal_id = journal_id, jd_status = JournalActive,
          jd_baseline_digest = ib_digest baseline,
          jd_preexisting_change_count = word_of_nat (length (ib_preexisting_changes baseline)),
          jd_last_action = ''baseline_captured'', jd_checkpoints = []\<rparr> in
      act_bind (persist_journal h pol p overwrite document) (\<lambda>p.
      act_return (Inr \<lparr>jn_path = p, jn_document = document\<rparr>)))))"

definition journal_status :: "integrity_journal \<Rightarrow> journal_status_kind" where
  "journal_status j = jd_status (jn_document j)"

definition journal_summary_of :: "integrity_journal \<Rightarrow> journal_summary" where
  "journal_summary_of j = \<lparr>js_journal_id = jd_journal_id (jn_document j),
     js_status = jd_status (jn_document j), js_last_action = jd_last_action (jn_document j),
     js_checkpoint_count = word_of_nat (length (jd_checkpoints (jn_document j)))\<rparr>"

text \<open>
  An operation on a journal changes the document in memory first and then writes it; the
  journal keeps the changed document when writing fails.
\<close>

definition journal_save ::
    "journal_host \<Rightarrow> path_policy \<Rightarrow> integrity_journal \<Rightarrow> disk
     \<Rightarrow> (integrity_error + unit) \<times> integrity_journal \<times> disk" where
  "journal_save h pol j d =
     (case persist_journal h pol (jn_path j) True (jn_document j) d of
        (Inl e, d) \<Rightarrow> (Inl e, j, d)
      | (Inr p, d) \<Rightarrow> (Inr (), j\<lparr>jn_path := p\<rparr>, d))"

definition journal_record ::
    "journal_host \<Rightarrow> path_policy \<Rightarrow> integrity_checkpoint \<Rightarrow> integrity_journal \<Rightarrow> disk
     \<Rightarrow> (integrity_error + unit) \<times> integrity_journal \<times> disk" where
  "journal_record h pol c j =
     journal_save h pol (j\<lparr>jn_document := (jn_document j)\<lparr>jd_last_action := ic_action c,
       jd_checkpoints := jd_checkpoints (jn_document j) @ [c]\<rparr>\<rparr>)"

definition journal_finalize ::
    "journal_host \<Rightarrow> path_policy \<Rightarrow> integrity_journal \<Rightarrow> disk
     \<Rightarrow> (integrity_error + unit) \<times> integrity_journal \<times> disk" where
  "journal_finalize h pol j =
     journal_save h pol (j\<lparr>jn_document := (jn_document j)\<lparr>jd_status := JournalFinalized,
       jd_last_action := ''finalized''\<rparr>\<rparr>)"

section \<open>The document on disk\<close>

definition stored :: "journal_host \<Rightarrow> nodes \<Rightarrow> path \<Rightarrow> journal_document option" where
  "stored h ns p =
     (case ns p of Some (Regular c) \<Rightarrow> ok (jh_from_slice h c) | _ \<Rightarrow> None)"

text \<open>
  What the journal relies on: \<open>serde_json\<close> reads back what it wrote, and \<open>canonicalize\<close>
  resolves symbolic links only: where no component of the journal's path is a link, it answers
  the path itself whenever it succeeds, and so for the directory.  It may fail, as it does for
  a file that is not there.  The journal is not inside a private temporary.
\<close>

definition reads_back :: "journal_host \<Rightarrow> bool" where
  "reads_back h \<longleftrightarrow> (\<forall>doc bytes. jh_to_bytes h doc = Inr bytes \<longrightarrow>
     jh_from_slice h (bytes @ [CHR 0x0A]) = Inr doc)"

definition unlinked :: "nodes \<Rightarrow> path \<Rightarrow> bool" where
  "unlinked ns p \<longleftrightarrow> (\<forall>a. path_starts_with p a \<longrightarrow> (\<forall>q. ns a \<noteq> Some (LinkTo q)))"

definition canonical_file :: "disk_host \<Rightarrow> path \<Rightarrow> bool" where
  "canonical_file h p \<longleftrightarrow> (\<exists>dir n. p = join_name dir n
     \<and> (\<forall>a. path_starts_with p a \<longrightarrow> \<not> named_privately a)
     \<and> (\<forall>ns q. unlinked ns p \<longrightarrow> fs_canonicalize (dh_view h ns) p = Inr q \<longrightarrow> q = p)
     \<and> (\<forall>ns q. unlinked ns dir \<longrightarrow> fs_canonicalize (dh_view h ns) dir = Inr q \<longrightarrow> q = dir))"

lemma canonical_fileE:
  assumes "canonical_file h p"
  obtains dir n where "p = join_name dir n" "\<And>a. path_starts_with p a \<Longrightarrow> \<not> named_privately a"
    "\<And>ns q. unlinked ns p \<Longrightarrow> fs_canonicalize (dh_view h ns) p = Inr q \<Longrightarrow> q = p"
    "\<And>ns q. unlinked ns dir \<Longrightarrow> fs_canonicalize (dh_view h ns) dir = Inr q \<Longrightarrow> q = dir"
  using assms unfolding canonical_file_def by (elim exE conjE) blast

lemma unlinked_join: "unlinked ns (join_name dir n) \<Longrightarrow> unlinked ns dir"
  by (auto simp: unlinked_def join_name_def path_starts_with_def)

lemma canonical_output:
  assumes "canonical_file h p" "unlinked ns p" "output_path (dh_view h ns) pol p overwrite = Inr out"
  shows "out = p"
  using assms(1)
proof (rule canonical_fileE)
  fix dir n
  assume p: "p = join_name dir n"
    and self: "\<And>ns q. unlinked ns p \<Longrightarrow> fs_canonicalize (dh_view h ns) p = Inr q \<Longrightarrow> q = p"
    and up: "\<And>ns q. unlinked ns dir \<Longrightarrow> fs_canonicalize (dh_view h ns) dir = Inr q \<Longrightarrow> q = dir"
  have "unlinked ns dir" using assms(2) by (simp add: p unlinked_join)
  then show ?thesis
    using assms(3) self[OF assms(2)] up
    by (auto simp: p output_path_def read_path_def require_contained_def
        map_err_Inr rbind_Inr or_err_Inr split: if_splits)
qed

lemma canonical_not_private: "canonical_file h p \<Longrightarrow> path_starts_with p a \<Longrightarrow> \<not> named_privately a"
  by (auto elim: canonical_fileE)

lemma starts_with_itself [simp]: "path_starts_with p p"
  by (simp add: path_starts_with_def)

lemma write_atomic_refused:
  assumes "output_path (dh_view h (dk_nodes d)) pol p overwrite = Inl e"
  shows "write_atomic h pol p overwrite w d = (Inl (PolicyRefused e), d)"
  using assms by (simp add: write_atomic_def open_output_def act_bind_def map_err_def)

lemma write_atomic_unlinked:
  assumes "canonical_file h p" "unlinked (dk_nodes d) p"
    and run: "write_atomic h pol p overwrite w d = (r, d')"
  shows "unlinked (dk_nodes d') p"
proof (cases "output_path (dh_view h (dk_nodes d)) pol p overwrite")
  case (Inl e)
  then show ?thesis using write_atomic_refused[OF Inl] assms(2) run by simp
next
  case (Inr out)
  then have out: "output_path (dh_view h (dk_nodes d)) pol p overwrite = Inr p"
    using canonical_output[OF assms(1,2)] by simp
  have priv: "\<not> named_privately p" using canonical_not_private[OF assms(1)] by simp
  note post = write_atomic_outcome[OF out priv run]
  have "dk_nodes d' p \<noteq> Some (LinkTo q)" for q
    using conjunct2[OF post] assms(2) by (cases r) (auto simp: unlinked_def)
  moreover have "dk_nodes d' a = dk_nodes d a" if "path_starts_with p a" "a \<noteq> p" for a
    using conjunct1[OF post] canonical_not_private[OF assms(1) that(1)] that(2) by blast
  ultimately show ?thesis using assms(2) unfolding unlinked_def by metis
qed

lemma write_atomic_path:
  assumes "canonical_file h p" "unlinked (dk_nodes d) p"
    and run: "write_atomic h pol p overwrite w d = (Inr a, d')"
  shows "oa_path a = p"
proof -
  from run obtain out tmp d1 where o: "open_output h pol p overwrite ''tmp'' d = (Inr (out, tmp), d1)"
    and rest: "act_bind (guard_temporary h tmp (fill_temporary h tmp w))
      (\<lambda>_. install_temporary h out tmp) d1 = (Inr a, d')"
    unfolding write_atomic_def by (elim act_bindE) auto
  have "out = p" using open_output_post[OF o] canonical_output[OF assms(1,2)] by auto
  with rest obtain d2 where "install_temporary h p tmp d2 = (Inr a, d')"
    by (auto elim: act_bindE)
  then obtain d3 q where asked: "sys h (\<lambda>ns. rbind (fs_canonicalize (dh_view h ns) p) (\<lambda>p. Inr (p, ns))) d3 = (Inr q, d')"
    and q: "oa_path a = q"
    unfolding install_temporary_def by (elim act_bindE) (auto simp: act_return_def elim!: act_bindE)
  from asked have "fs_canonicalize (dh_view h (dk_nodes d')) p = Inr q"
    by (rule sysE) (auto simp: rbind_Inr)
  then show ?thesis
    using assms(1) write_atomic_unlinked[OF assms(1,2) run] q by (auto elim: canonical_fileE)
qed

text \<open>Persisting a document at a canonical path: the disk holds the new document, or the failure kept it.\<close>

definition persisted ::
    "journal_host \<Rightarrow> path \<Rightarrow> journal_document \<Rightarrow> disk \<Rightarrow> disk \<Rightarrow> bool" where
  "persisted h p doc d d' \<longleftrightarrow> stored h (dk_nodes d') p = stored h (dk_nodes d) p
     \<or> stored h (dk_nodes d') p = Some doc
     \<or> (\<exists>b. parent b = parent p \<and> stored h (dk_nodes d') b = stored h (dk_nodes d) p)"

lemma persist_journal_post:
  assumes "canonical_file (jh_disk h) p" "reads_back h" "unlinked (dk_nodes d) p"
    and run: "persist_journal h pol p overwrite doc d = (r, d')"
  shows "unlinked (dk_nodes d') p \<and> (case r of Inr q \<Rightarrow> q = p \<and> stored h (dk_nodes d') p = Some doc
    | Inl e \<Rightarrow> persisted h p doc d d')"
proof -
  from run consider e where "jh_to_bytes h doc = Inl e" "r = Inl (SerializeFailed e)" "d' = d"
    | bytes r1 where "jh_to_bytes h doc = Inr bytes"
      "write_atomic (jh_disk h) pol p overwrite (write_all h (bytes @ [CHR 0x0A]) d) d = (r1, d')"
      "r = map_err AtomicFailed (map_sum id oa_path r1)"
    unfolding persist_journal_def act_bind_def act_map_err_def act_return_def map_err_def
    by (auto split: prod.splits sum.splits)
  then show ?thesis
  proof cases
    case 1
    then show ?thesis using assms(3) by (simp add: persisted_def)
  next
    case 2
    let ?w = "write_all h (bytes @ [CHR 0x0A]) d"
    have new: "stored h ns p = Some doc" if "snd ?w = None" "ns p = Some (Regular (fst ?w))" for ns
      using that 2(1) assms(2) by (auto simp: stored_def reads_back_def write_all_def split: option.splits prod.splits)
    have priv: "\<not> named_privately p" using canonical_not_private[OF assms(1)] by simp
    have kept: "unlinked (dk_nodes d') p" by (rule write_atomic_unlinked[OF assms(1,3) 2(2)])
    show ?thesis
    proof (cases "output_path (dh_view (jh_disk h) (dk_nodes d)) pol p overwrite")
      case (Inl e)
      then show ?thesis using 2 write_atomic_refused[OF Inl] kept by (auto simp: persisted_def map_err_def)
    next
      case (Inr out)
      then have out: "output_path (dh_view (jh_disk h) (dk_nodes d)) pol p overwrite = Inr p"
        using canonical_output[OF assms(1,3)] by simp
      note post = write_atomic_outcome[OF out priv 2(2)]
      show ?thesis
      proof (cases r1)
        case (Inr a)
        then show ?thesis
          using post 2(2,3) new kept write_atomic_path[OF assms(1,3)] by (auto simp: map_err_def)
      next
        case (Inl e)
        from conjunct2[OF post, unfolded Inl sum.case] have "persisted h p doc d d'"
        proof (elim disjE conjE exE)
          assume "dk_nodes d' p = dk_nodes d p"
          then show ?thesis by (simp add: persisted_def stored_def)
        next
          assume "snd ?w = None" "dk_nodes d' p = Some (Regular (fst ?w))"
          then have "stored h (dk_nodes d') p = Some doc" by (rule new)
          then show ?thesis by (simp add: persisted_def)
        next
          fix b
          assume b: "parent b = parent p" "dk_nodes d' b = dk_nodes d p"
          then have "stored h (dk_nodes d') b = stored h (dk_nodes d) p" by (simp add: stored_def)
          then show ?thesis using b(1) unfolding persisted_def by (intro disjI2 exI conjI)
        qed
        then show ?thesis using Inl 2(3) kept by (simp add: map_err_def)
      qed
    qed
  qed
qed

section \<open>Sessions\<close>

text \<open>
  A session creates the journal and then records checkpoints and finalizes, all successfully;
  in between, anything may happen to the disk except at the journal's path, as long as no
  component of that path becomes a link.
\<close>

datatype journal_event = Recorded integrity_checkpoint | FinalizedNow

definition journal_path :: "path \<Rightarrow> path" where
  "journal_path dir = join_name dir ''.meridian-tracy-session.json''"

inductive journal_session ::
    "journal_host \<Rightarrow> path_policy \<Rightarrow> path \<Rightarrow> journal_event list \<Rightarrow> integrity_journal \<Rightarrow> disk \<Rightarrow> bool"
  for h pol dir where
  created: "unlinked (dk_nodes d) (journal_path dir)
    \<Longrightarrow> journal_create h pol dir b d = (Inr j, d') \<Longrightarrow> journal_session h pol dir [] j d'"
| recorded: "journal_session h pol dir es j d \<Longrightarrow> journal_record h pol c j d = (Inr (), j', d')
    \<Longrightarrow> journal_session h pol dir (es @ [Recorded c]) j' d'"
| finalized: "journal_session h pol dir es j d \<Longrightarrow> journal_finalize h pol j d = (Inr (), j', d')
    \<Longrightarrow> journal_session h pol dir (es @ [FinalizedNow]) j' d'"
| others: "journal_session h pol dir es j d
    \<Longrightarrow> dk_nodes d' (journal_path dir) = dk_nodes d (journal_path dir)
    \<Longrightarrow> unlinked (dk_nodes d') (journal_path dir)
    \<Longrightarrow> journal_session h pol dir es j d'"

text \<open>The abstract journal: what was recorded, in order, and whether it was finalized.\<close>

definition recorded_checkpoints :: "journal_event list \<Rightarrow> integrity_checkpoint list" where
  "recorded_checkpoints es = List.map_filter (\<lambda>e. case e of Recorded c \<Rightarrow> Some c | FinalizedNow \<Rightarrow> None) es"

definition represents :: "journal_event list \<Rightarrow> journal_document \<Rightarrow> bool" where
  "represents es doc \<longleftrightarrow> jd_checkpoints doc = recorded_checkpoints es
     \<and> (jd_status doc = JournalFinalized \<longleftrightarrow> FinalizedNow \<in> set es)
     \<and> jd_last_action doc = (case rev es of [] \<Rightarrow> ''baseline_captured''
          | Recorded c # _ \<Rightarrow> ic_action c | FinalizedNow # _ \<Rightarrow> ''finalized'')"

lemma recorded_checkpoints_append [simp]:
  "recorded_checkpoints [] = []"
  "recorded_checkpoints (es @ [Recorded c]) = recorded_checkpoints es @ [c]"
  "recorded_checkpoints (es @ [FinalizedNow]) = recorded_checkpoints es"
  by (simp_all add: recorded_checkpoints_def List.map_filter_def)

lemma journal_save_Inr:
  assumes "journal_save h pol j d = (Inr (), j', d')"
  obtains q where "persist_journal h pol (jn_path j) True (jn_document j) d = (Inr q, d')"
    "j' = j\<lparr>jn_path := q\<rparr>"
  using assms by (auto simp: journal_save_def split: prod.splits sum.splits)

lemma check_previous_nodes:
  assumes "check_previous h p d = (r, d')"
  shows "dk_nodes d' = dk_nodes d"
proof -
  have read: "dk_nodes d2 = dk_nodes d1" if "read_journal h p d1 = (x, d2)" for d1 d2 :: disk and x
    using that
    by (auto simp: read_journal_def act_map_err_def sys_def tick_def read_node_def
        split: prod.splits option.splits sum.splits node.splits)
  show ?thesis
    using assms
    by (auto simp: check_previous_def path_is_file_def act_return_def tick_def
        split: if_splits dest!: read elim!: act_bindE)
qed

lemma random_id_nodes: "random_id h d = (r, d') \<Longrightarrow> dk_nodes d' = dk_nodes d"
  by (auto simp: random_id_def tick_def)

lemma journal_create_Inr:
  assumes "journal_create h pol dir b d = (Inr j, d')"
  obtains overwrite d1 where "dk_nodes d1 = dk_nodes d"
    "persist_journal h pol (journal_path dir) overwrite (jn_document j) d1 = (Inr (jn_path j), d')"
    "represents [] (jn_document j)"
  using assms unfolding journal_create_def Let_def
  by (elim act_bindE)
    (auto simp: act_return_def represents_def journal_path_def dest!: check_previous_nodes random_id_nodes)

text \<open>
  What a step with event \<open>e\<close> leaves, given the journal before it: the document in memory has
  the event; after a success the file decodes to it, and after a failure to the document
  before or after the step, unless that before the step is at a backup beside the journal.
\<close>

definition step_refines ::
    "journal_host \<Rightarrow> path \<Rightarrow> journal_event list \<Rightarrow> journal_document
     \<Rightarrow> (integrity_error + unit) \<times> integrity_journal \<times> disk \<Rightarrow> bool" where
  "step_refines h dir es before result \<longleftrightarrow>
     (case result of (r, j', d') \<Rightarrow> represents es (jn_document j') \<and>
       (case r of Inr _ \<Rightarrow> stored h (dk_nodes d') (journal_path dir) = Some (jn_document j')
        | Inl _ \<Rightarrow> stored h (dk_nodes d') (journal_path dir) \<in> {Some before, Some (jn_document j')}
            \<or> (\<exists>b. parent b = Some dir \<and> stored h (dk_nodes d') b = Some before)))"

definition session_kept ::
    "journal_host \<Rightarrow> path \<Rightarrow> journal_event list \<Rightarrow> integrity_journal \<Rightarrow> disk \<Rightarrow> bool" where
  "session_kept h dir es j d \<longleftrightarrow> jn_path j = journal_path dir
     \<and> stored h (dk_nodes d) (journal_path dir) = Some (jn_document j)
     \<and> represents es (jn_document j) \<and> unlinked (dk_nodes d) (journal_path dir)"

lemma journal_save_post:
  assumes fit: "canonical_file (jh_disk h) (journal_path dir)" "reads_back h"
    and kept: "session_kept h dir es j d"
    and changed: "represents es' doc"
  shows "step_refines h dir es' (jn_document j) (journal_save h pol (j\<lparr>jn_document := doc\<rparr>) d)
    \<and> (\<forall>j' d'. journal_save h pol (j\<lparr>jn_document := doc\<rparr>) d = (Inr (), j', d') \<longrightarrow> session_kept h dir es' j' d')"
proof -
  obtain r d' where run: "persist_journal h pol (journal_path dir) True doc d = (r, d')" by fastforce
  have start: "unlinked (dk_nodes d) (journal_path dir)" "jn_path j = journal_path dir"
    "stored h (dk_nodes d) (journal_path dir) = Some (jn_document j)"
    using kept by (simp_all add: session_kept_def)
  note post = persist_journal_post[OF fit start(1) run]
  have up: "parent (journal_path dir) = Some dir" by (simp add: journal_path_def)
  show ?thesis
  proof (cases r)
    case (Inl e)
    then have "persisted h (journal_path dir) doc d d'" using post by simp
    then show ?thesis
      using changed
      by (auto simp: journal_save_def start run Inl step_refines_def persisted_def up)
  next
    case (Inr q)
    then show ?thesis
      using changed post by (auto simp: journal_save_def start run step_refines_def session_kept_def)
  qed
qed

lemma journal_record_post:
  assumes fit: "canonical_file (jh_disk h) (journal_path dir)" "reads_back h"
    and kept: "session_kept h dir es j d"
  shows "step_refines h dir (es @ [Recorded c]) (jn_document j) (journal_record h pol c j d)
    \<and> (\<forall>j' d'. journal_record h pol c j d = (Inr (), j', d') \<longrightarrow> session_kept h dir (es @ [Recorded c]) j' d')"
  unfolding journal_record_def
  by (rule journal_save_post[OF fit kept]) (use kept in \<open>simp add: session_kept_def represents_def\<close>)

lemma journal_finalize_post:
  assumes fit: "canonical_file (jh_disk h) (journal_path dir)" "reads_back h"
    and kept: "session_kept h dir es j d"
  shows "step_refines h dir (es @ [FinalizedNow]) (jn_document j) (journal_finalize h pol j d)
    \<and> (\<forall>j' d'. journal_finalize h pol j d = (Inr (), j', d') \<longrightarrow> session_kept h dir (es @ [FinalizedNow]) j' d')"
  unfolding journal_finalize_def
  by (rule journal_save_post[OF fit kept]) (use kept in \<open>simp add: session_kept_def represents_def\<close>)

lemma session_post:
  assumes fit: "canonical_file (jh_disk h) (journal_path dir)" "reads_back h"
  shows "journal_session h pol dir es j d \<Longrightarrow> session_kept h dir es j d"
proof (induction rule: journal_session.induct)
  case (created d b j d')
  from created(2) show ?case
  proof (rule journal_create_Inr)
    fix overwrite d1
    assume "dk_nodes d1 = dk_nodes d" and doc: "represents [] (jn_document j)"
      and run: "persist_journal h pol (journal_path dir) overwrite (jn_document j) d1 = (Inr (jn_path j), d')"
    then have "unlinked (dk_nodes d1) (journal_path dir)" using created(1) by simp
    from persist_journal_post[OF fit this run] doc show ?thesis by (simp add: session_kept_def)
  qed
next
  case (recorded es j d c j' d')
  then show ?case using journal_record_post[OF fit] by blast
next
  case (finalized es j d j' d')
  then show ?case using journal_finalize_post[OF fit] by blast
next
  case (others es j d d')
  then show ?case by (simp add: session_kept_def stored_def)
qed

text \<open>
  C12. The journal on disk refines the session.  For a journal path with no symbolic link in it,
  after any successful operations the file at that path decodes to the document in memory, which
  lists the recorded checkpoints in order and is finalized exactly when the session was.  One
  more operation, \<open>record\<close> or \<open>finalize\<close>, leaves a document in memory that has its event; when
  it succeeds the file decodes to that document, and when it fails the file decodes to the
  document before or after it, or the document before it is at a backup beside the journal.
\<close>

theorem journal_refines_session:
  assumes "canonical_file (jh_disk h) (journal_path dir)" "reads_back h"
    and "journal_session h pol dir es j d"
  shows "stored h (dk_nodes d) (journal_path dir) = Some (jn_document j)
    \<and> represents es (jn_document j)
    \<and> (\<forall>c. step_refines h dir (es @ [Recorded c]) (jn_document j) (journal_record h pol c j d))
    \<and> step_refines h dir (es @ [FinalizedNow]) (jn_document j) (journal_finalize h pol j d)"
proof -
  have kept: "session_kept h dir es j d" by (rule session_post[OF assms])
  show ?thesis
    using kept conjunct1[OF journal_record_post[OF assms(1,2) kept]]
      conjunct1[OF journal_finalize_post[OF assms(1,2) kept]]
    by (simp add: session_kept_def)
qed

section \<open>Recovery\<close>

lemma output_exists_refused:
  assumes "fs_exists fs p"
  shows "\<exists>e. output_path fs pol p False = Inl e"
  using assms by (cases "read_path fs pol p") (auto simp: output_path_def)

lemma persist_existing_refused:
  assumes "fs_exists (dh_view (jh_disk h) (dk_nodes d)) p"
  shows "\<exists>e. persist_journal h pol p False doc d = (Inl e, d)"
proof -
  obtain e where "output_path (dh_view (jh_disk h) (dk_nodes d)) pol p False = Inl e"
    using output_exists_refused[OF assms] by blast
  from write_atomic_refused[OF this] show ?thesis
    by (cases "jh_to_bytes h doc")
      (auto simp: persist_journal_def act_bind_def act_map_err_def act_return_def map_err_def)
qed

lemma check_previous_active:
  assumes "stored h (dk_nodes d) p = Some doc" "jd_status doc = JournalActive"
    and "check_previous h p d = (r, d')"
  shows "dk_nodes d' = dk_nodes d \<and> (r = Inr False \<or> (\<exists>e. r = Inl e))
    \<and> ((\<forall>n. dh_fault (jh_disk h) n = None) \<longrightarrow> r = Inl (RecoveryRequired (jd_last_action doc)))"
proof -
  obtain c where c: "dk_nodes d p = Some (Regular c)" "jh_from_slice h c = Inr doc"
    using assms(1) by (auto simp: stored_def ok_def split: option.splits node.splits sum.splits)
  have isfile: "path_is_file (jh_disk h) p d = (dh_fault (jh_disk h) (dk_clock d) = None, tick d)"
    by (simp add: path_is_file_def follow_regular[of "dk_nodes d" p c] c(1))
  have read: "read_node p (dk_nodes d) = Inr (c, dk_nodes d)"
    by (simp add: read_node_def follow_regular[of "dk_nodes d" p c] c(1))
  show ?thesis
  proof (cases "dh_fault (jh_disk h) (dk_clock d)")
    case (Some e)
    then show ?thesis using assms(3) by (auto simp: check_previous_def isfile)
  next
    case None
    have finish: "act_bind (act_return (map_err SerializeFailed (jh_from_slice h c))) (\<lambda>existing.
          act_return (if jd_status existing \<noteq> JournalFinalized
            then Inl (RecoveryRequired (jd_last_action existing)) else Inr True)) s
        = (Inl (RecoveryRequired (jd_last_action doc)), s)" for s :: disk
      by (simp add: act_bind_def act_return_def map_err_def c(2) assms(2))
    show ?thesis
    proof (cases "dh_fault (jh_disk h) (Suc (dk_clock d))")
      case (Some e)
      then have "read_journal h p (tick d) = (Inl (IntegrityIo e), tick (tick d))"
        by (simp add: read_journal_def act_map_err_def sys_def map_err_def tick_def)
      then show ?thesis using assms(3) None Some by (auto simp: check_previous_def isfile act_bind_def)
    next
      case ok: None
      then have "read_journal h p (tick d) = (Inr c, tick (tick d))"
        by (simp add: read_journal_def act_map_err_def sys_def map_err_def tick_def read)
      then show ?thesis
        using assms(3) None by (auto simp: check_previous_def isfile act_bind_def[of "read_journal h p"] finish)
    qed
  qed
qed

text \<open>
  An unfinished journal is never overwritten: while the file at the journal's path decodes
  to an active document, creating a journal fails and changes no file, whatever system calls
  fail; when none does, the error asks for recovery and names the last recorded action.
\<close>

lemma active_journal_is_never_replaced:
  assumes "stored h (dk_nodes d) (journal_path dir) = Some doc" "jd_status doc = JournalActive"
    and "fs_exists (dh_view (jh_disk h) (dk_nodes d)) (journal_path dir)"
    and "journal_create h pol dir b d = (r, d')"
  shows "(\<exists>e. r = Inl e) \<and> dk_nodes d' = dk_nodes d
    \<and> ((\<forall>n. dh_fault (jh_disk h) n = None) \<longrightarrow> r = Inl (RecoveryRequired (jd_last_action doc)))"
  using assms(4) unfolding journal_create_def Let_def journal_path_def[symmetric]
proof (rule act_bindE)
  fix e
  assume "check_previous h (journal_path dir) d = (Inl e, d')" "r = Inl e"
  then show ?thesis using check_previous_active[OF assms(1,2)] by blast
next
  fix overwrite d1
  assume previous: "check_previous h (journal_path dir) d = (Inr overwrite, d1)"
  then have p: "\<not> overwrite" "dk_nodes d1 = dk_nodes d" "\<not> (\<forall>n. dh_fault (jh_disk h) n = None)"
    using check_previous_active[OF assms(1,2) previous] by auto
  assume "act_bind (random_id h) (\<lambda>journal_id. act_bind (persist_journal h pol (journal_path dir) overwrite
        \<lparr>jd_schema = 1, jd_journal_id = journal_id, jd_status = JournalActive,
          jd_baseline_digest = ib_digest b,
          jd_preexisting_change_count = word_of_nat (length (ib_preexisting_changes b)),
          jd_last_action = ''baseline_captured'', jd_checkpoints = []\<rparr>) (\<lambda>p. act_return (Inr \<lparr>jn_path = p,
          jn_document = \<lparr>jd_schema = 1, jd_journal_id = journal_id, jd_status = JournalActive,
          jd_baseline_digest = ib_digest b,
          jd_preexisting_change_count = word_of_nat (length (ib_preexisting_changes b)),
          jd_last_action = ''baseline_captured'', jd_checkpoints = []\<rparr>\<rparr>))) d1 = (r, d')"
  then show ?thesis
  proof (rule act_bindE)
    fix e
    assume "random_id h d1 = (Inl e, d')" "r = Inl e"
    then show ?thesis using p by (auto simp: random_id_def)
  next
    fix i d2
    let ?doc = "\<lparr>jd_schema = 1, jd_journal_id = i, jd_status = JournalActive,
          jd_baseline_digest = ib_digest b,
          jd_preexisting_change_count = word_of_nat (length (ib_preexisting_changes b)),
          jd_last_action = ''baseline_captured'', jd_checkpoints = []\<rparr>"
    assume "random_id h d1 = (Inr i, d2)"
    then have d2: "dk_nodes d2 = dk_nodes d" using p by (auto simp: random_id_def)
    obtain e where "persist_journal h pol (journal_path dir) False ?doc d2 = (Inl e, d2)"
      using persist_existing_refused[of h d2 "journal_path dir"] assms(3) d2 by metis
    moreover assume "act_bind (persist_journal h pol (journal_path dir) overwrite ?doc)
        (\<lambda>p. act_return (Inr \<lparr>jn_path = p, jn_document = ?doc\<rparr>)) d2 = (r, d')"
    ultimately show ?thesis using p d2 by (auto simp: act_bind_def)
  qed
qed

text \<open>
  A journal in the directory \<open>/a\<close> of a disk on which \<open>canonicalize\<close> fails for what is not
  there and resolves a link: it is created, a checkpoint is recorded, and it is finalized.
  Each of the three documents has its own encoding.
\<close>

definition demo_doc :: "string \<Rightarrow> journal_status_kind \<Rightarrow> integrity_checkpoint list \<Rightarrow> journal_document" where
  "demo_doc action s cs = \<lparr>jd_schema = 1, jd_journal_id = ''0'', jd_status = s, jd_baseline_digest = ''h'',
     jd_preexisting_change_count = 0, jd_last_action = action, jd_checkpoints = cs\<rparr>"

definition demo_recorded :: integrity_checkpoint where
  "demo_recorded = \<lparr>ic_action = ''build'', ic_baseline_digest = ''h'', ic_current_digest = ''h'',
     ic_added = [], ic_modified = [], ic_deleted = [], ic_owned_paths = []\<rparr>"

definition demo_documents :: "(journal_document \<times> string) list" where
  "demo_documents = [(demo_doc ''baseline_captured'' JournalActive [], ''0''),
     (demo_doc ''build'' JournalActive [demo_recorded], ''1''),
     (demo_doc ''finalized'' JournalFinalized [demo_recorded], ''2'')]"

definition demo_journal_view :: "nodes \<Rightarrow> filesystem" where
  "demo_journal_view ns = linked_fs\<lparr>fs_exists := (\<lambda>p. ns p \<noteq> None),
     fs_canonicalize := (\<lambda>p. case ns p of None \<Rightarrow> Inl ''not found'' | Some (LinkTo q) \<Rightarrow> Inr q | Some _ \<Rightarrow> Inr p)\<rparr>"

definition demo_journal_host :: journal_host where
  "demo_journal_host = \<lparr>jh_disk = (demo_disk_host (\<lambda>_. None))\<lparr>dh_view := demo_journal_view\<rparr>,
     jh_to_bytes = (\<lambda>doc. or_err [] (map_of demo_documents doc)),
     jh_from_slice = (\<lambda>c. or_err [] (map_option fst (find (\<lambda>(doc, bytes). c = bytes @ [CHR 0x0A]) demo_documents))),
     jh_write_fault = (\<lambda>_. None)\<rparr>"

definition demo_journal_disk :: disk where
  "demo_journal_disk = \<lparr>dk_nodes = [demo_path ''a'' \<mapsto> DirNode], dk_clock = 0\<rparr>"

definition demo_journal_baseline :: integrity_baseline where
  "demo_journal_baseline = \<lparr>ib_snapshot = demo_snapshot ''0'', ib_digest = ''h'', ib_preexisting_changes = []\<rparr>"

lemma demo_reads_back: "reads_back demo_journal_host"
  by (auto simp: reads_back_def demo_journal_host_def demo_documents_def or_err_def split: if_splits)

lemma demo_not_private: "path_starts_with (journal_path (demo_path ''a'')) a \<Longrightarrow> \<not> named_privately a"
  by (auto simp: path_starts_with_def journal_path_def join_name_def demo_path_def prefix_Cons
      named_privately_def file_name_def)

lemma demo_canonical: "canonical_file (jh_disk demo_journal_host) (journal_path (demo_path ''a''))"
  unfolding canonical_file_def
proof (intro exI conjI allI impI)
  show "journal_path (demo_path ''a'') = join_name (demo_path ''a'') ''.meridian-tracy-session.json''"
    by (simp add: journal_path_def)
qed (auto simp: demo_not_private demo_journal_host_def demo_journal_view_def unlinked_def split: option.splits node.splits)

lemmas demo_journal_fit = demo_canonical demo_reads_back

lemma demo_unlinked: "unlinked (dk_nodes demo_journal_disk) p"
  by (simp add: unlinked_def demo_journal_disk_def)

definition demo_created :: "(integrity_error + integrity_journal) \<times> disk" where
  "demo_created = journal_create demo_journal_host demo_policy (demo_path ''a'') demo_journal_baseline demo_journal_disk"

lemma demo_journal_created:
  obtains j d where "demo_created = (Inr j, d)" "jn_document j = demo_doc ''baseline_captured'' JournalActive []"
    "journal_session demo_journal_host demo_policy (demo_path ''a'') [] j d"
proof -
  have "map_option jn_document (ok (fst demo_created)) = Some (demo_doc ''baseline_captured'' JournalActive [])"
    by code_simp
  then obtain j where j: "ok (fst demo_created) = Some j" "jn_document j = demo_doc ''baseline_captured'' JournalActive []"
    by (cases "ok (fst demo_created)") simp_all
  from j(1) have "fst demo_created = Inr j" by (simp add: ok_def split: sum.splits)
  then obtain d where "demo_created = (Inr j, d)" by (metis prod.collapse)
  with j(2) show ?thesis using that journal_session.created[OF demo_unlinked] by (simp add: demo_created_def)
qed

theorem journal_refines_session_witness:
  "\<exists>j d j' d'. journal_session demo_journal_host demo_policy (demo_path ''a'')
       [Recorded demo_recorded] (j :: integrity_journal) d
     \<and> stored demo_journal_host (dk_nodes d) (journal_path (demo_path ''a''))
         = Some (demo_doc ''build'' JournalActive [demo_recorded])
     \<and> journal_finalize demo_journal_host demo_policy j d = (Inr (), j', d')
     \<and> stored demo_journal_host (dk_nodes d') (journal_path (demo_path ''a''))
         = Some (demo_doc ''finalized'' JournalFinalized [demo_recorded])"
proof -
  obtain j d where made: "demo_created = (Inr j, d)"
    and session: "journal_session demo_journal_host demo_policy (demo_path ''a'') [] j d"
    by (rule demo_journal_created)
  let ?steps = "case demo_created of (Inr j, d) \<Rightarrow>
      (case journal_record demo_journal_host demo_policy demo_recorded j d of (r, j, d) \<Rightarrow>
        (case journal_finalize demo_journal_host demo_policy j d of (r', j', d') \<Rightarrow>
          (r, r', jn_document j, jn_document j') = (Inr (), Inr (), demo_doc ''build'' JournalActive [demo_recorded],
             demo_doc ''finalized'' JournalFinalized [demo_recorded]))) | _ \<Rightarrow> False"
  have "?steps" by code_simp
  then obtain j1 d1 j' d' where
      step: "journal_record demo_journal_host demo_policy demo_recorded j d = (Inr (), j1, d1)"
    and fin: "journal_finalize demo_journal_host demo_policy j1 d1 = (Inr (), j', d')"
    and docs: "jn_document j1 = demo_doc ''build'' JournalActive [demo_recorded]"
      "jn_document j' = demo_doc ''finalized'' JournalFinalized [demo_recorded]"
    by (auto simp: made split: prod.splits)
  have s: "journal_session demo_journal_host demo_policy (demo_path ''a'') [Recorded demo_recorded] j1 d1"
    using journal_session.recorded[OF session step] by simp
  from journal_refines_session[OF demo_journal_fit s] fin docs s show ?thesis
    by (intro exI[of _ j1] exI[of _ d1] exI[of _ j'] exI[of _ d']) (simp add: step_refines_def)
qed

lemma active_journal_is_never_replaced_witness:
  "\<exists>j d d'. demo_created = (Inr j, d)
     \<and> journal_create demo_journal_host demo_policy (demo_path ''a'') demo_journal_baseline d
         = (Inl (RecoveryRequired ''baseline_captured''), d')"
proof -
  obtain j d where j: "demo_created = (Inr j, d)" "jn_document j = demo_doc ''baseline_captured'' JournalActive []"
    and session: "journal_session demo_journal_host demo_policy (demo_path ''a'') [] j d"
    by (rule demo_journal_created)
  then have s: "stored demo_journal_host (dk_nodes d) (journal_path (demo_path ''a''))
      = Some (demo_doc ''baseline_captured'' JournalActive [])"
    using session_post[OF demo_journal_fit session] by (simp add: session_kept_def)
  have e: "fs_exists (dh_view (jh_disk demo_journal_host) (dk_nodes d)) (journal_path (demo_path ''a''))"
    using s by (auto simp: demo_journal_host_def demo_journal_view_def stored_def split: option.splits)
  have f: "\<forall>n. dh_fault (jh_disk demo_journal_host) n = None"
    by (simp add: demo_journal_host_def demo_disk_host_def)
  obtain r d' where "journal_create demo_journal_host demo_policy (demo_path ''a'') demo_journal_baseline d = (r, d')"
    by fastforce
  then show ?thesis
    using active_journal_is_never_replaced[OF s _ e] f j(1) by (auto simp: demo_doc_def)
qed

end
