(* ===== verification/Output_Capture.thy ===== *)
theory Output_Capture
  imports Output_Log Text_Lines
begin

text \<open>
  How the output of a running game reaches its log, and how a caller waits for it, from
  \<open>src/tools/runtime.rs\<close>: the readers of the process's pipes (\<open>capture_output_stream\<close>) and of its
  log file (\<open>capture_output_file\<close>), and the loop of \<open>wait_for_output_value\<close>.  What the operating
  system answers to each read is a list of reads with the time of each; a list that is used up
  is a reader that still waits, which is the value \<open>None\<close>.
\<close>

section \<open>Lines from bytes\<close>

definition LINE_CONTENT_LIMIT :: nat where
  "LINE_CONTENT_LIMIT = OUTPUT_LINE_MAX_BYTES - length OUTPUT_TRUNCATED_SUFFIX"

record line_capture =
  lc_line_buffer :: string
  lc_line_truncated :: bool
  lc_output_log :: output_buffer

definition push_captured_output_line :: "nat \<Rightarrow> line_capture \<Rightarrow> line_capture" where
  "push_captured_output_line now c =
     (let line_buffer = (if lc_line_buffer c \<noteq> [] \<and> last (lc_line_buffer c) = CHR 0x0D
            then butlast (lc_line_buffer c) else lc_line_buffer c);
          line = from_utf8_lossy line_buffer @ (if lc_line_truncated c then OUTPUT_TRUNCATED_SUFFIX else [])
      in c\<lparr>lc_output_log := push_output_line (lc_output_log c) now line, lc_line_buffer := []\<rparr>)"

definition capture_byte :: "nat \<Rightarrow> char \<Rightarrow> line_capture \<Rightarrow> line_capture" where
  "capture_byte now byte c =
     (if byte = CHR 0x0A then (push_captured_output_line now c)\<lparr>lc_line_truncated := False\<rparr>
      else if length (lc_line_buffer c) < LINE_CONTENT_LIMIT
      then c\<lparr>lc_line_buffer := lc_line_buffer c @ [byte]\<rparr>
      else c\<lparr>lc_line_truncated := True\<rparr>)"

definition capture_chunk :: "nat \<Rightarrow> string \<Rightarrow> line_capture \<Rightarrow> line_capture" where
  "capture_chunk now bytes c = fold (capture_byte now) bytes c"

definition capture_start :: "output_buffer \<Rightarrow> line_capture" where
  "capture_start log = \<lparr>lc_line_buffer = [], lc_line_truncated = False, lc_output_log = log\<rparr>"

section \<open>The readers\<close>

datatype stream_read = StreamBytes string | StreamEnd | StreamFailed

definition flush_line :: "nat \<Rightarrow> line_capture \<Rightarrow> line_capture" where
  "flush_line now c =
     (if lc_line_buffer c \<noteq> [] \<or> lc_line_truncated c then push_captured_output_line now c else c)"

fun capture_stream :: "(nat \<times> stream_read) list \<Rightarrow> line_capture \<Rightarrow> line_capture option" where
  "capture_stream [] c = None"
| "capture_stream ((now, StreamBytes bytes) # reads) c = capture_stream reads (capture_chunk now bytes c)"
| "capture_stream ((now, StreamEnd) # reads) c = Some (flush_line now c)"
| "capture_stream ((now, StreamFailed) # reads) c = Some (flush_line now c)"

definition capture_output_stream ::
  "(nat \<times> stream_read) list \<Rightarrow> output_buffer \<Rightarrow> output_buffer option" where
  "capture_output_stream reads log = map_option lc_output_log (capture_stream reads (capture_start log))"

text \<open>
  The log file: an open that fails is tried again; at the end of the file its length tells
  whether it has been cut, and then it is read from the start, unless the seek fails.
\<close>

datatype file_read = FileBytes string | FileEnd "nat option" bool | FileFailed

fun capture_file :: "(nat \<times> file_read) list \<Rightarrow> nat \<Rightarrow> line_capture \<Rightarrow> line_capture" where
  "capture_file [] offset c = c"
| "capture_file ((now, FileBytes bytes) # reads) offset c =
     capture_file reads (offset + length bytes) (capture_chunk now bytes c)"
| "capture_file ((now, FileEnd metadata_len seek_ok) # reads) offset c =
     (case metadata_len of
        Some len \<Rightarrow>
          if len < offset then
            (let c = c\<lparr>lc_line_buffer := [], lc_line_truncated := False\<rparr> in
             if seek_ok then capture_file reads 0 c else c)
          else capture_file reads offset c
      | None \<Rightarrow> capture_file reads offset c)"
| "capture_file ((now, FileFailed) # reads) offset c = c"

definition capture_output_file ::
  "bool list \<Rightarrow> bool \<Rightarrow> (nat \<times> file_read) list \<Rightarrow> nat \<Rightarrow> output_buffer \<Rightarrow> output_buffer" where
  "capture_output_file opens seek_ok reads start_offset log =
     (if True \<in> set opens \<and> seek_ok
      then lc_output_log (capture_file reads start_offset (capture_start log)) else log)"

section \<open>Waiting for output\<close>

definition MAX_OUTPUT_WAIT_TIMEOUT_MS :: nat where
  "MAX_OUTPUT_WAIT_TIMEOUT_MS = 300000"

definition DEFAULT_OUTPUT_WAIT_TIMEOUT_MS :: nat where
  "DEFAULT_OUTPUT_WAIT_TIMEOUT_MS = 30000"

datatype wait_result =
    WaitMatched "string list"
  | WaitExited "int option" "string list"
  | WaitTimedOut "string list"

text \<open>The pattern: a literal, or a compiled regular expression as its match predicate.\<close>

datatype output_pattern = Literal string | Matcher "string \<Rightarrow> bool"

definition pattern_matches :: "output_pattern \<Rightarrow> string \<Rightarrow> bool" where
  "pattern_matches p s = (case p of Literal l \<Rightarrow> is_substring l s | Matcher f \<Rightarrow> f s)"

definition log_text :: "output_buffer \<Rightarrow> string" where
  "log_text b = join_with (CHR 0x0A) (map oe_text (ob_entries b))"

definition last_fifty :: "output_buffer \<Rightarrow> string list" where
  "last_fifty b = rev (take 50 (rev (map oe_text (ob_entries b))))"

definition wait_turn :: "output_pattern \<Rightarrow> nat \<Rightarrow> output_buffer \<Rightarrow> nat \<Rightarrow> wait_result option" where
  "wait_turn p deadline b now =
     (if pattern_matches p (log_text b) then Some (WaitMatched (last_fifty b))
      else if \<not> ob_running b \<and> ob_drained b then Some (WaitExited (ob_last_exit_code b) (last_fifty b))
      else if deadline \<le> now then Some (WaitTimedOut (last_fifty b))
      else None)"

text \<open>The turns of the loop: the log as each one sees it, and the time of its deadline check.\<close>

fun wait_turns :: "output_pattern \<Rightarrow> nat \<Rightarrow> (output_buffer \<times> nat) list \<Rightarrow> wait_result option" where
  "wait_turns p deadline [] = None"
| "wait_turns p deadline ((b, now) # turns) =
     (case wait_turn p deadline b now of Some r \<Rightarrow> Some r | None \<Rightarrow> wait_turns p deadline turns)"

definition wait_for_output_value ::
  "(string \<Rightarrow> string + (string \<Rightarrow> bool)) \<Rightarrow> string \<Rightarrow> bool \<Rightarrow> nat \<Rightarrow> nat \<Rightarrow> (output_buffer \<times> nat) list
   \<Rightarrow> (string + wait_result) option" where
  "wait_for_output_value regex_new pattern use_regex timeout_ms now turns =
     (let timeout_ms = min timeout_ms MAX_OUTPUT_WAIT_TIMEOUT_MS; deadline = now + timeout_ms in
      case (if use_regex then map_sum id Matcher (regex_new pattern) else Inr (Literal pattern)) of
        Inl e \<Rightarrow> Some (Inl (''Invalid output regex: '' @ e))
      | Inr p \<Rightarrow> map_option Inr (wait_turns p deadline turns))"

section \<open>The captured lines\<close>

text \<open>What a line of the stream becomes in the log.\<close>

definition captured_line :: "string \<Rightarrow> string" where
  "captured_line l =
     from_utf8_lossy (strip_cr (take LINE_CONTENT_LIMIT l))
       @ (if LINE_CONTENT_LIMIT < length l then OUTPUT_TRUNCATED_SUFFIX else [])"

text \<open>The reader in the middle of the line \<open>p\<close>.\<close>

definition in_line :: "string \<Rightarrow> output_buffer \<Rightarrow> line_capture" where
  "in_line p log =
     \<lparr>lc_line_buffer = take LINE_CONTENT_LIMIT p, lc_line_truncated = (LINE_CONTENT_LIMIT < length p),
      lc_output_log = log\<rparr>"

definition push_lines :: "(nat \<times> string) list \<Rightarrow> output_buffer \<Rightarrow> output_buffer" where
  "push_lines ls log = fold (\<lambda>(now, l) log. push_output_line log now (captured_line l)) ls log"

fun timed_lines :: "string \<Rightarrow> (nat \<times> char) list \<Rightarrow> (nat \<times> string) list \<times> string" where
  "timed_lines p [] = ([], p)"
| "timed_lines p ((now, b) # bs) =
     (if b = CHR 0x0A then (case timed_lines [] bs of (ls, q) \<Rightarrow> ((now, p) # ls, q))
      else timed_lines (p @ [b]) bs)"

lemma limit_positive: "0 < LINE_CONTENT_LIMIT"
  by (simp add: LINE_CONTENT_LIMIT_def output_limits)

lemma capture_start_in_line: "capture_start log = in_line [] log"
  by (simp add: capture_start_def in_line_def)

lemma push_in_line:
  "push_captured_output_line now (in_line p log)
     = (in_line p (push_output_line log now (captured_line p)))\<lparr>lc_line_buffer := []\<rparr>"
  by (simp add: push_captured_output_line_def in_line_def captured_line_def strip_cr_def
      strip_suffix_char_def Let_def)

lemma capture_byte_in_line:
  "capture_byte now b (in_line p log) =
     (if b = CHR 0x0A then in_line [] (push_output_line log now (captured_line p)) else in_line (p @ [b]) log)"
  by (auto simp: capture_byte_def push_in_line) (auto simp: in_line_def)

lemma capture_bytes:
  "timed_lines p bs = (ls, q) \<Longrightarrow>
     fold (\<lambda>(now, b). capture_byte now b) bs (in_line p log) = in_line q (push_lines ls log)"
proof (induction p bs arbitrary: ls q log rule: timed_lines.induct)
  case (2 p now b bs)
  show ?case
  proof (cases "b = CHR 0x0A")
    case True
    obtain ls' q' where rest: "timed_lines [] bs = (ls', q')" by fastforce
    with True 2(3) have "ls = (now, p) # ls'" "q = q'" by auto
    then show ?thesis using 2(1)[OF True rest] True by (simp add: capture_byte_in_line push_lines_def)
  next
    case False
    then show ?thesis using 2(2)[OF False] 2(3) by (simp add: capture_byte_in_line)
  qed
qed (simp add: push_lines_def)

lemma timed_lines_raw:
  "timed_lines p bs = (ls, q) \<Longrightarrow> CHR 0x0A \<notin> set p \<Longrightarrow>
     raw_lines (p @ map snd bs) = map snd ls @ (if q = [] then [] else [q]) \<and> CHR 0x0A \<notin> set q"
proof (induction p bs arbitrary: ls q rule: timed_lines.induct)
  case (1 p)
  then show ?case by (auto simp: raw_lines_last)
next
  case (2 p now b bs)
  show ?case
  proof (cases "b = CHR 0x0A")
    case True
    obtain ls' q' where rest: "timed_lines [] bs = (ls', q')" by fastforce
    with True 2(3) have "ls = (now, p) # ls'" "q = q'" by auto
    then show ?thesis using 2(1)[OF True rest] True 2(4) by (simp add: raw_lines_line)
  next
    case False
    then show ?thesis using 2(2)[OF False, of ls q] 2(3,4) by simp
  qed
qed

text \<open>The bytes of the reads, each with its time, and the time of the end.\<close>

fun timed_bytes :: "(nat \<times> stream_read) list \<Rightarrow> (nat \<times> char) list" where
  "timed_bytes [] = []"
| "timed_bytes ((now, StreamBytes bytes) # reads) = map (Pair now) bytes @ timed_bytes reads"
| "timed_bytes (_ # reads) = []"

fun end_time :: "(nat \<times> stream_read) list \<Rightarrow> nat option" where
  "end_time [] = None"
| "end_time ((now, StreamBytes bytes) # reads) = end_time reads"
| "end_time ((now, _) # reads) = Some now"

lemma capture_chunk_bytes:
  "capture_chunk now bytes c = fold (\<lambda>(now, b). capture_byte now b) (map (Pair now) bytes) c"
  unfolding capture_chunk_def by (induction bytes arbitrary: c) simp_all

lemma capture_stream_bytes:
  "capture_stream reads c = map_option (\<lambda>now. flush_line now (fold (\<lambda>(now, b). capture_byte now b) (timed_bytes reads) c))
     (end_time reads)"
  by (induction reads c rule: capture_stream.induct) (simp_all add: capture_chunk_bytes)

lemma flush_in_line:
  "lc_output_log (flush_line now (in_line q log)) = (if q = [] then log else push_output_line log now (captured_line q))"
proof -
  have "q \<noteq> [] \<Longrightarrow> take LINE_CONTENT_LIMIT q \<noteq> []" using limit_positive by simp
  then show ?thesis unfolding flush_line_def push_in_line by (simp add: in_line_def)
qed

section \<open>Properties\<close>

text \<open>
  C31. The log of a game receives exactly the lines of its output: however the operating system cuts
  a pipe's bytes into reads, when the reader ends (at the end of the stream or at an error) it
  has pushed the lines of all the bytes read, in order, each cut at the limit with a mark,
  without its carriage return and as valid text; a last line without a line feed counts.
\<close>

theorem captured_output_is_its_lines:
  assumes "end_time reads = Some now"
  shows "\<exists>lines. map snd lines = raw_lines (map snd (timed_bytes reads))
     \<and> capture_output_stream reads log = Some (push_lines lines log)"
proof -
  obtain ls q where l: "timed_lines [] (timed_bytes reads) = (ls, q)" by fastforce
  let ?lines = "ls @ (if q = [] then [] else [(now, q)])"
  have "map snd ?lines = raw_lines (map snd (timed_bytes reads))"
    using timed_lines_raw[OF l] by auto
  moreover have "capture_output_stream reads log = Some (push_lines ?lines log)"
    using assms capture_bytes[OF l] flush_in_line[of now q "push_lines ls log"]
    by (simp add: capture_output_stream_def capture_stream_bytes capture_start_in_line push_lines_def)
  ultimately show ?thesis by blast
qed

theorem captured_output_is_its_lines_witness:
  "\<exists>lines. map snd lines = [''ab'' @ [CHR 0x0D], ''c'']
     \<and> capture_output_stream [(1, StreamBytes ''a''), (2, StreamBytes (''b'' @ [CHR 0x0D, CHR 0x0A])),
          (3, StreamBytes ''c''), (4, StreamFailed)] (output_buffer_default 0) = Some (push_lines lines (output_buffer_default 0))"
  using captured_output_is_its_lines[of "[(1, StreamBytes ''a''), (2, StreamBytes (''b'' @ [CHR 0x0D, CHR 0x0A])),
          (3, StreamBytes ''c''), (4, StreamFailed)]" 4 "output_buffer_default 0"] by simp

text \<open>
  The log file: reading a file that only grows from the offset where the game was started pushes
  the complete lines that were appended; the bytes of an unfinished line wait for its end.
\<close>

fun file_bytes :: "(nat \<times> file_read) list \<Rightarrow> (nat \<times> char) list" where
  "file_bytes [] = []"
| "file_bytes ((now, FileBytes bytes) # reads) = map (Pair now) bytes @ file_bytes reads"
| "file_bytes (_ # reads) = file_bytes reads"

text \<open>The length a poll sees is never below what was read, as long as the file is not cut.\<close>

fun never_cut :: "nat \<Rightarrow> (nat \<times> file_read) list \<Rightarrow> bool" where
  "never_cut offset [] = True"
| "never_cut offset ((now, FileBytes bytes) # reads) = never_cut (offset + length bytes) reads"
| "never_cut offset ((now, FileEnd len seek_ok) # reads) =
     ((case len of None \<Rightarrow> True | Some n \<Rightarrow> offset \<le> n) \<and> never_cut offset reads)"
| "never_cut offset ((now, FileFailed) # reads) = False"

lemma capture_file_bytes:
  "never_cut offset reads \<Longrightarrow>
     capture_file reads offset c = fold (\<lambda>(now, b). capture_byte now b) (file_bytes reads) c"
  by (induction reads offset c rule: capture_file.induct)
    (auto simp: capture_chunk_bytes split: option.splits)

lemma followed_file_is_its_lines:
  assumes "never_cut start reads" "True \<in> set opens"
  shows "\<exists>lines rest. map snd lines @ (if rest = [] then [] else [rest]) = raw_lines (map snd (file_bytes reads))
     \<and> capture_output_file opens True reads start log = push_lines lines log"
proof -
  obtain ls q where l: "timed_lines [] (file_bytes reads) = (ls, q)" by fastforce
  have "map snd ls @ (if q = [] then [] else [q]) = raw_lines (map snd (file_bytes reads))"
    using timed_lines_raw[OF l] by simp
  moreover have "capture_output_file opens True reads start log = push_lines ls log"
    using assms capture_bytes[OF l]
    by (simp add: capture_output_file_def capture_file_bytes capture_start_in_line) (simp add: in_line_def)
  ultimately show ?thesis by blast
qed

text \<open>A turn of the loop that decides the wait.\<close>

definition decisive :: "output_pattern \<Rightarrow> nat \<Rightarrow> output_buffer \<times> nat \<Rightarrow> bool" where
  "decisive p deadline turn \<longleftrightarrow> pattern_matches p (log_text (fst turn))
     \<or> \<not> ob_running (fst turn) \<and> ob_drained (fst turn) \<or> deadline \<le> snd turn"

lemma wait_turns_first:
  "\<exists>turn \<in> set turns. decisive p deadline turn \<Longrightarrow>
     \<exists>before b now after. turns = before @ (b, now) # after \<and> decisive p deadline (b, now)
       \<and> (\<forall>turn \<in> set before. \<not> decisive p deadline turn)
       \<and> wait_turns p deadline turns = wait_turn p deadline b now"
proof (induction turns)
  case (Cons t turns)
  obtain b now where t: "t = (b, now)" by fastforce
  show ?case
  proof (cases "decisive p deadline t")
    case True
    then have "wait_turn p deadline b now \<noteq> None" by (auto simp: decisive_def wait_turn_def t)
    with True show ?thesis by (intro exI[of _ "[]"] exI[of _ b] exI[of _ now] exI[of _ turns]) (auto simp: t)
  next
    case False
    with Cons obtain before b' now' after where "turns = before @ (b', now') # after"
      "decisive p deadline (b', now')" "\<forall>turn \<in> set before. \<not> decisive p deadline turn"
      "wait_turns p deadline turns = wait_turn p deadline b' now'" by auto
    moreover have "wait_turn p deadline b now = None" using False by (auto simp: decisive_def wait_turn_def t)
    ultimately show ?thesis using False
      by (intro exI[of _ "t # before"] exI[of _ b'] exI[of _ now'] exI[of _ after]) (simp add: t)
  qed
qed simp

text \<open>
  Waiting for output ends, and its answer is the first thing that was decided: if some turn of
  the loop sees the pattern, a drained log of a game that is gone, or a clock at the deadline,
  then the wait returns, and what it returns is the answer of the first such turn: a match
  whenever the log's text at that turn matches, else the exit, else the timeout.
\<close>

lemma wait_reports_first_decisive_turn:
  assumes "\<exists>turn \<in> set turns. decisive (Literal pattern) (now + min timeout_ms MAX_OUTPUT_WAIT_TIMEOUT_MS) turn"
  shows "\<exists>before b at after. turns = before @ (b, at) # after
     \<and> (\<forall>turn \<in> set before. \<not> decisive (Literal pattern) (now + min timeout_ms MAX_OUTPUT_WAIT_TIMEOUT_MS) turn)
     \<and> wait_for_output_value regex_new pattern False timeout_ms now turns = Some (Inr
         (if is_substring pattern (log_text b) then WaitMatched (last_fifty b)
          else if \<not> ob_running b \<and> ob_drained b then WaitExited (ob_last_exit_code b) (last_fifty b)
          else WaitTimedOut (last_fifty b)))"
proof -
  let ?deadline = "now + min timeout_ms MAX_OUTPUT_WAIT_TIMEOUT_MS"
  obtain before b at after where t: "turns = before @ (b, at) # after" "decisive (Literal pattern) ?deadline (b, at)"
    "\<forall>turn \<in> set before. \<not> decisive (Literal pattern) ?deadline turn"
    "wait_turns (Literal pattern) ?deadline turns = wait_turn (Literal pattern) ?deadline b at"
    using wait_turns_first[OF assms] by (elim exE conjE)
  have "wait_turn (Literal pattern) ?deadline b at = Some
      (if is_substring pattern (log_text b) then WaitMatched (last_fifty b)
       else if \<not> ob_running b \<and> ob_drained b then WaitExited (ob_last_exit_code b) (last_fifty b)
       else WaitTimedOut (last_fifty b))"
    using t(2) by (auto simp: wait_turn_def decisive_def pattern_matches_def)
  then have "wait_for_output_value regex_new pattern False timeout_ms now turns = Some (Inr
      (if is_substring pattern (log_text b) then WaitMatched (last_fifty b)
       else if \<not> ob_running b \<and> ob_drained b then WaitExited (ob_last_exit_code b) (last_fifty b)
       else WaitTimedOut (last_fifty b)))"
    unfolding wait_for_output_value_def Let_def by (simp add: t(4))
  then show ?thesis
    by (intro exI[of _ before] exI[of _ b] exI[of _ at] exI[of _ after] conjI t(1,3))
qed

lemma wait_reports_first_decisive_turn_witness:
  "\<exists>r. wait_for_output_value (\<lambda>_. Inl []) ''ready'' False 999999 7
       [((push_output_line (output_buffer_default 0) 1 ''start'')\<lparr>ob_running := True\<rparr>, 10),
        ((push_output_line (output_buffer_default 0) 2 ''ready'')\<lparr>ob_running := True\<rparr>, 400000)] = Some (Inr r)"
proof -
  let ?turns = "[((push_output_line (output_buffer_default 0) 1 ''start'')\<lparr>ob_running := True\<rparr>, 10),
        ((push_output_line (output_buffer_default 0) 2 ''ready'')\<lparr>ob_running := True\<rparr>, 400000)]"
  have "decisive (Literal ''ready'') (7 + min 999999 MAX_OUTPUT_WAIT_TIMEOUT_MS) (last ?turns)"
    by (simp add: decisive_def MAX_OUTPUT_WAIT_TIMEOUT_MS_def)
  then have "\<exists>turn \<in> set ?turns. decisive (Literal ''ready'') (7 + min 999999 MAX_OUTPUT_WAIT_TIMEOUT_MS) turn"
    by (metis last_in_set list.distinct(1))
  from wait_reports_first_decisive_turn[OF this, of "\<lambda>_. Inl []"] show ?thesis by blast
qed

end
