(* ===== verification/Private_State.thy ===== *)
theory Private_State
  imports Atomic_Output "HOL-Library.Multiset"
begin

text \<open>
  The private state store, from \<open>src/private_state.rs\<close>: a directory outside every workspace
  root, in which records are written by an atomic replacement and read back under one
  operation lock.  It acts on the disk of \<open>Atomic_Output\<close>, so every system call may fail.
  A lock is held for the whole of an operation, so that each operation is one step and taking
  the lock is a call that may fail.  Paths the code computes are resolved by the view of the
  disk (\<open>dh_view\<close>); the nodes that are read and written are at the real locations.
\<close>

section \<open>The store and its errors\<close>

definition MAX_RECORD_BYTES :: nat where
  "MAX_RECORD_BYTES = 8 * 1024 * 1024"

definition TEMPORARY_NAME_ATTEMPTS :: nat where
  "TEMPORARY_NAME_ATTEMPTS = 32"

record state_store =
  ss_root :: path
  ss_operation_lock_path :: path

datatype store_error =
    StateIo string
  | StateDirectoryMissing path
  | NotAStateDirectory
  | InsideWorkspace
  | LockNotRegular
  | RecordName
  | RecordEscapes
  | RecordIsSymlink
  | RecordNotRegular
  | RecordTooLarge
  | RecordInvalid string
  | StateTemporaryExhausted

text \<open>System calls, with the errors of the store.\<close>

definition store_io :: "atomic_error \<Rightarrow> store_error" where
  "store_io e = (case e of AtomicIo m \<Rightarrow> StateIo m | _ \<Rightarrow> StateIo [])"

definition ssys :: "disk_host \<Rightarrow> (nodes \<Rightarrow> string + ('a \<times> nodes)) \<Rightarrow> disk \<Rightarrow> (store_error + 'a) \<times> disk" where
  "ssys h f d = (case sys h f d of (r, d) \<Rightarrow> (map_err store_io r, d))"

definition look :: "(filesystem \<Rightarrow> string + 'a) \<Rightarrow> disk_host \<Rightarrow> nodes \<Rightarrow> string + ('a \<times> nodes)" where
  "look f h ns = rbind (f (dh_view h ns)) (\<lambda>x. Inr (x, ns))"

definition exists_at :: "disk_host \<Rightarrow> path \<Rightarrow> disk \<Rightarrow> bool \<times> disk" where
  "exists_at h p d = (dh_fault h (dk_clock d) = None \<and> fs_exists (dh_view h (dk_nodes d)) p, tick d)"

section \<open>Opening\<close>

definition open_store :: "disk_host \<Rightarrow> path \<Rightarrow> EffectiveRoot list \<Rightarrow> disk \<Rightarrow> (store_error + state_store) \<times> disk" where
  "open_store h p workspace_roots d =
     (case sys h (look (\<lambda>fs. fs_symlink_metadata fs p) h) d of
        (Inl _, d) \<Rightarrow> (Inl (StateDirectoryMissing p), d)
      | (Inr kind, d) \<Rightarrow>
          if kind \<noteq> Directory then (Inl NotAStateDirectory, d)
          else act_bind (ssys h (look (\<lambda>fs. fs_canonicalize fs p) h)) (\<lambda>root.
            if \<exists>workspace \<in> set workspace_roots.
                 path_starts_with root (er_path workspace) \<or> path_starts_with (er_path workspace) root
            then act_return (Inl InsideWorkspace)
            else
              let lock_path = join_name root ''.meridian-mcp.lock'' in
              (\<lambda>d. case sys h (look (\<lambda>fs. fs_symlink_metadata fs lock_path) h) d of (found, d) \<Rightarrow>
                if (case found of Inr kind \<Rightarrow> kind \<noteq> RegularFile | Inl _ \<Rightarrow> False)
                then (Inl LockNotRegular, d)
                else act_bind (ssys h (\<lambda>ns. case ns lock_path of
                       None \<Rightarrow> Inr ((), ns(lock_path := Some (Regular [])))
                     | Some (Regular _) \<Rightarrow> Inr ((), ns) | Some _ \<Rightarrow> Inl ''is a directory'')) (\<lambda>_.
                  act_bind (ssys h (look (\<lambda>fs. fs_symlink_metadata fs lock_path) h)) (\<lambda>kind.
                  if kind \<noteq> RegularFile then act_return (Inl LockNotRegular)
                  else act_return (Inr \<lparr>ss_root = root, ss_operation_lock_path = lock_path\<rparr>))) d)) d)"

section \<open>Locks and record paths\<close>

definition lock_operation :: "disk_host \<Rightarrow> state_store \<Rightarrow> disk \<Rightarrow> (store_error + unit) \<times> disk" where
  "lock_operation h s =
     act_bind (ssys h (look (\<lambda>fs. fs_symlink_metadata fs (ss_operation_lock_path s)) h)) (\<lambda>kind.
     if kind \<noteq> RegularFile then act_return (Inl LockNotRegular)
     else
       act_bind (ssys h (read_node (ss_operation_lock_path s))) (\<lambda>_.
       act_bind (ssys h (look (\<lambda>fs. fs_symlink_metadata fs (ss_operation_lock_path s)) h)) (\<lambda>kind.
       if kind \<noteq> RegularFile then act_return (Inl LockNotRegular)
       else ssys h (\<lambda>ns. Inr ((), ns)))))"

text \<open>Where a path leads: the real directory of its parent, and its last component there.\<close>

definition location :: "disk_host \<Rightarrow> nodes \<Rightarrow> path \<Rightarrow> path" where
  "location h ns p =
     (case (parent p, file_name p) of
        (Some dir, Some n) \<Rightarrow>
          (case fs_canonicalize (dh_view h ns) dir of Inr c \<Rightarrow> join_name c n | Inl _ \<Rightarrow> p)
      | _ \<Rightarrow> p)"

definition leads_to_directory :: "disk_host \<Rightarrow> nodes \<Rightarrow> path \<Rightarrow> bool" where
  "leads_to_directory h ns p =
     (case fs_canonicalize (dh_view h ns) p of Inr c \<Rightarrow> ns c = Some DirNode | Inl _ \<Rightarrow> False)"

text \<open>\<open>create_dir_all\<close>, on the components of the path in reverse.\<close>

fun create_dirs :: "disk_host \<Rightarrow> component list \<Rightarrow> nodes \<Rightarrow> string + nodes" where
  "create_dirs h [] ns = Inr ns"
| "create_dirs h (c # up) ns =
     (if leads_to_directory h ns (rev (c # up)) then Inr ns
      else rbind (create_dirs h up ns) (\<lambda>ns.
        let p = location h ns (rev (c # up)) in
        if ns p = None then Inr (ns(p := Some DirNode)) else Inl ''file exists''))"

definition create_dir_all :: "disk_host \<Rightarrow> path \<Rightarrow> nodes \<Rightarrow> string + (unit \<times> nodes)" where
  "create_dir_all h p ns = rbind (create_dirs h (rev p) ns) (\<lambda>ns. Inr ((), ns))"

definition is_normal :: "component \<Rightarrow> bool" where
  "is_normal c = (case c of Normal _ \<Rightarrow> True | _ \<Rightarrow> False)"

definition record_name_ok :: "path \<Rightarrow> bool" where
  "record_name_ok p \<longleftrightarrow> p \<noteq> [] \<and> \<not> is_absolute p \<and> list_all is_normal p"

definition check_contained :: "disk_host \<Rightarrow> state_store \<Rightarrow> path \<Rightarrow> disk \<Rightarrow> (store_error + unit) \<times> disk" where
  "check_contained h s dir d =
     (case exists_at h dir d of (present, d) \<Rightarrow>
        if present then
          act_bind (ssys h (look (\<lambda>fs. fs_canonicalize fs dir) h)) (\<lambda>c.
            act_return (if path_starts_with c (ss_root s) then Inr () else Inl RecordEscapes)) d
        else (Inr (), d))"

definition check_no_symlink :: "disk_host \<Rightarrow> path \<Rightarrow> disk \<Rightarrow> (store_error + unit) \<times> disk" where
  "check_no_symlink h p d =
     (case exists_at h p d of (present, d) \<Rightarrow>
        if present then
          act_bind (ssys h (look (\<lambda>fs. fs_symlink_metadata fs p) h)) (\<lambda>kind.
            act_return (if kind = Symlink then Inl RecordIsSymlink else Inr ())) d
        else (Inr (), d))"

text \<open>The location of a record; the code's path is the one the caller asked for.\<close>

definition resolve_record ::
  "disk_host \<Rightarrow> state_store \<Rightarrow> string \<Rightarrow> bool \<Rightarrow> disk \<Rightarrow> (store_error + path) \<times> disk" where
  "resolve_record h s relative create_parent d =
     (let relative = fs_from_str (dh_view h (dk_nodes d)) relative;
          p = ss_root s @ relative;
          dir = butlast p
      in if \<not> record_name_ok relative then (Inl RecordName, d)
         else
           act_bind (if create_parent then ssys h (create_dir_all h dir) else act_return (Inr ())) (\<lambda>_.
           act_bind (check_contained h s dir) (\<lambda>_.
           act_bind (check_no_symlink h p) (\<lambda>_ d.
             (Inr (location h (dk_nodes d) p), d)))) d)"

section \<open>Reading\<close>

definition read_record :: "disk_host \<Rightarrow> (string \<Rightarrow> string + 'a) \<Rightarrow> path \<Rightarrow> disk \<Rightarrow> (store_error + 'a) \<times> disk" where
  "read_record h parse p =
     act_bind (ssys h (\<lambda>ns. case ns p of None \<Rightarrow> Inl ''not found'' | Some n \<Rightarrow> Inr (n, ns))) (\<lambda>n.
     case n of
       Regular content \<Rightarrow>
         if MAX_RECORD_BYTES < length content then act_return (Inl RecordTooLarge)
         else act_bind (ssys h (read_node p)) (\<lambda>content.
           let bytes = take (Suc MAX_RECORD_BYTES) content in
           if MAX_RECORD_BYTES < length bytes then act_return (Inl RecordTooLarge)
           else act_return (map_err RecordInvalid (parse bytes)))
     | _ \<Rightarrow> act_return (Inl RecordNotRegular))"

definition read_json_unlocked ::
  "disk_host \<Rightarrow> state_store \<Rightarrow> (string \<Rightarrow> string + 'a) \<Rightarrow> string \<Rightarrow> disk \<Rightarrow> (store_error + 'a) \<times> disk" where
  "read_json_unlocked h s parse relative =
     act_bind (resolve_record h s relative False) (\<lambda>p. read_record h parse p)"

definition read_json ::
  "disk_host \<Rightarrow> state_store \<Rightarrow> (string \<Rightarrow> string + 'a) \<Rightarrow> string \<Rightarrow> disk \<Rightarrow> (store_error + 'a) \<times> disk" where
  "read_json h s parse relative =
     act_bind (lock_operation h s) (\<lambda>_. read_json_unlocked h s parse relative)"

text \<open>Reading a record that may be missing: only \<open>NotFound\<close> is \<open>None\<close>.\<close>

definition read_json_optional_unlocked ::
  "disk_host \<Rightarrow> state_store \<Rightarrow> (string \<Rightarrow> string + 'a) \<Rightarrow> string \<Rightarrow> disk \<Rightarrow> (store_error + 'a option) \<times> disk" where
  "read_json_optional_unlocked h s parse relative =
     act_bind (resolve_record h s relative False) (\<lambda>p.
     act_bind (ssys h (\<lambda>ns. Inr (ns p, ns))) (\<lambda>n.
     case n of None \<Rightarrow> act_return (Inr None)
     | Some _ \<Rightarrow> act_bind (read_record h parse p) (\<lambda>x. act_return (Inr (Some x)))))"

section \<open>Writing\<close>

definition random_hex :: "disk_host \<Rightarrow> disk \<Rightarrow> (store_error + string) \<times> disk" where
  "random_hex h d = (map_err StateIo (dh_random h (dk_clock d)), tick d)"

fun create_state_file :: "nat \<Rightarrow> disk_host \<Rightarrow> path \<Rightarrow> disk \<Rightarrow> (store_error + path) \<times> disk" where
  "create_state_file 0 h dir d = (Inl StateTemporaryExhausted, d)"
| "create_state_file (Suc n) h dir d =
     act_bind (random_hex h) (\<lambda>hex.
     let p = join_name dir (''.meridian-tmp-'' @ hex) in
     act_bind (ssys h (create_new p)) (\<lambda>created.
       if created then act_return (Inr p) else create_state_file n h dir)) d"

definition backup_record :: "disk_host \<Rightarrow> path \<Rightarrow> path \<Rightarrow> disk \<Rightarrow> (store_error + path option) \<times> disk" where
  "backup_record h dir out d =
     (case path_exists h out d of (present, d) \<Rightarrow>
        if present then
          act_bind (random_hex h) (\<lambda>hex.
          let b = join_name dir (''.meridian-backup-'' @ hex) in
          act_bind (ssys h (rename_node out b)) (\<lambda>_. act_return (Inr (Some b)))) d
        else (Inr None, d))"

text \<open>The rename over the record; a failed one restores the backup, ignoring a second failure.\<close>

definition move_in :: "disk_host \<Rightarrow> path \<Rightarrow> path \<Rightarrow> path option \<Rightarrow> disk \<Rightarrow> (store_error + unit) \<times> disk" where
  "move_in h temporary out backup d =
     (case ssys h (rename_node temporary out) d of
         (Inl e, d) \<Rightarrow>
           (Inl e, case backup of None \<Rightarrow> d | Some b \<Rightarrow> snd (ssys h (rename_node b out) d))
       | (Inr _, d) \<Rightarrow>
           act_bind (case backup of None \<Rightarrow> act_return (Inr ()) | Some b \<Rightarrow> ssys h (remove_node b)) (\<lambda>_.
           act_bind (ssys h (read_node out)) (\<lambda>_.
           ssys h (\<lambda>ns. Inr ((), ns)))) d)"

definition install_record :: "disk_host \<Rightarrow> path \<Rightarrow> path \<Rightarrow> disk \<Rightarrow> (store_error + unit) \<times> disk" where
  "install_record h temporary out =
     act_bind (backup_record h (butlast out) out) (move_in h temporary out)"

definition append_bytes :: "disk_host \<Rightarrow> path \<Rightarrow> string \<Rightarrow> disk \<Rightarrow> (store_error + unit) \<times> disk" where
  "append_bytes h p bytes =
     ssys h (\<lambda>ns. case ns p of Some (Regular c) \<Rightarrow> Inr ((), ns(p := Some (Regular (c @ bytes))))
                  | _ \<Rightarrow> Inl ''not a file'')"

definition fill_record :: "disk_host \<Rightarrow> path \<Rightarrow> string \<Rightarrow> disk \<Rightarrow> (store_error + unit) \<times> disk" where
  "fill_record h temporary bytes =
     act_bind (append_bytes h temporary bytes) (\<lambda>_.
     act_bind (append_bytes h temporary [CHR 0x0A]) (\<lambda>_.
     act_bind (ssys h (\<lambda>ns. Inr ((), ns))) (\<lambda>_.
     ssys h (\<lambda>ns. Inr ((), ns)))))"

definition store_temporary ::
  "disk_host \<Rightarrow> state_store \<Rightarrow> (string \<Rightarrow> string + unit) \<Rightarrow> string \<Rightarrow> path \<Rightarrow> string \<Rightarrow> path \<Rightarrow> disk
   \<Rightarrow> (store_error + unit) \<times> disk" where
  "store_temporary h s valid relative out bytes temporary =
     act_bind (fill_record h temporary bytes) (\<lambda>_.
     act_bind (install_record h temporary out) (\<lambda>_.
     read_json_unlocked h s valid relative))"

definition commit_record ::
  "disk_host \<Rightarrow> state_store \<Rightarrow> (string \<Rightarrow> string + unit) \<Rightarrow> string \<Rightarrow> path \<Rightarrow> string \<Rightarrow> path \<Rightarrow> disk
   \<Rightarrow> (store_error + path) \<times> disk" where
  "commit_record h s valid relative out bytes temporary d =
     (case store_temporary h s valid relative out bytes temporary d of
        (Inl e, d) \<Rightarrow> (Inl e, snd (ssys h (remove_node temporary) d))
      | (Inr _, d) \<Rightarrow> (Inr out, d))"

definition write_json_atomic ::
  "disk_host \<Rightarrow> state_store \<Rightarrow> (string \<Rightarrow> string + unit) \<Rightarrow> string \<Rightarrow> string + string \<Rightarrow> disk
   \<Rightarrow> (store_error + path) \<times> disk" where
  "write_json_atomic h s valid relative encoded =
     act_bind (lock_operation h s) (\<lambda>_.
     act_bind (resolve_record h s relative True) (\<lambda>out.
     act_bind (act_return (map_err RecordInvalid encoded)) (\<lambda>bytes.
     if MAX_RECORD_BYTES < length bytes then act_return (Inl RecordTooLarge)
     else
       act_bind (create_state_file TEMPORARY_NAME_ATTEMPTS h (butlast out))
         (commit_record h s valid relative out bytes))))"

section \<open>Liveness locks\<close>

text \<open>
  \<open>try_lock\<close> and \<open>lock\<close> on the opened file are answered by the set of files that other
  processes hold locked; a lock that blocks for ever does not return.
\<close>

definition open_liveness_file :: "disk_host \<Rightarrow> state_store \<Rightarrow> string \<Rightarrow> disk \<Rightarrow> (store_error + path) \<times> disk" where
  "open_liveness_file h s relative =
     act_bind (lock_operation h s) (\<lambda>_.
     act_bind (resolve_record h s relative True) (\<lambda>p d.
       case sys h (\<lambda>ns. case ns p of None \<Rightarrow> Inl ''not found'' | Some n \<Rightarrow> Inr (n, ns)) d of (found, d) \<Rightarrow>
         if (case found of Inr (Regular _) \<Rightarrow> False | Inr _ \<Rightarrow> True | Inl _ \<Rightarrow> False)
         then (Inl LockNotRegular, d)
         else act_bind (ssys h (\<lambda>ns. case ns p of
                None \<Rightarrow> Inr ((), ns(p := Some (Regular [])))
              | Some (Regular _) \<Rightarrow> Inr ((), ns) | Some _ \<Rightarrow> Inl ''is a directory'')) (\<lambda>_.
           act_bind (ssys h (\<lambda>ns. case ns p of None \<Rightarrow> Inl ''not found'' | Some n \<Rightarrow> Inr (n, ns))) (\<lambda>n.
           act_return (case n of Regular _ \<Rightarrow> Inr p | _ \<Rightarrow> Inl LockNotRegular))) d))"

definition try_acquire_liveness_lock ::
  "disk_host \<Rightarrow> path set \<Rightarrow> state_store \<Rightarrow> string \<Rightarrow> disk \<Rightarrow> (store_error + path option) \<times> disk" where
  "try_acquire_liveness_lock h held s relative =
     act_bind (open_liveness_file h s relative) (\<lambda>p.
       act_return (Inr (if p \<in> held then None else Some p)))"

definition acquire_liveness_lock ::
  "disk_host \<Rightarrow> path set \<Rightarrow> state_store \<Rightarrow> string \<Rightarrow> disk \<Rightarrow> ((store_error + path) \<times> disk) option" where
  "acquire_liveness_lock h held s relative d =
     (case open_liveness_file h s relative d of
        (Inl e, d) \<Rightarrow> Some (Inl e, d)
      | (Inr p, d) \<Rightarrow> if p \<in> held then None else Some (Inr p, d))"

section \<open>Enumeration\<close>

text \<open>
  What \<open>read_dir\<close> shows of a namespace is a tree; \<open>list_records\<close> walks it with a stack of
  pending directories.
\<close>

datatype state_tree = RecordFile | SubDirectory "(string \<times> state_tree) list" | SymlinkEntry | OtherEntry

definition MAX_RECORDS :: nat where
  "MAX_RECORDS = 100000"

datatype listing_error = NamespaceSymlink | TooManyRecords | NamespaceRefused store_error

type_synonym pending_dirs = "(path \<times> (string \<times> state_tree) list) list"

fun list_directory ::
  "nat \<Rightarrow> path \<Rightarrow> (string \<times> state_tree) list \<Rightarrow> pending_dirs \<Rightarrow> path list \<Rightarrow> listing_error + pending_dirs \<times> path list" where
  "list_directory maximum dir [] pending records = Inr (pending, records)"
| "list_directory maximum dir ((n, t) # es) pending records =
     (case t of
        SymlinkEntry \<Rightarrow> Inl NamespaceSymlink
      | SubDirectory sub \<Rightarrow> list_directory maximum dir es ((join_name dir n, sub) # pending) records
      | RecordFile \<Rightarrow>
          (let records = records @ [join_name dir n] in
           if maximum < length records then Inl TooManyRecords
           else list_directory maximum dir es pending records)
      | OtherEntry \<Rightarrow> list_directory maximum dir es pending records)"

fun tree_size :: "state_tree \<Rightarrow> nat" where
  "tree_size (SubDirectory es) = Suc (sum_list (map (\<lambda>(n, t). Suc (tree_size t)) es))"
| "tree_size t = 0"

definition entries_size :: "(string \<times> state_tree) list \<Rightarrow> nat" where
  "entries_size es = sum_list (map (\<lambda>(n, t). Suc (tree_size t)) es)"

definition pending_size :: "pending_dirs \<Rightarrow> nat" where
  "pending_size ps = sum_list (map (\<lambda>(dir, es). Suc (entries_size es)) ps)"

lemma list_directory_pending:
  "list_directory maximum dir es pending records = Inr (pending', records') \<Longrightarrow>
     pending_size pending' \<le> entries_size es + pending_size pending"
  by (induction maximum dir es pending records rule: list_directory.induct)
    (auto simp: entries_size_def pending_size_def Let_def split: state_tree.splits if_splits)

function (sequential) list_pending :: "nat \<Rightarrow> pending_dirs \<Rightarrow> path list \<Rightarrow> listing_error + path list" where
  "list_pending maximum [] records = Inr records"
| "list_pending maximum ((dir, es) # pending) records =
     (case list_directory maximum dir es pending records of
        Inl e \<Rightarrow> Inl e
      | Inr (pending, records) \<Rightarrow> list_pending maximum pending records)"
  by pat_completeness auto

termination
proof (relation "measure (\<lambda>(maximum, pending, records). pending_size pending)")
  fix maximum :: nat and dir es pending records x pending' records'
  assume "list_directory maximum dir es pending records = Inr x" "(pending', records') = x"
  then have "pending_size pending' \<le> entries_size es + pending_size pending"
    by (auto dest: list_directory_pending)
  then show "((maximum, pending', records'), maximum, (dir, es) # pending, records)
      \<in> measure (\<lambda>(maximum, pending, records). pending_size pending)"
    by (simp add: pending_size_def)
qed simp

definition list_records ::
  "disk_host \<Rightarrow> (nodes \<Rightarrow> path \<Rightarrow> state_tree) \<Rightarrow> state_store \<Rightarrow> string \<Rightarrow> nat \<Rightarrow> disk
   \<Rightarrow> (listing_error + path list) \<times> disk" where
  "list_records h tree s namespace max_entries d =
     (case act_bind (lock_operation h s) (\<lambda>_. resolve_record h s namespace False) d of
        (Inl e, d) \<Rightarrow> (Inl (NamespaceRefused e), d)
      | (Inr directory, d) \<Rightarrow>
          (case tree (dk_nodes d) directory of
             SubDirectory es \<Rightarrow>
               (case list_pending (min max_entries MAX_RECORDS) [(directory, es)] [] of
                  Inl e \<Rightarrow> (Inl e, d) | Inr records \<Rightarrow> (Inr (sort records), d))
           | _ \<Rightarrow> (Inr [], d)))"

section \<open>Lemmas\<close>

lemma ssysE:
  assumes "ssys h f d = (r, d')"
  obtains e where "r = Inl e" "dk_nodes d' = dk_nodes d"
  | x where "r = Inr x" "f (dk_nodes d) = Inr (x, dk_nodes d')"
proof -
  obtain r1 where one: "sys h f d = (r1, d')" and r: "r = map_err store_io r1"
    using assms by (auto simp: ssys_def split: prod.splits)
  from one show ?thesis by (cases rule: sysE) (use that r in \<open>auto simp: map_err_def\<close>)
qed

lemma exists_at_nodes: "exists_at h p d = (b, d') \<Longrightarrow> dk_nodes d' = dk_nodes d"
  by (auto simp: exists_at_def)

lemma look_nodes: "look f h ns = Inr (x, ns') \<Longrightarrow> ns' = ns"
  by (auto simp: look_def rbind_Inr)

lemma lock_operation_nodes: "lock_operation h s d = (r, d') \<Longrightarrow> dk_nodes d' = dk_nodes d"
  unfolding lock_operation_def
  by (elim act_bindE ssysE)
    (auto simp: act_return_def read_node_def split: if_splits option.splits node.splits
      dest!: look_nodes elim!: act_bindE ssysE)

lemma check_contained_nodes: "check_contained h s p d = (r, d') \<Longrightarrow> dk_nodes d' = dk_nodes d"
  by (auto simp: check_contained_def act_return_def dest!: exists_at_nodes look_nodes
      elim!: act_bindE ssysE split: prod.splits if_splits)

lemma check_no_symlink_nodes: "check_no_symlink h p d = (r, d') \<Longrightarrow> dk_nodes d' = dk_nodes d"
  by (auto simp: check_no_symlink_def act_return_def dest!: exists_at_nodes look_nodes
      elim!: act_bindE ssysE split: prod.splits if_splits)

text \<open>Directories are all that resolving a record adds to the disk.\<close>

definition grown :: "nodes \<Rightarrow> nodes \<Rightarrow> bool" where
  "grown ns ns' \<longleftrightarrow> (\<forall>p. ns' p = ns p \<or> ns p = None \<and> ns' p = Some DirNode)"

lemma grown_refl: "grown ns ns"
  by (simp add: grown_def)

lemma grown_trans: "grown a b \<Longrightarrow> grown b c \<Longrightarrow> grown a c"
  unfolding grown_def by metis

lemma create_dirs_grown: "create_dirs h p ns = Inr ns' \<Longrightarrow> grown ns ns'"
proof (induction h p ns arbitrary: ns' rule: create_dirs.induct)
  case (2 h c up ns)
  show ?case
  proof (cases "leads_to_directory h ns (rev (c # up))")
    case False
    with 2(2) obtain ns1 where one: "create_dirs h up ns = Inr ns1"
      and ns': "ns1 (location h ns1 (rev (c # up))) = None"
        "ns' = ns1(location h ns1 (rev (c # up)) := Some DirNode)"
      by (auto simp: rbind_Inr Let_def split: if_splits)
    have "grown ns1 ns'" using ns' by (simp add: grown_def)
    then show ?thesis using 2(1)[OF False one] grown_trans by blast
  qed (use 2(2) in \<open>simp add: grown_refl\<close>)
qed (simp add: grown_refl)

lemma create_dir_all_grown: "create_dir_all h p ns = Inr (u, ns') \<Longrightarrow> grown ns ns'"
  by (auto simp: create_dir_all_def rbind_Inr dest: create_dirs_grown)

lemma resolve_record_post:
  assumes "resolve_record h s relative create d = (r, d')"
  shows "grown (dk_nodes d) (dk_nodes d') \<and> (\<not> create \<longrightarrow> dk_nodes d' = dk_nodes d)
    \<and> (\<forall>p. r = Inr p \<longrightarrow> (let rel = fs_from_str (dh_view h (dk_nodes d)) relative in
         record_name_ok rel \<and> p = location h (dk_nodes d') (ss_root s @ rel)))"
proof -
  define rel where "rel = fs_from_str (dh_view h (dk_nodes d)) relative"
  let ?p = "ss_root s @ rel"
  show ?thesis
  proof (cases "record_name_ok rel")
    case False
    then have "r = Inl RecordName" "d' = d"
      using assms by (simp_all add: resolve_record_def Let_def rel_def[symmetric])
    then show ?thesis by (simp add: grown_refl)
  next
    case True
    from assms True have run: "act_bind (if create then ssys h (create_dir_all h (butlast ?p)) else act_return (Inr ())) (\<lambda>_.
           act_bind (check_contained h s (butlast ?p)) (\<lambda>_.
           act_bind (check_no_symlink h ?p) (\<lambda>_ d. (Inr (location h (dk_nodes d) ?p), d)))) d = (r, d')"
      by (simp add: resolve_record_def Let_def rel_def[symmetric])
    have made: "grown (dk_nodes d) (dk_nodes d1) \<and> (\<not> create \<longrightarrow> dk_nodes d1 = dk_nodes d)"
      if "(if create then ssys h (create_dir_all h (butlast ?p)) else act_return (Inr ())) d = (r1, d1)" for r1 d1
      using that by (auto simp: act_return_def grown_refl elim!: ssysE dest: create_dir_all_grown split: if_splits)
    from run show ?thesis
      by (elim act_bindE) (auto simp: Let_def rel_def[symmetric] True dest!: made check_contained_nodes check_no_symlink_nodes)
  qed
qed

lemma read_record_nodes: "read_record h parse p d = (r, d') \<Longrightarrow> dk_nodes d' = dk_nodes d"
  unfolding read_record_def
  by (elim act_bindE ssysE)
    (auto simp: act_return_def Let_def read_node_def split: node.splits if_splits option.splits elim!: act_bindE ssysE)

lemma resolve_record_nodes: "resolve_record h s rel False d = (r, d') \<Longrightarrow> dk_nodes d' = dk_nodes d"
  using resolve_record_post[of h s rel False d r d'] by simp

lemma read_json_unlocked_nodes: "read_json_unlocked h s parse rel d = (r, d') \<Longrightarrow> dk_nodes d' = dk_nodes d"
  unfolding read_json_unlocked_def
  by (elim act_bindE) (auto dest!: resolve_record_nodes read_record_nodes)

text \<open>The names of temporaries and backups.\<close>

definition state_private :: "path \<Rightarrow> bool" where
  "state_private p \<longleftrightarrow> (\<exists>n. file_name p = Some n \<and> prefix ''.meridian-'' n)"

definition temporary_in :: "path \<Rightarrow> path \<Rightarrow> bool" where
  "temporary_in dir p \<longleftrightarrow> (\<exists>hex. p = join_name dir (''.meridian-tmp-'' @ hex))"

definition backup_in :: "path \<Rightarrow> path \<Rightarrow> bool" where
  "backup_in dir p \<longleftrightarrow> (\<exists>hex. p = join_name dir (''.meridian-backup-'' @ hex))"

lemma temporary_private: "temporary_in dir p \<Longrightarrow> state_private p"
  by (auto simp: temporary_in_def state_private_def)

lemma backup_private: "backup_in dir p \<Longrightarrow> state_private p"
  by (auto simp: backup_in_def state_private_def)

lemma temporary_not_backup: "temporary_in dir p \<Longrightarrow> backup_in dir q \<Longrightarrow> p \<noteq> q"
  by (auto simp: temporary_in_def backup_in_def join_name_def)

lemma random_hex_nodes: "random_hex h d = (r, d') \<Longrightarrow> dk_nodes d' = dk_nodes d"
  by (auto simp: random_hex_def)

lemma create_state_file_post:
  "create_state_file n h dir d = (r, d') \<Longrightarrow>
     (case r of Inl e \<Rightarrow> dk_nodes d' = dk_nodes d
      | Inr p \<Rightarrow> temporary_in dir p \<and> dk_nodes d p = None \<and> dk_nodes d' = (dk_nodes d)(p := Some (Regular [])))"
proof (induction n arbitrary: d)
  case 0
  then show ?case by auto
next
  case (Suc n)
  from Suc.prems show ?case
    unfolding create_state_file.simps
  proof (rule act_bindE)
    fix e
    assume "random_hex h d = (Inl e, d')" "r = Inl e"
    then show ?thesis by (simp add: random_hex_nodes)
  next
    fix hex s1
    let ?p = "join_name dir (''.meridian-tmp-'' @ hex)"
    assume "random_hex h d = (Inr hex, s1)"
    then have s1: "dk_nodes s1 = dk_nodes d" by (rule random_hex_nodes)
    assume "(let p = ?p in act_bind (ssys h (create_new p)) (\<lambda>created.
        if created then act_return (Inr p) else create_state_file n h dir)) s1 = (r, d')"
    then have run: "act_bind (ssys h (create_new ?p)) (\<lambda>created.
        if created then act_return (Inr ?p) else create_state_file n h dir) s1 = (r, d')" by (simp only: Let_def)
    then show ?thesis
    proof (rule act_bindE)
      fix e
      assume "ssys h (create_new ?p) s1 = (Inl e, d')" "r = Inl e"
      then show ?thesis using s1 by (auto elim: ssysE)
    next
      fix created s2
      assume "ssys h (create_new ?p) s1 = (Inr created, s2)"
      then have new: "create_new ?p (dk_nodes d) = Inr (created, dk_nodes s2)"
        using s1 by (auto elim: ssysE)
      assume rest: "(if created then act_return (Inr ?p) else create_state_file n h dir) s2 = (r, d')"
      show ?thesis
      proof (cases created)
        case True
        with new have "dk_nodes d ?p = None" "dk_nodes s2 = (dk_nodes d)(?p := Some (Regular []))"
          by (simp_all add: create_new_def split: if_splits)
        moreover have "r = Inr ?p" "d' = s2" using rest True by (simp_all add: act_return_def)
        ultimately show ?thesis by (auto simp: temporary_in_def)
      next
        case False
        with new have "dk_nodes s2 = dk_nodes d" by (simp add: create_new_def split: if_splits)
        then show ?thesis using rest False Suc.IH[of s2] by (simp split: sum.splits)
      qed
    qed
  qed
qed

lemma append_bytes_post:
  assumes "append_bytes h p bytes d = (r, d')" "dk_nodes d p = Some (Regular c)"
  shows "case r of Inl _ \<Rightarrow> dk_nodes d' = dk_nodes d
    | Inr _ \<Rightarrow> dk_nodes d' = (dk_nodes d)(p := Some (Regular (c @ bytes)))"
  using assms by (auto simp: append_bytes_def elim!: ssysE)

lemma sync_nodes: "ssys h (\<lambda>ns. Inr ((), ns)) d = (r, d') \<Longrightarrow> dk_nodes d' = dk_nodes d"
  by (erule ssysE) simp_all

lemma fill_record_post:
  assumes "fill_record h p bytes d = (r, d')" "dk_nodes d p = Some (Regular [])"
  shows "\<exists>c. dk_nodes d' = (dk_nodes d)(p := Some (Regular c)) \<and> (\<forall>u. r = Inr u \<longrightarrow> c = bytes @ [CHR 0x0A])"
proof -
  have same: "(dk_nodes d)(p := Some (Regular [])) = dk_nodes d" using assms(2) by auto
  from assms(1)[unfolded fill_record_def] show ?thesis
  proof (rule act_bindE)
    fix e
    assume "append_bytes h p bytes d = (Inl e, d')" "r = Inl e"
    then show ?thesis using append_bytes_post[OF _ assms(2), of h bytes "Inl e" d'] same
      by (intro exI[of _ "[]"]) simp
  next
    fix u d1
    assume "append_bytes h p bytes d = (Inr u, d1)"
    then have d1: "dk_nodes d1 = (dk_nodes d)(p := Some (Regular bytes))"
      using append_bytes_post[OF _ assms(2), of h bytes "Inr u" d1] by simp
    then have c1: "dk_nodes d1 p = Some (Regular bytes)" by simp
    assume "act_bind (append_bytes h p [CHR 0x0A]) (\<lambda>_. act_bind (ssys h (\<lambda>ns. Inr ((), ns)))
       (\<lambda>_. ssys h (\<lambda>ns. Inr ((), ns)))) d1 = (r, d')"
    then show ?thesis
    proof (rule act_bindE)
      fix e
      assume "append_bytes h p [CHR 0x0A] d1 = (Inl e, d')" "r = Inl e"
      then show ?thesis using append_bytes_post[OF _ c1, of h "[CHR 0x0A]" "Inl e" d'] d1 by force
    next
      fix v d2
      assume "append_bytes h p [CHR 0x0A] d1 = (Inr v, d2)"
      then have d2: "dk_nodes d2 = (dk_nodes d)(p := Some (Regular (bytes @ [CHR 0x0A])))"
        using append_bytes_post[OF _ c1, of h "[CHR 0x0A]" "Inr v" d2] d1 by simp
      assume "act_bind (ssys h (\<lambda>ns. Inr ((), ns))) (\<lambda>_. ssys h (\<lambda>ns. Inr ((), ns))) d2 = (r, d')"
      then have "dk_nodes d' = dk_nodes d2"
        by (elim act_bindE) (auto dest!: sync_nodes)
      then show ?thesis using d2 by auto
    qed
  qed
qed

lemma ssys_rename:
  assumes "ssys h (rename_node a b) d = (r, d')"
  shows "(\<exists>e. r = Inl e) \<and> dk_nodes d' = dk_nodes d \<or>
    r = Inr () \<and> (\<exists>n. dk_nodes d a = Some n \<and> dk_nodes d' = (dk_nodes d)(a := None, b := Some n))"
  using assms by (auto simp: rename_node_def elim!: ssysE split: option.splits if_splits)

lemma backup_record_post:
  assumes "backup_record h dir out d = (r, d')"
  shows "case r of Inr (Some b) \<Rightarrow> backup_in dir b \<and> dk_nodes d' = (dk_nodes d)(out := None, b := dk_nodes d out)
          | _ \<Rightarrow> dk_nodes d' = dk_nodes d"
proof -
  obtain present d1 where p: "path_exists h out d = (present, d1)" by fastforce
  then have d1: "dk_nodes d1 = dk_nodes d" by (rule path_exists_nodes)
  show ?thesis
  proof (cases present)
    case False
    then show ?thesis using assms d1 by (auto simp: backup_record_def p)
  next
    case True
    with assms have "act_bind (random_hex h) (\<lambda>hex. let b = join_name dir (''.meridian-backup-'' @ hex) in
          act_bind (ssys h (rename_node out b)) (\<lambda>_. act_return (Inr (Some b)))) d1 = (r, d')"
      by (simp add: backup_record_def p)
    then show ?thesis
    proof (rule act_bindE)
      fix e
      assume "random_hex h d1 = (Inl e, d')" "r = Inl e"
      then show ?thesis using d1 by (simp add: random_hex_nodes)
    next
      fix hex d2
      assume "random_hex h d1 = (Inr hex, d2)"
      then have d2: "dk_nodes d2 = dk_nodes d" using d1 by (simp add: random_hex_nodes)
      define b where "b = join_name dir (''.meridian-backup-'' @ hex)"
      have b: "backup_in dir b" unfolding backup_in_def b_def by blast
      assume "(let b = join_name dir (''.meridian-backup-'' @ hex) in
          act_bind (ssys h (rename_node out b)) (\<lambda>_. act_return (Inr (Some b)))) d2 = (r, d')"
      then have "act_bind (ssys h (rename_node out b)) (\<lambda>_. act_return (Inr (Some b))) d2 = (r, d')"
        by (simp only: Let_def b_def)
      then show ?thesis
      proof (rule act_bindE)
        fix e
        assume "ssys h (rename_node out b) d2 = (Inl e, d')" "r = Inl e"
        then show ?thesis using d2 by (auto elim: ssysE)
      next
        fix u d3
        assume "ssys h (rename_node out b) d2 = (Inr u, d3)" "act_return (Inr (Some b)) d3 = (r, d')"
        then show ?thesis using ssys_rename[of h out b d2 "Inr u" d3] b d2 by (auto simp: act_return_def)
      qed
    qed
  qed
qed

text \<open>
  What a step may leave of a record: the old node, the new content, or nothing at the record and
  the old node at a backup beside it.
\<close>

definition outside :: "path \<Rightarrow> nodes \<Rightarrow> nodes \<Rightarrow> bool" where
  "outside out ns ns' \<longleftrightarrow> (\<forall>p. p \<noteq> out \<and> \<not> state_private p \<longrightarrow> ns' p = ns p)"

definition not_lost :: "path \<Rightarrow> string \<Rightarrow> nodes \<Rightarrow> nodes \<Rightarrow> bool" where
  "not_lost out c ns ns' \<longleftrightarrow> ns' out = ns out \<or> ns' out = Some (Regular c)
     \<or> ns' out = None \<and> (\<exists>b. backup_in (butlast out) b \<and> ns' b = ns out)"

lemma outside_private: "state_private p \<Longrightarrow> outside out ns ns' \<Longrightarrow> outside out ns (ns'(p := v))"
  by (auto simp: outside_def)

lemma outside_trans: "outside out a b \<Longrightarrow> outside out b c \<Longrightarrow> outside out a c"
  by (simp add: outside_def)

lemma outside_refl: "outside out ns ns"
  by (simp add: outside_def)

lemma ssys_remove:
  "ssys h (remove_node p) d = (r, d') \<Longrightarrow> dk_nodes d' = dk_nodes d \<or> dk_nodes d' = (dk_nodes d)(p := None)"
  by (erule ssysE) (auto simp: remove_node_def split: option.splits node.splits)

lemma ssys_read_nodes: "ssys h (read_node p) d = (r, d') \<Longrightarrow> dk_nodes d' = dk_nodes d"
  by (erule ssysE) (auto simp: read_node_def split: option.splits node.splits)

lemma install_record_post:
  assumes run: "install_record h tmp out d = (r, d')"
    and tmp: "temporary_in (butlast out) tmp" "dk_nodes d tmp = Some (Regular c)"
    and out: "\<not> state_private out"
  shows "outside out (dk_nodes d) (dk_nodes d') \<and> not_lost out c (dk_nodes d) (dk_nodes d')
    \<and> (\<forall>u. r = Inr u \<longrightarrow> dk_nodes d' out = Some (Regular c))"
proof -
  have tmp_private: "state_private tmp" using tmp(1) by (rule temporary_private)
  then have tmp_out: "tmp \<noteq> out" using out by auto
  from run[unfolded install_record_def] show ?thesis
  proof (rule act_bindE)
    fix e
    assume "backup_record h (butlast out) out d = (Inl e, d')" "r = Inl e"
    then show ?thesis using backup_record_post[of h "butlast out" out d "Inl e" d']
      by (simp add: outside_def not_lost_def)
  next
    fix backup d1
    assume backup: "backup_record h (butlast out) out d = (Inr backup, d1)"
    assume "move_in h tmp out backup d1 = (r, d')"
    then have rest: "(case ssys h (rename_node tmp out) d1 of
         (Inl e, d) \<Rightarrow> (Inl e, case backup of None \<Rightarrow> d | Some b \<Rightarrow> snd (ssys h (rename_node b out) d))
       | (Inr _, d) \<Rightarrow>
           act_bind (case backup of None \<Rightarrow> act_return (Inr ()) | Some b \<Rightarrow> ssys h (remove_node b)) (\<lambda>_.
           act_bind (ssys h (read_node out)) (\<lambda>_. ssys h (\<lambda>ns. Inr ((), ns)))) d) = (r, d')"
      by (simp only: move_in_def)
    have taken: "dk_nodes d1 = dk_nodes d \<and> backup = None \<or>
       (\<exists>b. backup = Some b \<and> backup_in (butlast out) b \<and> dk_nodes d1 = (dk_nodes d)(out := None, b := dk_nodes d out))"
      using backup_record_post[OF backup] by (cases backup) auto
    have b: "b \<noteq> out \<and> b \<noteq> tmp \<and> state_private b" if "backup_in (butlast out) b" for b
      using that backup_private out temporary_not_backup[OF tmp(1)] by auto
    have tmp1: "dk_nodes d1 tmp = Some (Regular c)"
    proof (cases backup)
      case (Some bk)
      with taken b[of bk] tmp(2) tmp_out show ?thesis by auto
    qed (use taken tmp(2) in auto)
    have out1: "outside out (dk_nodes d) (dk_nodes d1)" using taken b by (auto simp: outside_def)
    obtain r2 d2 where rename: "ssys h (rename_node tmp out) d1 = (r2, d2)" by fastforce
    from ssys_rename[OF rename] show ?thesis
    proof (elim disjE conjE exE)
      fix e
      assume r2: "r2 = Inl e" and d2: "dk_nodes d2 = dk_nodes d1"
      with rest have r: "r = Inl e"
        and d': "d' = (case backup of None \<Rightarrow> d2 | Some b \<Rightarrow> snd (ssys h (rename_node b out) d2))"
        by (simp_all add: rename)
      show ?thesis
      proof (cases backup)
        case None
        then show ?thesis using taken d2 d' r by (simp add: outside_refl not_lost_def)
      next
        case (Some bk)
        then have bk: "backup_in (butlast out) bk" "dk_nodes d1 = (dk_nodes d)(out := None, bk := dk_nodes d out)"
          using taken by auto
        obtain r3 d3 where undo: "ssys h (rename_node bk out) d2 = (r3, d3)" by fastforce
        then have d3: "d' = d3" using d' Some by simp
        have bks: "bk \<noteq> out" "bk \<noteq> tmp" "state_private bk" using b[OF bk(1)] by auto
        from ssys_rename[OF undo] bk d2 bks out1 show ?thesis
          unfolding d3 r outside_def not_lost_def by (elim disjE conjE exE) auto
      qed
    next
      fix n
      assume r2: "r2 = Inr ()" and n: "dk_nodes d1 tmp = Some n"
        and d2: "dk_nodes d2 = (dk_nodes d1)(tmp := None, out := Some n)"
      have n: "n = Regular c" using n tmp1 by simp
      have here: "outside out (dk_nodes d) (dk_nodes d2) \<and> dk_nodes d2 out = Some (Regular c)"
        using out1 tmp_private d2 n by (auto simp: outside_def)
      have removed: "outside out (dk_nodes d) (dk_nodes d3) \<and> dk_nodes d3 out = Some (Regular c)"
        if "(case backup of None \<Rightarrow> act_return (Inr ()) | Some b \<Rightarrow> ssys h (remove_node b)) d2 = (s, d3)" for s d3
      proof (cases backup)
        case None
        then show ?thesis using that here by (simp add: act_return_def)
      next
        case (Some bk)
        then have bk: "bk \<noteq> out" "state_private bk" using taken b by auto
        then show ?thesis using that here ssys_remove[of h bk d2 s d3] Some by (auto simp: outside_def)
      qed
      from rest r2 have "act_bind (case backup of None \<Rightarrow> act_return (Inr ()) | Some b \<Rightarrow> ssys h (remove_node b)) (\<lambda>_.
           act_bind (ssys h (read_node out)) (\<lambda>_. ssys h (\<lambda>ns. Inr ((), ns)))) d2 = (r, d')"
        by (simp add: rename)
      then have "outside out (dk_nodes d) (dk_nodes d') \<and> dk_nodes d' out = Some (Regular c)"
        by (elim act_bindE) (auto dest!: removed ssys_read_nodes sync_nodes)
      then show ?thesis by (simp add: not_lost_def)
    qed
  qed
qed

lemma not_lost_remove:
  assumes "not_lost out c ns ns'" "temporary_in (butlast out) tmp" "tmp \<noteq> out"
  shows "not_lost out c ns (ns'(tmp := None))"
proof -
  consider "ns' out = ns out" | "ns' out = Some (Regular c)"
    | b where "ns' out = None" "backup_in (butlast out) b" "ns' b = ns out"
    using assms(1) unfolding not_lost_def by blast
  then show ?thesis
  proof cases
    case (3 b)
    then have "b \<noteq> tmp" using temporary_not_backup[OF assms(2)] by blast
    then have "backup_in (butlast out) b \<and> (ns'(tmp := None)) b = ns out" using 3 by simp
    then show ?thesis using 3(1) assms(3) unfolding not_lost_def
      by (intro disjI2 conjI exI[of _ b]) simp_all
  qed (use assms(3) in \<open>simp_all add: not_lost_def\<close>)
qed

text \<open>Filling the temporary, installing it, reading it back, and the removal after a failure.\<close>

lemma installed_record:
  assumes run: "commit_record h s valid relative out bytes tmp d = (r, d')"
    and tmp: "temporary_in (butlast out) tmp"
    and d: "dk_nodes d = ns(tmp := Some (Regular []))"
    and out: "\<not> state_private out"
  shows "outside out ns (dk_nodes d') \<and> not_lost out (bytes @ [CHR 0x0A]) ns (dk_nodes d')
    \<and> (\<forall>p. r = Inr p \<longrightarrow> p = out \<and> dk_nodes d' out = Some (Regular (bytes @ [CHR 0x0A])))"
proof -
  let ?c = "bytes @ [CHR 0x0A]"
  have tp: "state_private tmp" using tmp by (rule temporary_private)
  have to: "tmp \<noteq> out" using tp out by auto
  obtain r1 d1 where body: "store_temporary h s valid relative out bytes tmp d = (r1, d1)" by fastforce
  have empty: "dk_nodes d tmp = Some (Regular [])" using d by simp
  from body[unfolded store_temporary_def] have post: "outside out ns (dk_nodes d1) \<and> not_lost out ?c ns (dk_nodes d1)
    \<and> (\<forall>u. r1 = Inr u \<longrightarrow> dk_nodes d1 out = Some (Regular ?c))"
  proof (rule act_bindE)
    fix e
    assume "fill_record h tmp bytes d = (Inl e, d1)" "r1 = Inl e"
    then show ?thesis using fill_record_post[OF _ empty, of h bytes "Inl e" d1] d tp to
      by (auto simp: outside_def not_lost_def)
  next
    fix u d2
    assume "fill_record h tmp bytes d = (Inr u, d2)"
    then have d2: "dk_nodes d2 = ns(tmp := Some (Regular ?c))"
      using fill_record_post[OF _ empty, of h bytes "Inr u" d2] d by auto
    have same: "outside out ns (dk_nodes d2)" "dk_nodes d2 out = ns out"
      using d2 tp to by (auto simp: outside_def)
    have inst: "outside out ns (dk_nodes d3) \<and> not_lost out ?c ns (dk_nodes d3)
        \<and> (\<forall>u. r3 = Inr u \<longrightarrow> dk_nodes d3 out = Some (Regular ?c))"
      if "install_record h tmp out d2 = (r3, d3)" for r3 d3
      using install_record_post[OF that tmp _ out, of ?c] d2 same outside_trans[OF same(1)]
      by (auto simp: not_lost_def)
    assume "act_bind (install_record h tmp out) (\<lambda>_. read_json_unlocked h s valid relative) d2 = (r1, d1)"
    then show ?thesis
    proof (rule act_bindE)
      fix e
      assume "install_record h tmp out d2 = (Inl e, d1)" "r1 = Inl e"
      then show ?thesis using inst by blast
    next
      fix v d3
      assume "install_record h tmp out d2 = (Inr v, d3)" "read_json_unlocked h s valid relative d3 = (r1, d1)"
      then show ?thesis using inst[of "Inr v" d3] read_json_unlocked_nodes[of h s valid relative d3 r1 d1] by simp
    qed
  qed
  show ?thesis
  proof (cases r1)
    case (Inr u)
    then show ?thesis using run body post by (auto simp: commit_record_def)
  next
    case (Inl e)
    obtain r3 d3 where gone: "ssys h (remove_node tmp) d1 = (r3, d3)" by fastforce
    have d3: "r = Inl e" "d' = d3" using run body Inl gone by (auto simp: commit_record_def)
    from ssys_remove[OF gone] show ?thesis
    proof
      assume "dk_nodes d3 = dk_nodes d1"
      then show ?thesis using post by (simp add: d3)
    next
      assume "dk_nodes d3 = (dk_nodes d1)(tmp := None)"
      then show ?thesis using post outside_private[OF tp] not_lost_remove[OF _ tmp to] by (simp add: d3)
    qed
  qed
qed

lemma location_name:
  assumes "record_name_ok rel"
  shows "file_name (location h ns (root @ rel)) = file_name rel"
proof -
  from assms obtain up n where rel: "rel = up @ [Normal n]"
    by (cases rel rule: rev_exhaust) (auto simp: record_name_ok_def is_normal_def split: component.splits)
  show ?thesis by (simp add: location_def rel file_name_def parent_def join_name_def split: sum.splits)
qed

definition proper_name :: "disk_host \<Rightarrow> nodes \<Rightarrow> string \<Rightarrow> bool" where
  "proper_name h ns relative \<longleftrightarrow>
     (\<forall>n. file_name (fs_from_str (dh_view h ns) relative) = Some n \<longrightarrow> \<not> prefix ''.meridian-'' n)"

text \<open>The write up to the point where the temporary file is there.\<close>

lemma write_json_atomic_post:
  assumes run: "write_json_atomic h s valid relative encoded d = (r, d')"
    and name: "proper_name h (dk_nodes d) relative"
  shows "(\<exists>e. r = Inl e) \<and> grown (dk_nodes d) (dk_nodes d') \<or>
    (\<exists>ns out bytes. encoded = Inr bytes \<and> grown (dk_nodes d) ns \<and> \<not> state_private out
       \<and> outside out ns (dk_nodes d') \<and> not_lost out (bytes @ [CHR 0x0A]) ns (dk_nodes d')
       \<and> (\<forall>p. r = Inr p \<longrightarrow> p = out \<and> dk_nodes d' out = Some (Regular (bytes @ [CHR 0x0A]))
            \<and> length bytes \<le> MAX_RECORD_BYTES))"
  using run[unfolded write_json_atomic_def]
proof (rule act_bindE)
  fix e
  assume "lock_operation h s d = (Inl e, d')" "r = Inl e"
  then show ?thesis by (simp add: lock_operation_nodes grown_refl)
next
  fix u d1
  assume "lock_operation h s d = (Inr u, d1)"
  then have d1: "dk_nodes d1 = dk_nodes d" by (rule lock_operation_nodes)
  assume "act_bind (resolve_record h s relative True) (\<lambda>out.
     act_bind (act_return (map_err RecordInvalid encoded)) (\<lambda>bytes.
     if MAX_RECORD_BYTES < length bytes then act_return (Inl RecordTooLarge)
     else act_bind (create_state_file TEMPORARY_NAME_ATTEMPTS h (butlast out))
         (commit_record h s valid relative out bytes))) d1 = (r, d')"
  then show ?thesis
  proof (rule act_bindE)
    fix e
    assume "resolve_record h s relative True d1 = (Inl e, d')" "r = Inl e"
    then show ?thesis using resolve_record_post[of h s relative True d1 "Inl e" d'] d1 by simp
  next
    fix out d2
    assume "resolve_record h s relative True d1 = (Inr out, d2)"
    from resolve_record_post[OF this] d1 have d2: "grown (dk_nodes d) (dk_nodes d2)"
      and out: "record_name_ok (fs_from_str (dh_view h (dk_nodes d)) relative)"
        "out = location h (dk_nodes d2) (ss_root s @ fs_from_str (dh_view h (dk_nodes d)) relative)"
      by (auto simp: Let_def)
    have proper: "\<not> state_private out"
      using name location_name[OF out(1)] by (auto simp: out(2) state_private_def proper_name_def)
    let ?rest = "\<lambda>bytes. commit_record h s valid relative out bytes"
    assume "act_bind (act_return (map_err RecordInvalid encoded)) (\<lambda>bytes.
     if MAX_RECORD_BYTES < length bytes then act_return (Inl RecordTooLarge)
     else act_bind (create_state_file TEMPORARY_NAME_ATTEMPTS h (butlast out)) (?rest bytes)) d2 = (r, d')"
    then show ?thesis
    proof (rule act_bindE)
      fix e
      assume "act_return (map_err RecordInvalid encoded) d2 = (Inl e, d')" "r = Inl e"
      then show ?thesis using d2 by (simp add: act_return_def)
    next
      fix bytes d3
      assume "act_return (map_err RecordInvalid encoded) d2 = (Inr bytes, d3)"
      then have d3: "d3 = d2" and bytes: "encoded = Inr bytes" by (auto simp: act_return_def map_err_Inr)
      assume last: "(if MAX_RECORD_BYTES < length bytes then act_return (Inl RecordTooLarge)
        else act_bind (create_state_file TEMPORARY_NAME_ATTEMPTS h (butlast out)) (?rest bytes)) d3 = (r, d')"
      show ?thesis
      proof (cases "MAX_RECORD_BYTES < length bytes")
        case True
        then have "r = Inl RecordTooLarge" "d' = d2" using last d3 by (simp_all add: act_return_def)
        then show ?thesis using d2 by simp
      next
        case False
        with last d3 have "act_bind (create_state_file TEMPORARY_NAME_ATTEMPTS h (butlast out)) (?rest bytes) d2 = (r, d')"
          by simp
        then show ?thesis
        proof (rule act_bindE)
          fix e
          assume "create_state_file TEMPORARY_NAME_ATTEMPTS h (butlast out) d2 = (Inl e, d')" "r = Inl e"
          then show ?thesis using create_state_file_post[of _ h "butlast out" d2 "Inl e" d'] d2 by simp
        next
          fix tmp d4
          assume "create_state_file TEMPORARY_NAME_ATTEMPTS h (butlast out) d2 = (Inr tmp, d4)"
          from create_state_file_post[OF this] have tmp: "temporary_in (butlast out) tmp"
            and d4: "dk_nodes d4 = (dk_nodes d2)(tmp := Some (Regular []))" by auto
          assume rest: "?rest bytes tmp d4 = (r, d')"
          have "outside out (dk_nodes d2) (dk_nodes d') \<and> not_lost out (bytes @ [CHR 0x0A]) (dk_nodes d2) (dk_nodes d')
            \<and> (\<forall>p. r = Inr p \<longrightarrow> p = out \<and> dk_nodes d' out = Some (Regular (bytes @ [CHR 0x0A])))"
            by (rule installed_record[OF rest tmp d4 proper])
          then show ?thesis using bytes d2 proper False
            by (intro disjI2 exI[of _ "dk_nodes d2"] exI[of _ out] exI[of _ bytes]) auto
        qed
      qed
    qed
  qed
qed

section \<open>Runs without faults\<close>

text \<open>What a step leaves, as a condition on the nodes it starts from.\<close>

definition wp :: "(disk \<Rightarrow> ('e + 'a) \<times> disk) \<Rightarrow> ('e + 'a \<Rightarrow> nodes \<Rightarrow> bool) \<Rightarrow> nodes \<Rightarrow> bool" where
  "wp m Q ns \<longleftrightarrow> (\<forall>d. dk_nodes d = ns \<longrightarrow> Q (fst (m d)) (dk_nodes (snd (m d))))"

lemma wpD: "wp m Q (dk_nodes d) \<Longrightarrow> m d = (r, d') \<Longrightarrow> Q r (dk_nodes d')"
  by (auto simp: wp_def)

lemma wp_case:
  assumes "wp m (\<lambda>r ns. case r of Inl e \<Rightarrow> wp (g e) Q ns | Inr x \<Rightarrow> wp (k x) Q ns) ns"
  shows "wp (\<lambda>d. case m d of (Inl e, d) \<Rightarrow> g e d | (Inr x, d) \<Rightarrow> k x d) Q ns"
  using assms unfolding wp_def
  by (auto split: prod.splits sum.splits)

lemma wp_return: "Q r ns \<Longrightarrow> wp (act_return r) Q ns"
  by (simp add: wp_def act_return_def)

lemma wp_bind:
  assumes "wp m (\<lambda>r ns. case r of Inl e \<Rightarrow> Q (Inl e) ns | Inr x \<Rightarrow> wp (f x) Q ns) ns"
  shows "wp (act_bind m f) Q ns"
proof -
  have "wp (\<lambda>d. case m d of (Inl e, d) \<Rightarrow> act_return (Inl e) d | (Inr x, d) \<Rightarrow> f x d) Q ns"
  proof (rule wp_case)
    show "wp m (\<lambda>r ns. case r of Inl e \<Rightarrow> wp (act_return (Inl e)) Q ns | Inr x \<Rightarrow> wp (f x) Q ns) ns"
      using assms by (simp add: wp_def act_return_def split: sum.splits)
  qed
  then show ?thesis by (simp add: act_bind_def[abs_def] act_return_def cong: prod.case_cong sum.case_cong)
qed

definition no_faults :: "disk_host \<Rightarrow> bool" where
  "no_faults h \<longleftrightarrow> (\<forall>n. dh_fault h n = None) \<and> (\<forall>n. \<exists>x. dh_random h n = Inr x)"

lemma wp_ssys:
  assumes "no_faults h" "case f ns of Inl e \<Rightarrow> Q (Inl (StateIo e)) ns | Inr (x, ns') \<Rightarrow> Q (Inr x) ns'"
  shows "wp (ssys h f) Q ns"
  using assms by (auto simp: wp_def ssys_def sys_def no_faults_def map_err_def store_io_def tick_def split: sum.splits)

lemma wp_random:
  assumes "no_faults h" "\<And>n x. dh_random h n = Inr x \<Longrightarrow> Q (Inr x) ns"
  shows "wp (random_hex h) Q ns"
  unfolding wp_def
proof (intro allI impI)
  fix d :: disk
  assume "dk_nodes d = ns"
  moreover obtain x where "dh_random h (dk_clock d) = Inr x" using assms(1) by (auto simp: no_faults_def)
  ultimately show "Q (fst (random_hex h d)) (dk_nodes (snd (random_hex h d)))"
    using assms(2) by (simp add: random_hex_def map_err_def)
qed

text \<open>The answers of a file system without symbolic links, for paths in normal form.\<close>

definition normal_path :: "path \<Rightarrow> bool" where
  "normal_path p \<longleftrightarrow> list_all (\<lambda>c. c \<noteq> CurDir \<and> c \<noteq> ParentDir) p"

definition link_free :: "nodes \<Rightarrow> bool" where
  "link_free ns \<longleftrightarrow> (\<forall>p q. ns p \<noteq> Some (LinkTo q))"

definition plain_view :: "disk_host \<Rightarrow> bool" where
  "plain_view h \<longleftrightarrow> (\<forall>ns p. link_free ns \<and> normal_path p \<longrightarrow>
     fs_canonicalize (dh_view h ns) p = (if ns p = None then Inl ''not found'' else Inr p)
     \<and> fs_exists (dh_view h ns) p = (ns p \<noteq> None)
     \<and> fs_symlink_metadata (dh_view h ns) p =
        (case ns p of None \<Rightarrow> Inl ''not found'' | Some DirNode \<Rightarrow> Inr Directory | Some _ \<Rightarrow> Inr RegularFile))"

text \<open>A store on such a disk, with the directory of the record in place.\<close>

definition state_ready :: "disk_host \<Rightarrow> state_store \<Rightarrow> string \<Rightarrow> path \<Rightarrow> nodes \<Rightarrow> bool" where
  "state_ready h s relative rel ns \<longleftrightarrow>
     no_faults h \<and> plain_view h \<and> link_free ns \<and> normal_path (ss_root s)
     \<and> (\<forall>ns. fs_from_str (dh_view h ns) relative = rel) \<and> record_name_ok rel
     \<and> ss_operation_lock_path s = join_name (ss_root s) ''.meridian-mcp.lock''
     \<and> (\<exists>l. ns (ss_operation_lock_path s) = Some (Regular l))
     \<and> ns (butlast (ss_root s @ rel)) = Some DirNode \<and> ns (ss_root s @ rel) \<noteq> Some DirNode
     \<and> \<not> state_private (ss_root s @ rel)
     \<and> (\<forall>n x. dh_random h n = Inr x \<longrightarrow>
          ns (join_name (butlast (ss_root s @ rel)) (''.meridian-tmp-'' @ x)) = None
          \<and> ns (join_name (butlast (ss_root s @ rel)) (''.meridian-backup-'' @ x)) = None)"

lemma link_free_upd [simp]:
  "link_free ns \<Longrightarrow> link_free (ns(p := None))" "link_free ns \<Longrightarrow> link_free (ns(p := Some (Regular c)))"
  by (auto simp: link_free_def)

lemma normal_root_record: "normal_path root \<Longrightarrow> record_name_ok rel \<Longrightarrow> normal_path (root @ rel)"
  by (auto simp: normal_path_def record_name_ok_def is_normal_def list_all_iff split: component.splits)

lemma normal_butlast: "normal_path p \<Longrightarrow> normal_path (butlast p)"
  by (auto simp: normal_path_def list_all_iff dest: in_set_butlastD)

lemma link_free_follow:
  assumes "link_free ns"
  shows "follow 40 ns p = ns p"
proof -
  have "follow (Suc n) ns p = ns p" for n
    using assms by (auto simp: link_free_def split: option.splits node.splits)
  from this[of 39] show ?thesis by (simp del: follow.simps)
qed

lemma link_free_read: "link_free ns \<Longrightarrow> ns p = Some (Regular c) \<Longrightarrow> read_node p ns = Inr (c, ns)"
  by (simp add: read_node_def link_free_follow)

lemma wp_exists_at:
  assumes "no_faults h" "plain_view h" "link_free ns" "normal_path p"
    and "wp (k (ns p \<noteq> None)) Q ns"
  shows "wp (\<lambda>d. case exists_at h p d of (present, d) \<Rightarrow> k present d) Q ns"
  using assms unfolding wp_def by (auto simp: exists_at_def no_faults_def plain_view_def)

lemma wp_path_exists:
  assumes "no_faults h" "link_free ns" "wp (k (ns p \<noteq> None)) Q ns"
  shows "wp (\<lambda>d. case path_exists h p d of (present, d) \<Rightarrow> k present d) Q ns"
  using assms unfolding wp_def by (auto simp: path_exists_def no_faults_def link_free_follow)

lemma ready_facts:
  assumes "state_ready h s relative rel ns"
  shows "no_faults h" "plain_view h" "link_free ns" "record_name_ok rel"
    "normal_path (ss_root s)" "normal_path (ss_root s @ rel)" "normal_path (butlast (ss_root s @ rel))"
    "fs_from_str (dh_view h ns') relative = rel"
    "ns (butlast (ss_root s @ rel)) = Some DirNode" "ns (ss_root s @ rel) \<noteq> Some DirNode"
    "\<not> state_private (ss_root s @ rel)"
  using assms normal_root_record normal_butlast by (auto simp: state_ready_def)

lemma wp_lock:
  assumes "state_ready h s relative rel ns" "Q (Inr ()) ns"
  shows "wp (lock_operation h s) Q ns"
proof -
  let ?l = "ss_operation_lock_path s"
  obtain l where l: "ns ?l = Some (Regular l)" and free: "link_free ns" and nf: "no_faults h" and v: "plain_view h"
    using assms(1) by (auto simp: state_ready_def)
  have "normal_path ?l" using assms(1) by (simp add: state_ready_def normal_path_def join_name_def)
  then have meta: "fs_symlink_metadata (dh_view h ns) ?l = Inr RegularFile"
    using v free l by (simp add: plain_view_def)
  show ?thesis
    unfolding lock_operation_def
    by (intro wp_bind wp_ssys nf)
      (simp add: look_def meta, intro wp_bind wp_ssys nf, simp add: link_free_read[OF free l],
        intro wp_bind wp_ssys nf, simp add: look_def meta, intro wp_ssys nf, simp add: assms(2))
qed

lemma ready_location:
  assumes "state_ready h s relative rel ns"
  shows "location h ns (ss_root s @ rel) = ss_root s @ rel"
proof -
  note r = ready_facts[OF assms]
  obtain up n where rel: "rel = up @ [Normal n]"
    using r(4) by (cases rel rule: rev_exhaust) (auto simp: record_name_ok_def is_normal_def split: component.splits)
  have "fs_canonicalize (dh_view h ns) (butlast (ss_root s @ rel)) = Inr (butlast (ss_root s @ rel))"
    using r(2,3,7,9) by (simp add: plain_view_def)
  then show ?thesis by (simp add: location_def rel parent_def file_name_def join_name_def butlast_append)
qed

lemma wp_if: "(b \<Longrightarrow> wp m Q ns) \<Longrightarrow> (\<not> b \<Longrightarrow> Q r ns) \<Longrightarrow> wp (\<lambda>d. if b then m d else (r, d)) Q ns"
  by (simp add: wp_def)

lemma wp_resolve:
  assumes "state_ready h s relative rel ns" "Q (Inr (ss_root s @ rel)) ns"
  shows "wp (resolve_record h s relative create) Q ns"
proof -
  note r = ready_facts[OF assms(1)]
  let ?p = "ss_root s @ rel"
  let ?dir = "butlast ?p"
  have dir: "fs_canonicalize (dh_view h ns) ?dir = Inr ?dir" using r(2,3,7,9) by (simp add: plain_view_def)
  have inside: "path_starts_with ?dir (ss_root s)"
    using r(4) by (auto simp: record_name_ok_def path_starts_with_def butlast_append)
  have made: "create_dir_all h ?dir ns = Inr ((), ns)"
  proof (cases "rev ?dir")
    case (Cons c up)
    then have "rev (c # up) = ?dir" by (metis rev_rev_ident)
    then show ?thesis using dir r(9) by (simp add: create_dir_all_def Cons leads_to_directory_def)
  qed (simp add: create_dir_all_def)
  have first: "wp (if create then ssys h (create_dir_all h ?dir) else act_return (Inr ())) Q1 ns"
    if "Q1 (Inr ()) ns" for Q1
    using that r(1) by (auto intro!: wp_ssys wp_return simp: made)
  have second: "wp (check_contained h s ?dir) Q1 ns" if "Q1 (Inr ()) ns" for Q1
    unfolding check_contained_def[abs_def]
    by (rule wp_exists_at[OF r(1,2,3,7)], rule wp_if, intro wp_bind wp_ssys r(1))
      (simp_all add: r(9) look_def dir wp_return inside that)
  have kind: "fs_symlink_metadata (dh_view h ns) ?p \<in> {Inr Directory, Inr RegularFile}" if "ns ?p \<noteq> None"
    using that r(2,3,6) by (auto simp: plain_view_def split: node.splits)
  have third: "wp (check_no_symlink h ?p) Q1 ns" if "Q1 (Inr ()) ns" for Q1
    unfolding check_no_symlink_def[abs_def]
    by (rule wp_exists_at[OF r(1,2,3,6)], rule wp_if, intro wp_bind wp_ssys r(1))
      (use kind that in \<open>auto simp: look_def intro!: wp_return\<close>)
  have "wp (act_bind (if create then ssys h (create_dir_all h ?dir) else act_return (Inr ())) (\<lambda>_.
           act_bind (check_contained h s ?dir) (\<lambda>_.
           act_bind (check_no_symlink h ?p) (\<lambda>_ d. (Inr (location h (dk_nodes d) ?p), d))))) Q ns"
    by (intro wp_bind first second third)
      (simp, intro wp_bind second, simp, intro wp_bind third, simp add: wp_def ready_location[OF assms(1)] assms(2))
  then show ?thesis by (simp add: wp_def resolve_record_def Let_def r(4,8))
qed

lemma wp_read_record:
  assumes "no_faults h" "link_free ns" "ns p = Some (Regular c)"
    and "Q (if MAX_RECORD_BYTES < length c then Inl RecordTooLarge else map_err RecordInvalid (parse c)) ns"
  shows "wp (read_record h parse p) Q ns"
proof (cases "MAX_RECORD_BYTES < length c")
  case True
  then show ?thesis using assms(4)
    unfolding read_record_def by (intro wp_bind wp_ssys assms(1)) (simp add: assms(3) wp_return)
next
  case False
  then show ?thesis using assms(4)
    unfolding read_record_def
    by (intro wp_bind wp_ssys assms(1))
      (simp add: assms(3), intro wp_bind wp_ssys assms(1), simp add: link_free_read[OF assms(2,3)] Let_def wp_return)
qed

lemma wp_read_json_unlocked:
  assumes "state_ready h s relative rel ns" "ns (ss_root s @ rel) = Some (Regular c)"
    and "Q (if MAX_RECORD_BYTES < length c then Inl RecordTooLarge else map_err RecordInvalid (parse c)) ns"
  shows "wp (read_json_unlocked h s parse relative) Q ns"
  unfolding read_json_unlocked_def
  by (intro wp_bind wp_resolve[OF assms(1)])
    (simp, rule wp_read_record[where c = c, OF ready_facts(1)[OF assms(1)] ready_facts(3)[OF assms(1)] assms(2)], rule assms(3))

lemma wp_read_json:
  assumes "state_ready h s relative rel ns" "ns (ss_root s @ rel) = Some (Regular c)"
    and "Q (if MAX_RECORD_BYTES < length c then Inl RecordTooLarge else map_err RecordInvalid (parse c)) ns"
  shows "wp (read_json h s parse relative) Q ns"
  unfolding read_json_def
  by (intro wp_bind wp_lock[OF assms(1)]) (simp, rule wp_read_json_unlocked, (rule assms)+)

lemma wp_create_state_file:
  assumes "no_faults h"
    "\<And>n x. dh_random h n = Inr x \<Longrightarrow> ns (join_name dir (''.meridian-tmp-'' @ x)) = None"
    "\<And>p. temporary_in dir p \<Longrightarrow> ns p = None \<Longrightarrow> Q (Inr p) (ns(p := Some (Regular [])))"
  shows "wp (create_state_file (Suc n) h dir) Q ns"
  unfolding create_state_file.simps[abs_def]
proof (rule wp_bind, rule wp_random[OF assms(1)], simp only: sum.case Let_def)
  fix m x
  assume "dh_random h m = Inr x"
  from assms(2)[OF this] have free: "ns (join_name dir (''.meridian-tmp-'' @ x)) = None" .
  have "temporary_in dir (join_name dir (''.meridian-tmp-'' @ x))" unfolding temporary_in_def by blast
  from assms(3)[OF this free] free
  show "wp (act_bind (ssys h (create_new (join_name dir (''.meridian-tmp-'' @ x))))
      (\<lambda>created. if created then act_return (Inr (join_name dir (''.meridian-tmp-'' @ x)))
        else create_state_file n h dir)) Q ns"
    by (intro wp_bind wp_ssys assms(1)) (simp add: create_new_def wp_return)
qed

lemma wp_append:
  assumes "no_faults h" "ns p = Some (Regular c)" "Q (Inr ()) (ns(p := Some (Regular (c @ bytes))))"
  shows "wp (append_bytes h p bytes) Q ns"
  unfolding append_bytes_def by (intro wp_ssys assms(1)) (simp add: assms(2,3))

lemma wp_sync: "no_faults h \<Longrightarrow> Q (Inr ()) ns \<Longrightarrow> wp (ssys h (\<lambda>ns. Inr ((), ns))) Q ns"
  by (rule wp_ssys) simp_all

lemma wp_fill_record:
  assumes "no_faults h" "ns p = Some (Regular [])" "Q (Inr ()) (ns(p := Some (Regular (bytes @ [CHR 0x0A]))))"
  shows "wp (fill_record h p bytes) Q ns"
  unfolding fill_record_def
proof (rule wp_bind, rule wp_append, rule assms(1), rule assms(2), simp only: sum.case append_Nil)
  let ?ns = "ns(p := Some (Regular bytes))"
  show "wp (act_bind (append_bytes h p [CHR 0x0A])
      (\<lambda>_. act_bind (ssys h (\<lambda>ns. Inr ((), ns))) (\<lambda>_. ssys h (\<lambda>ns. Inr ((), ns))))) Q ?ns"
    by (rule wp_bind, rule wp_append[where c = bytes], rule assms(1), simp, simp only: sum.case)
      (intro wp_bind wp_sync assms(1), simp, intro wp_sync assms(1), simp add: assms(3))
qed

text \<open>Besides the record, an installation touches temporaries and backups only.\<close>

definition only_record :: "path \<Rightarrow> nodes \<Rightarrow> nodes \<Rightarrow> bool" where
  "only_record out ns ns' \<longleftrightarrow>
     (\<forall>p. p \<noteq> out \<and> \<not> temporary_in (butlast out) p \<and> \<not> backup_in (butlast out) p \<longrightarrow> ns' p = ns p)
     \<and> (\<forall>p. temporary_in (butlast out) p \<or> backup_in (butlast out) p \<longrightarrow> ns' p = ns p \<or> ns' p = None)"

lemma only_record_steps:
  "only_record out ns ns"
  "only_record out ns ns' \<Longrightarrow> only_record out ns (ns'(out := v))" if "\<not> temporary_in (butlast out) out" "\<not> backup_in (butlast out) out"
  using that by (auto simp: only_record_def)

lemma only_record_gone:
  "only_record out ns ns' \<Longrightarrow> temporary_in (butlast out) p \<or> backup_in (butlast out) p \<Longrightarrow> only_record out ns (ns'(p := None))"
  by (auto simp: only_record_def)

lemma only_record_private:
  assumes "only_record out ns ns'" "temporary_in (butlast out) p \<or> backup_in (butlast out) p"
  shows "ns' p = ns p \<or> ns' p = None"
  by (rule mp[OF spec[OF conjunct2[OF assms(1)[unfolded only_record_def]]] assms(2)])

lemma only_record_upd:
  assumes "only_record out (ns(t := v)) ns'" "temporary_in (butlast out) t" "ns' t = None" "t \<noteq> out"
  shows "only_record out ns ns'"
  unfolding only_record_def
proof (intro conjI allI impI)
  fix p
  assume "p \<noteq> out \<and> \<not> temporary_in (butlast out) p \<and> \<not> backup_in (butlast out) p"
  moreover from this have "p \<noteq> t" using assms(2) by blast
  ultimately show "ns' p = ns p" using assms(1) by (simp add: only_record_def)
next
  fix p
  assume "temporary_in (butlast out) p \<or> backup_in (butlast out) p"
  then have "ns' p = (ns(t := v)) p \<or> ns' p = None" by (rule only_record_private[OF assms(1)])
  then show "ns' p = ns p \<or> ns' p = None" using assms(3) by (cases "p = t") auto
qed

definition without_backup :: "path option \<Rightarrow> nodes \<Rightarrow> nodes" where
  "without_backup backup ns = (case backup of None \<Rightarrow> ns | Some b \<Rightarrow> ns(b := None))"

lemma wp_install_record:
  assumes nf: "no_faults h" and free: "link_free ns" and out: "\<not> state_private out" "ns out \<noteq> Some DirNode"
    and tmp: "temporary_in (butlast out) tmp" "ns tmp = Some (Regular c)"
    and fresh: "\<And>n x. dh_random h n = Inr x \<Longrightarrow> ns (join_name (butlast out) (''.meridian-backup-'' @ x)) = None"
    and Q: "\<And>ns'. link_free ns' \<Longrightarrow> ns' out = Some (Regular c) \<Longrightarrow> ns' tmp = None \<Longrightarrow> only_record out ns ns' \<Longrightarrow> Q (Inr ()) ns'"
  shows "wp (install_record h tmp out) Q ns"
proof -
  have to: "tmp \<noteq> out" using temporary_private[OF tmp(1)] out(1) by auto
  have no: "\<not> temporary_in (butlast out) out" using temporary_private out(1) by blast
  have nb: "\<not> backup_in (butlast out) out" using backup_private out(1) by blast
  have finish: "wp (act_bind (case backup of None \<Rightarrow> act_return (Inr ()) | Some b \<Rightarrow> ssys h (remove_node b)) (\<lambda>_.
           act_bind (ssys h (read_node out)) (\<lambda>_. ssys h (\<lambda>ns. Inr ((), ns))))) Q ns1"
    if one: "link_free ns1" "ns1 out = Some (Regular c)" "ns1 tmp = None" "only_record out ns (without_backup backup ns1)"
      "\<And>b. backup = Some b \<Longrightarrow> backup_in (butlast out) b \<and> (\<exists>x. ns1 b = Some (Regular x))"
    for backup ns1
  proof (cases backup)
    case None
    then show ?thesis using one
      by (auto intro!: wp_bind wp_return wp_ssys nf Q simp: link_free_read without_backup_def)
  next
    case (Some b)
    then obtain x where b: "backup_in (butlast out) b" "ns1 b = Some (Regular x)" using one(5) by blast
    have bo: "b \<noteq> out" using backup_private[OF b(1)] out(1) by auto
    have bt: "b \<noteq> tmp" using b(2) one(3) by auto
    have "only_record out ns (ns1(b := None))" using one(4) Some by (simp add: without_backup_def)
    then have "Q (Inr ()) (ns1(b := None))" using one bo bt by (intro Q) auto
    then show ?thesis using Some one b bo
      by (auto intro!: wp_bind wp_return wp_ssys nf simp: remove_node_def link_free_read)
  qed
  have rest: "wp (move_in h tmp out backup) Q ns1"
    if "link_free ns1" "ns1 tmp = Some (Regular c)" "ns1 out \<noteq> Some DirNode" "only_record out ns (without_backup backup ns1)"
      "\<And>b. backup = Some b \<Longrightarrow> backup_in (butlast out) b \<and> (\<exists>x. ns1 b = Some (Regular x))" for backup ns1
    unfolding move_in_def[abs_def]
  proof (rule wp_case, rule wp_ssys[OF nf])
    let ?ns = "ns1(tmp := None, out := Some (Regular c))"
    have "wp (act_bind (case backup of None \<Rightarrow> act_return (Inr ()) | Some b \<Rightarrow> ssys h (remove_node b)) (\<lambda>_.
           act_bind (ssys h (read_node out)) (\<lambda>_. ssys h (\<lambda>ns. Inr ((), ns))))) Q ?ns"
    proof (rule finish)
      show "backup = Some b \<Longrightarrow> backup_in (butlast out) b \<and> (\<exists>x. ?ns b = Some (Regular x))" for b
        using that(5)[of b] temporary_not_backup[OF tmp(1)] backup_private out(1) by auto
      have "without_backup backup ?ns = (without_backup backup ns1)(tmp := None, out := Some (Regular c))"
      proof (cases backup)
        case (Some b)
        then show ?thesis using that(5)[OF Some] nb tmp(1) by (auto simp: without_backup_def fun_upd_twist)
      qed (simp add: without_backup_def)
      then show "only_record out ns (without_backup backup ?ns)"
        using only_record_steps(2)[OF no nb only_record_gone[OF that(4) disjI1[OF tmp(1)]]] by simp
    qed (use that to in simp_all)
    moreover have "rename_node tmp out ns1 = Inr ((), ?ns)" using that(2,3) by (simp add: rename_node_def)
    ultimately show "case rename_node tmp out ns1 of
        Inl e \<Rightarrow> (case Inl (StateIo e) of Inl e \<Rightarrow> wp (\<lambda>d. (Inl e, case backup of None \<Rightarrow> d | Some b \<Rightarrow> snd (ssys h (rename_node b out) d))) Q ns1
            | Inr x \<Rightarrow> wp (act_bind (case backup of None \<Rightarrow> act_return (Inr ()) | Some b \<Rightarrow> ssys h (remove_node b)) (\<lambda>_.
           act_bind (ssys h (read_node out)) (\<lambda>_. ssys h (\<lambda>ns. Inr ((), ns))))) Q ns1)
      | Inr (x, ns') \<Rightarrow> (case Inr x of Inl e \<Rightarrow> wp (\<lambda>d. (Inl e, case backup of None \<Rightarrow> d | Some b \<Rightarrow> snd (ssys h (rename_node b out) d))) Q ns'
            | Inr x \<Rightarrow> wp (act_bind (case backup of None \<Rightarrow> act_return (Inr ()) | Some b \<Rightarrow> ssys h (remove_node b)) (\<lambda>_.
           act_bind (ssys h (read_node out)) (\<lambda>_. ssys h (\<lambda>ns. Inr ((), ns))))) Q ns')"
      by simp
  qed
  show ?thesis
    unfolding install_record_def
  proof (rule wp_bind, unfold backup_record_def[abs_def], rule wp_path_exists[OF nf free], rule wp_if)
    assume "\<not> ns out \<noteq> None"
    then show "case Inr None of Inl e \<Rightarrow> Q (Inl e) ns | Inr backup \<Rightarrow> wp (move_in h tmp out backup) Q ns"
      using rest[of ns None] free tmp out(2) only_record_steps(1)[OF no nb] by (simp add: without_backup_def)
  next
    assume "ns out \<noteq> None"
    then obtain old where old: "ns out = Some (Regular old)"
      using out(2) free by (cases "ns out") (auto simp: link_free_def, metis node.exhaust)
    show "wp (act_bind (random_hex h) (\<lambda>hex. let b = join_name (butlast out) (''.meridian-backup-'' @ hex)
        in act_bind (ssys h (rename_node out b)) (\<lambda>_. act_return (Inr (Some b)))))
      (\<lambda>r ns. case r of Inl e \<Rightarrow> Q (Inl e) ns | Inr backup \<Rightarrow> wp (move_in h tmp out backup) Q ns) ns"
    proof (rule wp_bind, rule wp_random[OF nf], simp only: sum.case Let_def)
      fix m x
      assume random: "dh_random h m = Inr x"
      define b where "b = join_name (butlast out) (''.meridian-backup-'' @ x)"
      have b: "backup_in (butlast out) b" unfolding b_def backup_in_def by blast
      have bo: "b \<noteq> out" using backup_private[OF b] out(1) by auto
      have bt: "b \<noteq> tmp" using temporary_not_backup[OF tmp(1) b] by auto
      let ?ns = "ns(out := None, b := Some (Regular old))"
      show "wp (act_bind (ssys h (rename_node out (join_name (butlast out) (''.meridian-backup-'' @ x))))
          (\<lambda>_. act_return (Inr (Some (join_name (butlast out) (''.meridian-backup-'' @ x))))))
        (\<lambda>r ns. case r of Inl e \<Rightarrow> Q (Inl e) ns | Inr backup \<Rightarrow> wp (move_in h tmp out backup) Q ns) ns"
        unfolding b_def[symmetric]
      proof (intro wp_bind wp_ssys nf)
        have moved: "wp (move_in h tmp out (Some b)) Q ?ns"
        proof (rule rest)
          have "only_record out ns (ns(out := None, b := None))"
            using only_record_gone[OF only_record_steps(2)[OF no nb only_record_steps(1)[OF no nb]] disjI2[OF b]] .
          then show "only_record out ns (without_backup (Some b) ?ns)" by (simp add: without_backup_def)
        qed (use free tmp to bo bt b in simp_all)
        have "rename_node out b ns = Inr ((), ?ns)"
          using old fresh[OF random] by (simp add: rename_node_def b_def)
        then show "case rename_node out b ns of
            Inl e \<Rightarrow> (case Inl (StateIo e) of Inl e \<Rightarrow> (case Inl e of Inl e \<Rightarrow> Q (Inl e) ns
                | Inr backup \<Rightarrow> wp (move_in h tmp out backup) Q ns)
              | Inr x \<Rightarrow> wp (act_return (Inr (Some b))) (\<lambda>r ns. case r of Inl e \<Rightarrow> Q (Inl e) ns
                | Inr backup \<Rightarrow> wp (move_in h tmp out backup) Q ns) ns)
          | Inr (x, ns') \<Rightarrow> (case Inr x of Inl e \<Rightarrow> (case Inl e of Inl e \<Rightarrow> Q (Inl e) ns'
                | Inr backup \<Rightarrow> wp (move_in h tmp out backup) Q ns')
              | Inr x \<Rightarrow> wp (act_return (Inr (Some b))) (\<lambda>r ns. case r of Inl e \<Rightarrow> Q (Inl e) ns
                | Inr backup \<Rightarrow> wp (move_in h tmp out backup) Q ns) ns')"
          using moved by (auto intro!: wp_return)
      qed
    qed
  qed
qed

lemma neither_names:
  "\<not> temporary_in dir dir" "\<not> backup_in dir dir"
  "\<not> temporary_in dir (join_name p ''.meridian-mcp.lock'')" "\<not> backup_in dir (join_name p ''.meridian-mcp.lock'')"
  by (auto simp: temporary_in_def backup_in_def join_name_def)

lemma state_ready_kept:
  assumes "state_ready h s relative rel ns" "link_free ns'" "only_record (ss_root s @ rel) ns ns'"
    "\<And>n x. dh_random h n = Inr x \<Longrightarrow> ns' (join_name (butlast (ss_root s @ rel)) (''.meridian-backup-'' @ x)) = None"
    and new: "ns' (ss_root s @ rel) = Some (Regular c)"
  shows "state_ready h s relative rel ns'"
proof -
  let ?out = "ss_root s @ rel"
  have rel: "?out \<noteq> []" using ready_facts(4)[OF assms(1)] by (simp add: record_name_ok_def)
  have "state_private (ss_operation_lock_path s)"
    using assms(1) by (simp add: state_ready_def state_private_def)
  then have lock: "ss_operation_lock_path s \<noteq> ?out" using ready_facts(11)[OF assms(1)] by auto
  have ns: "ns' p = ns p" if "p \<noteq> ?out" "\<not> temporary_in (butlast ?out) p" "\<not> backup_in (butlast ?out) p" for p
    using assms(3) that by (simp add: only_record_def)
  have dir: "butlast ?out \<noteq> ?out" using rel by (metis append_butlast_last_id append_self_conv not_Cons_self2)
  have tmp: "ns' (join_name (butlast ?out) (''.meridian-tmp-'' @ x)) = None"
    if "dh_random h n = Inr x" for n x
  proof -
    have "temporary_in (butlast ?out) (join_name (butlast ?out) (''.meridian-tmp-'' @ x))"
      unfolding temporary_in_def by blast
    moreover have "ns (join_name (butlast ?out) (''.meridian-tmp-'' @ x)) = None"
      using assms(1) that by (auto simp: state_ready_def)
    ultimately show ?thesis using only_record_private[OF assms(3)] by metis
  qed
  have names: "\<forall>n x. dh_random h n = Inr x \<longrightarrow>
      ns' (join_name (butlast ?out) (''.meridian-tmp-'' @ x)) = None
      \<and> ns' (join_name (butlast ?out) (''.meridian-backup-'' @ x)) = None"
    using tmp assms(4) by blast
  have l: "ns' (ss_operation_lock_path s) = ns (ss_operation_lock_path s)"
    using assms(1) lock neither_names(3,4) by (intro ns) (simp_all add: state_ready_def)
  have b: "ns' (butlast ?out) = ns (butlast ?out)"
    using dir neither_names(1,2) by (intro ns)
  show ?thesis
    unfolding state_ready_def l b new
    using assms(1)[unfolded state_ready_def] assms(2) names
    by (elim conjE) (intro conjI; (assumption | simp))
qed

lemma wp_commit_record:
  assumes ready: "state_ready h s relative rel ns" and bytes: "length bytes \<le> MAX_RECORD_BYTES"
    and tmp: "temporary_in (butlast (ss_root s @ rel)) tmp" "ns tmp = None"
    and Q: "\<And>ns'. state_ready h s relative rel ns' \<Longrightarrow> ns' (ss_root s @ rel) = Some (Regular (bytes @ [CHR 0x0A])) \<Longrightarrow>
      Q (if length bytes = MAX_RECORD_BYTES then Inl RecordTooLarge
         else case valid (bytes @ [CHR 0x0A]) of Inl e \<Rightarrow> Inl (RecordInvalid e) | Inr _ \<Rightarrow> Inr (ss_root s @ rel)) ns'"
  shows "wp (commit_record h s valid relative (ss_root s @ rel) bytes tmp) Q (ns(tmp := Some (Regular [])))"
proof -
  let ?out = "ss_root s @ rel" and ?c = "bytes @ [CHR 0x0A]" and ?ns = "ns(tmp := Some (Regular (bytes @ [CHR 0x0A])))"
  note r = ready_facts[OF ready]
  have to: "tmp \<noteq> ?out" using temporary_private[OF tmp(1)] r(11) by auto
  have backup: "ns (join_name (butlast ?out) (''.meridian-backup-'' @ x)) = None
      \<and> ?ns (join_name (butlast ?out) (''.meridian-backup-'' @ x)) = None"
    if "dh_random h n = Inr x" for n x
  proof -
    have "backup_in (butlast ?out) (join_name (butlast ?out) (''.meridian-backup-'' @ x))"
      unfolding backup_in_def by blast
    then show ?thesis using that ready temporary_not_backup[OF tmp(1)] by (auto simp: state_ready_def)
  qed
  let ?fin = "\<lambda>r ns. case r of Inl e \<Rightarrow> wp (\<lambda>d. (Inl e, snd (ssys h (remove_node tmp) d))) Q ns
      | Inr x \<Rightarrow> wp (\<lambda>d. (Inr ?out, d)) Q ns"
  have last: "wp (read_json_unlocked h s valid relative) ?fin ns'"
    if free: "link_free ns'" and new: "ns' ?out = Some (Regular ?c)" and gone: "ns' tmp = None"
      and only: "only_record ?out ?ns ns'" for ns'
  proof -
    have "only_record ?out ns ns'"
      using only_record_upd[OF only tmp(1) gone to] .
    moreover have "ns' (join_name (butlast ?out) (''.meridian-backup-'' @ x)) = None" if "dh_random h n = Inr x" for n x
    proof -
      have "backup_in (butlast ?out) (join_name (butlast ?out) (''.meridian-backup-'' @ x))"
        unfolding backup_in_def by blast
      then show ?thesis using only_record_private[OF only] backup[OF that] by metis
    qed
    ultimately have ready': "state_ready h s relative rel ns'"
      using state_ready_kept[OF ready free _ _ new] by blast
    have failed: "wp (\<lambda>d. (Inl e, snd (ssys h (remove_node tmp) d))) Q ns'" if "Q (Inl e) ns'" for e
      using that gone r(1) by (auto simp: wp_def ssys_def sys_def no_faults_def remove_node_def tick_def map_err_def)
    show ?thesis
      by (rule wp_read_json_unlocked[OF ready' new])
        (use Q[OF ready' new] failed bytes in \<open>auto simp: map_err_def wp_def split: sum.splits\<close>)
  qed
  show ?thesis
    unfolding commit_record_def[abs_def] store_temporary_def
    by (rule wp_case, rule wp_bind, rule wp_fill_record[OF r(1)], simp, simp only: sum.case fun_upd_upd,
        rule wp_bind, rule wp_install_record[OF r(1) _ r(11) _ tmp(1), where c = ?c])
      (use r(3,10) to backup last in simp_all)
qed

lemma wp_write_json:
  assumes ready: "state_ready h s relative rel ns" and bytes: "encoded = Inr bytes" "length bytes \<le> MAX_RECORD_BYTES"
    and Q: "\<And>ns'. state_ready h s relative rel ns' \<Longrightarrow> ns' (ss_root s @ rel) = Some (Regular (bytes @ [CHR 0x0A])) \<Longrightarrow>
      Q (if length bytes = MAX_RECORD_BYTES then Inl RecordTooLarge
         else case valid (bytes @ [CHR 0x0A]) of Inl e \<Rightarrow> Inl (RecordInvalid e) | Inr _ \<Rightarrow> Inr (ss_root s @ rel)) ns'"
  shows "wp (write_json_atomic h s valid relative encoded) Q ns"
proof -
  let ?out = "ss_root s @ rel"
  have attempts: "TEMPORARY_NAME_ATTEMPTS = Suc 31" by (simp add: TEMPORARY_NAME_ATTEMPTS_def)
  have free: "ns (join_name (butlast ?out) (''.meridian-tmp-'' @ x)) = None" if "dh_random h n = Inr x" for n x
    using ready that by (simp add: state_ready_def)
  have commit: "wp (commit_record h s valid relative ?out bytes p) Q (ns(p := Some (Regular [])))"
    if "temporary_in (butlast ?out) p" "ns p = None" for p
    using wp_commit_record[OF ready bytes(2) that] Q by blast
  have "wp (act_bind (create_state_file TEMPORARY_NAME_ATTEMPTS h (butlast ?out))
      (commit_record h s valid relative ?out bytes)) Q ns"
    unfolding attempts
    by (rule wp_bind, rule wp_create_state_file, rule ready_facts(1)[OF ready], rule free, assumption)
      (use commit in simp)
  then show ?thesis
    unfolding write_json_atomic_def
    by (intro wp_bind wp_lock[OF ready])
      (simp, intro wp_bind wp_resolve[OF ready], simp add: bytes map_err_def, intro wp_bind wp_return, use bytes in simp)
qed

section \<open>Properties of records\<close>

lemma grown_regular: "grown a b \<Longrightarrow> a p = Some (Regular c) \<Longrightarrow> b p = Some (Regular c)"
  unfolding grown_def by (drule spec[of _ p]) simp

text \<open>
  C28. A write never loses a record: whichever system calls fail, every regular file of the disk
  (the store's own temporaries and backups aside) is after a write what it was, or it is the
  record of the write and holds exactly the new text and a newline, or the write has failed
  and the file's old text is in a backup beside it.  A write that succeeds has put the new
  text at the record it names, within the size limit.
\<close>

theorem state_write_loses_no_record:
  assumes "write_json_atomic h s valid relative encoded d = (r, d')" "proper_name h (dk_nodes d) relative"
    and "dk_nodes d p = Some (Regular old)" "\<not> state_private p"
  shows "(dk_nodes d' p = Some (Regular old)
      \<or> (\<exists>bytes. encoded = Inr bytes \<and> dk_nodes d' p = Some (Regular (bytes @ [CHR 0x0A])))
      \<or> (\<exists>e b. r = Inl e \<and> dk_nodes d' p = None \<and> backup_in (butlast p) b \<and> dk_nodes d' b = Some (Regular old)))
    \<and> (\<forall>out. r = Inr out \<longrightarrow> (\<exists>bytes. encoded = Inr bytes \<and> length bytes \<le> MAX_RECORD_BYTES
          \<and> dk_nodes d' out = Some (Regular (bytes @ [CHR 0x0A]))))"
  using write_json_atomic_post[OF assms(1,2)]
proof (elim disjE conjE exE)
  fix e
  assume "r = Inl e" "grown (dk_nodes d) (dk_nodes d')"
  then show ?thesis using grown_regular[of "dk_nodes d" "dk_nodes d'" p old] assms(3) by simp
next
  fix ns out bytes
  assume bytes: "encoded = Inr bytes" and grown: "grown (dk_nodes d) ns" and out: "\<not> state_private out"
    and rest: "outside out ns (dk_nodes d')" "not_lost out (bytes @ [CHR 0x0A]) ns (dk_nodes d')"
    and ok: "\<forall>p. r = Inr p \<longrightarrow> p = out \<and> dk_nodes d' out = Some (Regular (bytes @ [CHR 0x0A]))
            \<and> length bytes \<le> MAX_RECORD_BYTES"
  have old: "ns p = Some (Regular old)" using grown assms(3) by (rule grown_regular)
  have "dk_nodes d' p = Some (Regular old)
      \<or> dk_nodes d' p = Some (Regular (bytes @ [CHR 0x0A]))
      \<or> (\<exists>e b. r = Inl e \<and> dk_nodes d' p = None \<and> backup_in (butlast p) b \<and> dk_nodes d' b = Some (Regular old))"
  proof (cases "p = out")
    case False
    then show ?thesis using rest(1) assms(4) old by (simp add: outside_def)
  next
    case True
    then consider "dk_nodes d' p = ns p" | "dk_nodes d' p = Some (Regular (bytes @ [CHR 0x0A]))"
      | b where "dk_nodes d' p = None" "backup_in (butlast p) b" "dk_nodes d' b = ns p"
      using rest(2) unfolding not_lost_def by blast
    then show ?thesis
    proof cases
      case (3 b)
      then obtain e where "r = Inl e" using ok True by (cases r) auto
      then show ?thesis using 3 old by auto
    qed (use old in simp_all)
  qed
  then show ?thesis using bytes ok by auto
qed

text \<open>
  C29. Records round trip: on a disk without faults and symbolic links, writing text shorter than
  the limit that parses succeeds, and reading the record in the state the write leaves yields
  what the parser makes of the text and the newline; the store is ready for the next write.
\<close>

theorem state_record_roundtrip:
  assumes "state_ready h s relative rel (dk_nodes d)" "length bytes < MAX_RECORD_BYTES"
    and "valid (bytes @ [CHR 0x0A]) = Inr u"
  shows "\<exists>d' d''. write_json_atomic h s valid relative (Inr bytes) d = (Inr (ss_root s @ rel), d')
     \<and> read_json h s parse relative d' = (map_err RecordInvalid (parse (bytes @ [CHR 0x0A])), d'')
     \<and> dk_nodes d'' = dk_nodes d' \<and> state_ready h s relative rel (dk_nodes d')"
proof -
  let ?c = "bytes @ [CHR 0x0A]"
  obtain r d' where run: "write_json_atomic h s valid relative (Inr bytes) d = (r, d')" by fastforce
  have "wp (write_json_atomic h s valid relative (Inr bytes)) (\<lambda>r ns. r = Inr (ss_root s @ rel)
      \<and> state_ready h s relative rel ns \<and> ns (ss_root s @ rel) = Some (Regular ?c)) (dk_nodes d)"
    by (rule wp_write_json[OF assms(1) refl]) (use assms(2,3) in simp_all)
  from wpD[OF this run] have r: "r = Inr (ss_root s @ rel)" and ready: "state_ready h s relative rel (dk_nodes d')"
    and new: "dk_nodes d' (ss_root s @ rel) = Some (Regular ?c)" by simp_all
  obtain r2 d'' where run2: "read_json h s parse relative d' = (r2, d'')" by fastforce
  have "wp (read_json h s parse relative) (\<lambda>r ns. r = map_err RecordInvalid (parse ?c) \<and> ns = dk_nodes d') (dk_nodes d')"
    by (rule wp_read_json[OF ready new]) (use assms(2) in simp)
  from wpD[OF this run2] run ready r run2 show ?thesis by simp
qed

text \<open>
  C30. The limit is off by one: a record of exactly 8 MiB passes the check of the write, but with
  its newline it is one byte too long for every reader.  The write replaces the old record,
  discards its backup, and only then reports the error of its own verification; from then on
  the record cannot be read.
\<close>

theorem state_record_limit_destroys_record:
  assumes "state_ready h s relative rel (dk_nodes d)" "length bytes = MAX_RECORD_BYTES"
  shows "\<exists>d' d''. write_json_atomic h s valid relative (Inr bytes) d = (Inl RecordTooLarge, d')
     \<and> dk_nodes d' (ss_root s @ rel) = Some (Regular (bytes @ [CHR 0x0A]))
     \<and> read_json h s parse relative d' = (Inl RecordTooLarge, d'')"
proof -
  let ?c = "bytes @ [CHR 0x0A]"
  obtain r d' where run: "write_json_atomic h s valid relative (Inr bytes) d = (r, d')" by fastforce
  have "wp (write_json_atomic h s valid relative (Inr bytes)) (\<lambda>r ns. r = Inl RecordTooLarge
      \<and> state_ready h s relative rel ns \<and> ns (ss_root s @ rel) = Some (Regular ?c)) (dk_nodes d)"
    by (rule wp_write_json[OF assms(1) refl]) (use assms(2) in simp_all)
  from wpD[OF this run] have r: "r = Inl RecordTooLarge" and ready: "state_ready h s relative rel (dk_nodes d')"
    and new: "dk_nodes d' (ss_root s @ rel) = Some (Regular ?c)" by simp_all
  obtain r2 d'' where run2: "read_json h s parse relative d' = (r2, d'')" by fastforce
  have "wp (read_json h s parse relative) (\<lambda>r ns. r = Inl RecordTooLarge) (dk_nodes d')"
    by (rule wp_read_json[OF ready new]) (use assms(2) in simp)
  from wpD[OF this run2] run new r run2 show ?thesis by auto
qed

section \<open>Enumeration is complete\<close>

text \<open>The files below a directory, as a reference, and whether it has a symbolic link.\<close>

fun tree_files :: "path \<Rightarrow> state_tree \<Rightarrow> path list" where
  "tree_files p RecordFile = [p]"
| "tree_files p (SubDirectory es) = concat (map (\<lambda>(n, t). tree_files (join_name p n) t) es)"
| "tree_files p SymlinkEntry = []"
| "tree_files p OtherEntry = []"

fun has_link :: "state_tree \<Rightarrow> bool" where
  "has_link (SubDirectory es) = list_ex (\<lambda>(n, t). has_link t) es"
| "has_link t = (t = SymlinkEntry)"

definition pending_files :: "pending_dirs \<Rightarrow> path multiset" where
  "pending_files ps = mset (concat (map (\<lambda>(dir, es). tree_files dir (SubDirectory es)) ps))"

definition pending_link :: "pending_dirs \<Rightarrow> bool" where
  "pending_link ps \<longleftrightarrow> list_ex (\<lambda>(dir, es). has_link (SubDirectory es)) ps"

lemma list_directory_outcome:
  "case list_directory maximum dir es pending records of
     Inr (pending', records') \<Rightarrow>
       mset records' + pending_files pending' = mset records + mset (tree_files dir (SubDirectory es)) + pending_files pending
       \<and> (pending_link pending' \<longleftrightarrow> has_link (SubDirectory es) \<or> pending_link pending)
       \<and> (length records \<le> maximum \<longrightarrow> length records' \<le> maximum)
   | Inl NamespaceSymlink \<Rightarrow> has_link (SubDirectory es)
   | Inl TooManyRecords \<Rightarrow> maximum < length records + length (tree_files dir (SubDirectory es))
   | Inl (NamespaceRefused _) \<Rightarrow> False"
proof (induction maximum dir es pending records rule: list_directory.induct)
  case (2 maximum dir n t es pending records)
  show ?case
  proof (cases t)
    case RecordFile
    then show ?thesis using 2(1)
      by (cases "maximum < Suc (length records)") (auto simp: Let_def split: sum.splits listing_error.splits)
  next
    case (SubDirectory sub)
    with 2(2)[OF SubDirectory] show ?thesis
      by (auto simp: pending_files_def pending_link_def split: sum.splits listing_error.splits)
  qed (use 2(3) in \<open>auto split: sum.splits listing_error.splits\<close>)
qed (simp add: pending_files_def)

lemma list_pending_outcome:
  "case list_pending maximum pending records of
     Inr records' \<Rightarrow> mset records' = mset records + pending_files pending \<and> \<not> pending_link pending
       \<and> (length records \<le> maximum \<longrightarrow> length records' \<le> maximum)
   | Inl NamespaceSymlink \<Rightarrow> pending_link pending
   | Inl TooManyRecords \<Rightarrow> maximum < length records + size (pending_files pending)
   | Inl (NamespaceRefused _) \<Rightarrow> False"
proof (induction maximum pending records rule: list_pending.induct)
  case (1 maximum records)
  then show ?case by (simp add: pending_files_def pending_link_def)
next
  case (2 maximum dir es pending records)
  have split: "pending_files ((dir, es) # pending) = mset (tree_files dir (SubDirectory es)) + pending_files pending"
    "pending_link ((dir, es) # pending) \<longleftrightarrow> has_link (SubDirectory es) \<or> pending_link pending"
    by (simp_all add: pending_files_def pending_link_def)
  note step = list_directory_outcome[where maximum = maximum and dir = dir and es = es and pending = pending and records = records]
  show ?case
  proof (cases "list_directory maximum dir es pending records")
    case (Inl e)
    then show ?thesis using step by (cases e) (simp_all add: split)
  next
    case (Inr x)
    obtain pending' records' where x: "x = (pending', records')" by fastforce
    have one: "mset records' + pending_files pending' = mset records + pending_files ((dir, es) # pending)"
      "pending_link pending' \<longleftrightarrow> pending_link ((dir, es) # pending)"
      "length records \<le> maximum \<longrightarrow> length records' \<le> maximum"
      using step by (simp_all add: Inr x split)
    from arg_cong[OF one(1), of size] have len: "length records' + size (pending_files pending')
        = length records + size (pending_files ((dir, es) # pending))" by simp
    have IH: "case list_pending maximum pending' records' of
       Inr records'' \<Rightarrow> mset records'' = mset records' + pending_files pending' \<and> \<not> pending_link pending'
         \<and> (length records' \<le> maximum \<longrightarrow> length records'' \<le> maximum)
     | Inl NamespaceSymlink \<Rightarrow> pending_link pending'
     | Inl TooManyRecords \<Rightarrow> maximum < length records' + size (pending_files pending')
     | Inl (NamespaceRefused _) \<Rightarrow> False" by (rule 2[OF Inr x[symmetric]])
    have run: "list_pending maximum ((dir, es) # pending) records = list_pending maximum pending' records'"
      by (simp add: Inr x)
    show ?thesis
    proof (cases "list_pending maximum pending' records'")
      case (Inl e)
      then show ?thesis using IH one(2) len unfolding run by (cases e) simp_all
    next
      case (Inr rs)
      then show ?thesis using IH one unfolding run by simp
    qed
  qed
qed

text \<open>
  The enumeration of a namespace is the list of its files: when the lock is taken and the name
  resolves, the walk over the pending directories returns exactly the regular files at any depth,
  each once and in the order of their paths, if there is no symbolic link and there are at most
  as many as the limit allows; otherwise it fails, with the error that names the reason.
\<close>

lemma enumeration_lists_every_record:
  assumes "act_bind (lock_operation h s) (\<lambda>_. resolve_record h s namespace False) d = (Inr directory, d')"
    and "tree (dk_nodes d') directory = SubDirectory es"
  shows "case list_records h tree s namespace max_entries d of
      (Inr records, d'') \<Rightarrow> d'' = d' \<and> records = sort (tree_files directory (SubDirectory es))
         \<and> \<not> has_link (SubDirectory es) \<and> length records \<le> min max_entries MAX_RECORDS
    | (Inl e, _) \<Rightarrow> e = NamespaceSymlink \<and> has_link (SubDirectory es)
         \<or> e = TooManyRecords \<and> min max_entries MAX_RECORDS < length (tree_files directory (SubDirectory es))"
proof -
  let ?max = "min max_entries MAX_RECORDS"
  have files: "pending_files [(directory, es)] = mset (tree_files directory (SubDirectory es))"
    "pending_link [(directory, es)] \<longleftrightarrow> has_link (SubDirectory es)"
    by (simp_all add: pending_files_def pending_link_def)
  note walk = list_pending_outcome[where maximum = ?max and pending = "[(directory, es)]" and records = "[]"]
  show ?thesis
  proof (cases "list_pending ?max [(directory, es)] []")
    case (Inl e)
    then show ?thesis using walk assms files by (cases e) (simp_all add: list_records_def)
  next
    case (Inr records)
    then have "mset records = mset (tree_files directory (SubDirectory es))" "\<not> has_link (SubDirectory es)"
      "length records \<le> ?max" using walk files by simp_all
    moreover from this(1) have "length records = length (tree_files directory (SubDirectory es))"
      by (rule mset_eq_length)
    moreover from calculation(1) have "sort records = sort (tree_files directory (SubDirectory es))"
      by (intro properties_for_sort) simp_all
    ultimately show ?thesis using Inr assms by (simp add: list_records_def del: tree_files.simps list_pending.simps)
  qed
qed

section \<open>Witnesses\<close>

text \<open>A disk with a store at \<open>/s\<close> and one record; the file system follows the nodes.\<close>

definition state_view :: "nodes \<Rightarrow> filesystem" where
  "state_view ns = \<lparr>fs_canonicalize = (\<lambda>p. if ns p = None then Inl ''not found'' else Inr p),
     fs_exists = (\<lambda>p. ns p \<noteq> None),
     fs_symlink_metadata = (\<lambda>p. case ns p of None \<Rightarrow> Inl ''not found'' | Some DirNode \<Rightarrow> Inr Directory
        | Some (Regular _) \<Rightarrow> Inr RegularFile | Some (LinkTo _) \<Rightarrow> Inr Symlink),
     fs_display = (\<lambda>_. []), fs_from_str = (\<lambda>s. [Normal s])\<rparr>"

definition state_host :: disk_host where
  "state_host = \<lparr>dh_view = state_view, dh_fault = (\<lambda>_. None), dh_random = (\<lambda>n. Inr ''0''), dh_digest = id\<rparr>"

definition state_demo :: state_store where
  "state_demo = \<lparr>ss_root = [RootDir, Normal ''s''],
     ss_operation_lock_path = [RootDir, Normal ''s'', Normal ''.meridian-mcp.lock'']\<rparr>"

definition state_disk :: disk where
  "state_disk = \<lparr>dk_nodes = [[RootDir, Normal ''s''] \<mapsto> DirNode,
     [RootDir, Normal ''s'', Normal ''.meridian-mcp.lock''] \<mapsto> Regular [],
     [RootDir, Normal ''s'', Normal ''r''] \<mapsto> Regular ''old''], dk_clock = 0\<rparr>"

lemma state_host_ready: "state_ready state_host state_demo ''r'' [Normal ''r''] (dk_nodes state_disk)"
proof -
  have "plain_view state_host"
    by (auto simp: plain_view_def state_host_def state_view_def link_free_def split: option.splits node.splits)
  moreover have "link_free (dk_nodes state_disk)" by (auto simp: link_free_def state_disk_def)
  ultimately show ?thesis
    by (simp add: state_ready_def no_faults_def state_host_def state_demo_def state_disk_def state_view_def
        normal_path_def record_name_ok_def is_normal_def is_absolute_def join_name_def state_private_def file_name_def)
qed

theorem state_record_roundtrip_witness:
  "\<exists>d' d''. write_json_atomic state_host state_demo (\<lambda>_. Inr ()) ''r'' (Inr ''new'') state_disk
       = (Inr [RootDir, Normal ''s'', Normal ''r''], d')
     \<and> read_json state_host state_demo Inr ''r'' d' = (Inr (''new'' @ [CHR 0x0A]), d'')"
  using state_record_roundtrip[OF state_host_ready, of "''new''" "\<lambda>_. Inr ()" "()" "Inr"]
  by (simp add: MAX_RECORD_BYTES_def state_demo_def map_err_def) blast

theorem state_record_limit_destroys_record_witness:
  "\<exists>d' d''. write_json_atomic state_host state_demo (\<lambda>_. Inr ()) ''r'' (Inr (replicate (8 * 1024 * 1024) CHR ''x'')) state_disk
       = (Inl RecordTooLarge, d')
     \<and> dk_nodes d' [RootDir, Normal ''s'', Normal ''r''] \<noteq> dk_nodes state_disk [RootDir, Normal ''s'', Normal ''r'']
     \<and> (read_json state_host state_demo Inr ''r'' d' :: (store_error + string) \<times> disk) = (Inl RecordTooLarge, d'')"
proof -
  let ?b = "replicate (8 * 1024 * 1024) CHR ''x''"
  have len: "length ?b = MAX_RECORD_BYTES" unfolding MAX_RECORD_BYTES_def by (rule length_replicate)
  have "length (?b @ [CHR 0x0A]) \<noteq> length ''old''" unfolding length_append len by (simp add: MAX_RECORD_BYTES_def)
  then have differ: "?b @ [CHR 0x0A] \<noteq> ''old''" by (metis (no_types))
  have old: "dk_nodes state_disk [RootDir, Normal ''s'', Normal ''r''] = Some (Regular ''old'')"
    by (simp add: state_disk_def)
  obtain d' d'' where run: "write_json_atomic state_host state_demo (\<lambda>_. Inr ()) ''r'' (Inr ?b) state_disk = (Inl RecordTooLarge, d')"
    and new: "dk_nodes d' (ss_root state_demo @ [Normal ''r'']) = Some (Regular (?b @ [CHR 0x0A]))"
    and again: "(read_json state_host state_demo Inr ''r'' d' :: (store_error + string) \<times> disk) = (Inl RecordTooLarge, d'')"
    using state_record_limit_destroys_record[OF state_host_ready len, of "\<lambda>_. Inr ()" "Inr :: string \<Rightarrow> string + string"]
    by (elim exE conjE)
  have path: "ss_root state_demo @ [Normal ''r''] = [RootDir, Normal ''s'', Normal ''r'']"
    by (simp add: state_demo_def)
  have "dk_nodes d' [RootDir, Normal ''s'', Normal ''r''] \<noteq> Some (Regular ''old'')"
    using new differ unfolding path by (metis node.inject(1) option.inject)
  with run again old show ?thesis by metis
qed

theorem state_write_loses_no_record_witness:
  "\<exists>out d'. write_json_atomic state_host state_demo (\<lambda>_. Inr ()) ''r'' (Inr ''new'') state_disk = (Inr out, d')
     \<and> dk_nodes d' out = Some (Regular (''new'' @ [CHR 0x0A]))"
proof -
  let ?p = "[RootDir, Normal ''s'', Normal ''r'']"
  have name: "proper_name state_host (dk_nodes state_disk) ''r''"
    by (simp add: proper_name_def state_host_def state_view_def file_name_def)
  have old: "dk_nodes state_disk ?p = Some (Regular ''old'')" and public: "\<not> state_private ?p"
    by (simp_all add: state_disk_def state_private_def file_name_def)
  have "wp (write_json_atomic state_host state_demo (\<lambda>_. Inr ()) ''r'' (Inr ''new''))
      (\<lambda>r ns. r = Inr (ss_root state_demo @ [Normal ''r''])) (dk_nodes state_disk)"
    by (rule wp_write_json[OF state_host_ready refl]) (simp_all add: MAX_RECORD_BYTES_def)
  then obtain out d' where run: "write_json_atomic state_host state_demo (\<lambda>_. Inr ()) ''r'' (Inr ''new'') state_disk = (Inr out, d')"
    unfolding wp_def by (metis prod.collapse)
  show ?thesis using state_write_loses_no_record[OF run name old public] run by auto
qed

definition demo_entries :: "(string \<times> state_tree) list" where
  "demo_entries = [(''b'', SubDirectory [(''c'', RecordFile)]), (''a'', RecordFile), (''f'', OtherEntry)]"

lemma enumeration_lists_every_record_witness:
  "case list_records state_host (\<lambda>_ _. SubDirectory demo_entries) state_demo ''r'' 2 state_disk of
      (Inr records, _) \<Rightarrow> records = sort (tree_files [RootDir, Normal ''s'', Normal ''r''] (SubDirectory demo_entries))
    | (Inl e, _) \<Rightarrow> False"
proof -
  obtain r d' where run: "act_bind (lock_operation state_host state_demo)
      (\<lambda>_. resolve_record state_host state_demo ''r'' False) state_disk = (r, d')"
    by (rule prod.exhaust)
  have "wp (act_bind (lock_operation state_host state_demo) (\<lambda>_. resolve_record state_host state_demo ''r'' False))
      (\<lambda>r ns. r = Inr (ss_root state_demo @ [Normal ''r''])) (dk_nodes state_disk)"
    by (intro wp_bind wp_lock[OF state_host_ready]) (simp, rule wp_resolve[OF state_host_ready], simp)
  from wpD[OF this run] have r: "r = Inr [RootDir, Normal ''s'', Normal ''r'']" by (simp add: state_demo_def)
  note run = run[unfolded r]
  have entries: "\<not> has_link (SubDirectory demo_entries)"
    "length (tree_files [RootDir, Normal ''s'', Normal ''r''] (SubDirectory demo_entries)) = 2"
    by (simp_all add: demo_entries_def)
  have limit: "min 2 MAX_RECORDS = 2" by (simp add: MAX_RECORDS_def)
  let ?r = "list_records state_host (\<lambda>_ _. SubDirectory demo_entries) state_demo ''r'' 2 state_disk"
  have "case ?r of
      (Inr records, d'') \<Rightarrow> d'' = d' \<and> records = sort (tree_files [RootDir, Normal ''s'', Normal ''r''] (SubDirectory demo_entries))
         \<and> \<not> has_link (SubDirectory demo_entries) \<and> length records \<le> min 2 MAX_RECORDS
    | (Inl e, _) \<Rightarrow> e = NamespaceSymlink \<and> has_link (SubDirectory demo_entries)
         \<or> e = TooManyRecords \<and> min 2 MAX_RECORDS < length (tree_files [RootDir, Normal ''s'', Normal ''r''] (SubDirectory demo_entries))"
    by (rule enumeration_lists_every_record[OF run]) (rule refl)
  then show ?thesis unfolding limit using entries
    by (cases "fst ?r"; cases ?r) (simp_all only: prod.case sum.case fst_conv, auto)
qed

end
