(* ===== verification/Proc_Resolution.thy ===== *)
theory Proc_Resolution
  imports Btree_Groups "HOL-Library.List_Lexorder" "HOL-Library.Char_ord"
begin

text \<open>
  Procedure resolution, from \<open>src/proc_resolution.rs\<close>: an index of which type implements and
  declares which procedure, and the walk up the parent types that resolves a call.  The object
  tree comes from the vendored parser; the model keeps of a type what the resolver reads, its
  path, its parent's path and its procedures.  Nothing in the resolver bounds the walk, so it is
  a partial function: not returning is the value \<open>None\<close>.
\<close>

definition MAX_SAME_NAME_CANDIDATES :: nat where
  "MAX_SAME_NAME_CANDIDATES = 32"

record source_location =
  sl_file :: string
  sl_line :: u32
  sl_column :: u16

datatype proc_resolution_kind = LocalImplementation | InheritedImplementation | ProcNotFound

record resolved_implementation =
  im_owner :: string
  im_override_index :: nat
  im_location :: source_location
  im_has_body :: bool
  im_parameters :: "string list"

record proc_resolution =
  pr_requested_type_path :: string
  pr_proc_name :: string
  pr_implementation_owner :: string
  pr_declaration_owner :: string
  pr_resolution_kind :: proc_resolution_kind
  pr_implementations :: "resolved_implementation list"

definition resolution_diagnostics :: "proc_resolution \<Rightarrow> string list" where
  "resolution_diagnostics r =
     (case pr_resolution_kind r of
        LocalImplementation \<Rightarrow> []
      | InheritedImplementation \<Rightarrow>
          [''requested type inherits the implementation from '' @ pr_implementation_owner r]
      | ProcNotFound \<Rightarrow> [''procedure was not found''])"

datatype proc_resolution_error =
    TypeNotFound string
  | ProcMissing (pm_type: string) (pm_name: string) (pm_chain: "string list")
      (pm_candidates: "string list")

record proc_resolver =
  rv_parents :: "(string, string option) btree_map"
  rv_declarations :: "(string, string list) btree_map"
  rv_local_implementations :: "(string, (string, resolved_implementation list) btree_map) btree_map"
  rv_owners_by_proc_name :: "(string, string list) btree_map"
  rv_canonical_resolutions :: "proc_resolution list"

definition proc_resolver_default :: proc_resolver where
  "proc_resolver_default =
     \<lparr>rv_parents = [], rv_declarations = [], rv_local_implementations = [],
      rv_owners_by_proc_name = [], rv_canonical_resolutions = []\<rparr>"

section \<open>The object tree, as far as the resolver reads it\<close>

record tree_proc =
  tp_file :: nat
  tp_line :: u32
  tp_column :: u16
  tp_code :: bool
  tp_body_range :: bool
  tp_parameters :: "string list"

record tree_proc_entry =
  te_declaration :: bool
  te_value :: "tree_proc list"

record tree_type =
  tt_path :: string
  tt_parent :: "string option"
  tt_procs :: "(string \<times> tree_proc_entry) list"

text \<open>\<open>iter_self_procs\<close>: every definition of every procedure of a type, with its position.\<close>

definition iter_self_procs :: "tree_type \<Rightarrow> (string \<times> nat \<times> tree_proc) list" where
  "iter_self_procs ty =
     concat (map (\<lambda>(name, entry). map (Pair name) (enumerate 0 (te_value entry))) (tt_procs ty))"

section \<open>Building the index\<close>

definition implementation_of ::
  "(nat \<Rightarrow> string) \<Rightarrow> string \<Rightarrow> nat \<times> tree_proc \<Rightarrow> resolved_implementation" where
  "implementation_of file_path owner p =
     (case p of (override_index, value) \<Rightarrow>
        \<lparr>im_owner = owner, im_override_index = override_index,
         im_location = \<lparr>sl_file = file_path (tp_file value), sl_line = tp_line value,
                        sl_column = tp_column value\<rparr>,
         im_has_body = (tp_code value \<or> tp_body_range value),
         im_parameters = tp_parameters value\<rparr>)"

definition type_declarations :: "tree_type \<Rightarrow> string list" where
  "type_declarations ty =
     fold insort_insert (map fst (filter (\<lambda>(_, entry). te_declaration entry) (tt_procs ty))) []"

definition type_implementations ::
  "(nat \<Rightarrow> string) \<Rightarrow> tree_type \<Rightarrow> (string, resolved_implementation list) btree_map" where
  "type_implementations file_path ty =
     group_all push_back []
       (map (\<lambda>(name, p). (name, implementation_of file_path (tt_path ty) p)) (iter_self_procs ty)) []"

definition add_type :: "(nat \<Rightarrow> string) \<Rightarrow> tree_type \<Rightarrow> proc_resolver \<Rightarrow> proc_resolver" where
  "add_type file_path ty r =
     (let owner = tt_path ty;
          declarations = type_declarations ty;
          local = type_implementations file_path ty in
      r\<lparr>rv_parents := btree_insert owner (tt_parent ty) (rv_parents r),
        rv_declarations :=
          (if declarations \<noteq> [] then btree_insert owner declarations (rv_declarations r)
           else rv_declarations r),
        rv_owners_by_proc_name :=
          group_all insort_insert [] (map (\<lambda>(name, _). (name, owner)) (iter_self_procs ty))
            (rv_owners_by_proc_name r),
        rv_local_implementations :=
          (if local \<noteq> [] then btree_insert owner local (rv_local_implementations r)
           else rv_local_implementations r)\<rparr>)"

definition index_types :: "(nat \<Rightarrow> string) \<Rightarrow> tree_type list \<Rightarrow> proc_resolver" where
  "index_types file_path types = fold (add_type file_path) types proc_resolver_default"

section \<open>Resolving\<close>

record walk =
  wk_searched :: "string list"
  wk_implementations :: "resolved_implementation list"
  wk_implementation_owner :: "string option"
  wk_declaration_owner :: "string option"

definition walk_start :: walk where
  "walk_start = \<lparr>wk_searched = [], wk_implementations = [], wk_implementation_owner = None,
                 wk_declaration_owner = None\<rparr>"

definition declares :: "proc_resolver \<Rightarrow> string \<Rightarrow> string \<Rightarrow> bool" where
  "declares r proc_name owner =
     (case map_of (rv_declarations r) owner of
        Some names \<Rightarrow> proc_name \<in> set names | None \<Rightarrow> False)"

definition local_of :: "proc_resolver \<Rightarrow> string \<Rightarrow> string \<Rightarrow> resolved_implementation list option" where
  "local_of r proc_name owner =
     Option.bind (map_of (rv_local_implementations r) owner) (\<lambda>procs. map_of procs proc_name)"

definition visit_type :: "proc_resolver \<Rightarrow> string \<Rightarrow> string \<Rightarrow> walk \<Rightarrow> walk" where
  "visit_type r proc_name owner w =
     (let w = w\<lparr>wk_searched := wk_searched w @ [owner]\<rparr>;
          w = (if wk_declaration_owner w = None \<and> declares r proc_name owner
               then w\<lparr>wk_declaration_owner := Some owner\<rparr> else w) in
      case local_of r proc_name owner of
        Some local \<Rightarrow>
          w\<lparr>wk_implementation_owner :=
              (case wk_implementation_owner w of None \<Rightarrow> Some owner | Some first \<Rightarrow> Some first),
            wk_implementations := wk_implementations w @ local\<rparr>
      | None \<Rightarrow> w)"

definition parent_of :: "proc_resolver \<Rightarrow> string \<Rightarrow> string option" where
  "parent_of r owner = Option.bind (map_of (rv_parents r) owner) (\<lambda>p. p)"

partial_function (option) walk_parents ::
  "proc_resolver \<Rightarrow> string \<Rightarrow> string option \<Rightarrow> walk \<Rightarrow> walk option" where
  [code]: "walk_parents r proc_name current w =
     (case current of
        None \<Rightarrow> Some w
      | Some owner \<Rightarrow> walk_parents r proc_name (parent_of r owner) (visit_type r proc_name owner w))"

definition resolution_of ::
  "proc_resolver \<Rightarrow> string \<Rightarrow> string \<Rightarrow> walk \<Rightarrow> proc_resolution_error + proc_resolution" where
  "resolution_of r requested proc_name w =
     (case wk_implementation_owner w of
        None \<Rightarrow>
          Inl (ProcMissing requested proc_name (wk_searched w)
            (take MAX_SAME_NAME_CANDIDATES
              (case map_of (rv_owners_by_proc_name r) proc_name of Some os \<Rightarrow> os | None \<Rightarrow> [])))
      | Some implementation_owner \<Rightarrow>
          Inr \<lparr>pr_requested_type_path = requested, pr_proc_name = proc_name,
               pr_implementation_owner = implementation_owner,
               pr_declaration_owner =
                 (case wk_declaration_owner w of Some d \<Rightarrow> d | None \<Rightarrow> implementation_owner),
               pr_resolution_kind =
                 (if implementation_owner = requested then LocalImplementation
                  else InheritedImplementation),
               pr_implementations = wk_implementations w\<rparr>)"

definition resolve_proc ::
  "proc_resolver \<Rightarrow> string \<Rightarrow> string \<Rightarrow> (proc_resolution_error + proc_resolution) option" where
  "resolve_proc r requested proc_name =
     (if map_of (rv_parents r) requested = None then Some (Inl (TypeNotFound requested))
      else map_option (resolution_of r requested proc_name)
             (walk_parents r proc_name (Some requested) walk_start))"

text \<open>
  \<open>ProcResolver::build\<close>: every local procedure is resolved once more for the canonical list; the
  build returns when each of those walks does.
\<close>

definition canonical_keys :: "proc_resolver \<Rightarrow> (string \<times> string) list" where
  "canonical_keys r =
     concat (map (\<lambda>(owner, procs). map (\<lambda>(name, _). (owner, name)) procs) (rv_local_implementations r))"

fun all_returned :: "'a option list \<Rightarrow> 'a list option" where
  "all_returned [] = Some []"
| "all_returned (x # xs) =
     Option.bind x (\<lambda>y. Option.bind (all_returned xs) (\<lambda>ys. Some (y # ys)))"

definition build_resolver :: "(nat \<Rightarrow> string) \<Rightarrow> tree_type list \<Rightarrow> proc_resolver option" where
  "build_resolver file_path types =
     (let r = index_types file_path types in
      map_option (\<lambda>results. r\<lparr>rv_canonical_resolutions := List.map_filter ok results\<rparr>)
        (all_returned (map (\<lambda>(owner, name). resolve_proc r owner name) (canonical_keys r))))"


section \<open>The walk up a finite chain of parents\<close>

fun is_chain :: "(string \<Rightarrow> string option) \<Rightarrow> string option \<Rightarrow> string list \<Rightarrow> bool" where
  "is_chain up None cs \<longleftrightarrow> cs = []"
| "is_chain up (Some t) [] \<longleftrightarrow> False"
| "is_chain up (Some t) (c # cs) \<longleftrightarrow> c = t \<and> is_chain up (up t) cs"

lemma is_chain_Some: "is_chain up (Some t) cs \<longleftrightarrow> (\<exists>ds. cs = t # ds \<and> is_chain up (up t) ds)"
  by (cases cs) auto

lemma walk_parents_simps:
  "walk_parents r n None w = Some w"
  "walk_parents r n (Some t) w = walk_parents r n (parent_of r t) (visit_type r n t w)"
  by (subst walk_parents.simps, simp)+

lemma walk_parents_chain:
  "is_chain (parent_of r) current cs \<Longrightarrow>
   walk_parents r n current w = Some (fold (visit_type r n) cs w)"
proof (induction cs arbitrary: current w)
  case Nil
  then show ?case by (cases current) (auto simp: walk_parents_simps is_chain_Some)
next
  case (Cons c cs)
  then obtain t where "current = Some t" by (cases current) auto
  with Cons show ?case by (simp add: walk_parents_simps)
qed

lemma walk_parents_returns:
  assumes "walk_parents r n current w = Some w'"
  shows "\<exists>cs. is_chain (parent_of r) current cs"
proof (rule walk_parents.raw_induct[OF _ assms,
    where P = "\<lambda>r n current w w'. \<exists>cs. is_chain (parent_of r) current cs"])
  fix f r n current w w'
  assume IH: "\<And>r n current w w'. f r n current w = Some w'
      \<Longrightarrow> \<exists>cs. is_chain (parent_of r) current cs"
    and step: "(case current of None \<Rightarrow> Some w
      | Some owner \<Rightarrow> f r n (parent_of r owner) (visit_type r n owner w)) = Some w'"
  show "\<exists>cs. is_chain (parent_of r) current cs"
  proof (cases current)
    case (Some t)
    with step IH obtain cs where "is_chain (parent_of r) (parent_of r t) cs" by fastforce
    with Some show ?thesis by (intro exI[of _ "t # cs"]) simp
  qed (auto intro: exI[of _ "[]"])
qed

text \<open>What the walk collects, on its own terms.\<close>

definition local_list :: "proc_resolver \<Rightarrow> string \<Rightarrow> string \<Rightarrow> resolved_implementation list" where
  "local_list r n t = (case local_of r n t of Some l \<Rightarrow> l | None \<Rightarrow> [])"

lemma fold_visit_type:
  "wk_searched (fold (visit_type r n) cs w) = wk_searched w @ cs"
  "wk_implementations (fold (visit_type r n) cs w)
     = wk_implementations w @ concat (map (local_list r n) cs)"
  "wk_implementation_owner (fold (visit_type r n) cs w) =
     (case wk_implementation_owner w of Some t \<Rightarrow> Some t
      | None \<Rightarrow> find (\<lambda>t. local_of r n t \<noteq> None) cs)"
  "wk_declaration_owner (fold (visit_type r n) cs w) =
     (case wk_declaration_owner w of Some t \<Rightarrow> Some t | None \<Rightarrow> find (declares r n) cs)"
proof (induction cs arbitrary: w)
  case (Cons c cs)
  {
    case 1 then show ?case using Cons by (simp add: visit_type_def Let_def split: option.split)
  next
    case 2 then show ?case
      using Cons by (simp add: visit_type_def local_list_def Let_def split: option.split)
  next
    case 3 then show ?case using Cons by (simp add: visit_type_def Let_def split: option.split)
  next
    case 4 then show ?case using Cons by (simp add: visit_type_def Let_def split: option.split)
  }
qed (simp_all split: option.split)

section \<open>The index of a tree\<close>

definition find_type :: "tree_type list \<Rightarrow> string \<Rightarrow> tree_type option" where
  "find_type ts p = find (\<lambda>ty. tt_path ty = p) ts"

definition well_formed_tree :: "tree_type list \<Rightarrow> bool" where
  "well_formed_tree ts \<longleftrightarrow>
     distinct (map tt_path ts) \<and> (\<forall>ty \<in> set ts. distinct (map fst (tt_procs ty)))"

definition tree_parent :: "tree_type list \<Rightarrow> string \<Rightarrow> string option" where
  "tree_parent ts p = Option.bind (find_type ts p) tt_parent"

text \<open>The definitions a type gives a procedure itself, and whether it declares it.\<close>

definition tree_local :: "(nat \<Rightarrow> string) \<Rightarrow> tree_type list \<Rightarrow> string \<Rightarrow> string \<Rightarrow> resolved_implementation list" where
  "tree_local file_path ts n owner =
     (case find_type ts owner of None \<Rightarrow> []
      | Some ty \<Rightarrow>
          (case map_of (tt_procs ty) n of None \<Rightarrow> []
           | Some entry \<Rightarrow> map (implementation_of file_path owner) (enumerate 0 (te_value entry))))"

definition tree_declares :: "tree_type list \<Rightarrow> string \<Rightarrow> string \<Rightarrow> bool" where
  "tree_declares ts n owner =
     (case find_type ts owner of None \<Rightarrow> False
      | Some ty \<Rightarrow> (case map_of (tt_procs ty) n of None \<Rightarrow> False | Some entry \<Rightarrow> te_declaration entry))"

lemma find_type_Some: "find_type ts p = Some ty \<Longrightarrow> ty \<in> set ts \<and> tt_path ty = p"
  by (auto simp: find_type_def find_Some_iff)

lemma find_type_None: "find_type ts p = None \<longleftrightarrow> p \<notin> tt_path ` set ts"
  by (auto simp: find_type_def find_None_iff)

lemma find_type_last:
  "distinct (map tt_path ts) \<Longrightarrow> find_type (rev ts) p = find_type ts p"
proof -
  assume d: "distinct (map tt_path ts)"
  show ?thesis
  proof (cases "p \<in> tt_path ` set ts")
    case True
    then obtain ty where "ty \<in> set ts" "p = tt_path ty" by auto
    with find_key[OF d] find_key[of tt_path "rev ts" ty] d show ?thesis
      by (simp add: find_type_def rev_map[symmetric])
  next
    case False
    then show ?thesis using find_type_None[of ts p] find_type_None[of "rev ts" p] by simp
  qed
qed


lemma find_type_snoc:
  "find_type (rev (ts @ [ty])) p = (if tt_path ty = p then Some ty else find_type (rev ts) p)"
  by (simp add: find_type_def)

lemma index_types_snoc: "index_types fp (ts @ [ty]) = add_type fp ty (index_types fp ts)"
  by (simp add: index_types_def)

lemma index_parents_rev:
  "map_of (rv_parents (index_types fp ts)) p = map_option tt_parent (find_type (rev ts) p)"
proof (induction ts rule: rev_induct)
  case Nil
  then show ?case by (simp add: index_types_def proc_resolver_default_def find_type_def)
next
  case (snoc ty ts)
  then show ?case
    by (simp add: index_types_snoc find_type_snoc add_type_def Let_def map_of_btree_insert
        del: rev_append)
qed

lemma values_of_entries:
  "distinct (map fst ps) \<Longrightarrow>
   values_of n (concat (map (\<lambda>(k, e). map (\<lambda>x. (k, g x)) (f e)) ps))
     = (case map_of ps n of None \<Rightarrow> [] | Some e \<Rightarrow> map g (f e))"
proof (induction ps)
  case (Cons p ps)
  obtain k e where p: "p = (k, e)" by (cases p)
  have k: "values_of n (map (\<lambda>x. (k, g x)) (f e)) = (if k = n then map g (f e) else [])"
    using values_of_const[of n k "map g (f e)"] by (simp add: comp_def)
  show ?case
  proof (cases "k = n")
    case True
    with Cons.prems p have "map_of ps n = None" by (auto simp: map_of_eq_None_iff)
    with Cons p k True show ?thesis by simp
  qed (use Cons p k in simp)
qed simp

lemma type_implementations_lookup:
  assumes "distinct (map fst (tt_procs ty))"
  shows "map_of (type_implementations fp ty) n =
     (let l = (case map_of (tt_procs ty) n of None \<Rightarrow> []
               | Some e \<Rightarrow> map (implementation_of fp (tt_path ty)) (enumerate 0 (te_value e))) in
      if l = [] then None else Some l)"
proof -
  have eq: "map (\<lambda>(name, p). (name, implementation_of fp (tt_path ty) p)) (iter_self_procs ty)
      = concat (map (\<lambda>(k, e). map (\<lambda>x. (k, implementation_of fp (tt_path ty) x))
          (enumerate 0 (te_value e))) (tt_procs ty))"
    by (simp add: iter_self_procs_def map_concat comp_def split_def)
  show ?thesis
    unfolding type_implementations_def eq map_of_group_push values_of_entries[OF assms] Let_def
    by simp
qed

lemma map_of_type_declarations:
  "n \<in> set (type_declarations ty) \<longleftrightarrow> (\<exists>e. (n, e) \<in> set (tt_procs ty) \<and> te_declaration e)"
  by (force simp: type_declarations_def set_fold_insert)

lemma index_new_path:
  assumes "p \<notin> tt_path ` set ts"
  shows "map_of (rv_local_implementations (index_types fp ts)) p = None"
    and "map_of (rv_declarations (index_types fp ts)) p = None"
  using assms
  by (induction ts rule: rev_induct)
    (auto simp: index_types_snoc add_type_def Let_def map_of_btree_insert,
     simp_all add: index_types_def proc_resolver_default_def)

lemma local_of_index_rev:
  assumes "well_formed_tree ts"
  shows "local_of (index_types fp ts) n p =
     (if tree_local fp (rev ts) n p = [] then None else Some (tree_local fp (rev ts) n p))"
  using assms
proof (induction ts rule: rev_induct)
  case Nil
  then show ?case
    by (simp add: index_types_def proc_resolver_default_def local_of_def tree_local_def find_type_def)
next
  case (snoc ty ts)
  from snoc.prems have wf: "well_formed_tree ts" "distinct (map fst (tt_procs ty))"
    "tt_path ty \<notin> tt_path ` set ts"
    by (auto simp: well_formed_tree_def)
  show ?case
  proof (cases "tt_path ty = p")
    case True
    with wf(3) index_new_path(1)[of p ts fp]
    have "local_of (index_types fp (ts @ [ty])) n p = map_of (type_implementations fp ty) n"
      by (auto simp: local_of_def index_types_snoc add_type_def Let_def map_of_btree_insert)
    then show ?thesis
      unfolding True[symmetric]
      by (simp add: type_implementations_lookup[OF wf(2)] tree_local_def find_type_snoc Let_def
          del: rev_append)
  next
    case False
    then have "local_of (index_types fp (ts @ [ty])) n p = local_of (index_types fp ts) n p"
      by (simp add: local_of_def index_types_snoc add_type_def Let_def map_of_btree_insert)
    with snoc.IH[OF wf(1)] False show ?thesis
      by (simp add: tree_local_def find_type_snoc del: rev_append)
  qed
qed

lemma declares_index_rev:
  assumes "well_formed_tree ts"
  shows "declares (index_types fp ts) n p = tree_declares (rev ts) n p"
  using assms
proof (induction ts rule: rev_induct)
  case Nil
  then show ?case
    by (simp add: index_types_def proc_resolver_default_def declares_def tree_declares_def
        find_type_def)
next
  case (snoc ty ts)
  from snoc.prems have wf: "well_formed_tree ts" "distinct (map fst (tt_procs ty))"
    "tt_path ty \<notin> tt_path ` set ts"
    by (auto simp: well_formed_tree_def)
  show ?case
  proof (cases "tt_path ty = p")
    case True
    have "declares (index_types fp (ts @ [ty])) n p \<longleftrightarrow> n \<in> set (type_declarations ty)"
      using True wf(3) index_new_path(2)[of p ts fp]
      by (auto simp: declares_def index_types_snoc add_type_def Let_def map_of_btree_insert)
    also have "\<dots> \<longleftrightarrow> tree_declares (rev (ts @ [ty])) n p"
      using True wf(2) unfolding map_of_type_declarations tree_declares_def find_type_snoc
      by (auto split: option.split) (metis map_of_eq_Some_iff option.inject)
    finally show ?thesis .
  next
    case False
    then have "declares (index_types fp (ts @ [ty])) n p = declares (index_types fp ts) n p"
      by (simp add: declares_def index_types_snoc add_type_def Let_def map_of_btree_insert)
    with snoc.IH[OF wf(1)] False show ?thesis
      by (simp add: tree_declares_def find_type_snoc del: rev_append)
  qed
qed

lemma index_tree:
  assumes "well_formed_tree ts"
  shows "map_of (rv_parents (index_types fp ts)) p = map_option tt_parent (find_type ts p)"
    and "parent_of (index_types fp ts) = tree_parent ts"
    and "local_of (index_types fp ts) n p =
      (if tree_local fp ts n p = [] then None else Some (tree_local fp ts n p))"
    and "local_list (index_types fp ts) n = tree_local fp ts n"
    and "declares (index_types fp ts) n = tree_declares ts n"
proof -
  have d: "find_type (rev ts) = find_type ts"
    using assms find_type_last by (auto simp: well_formed_tree_def fun_eq_iff)
  then show p: "map_of (rv_parents (index_types fp ts)) p = map_option tt_parent (find_type ts p)" for p
    by (simp add: index_parents_rev)
  then show "parent_of (index_types fp ts) = tree_parent ts"
    by (auto simp: parent_of_def tree_parent_def fun_eq_iff bind_map_option comp_def
        split: option.split)
  show l: "local_of (index_types fp ts) n p =
      (if tree_local fp ts n p = [] then None else Some (tree_local fp ts n p))" for p
    using local_of_index_rev[OF assms] d by (simp add: tree_local_def)
  show "local_list (index_types fp ts) n = tree_local fp ts n"
    by (simp add: local_list_def l fun_eq_iff)
  show "declares (index_types fp ts) n = tree_declares ts n"
    using declares_index_rev[OF assms] d by (simp add: tree_declares_def fun_eq_iff)
qed


lemma rv_owners_index:
  "rv_owners_by_proc_name (index_types fp ts) =
     group_all insort_insert []
       (concat (map (\<lambda>ty. map (\<lambda>(name, _). (name, tt_path ty)) (iter_self_procs ty)) ts)) []"
proof (induction ts rule: rev_induct)
  case Nil
  then show ?case by (simp add: index_types_def proc_resolver_default_def)
next
  case (snoc ty ts)
  then show ?case by (simp add: index_types_snoc add_type_def Let_def group_all_append)
qed

lemma iter_self_procs_names:
  "distinct (map fst (tt_procs ty)) \<Longrightarrow>
   n \<in> fst ` set (iter_self_procs ty) \<longleftrightarrow>
   (\<exists>e. map_of (tt_procs ty) n = Some e \<and> te_value e \<noteq> [])"
  by (force simp: iter_self_procs_def in_set_enumerate_eq)

lemma tree_local_nonempty:
  assumes "well_formed_tree ts"
  shows "tree_local fp ts n p \<noteq> [] \<longleftrightarrow>
     (\<exists>ty \<in> set ts. tt_path ty = p \<and> n \<in> fst ` set (iter_self_procs ty))"
proof -
  have "tree_local fp ts n p \<noteq> [] \<longleftrightarrow>
     (\<exists>ty e. find_type ts p = Some ty \<and> map_of (tt_procs ty) n = Some e \<and> te_value e \<noteq> [])"
    by (auto simp: tree_local_def enumerate_eq_zip split: option.splits)
  also have "\<dots> \<longleftrightarrow> (\<exists>ty e. (ty \<in> set ts \<and> tt_path ty = p)
      \<and> map_of (tt_procs ty) n = Some e \<and> te_value e \<noteq> [])"
  proof -
    have "find_type ts p = Some ty \<longleftrightarrow> ty \<in> set ts \<and> tt_path ty = p" for ty
      using assms find_type_Some[of ts p ty] find_key[of tt_path ts ty]
      by (auto simp: well_formed_tree_def find_type_def)
    then show ?thesis by (simp only:)
  qed
  also have "\<dots> \<longleftrightarrow> (\<exists>ty \<in> set ts. tt_path ty = p \<and> n \<in> fst ` set (iter_self_procs ty))"
  proof -
    have "n \<in> fst ` set (iter_self_procs ty) \<longleftrightarrow>
        (\<exists>e. map_of (tt_procs ty) n = Some e \<and> te_value e \<noteq> [])" if "ty \<in> set ts" for ty
      using assms that by (intro iter_self_procs_names) (simp add: well_formed_tree_def)
    then show ?thesis by blast
  qed
  finally show ?thesis .
qed

lemma owners_index:
  assumes "well_formed_tree ts"
  shows "(case map_of (rv_owners_by_proc_name (index_types fp ts)) n of Some os \<Rightarrow> os | None \<Rightarrow> [])
     = sorted_list_of_set {p. tree_local fp ts n p \<noteq> []}"
proof -
  let ?es = "concat (map (\<lambda>ty. map (\<lambda>(name, _). (name, tt_path ty)) (iter_self_procs ty)) ts)"
  have set: "set (values_of n ?es) = {p. tree_local fp ts n p \<noteq> []}"
    unfolding tree_local_nonempty[OF assms] by (force simp: values_of_def)
  have "(case map_of (rv_owners_by_proc_name (index_types fp ts)) n of Some os \<Rightarrow> os | None \<Rightarrow> [])
      = sorted_list_of_set (set (values_of n ?es))"
    by (simp add: rv_owners_index map_of_group_all fold_insert_sorted_set)
  with set show ?thesis by simp
qed

section \<open>Resolution follows the parents\<close>

text \<open>What a call resolves to, read off the tree along the chain of parents \<open>cs\<close>.\<close>

definition chain_resolution ::
  "(nat \<Rightarrow> string) \<Rightarrow> tree_type list \<Rightarrow> string \<Rightarrow> string \<Rightarrow> string list
   \<Rightarrow> proc_resolution_error + proc_resolution" where
  "chain_resolution fp ts t n cs =
     (case find (\<lambda>owner. tree_local fp ts n owner \<noteq> []) cs of
        None \<Rightarrow> Inl (ProcMissing t n cs
                 (take 32 (sorted_list_of_set {owner. tree_local fp ts n owner \<noteq> []})))
      | Some owner \<Rightarrow>
          Inr \<lparr>pr_requested_type_path = t, pr_proc_name = n, pr_implementation_owner = owner,
               pr_declaration_owner =
                 (case find (tree_declares ts n) cs of Some d \<Rightarrow> d | None \<Rightarrow> owner),
               pr_resolution_kind = (if owner = t then LocalImplementation else InheritedImplementation),
               pr_implementations = concat (map (tree_local fp ts n) cs)\<rparr>)"

lemma resolve_index:
  assumes wf: "well_formed_tree ts" and chain: "is_chain (tree_parent ts) (Some t) cs"
  shows "resolve_proc ((index_types fp ts)\<lparr>rv_canonical_resolutions := cr\<rparr>) t n =
     Some (if t \<in> tt_path ` set ts then chain_resolution fp ts t n cs else Inl (TypeNotFound t))"
proof -
  define r where "r = (index_types fp ts)\<lparr>rv_canonical_resolutions := cr\<rparr>"
  have "parent_of r = parent_of (index_types fp ts)"
    by (simp add: r_def parent_of_def[abs_def])
  then have r: "rv_parents r = rv_parents (index_types fp ts)" "parent_of r = tree_parent ts"
    "local_of r = local_of (index_types fp ts)" "local_list r = local_list (index_types fp ts)"
    "declares r = declares (index_types fp ts)"
    "rv_owners_by_proc_name r = rv_owners_by_proc_name (index_types fp ts)"
    by (simp_all add: r_def local_of_def[abs_def] local_list_def[abs_def] declares_def[abs_def]
        index_tree(2)[OF wf])
  have walk: "walk_parents r n (Some t) walk_start = Some (fold (visit_type r n) cs walk_start)"
    using chain r(2) by (intro walk_parents_chain) simp
  have "(\<lambda>t. local_of r n t \<noteq> None) = (\<lambda>t. tree_local fp ts n t \<noteq> [])"
    using index_tree(3)[OF wf, of fp n] r(3) by auto
  then have res: "resolution_of r t n (fold (visit_type r n) cs walk_start)
      = chain_resolution fp ts t n cs"
    unfolding resolution_of_def chain_resolution_def fold_visit_type owners_index[OF wf] r
    by (simp add: walk_start_def index_tree(4,5)[OF wf] MAX_SAME_NAME_CANDIDATES_def
        split: option.split)
  have "map_of (rv_parents r) t = None \<longleftrightarrow> t \<notin> tt_path ` set ts"
    using index_tree(1)[OF wf] find_type_None[of ts t] r(1) by simp
  then show ?thesis
    unfolding r_def[symmetric] resolve_proc_def using walk res by simp
qed

lemma resolve_index_returns:
  assumes wf: "well_formed_tree ts" and "t \<in> tt_path ` set ts"
  shows "resolve_proc (index_types fp ts) t n \<noteq> None \<longleftrightarrow>
     (\<exists>cs. is_chain (tree_parent ts) (Some t) cs)"
proof
  assume ne: "resolve_proc (index_types fp ts) t n \<noteq> None"
  have "map_of (rv_parents (index_types fp ts)) t \<noteq> None"
    using assms index_tree(1)[OF wf] find_type_None[of ts t] by simp
  with ne obtain w where "walk_parents (index_types fp ts) n (Some t) walk_start = Some w"
    by (auto simp: resolve_proc_def)
  from walk_parents_returns[OF this] show "\<exists>cs. is_chain (tree_parent ts) (Some t) cs"
    by (simp add: index_tree(2)[OF wf])
next
  assume "\<exists>cs. is_chain (tree_parent ts) (Some t) cs"
  then obtain cs where cs: "is_chain (parent_of (index_types fp ts)) (Some t) cs"
    by (auto simp: index_tree(2)[OF wf])
  from walk_parents_chain[OF cs] show "resolve_proc (index_types fp ts) t n \<noteq> None"
    by (simp add: resolve_proc_def)
qed

lemma all_returned_iff: "all_returned xs \<noteq> None \<longleftrightarrow> None \<notin> set xs"
proof (induction xs)
  case (Cons x xs)
  then show ?case by (cases x; cases "all_returned xs") auto
qed simp


lemma btree_local_implementations: "btree (rv_local_implementations (index_types fp ts))"
proof (induction ts rule: rev_induct)
  case Nil
  then show ?case by (simp add: index_types_def proc_resolver_default_def)
qed (simp add: index_types_snoc add_type_def Let_def btree_btree_insert)

lemma canonical_keys_index:
  "(owner, n) \<in> set (canonical_keys (index_types fp ts)) \<longleftrightarrow>
   local_of (index_types fp ts) n owner \<noteq> None"
proof -
  have "(owner, n) \<in> set (canonical_keys (index_types fp ts)) \<longleftrightarrow>
     (\<exists>procs. map_of (rv_local_implementations (index_types fp ts)) owner = Some procs
        \<and> n \<in> fst ` set procs)"
    unfolding btree_map_of_set[OF btree_local_implementations]
    by (force simp: canonical_keys_def)
  also have "\<dots> \<longleftrightarrow> local_of (index_types fp ts) n owner \<noteq> None"
    by (auto simp: local_of_def bind_eq_Some_conv map_of_eq_None_iff split: option.splits
        dest: map_of_SomeD simp flip: dom_map_of_conv_image_fst)
  finally show ?thesis .
qed

text \<open>A set of types that is closed under taking parents holds no end of a chain.\<close>

lemma no_chain_in_cycle:
  assumes "\<forall>s \<in> S. \<exists>u \<in> S. up s = Some u"
  shows "t \<in> S \<Longrightarrow> \<not> is_chain up (Some t) cs"
proof (induction cs arbitrary: t)
  case (Cons c cs)
  with assms obtain u where "u \<in> S" "up t = Some u" by blast
  with Cons.IH[of u] show ?case by simp
qed simp

text \<open>
  C16. A procedure call resolves along the parents of the type it is made on.  In the resolver
  built from an object tree (type paths distinct, procedure names distinct in each type), a type
  the tree does not have is reported as such.  For every other type, with \<open>cs\<close> the chain of its
  parents from itself up, the implementation is that of the first type on the chain with a
  definition, local exactly when that is the type itself; all definitions on the chain are
  listed in the order of the chain; the declaration is that of the first type on the chain that
  declares the procedure, or else of the implementing type.  A procedure that no type of the
  chain defines is an error that names the chain and at most 32 types of the tree that define
  one of this name, in order.
\<close>

theorem resolution_follows_parents:
  assumes "well_formed_tree ts" "build_resolver fp ts = Some r"
    and "is_chain (tree_parent ts) (Some t) cs"
  shows "resolve_proc r t n =
     Some (if t \<in> tt_path ` set ts then chain_resolution fp ts t n cs else Inl (TypeNotFound t))"
proof -
  from assms(2) obtain cr where "r = (index_types fp ts)\<lparr>rv_canonical_resolutions := cr\<rparr>"
    by (auto simp: build_resolver_def Let_def)
  with resolve_index[OF assms(1,3)] show ?thesis by simp
qed

text \<open>
  C17. Building the resolver ends exactly on trees without a cycle of parents.  The build of the
  resolver, and with it the analysis of an environment, returns if and only if every type that
  defines a procedure has a finite chain of parents: the walk has no visited set and no bound,
  and the parser accepts types that are each other's \<open>parent_type\<close>.
\<close>

theorem resolver_returns_iff_acyclic:
  assumes "well_formed_tree ts"
  shows "build_resolver fp ts \<noteq> None \<longleftrightarrow>
     (\<forall>ty \<in> set ts. iter_self_procs ty \<noteq> [] \<longrightarrow>
        (\<exists>cs. is_chain (tree_parent ts) (Some (tt_path ty)) cs))"
proof -
  let ?r = "index_types fp ts"
  have "build_resolver fp ts \<noteq> None \<longleftrightarrow>
      (\<forall>(owner, n) \<in> set (canonical_keys ?r). resolve_proc ?r owner n \<noteq> None)"
    using all_returned_iff[of "map (\<lambda>(owner, n). resolve_proc ?r owner n) (canonical_keys ?r)"]
    by (force simp: build_resolver_def Let_def)
  also have "\<dots> \<longleftrightarrow> (\<forall>owner n. tree_local fp ts n owner \<noteq> [] \<longrightarrow> resolve_proc ?r owner n \<noteq> None)"
  proof -
    have "(owner, n) \<in> set (canonical_keys ?r) \<longleftrightarrow> tree_local fp ts n owner \<noteq> []" for owner n
      by (simp add: canonical_keys_index index_tree(3)[OF assms])
    then show ?thesis by (fast intro: case_prodI dest: bspec)
  qed
  also have "\<dots> \<longleftrightarrow> (\<forall>ty \<in> set ts. \<forall>n \<in> fst ` set (iter_self_procs ty).
      resolve_proc ?r (tt_path ty) n \<noteq> None)"
    unfolding tree_local_nonempty[OF assms] by blast
  also have "\<dots> \<longleftrightarrow> (\<forall>ty \<in> set ts. \<forall>n \<in> fst ` set (iter_self_procs ty).
      \<exists>cs. is_chain (tree_parent ts) (Some (tt_path ty)) cs)"
    using resolve_index_returns[OF assms] by blast
  also have "\<dots> \<longleftrightarrow> (\<forall>ty \<in> set ts. iter_self_procs ty \<noteq> [] \<longrightarrow>
      (\<exists>cs. is_chain (tree_parent ts) (Some (tt_path ty)) cs))"
    by (auto simp: set_empty[symmetric] simp del: set_empty)
  finally show ?thesis .
qed

definition sample_proc :: tree_proc_entry where
  "sample_proc = \<lparr>te_declaration = True, te_value =
     [\<lparr>tp_file = 0, tp_line = 3, tp_column = 1, tp_code = True, tp_body_range = False,
       tp_parameters = []\<rparr>]\<rparr>"

definition sample_tree :: "string option \<Rightarrow> tree_type list" where
  "sample_tree u =
     [\<lparr>tt_path = ''/a'', tt_parent = u, tt_procs = [(''run'', sample_proc)]\<rparr>,
      \<lparr>tt_path = ''/b'', tt_parent = Some ''/a'', tt_procs = []\<rparr>]"

lemma sample_tree: "well_formed_tree (sample_tree u)"
  "tree_parent (sample_tree u) ''/a'' = u" "tree_parent (sample_tree u) ''/b'' = Some ''/a''"
  by (simp_all add: sample_tree_def well_formed_tree_def tree_parent_def find_type_def)

theorem resolver_returns_iff_acyclic_witness:
  "build_resolver (\<lambda>_. ''a.dm'') (sample_tree (Some ''/b'')) = None
   \<and> build_resolver (\<lambda>_. ''a.dm'') (sample_tree None) \<noteq> None"
proof
  let ?t = "sample_tree (Some ''/b'')"
  have "\<not> is_chain (tree_parent ?t) (Some ''/a'') cs" for cs
    by (rule no_chain_in_cycle[of "{''/a'', ''/b''}"]) (simp_all add: sample_tree)
  moreover have "\<exists>ty \<in> set ?t. iter_self_procs ty \<noteq> [] \<and> tt_path ty = ''/a''"
    by (simp add: sample_tree_def sample_proc_def iter_self_procs_def)
  ultimately have "\<not> (\<forall>ty \<in> set ?t. iter_self_procs ty \<noteq> [] \<longrightarrow>
      (\<exists>cs. is_chain (tree_parent ?t) (Some (tt_path ty)) cs))" by metis
  then show "build_resolver (\<lambda>_. ''a.dm'') ?t = None"
    using resolver_returns_iff_acyclic[OF sample_tree(1), of "\<lambda>_. ''a.dm''" "Some ''/b''"] by blast
next
  let ?t = "sample_tree None"
  have "is_chain (tree_parent ?t) (Some ''/a'') [''/a'']"
    "is_chain (tree_parent ?t) (Some ''/b'') [''/b'', ''/a'']"
    by (simp_all add: sample_tree)
  then have "\<forall>ty \<in> set ?t. \<exists>cs. is_chain (tree_parent ?t) (Some (tt_path ty)) cs"
    unfolding sample_tree_def by (simp del: is_chain.simps) blast
  then show "build_resolver (\<lambda>_. ''a.dm'') ?t \<noteq> None"
    using resolver_returns_iff_acyclic[OF sample_tree(1), of "\<lambda>_. ''a.dm''" None] by blast
qed

theorem resolution_follows_parents_witness:
  "\<exists>r. build_resolver (\<lambda>_. ''a.dm'') (sample_tree None) = Some r \<and>
     resolve_proc r ''/b'' ''run''
       = Some (chain_resolution (\<lambda>_. ''a.dm'') (sample_tree None) ''/b'' ''run'' [''/b'', ''/a''])"
proof -
  have "build_resolver (\<lambda>_. ''a.dm'') (sample_tree None) \<noteq> None" by code_simp
  then obtain r where r: "build_resolver (\<lambda>_. ''a.dm'') (sample_tree None) = Some r" by blast
  have "is_chain (tree_parent (sample_tree None)) (Some ''/b'') [''/b'', ''/a'']"
    by (simp add: sample_tree)
  from resolution_follows_parents[OF sample_tree(1) r this, of "''run''"] r
  show ?thesis by (simp add: sample_tree_def)
qed

end
