(* ===== verification/Ranking.thy ===== *)
theory Ranking
  imports Main "HOL-Library.Multiset"
begin

text \<open>
  Sorting by a comparator and keeping the first few: \<open>slice::sort_by\<close>, a stable sort, and
  \<open>slice::select_nth_unstable_by\<close>, which is known only by its contract: it permutes the slice
  so that what stands before the chosen position is no greater, and what stands after it no
  smaller, than the element it puts there.
\<close>

primrec insort_by :: "('a \<Rightarrow> 'a \<Rightarrow> bool) \<Rightarrow> 'a \<Rightarrow> 'a list \<Rightarrow> 'a list" where
  "insort_by le x [] = [x]"
| "insort_by le x (y # ys) = (if le x y then x # y # ys else y # insort_by le x ys)"

definition sort_by :: "('a \<Rightarrow> 'a \<Rightarrow> bool) \<Rightarrow> 'a list \<Rightarrow> 'a list" where
  "sort_by le xs = foldr (insort_by le) xs []"

lemma mset_insort_by [simp]: "mset (insort_by le x xs) = add_mset x (mset xs)"
  by (induction xs) auto

lemma mset_sort_by [simp]: "mset (sort_by le xs) = mset xs"
  unfolding sort_by_def by (induction xs) auto

lemma set_sort_by [simp]: "set (sort_by le xs) = set xs"
  by (metis mset_sort_by set_mset_mset)

lemma length_sort_by [simp]: "length (sort_by le xs) = length xs"
  by (metis mset_sort_by size_mset)

text \<open>The contract of \<open>select_nth_unstable_by\<close> at position \<open>k\<close> of a longer slice.\<close>

definition selects ::
  "('a \<Rightarrow> 'a \<Rightarrow> bool) \<Rightarrow> (nat \<Rightarrow> 'a list \<Rightarrow> 'a list) \<Rightarrow> bool" where
  "selects le select \<longleftrightarrow> (\<forall>k xs. k < length xs \<longrightarrow>
     mset (select k xs) = mset xs \<and>
     (\<forall>x \<in> set (take k (select k xs)). le x (select k xs ! k)) \<and>
     (\<forall>y \<in> set (drop k (select k xs)). le (select k xs ! k) y))"

definition keep_best ::
  "('a \<Rightarrow> 'a \<Rightarrow> bool) \<Rightarrow> (nat \<Rightarrow> 'a list \<Rightarrow> 'a list) \<Rightarrow> nat \<Rightarrow> 'a list \<Rightarrow> 'a list" where
  "keep_best le select limit xs =
     sort_by le (if limit < length xs then take limit (select limit xs) else xs)"

locale ranking =
  fixes le :: "'a \<Rightarrow> 'a \<Rightarrow> bool"
  assumes le_total: "le x y \<or> le y x"
    and le_trans: "le x y \<Longrightarrow> le y z \<Longrightarrow> le x z"
begin

lemma sorted_insort_by: "sorted_wrt le xs \<Longrightarrow> sorted_wrt le (insort_by le x xs)"
proof (induction xs)
  case (Cons y ys)
  then show ?case
  proof (cases "le x y")
    case True
    with Cons.prems show ?thesis using le_trans by auto
  next
    case False
    have "set (insort_by le x ys) = insert x (set ys)"
      by (metis mset_insort_by set_mset_add_mset_insert set_mset_mset)
    with False Cons show ?thesis using le_total[of x y] by auto
  qed
qed simp

lemma sorted_sort_by: "sorted_wrt le (sort_by le xs)"
  unfolding sort_by_def by (induction xs) (auto intro: sorted_insort_by)

lemma select_splits:
  assumes "selects le select" "k < length xs"
  shows "mset (take k (select k xs)) + mset (drop k (select k xs)) = mset xs"
    and "x \<in> set (take k (select k xs)) \<Longrightarrow> y \<in> set (drop k (select k xs)) \<Longrightarrow> le x y"
    and "length (take k (select k xs)) = k"
proof -
  have m: "mset (select k xs) = mset xs" using assms by (simp add: selects_def)
  then show "mset (take k (select k xs)) + mset (drop k (select k xs)) = mset xs"
    by (metis append_take_drop_id mset_append)
  show "length (take k (select k xs)) = k"
    using assms(2) m by (metis length_take min.absorb2 mset_eq_length nat_less_le min.commute)
  assume "x \<in> set (take k (select k xs))" "y \<in> set (drop k (select k xs))"
  with assms show "le x y" unfolding selects_def by (blast intro: le_trans)
qed

text \<open>
  What is kept is sorted, there are as many as the bound allows, and nothing that was left out
  ranks before anything that was kept.
\<close>

lemma keep_best_spec:
  assumes "selects le select"
  shows "sorted_wrt le (keep_best le select limit xs)"
    and "length (keep_best le select limit xs) = min limit (length xs)"
    and "mset (keep_best le select limit xs) \<subseteq># mset xs"
    and "x \<in># mset xs - mset (keep_best le select limit xs) \<Longrightarrow>
         y \<in> set (keep_best le select limit xs) \<Longrightarrow> le y x"
proof -
  show "sorted_wrt le (keep_best le select limit xs)"
    by (simp add: keep_best_def sorted_sort_by)
  show "length (keep_best le select limit xs) = min limit (length xs)"
    using select_splits(3)[OF assms, of limit xs] by (simp add: keep_best_def)
  have split: "mset xs = mset (keep_best le select limit xs)
      + (if limit < length xs then mset (drop limit (select limit xs)) else {#})"
    using select_splits(1)[OF assms, of limit xs] by (simp add: keep_best_def)
  then show "mset (keep_best le select limit xs) \<subseteq># mset xs"
    by (metis mset_subset_eq_add_left)
  assume "x \<in># mset xs - mset (keep_best le select limit xs)"
    "y \<in> set (keep_best le select limit xs)"
  with split have "limit < length xs" "x \<in> set (drop limit (select limit xs))"
    "y \<in> set (take limit (select limit xs))"
    by (auto simp: keep_best_def split: if_splits)
  with select_splits(2)[OF assms] show "le y x" by blast
qed

text \<open>Sorting meets the contract, so there is a selection.\<close>

lemma selects_sort: "selects le (\<lambda>_. sort_by le)"
  unfolding selects_def
proof (intro allI impI conjI ballI)
  fix k and xs :: "'a list"
  assume k: "k < length xs"
  note sorted = sorted_sort_by[of xs, unfolded sorted_wrt_iff_nth_less, rule_format]
  show "mset (sort_by le xs) = mset xs" by simp
  show "le x (sort_by le xs ! k)" if "x \<in> set (take k (sort_by le xs))" for x
    using that k sorted by (fastforce simp: in_set_conv_nth)
  show "le (sort_by le xs ! k) y" if "y \<in> set (drop k (sort_by le xs))" for y
  proof -
    from that obtain i where "i < length xs - k" "y = sort_by le xs ! (k + i)"
      using k by (auto simp: in_set_conv_nth)
    with k sorted[of k "k + i"] le_total[of y y] show ?thesis by (cases i) auto
  qed
qed

end

end
