(* ===== verification/Runtime_Integrity.thy ===== *)
theory Runtime_Integrity
  imports Launch_Gate Output_Log Workspace_Integrity
begin

text \<open>
  Integrity sessions of running games, from \<open>src/runtime_integrity.rs\<close>: the changes to the
  protected project that are observed while a game runs, their journal in the private state
  directory, and the recovery of journals a crash left active.  The records of the namespace
  \<open>runtime-integrity\<close> are the bytes of its files by name; the \<open>serde\<close> codec of a journal is a
  parameter, and a liveness lock is held exactly while its session is in the set of held ones.
\<close>

section \<open>Data\<close>

definition MAX_RUNTIME_EVENTS :: nat where
  "MAX_RUNTIME_EVENTS = 10000"

datatype runtime_integrity_status =
    IntegrityActive
  | FinalizedClean
  | FinalizedWithChanges
  | FinalizedWithViolation
  | ObservedDuringRecovery

record runtime_integrity_event =
  rv_code :: string
  rv_relative_path :: string
  rv_change_kind :: mutation_kind
  rv_before :: "Workspace_Integrity.file_identity option"
  rv_after :: "Workspace_Integrity.file_identity option"
  rv_first_observed_offset_ms :: u64
  rv_nearest_output :: "output_entry option"
  rv_session_id :: string
  rv_process_id :: "u32 option"
  rv_build_record_id :: "string option"

record runtime_integrity_journal =
  rj_schema :: u32
  rj_session_id :: string
  rj_status :: runtime_integrity_status
  rj_protected_root :: path
  rj_baseline :: workspace_snapshot
  rj_events :: "runtime_integrity_event list"
  rj_last_action :: string
  rj_process_id :: "u32 option"
  rj_launch_provenance :: launch_provenance

record runtime_integrity_summary =
  ru_session_id :: string
  ru_status :: runtime_integrity_status
  ru_last_action :: string
  ru_event_count :: nat
  ru_warnings :: "runtime_integrity_event list"
  ru_violations :: "runtime_integrity_event list"

record runtime_integrity_session =
  ri_record_name :: string
  ri_owned_paths :: "path list"
  ri_started_at :: nat
  ri_document :: runtime_integrity_journal
  ri_observed :: "(string \<times> mutation_kind) set"

record integrity_store =
  st_records :: "(string, string) btree_map"
  st_held :: "string list"

record runtime_integrity_host =
  rh_integrity :: integrity_host
  rh_encode :: "runtime_integrity_journal \<Rightarrow> string"
  rh_decode :: "string \<Rightarrow> string + runtime_integrity_journal"
  rh_write :: "string \<Rightarrow> string option"
  rh_read :: "string \<Rightarrow> string option"
  rh_list :: "string option"

datatype runtime_integrity_error =
    SnapshotFailed integrity_error
  | StoreFailed string
  | EventLimit
  | InvalidSessionId

section \<open>Sessions\<close>

definition source_integrity_warning_code :: string where
  "source_integrity_warning_code = ''source_integrity_warning''"

definition session_id_char :: "char \<Rightarrow> bool" where
  "session_id_char c \<longleftrightarrow> is_digit c \<or> 97 \<le> (of_char c :: nat) \<and> (of_char c :: nat) \<le> 102"

definition liveness_record_name :: "string \<Rightarrow> runtime_integrity_error + string" where
  "liveness_record_name session_id =
     (if length session_id \<noteq> 32 \<or> \<not> list_all session_id_char session_id then Inl InvalidSessionId
      else Inr (''runtime-integrity-locks/'' @ session_id @ ''.lock''))"

definition record_name_of :: "string \<Rightarrow> string" where
  "record_name_of session_id = ''runtime-integrity/'' @ session_id @ ''.json''"

definition write_journal ::
  "runtime_integrity_host \<Rightarrow> string \<Rightarrow> runtime_integrity_journal \<Rightarrow> integrity_store
   \<Rightarrow> (runtime_integrity_error + unit) \<times> integrity_store" where
  "write_journal h name d st =
     (case rh_write h name of Some e \<Rightarrow> (Inl (StoreFailed e), st)
      | None \<Rightarrow> (Inr (), st\<lparr>st_records := btree_insert name (rh_encode h d) (st_records st)\<rparr>))"

definition session_create ::
  "runtime_integrity_host \<Rightarrow> path \<Rightarrow> launch_provenance \<Rightarrow> path list \<Rightarrow> string + string \<Rightarrow> nat
   \<Rightarrow> integrity_store \<Rightarrow> (runtime_integrity_error + runtime_integrity_session) \<times> integrity_store" where
  "session_create h protected_root provenance owned_paths random now st =
     (case rbind (map_err SnapshotFailed (capture_snapshot (rh_integrity h) protected_root)) (\<lambda>baseline.
           rbind (map_err StoreFailed random) (\<lambda>session_id.
           rbind (liveness_record_name session_id) (\<lambda>_. Inr (baseline, session_id))))
      of Inl e \<Rightarrow> (Inl e, st)
       | Inr (baseline, session_id) \<Rightarrow>
           (let document = \<lparr>rj_schema = 1, rj_session_id = session_id, rj_status = IntegrityActive,
                  rj_protected_root = ws_root baseline, rj_baseline = baseline, rj_events = [],
                  rj_last_action = ''baseline_captured'', rj_process_id = None,
                  rj_launch_provenance = provenance\<rparr>;
                name = record_name_of session_id
            in case write_journal h name document
                      (st\<lparr>st_held := List.insert session_id (st_held st)\<rparr>) of
                 (Inl e, st) \<Rightarrow> (Inl e, st\<lparr>st_held := removeAll session_id (st_held st)\<rparr>)
               | (Inr _, st) \<Rightarrow>
                   (Inr \<lparr>ri_record_name = name, ri_owned_paths = owned_paths, ri_started_at = now,
                         ri_document = document, ri_observed = {}\<rparr>, st)))"

definition persist_session ::
  "runtime_integrity_host \<Rightarrow> runtime_integrity_session \<Rightarrow> integrity_store
   \<Rightarrow> (runtime_integrity_error + unit) \<times> integrity_store" where
  "persist_session h s st = write_journal h (ri_record_name s) (ri_document s) st"

definition set_process_id ::
  "runtime_integrity_host \<Rightarrow> u32 option \<Rightarrow> runtime_integrity_session \<Rightarrow> integrity_store
   \<Rightarrow> (runtime_integrity_error + unit) \<times> runtime_integrity_session \<times> integrity_store" where
  "set_process_id h pid s st =
     (let s = s\<lparr>ri_document := (ri_document s)\<lparr>rj_process_id := pid\<rparr>\<rparr> in
      case persist_session h s st of (r, st) \<Rightarrow> (r, s, st))"

definition event_of ::
  "runtime_integrity_journal \<Rightarrow> u64 \<Rightarrow> output_entry option \<Rightarrow> path_mutation \<Rightarrow> runtime_integrity_event" where
  "event_of d offset_ms nearest m =
     \<lparr>rv_code = source_integrity_warning_code, rv_relative_path = pm_relative_path m,
      rv_change_kind = pm_change_kind m, rv_before = pm_before m, rv_after = pm_after m,
      rv_first_observed_offset_ms = offset_ms, rv_nearest_output = nearest,
      rv_session_id = rj_session_id d, rv_process_id = rj_process_id d,
      rv_build_record_id = lp_build_record_id (rj_launch_provenance d)\<rparr>"

definition mutation_key :: "path_mutation \<Rightarrow> string \<times> mutation_kind" where
  "mutation_key m = (pm_relative_path m, pm_change_kind m)"

text \<open>The loop over the mutations: a key is marked as observed before the limit is checked.\<close>

fun observe_mutations ::
  "u64 \<Rightarrow> output_entry option \<Rightarrow> path_mutation list \<Rightarrow> runtime_integrity_session
   \<Rightarrow> (runtime_integrity_error + unit) \<times> runtime_integrity_session" where
  "observe_mutations offset_ms nearest [] s = (Inr (), s)"
| "observe_mutations offset_ms nearest (m # ms) s =
     (if mutation_key m \<in> ri_observed s then observe_mutations offset_ms nearest ms s
      else
        let s = s\<lparr>ri_observed := insert (mutation_key m) (ri_observed s)\<rparr>;
            d = ri_document s
        in if MAX_RUNTIME_EVENTS \<le> length (rj_events d) then (Inl EventLimit, s)
           else observe_mutations offset_ms nearest ms
             (s\<lparr>ri_document := d\<lparr>rj_events := rj_events d @ [event_of d offset_ms nearest m]\<rparr>\<rparr>))"

definition is_deletion :: "runtime_integrity_event \<Rightarrow> bool" where
  "is_deletion e \<longleftrightarrow> rv_change_kind e = Deleted"

definition summary_from_document :: "runtime_integrity_journal \<Rightarrow> runtime_integrity_summary" where
  "summary_from_document d =
     \<lparr>ru_session_id = rj_session_id d, ru_status = rj_status d, ru_last_action = rj_last_action d,
      ru_event_count = length (rj_events d), ru_warnings = filter (\<lambda>e. \<not> is_deletion e) (rj_events d),
      ru_violations = filter is_deletion (rj_events d)\<rparr>"

definition session_summary :: "runtime_integrity_session \<Rightarrow> runtime_integrity_summary" where
  "session_summary s = summary_from_document (ri_document s)"

definition current_mutations ::
  "runtime_integrity_host \<Rightarrow> runtime_integrity_session \<Rightarrow> runtime_integrity_error + path_mutation list" where
  "current_mutations h s =
     rbind (map_err SnapshotFailed
              (capture_snapshot (rh_integrity h) (rj_protected_root (ri_document s)))) (\<lambda>current.
     rbind (map_err SnapshotFailed (compare_snapshots (rh_integrity h) (rj_baseline (ri_document s))
              current (ri_owned_paths s))) (\<lambda>delta.
     Inr (id_added delta @ id_modified delta @ id_deleted delta)))"

definition observe_now ::
  "runtime_integrity_host \<Rightarrow> nat \<Rightarrow> output_buffer \<Rightarrow> string \<Rightarrow> runtime_integrity_session
   \<Rightarrow> integrity_store
   \<Rightarrow> (runtime_integrity_error + runtime_integrity_summary) \<times> runtime_integrity_session \<times> integrity_store" where
  "observe_now h now output action s st =
     (case current_mutations h s of Inl e \<Rightarrow> (Inl e, s, st)
      | Inr mutations \<Rightarrow>
          (let offset_ms = of_nat (now - ri_started_at s) in
           case observe_mutations offset_ms (nearest_output_before output offset_ms) mutations s of
             (Inl e, s) \<Rightarrow> (Inl e, s, st)
           | (Inr _, s) \<Rightarrow>
               (let s = s\<lparr>ri_document := (ri_document s)\<lparr>rj_last_action := action\<rparr>\<rparr> in
                case persist_session h s st of (Inl e, st) \<Rightarrow> (Inl e, s, st)
                | (Inr _, st) \<Rightarrow> (Inr (session_summary s), s, st))))"

definition final_status :: "runtime_integrity_event list \<Rightarrow> runtime_integrity_status" where
  "final_status events =
     (if list_ex is_deletion events then FinalizedWithViolation
      else if events = [] then FinalizedClean else FinalizedWithChanges)"

definition session_finalize ::
  "runtime_integrity_host \<Rightarrow> nat \<Rightarrow> output_buffer \<Rightarrow> string \<Rightarrow> runtime_integrity_session
   \<Rightarrow> integrity_store
   \<Rightarrow> (runtime_integrity_error + runtime_integrity_summary) \<times> runtime_integrity_session \<times> integrity_store" where
  "session_finalize h now output action s st =
     (case observe_now h now output action s st of
        (Inl e, s, st) \<Rightarrow> (Inl e, s, st)
      | (Inr _, s, st) \<Rightarrow>
          (let d = ri_document s; s = s\<lparr>ri_document := d\<lparr>rj_status := final_status (rj_events d)\<rparr>\<rparr> in
           case persist_session h s st of (Inl e, st) \<Rightarrow> (Inl e, s, st)
           | (Inr _, st) \<Rightarrow> (Inr (session_summary s), s, st)))"

section \<open>Recovery\<close>

definition read_journal_record ::
  "runtime_integrity_host \<Rightarrow> integrity_store \<Rightarrow> string \<Rightarrow> runtime_integrity_error + runtime_integrity_journal" where
  "read_journal_record h st name =
     (case rh_read h name of Some e \<Rightarrow> Inl (StoreFailed e)
      | None \<Rightarrow>
          (case map_of (st_records st) name of None \<Rightarrow> Inl (StoreFailed ''not found'')
           | Some bytes \<Rightarrow> map_err StoreFailed (rh_decode h bytes)))"

text \<open>
  One record: whether it may be recovered, and the summary if it is one.  The lock is obtained
  exactly when no session holds it; it is released at the end of the turn.
\<close>

definition recover_record ::
  "runtime_integrity_host \<Rightarrow> EffectiveRoot list \<Rightarrow> string \<Rightarrow> integrity_store
   \<Rightarrow> (runtime_integrity_error + runtime_integrity_summary option) \<times> integrity_store" where
  "recover_record h roots name st =
     (case read_journal_record h st name of Inl e \<Rightarrow> (Inl e, st)
      | Inr d \<Rightarrow>
          if rj_status d \<noteq> IntegrityActive then (Inr None, st)
          else case liveness_record_name (rj_session_id d) of Inl e \<Rightarrow> (Inl e, st)
          | Inr _ \<Rightarrow>
              if rj_session_id d \<in> set (st_held st) then (Inr None, st)
              else case read_journal_record h st name of Inl e \<Rightarrow> (Inl e, st)
              | Inr d \<Rightarrow>
                  if rj_status d \<noteq> IntegrityActive then (Inr None, st)
                  else if \<not> list_ex (\<lambda>root. path_starts_with (rj_protected_root d) (er_path root)) roots
                  then (Inr (Some (summary_from_document d)), st)
                  else
                    let d = d\<lparr>rj_status := ObservedDuringRecovery,
                              rj_last_action := ''observed_during_recovery''\<rparr>
                    in case write_journal h name d st of (Inl e, st) \<Rightarrow> (Inl e, st)
                       | (Inr _, st) \<Rightarrow> (Inr (Some (summary_from_document d)), st))"

fun recover_records ::
  "runtime_integrity_host \<Rightarrow> EffectiveRoot list \<Rightarrow> string list \<Rightarrow> runtime_integrity_summary list
   \<Rightarrow> integrity_store
   \<Rightarrow> (runtime_integrity_error + runtime_integrity_summary list) \<times> integrity_store" where
  "recover_records h roots [] summaries st = (Inr summaries, st)"
| "recover_records h roots (name # names) summaries st =
     (case recover_record h roots name st of (Inl e, st) \<Rightarrow> (Inl e, st)
      | (Inr s, st) \<Rightarrow>
          recover_records h roots names (summaries @ (case s of None \<Rightarrow> [] | Some x \<Rightarrow> [x])) st)"

text \<open>\<open>list_records\<close> names every regular file of the namespace, in order, within its limit.\<close>

definition namespace_records :: "runtime_integrity_host \<Rightarrow> integrity_store \<Rightarrow> nat \<Rightarrow> runtime_integrity_error + string list" where
  "namespace_records h st limit =
     (case rh_list h of Some e \<Rightarrow> Inl (StoreFailed e)
      | None \<Rightarrow>
          if min limit 100000 < length (st_records st)
          then Inl (StoreFailed ''private state record enumeration exceeds its limit'')
          else Inr (map fst (st_records st)))"

definition recover_unfinished ::
  "runtime_integrity_host \<Rightarrow> EffectiveRoot list \<Rightarrow> integrity_store
   \<Rightarrow> (runtime_integrity_error + runtime_integrity_summary list) \<times> integrity_store" where
  "recover_unfinished h roots st =
     (case namespace_records h st 10000 of Inl e \<Rightarrow> (Inl e, st)
      | Inr names \<Rightarrow> recover_records h roots names [] st)"

section \<open>What a session has observed\<close>

definition event_key :: "runtime_integrity_event \<Rightarrow> string \<times> mutation_kind" where
  "event_key e = (rv_relative_path e, rv_change_kind e)"

text \<open>Every key a session has marked as observed has an event, and every event is marked.\<close>

definition observed_recorded :: "runtime_integrity_session \<Rightarrow> bool" where
  "observed_recorded s \<longleftrightarrow> ri_observed s = event_key ` set (rj_events (ri_document s))"

definition same_session :: "runtime_integrity_session \<Rightarrow> runtime_integrity_session \<Rightarrow> bool" where
  "same_session s s' \<longleftrightarrow>
     ri_record_name s' = ri_record_name s \<and> ri_owned_paths s' = ri_owned_paths s
     \<and> rj_protected_root (ri_document s') = rj_protected_root (ri_document s)
     \<and> rj_baseline (ri_document s') = rj_baseline (ri_document s)
     \<and> rj_session_id (ri_document s') = rj_session_id (ri_document s)"

lemma event_key_event_of [simp]: "event_key (event_of d t n m) = mutation_key m"
  by (simp add: event_key_def event_of_def mutation_key_def)

lemma is_deletion_key: "is_deletion e \<longleftrightarrow> snd (event_key e) = Deleted"
  by (simp add: is_deletion_def event_key_def)

lemma same_session_refl: "same_session s s"
  by (simp add: same_session_def)

lemma same_session_trans: "same_session a b \<Longrightarrow> same_session b c \<Longrightarrow> same_session a c"
  by (simp add: same_session_def)

lemma session_create_recorded:
  "session_create h root prov owned random now st = (Inr s, st') \<Longrightarrow> observed_recorded s"
  by (auto simp: session_create_def observed_recorded_def Let_def write_journal_def split: sum.splits option.splits prod.splits)

lemma observe_mutations_recorded:
  "observe_mutations t n ms s = (Inr u, s') \<Longrightarrow>
     (\<exists>es. rj_events (ri_document s') = rj_events (ri_document s) @ es
        \<and> set (map event_key es) = mutation_key ` set ms - ri_observed s)
     \<and> ri_observed s' = ri_observed s \<union> mutation_key ` set ms \<and> same_session s s'"
proof (induction t n ms s rule: observe_mutations.induct)
  case (1 t n s)
  then show ?case by (simp add: same_session_refl)
next
  case (2 t n m ms s)
  show ?case
  proof (cases "mutation_key m \<in> ri_observed s")
    case True
    with 2 show ?thesis by (auto simp: insert_absorb)
  next
    case False
    let ?s = "s\<lparr>ri_observed := insert (mutation_key m) (ri_observed s)\<rparr>"
    let ?d = "ri_document ?s"
    let ?s2 = "?s\<lparr>ri_document := ?d\<lparr>rj_events := rj_events ?d @ [event_of ?d t n m]\<rparr>\<rparr>"
    from False 2(3) have room: "\<not> MAX_RUNTIME_EVENTS \<le> length (rj_events ?d)"
      and rest: "observe_mutations t n ms ?s2 = (Inr u, s')"
      by (auto simp: Let_def split: if_splits)
    have same: "same_session s ?s2" by (simp add: same_session_def)
    from 2(2)[OF False refl refl room rest] obtain es where
        es: "rj_events (ri_document s') = rj_events (ri_document ?s2) @ es"
          "set (map event_key es) = mutation_key ` set ms - ri_observed ?s2"
      and seen: "ri_observed s' = ri_observed ?s2 \<union> mutation_key ` set ms"
      and tail: "same_session ?s2 s'" by (elim conjE exE)
    have "rj_events (ri_document s') = rj_events (ri_document s) @ (event_of ?d t n m # es)"
      using es(1) by simp
    moreover have "set (map event_key (event_of ?d t n m # es)) = mutation_key ` set (m # ms) - ri_observed s"
      using es(2) False by auto
    ultimately show ?thesis using seen same_session_trans[OF same tail] by auto
  qed
qed

lemma observe_now_Inr:
  assumes "observe_now h now out action s st = (Inr report, s', st')"
  obtains ms where "current_mutations h s = Inr ms"
    "\<exists>es. rj_events (ri_document s') = rj_events (ri_document s) @ es
        \<and> set (map event_key es) = mutation_key ` set ms - ri_observed s"
    "ri_observed s' = ri_observed s \<union> mutation_key ` set ms" "same_session s s'"
proof -
  from assms obtain ms where ms: "current_mutations h s = Inr ms"
    by (auto simp: observe_now_def split: sum.splits)
  let ?t = "of_nat (now - ri_started_at s) :: u64"
  obtain r s1 where o1: "observe_mutations ?t (nearest_output_before out ?t) ms s = (r, s1)"
    by (metis surj_pair)
  with assms ms obtain u where r: "r = Inr u"
    and s': "s' = s1\<lparr>ri_document := (ri_document s1)\<lparr>rj_last_action := action\<rparr>\<rparr>"
    by (auto simp: observe_now_def Let_def split: sum.splits prod.splits)
  note found = observe_mutations_recorded[OF o1[unfolded r]]
  show ?thesis
    by (rule that[OF ms]) (use found in \<open>simp_all add: s' same_session_def\<close>)
qed

lemma write_journal_Inr:
  "write_journal h name d st = (Inr u, st') \<Longrightarrow>
     st' = st\<lparr>st_records := btree_insert name (rh_encode h d) (st_records st)\<rparr>"
  by (auto simp: write_journal_def split: option.splits)

lemma final_status_iff:
  "final_status es = FinalizedWithViolation \<longleftrightarrow> list_ex is_deletion es"
  "final_status es = FinalizedClean \<longleftrightarrow> es = []"
  by (auto simp: final_status_def)

lemma session_finalize_Inr:
  assumes "session_finalize h now out action s st = (Inr report, s', st')"
  obtains s1 st1 report1 where "observe_now h now out action s st = (Inr report1, s1, st1)"
    "s' = s1\<lparr>ri_document := (ri_document s1)\<lparr>rj_status := final_status (rj_events (ri_document s1))\<rparr>\<rparr>"
    "report = session_summary s'"
    "st' = st1\<lparr>st_records := btree_insert (ri_record_name s') (rh_encode h (ri_document s')) (st_records st1)\<rparr>"
  using assms
  by (auto simp: session_finalize_def Let_def persist_session_def dest!: write_journal_Inr split: sum.splits prod.splits)

lemma finalized_parts:
  assumes "session_finalize h now out action s st = (Inr report, s', st')"
  obtains ms es where "current_mutations h s = Inr ms"
    "rj_events (ri_document s') = rj_events (ri_document s) @ es"
    "event_key ` set es = mutation_key ` set ms - ri_observed s"
    "rj_status (ri_document s') = final_status (rj_events (ri_document s'))"
    "report = summary_from_document (ri_document s')"
    "map_of (st_records st') (ri_record_name s) = Some (rh_encode h (ri_document s'))"
proof -
  obtain s1 st1 report1 where now: "observe_now h now out action s st = (Inr report1, s1, st1)"
    and s': "s' = s1\<lparr>ri_document := (ri_document s1)\<lparr>rj_status := final_status (rj_events (ri_document s1))\<rparr>\<rparr>"
    and report: "report = session_summary s'"
    and st': "st' = st1\<lparr>st_records := btree_insert (ri_record_name s') (rh_encode h (ri_document s')) (st_records st1)\<rparr>"
    by (rule session_finalize_Inr[OF assms])
  obtain ms where ms: "current_mutations h s = Inr ms"
    and es: "\<exists>es. rj_events (ri_document s1) = rj_events (ri_document s) @ es
        \<and> set (map event_key es) = mutation_key ` set ms - ri_observed s"
    and same: "same_session s s1"
    by (rule observe_now_Inr[OF now])
  from es obtain es where "rj_events (ri_document s1) = rj_events (ri_document s) @ es"
    "event_key ` set es = mutation_key ` set ms - ri_observed s" by auto
  with ms same show ?thesis
    by (intro that[of ms es]) (simp_all add: s' report st' session_summary_def map_of_btree_insert same_session_def)
qed

text \<open>While every marked key has an event, the events are the earlier ones and every change found.\<close>

lemma recorded_keys:
  assumes "observed_recorded s" "es' = rj_events (ri_document s) @ es"
    "event_key ` set es = mutation_key ` set ms - ri_observed s"
  shows "event_key ` set es' = event_key ` set (rj_events (ri_document s)) \<union> mutation_key ` set ms"
  using assms by (auto simp: observed_recorded_def image_Un)

text \<open>
  The sessions a server can hold: created, and then told its process, observed and finalized any
  number of times, with any results, on whatever the disk has become.  As long as the journal is
  not full, every key that is marked has an event.
\<close>

inductive session_history :: "runtime_integrity_session \<Rightarrow> bool" where
  opened: "session_create h root prov owned random now st = (Inr s, st') \<Longrightarrow> session_history s"
| identified: "session_history s \<Longrightarrow> set_process_id h pid s st = (r, s', st') \<Longrightarrow> session_history s'"
| observed: "session_history s \<Longrightarrow> observe_now h now out action s st = (r, s', st') \<Longrightarrow> session_history s'"
| finalized: "session_history s \<Longrightarrow> session_finalize h now out action s st = (r', s', st') \<Longrightarrow> session_history s'"

definition session_inv :: "runtime_integrity_session \<Rightarrow> bool" where
  "session_inv s \<longleftrightarrow> btree (ws_records (rj_baseline (ri_document s)))
     \<and> (length (rj_events (ri_document s)) < MAX_RUNTIME_EVENTS \<longrightarrow> observed_recorded s)"

lemma session_create_inv:
  assumes "session_create h root prov owned random now st = (Inr s, st')"
  shows "session_inv s"
proof -
  obtain baseline where "capture_snapshot (rh_integrity h) root = Inr baseline" "rj_baseline (ri_document s) = baseline"
    using assms by (auto simp: session_create_def Let_def result_Inr split: sum.splits prod.splits)
  then show ?thesis
    using session_create_recorded[OF assms] capture_snapshot_Inr(1) by (auto simp: session_inv_def)
qed

lemma observe_mutations_inv:
  "observe_mutations t n ms s = (r, s') \<Longrightarrow> session_inv s \<Longrightarrow> session_inv s'"
proof (induction t n ms s rule: observe_mutations.induct)
  case (1 t n s)
  then show ?case by simp
next
  case (2 t n m ms s)
  show ?case
  proof (cases "mutation_key m \<in> ri_observed s")
    case True
    with 2 show ?thesis by simp
  next
    case False
    let ?s = "s\<lparr>ri_observed := insert (mutation_key m) (ri_observed s)\<rparr>"
    let ?d = "ri_document ?s"
    let ?s2 = "?s\<lparr>ri_document := ?d\<lparr>rj_events := rj_events ?d @ [event_of ?d t n m]\<rparr>\<rparr>"
    show ?thesis
    proof (cases "MAX_RUNTIME_EVENTS \<le> length (rj_events ?d)")
      case True
      with False 2(3) have "s' = ?s" by (simp add: Let_def)
      then show ?thesis using True 2(4) by (simp add: session_inv_def)
    next
      case room: False
      with False 2(3) have rest: "observe_mutations t n ms ?s2 = (r, s')" by (simp add: Let_def)
      have "session_inv ?s2" using 2(4) room by (auto simp: session_inv_def observed_recorded_def)
      then show ?thesis using 2(2)[OF False refl refl room rest] by blast
    qed
  qed
qed

lemma session_inv_update:
  "session_inv s \<Longrightarrow> rj_events d = rj_events (ri_document s) \<Longrightarrow> rj_baseline d = rj_baseline (ri_document s) \<Longrightarrow>
   session_inv (s\<lparr>ri_document := d\<rparr>)"
  by (simp add: session_inv_def observed_recorded_def)

lemma observe_now_inv:
  assumes "observe_now h now out action s st = (r, s', st')" "session_inv s"
  shows "session_inv s'"
proof (cases "current_mutations h s")
  case (Inl e)
  then show ?thesis using assms by (simp add: observe_now_def)
next
  case (Inr ms)
  let ?t = "of_nat (now - ri_started_at s) :: u64"
  obtain r1 s1 where one: "observe_mutations ?t (nearest_output_before out ?t) ms s = (r1, s1)"
    by (metis surj_pair)
  have "session_inv s1" by (rule observe_mutations_inv[OF one assms(2)])
  moreover from this have "session_inv (s1\<lparr>ri_document := (ri_document s1)\<lparr>rj_last_action := action\<rparr>\<rparr>)"
    by (rule session_inv_update) simp_all
  ultimately show ?thesis
    using assms(1) Inr one by (auto simp: observe_now_def Let_def split: sum.splits prod.splits)
qed

lemma session_finalize_inv:
  assumes "session_finalize h now out action s st = (r, s', st')" "session_inv s"
  shows "session_inv s'"
proof -
  obtain r1 s1 st1 where one: "observe_now h now out action s st = (r1, s1, st1)" by (metis surj_pair)
  have inv: "session_inv s1" by (rule observe_now_inv[OF one assms(2)])
  moreover from this have "session_inv (s1\<lparr>ri_document := (ri_document s1)\<lparr>rj_status := x\<rparr>\<rparr>)" for x
    by (rule session_inv_update) simp_all
  ultimately show ?thesis
    using assms(1) one by (auto simp: session_finalize_def Let_def split: sum.splits prod.splits)
qed

lemma session_history_inv: "session_history s \<Longrightarrow> session_inv s"
proof (induction rule: session_history.induct)
  case (identified s h pid st r s' st')
  then have "s' = s\<lparr>ri_document := (ri_document s)\<lparr>rj_process_id := pid\<rparr>\<rparr>"
    by (auto simp: set_process_id_def Let_def split: prod.splits)
  then show ?case using session_inv_update[OF identified.IH] by simp
qed (blast intro: session_create_inv observe_now_inv session_finalize_inv)+

text \<open>The change of a path between two snapshots, and what a comparison reports.\<close>

definition change_kind :: "file_identity option \<Rightarrow> file_identity option \<Rightarrow> mutation_kind option" where
  "change_kind before after =
     (case before of
        None \<Rightarrow> (if after = None then None else Some Added)
      | Some b \<Rightarrow> (case after of None \<Rightarrow> Some Deleted
                  | Some a \<Rightarrow> if b \<noteq> a then Some Modified else None))"

lemma map_filter_member: "m \<in> set (List.map_filter f xs) \<Longrightarrow> \<exists>x \<in> set xs. f x = Some m"
  by (induction xs) (auto simp: map_filter_simps split: option.splits)

lemma mutation_kinds:
  "m \<in> set (added_mutations owned b c) \<Longrightarrow> pm_change_kind m = Added"
  "m \<in> set (modified_mutations owned b c) \<Longrightarrow> pm_change_kind m = Modified"
  "m \<in> set (deleted_mutations owned b c) \<Longrightarrow> pm_change_kind m = Deleted"
  by (auto simp: added_mutations_def modified_mutations_def deleted_mutations_def mutation_def
      dest!: map_filter_member split: option.splits if_splits)

lemma mutation_key_image:
  assumes "\<And>m. m \<in> set ms \<Longrightarrow> pm_change_kind m = k"
  shows "mutation_key ` set ms = (\<lambda>p. (p, k)) ` pm_relative_path ` set ms"
  using assms by (simp add: mutation_key_def image_image)

lemma delta_keys:
  assumes "btree b" "btree c"
  shows "mutation_key ` set (added_mutations owned b c @ modified_mutations owned b c @ deleted_mutations owned b c)
     = {(p, k). p \<notin> owned \<and> change_kind (map_of b p) (map_of c p) = Some k}"
proof -
  have a: "pm_relative_path ` set (added_mutations owned b c)
      = {p. p \<notin> owned \<and> change_kind (map_of b p) (map_of c p) = Some Added}"
    by (rule set_eqI) (simp add: added_paths[OF assms(2)] change_kind_def split: option.splits)
  have m: "pm_relative_path ` set (modified_mutations owned b c)
      = {p. p \<notin> owned \<and> change_kind (map_of b p) (map_of c p) = Some Modified}"
    by (rule set_eqI) (simp add: modified_paths[OF assms(2)] change_kind_def split: option.splits)
  have d: "pm_relative_path ` set (deleted_mutations owned b c)
      = {p. p \<notin> owned \<and> change_kind (map_of b p) (map_of c p) = Some Deleted}"
    by (rule set_eqI) (simp add: deleted_paths[OF assms(1)] change_kind_def split: option.splits)
  have keys: "mutation_key ` set (added_mutations owned b c) = (\<lambda>p. (p, Added)) ` pm_relative_path ` set (added_mutations owned b c)"
    "mutation_key ` set (modified_mutations owned b c) = (\<lambda>p. (p, Modified)) ` pm_relative_path ` set (modified_mutations owned b c)"
    "mutation_key ` set (deleted_mutations owned b c) = (\<lambda>p. (p, Deleted)) ` pm_relative_path ` set (deleted_mutations owned b c)"
    by (rule mutation_key_image, rule mutation_kinds, assumption)+
  show ?thesis
    unfolding set_append image_Un keys a m d
  proof (rule set_eqI)
    fix x :: "string \<times> mutation_kind"
    obtain p k where "x = (p, k)" by fastforce
    then show "(x \<in> (\<lambda>p. (p, Added)) ` {p. p \<notin> owned \<and> change_kind (map_of b p) (map_of c p) = Some Added}
        \<union> ((\<lambda>p. (p, Modified)) ` {p. p \<notin> owned \<and> change_kind (map_of b p) (map_of c p) = Some Modified}
        \<union> (\<lambda>p. (p, Deleted)) ` {p. p \<notin> owned \<and> change_kind (map_of b p) (map_of c p) = Some Deleted}))
      = (x \<in> {(p, k). p \<notin> owned \<and> change_kind (map_of b p) (map_of c p) = Some k})"
      by (cases k) auto
  qed
qed

lemma current_mutations_Inr:
  assumes "current_mutations h s = Inr ms" "btree (ws_records (rj_baseline (ri_document s)))"
  obtains current owned where
    "capture_snapshot (rh_integrity h) (rj_protected_root (ri_document s)) = Inr current"
    "owned_relatives (rh_integrity h) (ws_root (rj_baseline (ri_document s))) (ri_owned_paths s) [] = Inr owned"
    "mutation_key ` set ms = {(p, k). p \<notin> fst ` set owned \<and>
       change_kind (map_of (ws_records (rj_baseline (ri_document s))) p) (map_of (ws_records current) p) = Some k}"
proof -
  let ?b = "rj_baseline (ri_document s)"
  from assms(1) obtain current delta where
      c: "capture_snapshot (rh_integrity h) (rj_protected_root (ri_document s)) = Inr current"
    and d: "compare_snapshots (rh_integrity h) ?b current (ri_owned_paths s) = Inr delta"
    and ms: "ms = id_added delta @ id_modified delta @ id_deleted delta"
    by (auto simp: current_mutations_def result_Inr)
  from d obtain owned where owned: "owned_relatives (rh_integrity h) (ws_root ?b) (ri_owned_paths s) [] = Inr owned"
    and ms': "ms = added_mutations (fst ` set owned) (ws_records ?b) (ws_records current)
       @ modified_mutations (fst ` set owned) (ws_records ?b) (ws_records current)
       @ deleted_mutations (fst ` set owned) (ws_records ?b) (ws_records current)"
    by (auto simp: compare_snapshots_def result_Inr ms Let_def split: if_splits)
  show ?thesis
    by (rule that[OF c owned]) (simp only: ms' delta_keys[OF assms(2) capture_snapshot_Inr(1)[OF c]])
qed

lemma summary_parts:
  "event_key ` set (ru_warnings (summary_from_document d) @ ru_violations (summary_from_document d))
     = event_key ` set (rj_events d)"
  "ru_violations (summary_from_document d) = filter is_deletion (rj_events d)"
  "ru_warnings (summary_from_document d) = filter (\<lambda>e. \<not> is_deletion e) (rj_events d)"
  "ru_status (summary_from_document d) = rj_status d"
  by (auto simp: summary_from_document_def)

lemma final_status_parts:
  "final_status es = (if filter is_deletion es \<noteq> [] then FinalizedWithViolation
     else if filter (\<lambda>e. \<not> is_deletion e) es \<noteq> [] then FinalizedWithChanges else FinalizedClean)"
  by (auto simp: final_status_def list_ex_iff filter_empty_conv)

section \<open>Properties of sessions\<close>

text \<open>
  C24. Finalizing a running game's integrity session: for every session that was created and then
  observed any number of times, with any results, a finalization that succeeds has compared a
  fresh snapshot with the baseline.  If its report has fewer than \<open>MAX_RUNTIME_EVENTS\<close> events (at
  the limit changes can be lost, see C25), the warnings and violations together name the changes
  seen earlier and exactly the paths, not owned by the server, whose records differ, each with its
  kind of change.  In any case the violations are the deletions among the session's events, the
  warnings its other events, the final status is the one they call for, and the journal on disk is
  the session's.
\<close>

theorem finalize_reports_every_change:
  assumes "session_history s" "session_finalize h now output_buffer action s st = (Inr report, s', st')"
  shows "\<exists>current owned.
     capture_snapshot (rh_integrity h) (rj_protected_root (ri_document s)) = Inr current
     \<and> owned_relatives (rh_integrity h) (ws_root (rj_baseline (ri_document s))) (ri_owned_paths s) [] = Inr owned
     \<and> (ru_event_count report < MAX_RUNTIME_EVENTS \<longrightarrow>
          event_key ` set (ru_warnings report @ ru_violations report)
          = event_key ` set (rj_events (ri_document s))
            \<union> {(p, k). p \<notin> fst ` set owned \<and>
                 change_kind (map_of (ws_records (rj_baseline (ri_document s))) p)
                   (map_of (ws_records current) p) = Some k})
     \<and> (\<forall>e. e \<in> set (ru_violations report) \<longleftrightarrow> e \<in> set (rj_events (ri_document s')) \<and> rv_change_kind e = Deleted)
     \<and> (\<forall>e. e \<in> set (ru_warnings report) \<longleftrightarrow> e \<in> set (rj_events (ri_document s')) \<and> rv_change_kind e \<noteq> Deleted)
     \<and> ru_status report = (if ru_violations report \<noteq> [] then FinalizedWithViolation
          else if ru_warnings report \<noteq> [] then FinalizedWithChanges else FinalizedClean)
     \<and> map_of (st_records st') (ri_record_name s) = Some (rh_encode h (ri_document s'))"
proof -
  have inv: "session_inv s" by (rule session_history_inv[OF assms(1)])
  then have bt: "btree (ws_records (rj_baseline (ri_document s)))" by (simp add: session_inv_def)
  obtain ms es where ms: "current_mutations h s = Inr ms"
    and es: "rj_events (ri_document s') = rj_events (ri_document s) @ es"
      "event_key ` set es = mutation_key ` set ms - ri_observed s"
    and st: "rj_status (ri_document s') = final_status (rj_events (ri_document s'))"
    and report: "report = summary_from_document (ri_document s')"
    and disk: "map_of (st_records st') (ri_record_name s) = Some (rh_encode h (ri_document s'))"
    by (rule finalized_parts[OF assms(2)])
  obtain current owned where c: "capture_snapshot (rh_integrity h) (rj_protected_root (ri_document s)) = Inr current"
    and ow: "owned_relatives (rh_integrity h) (ws_root (rj_baseline (ri_document s))) (ri_owned_paths s) [] = Inr owned"
    and k: "mutation_key ` set ms = {(p, k). p \<notin> fst ` set owned \<and>
       change_kind (map_of (ws_records (rj_baseline (ri_document s))) p) (map_of (ws_records current) p) = Some k}"
    by (rule current_mutations_Inr[OF ms bt])
  have all: "event_key ` set (ru_warnings report @ ru_violations report)
      = event_key ` set (rj_events (ri_document s)) \<union> {(p, k). p \<notin> fst ` set owned \<and>
       change_kind (map_of (ws_records (rj_baseline (ri_document s))) p) (map_of (ws_records current) p) = Some k}"
    if "ru_event_count report < MAX_RUNTIME_EVENTS"
  proof -
    have "observed_recorded s"
      using that inv es(1) by (simp add: session_inv_def report summary_from_document_def)
    from recorded_keys[OF this es] show ?thesis unfolding report summary_parts(1) k .
  qed
  show ?thesis
    by (intro exI conjI impI, rule c, rule ow, erule all)
      (use disk in \<open>simp_all add: report summary_parts st is_deletion_def[symmetric] final_status_parts\<close>)
qed

definition demo_store_host :: "string \<Rightarrow> runtime_integrity_host" where
  "demo_store_host digest =
     \<lparr>rh_integrity = demo_integrity digest, rh_encode = rj_last_action, rh_decode = (\<lambda>b. Inl ''invalid''),
      rh_write = (\<lambda>_. None), rh_read = (\<lambda>_. None), rh_list = None\<rparr>"

definition demo_identity_c :: file_identity where
  "demo_identity_c =
     \<lparr>fi_tracked = False, fi_git_object_kind = None, fi_git_object_id = None, fi_sha256 = Some ''e'',
      fi_size = Some 1, fi_status = ''? c''\<rparr>"

definition demo_baseline :: workspace_snapshot where
  "demo_baseline = (demo_snapshot ''0'')\<lparr>ws_records := demo_records ''0'' @ [(''c'', demo_identity_c)],
     ws_preexisting_changes := [''? b'', ''? c'']\<rparr>"

text \<open>The workspace when it still had the file \<open>c\<close>.\<close>

definition demo_integrity_before :: integrity_host where
  "demo_integrity_before = (demo_integrity ''0'')\<lparr>
     ih_git := (\<lambda>_ args. if hd args = ''ls-files''
       then Inr \<lparr>go_success = True, go_stdout = demo_listed, go_stderr = []\<rparr>
       else Inr \<lparr>go_success = True, go_stdout = ''? b'' @ CHR 0x00 # ''? c'' @ [CHR 0x00], go_stderr = []\<rparr>),
     ih_file := (\<lambda>p. Inr (Some (if file_name p = Some ''a'' then ''0'' else if file_name p = Some ''b'' then ''d'' else ''e'', 1)))\<rparr>"

lemma demo_before_answers:
  "ih_git demo_integrity_before r [''ls-files'', ''-s'', ''-z'']
     = Inr \<lparr>go_success = True, go_stdout = demo_listed, go_stderr = []\<rparr>"
  "ih_git demo_integrity_before r [''status'', ''--porcelain=v2'', ''-z'', ''--untracked-files=all'']
     = Inr \<lparr>go_success = True, go_stdout = ''? b'' @ CHR 0x00 # ''? c'' @ [CHR 0x00], go_stderr = []\<rparr>"
  by (simp_all add: demo_integrity_before_def)

lemma demo_before_fields:
  "nonempty_fields (''? b'' @ CHR 0x00 # ''? c'' @ [CHR 0x00]) = [''? b'', ''? c'']"
  "change_statuses [''? b'', ''? c''] [] = [(''b'', ''? b''), (''c'', ''? c'')]"
  "status_path ''? c'' = Some ''c''" "to_slashes ''c'' = ''c''" "strip_prefix ''? '' ''? c'' = Some ''c''"
  by code_simp+

lemma demo_before_identity:
  "capture_identity demo_integrity_before (join r (fs_from_str (ih_fs demo_integrity_before) [x])) t k o' s
     = Inr \<lparr>fi_tracked = t, fi_git_object_kind = k, fi_git_object_id = o',
            fi_sha256 = Some (if x = CHR ''a'' then ''0'' else if x = CHR ''b'' then ''d'' else ''e''),
            fi_size = Some 1, fi_status = (case s of Some s \<Rightarrow> s | None \<Rightarrow> ''clean'')\<rparr>"
  by (simp add: capture_identity_def demo_integrity_before_def demo_integrity_def join_def file_name_def map_err_def)

lemma demo_before_git:
  "capture_git_records demo_integrity_before r (''? b'' @ CHR 0x00 # ''? c'' @ [CHR 0x00])
     = Inr (demo_records ''0'' @ [(''c'', demo_identity_c)], [''? b'', ''? c''])"
proof -
  have "(''a'' :: string) < ''b''" "\<not> (''b'' :: string) < ''a''" "\<not> (''c'' :: string) < ''a''" "\<not> (''c'' :: string) < ''b''"
    by code_simp+
  then show ?thesis
    unfolding capture_git_records_def demo_before_answers
    by (simp del: change_statuses.simps add: Let_def demo_fields[unfolded append.simps] demo_fields
        demo_before_fields[unfolded append.simps] demo_before_fields demo_before_identity nth_field_def
        MAX_INTEGRITY_ENTRIES_def demo_records_def demo_identity_c_def map_err_def)
qed

lemma demo_baseline_captured: "capture_snapshot demo_integrity_before (demo_path ''w'') = Inr demo_baseline"
proof -
  have "capture_records demo_integrity_before (demo_path ''w'')
      = Inr (demo_records ''0'' @ [(''c'', demo_identity_c)], [''? b'', ''? c''])"
    unfolding capture_records_def demo_before_answers by (simp add: demo_before_git[unfolded append.simps] demo_before_git)
  then show ?thesis
    by (simp add: capture_snapshot_def demo_snapshot_def demo_baseline_def map_err_def)
      (simp add: demo_integrity_before_def demo_integrity_def)
qed

definition demo_provenance :: launch_provenance where
  "demo_provenance = \<lparr>lp_status = Unverified, lp_build_record_id = None, lp_dmb_sha256 = ''h'', lp_warnings = []\<rparr>"

definition demo_event :: runtime_integrity_event where
  "demo_event = \<lparr>rv_code = source_integrity_warning_code, rv_relative_path = ''b'', rv_change_kind = Modified,
     rv_before = None, rv_after = None, rv_first_observed_offset_ms = 0, rv_nearest_output = None,
     rv_session_id = ''s'', rv_process_id = None, rv_build_record_id = None\<rparr>"

definition demo_session_id :: string where
  "demo_session_id = replicate 32 (CHR ''0'')"

definition demo_session :: "runtime_integrity_event list \<Rightarrow> runtime_integrity_session" where
  "demo_session events = \<lparr>ri_record_name = record_name_of demo_session_id, ri_owned_paths = [], ri_started_at = 0,
     ri_document = \<lparr>rj_schema = 1, rj_session_id = demo_session_id, rj_status = IntegrityActive,
       rj_protected_root = demo_path ''w'', rj_baseline = demo_baseline, rj_events = events,
       rj_last_action = ''baseline_captured'', rj_process_id = None, rj_launch_provenance = demo_provenance\<rparr>,
     ri_observed = event_key ` set events\<rparr>"

lemma demo_session_history: "session_history (demo_session [])"
proof (rule session_history.opened)
  let ?h = "(demo_store_host ''0'')\<lparr>rh_integrity := demo_integrity_before\<rparr>"
  have "liveness_record_name demo_session_id = Inr (''runtime-integrity-locks/'' @ demo_session_id @ ''.lock'')"
    by code_simp
  then show "session_create ?h (demo_path ''w'') demo_provenance [] (Inr demo_session_id) 0 \<lparr>st_records = [], st_held = []\<rparr>
    = (Inr (demo_session []), snd (session_create ?h (demo_path ''w'') demo_provenance [] (Inr demo_session_id) 0
         \<lparr>st_records = [], st_held = []\<rparr>))"
    by (simp add: session_create_def demo_baseline_captured map_err_def write_journal_def demo_store_host_def
        demo_session_def Let_def) (simp add: demo_baseline_def demo_snapshot_def)
qed

lemma demo_mutations:
  "current_mutations (demo_store_host ''0'') (demo_session es) = Inr [mutation ''c'' Deleted (Some demo_identity_c) None]"
  by (simp add: current_mutations_def demo_store_host_def demo_session_def demo_snapshot map_err_def
      compare_snapshots_def demo_baseline_def added_mutations_def modified_mutations_def deleted_mutations_def
      map_filter_simps)
    (simp add: demo_snapshot_def demo_records_def map_filter_simps)

lemma demo_mutation_key: "mutation_key (mutation p k b a) = (p, k)"
  by (simp add: mutation_key_def mutation_def)

theorem finalize_reports_every_change_witness:
  "\<exists>report s' st'. session_finalize (demo_store_host ''0'') 7 (output_buffer_default 0) ''stop'' (demo_session []) \<lparr>st_records = [], st_held = []\<rparr>
       = (Inr report, s', st')
     \<and> ru_event_count report < MAX_RUNTIME_EVENTS
     \<and> ru_status report = FinalizedWithViolation \<and> (''c'', Deleted) \<in> event_key ` set (ru_violations report)"
proof -
  let ?w = "session_finalize (demo_store_host ''0'') 7 (output_buffer_default 0) ''stop'' (demo_session []) \<lparr>st_records = [], st_held = []\<rparr>"
  obtain report s' st' where w: "?w = (Inr report, s', st')"
    and v: "(''c'', Deleted) \<in> event_key ` set (ru_violations report)"
    and few: "ru_event_count report < MAX_RUNTIME_EVENTS"
    unfolding session_finalize_def observe_now_def demo_mutations
    by (simp add: demo_mutation_key final_status_def persist_session_def
        write_journal_def demo_session_def demo_store_host_def Let_def MAX_RUNTIME_EVENTS_def session_summary_def
        summary_from_document_def is_deletion_key)
  note all = finalize_reports_every_change[OF demo_session_history w]
  from all v have "ru_status report = FinalizedWithViolation" by (auto split: if_splits)
  with w v few show ?thesis by blast
qed

section \<open>The event limit\<close>

lemma observe_mutations_seen:
  "mutation_key ` set ms \<subseteq> ri_observed s \<Longrightarrow> observe_mutations t n ms s = (Inr (), s)"
  by (induction ms) auto

lemma observe_mutations_full:
  assumes "MAX_RUNTIME_EVENTS \<le> length (rj_events (ri_document s))" "\<not> mutation_key ` set ms \<subseteq> ri_observed s"
  shows "\<exists>m \<in> set ms. mutation_key m \<notin> ri_observed s \<and> observe_mutations t n ms s
     = (Inl EventLimit, s\<lparr>ri_observed := insert (mutation_key m) (ri_observed s)\<rparr>)"
  using assms(2)
proof (induction ms)
  case (Cons m ms)
  show ?case
  proof (cases "mutation_key m \<in> ri_observed s")
    case True
    with Cons obtain m' where "m' \<in> set ms" "mutation_key m' \<notin> ri_observed s"
      "observe_mutations t n ms s = (Inl EventLimit, s\<lparr>ri_observed := insert (mutation_key m') (ri_observed s)\<rparr>)"
      by auto
    with True show ?thesis by auto
  next
    case False
    then show ?thesis using assms(1) by (simp add: Let_def)
  qed
qed simp

lemma current_mutations_observed [simp]:
  "current_mutations h (s\<lparr>ri_observed := x\<rparr>) = current_mutations h s"
  by (simp add: current_mutations_def)

text \<open>
  C25. The event limit makes a deletion disappear.  When the journal is full and a file that no
  event mentions has been deleted, the observation (the monitor's, say, which discards its
  result) fails with the limit error; but it has marked the deletion as observed, so the
  finalization that follows, with nothing on the disk changed, succeeds, reports no violation
  and writes the status \<open>FinalizedWithChanges\<close>.
\<close>

theorem event_limit_swallows_deletion:
  assumes "current_mutations h s = Inr ms" "mutation_key ` set ms - ri_observed s = {(p, Deleted)}"
    and "length (rj_events (ri_document s)) = MAX_RUNTIME_EVENTS"
    and "\<forall>e \<in> set (rj_events (ri_document s)). rv_change_kind e \<noteq> Deleted"
    and "rh_write h (ri_record_name s) = None"
  shows "\<exists>s' report s'' st'. observe_now h now b ''monitor'' s st = (Inl EventLimit, s', st)
     \<and> session_finalize h now' b' action s' st = (Inr report, s'', st')
     \<and> ru_status report = FinalizedWithChanges \<and> ru_violations report = []
     \<and> ru_event_count report = MAX_RUNTIME_EVENTS"
proof -
  let ?es = "rj_events (ri_document s)"
  let ?s = "s\<lparr>ri_observed := insert (p, Deleted) (ri_observed s)\<rparr>"
  have new: "\<not> mutation_key ` set ms \<subseteq> ri_observed s" using assms(2) by blast
  have one: "mutation_key m = (p, Deleted)" if "m \<in> set ms" "mutation_key m \<notin> ri_observed s" for m
    using assms(2) that by blast
  have mark: "observe_mutations t n ms s = (Inl EventLimit, ?s)" for t n
    using observe_mutations_full[OF _ new, of t n] assms(3) one by auto
  have seen: "observe_mutations t n ms ?s = (Inr (), ?s)" for t n
    using assms(2) by (intro observe_mutations_seen) auto
  have kept: "\<not> list_ex is_deletion ?es" "?es \<noteq> []" "filter is_deletion ?es = []"
    using assms(3,4) by (auto simp: list_ex_iff is_deletion_def MAX_RUNTIME_EVENTS_def filter_empty_conv)
  have first: "observe_now h now b ''monitor'' s st = (Inl EventLimit, ?s, st)"
    by (simp add: observe_now_def assms(1) mark Let_def)
  have final: "\<exists>report s'' st'. session_finalize h now' b' action ?s st = (Inr report, s'', st')
      \<and> ru_status report = FinalizedWithChanges \<and> ru_violations report = []
      \<and> ru_event_count report = MAX_RUNTIME_EVENTS"
    by (simp add: session_finalize_def observe_now_def assms(1,5) seen Let_def persist_session_def write_journal_def
        session_summary_def summary_from_document_def kept final_status_def assms(3))
  from first final show ?thesis by blast
qed

theorem event_limit_swallows_deletion_witness:
  "\<exists>s' report s'' st'.
     observe_now (demo_store_host ''0'') 5000 (output_buffer_default 0) ''monitor''
       (demo_session (replicate 10000 demo_event)) \<lparr>st_records = [], st_held = []\<rparr>
       = (Inl EventLimit, s', \<lparr>st_records = [], st_held = []\<rparr>)
     \<and> session_finalize (demo_store_host ''0'') 9000 (output_buffer_default 0) ''stop'' s'
         \<lparr>st_records = [], st_held = []\<rparr> = (Inr report, s'', st')
     \<and> ru_status report = FinalizedWithChanges \<and> ru_violations report = []
     \<and> ru_event_count report = MAX_RUNTIME_EVENTS"
proof (rule event_limit_swallows_deletion[OF demo_mutations])
  let ?s = "demo_session (replicate 10000 demo_event)"
  have events: "rj_events (ri_document ?s) = replicate 10000 demo_event"
    and seen: "ri_observed ?s = {(''b'', Modified)}"
    by (simp_all add: demo_session_def) (simp add: event_key_def demo_event_def)
  show "mutation_key ` set [mutation ''c'' Deleted (Some demo_identity_c) None] - ri_observed ?s = {(''c'', Deleted)}"
    unfolding seen by (simp add: demo_mutation_key)
  show "length (rj_events (ri_document ?s)) = MAX_RUNTIME_EVENTS"
    unfolding events by (simp add: MAX_RUNTIME_EVENTS_def)
  show "\<forall>e \<in> set (rj_events (ri_document ?s)). rv_change_kind e \<noteq> Deleted"
    unfolding events by (simp add: demo_event_def)
  show "rh_write (demo_store_host ''0'') (ri_record_name ?s) = None" by (simp add: demo_store_host_def)
qed

section \<open>Recovery of unfinished sessions\<close>

text \<open>
  A record may be recovered when it decodes to the journal of an active session that no
  process holds and whose project lies in an effective root.
\<close>

definition abandoned ::
  "runtime_integrity_host \<Rightarrow> EffectiveRoot list \<Rightarrow> string list \<Rightarrow> string \<Rightarrow> runtime_integrity_journal option" where
  "abandoned h roots held bytes =
     (case rh_decode h bytes of Inl _ \<Rightarrow> None
      | Inr d \<Rightarrow> if rj_status d = IntegrityActive \<and> rj_session_id d \<notin> set held
            \<and> list_ex (\<lambda>root. path_starts_with (rj_protected_root d) (er_path root)) roots
          then Some d else None)"

definition recovered_journal :: "runtime_integrity_journal \<Rightarrow> runtime_integrity_journal" where
  "recovered_journal d =
     d\<lparr>rj_status := ObservedDuringRecovery, rj_last_action := ''observed_during_recovery''\<rparr>"

definition recovered_bytes ::
  "runtime_integrity_host \<Rightarrow> EffectiveRoot list \<Rightarrow> string list \<Rightarrow> string \<Rightarrow> string" where
  "recovered_bytes h roots held bytes =
     (case abandoned h roots held bytes of None \<Rightarrow> bytes | Some d \<Rightarrow> rh_encode h (recovered_journal d))"

lemma read_journal_record_Inr:
  "read_journal_record h st name = Inr d \<longleftrightarrow>
     rh_read h name = None \<and> (\<exists>b. map_of (st_records st) name = Some b \<and> rh_decode h b = Inr d)"
  by (cases "map_of (st_records st) name"; cases "rh_read h name")
    (auto simp: read_journal_record_def map_err_def split: sum.splits)

lemma recover_record_Inr:
  assumes "recover_record h roots name st = (Inr s, st')"
  obtains b d where "map_of (st_records st) name = Some b" "rh_decode h b = Inr d" "st_held st' = st_held st"
    "map_of (st_records st') = (map_of (st_records st))(name \<mapsto> recovered_bytes h roots (st_held st) b)"
proof -
  from assms obtain d where d: "read_journal_record h st name = Inr d"
    by (auto simp: recover_record_def split: sum.splits)
  then obtain b where b: "map_of (st_records st) name = Some b" "rh_decode h b = Inr d"
    by (auto simp: read_journal_record_Inr)
  have "st_held st' = st_held st \<and>
     map_of (st_records st') = (map_of (st_records st))(name \<mapsto> recovered_bytes h roots (st_held st) b)"
    using assms b d
    by (auto simp: recover_record_def recovered_bytes_def abandoned_def recovered_journal_def Let_def fun_upd_idem
        map_of_btree_insert dest!: write_journal_Inr split: sum.splits if_splits prod.splits)
  with b show ?thesis using that by blast
qed

lemma recover_record_Inl: "recover_record h roots name st = (Inl e, st') \<Longrightarrow> st' = st"
  by (auto simp: recover_record_def write_journal_def Let_def split: sum.splits if_splits prod.splits option.splits)

text \<open>Up to the record at which the pass stops, each record is what \<open>recovered_bytes\<close> makes of it.\<close>

lemma recover_records_prefix:
  "recover_records h roots names acc st = (r, st') \<Longrightarrow> distinct names \<Longrightarrow>
     \<exists>handled rest. names = handled @ rest \<and> st_held st' = st_held st
       \<and> map_of (st_records st') = (\<lambda>n. if n \<in> set handled
            then map_option (recovered_bytes h roots (st_held st)) (map_of (st_records st) n)
            else map_of (st_records st) n)
       \<and> (\<forall>n \<in> set handled. \<exists>b d. map_of (st_records st) n = Some b \<and> rh_decode h b = Inr d)
       \<and> (case r of Inr _ \<Rightarrow> rest = [] | Inl _ \<Rightarrow> rest \<noteq> [])"
proof (induction h roots names acc st arbitrary: r st' rule: recover_records.induct)
  case (1 h roots acc st)
  then show ?case by (intro exI[of _ "[]"]) auto
next
  case (2 h roots name names acc st)
  obtain r1 st1 where one: "recover_record h roots name st = (r1, st1)" by fastforce
  show ?case
  proof (cases r1)
    case (Inl e)
    with one 2(2) have "r = Inl e" "st' = st" by (auto dest: recover_record_Inl)
    then show ?thesis by (intro exI[of _ "[]"] exI[of _ "name # names"]) simp
  next
    case (Inr sm)
    note one = one[unfolded Inr]
    obtain b d where b: "map_of (st_records st) name = Some b" "rh_decode h b = Inr d" "st_held st1 = st_held st"
      "map_of (st_records st1) = (map_of (st_records st))(name \<mapsto> recovered_bytes h roots (st_held st) b)"
      by (rule recover_record_Inr[OF one])
    have rest: "recover_records h roots names (acc @ (case sm of None \<Rightarrow> [] | Some x \<Rightarrow> [x])) st1 = (r, st')"
      using 2(2) one by simp
    have "distinct names" using 2(3) by simp
    from 2(1)[OF one[symmetric] refl rest this] obtain handled tail where t: "names = handled @ tail"
      "st_held st' = st_held st1"
      "map_of (st_records st') = (\<lambda>n. if n \<in> set handled
            then map_option (recovered_bytes h roots (st_held st1)) (map_of (st_records st1) n)
            else map_of (st_records st1) n)"
      "\<forall>n \<in> set handled. \<exists>b d. map_of (st_records st1) n = Some b \<and> rh_decode h b = Inr d"
      "case r of Inr _ \<Rightarrow> tail = [] | Inl _ \<Rightarrow> tail \<noteq> []" by (elim exE conjE)
    have "name \<notin> set handled" using 2(3) t(1) by auto
    then have "map_of (st_records st') = (\<lambda>n. if n \<in> set (name # handled)
            then map_option (recovered_bytes h roots (st_held st)) (map_of (st_records st) n)
            else map_of (st_records st) n)"
      using b by (auto simp: t(2,3) fun_eq_iff)
    moreover have "\<exists>b d. map_of (st_records st) n = Some b \<and> rh_decode h b = Inr d" if "n \<in> set (name # handled)" for n
    proof (cases "n = name")
      case False
      with that t(4) have "\<exists>b d. map_of (st_records st1) n = Some b \<and> rh_decode h b = Inr d" by auto
      with False b(4) show ?thesis by simp
    qed (use b(1,2) in auto)
    ultimately show ?thesis using t(1,2,5) b(3)
      by (intro exI[of _ "name # handled"] exI[of _ tail]) simp
  qed
qed

lemma recover_unfinished_prefix:
  assumes "btree (st_records st)" "recover_unfinished h roots st = (r, st')"
  shows "\<exists>handled rest. map fst (st_records st) = handled @ rest \<and> st_held st' = st_held st
       \<and> map_of (st_records st') = (\<lambda>n. if n \<in> set handled
            then map_option (recovered_bytes h roots (st_held st)) (map_of (st_records st) n)
            else map_of (st_records st) n)
       \<and> (\<forall>n \<in> set handled. \<exists>b d. map_of (st_records st) n = Some b \<and> rh_decode h b = Inr d)
       \<and> (case r of Inr _ \<Rightarrow> rest = [] | Inl _ \<Rightarrow> True)"
proof (cases "namespace_records h st 10000")
  case (Inl e)
  with assms(2) show ?thesis
    by (intro exI[of _ "[]"] exI[of _ "map fst (st_records st)"]) (auto simp: recover_unfinished_def)
next
  case (Inr names)
  then have names: "names = map fst (st_records st)"
    by (auto simp: namespace_records_def split: option.splits if_splits)
  have d: "distinct names" using assms(1) unfolding names by (simp add: btree_def)
  have "recover_records h roots names [] st = (r, st')"
    using assms(2) Inr by (simp add: recover_unfinished_def)
  from recover_records_prefix[OF this d] obtain handled rest where "names = handled @ rest" "st_held st' = st_held st"
       "map_of (st_records st') = (\<lambda>n. if n \<in> set handled
            then map_option (recovered_bytes h roots (st_held st)) (map_of (st_records st) n)
            else map_of (st_records st) n)"
       "\<forall>n \<in> set handled. \<exists>b d. map_of (st_records st) n = Some b \<and> rh_decode h b = Inr d"
       "case r of Inr _ \<Rightarrow> rest = [] | Inl _ \<Rightarrow> rest \<noteq> []"
    by (elim exE conjE)
  then show ?thesis unfolding names
    by (intro exI[of _ handled] exI[of _ rest] conjI) (simp_all split: sum.splits)
qed



text \<open>
  C27. One file that is not a journal stops the recovery: if a file of the namespace does not
  decode (the enumeration lists every regular file, so a temporary file that a crash left
  behind counts), the pass fails, and neither that file nor any record after it is changed.
  The server discards the error, so those sessions stay active for good.
\<close>

theorem undecodable_record_stops_recovery:
  assumes "btree (st_records st)" "map_of (st_records st) bad = Some b" "rh_decode h b = Inl e"
  shows "\<exists>err st'. recover_unfinished h roots st = (Inl err, st')
     \<and> (\<forall>n. bad \<le> n \<longrightarrow> map_of (st_records st') n = map_of (st_records st) n)"
proof -
  obtain r st' where run: "recover_unfinished h roots st = (r, st')" by fastforce
  from recover_unfinished_prefix[OF assms(1) this]
  obtain handled rest where p: "map fst (st_records st) = handled @ rest"
       "map_of (st_records st') = (\<lambda>n. if n \<in> set handled
            then map_option (recovered_bytes h roots (st_held st)) (map_of (st_records st) n)
            else map_of (st_records st) n)"
       "\<forall>n \<in> set handled. \<exists>b d. map_of (st_records st) n = Some b \<and> rh_decode h b = Inr d"
       "case r of Inr _ \<Rightarrow> rest = [] | Inl _ \<Rightarrow> True"
    by (elim exE conjE)
  have out: "bad \<notin> set handled" using p(3) assms(2,3) by force
  have "bad \<in> set (map fst (st_records st))" using assms(2) by (force dest: map_of_SomeD)
  with p(1) out have inrest: "bad \<in> set rest" by auto
  have sorted: "sorted (map fst (st_records st))" using assms(1) by (simp add: btree_def)
  have "x \<le> bad" if "x \<in> set handled" for x
    using sorted that inrest unfolding p(1) sorted_append by blast
  then have "map_of (st_records st') n = map_of (st_records st) n" if "bad \<le> n" for n
    using that out by (auto simp: p(2) dest: order_antisym)
  moreover obtain err where "r = Inl err" using p(4) inrest by (cases r) auto
  ultimately show ?thesis using run by blast
qed

text \<open>A store with a journal per letter: the bytes are the last actions.\<close>

definition demo_recovery_host :: runtime_integrity_host where
  "demo_recovery_host = (demo_store_host ''0'')\<lparr>rh_decode := (\<lambda>b.
     if b = ''baseline_captured'' then Inr ((ri_document (demo_session []))\<lparr>rj_session_id := replicate 32 CHR ''a''\<rparr>)
     else Inl ''invalid'')\<rparr>"

definition demo_root :: EffectiveRoot where
  "demo_root = \<lparr>er_path = demo_path ''w'', er_source = ExplicitRoot,
     er_repository_identity = None, er_head_revision = None, er_dirty = None\<rparr>"




theorem undecodable_record_stops_recovery_witness:
  "\<exists>err st'. recover_unfinished demo_recovery_host [demo_root]
       \<lparr>st_records = [(''.meridian-tmp-0'', ''tmp''), (''a.json'', ''baseline_captured'')], st_held = []\<rparr> = (Inl err, st')
     \<and> map_of (st_records st') ''a.json'' = Some ''baseline_captured''"
proof -
  let ?st = "\<lparr>st_records = [(''.meridian-tmp-0'', ''tmp''), (''a.json'', ''baseline_captured'')], st_held = []\<rparr>"
  have sorted: "btree (st_records ?st)" and le: "''.meridian-tmp-0'' \<le> ''a.json''"
    unfolding btree_def by code_simp+
  have "\<exists>err st'. recover_unfinished demo_recovery_host [demo_root] ?st = (Inl err, st')
     \<and> (\<forall>n. ''.meridian-tmp-0'' \<le> n \<longrightarrow> map_of (st_records st') n = map_of (st_records ?st) n)"
    by (rule undecodable_record_stops_recovery[OF sorted, of _ "''tmp''" _ "''invalid''"])
      (simp_all add: demo_recovery_host_def demo_store_host_def)
  then show ?thesis using le by auto
qed

end
