(* ===== verification/Server_State.thy ===== *)
theory Server_State
  imports Output_Log Repository_Roots
begin

text \<open>
  The server's shared state, from \<open>src/state.rs\<close>: the published analysis and its metadata, the
  running game and the Tracy capture window.  What the operating system answers about the
  process and its containment is an argument of each operation; processes, containments,
  tasks and observers are handles.  The effects an operation has on them are recorded in
  \<open>rs_effects\<close>, oldest first.
\<close>

section \<open>The published analysis\<close>

text \<open>Of a snapshot, what publication reads and writes; \<open>sn_content\<close> is the rest.\<close>

record 'c snapshot =
  sn_environment_path :: path
  sn_generation :: u64
  sn_content :: 'c

record 'c analysis_state =
  as_active :: "'c snapshot option"
  as_generation :: u64

record analysis_metadata =
  am_active_environment :: "path option"
  am_generation :: u64

record 'c analysis_server =
  sv_analysis :: "'c analysis_state"
  sv_metadata :: analysis_metadata

datatype state_error = ParseRequired

definition analysis_server_new :: "'c analysis_server" where
  "analysis_server_new = \<lparr>sv_analysis = \<lparr>as_active = None, as_generation = 0\<rparr>,
     sv_metadata = \<lparr>am_active_environment = None, am_generation = 0\<rparr>\<rparr>"

definition active_snapshot :: "'c analysis_server \<Rightarrow> 'c snapshot option" where
  "active_snapshot sv = as_active (sv_analysis sv)"

definition snapshot_of :: "'c analysis_server \<Rightarrow> state_error + 'c snapshot" where
  "snapshot_of sv = or_err ParseRequired (as_active (sv_analysis sv))"

definition publish_analysis ::
    "'c snapshot \<Rightarrow> 'c analysis_server \<Rightarrow> 'c snapshot \<times> 'c snapshot option \<times> 'c analysis_server" where
  "publish_analysis snapshot sv =
     (let snapshot = snapshot\<lparr>sn_generation := sat_add64 (as_generation (sv_analysis sv)) 1\<rparr>
      in (snapshot, as_active (sv_analysis sv),
          sv\<lparr>sv_analysis := \<lparr>as_active = Some snapshot, as_generation = sn_generation snapshot\<rparr>,
             sv_metadata := \<lparr>am_active_environment = Some (sn_environment_path snapshot),
               am_generation = sn_generation snapshot\<rparr>\<rparr>))"

definition install_analysis ::
    "'c snapshot \<Rightarrow> 'c analysis_server \<Rightarrow> 'c snapshot \<times> 'c analysis_server" where
  "install_analysis build sv =
     (case publish_analysis (build\<lparr>sn_generation := 0\<rparr>) sv of (snapshot, _, sv) \<Rightarrow> (snapshot, sv))"

text \<open>
  \<open>locked\<close> tells whether the write lock was obtained before the deadline, and \<open>now\<close> is the
  time it was obtained at.
\<close>

definition install_analysis_before_deadline ::
    "bool \<Rightarrow> nat \<Rightarrow> nat \<Rightarrow> 'c snapshot \<Rightarrow> 'c analysis_server \<Rightarrow> 'c snapshot option \<times> 'c analysis_server"
  where
  "install_analysis_before_deadline locked now deadline snapshot sv =
     (if \<not> locked then (None, sv)
      else if now \<ge> deadline then (None, sv)
      else case publish_analysis snapshot sv of (snapshot, _, sv) \<Rightarrow> (Some snapshot, sv))"

definition state_generation :: "'c analysis_server \<Rightarrow> u64" where
  "state_generation sv = as_generation (sv_analysis sv)"

definition clear_analysis :: "'c analysis_server \<Rightarrow> 'c analysis_server" where
  "clear_analysis sv = sv\<lparr>sv_analysis := (sv_analysis sv)\<lparr>as_active := None\<rparr>,
     sv_metadata := (sv_metadata sv)\<lparr>am_active_environment := None\<rparr>\<rparr>"

section \<open>The running game\<close>

datatype runtime_kind = Standard | Tracy

datatype runtime_effect =
    AbortTask nat
  | RequestTermination nat
  | Terminate nat
  | KillProcess nat

text \<open>\<open>rs_session\<close> is the identity of the shared output log.\<close>

record 'p runtime_state =
  rs_game_process :: "nat option"
  rs_containment :: "nat option"
  rs_game_port :: "16 word option"
  rs_output_log :: output_buffer
  rs_session :: nat
  rs_runtime_output_tasks :: "nat list"
  rs_runtime_observer :: "nat option"
  rs_last_exit_code :: "int option"
  rs_kind :: "runtime_kind option"
  rs_profiler_port :: "16 word option"
  rs_launch_provenance :: "'p option"
  rs_integrity_task :: "nat option"
  rs_effects :: "runtime_effect list"

definition runtime_new :: "nat \<Rightarrow> nat \<Rightarrow> 'p runtime_state" where
  "runtime_new now session = \<lparr>rs_game_process = None, rs_containment = None, rs_game_port = None,
     rs_output_log = output_buffer_default now, rs_session = session, rs_runtime_output_tasks = [],
     rs_runtime_observer = None, rs_last_exit_code = None, rs_kind = None, rs_profiler_port = None,
     rs_launch_provenance = None, rs_integrity_task = None, rs_effects = []\<rparr>"

definition effect :: "runtime_effect list \<Rightarrow> 'p runtime_state \<Rightarrow> 'p runtime_state" where
  "effect es rs = rs\<lparr>rs_effects := rs_effects rs @ es\<rparr>"

definition opt_list :: "('a \<Rightarrow> 'b) \<Rightarrow> 'a option \<Rightarrow> 'b list" where
  "opt_list f x = (case x of None \<Rightarrow> [] | Some a \<Rightarrow> [f a])"

definition publish_process_status :: "bool \<Rightarrow> 'p runtime_state \<Rightarrow> 'p runtime_state" where
  "publish_process_status running rs =
     (let out = rs_output_log rs in
      rs\<lparr>rs_output_log := out\<lparr>ob_running := running,
           ob_drained := (if running then False else ob_drained out),
           ob_last_exit_code := rs_last_exit_code rs,
           ob_changes := ob_changes out + 1\<rparr>\<rparr>)"

definition abort_runtime_output_tasks :: "'p runtime_state \<Rightarrow> 'p runtime_state" where
  "abort_runtime_output_tasks rs =
     (let out = rs_output_log rs in
      effect (map AbortTask (rs_runtime_output_tasks rs))
        (rs\<lparr>rs_runtime_output_tasks := [],
            rs_output_log := out\<lparr>ob_drained := True, ob_changes := ob_changes out + 1\<rparr>\<rparr>))"

definition set_game_process ::
    "nat \<Rightarrow> 16 word \<Rightarrow> 'p \<Rightarrow> 'p runtime_state \<Rightarrow> 'p runtime_state" where
  "set_game_process process port provenance rs =
     publish_process_status True
       (rs\<lparr>rs_game_process := Some process, rs_game_port := Some port, rs_last_exit_code := None,
           rs_kind := Some Standard, rs_profiler_port := None,
           rs_launch_provenance := Some provenance\<rparr>)"

definition set_profiled_game_process ::
    "nat \<Rightarrow> 16 word \<Rightarrow> 16 word \<Rightarrow> 'p \<Rightarrow> 'p runtime_state \<Rightarrow> 'p runtime_state" where
  "set_profiled_game_process process port profiler_port provenance rs =
     (set_game_process process port provenance rs)
       \<lparr>rs_kind := Some Tracy, rs_profiler_port := Some profiler_port\<rparr>"

text \<open>The new output log is created at \<open>now\<close> with the identity \<open>session\<close>.\<close>

definition clear_runtime_diagnostics :: "nat \<Rightarrow> nat \<Rightarrow> 'p runtime_state \<Rightarrow> 'p runtime_state" where
  "clear_runtime_diagnostics now session rs =
     (let rs = abort_runtime_output_tasks rs;
          rs = effect (opt_list AbortTask (rs_runtime_observer rs)) (rs\<lparr>rs_runtime_observer := None\<rparr>)
      in rs\<lparr>rs_output_log := output_buffer_default now, rs_session := session,
            rs_last_exit_code := None\<rparr>)"

definition add_runtime_output_task :: "nat \<Rightarrow> 'p runtime_state \<Rightarrow> 'p runtime_state" where
  "add_runtime_output_task task rs =
     rs\<lparr>rs_runtime_output_tasks := rs_runtime_output_tasks rs @ [task]\<rparr>"

text \<open>The answer of \<open>try_wait\<close>: an exit with its code, still running, or an error.\<close>

datatype wait_answer = Exited "int option" | StillRunning | WaitFailed

definition forget_process :: "'p runtime_state \<Rightarrow> 'p runtime_state" where
  "forget_process rs =
     publish_process_status False
       (effect (opt_list RequestTermination (rs_containment rs))
         (rs\<lparr>rs_game_process := None, rs_game_port := None, rs_kind := None, rs_profiler_port := None\<rparr>))"

definition is_game_running :: "wait_answer \<Rightarrow> 'p runtime_state \<Rightarrow> bool \<times> 'p runtime_state" where
  "is_game_running answer rs =
     (case rs_game_process rs of None \<Rightarrow> (False, rs)
      | Some _ \<Rightarrow>
          (case answer of
             Exited code \<Rightarrow> (False, forget_process (rs\<lparr>rs_last_exit_code := code\<rparr>))
           | StillRunning \<Rightarrow> (True, rs)
           | WaitFailed \<Rightarrow> (False, forget_process rs)))"

record 'p runtime_status =
  rt_running :: bool
  rt_kind :: "runtime_kind option"
  rt_game_port :: "16 word option"
  rt_profiler_port :: "16 word option"
  rt_last_exit_code :: "int option"
  rt_recent_output_lines :: u64
  rt_launch_provenance :: "'p option"

definition status_summary :: "wait_answer \<Rightarrow> 'p runtime_state \<Rightarrow> 'p runtime_status \<times> 'p runtime_state" where
  "status_summary answer rs =
     (case is_game_running answer rs of (running, rs) \<Rightarrow>
        (\<lparr>rt_running = running, rt_kind = rs_kind rs, rt_game_port = rs_game_port rs,
          rt_profiler_port = rs_profiler_port rs, rt_last_exit_code = rs_last_exit_code rs,
          rt_recent_output_lines = word_of_nat (length (ob_entries (rs_output_log rs))),
          rt_launch_provenance = rs_launch_provenance rs\<rparr>, rs))"

text \<open>
  The loop of \<open>finish_runtime_cleanup\<close>: \<open>polls i\<close> is the answer of \<open>is_terminated\<close> at the
  \<open>i\<close>-th turn and the time its deadline check reads.
\<close>

partial_function (option) await_termination ::
    "(nat \<Rightarrow> (string + bool) \<times> nat) \<Rightarrow> nat \<Rightarrow> nat \<Rightarrow> (string + unit) option" where
  "await_termination polls deadline i =
     (case polls i of
        (Inl e, _) \<Rightarrow> Some (Inl e)
      | (Inr terminated, now) \<Rightarrow>
          if terminated then Some (Inr ())
          else if now < deadline then await_termination polls deadline (Suc i)
          else Some (Inl ''runtime containment cleanup timed out''))"

record cleanup_answers =
  ca_request :: "string + unit"
  ca_started :: nat
  ca_polls :: "nat \<Rightarrow> (string + bool) \<times> nat"

text \<open>Two seconds, in milliseconds.\<close>

definition CLEANUP_WINDOW :: nat where
  "CLEANUP_WINDOW = 2000"

definition finish_runtime_cleanup ::
    "cleanup_answers \<Rightarrow> 'p runtime_state \<Rightarrow> ((string + unit) \<times> 'p runtime_state) option" where
  "finish_runtime_cleanup a rs =
     (case rs_containment rs of None \<Rightarrow> Some (Inr (), rs)
      | Some c \<Rightarrow>
          let rs = effect [RequestTermination c] rs in
          case ca_request a of Inl e \<Rightarrow> Some (Inl e, rs)
          | Inr _ \<Rightarrow>
              Option.bind (await_termination (ca_polls a) (ca_started a + CLEANUP_WINDOW) 0) (\<lambda>r.
                Some (case r of Inl e \<Rightarrow> (Inl e, rs) | Inr _ \<Rightarrow> (Inr (), rs\<lparr>rs_containment := None\<rparr>))))"

record stop_answers =
  sa_request :: "string + unit"
  sa_kill :: "string + unit"
  sa_wait :: "string + int option"
  sa_cleanup :: cleanup_answers

text \<open>Killing and reaping the process: the handle is taken before \<open>kill\<close> may fail.\<close>

definition kill_game_process ::
    "stop_answers \<Rightarrow> 'p runtime_state \<Rightarrow> (string + unit) \<times> 'p runtime_state" where
  "kill_game_process a rs =
     (case rs_game_process rs of None \<Rightarrow> (Inr (), rs)
      | Some p \<Rightarrow>
          let rs = effect [KillProcess p] (rs\<lparr>rs_game_process := None\<rparr>) in
          case sa_kill a of Inl e \<Rightarrow> (Inl e, rs)
          | Inr _ \<Rightarrow>
              (case sa_wait a of Inl e \<Rightarrow> (Inl e, rs)
               | Inr code \<Rightarrow> (Inr (), rs\<lparr>rs_last_exit_code := code\<rparr>)))"

definition stop_finished :: "'p runtime_state \<Rightarrow> 'p runtime_state" where
  "stop_finished rs = publish_process_status False
     ((abort_runtime_output_tasks rs)\<lparr>rs_game_port := None, rs_kind := None, rs_profiler_port := None\<rparr>)"

definition stop_game_process ::
    "stop_answers \<Rightarrow> 'p runtime_state \<Rightarrow> ((string + unit) \<times> 'p runtime_state) option" where
  "stop_game_process a rs =
     (let rs = effect (opt_list RequestTermination (rs_containment rs)) rs in
      if rs_containment rs \<noteq> None \<and> sa_request a \<noteq> Inr ()
      then Some (sa_request a, rs)
      else case kill_game_process a rs of (Inl e, rs) \<Rightarrow> Some (Inl e, rs)
      | (Inr _, rs) \<Rightarrow>
          Option.bind (finish_runtime_cleanup (sa_cleanup a) rs) (\<lambda>(r, rs).
            case r of Inl e \<Rightarrow> Some (Inl e, rs) | Inr _ \<Rightarrow> Some (Inr (), stop_finished rs)))"

definition drop_runtime :: "'p runtime_state \<Rightarrow> 'p runtime_state" where
  "drop_runtime rs =
     (let rs = effect (opt_list Terminate (rs_containment rs)) (rs\<lparr>rs_containment := None\<rparr>);
          rs = effect (opt_list KillProcess (rs_game_process rs)) rs;
          rs = publish_process_status False (abort_runtime_output_tasks rs);
          rs = effect (opt_list AbortTask (rs_runtime_observer rs)) (rs\<lparr>rs_runtime_observer := None\<rparr>)
      in effect (opt_list AbortTask (rs_integrity_task rs)) (rs\<lparr>rs_integrity_task := None\<rparr>))"

text \<open>
  Starting the observer of a session, and one turn of its loop; \<open>exited_at\<close> is when it first
  saw the game gone.  It ends when the result is \<open>None\<close>.
\<close>

definition observe_runtime :: "nat \<Rightarrow> bool \<Rightarrow> 'p runtime_state \<Rightarrow> 'p runtime_state" where
  "observe_runtime task finished rs =
     (if rs_runtime_observer rs \<noteq> None \<and> \<not> finished then rs
      else rs\<lparr>rs_runtime_observer := Some task\<rparr>)"

definition observer_turn ::
    "nat \<Rightarrow> wait_answer \<Rightarrow> nat \<Rightarrow> nat option \<Rightarrow> 'p runtime_state \<Rightarrow> nat option option \<times> 'p runtime_state"
  where
  "observer_turn session answer now exited_at rs =
     (if session \<noteq> rs_session rs then (None, rs)
      else case is_game_running answer rs of
        (True, rs) \<Rightarrow> (Some exited_at, rs)
      | (False, rs) \<Rightarrow>
          let since = (case exited_at of Some t \<Rightarrow> t | None \<Rightarrow> now) in
          if now - since < 100 then (Some (Some since), rs)
          else (None, abort_runtime_output_tasks rs))"

section \<open>The Tracy capture window\<close>

datatype capture_start_error = CaptureActive | PhaseAlreadyUsed

type_synonym phase_key = "string \<times> 32 word"

text \<open>The fields the operations of \<open>TracyCaptureState\<close> change.\<close>

record tracy_capture =
  tc_active :: bool
  tc_used_phases :: "phase_key list"
  tc_diagnostic_records :: "string list"
  tc_integrity_owned_paths :: "path list"

definition tracy_capture_default :: tracy_capture where
  "tracy_capture_default = \<lparr>tc_active = False, tc_used_phases = [], tc_diagnostic_records = [],
     tc_integrity_owned_paths = []\<rparr>"

definition begin_capture ::
    "string \<Rightarrow> 32 word \<Rightarrow> tracy_capture \<Rightarrow> (capture_start_error + unit) \<times> tracy_capture" where
  "begin_capture phase iteration t =
     (if tc_active t then (Inl CaptureActive, t)
      else if (phase, iteration) \<in> set (tc_used_phases t) then (Inl PhaseAlreadyUsed, t)
      else (Inr (), t\<lparr>tc_active := True\<rparr>))"

definition finish_capture :: "string \<Rightarrow> 32 word \<Rightarrow> bool \<Rightarrow> tracy_capture \<Rightarrow> tracy_capture" where
  "finish_capture phase iteration window_started t =
     (let t = t\<lparr>tc_active := False\<rparr> in
      if window_started then t\<lparr>tc_used_phases := List.insert (phase, iteration) (tc_used_phases t)\<rparr> else t)"

definition record_diagnostic :: "string \<Rightarrow> path list \<Rightarrow> tracy_capture \<Rightarrow> tracy_capture" where
  "record_diagnostic diagnostic owned_paths t =
     t\<lparr>tc_diagnostic_records := tc_diagnostic_records t @ [diagnostic],
       tc_integrity_owned_paths := tc_integrity_owned_paths t @ owned_paths\<rparr>"

section \<open>Publication\<close>

datatype 'c analysis_event =
    Install "'c snapshot"
  | InstallBefore bool nat nat "'c snapshot"
  | Clear

text \<open>The server after an event, and the snapshots published so far.\<close>

fun apply_analysis_event ::
    "'c analysis_event \<Rightarrow> 'c analysis_server \<times> 'c snapshot list \<Rightarrow> 'c analysis_server \<times> 'c snapshot list" where
  "apply_analysis_event (Install b) (sv, ps) = (case install_analysis b sv of (s, sv) \<Rightarrow> (sv, ps @ [s]))"
| "apply_analysis_event (InstallBefore locked now deadline b) (sv, ps) =
     (case install_analysis_before_deadline locked now deadline b sv of
        (Some s, sv) \<Rightarrow> (sv, ps @ [s]) | (None, sv) \<Rightarrow> (sv, ps))"
| "apply_analysis_event Clear (sv, ps) = (clear_analysis sv, ps)"

definition generation_number :: "nat \<Rightarrow> nat" where
  "generation_number n = min n (2 ^ 64 - 1)"

definition analysis_inv :: "'c analysis_server \<times> 'c snapshot list \<Rightarrow> bool" where
  "analysis_inv s \<longleftrightarrow> (case s of (sv, ps) \<Rightarrow>
     am_generation (sv_metadata sv) = as_generation (sv_analysis sv)
     \<and> am_active_environment (sv_metadata sv) = map_option sn_environment_path (as_active (sv_analysis sv))
     \<and> unat (as_generation (sv_analysis sv)) = generation_number (length ps)
     \<and> (\<forall>a. as_active (sv_analysis sv) = Some a \<longrightarrow> ps \<noteq> [] \<and> a = last ps)
     \<and> (\<forall>i < length ps. unat (sn_generation (ps ! i)) = generation_number (Suc i)))"

lemma generation_step:
  "unat g = generation_number n \<Longrightarrow> unat (sat_add64 g 1) = generation_number (Suc n)"
  by (simp add: unat_sat_add64 generation_number_def)

lemma publish_inv:
  assumes "analysis_inv (sv, ps)" "publish_analysis b sv = (s, previous, sv')"
  shows "analysis_inv (sv', ps @ [s])"
  using assms generation_step[of "as_generation (sv_analysis sv)" "length ps"]
  by (auto simp: analysis_inv_def publish_analysis_def Let_def nth_append less_Suc_eq)

lemma analysis_event_inv: "analysis_inv s \<Longrightarrow> analysis_inv (apply_analysis_event e s)"
proof (cases s)
  case (Pair sv ps)
  assume inv: "analysis_inv s"
  show ?thesis
  proof (cases e)
    case (Install b)
    obtain x previous sv' where p: "publish_analysis (b\<lparr>sn_generation := 0\<rparr>) sv = (x, previous, sv')"
      by (metis prod_cases3)
    then show ?thesis
      using publish_inv[OF inv[unfolded Pair] p] by (simp add: Pair Install install_analysis_def)
  next
    case (InstallBefore locked now deadline b)
    obtain x previous sv' where p: "publish_analysis b sv = (x, previous, sv')"
      by (metis prod_cases3)
    then show ?thesis
      using publish_inv[OF inv[unfolded Pair] p] inv
      by (simp add: Pair InstallBefore install_analysis_before_deadline_def)
  next
    case Clear
    then show ?thesis using inv by (simp add: Pair analysis_inv_def clear_analysis_def)
  qed
qed

text \<open>
  After any sequence of publications, missed deadlines and clearings, the metadata read
  without the analysis lock agrees with the analysis: it names the active environment and the
  generation; the active snapshot is the last one published; and the \<open>i\<close>-th publication has
  generation \<open>i\<close> up to the largest 64-bit number, where it stays.
\<close>

lemma analysis_publication_consistent:
  "case fold apply_analysis_event es (analysis_server_new, []) of (sv, ps) \<Rightarrow>
     sv_metadata sv = \<lparr>am_active_environment = map_option sn_environment_path (active_snapshot sv),
       am_generation = state_generation sv\<rparr>
     \<and> snapshot_of sv \<in> {Inl ParseRequired, Inr (last ps)}
     \<and> map (unat \<circ> sn_generation) ps = map (\<lambda>i. min i (2 ^ 64 - 1)) [1..<Suc (length ps)]
     \<and> unat (state_generation sv) = min (length ps) (2 ^ 64 - 1)"
proof -
  have "analysis_inv (fold apply_analysis_event es s)" if "analysis_inv s" for s :: "'a analysis_server \<times> 'a snapshot list"
    using that by (induction es arbitrary: s) (simp_all add: analysis_event_inv)
  moreover have "analysis_inv (analysis_server_new, [])"
    by (simp add: analysis_inv_def analysis_server_new_def generation_number_def)
  ultimately have "analysis_inv (fold apply_analysis_event es (analysis_server_new, []))" by blast
  moreover obtain sv ps where run: "fold apply_analysis_event es (analysis_server_new, []) = (sv, ps)"
    by fastforce
  ultimately have inv: "analysis_inv (sv, ps)" by simp
  have "map (unat \<circ> sn_generation) ps = map (\<lambda>i. min i (2 ^ 64 - 1)) [1..<Suc (length ps)]"
  proof (rule nth_equalityI)
    fix i
    assume "i < length (map (unat \<circ> sn_generation) ps)"
    then have "i < length ps" by simp
    then have "unat (sn_generation (ps ! i)) = generation_number (Suc i)"
      "[1..<Suc (length ps)] ! i = Suc i"
      using inv nth_upt[of 1 i "Suc (length ps)"] by (simp_all add: analysis_inv_def del: upt_Suc)
    then show "map (unat \<circ> sn_generation) ps ! i = map (\<lambda>i. min i (2 ^ 64 - 1)) [1..<Suc (length ps)] ! i"
      using \<open>i < length ps\<close> by (simp add: generation_number_def del: upt_Suc)
  qed (simp del: upt_Suc)
  moreover have "snapshot_of sv \<in> {Inl ParseRequired, Inr (last ps)}"
    using inv by (cases "as_active (sv_analysis sv)")
      (auto simp: analysis_inv_def snapshot_of_def or_err_def)
  ultimately show ?thesis
    using inv by (simp add: run analysis_inv_def generation_number_def active_snapshot_def state_generation_def)
qed

section \<open>The life of a game\<close>

text \<open>
  The states the server reaches: a launch happens only after the previous process was found
  gone, on fresh diagnostics.  Output tasks push lines into the log of their session.
\<close>

inductive runtime_reachable :: "'p runtime_state \<Rightarrow> bool" where
  start: "runtime_reachable (runtime_new now session)"
| launch: "runtime_reachable rs \<Longrightarrow> is_game_running answer rs = (False, rs')
    \<Longrightarrow> rs'' = (clear_runtime_diagnostics now session rs')\<lparr>rs_containment := Some c\<rparr>
    \<Longrightarrow> runtime_reachable (set_game_process p port prov rs'')"
| launch_profiled: "runtime_reachable rs \<Longrightarrow> is_game_running answer rs = (False, rs')
    \<Longrightarrow> rs'' = (clear_runtime_diagnostics now session rs')\<lparr>rs_containment := Some c\<rparr>
    \<Longrightarrow> runtime_reachable (set_profiled_game_process p port profiler prov rs'')"
| add_task: "runtime_reachable rs \<Longrightarrow> runtime_reachable (add_runtime_output_task t rs)"
| observe: "runtime_reachable rs \<Longrightarrow> runtime_reachable (observe_runtime t finished rs)"
| observer: "runtime_reachable rs \<Longrightarrow> observer_turn session answer now since rs = (r, rs')
    \<Longrightarrow> runtime_reachable rs'"
| print_line: "runtime_reachable rs
    \<Longrightarrow> runtime_reachable (rs\<lparr>rs_output_log := push_output_line_at (rs_output_log rs) offset line\<rparr>)"
| poll: "runtime_reachable rs \<Longrightarrow> is_game_running answer rs = (r, rs') \<Longrightarrow> runtime_reachable rs'"
| cleanup: "runtime_reachable rs \<Longrightarrow> finish_runtime_cleanup a rs = Some (r, rs') \<Longrightarrow> runtime_reachable rs'"
| stop: "runtime_reachable rs \<Longrightarrow> stop_game_process a rs = Some (Inr (), rs') \<Longrightarrow> runtime_reachable rs'"

definition runtime_inv :: "'p runtime_state \<Rightarrow> bool" where
  "runtime_inv rs \<longleftrightarrow>
     (rs_game_process rs = None \<longleftrightarrow> rs_game_port rs = None) \<and> (rs_game_process rs = None \<longleftrightarrow> rs_kind rs = None)
     \<and> (rs_profiler_port rs = None \<longleftrightarrow> rs_kind rs \<noteq> Some Tracy)
     \<and> ob_running (rs_output_log rs) = (rs_game_process rs \<noteq> None)
     \<and> ob_last_exit_code (rs_output_log rs) = rs_last_exit_code rs"

lemmas runtime_ops = effect_def publish_process_status_def abort_runtime_output_tasks_def
  set_game_process_def set_profiled_game_process_def clear_runtime_diagnostics_def
  add_runtime_output_task_def forget_process_def stop_finished_def Let_def

lemma is_game_running_inv:
  assumes "runtime_inv rs" "is_game_running answer rs = (r, rs')"
  shows "runtime_inv rs' \<and> (r \<longleftrightarrow> rs_game_process rs' \<noteq> None) \<and> rs_session rs' = rs_session rs"
  using assms
  by (auto simp: is_game_running_def runtime_inv_def runtime_ops split: option.splits wait_answer.splits)

lemma abort_inv: "runtime_inv rs \<Longrightarrow> runtime_inv (abort_runtime_output_tasks rs)"
  by (auto simp: runtime_inv_def runtime_ops)

lemma cleanup_fields:
  assumes "finish_runtime_cleanup a rs = Some (r, rs')"
  shows "rs_game_process rs' = rs_game_process rs \<and> rs_game_port rs' = rs_game_port rs
    \<and> rs_kind rs' = rs_kind rs \<and> rs_profiler_port rs' = rs_profiler_port rs
    \<and> rs_output_log rs' = rs_output_log rs \<and> rs_last_exit_code rs' = rs_last_exit_code rs
    \<and> rs_runtime_output_tasks rs' = rs_runtime_output_tasks rs
    \<and> (r = Inr () \<longrightarrow> rs_containment rs' = None)"
proof (cases "rs_containment rs")
  case None
  then show ?thesis using assms by (simp add: finish_runtime_cleanup_def)
next
  case (Some c)
  note c = Some
  show ?thesis
  proof (cases "ca_request a")
    case (Inl e)
    then show ?thesis using assms c by (auto simp: finish_runtime_cleanup_def effect_def)
  next
    case (Inr u)
    obtain w where w: "await_termination (ca_polls a) (ca_started a + CLEANUP_WINDOW) 0 = Some w"
      using assms c Inr by (cases "await_termination (ca_polls a) (ca_started a + CLEANUP_WINDOW) 0")
        (simp_all add: finish_runtime_cleanup_def)
    then show ?thesis
      using assms c Inr by (cases w) (auto simp: finish_runtime_cleanup_def effect_def)
  qed
qed

lemma stop_Inr:
  assumes "stop_game_process a rs = Some (Inr (), rs')"
  obtains rs1 where "rs_game_process rs1 = None" "rs_containment rs1 = None"
    "rs_runtime_output_tasks rs1 = rs_runtime_output_tasks rs" "rs_output_log rs1 = rs_output_log rs"
    "rs' = stop_finished rs1"
proof -
  let ?rs = "effect (opt_list RequestTermination (rs_containment rs)) rs"
  obtain r1 rs1 where kill: "kill_game_process a ?rs = (r1, rs1)" by fastforce
  have killed: "r1 = Inr () \<Longrightarrow> rs_game_process rs1 = None"
    "rs_runtime_output_tasks rs1 = rs_runtime_output_tasks rs" "rs_output_log rs1 = rs_output_log rs"
    using kill by (auto simp: kill_game_process_def effect_def Let_def
        split: option.split_asm sum.split_asm)
  from assms kill obtain r2 rs2 where clean: "r1 = Inr ()" "finish_runtime_cleanup (sa_cleanup a) rs1 = Some (r2, rs2)"
    "Some (Inr (), rs') = (case r2 of Inl e \<Rightarrow> Some (Inl e, rs2) | Inr _ \<Rightarrow> Some (Inr (), stop_finished rs2))"
    by (cases r1) (auto simp: stop_game_process_def Let_def bind_eq_Some_conv split: if_split_asm)
  then have "r2 = Inr ()" "rs' = stop_finished rs2" by (cases r2; simp)+
  then show thesis using that[of rs2] killed clean cleanup_fields[OF clean(2)] by simp
qed

lemma stop_inv: "stop_game_process a rs = Some (Inr (), rs') \<Longrightarrow> runtime_inv rs'"
  by (erule stop_Inr) (simp add: runtime_inv_def runtime_ops)

lemma observer_turn_inv:
  assumes "runtime_inv rs" "observer_turn session answer now since rs = (r, rs')"
  shows "runtime_inv rs'"
proof (cases "session = rs_session rs")
  case False
  then show ?thesis using assms by (simp add: observer_turn_def)
next
  case True
  obtain b rs1 where run: "is_game_running answer rs = (b, rs1)" by fastforce
  with assms(1) have "runtime_inv rs1" using is_game_running_inv by blast
  then show ?thesis
    using assms(2) True by (auto simp: observer_turn_def run Let_def abort_inv split: if_splits bool.splits)
qed

lemma runtime_state_inv: "runtime_reachable rs \<Longrightarrow> runtime_inv rs"
proof (induction rule: runtime_reachable.induct)
  case (poll rs answer r rs')
  then show ?case using is_game_running_inv by blast
next
  case (observer rs session answer now since r rs')
  then show ?case using observer_turn_inv by blast
next
  case (cleanup rs a r rs')
  then show ?case using cleanup_fields[OF cleanup(2)] by (auto simp: runtime_inv_def)
next
  case (stop rs a rs')
  then show ?case using stop_inv by blast
next
  case (observe rs t finished)
  then show ?case by (auto simp: observe_runtime_def runtime_inv_def)
next
  case (print_line rs offset line)
  then show ?case by (auto simp: runtime_inv_def push_output_line_at_def Let_def)
qed (auto simp: runtime_inv_def runtime_new_def output_buffer_default_def runtime_ops)

text \<open>
  In every state the server reaches, the fields that describe the game agree: there is a
  process exactly when there is a port, a kind and a log that says it is running; a profiler
  port exactly when the kind is Tracy; and the log's exit code is the state's.
\<close>

lemma runtime_state_consistent:
  assumes "runtime_reachable rs"
  shows "(rs_game_process rs = None \<longleftrightarrow> rs_game_port rs = None)
    \<and> (rs_game_process rs = None \<longleftrightarrow> rs_kind rs = None)
    \<and> (rs_profiler_port rs \<noteq> None \<longleftrightarrow> rs_kind rs = Some Tracy)
    \<and> ob_running (rs_output_log rs) = (rs_game_process rs \<noteq> None)
    \<and> ob_last_exit_code (rs_output_log rs) = rs_last_exit_code rs"
  using runtime_state_inv[OF assms] by (auto simp: runtime_inv_def)

section \<open>Stopping\<close>

lemma await_termination_returns:
  assumes "\<And>i. snd (polls i) + 5 \<le> snd (polls (Suc i))"
  shows "await_termination polls deadline i \<noteq> None"
proof (induction "deadline - snd (polls i)" arbitrary: i rule: less_induct)
  case less
  have "await_termination polls deadline (Suc i) \<noteq> None" if "snd (polls i) < deadline"
    using less[of "Suc i"] assms[of i] that by linarith
  then show ?case
    by (subst await_termination.simps) (auto split: prod.splits sum.splits)
qed

lemma await_termination_Inr:
  assumes "await_termination polls deadline i = Some (Inr ())"
  shows "\<exists>j \<ge> i. fst (polls j) = Inr True"
proof -
  let ?P = "\<lambda>(polls :: nat \<Rightarrow> (string + bool) \<times> nat) (deadline :: nat) i (r :: string + unit). r = Inr () \<longrightarrow> (\<exists>j \<ge> i. fst (polls j) = Inr True)"
  have "?P polls deadline i (Inr ())"
  proof (rule await_termination.raw_induct[where P = ?P, OF _ assms])
    fix f polls' deadline' i' r
    assume ih: "\<And>polls deadline i r. f polls deadline i = Some r \<Longrightarrow> ?P polls deadline i r"
      and body: "(case polls' i' of (Inl e, x) \<Rightarrow> Some (Inl e)
        | (Inr terminated, now) \<Rightarrow> if terminated then Some (Inr ())
            else if now < deadline' then f polls' deadline' (Suc i')
            else Some (Inl ''runtime containment cleanup timed out'')) = Some r"
    obtain x now where p: "polls' i' = (x, now)" by fastforce
    show "?P polls' deadline' i' r"
    proof (intro impI, cases "x = Inr True")
      case True
      then show "\<exists>j \<ge> i'. fst (polls' j) = Inr True" using p by force
    next
      case False
      assume "r = Inr ()"
      with body p False have "f polls' deadline' (Suc i') = Some (Inr ())"
        by (cases x; cases "now < deadline'") (auto split: if_split_asm)
      from ih[OF this] obtain j where "Suc i' \<le> j" "fst (polls' j) = Inr True" by blast
      then show "\<exists>j \<ge> i'. fst (polls' j) = Inr True" by (intro exI[of _ j]) simp
    qed
  qed
  then show ?thesis by simp
qed

lemma finish_runtime_cleanup_returns:
  assumes "\<And>i. snd (ca_polls a i) + 5 \<le> snd (ca_polls a (Suc i))"
  shows "\<exists>r rs'. finish_runtime_cleanup a rs = Some (r, rs')"
proof -
  obtain w where w: "await_termination (ca_polls a) (ca_started a + CLEANUP_WINDOW) 0 = Some w"
    using await_termination_returns[of "ca_polls a"] assms by blast
  then show ?thesis
    by (cases "rs_containment rs"; cases "ca_request a"; cases w) (simp_all add: finish_runtime_cleanup_def Let_def)
qed

text \<open>
  Stopping a game always returns, because its clean-up loop sleeps at least five
  milliseconds between polls and gives up after two seconds; when it succeeds the game is
  gone (process killed and reaped, containment observed terminated, every output task
  aborted, port and kind cleared, the log closed), and when it fails it says so.
\<close>

lemma stop_game_process_returns:
  assumes "\<And>i. snd (ca_polls (sa_cleanup a) i) + 5 \<le> snd (ca_polls (sa_cleanup a) (Suc i))"
  shows "\<exists>r rs'. stop_game_process a rs = Some (r, rs') \<and>
    (r = Inr () \<longrightarrow>
       rs_game_process rs' = None \<and> rs_containment rs' = None \<and> rs_game_port rs' = None
       \<and> rs_kind rs' = None \<and> rs_profiler_port rs' = None \<and> rs_runtime_output_tasks rs' = []
       \<and> \<not> ob_running (rs_output_log rs') \<and> ob_drained (rs_output_log rs')
       \<and> AbortTask ` set (rs_runtime_output_tasks rs) \<subseteq> set (rs_effects rs')
       \<and> ob_entries (rs_output_log rs') = ob_entries (rs_output_log rs))"
proof -
  let ?rs = "effect (opt_list RequestTermination (rs_containment rs)) rs"
  obtain r1 rs1 where kill: "kill_game_process a ?rs = (r1, rs1)" by fastforce
  obtain r2 rs2 where clean: "finish_runtime_cleanup (sa_cleanup a) rs1 = Some (r2, rs2)"
    using finish_runtime_cleanup_returns assms by blast
  have "\<exists>r rs'. stop_game_process a rs = Some (r, rs')"
    by (cases r1; cases r2) (simp_all add: stop_game_process_def Let_def kill clean)
  then obtain r rs' where run: "stop_game_process a rs = Some (r, rs')" by blast
  have "rs_game_process rs' = None \<and> rs_containment rs' = None \<and> rs_game_port rs' = None
       \<and> rs_kind rs' = None \<and> rs_profiler_port rs' = None \<and> rs_runtime_output_tasks rs' = []
       \<and> \<not> ob_running (rs_output_log rs') \<and> ob_drained (rs_output_log rs')
       \<and> AbortTask ` set (rs_runtime_output_tasks rs) \<subseteq> set (rs_effects rs')
       \<and> ob_entries (rs_output_log rs') = ob_entries (rs_output_log rs)" if "r = Inr ()"
    using run[unfolded that] by (rule stop_Inr) (auto simp: runtime_ops)
  with run show ?thesis by blast
qed

text \<open>
  C13. When killing the game fails, stopping it fails and leaves a state that contradicts
  itself for good: the process handle is gone, so every later look at the game finds it not
  running, but the port, the kind and the log still describe a running game.
\<close>

theorem failed_kill_forgets_process:
  assumes "runtime_reachable rs" "rs_game_process rs = Some p"
    and "sa_request a = Inr ()" "sa_kill a = Inl e"
  shows "\<exists>rs'. stop_game_process a rs = Some (Inl e, rs')
    \<and> (\<forall>answer. is_game_running answer rs' = (False, rs'))
    \<and> rs_game_port rs' = rs_game_port rs \<and> rs_game_port rs' \<noteq> None \<and> rs_kind rs' \<noteq> None
    \<and> ob_running (rs_output_log rs')"
  using runtime_state_inv[OF assms(1)] assms(2-)
  by (auto simp: stop_game_process_def Let_def kill_game_process_def effect_def is_game_running_def runtime_inv_def)

text \<open>Dropping the state releases everything it owns.\<close>

lemma drop_runtime_releases:
  "set (opt_list Terminate (rs_containment rs)) \<union> set (opt_list KillProcess (rs_game_process rs))
     \<union> AbortTask ` set (rs_runtime_output_tasks rs)
     \<union> set (opt_list AbortTask (rs_runtime_observer rs)) \<union> set (opt_list AbortTask (rs_integrity_task rs))
   \<subseteq> set (rs_effects (drop_runtime rs))"
  by (auto simp: drop_runtime_def runtime_ops)

section \<open>Capture windows\<close>

text \<open>
  A window is open from a successful \<open>begin_capture\<close> to the \<open>finish_capture\<close> of the same
  phase and iteration; attempts to begin another may come in between.
\<close>

inductive capture_run :: "tracy_capture \<Rightarrow> phase_key option \<Rightarrow> phase_key list \<Rightarrow> bool" where
  fresh: "capture_run tracy_capture_default None []"
| begun: "capture_run t w ks \<Longrightarrow> begin_capture phase iteration t = (Inr (), t')
    \<Longrightarrow> capture_run t' (Some (phase, iteration)) ks"
| refused: "capture_run t w ks \<Longrightarrow> begin_capture phase iteration t = (Inl e, t') \<Longrightarrow> capture_run t' w ks"
| finished: "capture_run t (Some (phase, iteration)) ks
    \<Longrightarrow> capture_run (finish_capture phase iteration window_started t) None
          (if window_started then ks @ [(phase, iteration)] else ks)"
| diagnosed: "capture_run t w ks \<Longrightarrow> capture_run (record_diagnostic d ps t) w ks"

lemma begin_capture_Inr:
  "begin_capture phase iteration t = (Inr (), t') \<longleftrightarrow>
     \<not> tc_active t \<and> (phase, iteration) \<notin> set (tc_used_phases t) \<and> t' = t\<lparr>tc_active := True\<rparr>"
  by (auto simp: begin_capture_def)

lemma begin_capture_Inl: "begin_capture phase iteration t = (Inl e, t') \<Longrightarrow> t' = t"
  by (auto simp: begin_capture_def split: if_splits)

text \<open>
  Within one experiment the completed capture windows have distinct phases and
  iterations, at most one window is open at a time, and a window is admitted exactly when none
  is open and its phase and iteration were not completed before.
\<close>

lemma capture_windows_unique:
  assumes "capture_run t w ks"
  shows "distinct ks \<and> set (tc_used_phases t) = set ks \<and> (tc_active t \<longleftrightarrow> w \<noteq> None)
    \<and> (\<forall>phase iteration. (\<exists>t'. begin_capture phase iteration t = (Inr (), t'))
         \<longleftrightarrow> w = None \<and> (phase, iteration) \<notin> set ks)"
proof -
  have "distinct ks \<and> set (tc_used_phases t) = set ks \<and> (tc_active t \<longleftrightarrow> w \<noteq> None)
      \<and> (\<forall>k. w = Some k \<longrightarrow> k \<notin> set ks)"
    using assms
  proof (induction rule: capture_run.induct)
    case fresh
    then show ?case by (simp add: tracy_capture_default_def)
  next
    case (begun t w ks phase iteration t')
    then show ?case by (auto simp: begin_capture_Inr)
  next
    case (refused t w ks phase iteration e t')
    then show ?case using begin_capture_Inl[OF refused(2)] by simp
  next
    case (finished t phase iteration ks window_started)
    then show ?case by (auto simp: finish_capture_def Let_def)
  next
    case (diagnosed t w ks d ps)
    then show ?case by (simp add: record_diagnostic_def)
  qed
  then show ?thesis by (cases w) (simp_all add: begin_capture_Inr)
qed

section \<open>Witnesses\<close>

definition demo_running :: "nat runtime_state" where
  "demo_running = set_profiled_game_process 7 1337 8086 0
     ((clear_runtime_diagnostics 0 1 (runtime_new 0 0))\<lparr>rs_containment := Some 3\<rparr>)"

lemma demo_running: "runtime_reachable demo_running"
  unfolding demo_running_def
  by (rule launch_profiled[OF start[of 0 0], of WaitFailed]) (simp_all add: is_game_running_def runtime_new_def)

definition demo_stop :: "string + unit \<Rightarrow> stop_answers" where
  "demo_stop killed = \<lparr>sa_request = Inr (), sa_kill = killed, sa_wait = Inr (Some 0),
     sa_cleanup = \<lparr>ca_request = Inr (), ca_started = 0, ca_polls = (\<lambda>i. (Inr (i = 2), 5 * i))\<rparr>\<rparr>"

lemma runtime_state_consistent_witness:
  "rs_game_port demo_running = Some 1337 \<and> rs_kind demo_running \<noteq> None"
  using runtime_state_consistent[OF demo_running] by (simp add: demo_running_def runtime_ops)

lemma stop_game_process_returns_witness:
  "\<exists>r rs'. stop_game_process (demo_stop (Inr ())) demo_running = Some (r, rs')"
  using stop_game_process_returns[of "demo_stop (Inr ())" demo_running] by (auto simp: demo_stop_def)

theorem failed_kill_forgets_process_witness:
  "\<exists>rs'. stop_game_process (demo_stop (Inl ''denied'')) demo_running = Some (Inl ''denied'', rs')
     \<and> rs_kind rs' \<noteq> None \<and> ob_running (rs_output_log rs')"
  using failed_kill_forgets_process[OF demo_running, of 7 "demo_stop (Inl ''denied'')" "''denied''"]
  by (auto simp: demo_stop_def demo_running_def runtime_ops)

lemma capture_windows_unique_witness:
  "\<exists>t. begin_capture ''p'' 1 tracy_capture_default = (Inr (), t) \<and> tc_active t"
proof -
  have "begin_capture ''p'' 1 tracy_capture_default = (Inr (), tracy_capture_default\<lparr>tc_active := True\<rparr>)"
    by (simp add: begin_capture_def tracy_capture_default_def)
  with capture_windows_unique[OF begun[OF fresh this]] show ?thesis by blast
qed

end
