(* ===== verification/Topic_Packet.thy ===== *)
theory Topic_Packet
  imports Byte_Codec Text_Ops
begin

text \<open>
  The packets of a \<open>Topic\<close> call, from \<open>src/tools/runtime.rs\<close>: \<open>build_topic_packet\<close>,
  \<open>decode_topic_response\<close> and the exchange of \<open>send_topic\<close>.  The server is a parameter: which of
  the calls on the socket fail, and the bytes that can be read once the packet is written.
  \<open>f32::to_string\<close> is a parameter.
\<close>

datatype topic_error =
    TopicTooLong
  | TopicIo string
  | InvalidResponseHeader
  | ResponseCutShort
  | EmptyTopicResponse
  | TruncatedFloat
  | UnknownResponseType nat

record topic_server =
  tp_connect :: "string option"
  tp_timeouts :: "string option"
  tp_write :: "string \<Rightarrow> string option"
  tp_reply :: "string \<Rightarrow> string"

definition no_failure :: "string option \<Rightarrow> topic_error + unit" where
  "no_failure e = (case e of None \<Rightarrow> Inr () | Some m \<Rightarrow> Inl (TopicIo m))"

section \<open>Packets\<close>

definition build_topic_packet :: "string \<Rightarrow> topic_error + string" where
  "build_topic_packet topic =
     (let data_len = length topic + 6 in
      if 65535 < data_len then Inl TopicTooLong
      else Inr ([CHR 0x00, CHR 0x83, char_of (drop_bit 8 data_len), char_of (data_len mod 256)]
             @ replicate 5 (CHR 0x00) @ topic @ [CHR 0x00]))"

text \<open>The bytes before the first zero.\<close>

definition until_nul :: "string \<Rightarrow> string" where
  "until_nul s = takeWhile (\<lambda>c. c \<noteq> CHR 0x00) s"

definition f32_from_le_bytes :: "string \<Rightarrow> 32 word" where
  "f32_from_le_bytes bytes = of_nat (be_value (rev bytes))"

definition decode_topic_response :: "(32 word \<Rightarrow> string) \<Rightarrow> string \<Rightarrow> topic_error + string" where
  "decode_topic_response show_f32 response_data =
     (case response_data of [] \<Rightarrow> Inl EmptyTopicResponse
      | response_type # string_data \<Rightarrow>
          if response_type = CHR 0x00 \<and> length response_data = 1 then Inr []
          else if response_type = CHR 0x06 then Inr (from_utf8_lossy (until_nul string_data))
          else if response_type = CHR 0x2A \<and> 5 \<le> length response_data
          then Inr (show_f32 (f32_from_le_bytes (take 4 string_data)))
          else if response_type = CHR 0x2A then Inl TruncatedFloat
          else Inl (UnknownResponseType (of_char response_type)))"

section \<open>The exchange\<close>

definition read_exact :: "nat \<Rightarrow> string \<Rightarrow> topic_error + string \<times> string" where
  "read_exact n bytes = (if length bytes < n then Inl ResponseCutShort else Inr (take n bytes, drop n bytes))"

definition response_length :: "string \<Rightarrow> nat" where
  "response_length response_header =
     push_bit 8 (of_char (response_header ! 2)) + of_char (response_header ! 3)"

text \<open>The reply: its header, whose last two bytes are the length, and the data.\<close>

definition read_topic_response :: "(32 word \<Rightarrow> string) \<Rightarrow> string \<Rightarrow> topic_error + string" where
  "read_topic_response show_f32 bytes =
     rbind (read_exact 4 bytes) (\<lambda>(response_header, bytes).
     if response_header ! 0 \<noteq> CHR 0x00 \<or> response_header ! 1 \<noteq> CHR 0x83 then Inl InvalidResponseHeader
     else let response_len = response_length response_header in
       if response_len = 0 then Inr []
       else rbind (read_exact response_len bytes) (\<lambda>(response_data, bytes).
         decode_topic_response show_f32 response_data))"

definition send_topic :: "(32 word \<Rightarrow> string) \<Rightarrow> topic_server \<Rightarrow> string \<Rightarrow> topic_error + string" where
  "send_topic show_f32 server topic =
     (let topic_clean = (case strip_prefix ''?'' topic of Some t \<Rightarrow> t | None \<Rightarrow> topic) in
      rbind (build_topic_packet topic_clean) (\<lambda>packet.
      rbind (no_failure (tp_connect server)) (\<lambda>_.
      rbind (no_failure (tp_timeouts server)) (\<lambda>_.
      rbind (no_failure (tp_write server packet)) (\<lambda>_.
      read_topic_response show_f32 (tp_reply server packet))))))"

section \<open>Properties\<close>

text \<open>A frame with the header of the protocol, and what it is read as.\<close>

definition topic_frame :: "string \<Rightarrow> string" where
  "topic_frame data = [CHR 0x00, CHR 0x83] @ be_bytes 2 (length data) @ data"

lemma be_bytes_two: "be_bytes 2 n = [char_of (n div 256 mod 256), char_of (n mod 256)]"
  by (simp add: numeral_2_eq_2)

lemma length_of_frame:
  assumes "(n :: nat) < 65536"
  shows "response_length [a, b, char_of (n div 256 mod 256), char_of (n mod 256)] = n"
proof -
  have "n div 256 < 256" using assms by simp
  moreover have "push_bit 8 k = k * 256" for k :: nat by (simp add: push_bit_eq_mult)
  moreover have "[a, b, char_of (n div 256 mod 256), char_of (n mod 256)] ! 2 = (char_of (n div 256 mod 256) :: char)"
    "[a, b, char_of (n div 256 mod 256), char_of (n mod 256)] ! 3 = (char_of (n mod 256) :: char)"
    by (simp_all add: numeral_2_eq_2 numeral_3_eq_3)
  ultimately show ?thesis by (simp only: response_length_def) simp
qed

lemma read_topic_response_eq:
  assumes "read_exact 4 bytes = Inr (response_header, rest)" "response_header ! 0 = CHR 0x00"
    "response_header ! 1 = CHR 0x83" "response_length response_header = n"
  shows "read_topic_response show_f32 bytes
    = (if n = 0 then Inr [] else rbind (read_exact n rest) (\<lambda>(response_data, bytes). decode_topic_response show_f32 response_data))"
  using assms by (simp add: read_topic_response_def Let_def)

lemma read_topic_frame:
  assumes "length data < 65536"
  shows "read_topic_response show_f32 (topic_frame data @ tail)
    = (if data = [] then Inr [] else decode_topic_response show_f32 data)"
proof -
  let ?a = "char_of (length data div 256 mod 256) :: char" and ?b = "char_of (length data mod 256) :: char"
  have "topic_frame data @ tail = CHR 0x00 # CHR 0x83 # ?a # ?b # data @ tail"
    by (simp add: topic_frame_def be_bytes_two)
  then have four: "read_exact 4 (topic_frame data @ tail) = Inr ([CHR 0x00, CHR 0x83, ?a, ?b], data @ tail)"
    by (simp add: read_exact_def)
  have "read_topic_response show_f32 (topic_frame data @ tail)
    = (if length data = 0 then Inr [] else rbind (read_exact (length data) (data @ tail))
        (\<lambda>(response_data, bytes). decode_topic_response show_f32 response_data))"
    by (rule read_topic_response_eq[OF four _ _ length_of_frame[OF assms]]) simp_all
  then show ?thesis by (simp add: read_exact_def)
qed

lemma until_nul_before: "CHR 0x00 \<notin> set s \<Longrightarrow> until_nul (s @ CHR 0x00 # rest) = s"
  unfolding until_nul_def by (subst takeWhile_append2) auto

lemma build_is_frame:
  "build_topic_packet topic = (if length topic + 6 < 65536
     then Inr (topic_frame (replicate 5 (CHR 0x00) @ topic @ [CHR 0x00])) else Inl TopicTooLong)"
proof (cases "length topic + 6 < 65536")
  case True
  then have "(length topic + 6) div 256 < 256" by simp
  then have h: "drop_bit 8 (length topic + 6) = (length topic + 6) div 256 mod 256"
    by (simp add: drop_bit_eq_div)
  have "length (replicate 5 (CHR 0x00) @ topic @ [CHR 0x00]) = length topic + 6" by simp
  then show ?thesis using True
    by (simp only: topic_frame_def be_bytes_two build_topic_packet_def Let_def h) simp
qed (simp add: build_topic_packet_def)

text \<open>
  A topic call is framed both ways.  The packet of a topic of at most 65529 bytes is the
  frame whose length field counts exactly the bytes that follow it, and a longer topic is refused
  before anything is connected; and when no call on the socket fails and the server answers with a
  frame, then whatever follows it, a string reply is returned up to its first zero byte, and any
  other reply is what \<open>decode_topic_response\<close> makes of its data.
\<close>

lemma topic_exchange_framed:
  assumes "tp_connect server = None" "tp_timeouts server = None" "\<And>p. tp_write server p = None"
    and "strip_prefix ''?'' topic = None" "length data < 65536"
    and "\<And>p. tp_reply server p = topic_frame data @ tail"
  shows "send_topic show_f32 server topic = send_topic show_f32 server (CHR ''?'' # topic)
     \<and> (65529 < length topic \<longrightarrow> send_topic show_f32 server topic = Inl TopicTooLong)
     \<and> (length topic \<le> 65529 \<longrightarrow>
         build_topic_packet topic = Inr (topic_frame (replicate 5 (CHR 0x00) @ topic @ [CHR 0x00]))
         \<and> send_topic show_f32 server topic = (if data = [] then Inr [] else decode_topic_response show_f32 data)
         \<and> (\<forall>reply rest. data = CHR 0x06 # reply @ CHR 0x00 # rest \<and> CHR 0x00 \<notin> set reply \<longrightarrow>
              send_topic show_f32 server topic = Inr (from_utf8_lossy reply)))"
proof -
  have two: "strip_prefix ''?'' (CHR ''?'' # topic) = Some topic" by (simp add: strip_prefix_Some)
  have run: "send_topic show_f32 server topic = (if length topic \<le> 65529
      then (if data = [] then Inr [] else decode_topic_response show_f32 data) else Inl TopicTooLong)"
    using assms(1-3) by (simp add: send_topic_def assms(4,6) build_is_frame no_failure_def read_topic_frame[OF assms(5)])
  have "send_topic show_f32 server (CHR ''?'' # topic) = send_topic show_f32 server topic"
    by (simp add: send_topic_def assms(4) two)
  moreover have "decode_topic_response show_f32 (CHR 0x06 # reply @ CHR 0x00 # rest) = Inr (from_utf8_lossy reply)"
    if "CHR 0x00 \<notin> set reply" for reply rest
    using that by (simp add: decode_topic_response_def until_nul_before)
  ultimately show ?thesis by (simp add: run build_is_frame)
qed

lemma topic_exchange_framed_witness:
  "send_topic (\<lambda>_. ''f'') \<lparr>tp_connect = None, tp_timeouts = None, tp_write = (\<lambda>_. None),
       tp_reply = (\<lambda>_. topic_frame (CHR 0x06 # ''pong'' @ [CHR 0x00]) @ ''tail'')\<rparr> ''ping''
     = Inr (from_utf8_lossy ''pong'')
   \<and> build_topic_packet ''ping'' = Inr ([CHR 0x00, CHR 0x83, CHR 0x00, CHR 0x0A] @ replicate 5 (CHR 0x00) @ ''ping'' @ [CHR 0x00])"
proof -
  let ?server = "\<lparr>tp_connect = None, tp_timeouts = None, tp_write = (\<lambda>_. None),
       tp_reply = (\<lambda>_. topic_frame (CHR 0x06 # ''pong'' @ [CHR 0x00]) @ ''tail'')\<rparr>"
  have "strip_prefix ''?'' ''ping'' = None" by code_simp
  note t = topic_exchange_framed[of ?server "''ping''" "CHR 0x06 # ''pong'' @ [CHR 0x00]" "''tail''" "\<lambda>_. ''f''", OF _ _ _ this]
  have "\<forall>reply rest. CHR 0x06 # ''pong'' @ [CHR 0x00] = CHR 0x06 # reply @ CHR 0x00 # rest \<and> CHR 0x00 \<notin> set reply \<longrightarrow>
      send_topic (\<lambda>_. ''f'') ?server ''ping'' = Inr (from_utf8_lossy reply)"
    by (rule conjunct2[OF conjunct2[OF mp[OF conjunct2[OF conjunct2[OF t]]]]]) simp_all
  from mp[OF spec[OF spec[OF this, of "''pong''"], of "[]"]]
  have "send_topic (\<lambda>_. ''f'') ?server ''ping'' = Inr (from_utf8_lossy ''pong'')" by simp
  moreover have "build_topic_packet ''ping'' = Inr ([CHR 0x00, CHR 0x83, CHR 0x00, CHR 0x0A] @ replicate 5 (CHR 0x00) @ ''ping'' @ [CHR 0x00])"
    by (simp add: build_is_frame topic_frame_def be_bytes_two) code_simp
  ultimately show ?thesis by blast
qed

end
