(* ===== verification/Runtime_Tools.thy ===== *)
theory Runtime_Tools
  imports Runtime_Integrity Server_State Output_Capture Compile_Tool Topic_Packet
begin

text \<open>
  The tools that launch, watch and stop a game, from \<open>src/tools/runtime.rs\<close>: \<open>run\<close> and its
  profiled variant, \<open>stop\<close> and \<open>status\<close>, over the runtime state of \<open>Server_State\<close>, the integrity
  session of \<open>Runtime_Integrity\<close> and the gate of \<open>Launch_Gate\<close>.  The answers of the operating
  system are arguments, and so is what other tools do while the lock of the runtime state is
  released: a function on the state at each such point.  \<open>None\<close> is an operation that does not
  return.
\<close>

section \<open>State and outcomes\<close>

record game_state =
  gs_runtime :: "launch_provenance runtime_state"
  gs_integrity :: "runtime_integrity_session option"
  gs_integrity_stop :: bool
  gs_integrity_summary :: "runtime_integrity_summary option"
  gs_store :: integrity_store

datatype tool_failure =
    MissingArgument string
  | InvalidArgument string
  | LaunchIo string
  | RuntimeCleanup string
  | IntegrityFailure runtime_integrity_error
  | NoDreamDaemon

type_synonym 'a game_step = "((tool_failure + 'a) \<times> game_state) option"

definition game_bind ::
  "'a game_step \<Rightarrow> ('a \<Rightarrow> game_state \<Rightarrow> 'b game_step) \<Rightarrow> 'b game_step" where
  "game_bind m f = Option.bind m (\<lambda>(r, g). case r of Inl e \<Rightarrow> Some (Inl e, g) | Inr x \<Rightarrow> f x g)"

text \<open>What an integrity session sees: its host, the clock, and the output log it was created with.\<close>

record integrity_answers =
  ia_host :: runtime_integrity_host
  ia_now :: nat
  ia_log :: output_buffer

definition runtime_running :: "wait_answer \<Rightarrow> game_state \<Rightarrow> bool \<times> game_state" where
  "runtime_running answer g =
     (case is_game_running answer (gs_runtime g) of (running, rs) \<Rightarrow> (running, g\<lparr>gs_runtime := rs\<rparr>))"

section \<open>Finalizing the session\<close>

definition finalize_session ::
  "integrity_answers \<Rightarrow> string \<Rightarrow> game_state \<Rightarrow> runtime_integrity_summary option game_step" where
  "finalize_session ia action g =
     (let g = g\<lparr>gs_integrity_stop := False, gs_runtime := (gs_runtime g)\<lparr>rs_integrity_task := None\<rparr>\<rparr> in
      case gs_integrity g of None \<Rightarrow> Some (Inr None, g)
      | Some session \<Rightarrow>
          (case session_finalize (ia_host ia) (ia_now ia) (ia_log ia) action session (gs_store g) of
             (r, session, store) \<Rightarrow>
               (let g = g\<lparr>gs_integrity := Some session, gs_store := store\<rparr> in
                case r of Inl e \<Rightarrow> Some (Inl (IntegrityFailure e), g)
                | Inr summary \<Rightarrow> Some (Inr (Some summary), g\<lparr>gs_integrity_summary := Some summary\<rparr>))))"

definition finalize_standard_integrity ::
  "cleanup_answers \<Rightarrow> integrity_answers \<Rightarrow> string \<Rightarrow> game_state \<Rightarrow> runtime_integrity_summary option game_step" where
  "finalize_standard_integrity ca ia action g =
     Option.bind (finish_runtime_cleanup ca (gs_runtime g)) (\<lambda>(r, rs).
       let g = g\<lparr>gs_runtime := rs\<rparr> in
       case r of Inl e \<Rightarrow> Some (Inl (RuntimeCleanup e), g)
       | Inr _ \<Rightarrow>
           (case gs_integrity_summary g of
              Some summary \<Rightarrow>
                if ru_status summary \<noteq> IntegrityActive then Some (Inr (Some summary), g)
                else finalize_session ia action g
            | None \<Rightarrow> finalize_session ia action g))"

text \<open>An observation by a tool: the session and the store it leaves.\<close>

definition observe_session ::
  "integrity_answers \<Rightarrow> string \<Rightarrow> game_state \<Rightarrow> runtime_integrity_summary option game_step" where
  "observe_session ia action g =
     (case gs_integrity g of None \<Rightarrow> Some (Inr None, g)
      | Some session \<Rightarrow>
          (case observe_now (ia_host ia) (ia_now ia) (ia_log ia) action session (gs_store g) of
             (r, session, store) \<Rightarrow>
               (let g = g\<lparr>gs_integrity := Some session, gs_store := store\<rparr> in
                case r of Inl e \<Rightarrow> Some (Inl (IntegrityFailure e), g)
                | Inr summary \<Rightarrow> Some (Inr (Some summary), g))))"

section \<open>Stopping\<close>

record stop_report =
  sr_process_stopped :: bool
  sr_launch_provenance :: "launch_provenance option"
  sr_integrity :: "runtime_integrity_summary option"
  sr_is_error :: bool

datatype stop_outcome = NotRunning | Stopped stop_report

definition stop_process :: "stop_answers \<Rightarrow> game_state \<Rightarrow> unit game_step" where
  "stop_process sa g =
     Option.bind (stop_game_process sa (gs_runtime g)) (\<lambda>(r, rs).
       Some (map_err RuntimeCleanup r, g\<lparr>gs_runtime := rs\<rparr>))"

definition has_violations :: "runtime_integrity_summary option \<Rightarrow> bool" where
  "has_violations summary = (case summary of Some s \<Rightarrow> ru_violations s \<noteq> [] | None \<Rightarrow> False)"

definition stop_with_lifecycle ::
  "wait_answer \<Rightarrow> stop_answers \<Rightarrow> cleanup_answers \<Rightarrow> integrity_answers \<Rightarrow> game_state \<Rightarrow> stop_outcome game_step" where
  "stop_with_lifecycle answer sa ca ia g =
     (case runtime_running answer g of (was_running, g) \<Rightarrow>
        if \<not> was_running \<and> gs_integrity g = None \<and> rs_containment (gs_runtime g) = None
        then Some (Inr NotRunning, g)
        else
          game_bind (if was_running then stop_process sa g else Some (Inr (), g)) (\<lambda>_ g.
          game_bind (finalize_standard_integrity ca ia ''stopped'' g) (\<lambda>integrity g.
          Some (Inr (Stopped \<lparr>sr_process_stopped = was_running,
            sr_launch_provenance = rs_launch_provenance (gs_runtime g), sr_integrity = integrity,
            sr_is_error = has_violations integrity\<rparr>), g))))"

section \<open>Status\<close>

record game_status =
  gt_running :: bool
  gt_runtime_kind :: "runtime_kind option"
  gt_port :: "16 word option"
  gt_profiler_port :: "16 word option"
  gt_last_exit_code :: "int option"
  gt_launch_provenance :: "launch_provenance option"
  gt_integrity :: "runtime_integrity_summary option"
  gt_recent_output :: "string list"
  gt_recent_output_entries :: "output_entry list"

definition game_status ::
  "wait_answer \<Rightarrow> cleanup_answers \<Rightarrow> integrity_answers \<Rightarrow> game_state \<Rightarrow> game_status game_step" where
  "game_status answer ca ia g =
     (case runtime_running answer g of (running, g) \<Rightarrow>
        if \<not> running
        then game_bind (finalize_standard_integrity ca ia ''natural_exit'' g) (\<lambda>integrity g.
          let rs = gs_runtime g in
          Some (Inr \<lparr>gt_running = False, gt_runtime_kind = rs_kind rs, gt_port = None, gt_profiler_port = None,
            gt_last_exit_code = rs_last_exit_code rs, gt_launch_provenance = rs_launch_provenance rs,
            gt_integrity = integrity, gt_recent_output = recent_output (rs_output_log rs) 50,
            gt_recent_output_entries = recent_output_entries (rs_output_log rs) 50\<rparr>, g))
        else game_bind (observe_session ia ''status'' g) (\<lambda>integrity g.
          let rs = gs_runtime g in
          Some (Inr \<lparr>gt_running = True, gt_runtime_kind = rs_kind rs,
            gt_port = Some (case rs_game_port rs of Some p \<Rightarrow> p | None \<Rightarrow> 0),
            gt_profiler_port = rs_profiler_port rs, gt_last_exit_code = None,
            gt_launch_provenance = rs_launch_provenance rs, gt_integrity = integrity,
            gt_recent_output = recent_output (rs_output_log rs) 50,
            gt_recent_output_entries = recent_output_entries (rs_output_log rs) 50\<rparr>, g)))"

section \<open>Waiting for output and topic calls\<close>

text \<open>
  What a wait sees: the regular expressions, the clock and the turns of the loop, what other tools
  do in the meantime, and the last lines of the session waited for if it was replaced.
\<close>

record wait_answers =
  wa_observer :: nat
  wa_observer_finished :: bool
  wa_regex :: "string \<Rightarrow> string + (string \<Rightarrow> bool)"
  wa_started :: nat
  wa_turns :: "(output_buffer \<times> nat) list"
  wa_during :: "game_state \<Rightarrow> game_state"
  wa_replaced_log :: output_buffer
  wa_running_after :: wait_answer

record wait_report =
  wr_result :: wait_result
  wr_integrity :: "runtime_integrity_summary option"
  wr_launch_provenance :: "launch_provenance option"
  wr_recent_output_entries :: "output_entry list"

datatype wait_outcome = NothingToWaitFor "int option" "string list" | Waited wait_report

definition session_summary_now ::
  "wait_answer \<Rightarrow> cleanup_answers \<Rightarrow> integrity_answers \<Rightarrow> game_state \<Rightarrow> runtime_integrity_summary option game_step" where
  "session_summary_now answer ca ia g =
     (case runtime_running answer g of (running, g) \<Rightarrow>
        if running then observe_session ia ''wait_for_output'' g
        else finalize_standard_integrity ca ia ''natural_exit'' g)"

definition wait_for_output ::
  "wait_answer \<Rightarrow> wait_answers \<Rightarrow> cleanup_answers \<Rightarrow> integrity_answers \<Rightarrow> json \<Rightarrow> game_state \<Rightarrow> wait_outcome game_step" where
  "wait_for_output answer wa ca ia args g =
     (case runtime_running answer g of (running, g) \<Rightarrow>
        let rs = gs_runtime g;
            has_runtime_diagnostics = (rs_last_exit_code rs \<noteq> None \<or> recent_output (rs_output_log rs) 1 \<noteq> [])
        in if \<not> running \<and> \<not> has_runtime_diagnostics
           then Some (Inr (NothingToWaitFor (rs_last_exit_code rs) (recent_output (rs_output_log rs) 50)), g)
           else case get_str args ''pattern'' of None \<Rightarrow> Some (Inl (MissingArgument ''pattern''), g)
           | Some pattern \<Rightarrow>
               (let use_regex = unwrap_or False (Option.bind (json_get args ''regex'') as_bool);
                    timeout_ms = unwrap_or (of_nat DEFAULT_OUTPUT_WAIT_TIMEOUT_MS)
                      (Option.bind (json_get args ''timeout_ms'') as_u64);
                    g = g\<lparr>gs_runtime := observe_runtime (wa_observer wa) (wa_observer_finished wa) (gs_runtime g)\<rparr>;
                    session = rs_session (gs_runtime g); provenance = rs_launch_provenance (gs_runtime g)
                in Option.bind (wait_for_output_value (wa_regex wa) pattern use_regex (unat timeout_ms)
                     (wa_started wa) (wa_turns wa)) (\<lambda>w.
                     let g = wa_during wa g in
                     case w of Inl e \<Rightarrow> Some (Inl (InvalidArgument e), g)
                     | Inr result \<Rightarrow>
                         if session \<noteq> rs_session (gs_runtime g)
                         then Some (Inr (Waited \<lparr>wr_result = result, wr_integrity = None,
                           wr_launch_provenance = provenance,
                           wr_recent_output_entries = recent_output_entries (wa_replaced_log wa) 50\<rparr>), g)
                         else game_bind (session_summary_now (wa_running_after wa) ca ia g) (\<lambda>integrity g.
                           Some (Inr (Waited \<lparr>wr_result = result, wr_integrity = integrity,
                             wr_launch_provenance = rs_launch_provenance (gs_runtime g),
                             wr_recent_output_entries = recent_output_entries (rs_output_log (gs_runtime g)) 50\<rparr>), g)))))"

datatype topic_outcome = NoGameForTopic | TopicSucceeded string | TopicFailed topic_error

definition topic_tool ::
  "wait_answer \<Rightarrow> (32 word \<Rightarrow> string) \<Rightarrow> (string \<Rightarrow> u64 \<Rightarrow> topic_server) \<Rightarrow> json \<Rightarrow> game_state \<Rightarrow> topic_outcome game_step" where
  "topic_tool answer show_f32 network args g =
     (case runtime_running answer g of (running, g) \<Rightarrow>
        if \<not> running then Some (Inr NoGameForTopic, g)
        else case get_str args ''topic'' of None \<Rightarrow> Some (Inl (MissingArgument ''topic''), g)
        | Some topic_string \<Rightarrow>
            (let port = unwrap_or 1337 (rs_game_port (gs_runtime g));
                 timeout_ms = unwrap_or 5000 (Option.bind (json_get args ''timeout_ms'') as_u64);
                 server = network (''127.0.0.1:'' @ show_nat (unat port)) timeout_ms
             in Some (Inr (case send_topic show_f32 server topic_string of
                  Inr response \<Rightarrow> TopicSucceeded response | Inl e \<Rightarrow> TopicFailed e), g)))"

section \<open>What a launch needs\<close>

definition bounded_u64 :: "json \<Rightarrow> string \<Rightarrow> u64 \<Rightarrow> u64 \<Rightarrow> u64 \<Rightarrow> tool_failure + u64" where
  "bounded_u64 args name default_value minimum maximum =
     rbind (case json_get args name of
              Some v \<Rightarrow> or_err (InvalidArgument (name @ '' must be an integer'')) (as_u64 v)
            | None \<Rightarrow> Inr default_value) (\<lambda>value.
       if minimum \<le> value \<and> value \<le> maximum then Inr value
       else Inl (InvalidArgument (name @ '' is out of range'')))"

definition string_arguments :: "json list \<Rightarrow> tool_failure + string list" where
  "string_arguments values =
     rmap (\<lambda>v. or_err (InvalidArgument ''daemon_args must contain only strings'') (as_str v)) values"

definition daemon_arguments :: "json \<Rightarrow> tool_failure + string list" where
  "daemon_arguments args =
     (case Option.bind (json_get args ''daemon_args'') as_array of
        None \<Rightarrow> Inr [] | Some values \<Rightarrow> string_arguments values)"

definition build_dreamdaemon_args :: "filesystem \<Rightarrow> path \<Rightarrow> string \<Rightarrow> string list \<Rightarrow> string list" where
  "build_dreamdaemon_args fs dmb_path port extra_args =
     [fs_display fs dmb_path, port, ''-trusted'', ''-logself''] @ extra_args"

definition possible_paths :: "string list" where
  "possible_paths =
     [join_with (CHR 0x5C) [''C:'', ''Program Files (x86)'', ''BYOND'', ''bin'', ''dreamdaemon.exe''],
      join_with (CHR 0x5C) [''C:'', ''Program Files'', ''BYOND'', ''bin'', ''dreamdaemon.exe''],
      ''/usr/local/byond/bin/DreamDaemon'', ''/opt/byond/bin/DreamDaemon'']"

definition find_dreamdaemon :: "filesystem \<Rightarrow> (string \<Rightarrow> path option) \<Rightarrow> path option" where
  "find_dreamdaemon fs which =
     (case which ''dreamdaemon'' of Some p \<Rightarrow> Some p
      | None \<Rightarrow> (case which ''DreamDaemon'' of Some p \<Rightarrow> Some p
        | None \<Rightarrow> find (fs_exists fs) (map (fs_from_str fs) possible_paths)))"

text \<open>The candidates beside the allowlisted compilers, in order.\<close>

definition sibling_candidates :: "path list \<Rightarrow> path list" where
  "sibling_candidates compilers =
     concat (map (\<lambda>compiler. case parent compiler of None \<Rightarrow> []
        | Some dir \<Rightarrow> [join_name dir ''dreamdaemon.exe'', join_name dir ''DreamDaemon'']) compilers)"

definition find_dreamdaemon_for_compilers ::
  "file_host \<Rightarrow> (string \<Rightarrow> path option) \<Rightarrow> path list \<Rightarrow> path option" where
  "find_dreamdaemon_for_compilers h which compilers =
     (case find (is_file h) (sibling_candidates compilers) of
        Some candidate \<Rightarrow>
          Some (case fs_canonicalize (fh_fs h) candidate of Inr p \<Rightarrow> normalize_spawn_path p | Inl _ \<Rightarrow> candidate)
      | None \<Rightarrow> find_dreamdaemon (fh_fs h) which)"

text \<open>
  The request, once its arguments are read: everything the launch needs, or what ends it before
  the runtime state is touched.
\<close>

record launch_plan =
  pl_path :: path
  pl_spawn_path :: path
  pl_working_directory :: path
  pl_port :: u64
  pl_startup_timeout_ms :: u64
  pl_provenance :: launch_provenance
  pl_dreamdaemon :: path
  pl_daemon_args :: "string list"

datatype launch_end =
    AlreadyRunning
  | DmbNotFound string
  | GateRefused launch_refusal
  | SessionReplaced
  | ExitedImmediately "int option" "string list" "runtime_integrity_summary option"
  | NotReady wait_result bool "runtime_integrity_summary option"
  | SessionEnded

record launch_world =
  lw_disk :: file_host
  lw_provenance :: "provenance_store option"
  lw_compilers :: "path list"
  lw_which :: "string \<Rightarrow> path option"
  lw_var :: "string \<Rightarrow> string option"

definition launch_path :: "filesystem \<Rightarrow> json \<Rightarrow> string \<Rightarrow> path" where
  "launch_path fs args dmb_path =
     resolve_requested_path (fs_from_str fs dmb_path)
       (map_option (fs_from_str fs) (get_str args ''working_directory''))"

definition flag :: "json \<Rightarrow> string \<Rightarrow> bool" where
  "flag args name = unwrap_or False (Option.bind (json_get args name) as_bool)"

definition plan_launch ::
  "launch_world \<Rightarrow> json \<Rightarrow> u64 option \<Rightarrow> tool_failure + (launch_end + launch_plan)" where
  "plan_launch w args profiler_port =
     (let h = lw_disk w; fs = fh_fs h in
      rbind (or_err (MissingArgument ''dmb_path'') (get_str args ''dmb_path'')) (\<lambda>dmb_path.
      rbind (bounded_u64 args ''port'' 1337 1 65535) (\<lambda>port.
      rbind (bounded_u64 args ''startup_timeout_ms'' (of_nat DEFAULT_OUTPUT_WAIT_TIMEOUT_MS) 1
               (of_nat MAX_OUTPUT_WAIT_TIMEOUT_MS)) (\<lambda>startup_timeout_ms.
      let p = launch_path fs args dmb_path in
      if \<not> fs_exists fs p then Inr (Inl (DmbNotFound dmb_path))
      else rbind (map_err LaunchIo (fs_canonicalize fs p)) (\<lambda>p.
        let spawn_path = normalize_spawn_path p in
        rbind (or_err (LaunchIo ''DMB file has no working directory'') (parent spawn_path)) (\<lambda>working_directory.
        rbind (daemon_arguments args) (\<lambda>extra_args.
        let extra_args = (if profiler_port \<noteq> None then extra_args @ [''-params'', ''tracy''] else extra_args) in
        case require_launchable_artifact h (lw_provenance w) p (flag args ''require_verified_provenance'') of
          Inl refusal \<Rightarrow> Inr (Inl (GateRefused refusal))
        | Inr provenance \<Rightarrow>
            rbind (or_err NoDreamDaemon (find_dreamdaemon_for_compilers h (lw_which w) (lw_compilers w))) (\<lambda>daemon.
            Inr (Inr \<lparr>pl_path = p, pl_spawn_path = spawn_path, pl_working_directory = working_directory,
              pl_port = port, pl_startup_timeout_ms = startup_timeout_ms, pl_provenance = provenance,
              pl_dreamdaemon = daemon,
              pl_daemon_args = build_dreamdaemon_args fs spawn_path (show_nat (unat port)) extra_args\<rparr>)))))))))"

section \<open>The command\<close>

text \<open>
  What the operating system is asked to start: the program, its arguments, its directory, and its
  environment, \<open>None\<close> if it is the server's own.  The streams are always piped.
\<close>

record spawn_command =
  sc_program :: path
  sc_args :: "string list"
  sc_current_dir :: path
  sc_environment :: "(string \<times> string) list option"

definition RUNTIME_ENVIRONMENT_NAMES :: "string list" where
  "RUNTIME_ENVIRONMENT_NAMES =
     [''SystemRoot'', ''WINDIR'', ''TEMP'', ''TMP'', ''USERPROFILE'', ''APPDATA'', ''LOCALAPPDATA'', ''ProgramData'',
      ''PATH'', ''LD_LIBRARY_PATH'']"

definition minimal_runtime_environment :: "(string \<Rightarrow> string option) \<Rightarrow> (string \<times> string) list" where
  "minimal_runtime_environment var =
     List.map_filter (\<lambda>name. map_option (\<lambda>value. (name, value)) (var name)) RUNTIME_ENVIRONMENT_NAMES"

definition profiler_environment :: "(string \<Rightarrow> string option) \<Rightarrow> u64 \<Rightarrow> (string \<times> string) list" where
  "profiler_environment var profiler_port =
     minimal_runtime_environment var
       @ [(''UTRACY_BIND_ADDRESS'', ''127.0.0.1''), (''UTRACY_BIND_PORT'', show_nat (unat profiler_port))]"

definition dreamdaemon_command ::
  "(string \<Rightarrow> string option) \<Rightarrow> launch_plan \<Rightarrow> u64 option \<Rightarrow> spawn_command" where
  "dreamdaemon_command var plan profiler_port =
     \<lparr>sc_program = pl_dreamdaemon plan, sc_args = pl_daemon_args plan,
      sc_current_dir = pl_working_directory plan,
      sc_environment = map_option (profiler_environment var) profiler_port\<rparr>"

section \<open>Launching\<close>

record launch_report =
  lr_pid :: "u32 option"
  lr_port :: u64
  lr_runtime_kind :: runtime_kind
  lr_profiler_port :: "u64 option"
  lr_launch_provenance :: launch_provenance
  lr_readiness :: "wait_result option"
  lr_integrity :: "runtime_integrity_summary option"

text \<open>
  What the operating system and the other tools do in a launch: \<open>la_spawn\<close> answers the command
  with the process, its containment and its identifier, or an error; \<open>la_during_start\<close> is what happens
  to the state in the 250 milliseconds after the spawn, \<open>la_during_wait\<close> while the output is
  waited for; \<open>la_turns\<close> is what that wait sees.
\<close>

record launch_answers =
  la_running_before :: wait_answer
  la_cleanup_before :: cleanup_answers
  la_integrity :: integrity_answers
  la_private_state :: bool
  la_snapshot_environment :: "path option"
  la_random :: "string + string"
  la_owned_clock :: nat
  la_session :: nat
  la_spawn :: "spawn_command \<Rightarrow> string + nat \<times> nat \<times> u32 option"
  la_tasks :: "nat list"
  la_observer :: nat
  la_during_start :: "game_state \<Rightarrow> game_state"
  la_running_started :: wait_answer
  la_during_wait :: "game_state \<Rightarrow> game_state"
  la_regex :: "string \<Rightarrow> string + (string \<Rightarrow> bool)"
  la_turns :: "(output_buffer \<times> nat) list"
  la_stop :: stop_answers
  la_running_ready :: wait_answer
  la_cleanup_failed :: cleanup_answers

text \<open>The project a session protects: the parsed environment's directory if its game is launched.\<close>

definition protected_root_of :: "launch_answers \<Rightarrow> u64 option \<Rightarrow> launch_plan \<Rightarrow> path" where
  "protected_root_of la profiler_port plan =
     (case la_snapshot_environment la of
        Some env \<Rightarrow>
          if profiler_port = None \<and> with_extension env ''dmb'' = pl_path plan
          then (case parent env of Some p \<Rightarrow> p | None \<Rightarrow> pl_working_directory plan)
          else pl_working_directory plan
      | None \<Rightarrow> pl_working_directory plan)"

text \<open>A session that is replaced releases its liveness lock.\<close>

definition release_session :: "runtime_integrity_session option \<Rightarrow> integrity_store \<Rightarrow> integrity_store" where
  "release_session old st =
     (case old of None \<Rightarrow> st
      | Some s \<Rightarrow> st\<lparr>st_held := removeAll (rj_session_id (ri_document s)) (st_held st)\<rparr>)"

definition create_session :: "launch_answers \<Rightarrow> u64 option \<Rightarrow> launch_plan \<Rightarrow> game_state \<Rightarrow> unit game_step" where
  "create_session la profiler_port plan g =
     (if profiler_port = None \<and> la_private_state la
      then (case session_create (ia_host (la_integrity la)) (protected_root_of la profiler_port plan)
                   (pl_provenance plan) [with_extension (pl_spawn_path plan) ''log''] (la_random la)
                   (la_owned_clock la) (gs_store g) of
              (Inl e, store) \<Rightarrow> Some (Inl (IntegrityFailure e), g\<lparr>gs_store := store\<rparr>)
            | (Inr session, store) \<Rightarrow>
                Some (Inr (), g\<lparr>gs_integrity := Some session, gs_store := release_session (gs_integrity g) store\<rparr>))
      else Some (Inr (), g))"

text \<open>Registering the process; only a standard game's session learns its process identifier.\<close>

definition register_process ::
  "launch_answers \<Rightarrow> u64 option \<Rightarrow> launch_plan \<Rightarrow> nat \<Rightarrow> u32 option \<Rightarrow> game_state \<Rightarrow> unit game_step" where
  "register_process la profiler_port plan process pid g =
     (let port = ucast (pl_port plan) in
      case profiler_port of
        Some pp \<Rightarrow>
          Some (Inr (), g\<lparr>gs_runtime := set_profiled_game_process process port (ucast pp) (pl_provenance plan) (gs_runtime g)\<rparr>)
      | None \<Rightarrow>
          (let g = g\<lparr>gs_runtime := set_game_process process port (pl_provenance plan) (gs_runtime g)\<rparr> in
           case gs_integrity g of None \<Rightarrow> Some (Inr (), g)
           | Some session \<Rightarrow>
               (case set_process_id (ia_host (la_integrity la)) pid session (gs_store g) of
                  (r, session, store) \<Rightarrow>
                    (let g = g\<lparr>gs_integrity := Some session, gs_store := store\<rparr> in
                     case r of Inl e \<Rightarrow> Some (Inl (IntegrityFailure e), g)
                     | Inr _ \<Rightarrow> Some (Inr (), g\<lparr>gs_integrity_stop := True,
                         gs_runtime := (gs_runtime g)\<lparr>rs_integrity_task := Some (la_observer la)\<rparr>\<rparr>)))))"

text \<open>\<open>StartupOwnership\<close>: unless the launch succeeds, the containment is terminated on the way out.\<close>

definition own_startup ::
  "nat \<Rightarrow> (launch_end + launch_report) game_step \<Rightarrow> (launch_end + launch_report) game_step" where
  "own_startup containment m =
     map_option (\<lambda>(r, g). case r of Inr (Inr report) \<Rightarrow> (r, g)
        | _ \<Rightarrow> (r, g\<lparr>gs_runtime := effect [Terminate containment] (gs_runtime g)\<rparr>)) m"

text \<open>The last check, and the observation that ends a launch.\<close>

definition launch_ready ::
  "launch_answers \<Rightarrow> u64 option \<Rightarrow> launch_plan \<Rightarrow> nat \<Rightarrow> u32 option \<Rightarrow> wait_result option \<Rightarrow> game_state
   \<Rightarrow> (launch_end + launch_report) game_step" where
  "launch_ready la profiler_port plan observation pid readiness g =
     (if observation \<noteq> rs_session (gs_runtime g) then Some (Inr (Inl SessionEnded), g)
      else case runtime_running (la_running_ready la) g of (running, g) \<Rightarrow>
        if \<not> running then Some (Inr (Inl SessionEnded), g)
        else game_bind (observe_session (la_integrity la) ''launch_ready'' g) (\<lambda>summary g.
          Some (Inr (Inr \<lparr>lr_pid = pid, lr_port = pl_port plan,
              lr_runtime_kind = (if profiler_port = None then Standard else Tracy),
              lr_profiler_port = profiler_port, lr_launch_provenance = pl_provenance plan,
              lr_readiness = readiness, lr_integrity = summary\<rparr>),
            (case summary of None \<Rightarrow> g | Some s \<Rightarrow> g\<lparr>gs_integrity_summary := Some s\<rparr>))))"

definition wait_ready ::
  "launch_answers \<Rightarrow> u64 option \<Rightarrow> json \<Rightarrow> launch_plan \<Rightarrow> nat \<Rightarrow> u32 option \<Rightarrow> game_state
   \<Rightarrow> (launch_end + launch_report) game_step" where
  "wait_ready la profiler_port args plan observation pid g =
     (case get_str args ''wait_for'' of
        None \<Rightarrow> launch_ready la profiler_port plan observation pid None g
      | Some pattern \<Rightarrow>
          Option.bind (wait_for_output_value (la_regex la) pattern (flag args ''wait_regex'')
              (unat (pl_startup_timeout_ms plan)) (ia_now (la_integrity la)) (la_turns la)) (\<lambda>w.
            let g = la_during_wait la g in
            case w of Inl e \<Rightarrow> Some (Inl (InvalidArgument e), g)
            | Inr readiness \<Rightarrow>
                (case readiness of WaitMatched _ \<Rightarrow>
                     launch_ready la profiler_port plan observation pid (Some readiness) g
                 | _ \<Rightarrow>
                     if observation = rs_session (gs_runtime g)
                     then game_bind (stop_process (la_stop la) g) (\<lambda>_ g.
                          game_bind (finalize_standard_integrity (la_cleanup_failed la) (la_integrity la) ''launch_failed'' g)
                            (\<lambda>summary g. Some (Inr (Inl (NotReady readiness True summary)), g)))
                     else Some (Inr (Inl (NotReady readiness False None)), g))))"

definition start_process ::
  "launch_answers \<Rightarrow> u64 option \<Rightarrow> json \<Rightarrow> launch_plan \<Rightarrow> nat \<times> nat \<times> u32 option \<Rightarrow> game_state
   \<Rightarrow> (launch_end + launch_report) game_step" where
  "start_process la profiler_port args plan child g =
     (case child of (process, containment, pid) \<Rightarrow>
        own_startup containment
          (game_bind (register_process la profiler_port plan process pid
               (g\<lparr>gs_runtime := (gs_runtime g)\<lparr>rs_containment := Some containment\<rparr>\<rparr>)) (\<lambda>_ g.
           let rs = fold add_runtime_output_task (la_tasks la) (gs_runtime g);
               rs = observe_runtime (la_observer la) True rs;
               observation = rs_session rs;
               g = la_during_start la (g\<lparr>gs_runtime := rs\<rparr>)
           in if observation \<noteq> rs_session (gs_runtime g) then Some (Inr (Inl SessionReplaced), g)
              else case runtime_running (la_running_started la) g of (running, g) \<Rightarrow>
                if \<not> running
                then game_bind (finalize_standard_integrity (la_cleanup_failed la) (la_integrity la) ''launch_failed'' g)
                       (\<lambda>summary g. Some (Inr (Inl (ExitedImmediately (rs_last_exit_code (gs_runtime g))
                          (recent_output (rs_output_log (gs_runtime g)) 50) summary)), g))
                else wait_ready la profiler_port args plan observation pid g)))"

definition run_internal ::
  "launch_world \<Rightarrow> launch_answers \<Rightarrow> json \<Rightarrow> u64 option \<Rightarrow> game_state \<Rightarrow> (launch_end + launch_report) game_step" where
  "run_internal w la args profiler_port g =
     (case runtime_running (la_running_before la) g of (running, g) \<Rightarrow>
        if running then Some (Inr (Inl AlreadyRunning), g)
        else game_bind (finalize_standard_integrity (la_cleanup_before la) (la_integrity la) ''natural_exit'' g) (\<lambda>_ g.
          case plan_launch w args profiler_port of
            Inl e \<Rightarrow> Some (Inl e, g)
          | Inr (Inl ended) \<Rightarrow> Some (Inr (Inl ended), g)
          | Inr (Inr plan) \<Rightarrow>
              (let g = g\<lparr>gs_runtime := clear_runtime_diagnostics (la_owned_clock la) (la_session la) (gs_runtime g),
                         gs_integrity_summary := None\<rparr>
               in game_bind (create_session la profiler_port plan g) (\<lambda>_ g.
                  case la_spawn la (dreamdaemon_command (lw_var w) plan profiler_port) of
                    Inl e \<Rightarrow>
                      map_option (\<lambda>(_, g). (Inl (LaunchIo e), g))
                        (finalize_standard_integrity (la_cleanup_failed la) (la_integrity la) ''spawn_failed'' g)
                  | Inr child \<Rightarrow> start_process la profiler_port args plan child g))))"

text \<open>The two entry points; a debugger session forbids both.\<close>

definition run_game ::
  "bool \<Rightarrow> launch_world \<Rightarrow> launch_answers \<Rightarrow> json \<Rightarrow> game_state \<Rightarrow> (launch_end + launch_report) game_step" where
  "run_game debugger_active w la args g =
     (if debugger_active then Some (Inl (InvalidArgument
        ''a debugger session is active; stop it before launching DreamDaemon''), g)
      else run_internal w la args None g)"

definition run_profiled_with_lifecycle ::
  "bool \<Rightarrow> launch_world \<Rightarrow> launch_answers \<Rightarrow> json \<Rightarrow> u64 \<Rightarrow> game_state \<Rightarrow> (launch_end + launch_report) game_step" where
  "run_profiled_with_lifecycle debugger_active w la args profiler_port g =
     (if debugger_active then Some (Inl (InvalidArgument
        ''a debugger session is active; stop it before launching Tracy''), g)
      else run_internal w la args (Some profiler_port) g)"

section \<open>Lemmas\<close>

lemma game_bindE:
  assumes "game_bind m f = Some (Inr y, g')"
  obtains x g1 where "m = Some (Inr x, g1)" "f x g1 = Some (Inr y, g')"
proof (cases m)
  case (Some rg)
  obtain r g1 where rg: "rg = (r, g1)" by fastforce
  show ?thesis
  proof (cases r)
    case (Inr x)
    then show ?thesis using assms that Some rg by (simp add: game_bind_def)
  qed (use assms Some rg in \<open>simp add: game_bind_def\<close>)
qed (use assms in \<open>simp add: game_bind_def\<close>)

lemma runtime_running_rest:
  "runtime_running answer g = (b, g') \<Longrightarrow> gs_integrity g' = gs_integrity g \<and> gs_integrity_summary g' = gs_integrity_summary g
     \<and> gs_store g' = gs_store g \<and> gs_integrity_stop g' = gs_integrity_stop g"
  by (auto simp: runtime_running_def split: prod.splits)

lemma runtime_not_running:
  "runtime_running answer g = (False, g') \<Longrightarrow> rs_game_process (gs_runtime g') = None"
  by (auto simp: runtime_running_def is_game_running_def forget_process_def publish_process_status_def effect_def Let_def
      split: prod.splits option.splits wait_answer.splits)

lemma finish_runtime_cleanup_Inr:
  assumes "finish_runtime_cleanup a rs = Some (Inr u, rs')"
  shows "rs_containment rs' = None \<and> rs_game_process rs' = rs_game_process rs"
proof (cases "rs_containment rs")
  case None
  then show ?thesis using assms by (simp add: finish_runtime_cleanup_def)
next
  case (Some c)
  show ?thesis
  proof (cases "await_termination (ca_polls a) (ca_started a + CLEANUP_WINDOW) 0")
    case (Some r)
    then show ?thesis using assms \<open>rs_containment rs = Some c\<close>
      by (auto simp: finish_runtime_cleanup_def Let_def effect_def split: sum.splits)
  qed (use assms Some in \<open>auto simp: finish_runtime_cleanup_def Let_def split: sum.splits\<close>)
qed

lemma stop_game_process_Inr:
  assumes "stop_game_process a rs = Some (Inr u, rs')"
  shows "rs_game_process rs' = None"
proof -
  let ?rs = "effect (opt_list RequestTermination (rs_containment rs)) rs"
  obtain v rs1 where kill: "kill_game_process a ?rs = (Inr v, rs1)"
    and rest: "Option.bind (finish_runtime_cleanup (sa_cleanup a) rs1) (\<lambda>(r, rs).
            case r of Inl e \<Rightarrow> Some (Inl e, rs) | Inr _ \<Rightarrow> Some (Inr (), stop_finished rs)) = Some (Inr u, rs')"
    using assms by (auto simp: stop_game_process_def Let_def split: if_splits prod.splits sum.splits)
  have p: "rs_game_process rs1 = None"
    using kill by (auto simp: kill_game_process_def Let_def effect_def split: option.splits sum.splits)
  from rest obtain r rs2 where two: "finish_runtime_cleanup (sa_cleanup a) rs1 = Some (r, rs2)"
    "(case r of Inl e \<Rightarrow> Some (Inl e, rs2) | Inr _ \<Rightarrow> Some (Inr (), stop_finished rs2)) = Some (Inr u, rs')"
    by (cases "finish_runtime_cleanup (sa_cleanup a) rs1") auto
  then obtain x where "r = Inr x" "rs' = stop_finished rs2" by (cases r) auto
  then show ?thesis using finish_runtime_cleanup_Inr[of "sa_cleanup a" rs1 x rs2] two(1) p
    by (simp add: stop_finished_def publish_process_status_def abort_runtime_output_tasks_def effect_def Let_def)
qed

lemma finalize_session_Inr:
  assumes "finalize_session ia action g = Some (Inr r, g')"
  shows "rs_containment (gs_runtime g') = rs_containment (gs_runtime g)
     \<and> rs_game_process (gs_runtime g') = rs_game_process (gs_runtime g)
     \<and> (case gs_integrity g of None \<Rightarrow> r = None
        | Some s \<Rightarrow> \<exists>summary s' st. session_finalize (ia_host ia) (ia_now ia) (ia_log ia) action s (gs_store g) = (Inr summary, s', st)
            \<and> r = Some summary \<and> gs_integrity g' = Some s' \<and> gs_store g' = st \<and> gs_integrity_summary g' = Some summary)"
  using assms by (auto simp: finalize_session_def Let_def split: option.splits prod.splits sum.splits)

lemma finalize_standard_Inr:
  assumes "finalize_standard_integrity ca ia action g = Some (Inr r, g')"
  shows "rs_containment (gs_runtime g') = None \<and> rs_game_process (gs_runtime g') = rs_game_process (gs_runtime g)
     \<and> (case gs_integrity_summary g of
          Some summary \<Rightarrow> if ru_status summary \<noteq> IntegrityActive
            then r = Some summary \<and> gs_store g' = gs_store g \<and> gs_integrity g' = gs_integrity g
              \<and> gs_integrity_summary g' = gs_integrity_summary g
            else (\<exists>rs. finalize_session ia action (g\<lparr>gs_runtime := rs\<rparr>) = Some (Inr r, g'))
        | None \<Rightarrow> \<exists>rs. finalize_session ia action (g\<lparr>gs_runtime := rs\<rparr>) = Some (Inr r, g'))"
proof -
  obtain q rs where clean: "finish_runtime_cleanup ca (gs_runtime g) = Some (q, rs)"
    using assms by (cases "finish_runtime_cleanup ca (gs_runtime g)") (auto simp: finalize_standard_integrity_def)
  with assms obtain u where q: "q = Inr u" by (cases q) (auto simp: finalize_standard_integrity_def)
  note gone = finish_runtime_cleanup_Inr[OF clean[unfolded q]]
  let ?g = "g\<lparr>gs_runtime := rs\<rparr>"
  have run: "(case gs_integrity_summary g of
      Some summary \<Rightarrow> if ru_status summary \<noteq> IntegrityActive then Some (Inr (Some summary), ?g)
        else finalize_session ia action ?g
    | None \<Rightarrow> finalize_session ia action ?g) = Some (Inr r, g')"
    using assms by (simp add: finalize_standard_integrity_def clean q Let_def)
  show ?thesis
  proof (cases "\<exists>summary. gs_integrity_summary g = Some summary \<and> ru_status summary \<noteq> IntegrityActive")
    case True
    then obtain summary where s: "gs_integrity_summary g = Some summary" "ru_status summary \<noteq> IntegrityActive"
      by (elim exE conjE)
    have "r = Some summary \<and> g' = ?g" using run s by simp
    then show ?thesis using gone s by simp
  next
    case False
    then have fin: "finalize_session ia action ?g = Some (Inr r, g')" using run by (auto split: option.splits if_splits)
    from finalize_session_Inr[OF fin] gone False fin show ?thesis by (auto split: option.splits)
  qed
qed

text \<open>When no finalized summary is at hand, the session itself is finalized.\<close>

definition unfinished_summary :: "game_state \<Rightarrow> bool" where
  "unfinished_summary g \<longleftrightarrow>
     (case gs_integrity_summary g of None \<Rightarrow> True | Some summary \<Rightarrow> ru_status summary = IntegrityActive)"

lemma finalize_standard_unfinished:
  assumes "finalize_standard_integrity ca ia action g = Some (Inr r, g')" "unfinished_summary g" "gs_integrity g = Some s"
  shows "rs_containment (gs_runtime g') = None \<and> rs_game_process (gs_runtime g') = rs_game_process (gs_runtime g)
     \<and> (\<exists>summary s' st. session_finalize (ia_host ia) (ia_now ia) (ia_log ia) action s (gs_store g) = (Inr summary, s', st)
          \<and> r = Some summary \<and> gs_integrity g' = Some s' \<and> gs_store g' = st \<and> gs_integrity_summary g' = Some summary)"
proof -
  note f = finalize_standard_Inr[OF assms(1)]
  then obtain rs where "finalize_session ia action (g\<lparr>gs_runtime := rs\<rparr>) = Some (Inr r, g')"
    using assms(2) by (auto simp: unfinished_summary_def split: option.splits)
  from finalize_session_Inr[OF this] f assms(3) show ?thesis by simp
qed

lemma stop_process_Inr:
  assumes "stop_process sa g = Some (Inr u, g')"
  shows "rs_game_process (gs_runtime g') = None \<and> gs_integrity g' = gs_integrity g
     \<and> gs_integrity_summary g' = gs_integrity_summary g \<and> gs_store g' = gs_store g"
proof -
  obtain r rs where stop: "stop_game_process sa (gs_runtime g) = Some (r, rs)"
    using assms by (cases "stop_game_process sa (gs_runtime g)") (auto simp: stop_process_def)
  with assms obtain v where r: "r = Inr v" and g': "g' = g\<lparr>gs_runtime := rs\<rparr>"
    by (cases r) (auto simp: stop_process_def map_err_def)
  from stop_game_process_Inr[OF stop[unfolded r]] show ?thesis by (simp add: g')
qed

text \<open>
  C32. A stop leaves nothing running: if the state holds the integrity session of the game,
  however it was created and observed before, with no finalized summary at hand, and \<open>stop\<close>
  returns a result, then whether the process was still alive or had already gone, the state has
  neither a process nor a containment, the session is final and on the disk, and the report
  carries its summary and is an error exactly if one of its events is a deletion.  If the session
  ends with fewer than \<open>MAX_RUNTIME_EVENTS\<close> events (at the limit changes can be lost, see C25),
  its events are the earlier ones together with every change the last comparison shows, so the
  report is an error exactly if one of those is a deletion.
\<close>

theorem stop_reports_and_finalizes:
  assumes "gs_integrity g = Some s" "session_history s" "unfinished_summary g"
    and "stop_with_lifecycle answer sa ca ia g = Some (Inr outcome, g')"
  shows "\<exists>report ms s'. outcome = Stopped report
     \<and> rs_game_process (gs_runtime g') = None \<and> rs_containment (gs_runtime g') = None
     \<and> current_mutations (ia_host ia) s = Inr ms \<and> gs_integrity g' = Some s'
     \<and> sr_integrity report = Some (summary_from_document (ri_document s'))
     \<and> gs_integrity_summary g' = sr_integrity report
     \<and> rj_status (ri_document s') \<noteq> IntegrityActive
     \<and> map_of (st_records (gs_store g')) (ri_record_name s) = Some (rh_encode (ia_host ia) (ri_document s'))
     \<and> (sr_is_error report \<longleftrightarrow> (\<exists>e \<in> set (rj_events (ri_document s')). rv_change_kind e = Deleted))
     \<and> (length (rj_events (ri_document s')) < MAX_RUNTIME_EVENTS \<longrightarrow>
          event_key ` set (rj_events (ri_document s'))
            = event_key ` set (rj_events (ri_document s)) \<union> mutation_key ` set ms
          \<and> (sr_is_error report \<longleftrightarrow>
               Deleted \<in> snd ` (event_key ` set (rj_events (ri_document s)) \<union> mutation_key ` set ms)))"
proof -
  obtain was_running g0 where run: "runtime_running answer g = (was_running, g0)" by fastforce
  note keep = runtime_running_rest[OF run]
  have busy: "gs_integrity g0 \<noteq> None" using keep assms(1) by simp
  with assms(4) run have body: "game_bind (if was_running then stop_process sa g0 else Some (Inr (), g0)) (\<lambda>_ g.
      game_bind (finalize_standard_integrity ca ia ''stopped'' g) (\<lambda>integrity g.
        Some (Inr (Stopped \<lparr>sr_process_stopped = was_running,
          sr_launch_provenance = rs_launch_provenance (gs_runtime g), sr_integrity = integrity,
          sr_is_error = has_violations integrity\<rparr>), g))) = Some (Inr outcome, g')"
    by (simp add: stop_with_lifecycle_def)
  from body obtain u g1 where one: "(if was_running then stop_process sa g0 else Some (Inr (), g0)) = Some (Inr u, g1)"
    and rest: "game_bind (finalize_standard_integrity ca ia ''stopped'' g1) (\<lambda>integrity g.
        Some (Inr (Stopped \<lparr>sr_process_stopped = was_running,
          sr_launch_provenance = rs_launch_provenance (gs_runtime g), sr_integrity = integrity,
          sr_is_error = has_violations integrity\<rparr>), g)) = Some (Inr outcome, g')"
    by (rule game_bindE)
  have g1: "rs_game_process (gs_runtime g1) = None \<and> gs_integrity g1 = Some s \<and> unfinished_summary g1"
  proof (cases was_running)
    case True
    with one have "stop_process sa g0 = Some (Inr u, g1)" by simp
    from stop_process_Inr[OF this] keep assms(1,3) show ?thesis by (simp add: unfinished_summary_def)
  next
    case False
    with one runtime_not_running run keep assms(1,3) show ?thesis by (simp add: unfinished_summary_def)
  qed
  from rest obtain r where fin: "finalize_standard_integrity ca ia ''stopped'' g1 = Some (Inr r, g')"
    and out: "outcome = Stopped \<lparr>sr_process_stopped = was_running,
          sr_launch_provenance = rs_launch_provenance (gs_runtime g'), sr_integrity = r, sr_is_error = has_violations r\<rparr>"
    by (rule game_bindE) simp
  have unfinished: "unfinished_summary g1" and session: "gs_integrity g1 = Some s" using g1 by simp_all
  from finalize_standard_unfinished[OF fin unfinished session] obtain summary s' st where
      f: "session_finalize (ia_host ia) (ia_now ia) (ia_log ia) ''stopped'' s (gs_store g1) = (Inr summary, s', st)"
    and r: "r = Some summary" and g': "gs_integrity g' = Some s'" "gs_store g' = st" "gs_integrity_summary g' = Some summary"
      "rs_containment (gs_runtime g') = None" "rs_game_process (gs_runtime g') = rs_game_process (gs_runtime g1)"
    by (elim exE conjE)
  obtain ms es where ms: "current_mutations (ia_host ia) s = Inr ms"
    and es: "rj_events (ri_document s') = rj_events (ri_document s) @ es"
      "event_key ` set es = mutation_key ` set ms - ri_observed s"
    and final: "rj_status (ri_document s') = final_status (rj_events (ri_document s'))"
    and summary: "summary = summary_from_document (ri_document s')"
    and disk: "map_of (st_records st) (ri_record_name s) = Some (rh_encode (ia_host ia) (ri_document s'))"
    by (rule finalized_parts[OF f])
  have bad: "has_violations (Some (summary_from_document (ri_document s'))) \<longleftrightarrow> (\<exists>e \<in> set (rj_events (ri_document s')). rv_change_kind e = Deleted)"
    by (simp add: has_violations_def summary_parts filter_empty_conv is_deletion_def)
  have kinds: "(\<exists>e \<in> set es'. rv_change_kind e = Deleted) \<longleftrightarrow> Deleted \<in> snd ` event_key ` set es'" for es'
    by (simp add: event_key_def image_image image_iff eq_commute[of Deleted])
  have keys: "event_key ` set (rj_events (ri_document s'))
      = event_key ` set (rj_events (ri_document s)) \<union> mutation_key ` set ms"
    if "length (rj_events (ri_document s')) < MAX_RUNTIME_EVENTS"
  proof -
    have "observed_recorded s"
      using that session_history_inv[OF assms(2)] es(1) by (simp add: session_inv_def)
    from recorded_keys[OF this es] show ?thesis .
  qed
  have closed: "rj_status (ri_document s') \<noteq> IntegrityActive" by (simp add: final final_status_def)
  have all: "event_key ` set (rj_events (ri_document s'))
         = event_key ` set (rj_events (ri_document s)) \<union> mutation_key ` set ms
      \<and> (has_violations r \<longleftrightarrow>
           Deleted \<in> snd ` (event_key ` set (rj_events (ri_document s)) \<union> mutation_key ` set ms))"
    if "length (rj_events (ri_document s')) < MAX_RUNTIME_EVENTS"
    by (simp add: keys[OF that] r summary bad kinds)
  let ?report = "\<lparr>sr_process_stopped = was_running,
    sr_launch_provenance = rs_launch_provenance (gs_runtime g'), sr_integrity = r, sr_is_error = has_violations r\<rparr>"
  have report: "sr_integrity ?report = r" "sr_is_error ?report = has_violations r" by simp_all
  have last: "length (rj_events (ri_document s')) < MAX_RUNTIME_EVENTS \<longrightarrow>
      event_key ` set (rj_events (ri_document s'))
        = event_key ` set (rj_events (ri_document s)) \<union> mutation_key ` set ms
      \<and> (sr_is_error ?report \<longleftrightarrow>
           Deleted \<in> snd ` (event_key ` set (rj_events (ri_document s)) \<union> mutation_key ` set ms))"
    unfolding report using all by (rule impI)
  show ?thesis
    by (intro exI[of _ ?report] exI[of _ ms] exI[of _ s'] conjI last out)
      (simp_all only: report, simp_all add: bad closed g1 g' ms r summary disk)
qed

section \<open>Profiled launches\<close>

lemma observe_mutations_status:
  "observe_mutations t n ms s = (r, s') \<Longrightarrow> rj_status (ri_document s') = rj_status (ri_document s)
     \<and> rj_session_id (ri_document s') = rj_session_id (ri_document s)"
  by (induction t n ms s rule: observe_mutations.induct) (auto simp: Let_def split: if_splits)

lemma observe_now_status:
  assumes "observe_now h now out action s st = (Inr summary, s', st')"
  shows "summary = summary_from_document (ri_document s') \<and> rj_status (ri_document s') = rj_status (ri_document s)
     \<and> rj_session_id (ri_document s') = rj_session_id (ri_document s)"
  using assms observe_mutations_status
  by (auto simp: observe_now_def Let_def session_summary_def split: sum.splits prod.splits dest: observe_mutations_status)

lemma launch_ready_Inr:
  assumes "launch_ready la pp plan ob pid readiness g = Some (Inr (Inr report), g')"
  obtains g1 summary g2 where "runtime_running (la_running_ready la) g = (True, g1)"
    "observe_session (la_integrity la) ''launch_ready'' g1 = Some (Inr summary, g2)"
    "lr_integrity report = summary" "lr_launch_provenance report = pl_provenance plan" "lr_port report = pl_port plan"
    "lr_pid report = pid"
    "g' = (case summary of None \<Rightarrow> g2 | Some s \<Rightarrow> g2\<lparr>gs_integrity_summary := Some s\<rparr>)"
    "ob = rs_session (gs_runtime g)"
proof -
  obtain running g1 where run: "runtime_running (la_running_ready la) g = (running, g1)" by fastforce
  with assms have up: "running" "ob = rs_session (gs_runtime g)" by (auto simp: launch_ready_def split: if_splits)
  with assms run have body: "game_bind (observe_session (la_integrity la) ''launch_ready'' g1) (\<lambda>summary g.
          Some (Inr (Inr \<lparr>lr_pid = pid, lr_port = pl_port plan,
              lr_runtime_kind = (if pp = None then Standard else Tracy),
              lr_profiler_port = pp, lr_launch_provenance = pl_provenance plan,
              lr_readiness = readiness, lr_integrity = summary\<rparr>),
            (case summary of None \<Rightarrow> g | Some s \<Rightarrow> g\<lparr>gs_integrity_summary := Some s\<rparr>)))
      = Some (Inr (Inr report :: launch_end + launch_report), g')"
    by (simp add: launch_ready_def)
  then obtain summary g2 where "observe_session (la_integrity la) ''launch_ready'' g1 = Some (Inr summary, g2)"
    "report = \<lparr>lr_pid = pid, lr_port = pl_port plan, lr_runtime_kind = (if pp = None then Standard else Tracy),
              lr_profiler_port = pp, lr_launch_provenance = pl_provenance plan,
              lr_readiness = readiness, lr_integrity = summary\<rparr>"
    "g' = (case summary of None \<Rightarrow> g2 | Some s \<Rightarrow> g2\<lparr>gs_integrity_summary := Some s\<rparr>)"
    by (rule game_bindE) auto
  then show ?thesis using that run up by simp
qed

lemma wait_ready_Inr:
  assumes "wait_ready la pp args plan ob pid g = Some (Inr (Inr report), g')"
  obtains g1 readiness where "g1 = g \<or> g1 = la_during_wait la g"
    "launch_ready la pp plan ob pid readiness g1 = Some (Inr (Inr report), g')"
proof (cases "get_str args ''wait_for''")
  case None
  then show ?thesis using assms that[of g None] by (simp add: wait_ready_def)
next
  case (Some pattern)
  let ?w = "wait_for_output_value (la_regex la) pattern (flag args ''wait_regex'')
      (unat (pl_startup_timeout_ms plan)) (ia_now (la_integrity la)) (la_turns la)"
  obtain readiness where w: "?w = Some (Inr readiness)"
    using assms Some by (cases ?w) (auto simp: wait_ready_def Let_def split: sum.splits)
  have no_report: "game_bind m (\<lambda>_ g. game_bind (k g) (\<lambda>summary g. Some (Inr (Inl (x summary)), g)))
      \<noteq> Some (Inr (Inr report), g')" for m :: "unit game_step" and k :: "game_state \<Rightarrow> runtime_integrity_summary option game_step"
      and x :: "runtime_integrity_summary option \<Rightarrow> launch_end"
    by (auto elim!: game_bindE)
  show ?thesis
    using assms that[of "la_during_wait la g" "Some readiness"] no_report Some w
    by (cases readiness) (auto simp: wait_ready_def Let_def split: if_splits)
qed

lemma own_startup_Inr:
  assumes "own_startup c m = Some (Inr (Inr report), g')"
  shows "m = Some (Inr (Inr report), g')"
proof (cases m)
  case (Some rg)
  obtain r g where rg: "rg = (r, g)" by fastforce
  show ?thesis
  proof (cases r)
    case (Inr x)
    then show ?thesis using assms Some rg by (cases x) (simp_all add: own_startup_def)
  qed (use assms Some rg in \<open>simp add: own_startup_def\<close>)
qed (use assms in \<open>simp add: own_startup_def\<close>)

lemma start_process_Inr:
  assumes "start_process la pp args plan child g = Some (Inr (Inr report), g')"
  obtains process c pid g1 g2 g3 rs ob readiness where "child = (process, c, pid)"
    "register_process la pp plan process pid (g\<lparr>gs_runtime := (gs_runtime g)\<lparr>rs_containment := Some c\<rparr>\<rparr>) = Some (Inr (), g1)"
    "g2 = la_during_start la (g1\<lparr>gs_runtime := rs\<rparr>)"
    "runtime_running (la_running_started la) g2 = (True, g3)"
    "wait_ready la pp args plan ob pid g3 = Some (Inr (Inr report), g')"
proof -
  obtain process c pid where child: "child = (process, c, pid)" by (cases child)
  let ?m = "register_process la pp plan process pid (g\<lparr>gs_runtime := (gs_runtime g)\<lparr>rs_containment := Some c\<rparr>\<rparr>)"
  from own_startup_Inr assms have "game_bind ?m (\<lambda>_ g.
           let rs = fold add_runtime_output_task (la_tasks la) (gs_runtime g);
               rs = observe_runtime (la_observer la) True rs;
               observation = rs_session rs;
               g = la_during_start la (g\<lparr>gs_runtime := rs\<rparr>)
           in if observation \<noteq> rs_session (gs_runtime g) then Some (Inr (Inl SessionReplaced), g)
              else case runtime_running (la_running_started la) g of (running, g) \<Rightarrow>
                if \<not> running
                then game_bind (finalize_standard_integrity (la_cleanup_failed la) (la_integrity la) ''launch_failed'' g)
                       (\<lambda>summary g. Some (Inr (Inl (ExitedImmediately (rs_last_exit_code (gs_runtime g))
                          (recent_output (rs_output_log (gs_runtime g)) 50) summary)), g))
                else wait_ready la pp args plan observation pid g) = Some (Inr (Inr report), g')"
    unfolding start_process_def child by simp
  then obtain u g1 where reg: "?m = Some (Inr u, g1)" and rest: "(let rs = fold add_runtime_output_task (la_tasks la) (gs_runtime g1);
               rs = observe_runtime (la_observer la) True rs;
               observation = rs_session rs;
               g = la_during_start la (g1\<lparr>gs_runtime := rs\<rparr>)
           in if observation \<noteq> rs_session (gs_runtime g) then Some (Inr (Inl SessionReplaced), g)
              else case runtime_running (la_running_started la) g of (running, g) \<Rightarrow>
                if \<not> running
                then game_bind (finalize_standard_integrity (la_cleanup_failed la) (la_integrity la) ''launch_failed'' g)
                       (\<lambda>summary g. Some (Inr (Inl (ExitedImmediately (rs_last_exit_code (gs_runtime g))
                          (recent_output (rs_output_log (gs_runtime g)) 50) summary)), g))
                else wait_ready la pp args plan observation pid g) = Some (Inr (Inr report), g')"
    by (rule game_bindE)
  let ?rs = "observe_runtime (la_observer la) True (fold add_runtime_output_task (la_tasks la) (gs_runtime g1))"
  let ?g2 = "la_during_start la (g1\<lparr>gs_runtime := ?rs\<rparr>)"
  obtain running g3 where run: "runtime_running (la_running_started la) ?g2 = (running, g3)" by fastforce
  have no_report: "game_bind k (\<lambda>summary g. Some (Inr (Inl (x summary g)), g)) \<noteq> Some (Inr (Inr report), g')"
    for k :: "runtime_integrity_summary option game_step" and x :: "runtime_integrity_summary option \<Rightarrow> game_state \<Rightarrow> launch_end"
    by (auto elim!: game_bindE)
  from rest run no_report have "running" "wait_ready la pp args plan (rs_session ?rs) pid g3 = Some (Inr (Inr report), g')"
    by (auto simp: Let_def split: if_splits)
  then show ?thesis using that[OF child, of g1 ?g2 ?rs g3] reg run by simp
qed

text \<open>The parts of a launch that succeeded, from its plan to the readiness of the process.\<close>

lemma run_internal_Inr:
  assumes "run_internal w la args pp g = Some (Inr (Inr report), g')"
  obtains g0 r g1 plan g2 child where "runtime_running (la_running_before la) g = (False, g0)"
    "finalize_standard_integrity (la_cleanup_before la) (la_integrity la) ''natural_exit'' g0 = Some (Inr r, g1)"
    "plan_launch w args pp = Inr (Inr plan)"
    "create_session la pp plan (g1\<lparr>gs_runtime := clear_runtime_diagnostics (la_owned_clock la) (la_session la) (gs_runtime g1),
        gs_integrity_summary := None\<rparr>) = Some (Inr (), g2)"
    "la_spawn la (dreamdaemon_command (lw_var w) plan pp) = Inr child"
    "start_process la pp args plan child g2 = Some (Inr (Inr report), g')"
proof -
  obtain running g0 where run: "runtime_running (la_running_before la) g = (running, g0)" by fastforce
  with assms have idle: "\<not> running" by (auto simp: run_internal_def split: if_splits)
  with assms run obtain r g1 where fin: "finalize_standard_integrity (la_cleanup_before la) (la_integrity la) ''natural_exit'' g0 = Some (Inr r, g1)"
    and rest: "(case plan_launch w args pp of
            Inl e \<Rightarrow> Some (Inl e, g1)
          | Inr (Inl ended) \<Rightarrow> Some (Inr (Inl ended), g1)
          | Inr (Inr plan) \<Rightarrow>
              (let g = g1\<lparr>gs_runtime := clear_runtime_diagnostics (la_owned_clock la) (la_session la) (gs_runtime g1),
                         gs_integrity_summary := None\<rparr>
               in game_bind (create_session la pp plan g) (\<lambda>_ g.
                  case la_spawn la (dreamdaemon_command (lw_var w) plan pp) of
                    Inl e \<Rightarrow>
                      map_option (\<lambda>(_, g). (Inl (LaunchIo e), g))
                        (finalize_standard_integrity (la_cleanup_failed la) (la_integrity la) ''spawn_failed'' g)
                  | Inr child \<Rightarrow> start_process la pp args plan child g))) = Some (Inr (Inr report), g')"
    unfolding run_internal_def run by (simp, elim game_bindE) blast
  from rest obtain plan where plan: "plan_launch w args pp = Inr (Inr plan)" by (auto split: sum.splits)
  let ?g = "g1\<lparr>gs_runtime := clear_runtime_diagnostics (la_owned_clock la) (la_session la) (gs_runtime g1),
      gs_integrity_summary := None\<rparr>"
  from rest plan have "game_bind (create_session la pp plan ?g) (\<lambda>_ g.
                  case la_spawn la (dreamdaemon_command (lw_var w) plan pp) of
                    Inl e \<Rightarrow>
                      map_option (\<lambda>(_, g). (Inl (LaunchIo e), g))
                        (finalize_standard_integrity (la_cleanup_failed la) (la_integrity la) ''spawn_failed'' g)
                  | Inr child \<Rightarrow> start_process la pp args plan child g) = Some (Inr (Inr report), g')"
    by (simp add: Let_def)
  then obtain u g2 where made: "create_session la pp plan ?g = Some (Inr u, g2)"
    and start: "(case la_spawn la (dreamdaemon_command (lw_var w) plan pp) of
                    Inl e \<Rightarrow>
                      map_option (\<lambda>(_, g). (Inl (LaunchIo e), g))
                        (finalize_standard_integrity (la_cleanup_failed la) (la_integrity la) ''spawn_failed'' g2)
                  | Inr child \<Rightarrow> start_process la pp args plan child g2) = Some (Inr (Inr report), g')"
    by (rule game_bindE)
  from start obtain child where "start_process la pp args plan child g2 = Some (Inr (Inr report), g')"
    and "la_spawn la (dreamdaemon_command (lw_var w) plan pp) = Inr child"
    by (cases "la_spawn la (dreamdaemon_command (lw_var w) plan pp)") auto
  then show ?thesis using that[OF _ fin plan] run idle made by simp
qed

lemma finalize_standard_session:
  assumes "finalize_standard_integrity ca ia action g = Some (Inr r, g')" "gs_integrity g = Some s"
    and "rj_status (ri_document s) \<noteq> IntegrityActive"
  shows "\<exists>s'. gs_integrity g' = Some s' \<and> rj_status (ri_document s') \<noteq> IntegrityActive
     \<and> rj_session_id (ri_document s') = rj_session_id (ri_document s)"
proof (cases "unfinished_summary g")
  case True
  from finalize_standard_unfinished[OF assms(1) this assms(2)] obtain summary s' st where
      f: "session_finalize (ia_host ia) (ia_now ia) (ia_log ia) action s (gs_store g) = (Inr summary, s', st)"
    and s': "gs_integrity g' = Some s'" by (elim exE conjE)
  obtain s1 st1 report1 where now: "observe_now (ia_host ia) (ia_now ia) (ia_log ia) action s (gs_store g) = (Inr report1, s1, st1)"
    and e: "s' = s1\<lparr>ri_document := (ri_document s1)\<lparr>rj_status := final_status (rj_events (ri_document s1))\<rparr>\<rparr>"
    by (rule session_finalize_Inr[OF f])
  from observe_now_status[OF now] s' show ?thesis by (simp add: e final_status_def)
next
  case False
  then show ?thesis using finalize_standard_Inr[OF assms(1)] assms(2,3)
    by (auto simp: unfinished_summary_def split: option.splits)
qed

text \<open>
  C33. A profiled launch reports the integrity session of the game before it.  Nothing drops the
  session of a game that was stopped, and a profiled launch creates none, so when one succeeds
  after such a game it observes the finished session once more and rewrites its record, returns
  that session's identifier and final status as the integrity of the new process, and keeps the
  summary; whoever stops the profiled game is then given this summary, and no session is
  finalized.
\<close>

theorem profiled_launch_reports_stale_session:
  assumes "gs_integrity g = Some s" "rj_status (ri_document s) \<noteq> IntegrityActive"
    and "\<And>x. gs_integrity (la_during_start la x) = gs_integrity x"
    and "\<And>x. gs_integrity (la_during_wait la x) = gs_integrity x"
    and "run_profiled_with_lifecycle debugging w la args port g = Some (Inr (Inr report), g')"
  shows "\<exists>stale. lr_integrity report = Some stale \<and> ru_session_id stale = rj_session_id (ri_document s)
     \<and> ru_status stale \<noteq> IntegrityActive
     \<and> (\<forall>ca ia action r g''. finalize_standard_integrity ca ia action g' = Some (Inr r, g'') \<longrightarrow>
          r = Some stale \<and> gs_store g'' = gs_store g')"
proof -
  have "run_internal w la args (Some port) g = Some (Inr (Inr report), g')"
    using assms(5) by (simp add: run_profiled_with_lifecycle_def split: if_splits)
  then obtain g0 r g1 plan g2 child where idle: "runtime_running (la_running_before la) g = (False, g0)"
    and fin: "finalize_standard_integrity (la_cleanup_before la) (la_integrity la) ''natural_exit'' g0 = Some (Inr r, g1)"
    and made: "create_session la (Some port) plan (g1\<lparr>gs_runtime := clear_runtime_diagnostics (la_owned_clock la) (la_session la) (gs_runtime g1),
        gs_integrity_summary := None\<rparr>) = Some (Inr (), g2)"
    and start: "start_process la (Some port) args plan child g2 = Some (Inr (Inr report), g')"
    by (rule run_internal_Inr)
  have "gs_integrity g0 = Some s" using runtime_running_rest[OF idle] assms(1) by simp
  from finalize_standard_session[OF fin this assms(2)] obtain s1 where s1: "gs_integrity g1 = Some s1"
    "rj_status (ri_document s1) \<noteq> IntegrityActive" "rj_session_id (ri_document s1) = rj_session_id (ri_document s)"
    by (elim exE conjE)
  have g2: "gs_integrity g2 = Some s1" using made s1(1) by (auto simp: create_session_def)
  from start obtain process c pid a1 a2 a3 rs ob where
      reg: "register_process la (Some port) plan process pid (g2\<lparr>gs_runtime := (gs_runtime g2)\<lparr>rs_containment := Some c\<rparr>\<rparr>) = Some (Inr (), a1)"
    and a2: "a2 = la_during_start la (a1\<lparr>gs_runtime := rs\<rparr>)"
    and run: "runtime_running (la_running_started la) a2 = (True, a3)"
    and wait: "wait_ready la (Some port) args plan ob pid a3 = Some (Inr (Inr report), g')"
    by (rule start_process_Inr)
  have "gs_integrity a1 = Some s1" using reg g2 by (auto simp: register_process_def Let_def)
  then have a3: "gs_integrity a3 = Some s1" using runtime_running_rest[OF run] by (simp add: a2 assms(3))
  from wait obtain a4 readiness where a4: "a4 = a3 \<or> a4 = la_during_wait la a3"
    and ready: "launch_ready la (Some port) plan ob pid readiness a4 = Some (Inr (Inr report), g')"
    by (rule wait_ready_Inr)
  from ready obtain a5 summary a6 where up: "runtime_running (la_running_ready la) a4 = (True, a5)"
    and seen: "observe_session (la_integrity la) ''launch_ready'' a5 = Some (Inr summary, a6)"
    and rep: "lr_integrity report = summary"
    and g': "g' = (case summary of None \<Rightarrow> a6 | Some s \<Rightarrow> a6\<lparr>gs_integrity_summary := Some s\<rparr>)"
    by (rule launch_ready_Inr)
  have a5: "gs_integrity a5 = Some s1" using a4 a3 runtime_running_rest[OF up] assms(4) by auto
  from seen a5 obtain stale s2 st where now: "observe_now (ia_host (la_integrity la)) (ia_now (la_integrity la))
      (ia_log (la_integrity la)) ''launch_ready'' s1 (gs_store a5) = (Inr stale, s2, st)" and stale: "summary = Some stale"
    by (auto simp: observe_session_def Let_def split: prod.splits sum.splits)
  note st = observe_now_status[OF now]
  have status: "ru_status stale \<noteq> IntegrityActive" "ru_session_id stale = rj_session_id (ri_document s)"
    using st s1 by (simp_all add: summary_from_document_def)
  have "gs_integrity_summary g' = Some stale" by (simp add: g' stale)
  then have later: "r = Some stale \<and> gs_store g'' = gs_store g'"
    if "finalize_standard_integrity ca ia action g' = Some (Inr r, g'')" for ca ia action r g''
    using finalize_standard_Inr[OF that] status(1) by simp
  show ?thesis
    by (rule exI[of _ stale]) (use rep stale status later in simp)
qed

lemma string_arguments_Inr: "string_arguments vs = Inr xs \<longleftrightarrow> vs = map JStr xs"
proof (induction vs arbitrary: xs)
  case (Cons v vs)
  then show ?case by (cases xs) (auto simp: string_arguments_def rbind_Inr or_err_Inr as_str_Some)
qed (auto simp: string_arguments_def)

text \<open>The strings the caller gave for \<open>daemon_args\<close>: none unless the member is an array.\<close>

definition caller_arguments :: "json \<Rightarrow> string list \<Rightarrow> bool" where
  "caller_arguments args extra \<longleftrightarrow>
     (case Option.bind (json_get args ''daemon_args'') as_array of
        None \<Rightarrow> extra = [] | Some values \<Rightarrow> values = map JStr extra)"

lemma daemon_arguments_Inr: "daemon_arguments args = Inr extra \<longleftrightarrow> caller_arguments args extra"
  by (auto simp: daemon_arguments_def caller_arguments_def string_arguments_Inr split: option.split)

text \<open>
  C34. A game that was launched passed the gate, and this is how it was started: a successful
  launch, standard or profiled, has resolved the requested file to a canonical path that
  \<open>require_launchable_artifact\<close> let through for the requested strictness, and reports exactly the
  provenance the gate returned; the port is in \<open>1 .. 65535\<close>; and the reported process is the
  operating system's answer to one command: the \<open>DreamDaemon\<close> found, with that file, that port,
  \<open>-trusted\<close> and \<open>-logself\<close>, then the caller's strings in their order, then \<open>-params tracy\<close> when
  profiled and nothing else, in the file's directory, with the server's environment or, when
  profiled, the minimal one and the profiler's loopback address and port.
\<close>

theorem launched_game_passed_gate:
  assumes "run_internal w la args profiler_port g = Some (Inr (Inr report), g')"
  shows "\<exists>dmb_path p dir daemon extra process containment.
     get_str args ''dmb_path'' = Some dmb_path
     \<and> fs_canonicalize (fh_fs (lw_disk w)) (launch_path (fh_fs (lw_disk w)) args dmb_path) = Inr p
     \<and> require_launchable_artifact (lw_disk w) (lw_provenance w) p
          (flag args ''require_verified_provenance'') = Inr (lr_launch_provenance report)
     \<and> 1 \<le> lr_port report \<and> lr_port report \<le> 65535
     \<and> parent (normalize_spawn_path p) = Some dir
     \<and> find_dreamdaemon_for_compilers (lw_disk w) (lw_which w) (lw_compilers w) = Some daemon
     \<and> caller_arguments args extra
     \<and> la_spawn la \<lparr>sc_program = daemon,
          sc_args = [fs_display (fh_fs (lw_disk w)) (normalize_spawn_path p), show_nat (unat (lr_port report)),
              ''-trusted'', ''-logself''] @ extra @ (if profiler_port = None then [] else [''-params'', ''tracy'']),
          sc_current_dir = dir,
          sc_environment = map_option (profiler_environment (lw_var w)) profiler_port\<rparr>
        = Inr (process, containment, lr_pid report)"
proof -
  from assms obtain plan g2 child where plan: "plan_launch w args profiler_port = Inr (Inr plan)"
    and spawn: "la_spawn la (dreamdaemon_command (lw_var w) plan profiler_port) = Inr child"
    and start: "start_process la profiler_port args plan child g2 = Some (Inr (Inr report), g')"
    by (rule run_internal_Inr)
  from start obtain process containment pid ob a3 where child: "child = (process, containment, pid)"
    and wait: "wait_ready la profiler_port args plan ob pid a3 = Some (Inr (Inr report), g')"
    by (rule start_process_Inr)
  from wait obtain a4 readiness where "launch_ready la profiler_port plan ob pid readiness a4 = Some (Inr (Inr report), g')"
    by (rule wait_ready_Inr)
  then have rep: "lr_launch_provenance report = pl_provenance plan" "lr_port report = pl_port plan" "lr_pid report = pid"
    by (rule launch_ready_Inr, simp)+
  let ?h = "lw_disk w" and ?fs = "fh_fs (lw_disk w)"
  let ?tracy = "if profiler_port = None then [] else [''-params'', ''tracy'']"
  from plan obtain dmb_path port p dir extra provenance daemon where parts:
      "get_str args ''dmb_path'' = Some dmb_path" "bounded_u64 args ''port'' 1337 1 65535 = Inr port"
      "fs_canonicalize ?fs (launch_path ?fs args dmb_path) = Inr p"
      "require_launchable_artifact ?h (lw_provenance w) p (flag args ''require_verified_provenance'') = Inr provenance"
      "parent (normalize_spawn_path p) = Some dir" "daemon_arguments args = Inr extra"
      "find_dreamdaemon_for_compilers ?h (lw_which w) (lw_compilers w) = Some daemon"
    and plan_is: "pl_port plan = port" "pl_provenance plan = provenance" "pl_dreamdaemon plan = daemon"
      "pl_working_directory plan = dir"
      "pl_daemon_args plan = build_dreamdaemon_args ?fs (normalize_spawn_path p) (show_nat (unat port)) (extra @ ?tracy)"
    unfolding plan_launch_def Let_def rbind_Inr or_err_Inr map_err_Inr
    by (auto simp: rbind_Inr or_err_Inr map_err_Inr split: if_splits sum.splits)
  have port: "1 \<le> port \<and> port \<le> 65535"
    using parts(2) by (auto simp: bounded_u64_def rbind_Inr split: if_splits)
  have command: "dreamdaemon_command (lw_var w) plan profiler_port = \<lparr>sc_program = daemon,
          sc_args = [fs_display ?fs (normalize_spawn_path p), show_nat (unat port), ''-trusted'', ''-logself''] @ extra @ ?tracy,
          sc_current_dir = dir, sc_environment = map_option (profiler_environment (lw_var w)) profiler_port\<rparr>"
    by (simp add: dreamdaemon_command_def plan_is build_dreamdaemon_args_def)
  have args: "caller_arguments args extra" using parts(6) by (simp add: daemon_arguments_Inr)
  show ?thesis
    using spawn by (intro exI[of _ dmb_path] exI[of _ p] exI[of _ dir] exI[of _ daemon] exI[of _ extra]
        exI[of _ process] exI[of _ containment]) (simp add: rep plan_is parts port args command child)
qed

section \<open>Witnesses\<close>

text \<open>
  A standard game has been stopped, its session finalized; then \<open>Game.dmb\<close> is launched without
  a wait, and stays alive.  Nothing else happens in between.
\<close>

definition demo_integrity_answers :: integrity_answers where
  "demo_integrity_answers = \<lparr>ia_host = demo_store_host ''0'', ia_now = 7, ia_log = output_buffer_default 0\<rparr>"

definition demo_launch_world :: launch_world where
  "demo_launch_world = \<lparr>lw_disk = w_host\<lparr>fh_fs := (fh_fs w_host)\<lparr>fs_from_str := w_path\<rparr>\<rparr>, lw_provenance = None,
     lw_compilers = [], lw_which = (\<lambda>_. Some (w_path ''DreamDaemon'')),
     lw_var = (\<lambda>name. if name = ''PATH'' then Some ''/bin'' else None)\<rparr>"

definition demo_cleanup :: cleanup_answers where
  "demo_cleanup = \<lparr>ca_request = Inr (), ca_started = 0, ca_polls = (\<lambda>_. (Inr True, 0))\<rparr>"

definition demo_game_stop :: stop_answers where
  "demo_game_stop = \<lparr>sa_request = Inr (), sa_kill = Inr (), sa_wait = Inr (Some 0), sa_cleanup = demo_cleanup\<rparr>"

definition demo_answers :: launch_answers where
  "demo_answers = \<lparr>la_running_before = StillRunning, la_cleanup_before = demo_cleanup,
     la_integrity = demo_integrity_answers, la_private_state = True, la_snapshot_environment = None,
     la_random = Inr ''0'', la_owned_clock = 1, la_session = 2, la_spawn = (\<lambda>_. Inr (3, 4, Some 5)), la_tasks = [6],
     la_observer = 7, la_during_start = (\<lambda>g. g), la_running_started = StillRunning, la_during_wait = (\<lambda>g. g),
     la_regex = (\<lambda>_. Inl ''''), la_turns = [], la_stop = demo_game_stop, la_running_ready = StillRunning,
     la_cleanup_failed = demo_cleanup\<rparr>"

definition demo_finished :: runtime_integrity_session where
  "demo_finished = (demo_session [])\<lparr>ri_document := (ri_document (demo_session []))\<lparr>rj_status := FinalizedClean\<rparr>\<rparr>"

definition demo_game :: "runtime_integrity_session \<Rightarrow> game_state" where
  "demo_game s = \<lparr>gs_runtime = runtime_new 0 1, gs_integrity = Some s, gs_integrity_stop = False,
     gs_integrity_summary = Some (session_summary s), gs_store = \<lparr>st_records = [], st_held = []\<rparr>\<rparr>"

definition demo_request :: json where
  "demo_request = JObj [(''dmb_path'', JStr ''Game.dmb'')]"

lemma demo_observe:
  "\<exists>summary s' st'. observe_now (demo_store_host ''0'') 7 (output_buffer_default 0) action
      (demo_session []\<lparr>ri_document := (ri_document (demo_session []))\<lparr>rj_status := status'\<rparr>\<rparr>) st = (Inr summary, s', st')"
proof -
  have "current_mutations (demo_store_host ''0'') (demo_session []\<lparr>ri_document := (ri_document (demo_session []))\<lparr>rj_status := status'\<rparr>\<rparr>)
      = current_mutations (demo_store_host ''0'') (demo_session [])" by (simp add: current_mutations_def)
  then show ?thesis
    unfolding observe_now_def demo_mutations
    by (simp add: demo_mutations demo_session_def demo_store_host_def persist_session_def write_journal_def Let_def
        MAX_RUNTIME_EVENTS_def)
qed

lemma demo_plan:
  "\<exists>plan. plan_launch demo_launch_world demo_request pp = Inr (Inr plan)"
proof -
  let ?fs = "fh_fs (lw_disk demo_launch_world)"
  have absent: "json_get demo_request ''port'' = None" "json_get demo_request ''startup_timeout_ms'' = None" by code_simp+
  have request: "bounded_u64 demo_request ''port'' 1337 1 65535 = Inr 1337"
    "bounded_u64 demo_request ''startup_timeout_ms'' (of_nat DEFAULT_OUTPUT_WAIT_TIMEOUT_MS) 1 (of_nat MAX_OUTPUT_WAIT_TIMEOUT_MS)
       = Inr (of_nat DEFAULT_OUTPUT_WAIT_TIMEOUT_MS)"
    by (simp_all add: bounded_u64_def absent MAX_OUTPUT_WAIT_TIMEOUT_MS_def DEFAULT_OUTPUT_WAIT_TIMEOUT_MS_def)
  have strings: "get_str demo_request ''dmb_path'' = Some ''Game.dmb''" "daemon_arguments demo_request = Inr []"
    "flag demo_request ''require_verified_provenance'' = False" by code_simp+
  have path: "launch_path ?fs demo_request ''Game.dmb'' = w_path ''Game.dmb''" by code_simp
  have there: "fs_exists ?fs (w_path ''Game.dmb'')" "fs_canonicalize ?fs (w_path ''Game.dmb'') = Inr (w_path ''Game.dmb'')"
    by (simp_all add: demo_launch_world_def w_host_def w_files_def)
  have dir: "parent (w_path ''Game.dmb'') = Some [RootDir, Normal ''w'']" by code_simp
  have daemon: "find_dreamdaemon_for_compilers (lw_disk demo_launch_world) (lw_which demo_launch_world) (lw_compilers demo_launch_world)
       = Some (w_path ''DreamDaemon'')"
    by (simp add: find_dreamdaemon_for_compilers_def find_dreamdaemon_def sibling_candidates_def demo_launch_world_def)
  have seen: "capture_file_identity (lw_disk demo_launch_world) (w_path ''Game.dmb'') = Inr (w_identity ''Game.dmb'')"
    by code_simp
  have "\<exists>launch. require_launchable_artifact (lw_disk demo_launch_world) (lw_provenance demo_launch_world) (w_path ''Game.dmb'') False
     = Inr launch"
    by (simp add: launchable_Inr seen store_decision_def) (simp add: demo_launch_world_def)
  then obtain launch where gate: "require_launchable_artifact (lw_disk demo_launch_world)
      (lw_provenance demo_launch_world) (w_path ''Game.dmb'') False = Inr launch" by (elim exE)
  show ?thesis
    by (simp add: plan_launch_def request strings path there dir daemon gate Let_def or_err_def normalize_spawn_path_def map_err_def)
qed

lemma demo_no_wait: "get_str demo_request ''wait_for'' = None"
  by code_simp

lemma demo_finished_summary: "ru_status (session_summary demo_finished) = FinalizedClean"
  by (simp add: session_summary_def summary_from_document_def demo_finished_def)

lemma demo_launch:
  "\<exists>report g'. run_internal demo_launch_world demo_answers demo_request (Some 9) (demo_game demo_finished)
     = Some (Inr (Inr report), g')"
proof -
  obtain plan where plan: "plan_launch demo_launch_world demo_request (Some 9) = Inr (Inr plan)"
    using demo_plan by blast
  let ?g = "(demo_game demo_finished)\<lparr>gs_runtime := clear_runtime_diagnostics 1 2 (runtime_new 0 1), gs_integrity_summary := None\<rparr>"
  have before: "runtime_running StillRunning (demo_game demo_finished) = (False, demo_game demo_finished)"
    "finalize_standard_integrity demo_cleanup demo_integrity_answers ''natural_exit'' (demo_game demo_finished)
       = Some (Inr (Some (session_summary demo_finished)), demo_game demo_finished)"
    by (simp_all add: runtime_running_def is_game_running_def demo_game_def runtime_new_def
        finalize_standard_integrity_def finish_runtime_cleanup_def demo_finished_summary)
  have "\<exists>report g'. start_process demo_answers (Some 9) demo_request plan (3, 4, Some 5) ?g = Some (Inr (Inr report), g')"
  proof -
    obtain summary s' st' where now: "observe_now (demo_store_host ''0'') 7 (output_buffer_default 0) ''launch_ready''
        demo_finished \<lparr>st_records = [], st_held = []\<rparr> = (Inr summary, s', st')"
      using demo_observe unfolding demo_finished_def by blast
    show ?thesis
      by (simp add: start_process_def demo_answers_def register_process_def game_bind_def own_startup_def Let_def
          set_profiled_game_process_def set_game_process_def abort_runtime_output_tasks_def effect_def add_runtime_output_task_def observe_runtime_def
          publish_process_status_def clear_runtime_diagnostics_def demo_game_def runtime_new_def opt_list_def
          runtime_running_def is_game_running_def wait_ready_def demo_no_wait launch_ready_def observe_session_def
          demo_integrity_answers_def now)
  qed
  then show ?thesis
    using before plan
    by (simp add: run_internal_def game_bind_def Let_def create_session_def demo_answers_def demo_game_def)
qed

theorem profiled_launch_reports_stale_session_witness:
  "\<exists>report g' stale. run_profiled_with_lifecycle False demo_launch_world demo_answers demo_request 9 (demo_game demo_finished)
       = Some (Inr (Inr report), g')
     \<and> lr_integrity report = Some stale \<and> ru_session_id stale = demo_session_id"
proof -
  obtain report g' where run: "run_internal demo_launch_world demo_answers demo_request (Some 9) (demo_game demo_finished)
     = Some (Inr (Inr report), g')" using demo_launch by blast
  then have start: "run_profiled_with_lifecycle False demo_launch_world demo_answers demo_request 9 (demo_game demo_finished)
       = Some (Inr (Inr report), g')" by (simp add: run_profiled_with_lifecycle_def)
  from profiled_launch_reports_stale_session[of "demo_game demo_finished" demo_finished, OF _ _ _ _ start]
  obtain stale where "lr_integrity report = Some stale" "ru_session_id stale = demo_session_id"
    by (auto simp: demo_game_def demo_finished_def demo_answers_def demo_session_def)
  with start show ?thesis by blast
qed

theorem launched_game_passed_gate_witness:
  "\<exists>p (report :: launch_report).
     require_launchable_artifact (lw_disk demo_launch_world) None p False = Inr (lr_launch_provenance report)
     \<and> 1 \<le> lr_port report \<and> lr_port report \<le> 65535 \<and> lr_pid report = Some 5"
proof -
  obtain report g' where run: "run_internal demo_launch_world demo_answers demo_request (Some 9) (demo_game demo_finished)
     = Some (Inr (Inr report), g')" using demo_launch by blast
  have f: "flag demo_request ''require_verified_provenance'' = False" by code_simp
  have n: "lw_provenance demo_launch_world = None" by (simp add: demo_launch_world_def)
  from launched_game_passed_gate[OF run, unfolded f n] obtain p process containment c where
      r: "require_launchable_artifact (lw_disk demo_launch_world) None p False = Inr (lr_launch_provenance report)"
      "1 \<le> lr_port report" "lr_port report \<le> 65535"
    and "la_spawn demo_answers c = Inr (process, containment, lr_pid report)" by (elim exE conjE)
  then have "lr_pid report = Some 5" by (simp add: demo_answers_def)
  with r show ?thesis by blast
qed

theorem stop_reports_and_finalizes_witness:
  "\<exists>report g' s'. stop_with_lifecycle StillRunning demo_game_stop demo_cleanup demo_integrity_answers
       ((demo_game (demo_session []))\<lparr>gs_runtime := (runtime_new 0 1)\<lparr>rs_game_process := Some 3\<rparr>\<rparr>)
       = Some (Inr (Stopped report), g')
     \<and> rs_game_process (gs_runtime g') = None \<and> sr_is_error report
     \<and> gs_integrity g' = Some s' \<and> event_key ` set (rj_events (ri_document s')) = {(''c'', Deleted)}"
proof -
  let ?g = "(demo_game (demo_session []))\<lparr>gs_runtime := (runtime_new 0 1)\<lparr>rs_game_process := Some 3\<rparr>\<rparr>"
  have up: "unfinished_summary ?g"
    by (simp add: unfinished_summary_def demo_game_def session_summary_def summary_from_document_def demo_session_def)
  obtain summary s' st' where fin: "session_finalize (demo_store_host ''0'') 7 (output_buffer_default 0) ''stopped''
      (demo_session []) \<lparr>st_records = [], st_held = []\<rparr> = (Inr summary, s', st')"
    and few': "length (rj_events (ri_document s')) < MAX_RUNTIME_EVENTS"
    unfolding session_finalize_def observe_now_def demo_mutations
    by (simp add: demo_mutation_key final_status_def persist_session_def write_journal_def demo_session_def
        demo_store_host_def Let_def MAX_RUNTIME_EVENTS_def)
  have active: "ru_status (session_summary (demo_session [])) = IntegrityActive"
    by (simp add: session_summary_def summary_from_document_def demo_session_def)
  have "\<exists>out g'. stop_with_lifecycle StillRunning demo_game_stop demo_cleanup demo_integrity_answers ?g = Some (Inr out, g')
      \<and> gs_integrity g' = Some s'"
    by (simp add: stop_with_lifecycle_def runtime_running_def is_game_running_def demo_game_def runtime_new_def
        game_bind_def stop_process_def stop_game_process_def kill_game_process_def demo_game_stop_def Let_def opt_list_def
        effect_def finish_runtime_cleanup_def stop_finished_def publish_process_status_def
        abort_runtime_output_tasks_def finalize_standard_integrity_def active finalize_session_def
        demo_integrity_answers_def fin map_err_def)
  then obtain out g' where run: "stop_with_lifecycle StillRunning demo_game_stop demo_cleanup demo_integrity_answers ?g = Some (Inr out, g')"
    and fin_session: "gs_integrity g' = Some s'"
    by blast
  have s: "gs_integrity ?g = Some (demo_session [])" by (simp add: demo_game_def)
  from stop_reports_and_finalizes[OF s demo_session_history up run]
  obtain report ms s1 where r: "out = Stopped report" "rs_game_process (gs_runtime g') = None"
    "current_mutations (ia_host demo_integrity_answers) (demo_session []) = Inr ms" "gs_integrity g' = Some s1"
    and below: "length (rj_events (ri_document s1)) < MAX_RUNTIME_EVENTS \<longrightarrow>
      event_key ` set (rj_events (ri_document s1))
         = event_key ` set (rj_events (ri_document (demo_session []))) \<union> mutation_key ` set ms
      \<and> (sr_is_error report \<longleftrightarrow>
           Deleted \<in> snd ` (event_key ` set (rj_events (ri_document (demo_session []))) \<union> mutation_key ` set ms))"
    by (elim exE conjE)
  have same: "s1 = s'"
    using r(1,2,4) run fin_session by simp
  have few: "length (rj_events (ri_document s1)) < MAX_RUNTIME_EVENTS" using few' by (simp add: same)
  have ms: "ms = [mutation ''c'' Deleted (Some demo_identity_c) None]"
    using r(3) demo_mutations by (simp add: demo_integrity_answers_def)
  have none: "rj_events (ri_document (demo_session [])) = []" by (simp add: demo_session_def)
  have "event_key ` set (rj_events (ri_document s1)) = {(''c'', Deleted)}" "sr_is_error report"
    using mp[OF below few] by (simp_all add: none ms demo_mutation_key)
  then show ?thesis using run r(1,2,4) by (intro exI conjI) simp_all
qed

end
