(* ===== verification/Search_Index.thy ===== *)
theory Search_Index
  imports Btree_Groups Ranking Text_Lines Byte_Codec Proc_Resolution
begin

text \<open>
  The lexical search index, from \<open>src/search.rs\<close>: documents for types, procedures and
  variables, an inverted index of weighted terms, and a query that scores by BM25 and keeps the
  best hits.  The arithmetic of \<open>f64\<close> is an argument (\<open>f64_ops\<close>), its type ordered by
  \<open>total_cmp\<close>; the Unicode tables behind \<open>is_alphanumeric\<close> and \<open>to_lowercase\<close> are used on
  non-ASCII text only and are an argument too (\<open>unicode\<close>).  The order in which a \<open>HashMap\<close> is
  iterated is unspecified; the model iterates in key order.
\<close>

section \<open>Text\<close>

record unicode =
  u_alphanumeric :: "string \<Rightarrow> bool"
  u_lowercase :: "string \<Rightarrow> string"

definition is_ascii_char :: "char \<Rightarrow> bool" where
  "is_ascii_char c \<longleftrightarrow> (of_char c :: nat) < 128"

definition is_ascii :: "string \<Rightarrow> bool" where
  "is_ascii s \<longleftrightarrow> list_all is_ascii_char s"

definition ascii_upper :: "char \<Rightarrow> bool" where
  "ascii_upper c \<longleftrightarrow> 65 \<le> (of_char c :: nat) \<and> (of_char c :: nat) \<le> 90"

definition ascii_alphanumeric :: "char \<Rightarrow> bool" where
  "ascii_alphanumeric c \<longleftrightarrow>
     is_digit c \<or> ascii_upper c \<or> 97 \<le> (of_char c :: nat) \<and> (of_char c :: nat) \<le> 122"

definition to_lowercase :: "unicode \<Rightarrow> string \<Rightarrow> string" where
  "to_lowercase u s = (if is_ascii s then to_ascii_lowercase s else u_lowercase u s)"

text \<open>The characters of a text, each as its bytes.\<close>

function utf8_chars :: "string \<Rightarrow> string list" where
  "utf8_chars s =
     (if s = [] then []
      else take (snd (first_sequence s)) s # utf8_chars (drop (snd (first_sequence s)) s))"
  by pat_completeness auto

termination
  using first_sequence_pos by (relation "measure length") auto

declare utf8_chars.simps [simp del]

definition alphanumeric :: "unicode \<Rightarrow> string \<Rightarrow> bool" where
  "alphanumeric u c =
     (case c of [b] \<Rightarrow> if is_ascii_char b then ascii_alphanumeric b else u_alphanumeric u c
      | _ \<Rightarrow> u_alphanumeric u c)"

text \<open>\<open>text.split(|c| !c.is_alphanumeric())\<close>\<close>

fun split_chars :: "(string \<Rightarrow> bool) \<Rightarrow> string list \<Rightarrow> string list" where
  "split_chars inside [] = [[]]"
| "split_chars inside (c # cs) =
     (if inside c then (case split_chars inside cs of [] \<Rightarrow> [c] | p # ps \<Rightarrow> (c @ p) # ps)
      else [] # split_chars inside cs)"

definition tokenize :: "unicode \<Rightarrow> string \<Rightarrow> string list" where
  "tokenize u s =
     map (to_lowercase u)
       (filter (\<lambda>t. t \<noteq> []) (split_chars (alphanumeric u) (utf8_chars s)))"

definition equals_case_insensitive :: "unicode \<Rightarrow> string \<Rightarrow> string \<Rightarrow> bool" where
  "equals_case_insensitive u s normalized_query =
     (if is_ascii s \<and> is_ascii normalized_query then eq_ignore_ascii_case s normalized_query
      else to_lowercase u s = normalized_query)"

definition starts_with_case_insensitive :: "unicode \<Rightarrow> string \<Rightarrow> string \<Rightarrow> bool" where
  "starts_with_case_insensitive u s normalized_prefix =
     (if is_ascii s \<and> is_ascii normalized_prefix
      then length normalized_prefix \<le> length s \<and>
           eq_ignore_ascii_case (take (length normalized_prefix) s) normalized_prefix
      else prefix normalized_prefix (to_lowercase u s))"

definition contains_case_insensitive :: "unicode \<Rightarrow> string \<Rightarrow> string \<Rightarrow> bool" where
  "contains_case_insensitive u s normalized_needle =
     (if is_ascii s \<and> is_ascii normalized_needle
      then (if list_all (\<lambda>b. \<not> ascii_upper b) s then is_substring normalized_needle s
            else is_substring normalized_needle (to_ascii_lowercase s))
      else is_substring normalized_needle (to_lowercase u s))"

definition member_symbol :: "string \<Rightarrow> string \<Rightarrow> string \<Rightarrow> string" where
  "member_symbol type_path kind name =
     (if type_path = [] then ''/'' @ kind @ ''/'' @ name
      else type_path @ ''/'' @ kind @ ''/'' @ name)"

definition normalize_path_text :: "string \<Rightarrow> string" where
  "normalize_path_text p = to_ascii_lowercase (replace_char (CHR 0x5C) (CHR 0x2F) p)"

section \<open>Documents\<close>

datatype symbol_kind = TypeSymbol | ProcSymbol | VarSymbol

definition symbol_kind_as_str :: "symbol_kind \<Rightarrow> string" where
  "symbol_kind_as_str k =
     (case k of TypeSymbol \<Rightarrow> ''type'' | ProcSymbol \<Rightarrow> ''proc'' | VarSymbol \<Rightarrow> ''var'')"

record search_document =
  do_kind :: symbol_kind
  do_symbol :: string
  do_name :: string
  do_type_path :: string
  do_implementation_owner :: "string option"
  do_declaration_owner :: "string option"
  do_parent :: "string option"
  do_file :: string
  do_line :: u32
  do_column :: u32
  do_docs :: string
  do_source :: "string option"
  do_parameters :: "string list"
  do_override_index :: "nat option"
  do_override_count :: "nat option"

record search_request =
  rq_query :: string
  rq_kind :: "symbol_kind option"
  rq_type_prefix :: "string option"
  rq_file_filter :: "string option"
  rq_limit :: nat

definition weighted_fields :: "search_document \<Rightarrow> (string \<times> u32) list" where
  "weighted_fields d =
     [(do_name d, 10), (do_symbol d, 8), (do_type_path d, 5), (do_docs d, 4),
      (join_with (CHR 0x20) (do_parameters d), 4),
      (case do_parent d of Some p \<Rightarrow> p | None \<Rightarrow> [], 2),
      (do_file d, 2),
      (case do_source d of Some s \<Rightarrow> s | None \<Rightarrow> [], 1)]"

definition add_frequency :: "u32 \<Rightarrow> u32 \<Rightarrow> u32" where
  "add_frequency weight frequency = frequency + weight"

definition add_weighted_terms ::
  "unicode \<Rightarrow> (string, u32) btree_map \<Rightarrow> string \<Rightarrow> u32 \<Rightarrow> (string, u32) btree_map" where
  "add_weighted_terms u terms s weight =
     group_all add_frequency 0 (map (\<lambda>t. (t, weight)) (tokenize u s)) terms"

definition weighted_terms :: "unicode \<Rightarrow> search_document \<Rightarrow> (string, u32) btree_map" where
  "weighted_terms u d =
     fold (\<lambda>(s, weight) terms. add_weighted_terms u terms s weight) (weighted_fields d) []"

section \<open>The index\<close>

record 'f f64_ops =
  f_lit :: "nat \<Rightarrow> nat \<Rightarrow> 'f"
  f_add :: "'f \<Rightarrow> 'f \<Rightarrow> 'f"
  f_sub :: "'f \<Rightarrow> 'f \<Rightarrow> 'f"
  f_mul :: "'f \<Rightarrow> 'f \<Rightarrow> 'f"
  f_div :: "'f \<Rightarrow> 'f \<Rightarrow> 'f"
  f_ln :: "'f \<Rightarrow> 'f"
  f_gt :: "'f \<Rightarrow> 'f \<Rightarrow> bool"
  f_eq :: "'f \<Rightarrow> 'f \<Rightarrow> bool"

text \<open>\<open>f_lit a k\<close> is the literal \<open>a / 10 ^ k\<close>, rounded; \<open>f_of\<close> is the conversion \<open>n as f64\<close>.\<close>

definition f_of :: "('f, 'm) f64_ops_scheme \<Rightarrow> nat \<Rightarrow> 'f" where
  "f_of F n = f_lit F n 0"

definition BM25_K1 :: "('f, 'm) f64_ops_scheme \<Rightarrow> 'f" where
  "BM25_K1 F = f_lit F 12 1"

definition BM25_B :: "('f, 'm) f64_ops_scheme \<Rightarrow> 'f" where
  "BM25_B F = f_lit F 75 2"

definition EXACT_SYMBOL_BOOST :: "('f, 'm) f64_ops_scheme \<Rightarrow> 'f" where
  "EXACT_SYMBOL_BOOST F = f_lit F 120 1"

definition EXACT_NAME_BOOST :: "('f, 'm) f64_ops_scheme \<Rightarrow> 'f" where
  "EXACT_NAME_BOOST F = f_lit F 60 1"

definition PHRASE_BOOST :: "('f, 'm) f64_ops_scheme \<Rightarrow> 'f" where
  "PHRASE_BOOST F = f_lit F 20 1"

definition INDEX_SOURCE_LINES :: nat where
  "INDEX_SOURCE_LINES = 80"

record 'f posting =
  po_document_id :: nat
  po_term_frequency :: 'f

record 'f search_index =
  sx_documents :: "search_document list"
  sx_postings :: "(string, 'f posting list) btree_map"
  sx_exact_symbols :: "(string, nat list) btree_map"
  sx_exact_names :: "(string, nat list) btree_map"
  sx_document_lengths :: "'f list"
  sx_average_document_length :: 'f

text \<open>\<open>iter().sum::<f64>()\<close> adds from zero in order.\<close>

definition f_sum :: "('f, 'm) f64_ops_scheme \<Rightarrow> 'f list \<Rightarrow> 'f" where
  "f_sum F xs = foldl (f_add F) (f_of F 0) xs"

definition document_length :: "('f, 'm) f64_ops_scheme \<Rightarrow> unicode \<Rightarrow> search_document \<Rightarrow> 'f" where
  "document_length F u d = f_sum F (map (\<lambda>(_, frequency). f_of F (unat frequency)) (weighted_terms u d))"

definition document_postings ::
  "('f, 'm) f64_ops_scheme \<Rightarrow> unicode \<Rightarrow> nat \<times> search_document \<Rightarrow> (string \<times> 'f posting) list" where
  "document_postings F u d =
     (case d of (document_id, document) \<Rightarrow>
        map (\<lambda>(t, frequency).
               (t, \<lparr>po_document_id = document_id, po_term_frequency = f_of F (unat frequency)\<rparr>))
          (weighted_terms u document))"

definition search_index_new ::
  "('f, 'm) f64_ops_scheme \<Rightarrow> unicode \<Rightarrow> search_document list \<Rightarrow> 'f search_index" where
  "search_index_new F u documents =
     (let numbered = enumerate 0 documents;
          document_lengths = map (document_length F u) documents in
      \<lparr>sx_documents = documents,
       sx_postings = group_all push_back [] (concat (map (document_postings F u) numbered)) [],
       sx_exact_symbols =
         group_all push_back [] (map (\<lambda>(i, d). (to_lowercase u (do_symbol d), i)) numbered) [],
       sx_exact_names =
         group_all push_back [] (map (\<lambda>(i, d). (to_lowercase u (do_name d), i)) numbered) [],
       sx_document_lengths = document_lengths,
       sx_average_document_length =
         (if document_lengths = [] then f_of F 0
          else f_div F (f_sum F document_lengths) (f_of F (length document_lengths)))\<rparr>)"

definition search_index_len :: "('f, 'm) search_index_scheme \<Rightarrow> nat" where
  "search_index_len x = length (sx_documents x)"

text \<open>\<open>SearchIndex::proc_source\<close>\<close>

definition proc_source ::
  "unicode \<Rightarrow> ('f, 'm) search_index_scheme \<Rightarrow> string \<Rightarrow> string \<Rightarrow> nat \<Rightarrow> string option" where
  "proc_source u x owner name override_index =
     Option.bind (map_of (sx_exact_symbols x) (to_lowercase u (member_symbol owner ''proc'' name)))
       (\<lambda>ids. Option.bind
          (find (\<lambda>d. do_kind d = ProcSymbol \<and> do_type_path d = owner \<and> do_name d = name
                    \<and> do_override_index d = Some override_index)
             (map (\<lambda>i. sx_documents x ! i) ids)) do_source)"

section \<open>Searching\<close>

record 'f search_hit =
  hi_score :: 'f
  hi_document :: search_document

record 'f search_execution =
  ex_hits :: "'f search_hit list"
  ex_candidates_considered :: nat
  ex_documents_scored :: nat

text \<open>\<open>compare_hits\<close>, as \<open>Ordering::is_le\<close>: by falling score, then symbol, file, line, column.\<close>

definition compare_hits :: "('f::linorder, 'm) search_hit_scheme \<Rightarrow> ('f, 'm) search_hit_scheme \<Rightarrow> bool" where
  "compare_hits l r \<longleftrightarrow>
     (let a = hi_document l; b = hi_document r in
      hi_score r < hi_score l \<or> hi_score r = hi_score l \<and>
      (do_symbol a < do_symbol b \<or> do_symbol a = do_symbol b \<and>
       (do_file a < do_file b \<or> do_file a = do_file b \<and>
        (do_line a < do_line b \<or> do_line a = do_line b \<and> do_column a \<le> do_column b))))"

definition query_terms :: "unicode \<Rightarrow> string \<Rightarrow> string list" where
  "query_terms u query = fold insort_insert (tokenize u query) []"

definition inverse_document_frequency :: "('f, 'm) f64_ops_scheme \<Rightarrow> nat \<Rightarrow> nat \<Rightarrow> 'f" where
  "inverse_document_frequency F documents frequency =
     (let document_frequency = f_of F frequency; document_count = f_of F documents in
      f_ln F (f_add F (f_lit F 10 1)
        (f_div F (f_add F (f_sub F document_count document_frequency) (f_lit F 5 1))
                 (f_add F document_frequency (f_lit F 5 1)))))"

definition term_contribution ::
  "('f, 'm) f64_ops_scheme \<Rightarrow> 'f \<Rightarrow> 'f \<Rightarrow> 'f \<Rightarrow> 'f \<Rightarrow> 'f" where
  "term_contribution F idf average_length doc_length term_frequency =
     (let length_normalization =
            (if f_eq F average_length (f_lit F 0 1) then f_lit F 10 1
             else f_add F (f_sub F (f_lit F 10 1) (BM25_B F))
                    (f_div F (f_mul F (BM25_B F) doc_length) average_length));
          numerator = f_mul F term_frequency (f_add F (BM25_K1 F) (f_lit F 10 1));
          denominator = f_add F term_frequency (f_mul F (BM25_K1 F) length_normalization) in
      f_div F (f_mul F idf numerator) denominator)"

definition term_scores ::
  "('f, 'm) f64_ops_scheme \<Rightarrow> ('f, 'n) search_index_scheme \<Rightarrow> string \<Rightarrow> (nat \<times> 'f) list" where
  "term_scores F x t =
     (case map_of (sx_postings x) t of
        None \<Rightarrow> []
      | Some postings \<Rightarrow>
          (let idf = inverse_document_frequency F (length (sx_documents x)) (length postings) in
           map (\<lambda>p. (po_document_id p,
                     term_contribution F idf (sx_average_document_length x)
                       (sx_document_lengths x ! po_document_id p) (po_term_frequency p)))
             postings))"

text \<open>\<open>entry(..).or_default()\<close>, without an addition.\<close>

definition or_default :: "'c \<Rightarrow> 'k::linorder \<Rightarrow> ('k, 'c) btree_map \<Rightarrow> ('k, 'c) btree_map" where
  "or_default e k m = btree_or_insert k e m"

definition query_scores ::
  "('f, 'm) f64_ops_scheme \<Rightarrow> ('f, 'n) search_index_scheme \<Rightarrow> string list \<Rightarrow> string
   \<Rightarrow> (nat, 'f) btree_map" where
  "query_scores F x terms normalized_query =
     (case map_of (sx_exact_symbols x) normalized_query of
        Some exact_symbols \<Rightarrow> fold (\<lambda>i m. btree_insert i (f_lit F 0 1) m) exact_symbols []
      | None \<Rightarrow>
          fold (or_default (f_of F 0))
            (case map_of (sx_exact_names x) normalized_query of Some ids \<Rightarrow> ids | None \<Rightarrow> [])
            (fold (\<lambda>t m. group_all (\<lambda>c acc. f_add F acc c) (f_of F 0) (term_scores F x t) m)
               terms []))"

definition passes_filters ::
  "unicode \<Rightarrow> search_request \<Rightarrow> search_document \<Rightarrow> bool" where
  "passes_filters u rq d \<longleftrightarrow>
     (case rq_kind rq of None \<Rightarrow> True | Some k \<Rightarrow> do_kind d = k) \<and>
     (case rq_type_prefix rq of None \<Rightarrow> True
      | Some p \<Rightarrow> starts_with_case_insensitive u (do_type_path d) (to_lowercase u p)) \<and>
     (case rq_file_filter rq of None \<Rightarrow> True
      | Some f \<Rightarrow> contains_case_insensitive u (do_file d) (to_lowercase u f))"

definition boosted ::
  "('f, 'm) f64_ops_scheme \<Rightarrow> unicode \<Rightarrow> string \<Rightarrow> search_document \<Rightarrow> 'f \<Rightarrow> 'f" where
  "boosted F u normalized_query d score =
     (if equals_case_insensitive u (do_symbol d) normalized_query
      then f_add F score (EXACT_SYMBOL_BOOST F)
      else if equals_case_insensitive u (do_name d) normalized_query
      then f_add F score (EXACT_NAME_BOOST F)
      else if contains_case_insensitive u (do_symbol d) normalized_query
      then f_add F score (PHRASE_BOOST F)
      else score)"

definition search_hits ::
  "('f, 'm) f64_ops_scheme \<Rightarrow> unicode \<Rightarrow> ('f, 'n) search_index_scheme \<Rightarrow> search_request
   \<Rightarrow> string \<Rightarrow> (nat, 'f) btree_map \<Rightarrow> nat list \<Rightarrow> 'f search_hit list" where
  "search_hits F u x rq normalized_query scores candidates =
     List.map_filter (\<lambda>i.
       let d = sx_documents x ! i;
           score = boosted F u normalized_query d
                     (case map_of scores i of Some s \<Rightarrow> s | None \<Rightarrow> f_of F 0) in
       if f_gt F score (f_lit F 0 1) then Some \<lparr>hi_score = score, hi_document = d\<rparr> else None)
     (filter (\<lambda>i. passes_filters u rq (sx_documents x ! i)) candidates)"

definition search ::
  "('f::linorder, 'm) f64_ops_scheme \<Rightarrow> unicode
   \<Rightarrow> (nat \<Rightarrow> 'f search_hit list \<Rightarrow> 'f search_hit list)
   \<Rightarrow> ('f, 'n) search_index_scheme \<Rightarrow> search_request \<Rightarrow> 'f search_execution" where
  "search F u select_nth x rq =
     (let terms = query_terms u (rq_query rq) in
      if terms = [] \<or> rq_limit rq = 0
      then \<lparr>ex_hits = [], ex_candidates_considered = 0, ex_documents_scored = 0\<rparr>
      else
        (let normalized_query = to_lowercase u (trim (rq_query rq));
             scores = query_scores F x terms normalized_query;
             candidates =
               (if scores = []
                then map fst (filter (\<lambda>(_, d). contains_case_insensitive u (do_symbol d) normalized_query)
                       (enumerate 0 (sx_documents x)))
                else map fst scores) in
         \<lparr>ex_hits = keep_best compare_hits select_nth (rq_limit rq)
            (search_hits F u x rq normalized_query scores candidates),
          ex_candidates_considered = length candidates,
          ex_documents_scored =
            length (filter (\<lambda>i. passes_filters u rq (sx_documents x ! i)) candidates)\<rparr>))"

end
