(* ===== verification/Source_Excerpt.thy ===== *)
theory Source_Excerpt
  imports Text_Lines Byte_Codec
begin

text \<open>
  Source excerpts, from \<open>src/source.rs\<close>: a text with its table of line starts, the line with a
  given number, and the declaration that begins on a line, as far as the next line that opens
  one.  Slices begin and end next to a line feed or at an end of the text, so they are on
  character boundaries; \<open>index as u32\<close> truncates, as in the code.
\<close>

section \<open>The line table\<close>

record indexed_source =
  is_text :: string
  is_line_starts :: "nat list"

text \<open>\<open>IndexedSource::new\<close>\<close>

definition line_starts :: "string \<Rightarrow> nat list" where
  "line_starts text =
     (if text = [] then []
      else 0 # filter (\<lambda>start. start < length text)
                 (map (\<lambda>i. i + 1) (match_indices (CHR 0x0A) 0 text)))"

definition indexed_source_new :: "string \<Rightarrow> indexed_source" where
  "indexed_source_new text = \<lparr>is_text = text, is_line_starts = line_starts text\<rparr>"

definition line_count :: "indexed_source \<Rightarrow> nat" where
  "line_count s = length (is_line_starts s)"

text \<open>\<open>text.get(start..end)\<close>\<close>

definition str_get :: "string \<Rightarrow> nat \<Rightarrow> nat \<Rightarrow> string option" where
  "str_get text start stop =
     (if start \<le> stop \<and> stop \<le> length text then Some (take (stop - start) (drop start text)) else None)"

text \<open>\<open>IndexedSource::line\<close>\<close>

definition strip_line_end :: "string \<Rightarrow> string" where
  "strip_line_end line =
     strip_cr (case strip_suffix_char (CHR 0x0A) line of Some l \<Rightarrow> l | None \<Rightarrow> line)"

definition line_end :: "indexed_source \<Rightarrow> nat \<Rightarrow> nat" where
  "line_end s index =
     (if index + 1 < length (is_line_starts s) then is_line_starts s ! (index + 1) - 1
      else length (is_text s))"

definition source_line :: "indexed_source \<Rightarrow> u32 \<Rightarrow> string option" where
  "source_line s one_based_line =
     (if one_based_line = 0 then None
      else let index = unat (one_based_line - 1) in
        if index < length (is_line_starts s)
        then map_option strip_line_end
               (str_get (is_text s) (is_line_starts s ! index) (line_end s index))
        else None)"

section \<open>Declarations\<close>

definition column_zero :: "string \<Rightarrow> bool" where
  "column_zero line \<longleftrightarrow> line \<noteq> [] \<and> \<not> list_ex (\<lambda>w. prefix w line) white_space"

definition comment_line :: "bool \<Rightarrow> string \<Rightarrow> bool" where
  "comment_line in_block line \<longleftrightarrow>
     (let trimmed = trim_front white_space line in
      in_block \<or> prefix ''//'' trimmed \<or> prefix ''/*'' trimmed \<or> prefix ''*'' trimmed)"

text \<open>
  The loop over the \<open>/*\<close> of a line: past every block comment that the line closes; the rest,
  and whether a block comment stays open.
\<close>

function scan_blocks :: "string \<Rightarrow> string \<times> bool" where
  "scan_blocks remainder =
     (case find_sub ''/*'' remainder of
        None \<Rightarrow> (remainder, False)
      | Some start \<Rightarrow>
          (let after_start = drop (start + 2) remainder in
           case find_sub ''*/'' after_start of
             Some stop \<Rightarrow> scan_blocks (drop (stop + 2) after_start)
           | None \<Rightarrow> (remainder, True)))"
  by pat_completeness auto

termination
  by (relation "measure length") (auto dest!: find_sub_Some)

declare scan_blocks.simps [simp del]

definition block_after :: "bool \<Rightarrow> string \<Rightarrow> bool" where
  "block_after in_block line =
     (case scan_blocks line of (remainder, opened) \<Rightarrow>
        (in_block \<or> opened) \<and> \<not> is_substring ''*/'' remainder)"

fun declaration_lines ::
  "indexed_source \<Rightarrow> nat list \<Rightarrow> string list \<Rightarrow> bool \<Rightarrow> string list option" where
  "declaration_lines s [] excerpt in_block = Some excerpt"
| "declaration_lines s (index # is) excerpt in_block =
     (case source_line s (of_nat (index + 1)) of
        None \<Rightarrow> None
      | Some line \<Rightarrow>
          if excerpt \<noteq> [] \<and> column_zero line \<and> \<not> comment_line in_block line then Some excerpt
          else declaration_lines s is (excerpt @ [line]) (block_after in_block line))"

definition source_declaration :: "indexed_source \<Rightarrow> u32 \<Rightarrow> nat \<Rightarrow> string option" where
  "source_declaration s one_based_line max_lines =
     (if one_based_line = 0 \<or> max_lines = 0 then None
      else let start = unat (one_based_line - 1) in
        if start < line_count s
        then map_option (join_with (CHR 0x0A))
               (declaration_lines s [start ..< min (line_count s) (start + max_lines)] [] False)
        else None)"

section \<open>A line of the table is a line of the text\<close>

text \<open>What the numbers count: the lines of the text, without their line ends.\<close>

definition source_lines :: "string \<Rightarrow> string list" where
  "source_lines body = map strip_cr (raw_lines body)"

lemma line_starts_Nil [simp]: "line_starts [] = []"
  by (simp add: line_starts_def)

lemma line_starts_last: "CHR 0x0A \<notin> set l \<Longrightarrow> l \<noteq> [] \<Longrightarrow> line_starts l = [0]"
  by (simp add: line_starts_def match_indices_none)

lemma line_starts_line:
  assumes "CHR 0x0A \<notin> set l"
  shows "line_starts (l @ CHR 0x0A # t) = 0 # map ((+) (Suc (length l))) (line_starts t)"
proof -
  have "match_indices (CHR 0x0A) 0 (l @ CHR 0x0A # t)
      = length l # map ((+) (Suc (length l))) (match_indices (CHR 0x0A) 0 t)"
    using match_indices_shift[of "CHR 0x0A" 0 "Suc (length l)" t] assms
    by (simp add: match_indices_append match_indices_none)
  then show ?thesis
    by (auto simp: line_starts_def filter_map o_def)
qed

lemma line_starts_length: "length (line_starts body) = length (raw_lines body)"
proof (induction "length body" arbitrary: body rule: less_induct)
  case less
  show ?case
  proof (cases body rule: text_cases)
    case (line l t)
    with less[of t] show ?thesis by (simp add: line_starts_line raw_lines_line)
  qed (simp_all add: line_starts_last raw_lines_last)
qed

lemma line_starts_bound: "n \<in> set (line_starts body) \<Longrightarrow> n < length body"
  by (auto simp: line_starts_def split: if_splits)

lemma strip_line_end_plain: "CHR 0x0A \<notin> set l \<Longrightarrow> strip_line_end l = strip_cr l"
  by (simp add: strip_line_end_def strip_suffix_char_None)

lemma strip_line_end_snoc: "strip_line_end (l @ [CHR 0x0A]) = strip_cr l"
  by (simp add: strip_line_end_def)

text \<open>The slice between two starts of the table.\<close>

definition table_slice :: "string \<Rightarrow> nat \<Rightarrow> string option" where
  "table_slice body index =
     (let s = indexed_source_new body in
      map_option strip_line_end (str_get body (line_starts body ! index) (line_end s index)))"

lemma line_end_le:
  assumes "index < length (line_starts body)"
  shows "line_end (indexed_source_new body) index \<le> length body"
  using line_starts_bound[OF nth_mem, of "index + 1" body]
  by (auto simp: line_end_def indexed_source_new_def)

lemma line_end_line_Suc:
  assumes "CHR 0x0A \<notin> set l" "index < length (line_starts t)"
  shows "line_end (indexed_source_new (l @ CHR 0x0A # t)) (Suc index)
       = Suc (length l) + line_end (indexed_source_new t) index"
proof -
  have "0 < line_starts t ! Suc index" if "Suc index < length (line_starts t)"
  proof -
    have "line_starts t ! Suc index \<in> set (tl (line_starts t))"
      using that by (cases "line_starts t") auto
    then show ?thesis by (auto simp: line_starts_def split: if_splits)
  qed
  with assms show ?thesis
    by (auto simp: line_end_def indexed_source_new_def line_starts_line)
qed

lemma table_slice_nth:
  "index < length (raw_lines body) \<Longrightarrow>
   table_slice body index = Some (strip_cr (raw_lines body ! index))"
proof (induction "length body" arbitrary: body index rule: less_induct)
  case less
  show ?case
  proof (cases body rule: text_cases)
    case empty
    with less.prems show ?thesis by simp
  next
    case last
    with less.prems show ?thesis
      by (simp add: table_slice_def raw_lines_last line_starts_last line_end_def str_get_def
            indexed_source_new_def strip_line_end_plain Let_def)
  next
    case (line l t)
    show ?thesis
    proof (cases index)
      case 0
      show ?thesis
      proof (cases "t = []")
        case True
        with line 0 show ?thesis
          by (simp add: table_slice_def raw_lines_line line_starts_line line_end_def str_get_def
                indexed_source_new_def strip_line_end_snoc Let_def)
      next
        case False
        then have "line_starts t \<noteq> []" "line_starts t ! 0 = 0" by (simp_all add: line_starts_def)
        with line 0 show ?thesis
          by (simp add: table_slice_def raw_lines_line line_starts_line line_end_def str_get_def
                indexed_source_new_def strip_line_end_plain Let_def)
      qed
    next
      case (Suc i)
      have i: "i < length (raw_lines t)" using less.prems line Suc by (simp add: raw_lines_line)
      then have "table_slice body index = table_slice t i"
        using line Suc line_starts_length[of t]
        by (simp add: table_slice_def line_end_line_Suc line_starts_line str_get_def Let_def)
      also have "\<dots> = Some (strip_cr (raw_lines t ! i))" using less.hyps[of t i] i line by simp
      finally show ?thesis using line Suc by (simp add: raw_lines_line)
    qed
  qed
qed

lemma source_line_new:
  "source_line (indexed_source_new body) n =
     (if n = 0 \<or> length (source_lines body) < unat n then None
      else Some (source_lines body ! (unat n - 1)))"
proof (cases "n = 0")
  case False
  then have n: "unat (n - 1) = unat n - 1" "0 < unat n"
    by (simp_all add: unat_minus_one unat_gt_0)
  show ?thesis
  proof (cases "unat n - 1 < length (raw_lines body)")
    case True
    then show ?thesis
      using table_slice_nth[OF True] n False
      by (auto simp: source_line_def table_slice_def indexed_source_new_def source_lines_def
            line_starts_length Let_def)
  next
    case out: False
    with n False show ?thesis
      by (auto simp: source_line_def indexed_source_new_def source_lines_def line_starts_length
            Let_def)
  qed
qed (simp add: source_line_def)


section \<open>The excerpt of a declaration\<close>

text \<open>Whether a block comment is open after some lines, and a line that opens a declaration.\<close>

definition comment_after :: "string list \<Rightarrow> bool" where
  "comment_after ls = foldl block_after False ls"

definition opens_declaration :: "bool \<Rightarrow> string \<Rightarrow> bool" where
  "opens_declaration in_block line \<longleftrightarrow> column_zero line \<and> \<not> comment_line in_block line"

lemma comment_after_simps [simp]:
  "comment_after [] = False" "comment_after (ls @ [l]) = block_after (comment_after ls) l"
  by (simp_all add: comment_after_def)

text \<open>The longest run of lines after the first that opens no other declaration.\<close>

fun excerpt_length :: "bool \<Rightarrow> string list \<Rightarrow> nat" where
  "excerpt_length in_block [] = 0"
| "excerpt_length in_block (l # ls) =
     (if opens_declaration in_block l then 0 else Suc (excerpt_length (block_after in_block l) ls))"

lemma excerpt_length_le: "excerpt_length b ls \<le> length ls"
  by (induction b ls rule: excerpt_length.induct) auto

lemma excerpt_length_inside:
  "i < excerpt_length b ls \<Longrightarrow> \<not> opens_declaration (foldl block_after b (take i ls)) (ls ! i)"
proof (induction b ls arbitrary: i rule: excerpt_length.induct)
  case (2 b l ls)
  then show ?case by (cases i) (auto split: if_splits)
qed simp

lemma excerpt_length_stop:
  "excerpt_length b ls < length ls \<Longrightarrow>
   opens_declaration (foldl block_after b (take (excerpt_length b ls) ls)) (ls ! excerpt_length b ls)"
  by (induction b ls rule: excerpt_length.induct) auto

lemma source_line_number:
  assumes "i < length (source_lines body)" "length (source_lines body) < 2 ^ 32"
  shows "source_line (indexed_source_new body) (of_nat (i + 1)) = Some (source_lines body ! i)"
proof -
  have n: "unat (of_nat (i + 1) :: u32) = i + 1" using assms by (intro unat_of_nat32) simp
  then have "(of_nat (i + 1) :: u32) \<noteq> 0" by (metis add_is_0 unat_0 zero_neq_one)
  with n assms(1) show ?thesis by (simp only: source_line_new) simp
qed

lemma declaration_lines_rest:
  assumes "length (source_lines body) < 2 ^ 32" "e \<le> length (source_lines body)" "excerpt \<noteq> []"
  shows "declaration_lines (indexed_source_new body) [i ..< e] excerpt b
       = Some (excerpt @ (let rest = take (e - i) (drop i (source_lines body)) in
                          take (excerpt_length b rest) rest))"
  using assms
proof (induction "e - i" arbitrary: i excerpt b)
  case 0
  then show ?case by simp
next
  case (Suc k)
  then have i: "i < e" "i < length (source_lines body)" by simp_all
  let ?l = "source_lines body ! i"
  have rest: "take (e - i) (drop i (source_lines body))
      = ?l # take (e - Suc i) (drop (Suc i) (source_lines body))"
    using i Suc.hyps(2) by (simp add: Cons_nth_drop_Suc[symmetric] flip: Suc_diff_Suc)
  have "declaration_lines (indexed_source_new body) [i ..< e] excerpt b
      = (if opens_declaration b ?l then Some excerpt
         else declaration_lines (indexed_source_new body) [Suc i ..< e] (excerpt @ [?l])
                (block_after b ?l))"
    using i Suc.prems source_line_number[of i body]
    by (simp add: upt_rec[of i e] opens_declaration_def)
  with Suc.hyps(1)[of "Suc i" "excerpt @ [?l]" "block_after b ?l"] Suc.hyps(2) Suc.prems rest
  show ?case by (simp add: Let_def)
qed

lemma declaration_lines_first:
  assumes "i < e" "e \<le> length (source_lines body)" "length (source_lines body) < 2 ^ 32"
  shows "declaration_lines (indexed_source_new body) [i ..< e] [] False
       = declaration_lines (indexed_source_new body) [Suc i ..< e] [source_lines body ! i]
           (block_after False (source_lines body ! i))"
  using assms source_line_number[of i body] by (simp add: upt_rec[of i e])

lemma source_declaration_new:
  assumes "length (source_lines body) < 2 ^ 32"
    and "0 < unat n" "unat n \<le> length (source_lines body)" "0 < max_lines"
  shows "source_declaration (indexed_source_new body) n max_lines =
     (let rest = take max_lines (drop (unat n - 1) (source_lines body)) in
      Some (join_with (CHR 0x0A)
        (take (Suc (excerpt_length (block_after False (hd rest)) (tl rest))) rest)))"
proof -
  let ?L = "source_lines body" and ?i = "unat n - 1"
  let ?e = "min (length ?L) (?i + max_lines)"
  have n: "n \<noteq> 0" "unat (n - 1) = ?i" using assms(2) by (auto simp: unat_minus_one unat_gt_0)
  have i: "?i < length ?L" "?i < ?e" using assms by auto
  have count: "line_count (indexed_source_new body) = length ?L"
    by (simp add: line_count_def indexed_source_new_def line_starts_length source_lines_def)
  have rest: "take max_lines (drop ?i ?L) = ?L ! ?i # take (?e - Suc ?i) (drop (Suc ?i) ?L)"
    using i assms(4) by (cases max_lines) (auto simp: Cons_nth_drop_Suc[symmetric] min_def)
  note first = declaration_lines_first[OF i(2) min.cobounded1 assms(1)]
  let ?b = "block_after False (?L ! ?i)"
  have start: "source_declaration (indexed_source_new body) n max_lines = map_option (join_with (CHR 0x0A))
      (declaration_lines (indexed_source_new body) [?i ..< ?e] [] False)"
    using n i(1) assms(4) by (simp add: source_declaration_def Let_def count)
  have tail: "declaration_lines (indexed_source_new body) [Suc ?i ..< ?e] [?L ! ?i] ?b
      = Some ([?L ! ?i] @ (let rest = take (?e - Suc ?i) (drop (Suc ?i) ?L) in
          take (excerpt_length ?b rest) rest))"
    by (rule declaration_lines_rest[OF assms(1) min.cobounded1]) simp
  show ?thesis unfolding start first tail rest Let_def by simp
qed

lemma opens_declaration_take:
  assumes "k = Suc (excerpt_length (block_after False (hd rest)) (tl rest))" "rest \<noteq> []"
  shows "k \<le> length rest"
    and "0 < j \<Longrightarrow> j < k \<Longrightarrow> \<not> opens_declaration (comment_after (take j rest)) (rest ! j)"
    and "k < length rest \<Longrightarrow> opens_declaration (comment_after (take k rest)) (rest ! k)"
proof -
  obtain l ls where r: "rest = l # ls" using assms(2) by (cases rest) auto
  show "k \<le> length rest" using assms(1) r excerpt_length_le[of _ ls] by simp
  show "0 < j \<Longrightarrow> j < k \<Longrightarrow> \<not> opens_declaration (comment_after (take j rest)) (rest ! j)"
    using assms(1) r excerpt_length_inside[of "j - 1" "block_after False l" ls]
    by (cases j) (simp_all add: comment_after_def)
  show "k < length rest \<Longrightarrow> opens_declaration (comment_after (take k rest)) (rest ! k)"
    using assms(1) r excerpt_length_stop[of "block_after False l" ls]
    by (simp add: comment_after_def)
qed

text \<open>
  A source excerpt is a declaration.  In a text of fewer than \<open>2 ^ 32\<close> lines, asking for
  the declaration at a line the text does not have, or for no lines, returns nothing.
  Otherwise the excerpt is a run of consecutive whole lines, carriage returns removed, that
  begins with the line asked for and has at most \<open>max_lines\<close> lines; no line after the first
  opens another declaration (begins in column zero outside every comment), and when the run
  stops before the bound and the end of the text, the line it stops at does.
\<close>

lemma declaration_excerpt_exact:
  assumes "length (source_lines body) < 2 ^ 32"
  shows "if n = 0 \<or> max_lines = 0 \<or> length (source_lines body) < unat n
     then source_declaration (indexed_source_new body) n max_lines = None
     else let rest = drop (unat n - 1) (source_lines body) in
       \<exists>k. 0 < k \<and> k \<le> max_lines \<and> k \<le> length rest \<and>
         source_declaration (indexed_source_new body) n max_lines
           = Some (join_with (CHR 0x0A) (take k rest)) \<and>
         (\<forall>j \<in> {1..<k}. \<not> opens_declaration (comment_after (take j rest)) (rest ! j)) \<and>
         (k < max_lines \<longrightarrow> k < length rest \<longrightarrow>
            opens_declaration (comment_after (take k rest)) (rest ! k))"
proof (cases "n = 0 \<or> max_lines = 0 \<or> length (source_lines body) < unat n")
  case True
  then have "n = 0 \<or> max_lines = 0 \<or> \<not> unat (n - 1) < length (source_lines body)"
    by (cases "n = 0") (auto simp: unat_minus_one)
  with True show ?thesis
    by (auto simp: source_declaration_def line_count_def indexed_source_new_def
          line_starts_length source_lines_def)
next
  case False
  then have n: "0 < unat n" "unat n \<le> length (source_lines body)" "0 < max_lines"
    by (auto simp: unat_gt_0)
  let ?rest = "drop (unat n - 1) (source_lines body)"
  let ?cut = "take max_lines ?rest"
  let ?k = "Suc (excerpt_length (block_after False (hd ?cut)) (tl ?cut))"
  have cut: "?cut \<noteq> []" using n by simp
  have cut_length: "length ?cut = min max_lines (length ?rest)" by simp
  obtain k where k_def: "k = ?k" by simp
  note k = opens_declaration_take[OF k_def cut]
  have le: "k \<le> max_lines" "k \<le> length ?rest" using k(1) cut_length by linarith+
  have "source_declaration (indexed_source_new body) n max_lines
      = Some (join_with (CHR 0x0A) (take k ?rest))"
    using source_declaration_new[OF assms n, unfolded Let_def, folded k_def] le(1)
    by (simp only: take_take min_absorb1)
  moreover have "\<not> opens_declaration (comment_after (take j ?rest)) (?rest ! j)"
    if "j \<in> {1..<k}" for j
    using k(2)[of j] that le by (simp add: min_def)
  moreover have "opens_declaration (comment_after (take k ?rest)) (?rest ! k)"
    if "k < max_lines" "k < length ?rest"
    using k(3) that cut_length by (simp add: min_def)
  moreover have "0 < k" using k_def by simp
  ultimately show ?thesis
    using False le by (simp only: if_False Let_def) blast
qed


lemma declaration_excerpt_exact_witness:
  "source_declaration (indexed_source_new ''/proc/a()\<newline> return 1\<newline>// note\<newline>/proc/b()\<newline>'') 1 80
     = Some ''/proc/a()\<newline> return 1\<newline>// note''
   \<and> (\<exists>k \<le> 80. source_declaration
         (indexed_source_new ''/proc/a()\<newline> return 1\<newline>// note\<newline>/proc/b()\<newline>'') 1 80
       = Some (join_with (CHR 0x0A)
           (take k (source_lines ''/proc/a()\<newline> return 1\<newline>// note\<newline>/proc/b()\<newline>''))))"
proof -
  let ?t = "''/proc/a()\<newline> return 1\<newline>// note\<newline>/proc/b()\<newline>''"
  have "length (source_lines ?t) = 4" by code_simp
  with declaration_excerpt_exact[of ?t 1 80]
  have "\<exists>k \<le> 80. source_declaration (indexed_source_new ?t) 1 80
      = Some (join_with (CHR 0x0A) (take k (source_lines ?t)))"
    by (auto simp: Let_def)
  moreover have "source_declaration (indexed_source_new ?t) 1 80
      = Some ''/proc/a()\<newline> return 1\<newline>// note''"
    by code_simp
  ultimately show ?thesis by blast
qed

section \<open>Comment markers inside line comments and strings\<close>

lemma is_substring_drop: "is_substring p (drop n s) \<Longrightarrow> is_substring p s"
  unfolding is_substring_sublist by (meson sublist_drop sublist_order.order.trans)

lemma scan_blocks_open:
  "\<not> is_substring ''*/'' l \<Longrightarrow> scan_blocks l = (l, is_substring ''/*'' l)"
proof (cases "find_sub ''/*'' l")
  case None
  with find_sub_None[of "''/*''" l] show ?thesis by (simp add: scan_blocks.simps[of l])
next
  case (Some i)
  assume "\<not> is_substring ''*/'' l"
  then have "find_sub ''*/'' (drop (i + 2) l) = None"
    unfolding find_sub_None using is_substring_drop by blast
  moreover have "is_substring ''/*'' l" using Some find_sub_None[of "''/*''" l] by auto
  ultimately show ?thesis using Some by (simp add: scan_blocks.simps[of l])
qed

lemma block_after_open:
  "\<not> is_substring ''*/'' l \<Longrightarrow> block_after b l = (b \<or> is_substring ''/*'' l)"
  by (simp add: block_after_def scan_blocks_open)

lemma comment_stays_open:
  assumes "is_substring ''/*'' (ls ! j)" "\<forall>i \<in> {j..<length ls}. \<not> is_substring ''*/'' (ls ! i)"
  shows "j < k \<Longrightarrow> k \<le> length ls \<Longrightarrow> comment_after (take k ls)"
proof (induction k)
  case (Suc k)
  then have "\<not> is_substring ''*/'' (ls ! k)" using assms(2) by simp
  moreover have "j = k \<or> comment_after (take k ls)"
    using Suc by (cases "j < k") simp_all
  ultimately show ?case using assms(1) Suc.prems
    by (auto simp: take_Suc_conv_app_nth block_after_open)
qed simp

text \<open>
  A comment marker that is no comment swallows what follows.  When a line inside a
  declaration contains \<open>/*\<close>, even behind \<open>//\<close> or inside a string literal, and no later line
  of the text contains \<open>*/\<close>, the excerpt does not stop at the next declaration: it runs on for
  \<open>max_lines\<close> lines or to the end of the text.
\<close>

lemma comment_marker_swallows_declarations:
  assumes "length (source_lines body) < 2 ^ 32" "n \<noteq> 0" "rest = drop (unat n - 1) (source_lines body)"
    and "j < length rest" "j < max_lines" "is_substring ''/*'' (rest ! j)"
    and "\<forall>i \<in> {1..j}. \<not> opens_declaration (comment_after (take i rest)) (rest ! i)"
    and "\<forall>i \<in> {j..<length rest}. \<not> is_substring ''*/'' (rest ! i)"
  shows "source_declaration (indexed_source_new body) n max_lines
       = Some (join_with (CHR 0x0A) (take max_lines rest))"
proof -
  let ?cut = "take max_lines rest"
  obtain k where k_def: "k = Suc (excerpt_length (block_after False (hd ?cut)) (tl ?cut))" by simp
  have cut: "?cut \<noteq> []" using assms(4,5) by auto
  note k = opens_declaration_take[OF k_def cut]
  have "\<not> k < length ?cut"
  proof
    assume less: "k < length ?cut"
    then have "k < max_lines" by simp
    then have same: "?cut ! k = rest ! k" "take k ?cut = take k rest"
      by (simp_all add: min.absorb1)
    have "opens_declaration (comment_after (take k rest)) (rest ! k)" using k(3)[OF less] same by simp
    moreover have "comment_after (take k rest)" if "j < k"
      using comment_stays_open[of rest j k] assms(6,8) that less by simp
    ultimately show False
      using assms(7) k_def by (cases "j < k") (auto simp: opens_declaration_def comment_line_def)
  qed
  then have "length ?cut \<le> k" by (rule leI)
  then have "take k ?cut = ?cut" by (rule take_all)
  moreover have "0 < unat n" "unat n \<le> length (source_lines body)" "0 < max_lines"
    using assms(2-5) by (auto simp: unat_gt_0)
  ultimately show ?thesis
    using source_declaration_new[OF assms(1), of n max_lines] k_def assms(3)
    by (simp only: Let_def)
qed

lemma comment_marker_swallows_declarations_witness:
  "source_declaration
     (indexed_source_new ''/proc/a()\<newline> return 1 // code/*.dm\<newline>/proc/b()\<newline> return 2'') 1 80
   = Some ''/proc/a()\<newline> return 1 // code/*.dm\<newline>/proc/b()\<newline> return 2''"
proof -
  let ?t = "''/proc/a()\<newline> return 1 // code/*.dm\<newline>/proc/b()\<newline> return 2''"
  let ?r = "[''/proc/a()'', '' return 1 // code/*.dm'', ''/proc/b()'', '' return 2'']"
  have lines: "source_lines ?t = ?r" by code_simp
  have "\<not> opens_declaration (comment_after (take 1 ?r)) (?r ! 1)"
    "is_substring ''/*'' (?r ! 1)" "list_all (\<lambda>i. \<not> is_substring ''*/'' (?r ! i)) [1..<4]"
    by code_simp+
  then have "source_declaration (indexed_source_new ?t) 1 80
      = Some (join_with (CHR 0x0A) (take 80 ?r))"
    by (intro comment_marker_swallows_declarations[of ?t 1 ?r 1])
      (simp_all add: lines list_all_iff del: is_substring.simps)
  also have "join_with (CHR 0x0A) (take 80 ?r) = ?t" by code_simp
  finally show ?thesis .
qed

end
