(* ===== verification/Search_Documents.thy ===== *)
theory Search_Documents
  imports Search_Index Source_Excerpt Paths
begin

text \<open>
  Where the documents of the search index come from, in \<open>src/search.rs\<close>: one document per type,
  variable and procedure definition of the object tree that is not built in, with source lines
  read through a cache, then the procedures renamed after the resolver's canonical owners.
\<close>

section \<open>The cache of source files\<close>

text \<open>
  The environment: where the file of a location is, whether and how a path may be read, what it
  holds, and how a path is displayed.  A file is read at most once.
\<close>

record source_host =
  so_file_path :: "nat \<Rightarrow> path"
  so_resolve_read_path :: "path \<Rightarrow> path option"
  so_read :: "path \<Rightarrow> string option"
  so_display :: "path \<Rightarrow> string"

type_synonym source_cache = "(path, indexed_source option) btree_map"

definition resolve_context_file :: "source_host \<Rightarrow> path \<Rightarrow> nat \<Rightarrow> path" where
  "resolve_context_file h environment_root file_id =
     (let p = so_file_path h file_id in if is_absolute p then p else join environment_root p)"

definition read_source :: "source_host \<Rightarrow> path \<Rightarrow> indexed_source option" where
  "read_source h f =
     Option.bind (so_resolve_read_path h f) (\<lambda>p. map_option indexed_source_new (so_read h p))"

definition cache_source ::
  "source_host \<Rightarrow> path \<Rightarrow> source_cache \<Rightarrow> indexed_source option \<times> source_cache" where
  "cache_source h f cache =
     (let cache = (if map_of cache f = None then btree_insert f (read_source h f) cache else cache) in
      (Option.bind (map_of cache f) (\<lambda>s. s), cache))"

definition cache_source_line ::
  "source_host \<Rightarrow> path \<Rightarrow> u32 \<Rightarrow> source_cache \<Rightarrow> string option \<times> source_cache" where
  "cache_source_line h f line cache =
     (case cache_source h f cache of (s, cache) \<Rightarrow> (Option.bind s (\<lambda>s. source_line s line), cache))"

definition cache_source_declaration ::
  "source_host \<Rightarrow> path \<Rightarrow> u32 \<Rightarrow> nat \<Rightarrow> source_cache \<Rightarrow> string option \<times> source_cache" where
  "cache_source_declaration h f line max_lines cache =
     (case cache_source h f cache of (s, cache) \<Rightarrow>
        (Option.bind s (\<lambda>s. source_declaration s line max_lines), cache))"

section \<open>Documents of the object tree\<close>

record tree_location =
  lo_builtin :: bool
  lo_file :: nat
  lo_line :: u32
  lo_column :: u16

record member_value =
  mv_location :: tree_location
  mv_docs :: string
  mv_parameters :: "string list"

record documented_type =
  dt_path :: string
  dt_name :: string
  dt_is_root :: bool
  dt_parent :: "string option"
  dt_location :: tree_location
  dt_docs :: string
  dt_vars :: "(string \<times> member_value) list"
  dt_procs :: "(string \<times> member_value list) list"

definition new_document ::
  "source_host \<Rightarrow> documented_type \<Rightarrow> path \<Rightarrow> tree_location \<Rightarrow> search_document" where
  "new_document h ty f location =
     \<lparr>do_kind = TypeSymbol, do_symbol = dt_path ty, do_name = dt_name ty, do_type_path = dt_path ty,
      do_implementation_owner = None, do_declaration_owner = None, do_parent = dt_parent ty,
      do_file = so_display h f, do_line = lo_line location, do_column = ucast (lo_column location),
      do_docs = trim (dt_docs ty), do_source = None, do_parameters = [],
      do_override_index = None, do_override_count = None\<rparr>"

definition type_document ::
  "source_host \<Rightarrow> path \<Rightarrow> documented_type \<Rightarrow> source_cache \<Rightarrow> search_document list \<times> source_cache" where
  "type_document h root ty cache =
     (if dt_is_root ty \<or> lo_builtin (dt_location ty) then ([], cache)
      else
        (let f = resolve_context_file h root (lo_file (dt_location ty)) in
         case cache_source_line h f (lo_line (dt_location ty)) cache of (source, cache) \<Rightarrow>
           ([(new_document h ty f (dt_location ty))\<lparr>do_source := source\<rparr>], cache)))"

definition var_document ::
  "source_host \<Rightarrow> path \<Rightarrow> documented_type \<Rightarrow> string \<times> member_value \<Rightarrow> source_cache
   \<Rightarrow> search_document list \<times> source_cache" where
  "var_document h root ty v cache =
     (case v of (name, value) \<Rightarrow>
        let location = mv_location value in
        if lo_builtin location then ([], cache)
        else
          (let f = resolve_context_file h root (lo_file location) in
           case cache_source_line h f (lo_line location) cache of (source, cache) \<Rightarrow>
             ([(new_document h ty f location)
                 \<lparr>do_kind := VarSymbol, do_symbol := member_symbol (dt_path ty) ''var'' name,
                  do_name := name, do_docs := trim (mv_docs value), do_source := source\<rparr>], cache)))"

text \<open>The loop over the definitions of a procedure numbers those that are not built in from 1.\<close>

fun proc_documents ::
  "source_host \<Rightarrow> path \<Rightarrow> documented_type \<Rightarrow> string \<Rightarrow> nat \<Rightarrow> nat \<Rightarrow> member_value list \<Rightarrow> source_cache
   \<Rightarrow> search_document list \<times> source_cache" where
  "proc_documents h root ty name override_count override_index [] cache = ([], cache)"
| "proc_documents h root ty name override_count override_index (value # values) cache =
     (let location = mv_location value in
      if lo_builtin location
      then proc_documents h root ty name override_count override_index values cache
      else
        (let f = resolve_context_file h root (lo_file location) in
         case cache_source_declaration h f (lo_line location) INDEX_SOURCE_LINES cache of
           (source, cache) \<Rightarrow>
             (case proc_documents h root ty name override_count (override_index + 1) values cache of
                (documents, cache) \<Rightarrow>
                  ((new_document h ty f location)
                     \<lparr>do_kind := ProcSymbol, do_symbol := member_symbol (dt_path ty) ''proc'' name,
                      do_name := name, do_docs := trim (mv_docs value), do_source := source,
                      do_parameters := mv_parameters value,
                      do_override_index := Some (override_index + 1),
                      do_override_count := Some override_count\<rparr> # documents, cache))))"

definition proc_entry_documents ::
  "source_host \<Rightarrow> path \<Rightarrow> documented_type \<Rightarrow> string \<times> member_value list \<Rightarrow> source_cache
   \<Rightarrow> search_document list \<times> source_cache" where
  "proc_entry_documents h root ty p cache =
     (case p of (name, values) \<Rightarrow>
        let override_count = length (filter (\<lambda>v. \<not> lo_builtin (mv_location v)) values) in
        proc_documents h root ty name override_count 0 values cache)"

text \<open>A loop that appends what each step yields and passes the cache on.\<close>

fun collect_documents ::
  "('a \<Rightarrow> source_cache \<Rightarrow> 'd list \<times> source_cache) \<Rightarrow> 'a list \<Rightarrow> source_cache \<Rightarrow> 'd list \<times> source_cache" where
  "collect_documents step [] cache = ([], cache)"
| "collect_documents step (x # xs) cache =
     (case step x cache of (ds, cache) \<Rightarrow>
        case collect_documents step xs cache of (es, cache) \<Rightarrow> (ds @ es, cache))"

definition documents_of_type ::
  "source_host \<Rightarrow> path \<Rightarrow> documented_type \<Rightarrow> source_cache \<Rightarrow> search_document list \<times> source_cache" where
  "documents_of_type h root ty cache =
     (case type_document h root ty cache of (ds, cache) \<Rightarrow>
      case collect_documents (var_document h root ty) (dt_vars ty) cache of (vs, cache) \<Rightarrow>
      case collect_documents (proc_entry_documents h root ty) (dt_procs ty) cache of (ps, cache) \<Rightarrow>
        (ds @ vs @ ps, cache))"

definition from_object_tree ::
  "source_host \<Rightarrow> documented_type list \<Rightarrow> path \<Rightarrow> search_document list" where
  "from_object_tree h types environment_path =
     (let root = (case parent environment_path of Some p \<Rightarrow> p | None \<Rightarrow> [CurDir]) in
      fst (collect_documents (documents_of_type h root) types []))"

section \<open>Canonical procedures\<close>

type_synonym proc_location = "string \<times> string \<times> nat \<times> nat"
type_synonym canonical_proc = "string \<times> string \<times> nat \<times> nat"

definition local_implementations :: "proc_resolution \<Rightarrow> resolved_implementation list" where
  "local_implementations r =
     filter (\<lambda>i. im_owner i = pr_implementation_owner r) (pr_implementations r)"

definition canonical_entries :: "proc_resolution \<Rightarrow> (proc_location \<times> canonical_proc) list" where
  "canonical_entries r =
     map (\<lambda>i. ((pr_proc_name r, normalize_path_text (sl_file (im_location i)),
                unat (sl_line (im_location i)), unat (ucast (sl_column (im_location i)) :: u32)),
               (pr_implementation_owner r, pr_declaration_owner r, im_override_index i,
                length (local_implementations r))))
       (local_implementations r)"

definition canonical_table :: "proc_resolution list \<Rightarrow> (proc_location, canonical_proc) btree_map" where
  "canonical_table resolutions =
     fold (\<lambda>(k, v) m. btree_insert k v m)
       (concat (map canonical_entries
          (filter (\<lambda>r. pr_requested_type_path r = pr_implementation_owner r) resolutions))) []"

definition document_location :: "search_document \<Rightarrow> proc_location" where
  "document_location d =
     (do_name d, normalize_path_text (do_file d), unat (do_line d), unat (do_column d))"

definition rename_document :: "canonical_proc \<Rightarrow> search_document \<Rightarrow> search_document" where
  "rename_document c d =
     (case c of (implementation_owner, declaration_owner, override_index, override_count) \<Rightarrow>
        d\<lparr>do_type_path := implementation_owner,
          do_symbol := member_symbol implementation_owner ''proc'' (do_name d),
          do_implementation_owner := Some implementation_owner,
          do_declaration_owner := Some declaration_owner,
          do_override_index := Some override_index,
          do_override_count := Some override_count\<rparr>)"

type_synonym seen_key = "string \<times> string \<times> nat \<times> nat \<times> nat"

definition seen_key :: "search_document \<Rightarrow> seen_key" where
  "seen_key d = (do_symbol d, do_file d, unat (do_line d), unat (do_column d),
                 case do_override_index d of Some i \<Rightarrow> i | None \<Rightarrow> 0)"

text \<open>\<open>retain_mut\<close>: keep, rename or drop, in order; \<open>seen\<close> holds the procedures kept so far.\<close>

fun retain_documents ::
  "(proc_location, canonical_proc) btree_map \<Rightarrow> seen_key list \<Rightarrow> search_document list
   \<Rightarrow> search_document list" where
  "retain_documents canonical seen [] = []"
| "retain_documents canonical seen (d # ds) =
     (if do_kind d \<noteq> ProcSymbol then d # retain_documents canonical seen ds
      else case map_of canonical (document_location d) of
        None \<Rightarrow> retain_documents canonical seen ds
      | Some c \<Rightarrow>
          (let d' = rename_document c d in
           if seen_key d' \<in> set seen then retain_documents canonical seen ds
           else d' # retain_documents canonical (insort_insert (seen_key d') seen) ds))"

definition canonicalize_procs :: "proc_resolver \<Rightarrow> search_document list \<Rightarrow> search_document list" where
  "canonicalize_procs resolver documents =
     retain_documents (canonical_table (rv_canonical_resolutions resolver)) [] documents"

definition into_index :: "('f, 'm) f64_ops_scheme \<Rightarrow> unicode \<Rightarrow> search_document list \<Rightarrow> 'f search_index" where
  "into_index F u documents = search_index_new F u documents"

section \<open>The cache changes nothing\<close>

text \<open>A cache of what the files hold, and a step that reads through it.\<close>

definition cache_ok :: "source_host \<Rightarrow> source_cache \<Rightarrow> bool" where
  "cache_ok h cache \<longleftrightarrow> (\<forall>f s. map_of cache f = Some s \<longrightarrow> s = read_source h f)"

definition reads_through :: "source_host \<Rightarrow> (source_cache \<Rightarrow> 'a \<times> source_cache) \<Rightarrow> 'a \<Rightarrow> bool" where
  "reads_through h step x \<longleftrightarrow>
     (\<forall>cache. cache_ok h cache \<longrightarrow> fst (step cache) = x \<and> cache_ok h (snd (step cache)))"

lemma cache_ok_Nil [simp]: "cache_ok h []"
  by (simp add: cache_ok_def)

lemma cache_source_reads: "reads_through h (cache_source h f) (read_source h f)"
  by (auto simp: reads_through_def cache_source_def cache_ok_def Let_def map_of_btree_insert
      split: if_splits option.splits)

lemma reads_through_bind:
  assumes "reads_through h step x" "reads_through h (k x) y"
  shows "reads_through h (\<lambda>cache. case step cache of (r, cache) \<Rightarrow> k r cache) y"
  using assms by (auto simp: reads_through_def split_def)

lemma reads_through_return: "reads_through h (\<lambda>cache. (x, cache)) x"
  by (simp add: reads_through_def)

lemma cache_source_line_reads:
  "reads_through h (cache_source_line h f n) (Option.bind (read_source h f) (\<lambda>s. source_line s n))"
  unfolding cache_source_line_def
  by (rule reads_through_bind[OF cache_source_reads reads_through_return])

lemma cache_source_declaration_reads:
  "reads_through h (cache_source_declaration h f n k)
     (Option.bind (read_source h f) (\<lambda>s. source_declaration s n k))"
  unfolding cache_source_declaration_def
  by (rule reads_through_bind[OF cache_source_reads reads_through_return])

lemma collect_documents_reads:
  assumes "\<And>x. x \<in> set xs \<Longrightarrow> reads_through h (step x) (g x)"
  shows "reads_through h (collect_documents step xs) (concat (map g xs))"
  using assms
proof (induction xs)
  case Nil
  then show ?case using reads_through_return[of h "[]"] by simp
next
  case (Cons x xs)
  have "reads_through h (\<lambda>cache. case step x cache of (ds, cache) \<Rightarrow>
      case collect_documents step xs cache of (es, cache) \<Rightarrow> (ds @ es, cache)) (g x @ concat (map g xs))"
    using Cons
    by (intro reads_through_bind[where x = "g x"] reads_through_bind[where x = "concat (map g xs)"]
        reads_through_return) auto
  then show ?case by simp
qed


text \<open>The documents of a type, each source read straight from its file.\<close>

definition source_at :: "source_host \<Rightarrow> path \<Rightarrow> u32 \<Rightarrow> string option" where
  "source_at h f n = Option.bind (read_source h f) (\<lambda>s. source_line s n)"

definition declaration_at :: "source_host \<Rightarrow> path \<Rightarrow> u32 \<Rightarrow> string option" where
  "declaration_at h f n =
     Option.bind (read_source h f) (\<lambda>s. source_declaration s n INDEX_SOURCE_LINES)"

definition plain_type_document :: "source_host \<Rightarrow> path \<Rightarrow> documented_type \<Rightarrow> search_document list" where
  "plain_type_document h root ty =
     (if dt_is_root ty \<or> lo_builtin (dt_location ty) then []
      else let f = resolve_context_file h root (lo_file (dt_location ty)) in
        [(new_document h ty f (dt_location ty))
           \<lparr>do_source := source_at h f (lo_line (dt_location ty))\<rparr>])"

definition plain_var_document ::
  "source_host \<Rightarrow> path \<Rightarrow> documented_type \<Rightarrow> string \<times> member_value \<Rightarrow> search_document list" where
  "plain_var_document h root ty v =
     (let location = mv_location (snd v) in
      if lo_builtin location then []
      else let f = resolve_context_file h root (lo_file location) in
        [(new_document h ty f location)
           \<lparr>do_kind := VarSymbol, do_symbol := member_symbol (dt_path ty) ''var'' (fst v),
            do_name := fst v, do_docs := trim (mv_docs (snd v)),
            do_source := source_at h f (lo_line location)\<rparr>])"

definition plain_proc_document ::
  "source_host \<Rightarrow> path \<Rightarrow> documented_type \<Rightarrow> string \<Rightarrow> nat \<Rightarrow> nat \<times> member_value \<Rightarrow> search_document" where
  "plain_proc_document h root ty name override_count v =
     (let location = mv_location (snd v); f = resolve_context_file h root (lo_file location) in
      (new_document h ty f location)
        \<lparr>do_kind := ProcSymbol, do_symbol := member_symbol (dt_path ty) ''proc'' name,
         do_name := name, do_docs := trim (mv_docs (snd v)),
         do_source := declaration_at h f (lo_line location),
         do_parameters := mv_parameters (snd v), do_override_index := Some (fst v),
         do_override_count := Some override_count\<rparr>)"

definition plain_proc_documents ::
  "source_host \<Rightarrow> path \<Rightarrow> documented_type \<Rightarrow> string \<times> member_value list \<Rightarrow> search_document list" where
  "plain_proc_documents h root ty p =
     (let own = filter (\<lambda>v. \<not> lo_builtin (mv_location v)) (snd p) in
      map (plain_proc_document h root ty (fst p) (length own)) (enumerate 1 own))"

definition plain_documents :: "source_host \<Rightarrow> path \<Rightarrow> documented_type \<Rightarrow> search_document list" where
  "plain_documents h root ty =
     plain_type_document h root ty @ concat (map (plain_var_document h root ty) (dt_vars ty))
     @ concat (map (plain_proc_documents h root ty) (dt_procs ty))"

lemma type_document_reads:
  "reads_through h (type_document h root ty) (plain_type_document h root ty)"
  using cache_source_line_reads[of h "resolve_context_file h root (lo_file (dt_location ty))"
    "lo_line (dt_location ty)"]
  by (simp add: reads_through_def type_document_def plain_type_document_def source_at_def
      Let_def split_def)

lemma var_document_reads:
  "reads_through h (var_document h root ty v) (plain_var_document h root ty v)"
  using cache_source_line_reads[of h
    "resolve_context_file h root (lo_file (mv_location (snd v)))" "lo_line (mv_location (snd v))"]
  by (simp add: reads_through_def var_document_def plain_var_document_def source_at_def
      Let_def split_def)

lemma proc_documents_reads:
  "reads_through h (proc_documents h root ty name n i vs)
     (map (plain_proc_document h root ty name n)
       (enumerate (Suc i) (filter (\<lambda>v. \<not> lo_builtin (mv_location v)) vs)))"
proof (induction vs arbitrary: i)
  case Nil
  then show ?case using reads_through_return[of h "[]"] by simp
next
  case (Cons v vs)
  show ?case
  proof (cases "lo_builtin (mv_location v)")
    case True
    with Cons show ?thesis by (simp add: Let_def)
  next
    case False
    note step = reads_through_bind[OF cache_source_declaration_reads
        reads_through_bind[OF Cons[of "Suc i"] reads_through_return]]
    from False show ?thesis
      using step by (simp add: Let_def plain_proc_document_def declaration_at_def)
  qed
qed

lemma proc_entry_documents_reads:
  "reads_through h (proc_entry_documents h root ty p) (plain_proc_documents h root ty p)"
  using proc_documents_reads[of h root ty "fst p" _ 0 "snd p"]
  by (simp add: proc_entry_documents_def[abs_def] plain_proc_documents_def Let_def split_def)

lemma documents_of_type_reads:
  "reads_through h (documents_of_type h root ty) (plain_documents h root ty)"
  unfolding documents_of_type_def plain_documents_def
  by (intro reads_through_bind[OF type_document_reads]
      reads_through_bind[OF collect_documents_reads[OF var_document_reads]]
      reads_through_bind[OF collect_documents_reads[OF proc_entry_documents_reads]]
      reads_through_return)

lemma from_object_tree_plain:
  "from_object_tree h types environment_path =
     concat (map (plain_documents h
        (case parent environment_path of Some p \<Rightarrow> p | None \<Rightarrow> [CurDir])) types)"
proof -
  have "reads_through h (collect_documents (documents_of_type h root) types)
      (concat (map (plain_documents h root) types))" for root
    by (intro collect_documents_reads documents_of_type_reads)
  then show ?thesis
    by (simp add: from_object_tree_def reads_through_def Let_def)
qed


section \<open>Procedures after renaming\<close>

lemma canonical_table_Some:
  assumes "map_of (canonical_table resolutions) k = Some c"
  shows "\<exists>r \<in> set resolutions. pr_requested_type_path r = pr_implementation_owner r
    \<and> (k, c) \<in> set (canonical_entries r)"
proof -
  let ?rs = "filter (\<lambda>r. pr_requested_type_path r = pr_implementation_owner r) resolutions"
  let ?es = "concat (map canonical_entries ?rs)"
  have "fold (\<lambda>(k, v) m. btree_insert k v m) es m = btree.insert_all es m"
    for es :: "(proc_location \<times> canonical_proc) list" and m
    by (induction es arbitrary: m) (simp_all add: split_def)
  then have "map_of (canonical_table resolutions) = map_of (rev ?es)"
    using btree.look_insert_all[of "[]" ?es] by (simp only: canonical_table_def) simp
  with assms have "(k, c) \<in> set (rev ?es)" by (simp only: map_of_SomeD)
  then have "(k, c) \<in> set ?es" by (simp only: set_rev)
  then show ?thesis by auto
qed

lemma rename_document_simps [simp]:
  "do_kind (rename_document c d) = do_kind d" "do_name (rename_document c d) = do_name d"
  "do_file (rename_document c d) = do_file d" "do_line (rename_document c d) = do_line d"
  "do_column (rename_document c d) = do_column d"
  by (simp_all add: rename_document_def split_def)

lemma document_location_rename [simp]: "document_location (rename_document c d) = document_location d"
  by (simp add: document_location_def)

definition procs_of :: "search_document list \<Rightarrow> search_document list" where
  "procs_of ds = filter (\<lambda>d. do_kind d = ProcSymbol) ds"

lemma retain_others:
  "filter (\<lambda>d. do_kind d \<noteq> ProcSymbol) (retain_documents c seen ds)
     = filter (\<lambda>d. do_kind d \<noteq> ProcSymbol) ds"
  by (induction c seen ds rule: retain_documents.induct) (auto simp: Let_def split: option.splits)

lemma procs_of_simps [simp]:
  "procs_of [] = []"
  "procs_of (d # ds) = (if do_kind d = ProcSymbol then d # procs_of ds else procs_of ds)"
  by (simp_all add: procs_of_def)

text \<open>One step of the loop on a procedure document.\<close>

lemma retain_cases:
  assumes "do_kind d = ProcSymbol"
  obtains (dropped) "retain_documents canonical seen (d # ds) = retain_documents canonical seen ds"
  | (kept) c where "map_of canonical (document_location d) = Some c"
      "seen_key (rename_document c d) \<notin> set seen"
      "retain_documents canonical seen (d # ds) = rename_document c d
         # retain_documents canonical (insort_insert (seen_key (rename_document c d)) seen) ds"
proof (cases "map_of canonical (document_location d)")
  case None
  with assms dropped show thesis by simp
next
  case (Some c)
  with assms dropped kept[of c] show thesis
    by (cases "seen_key (rename_document c d) \<in> set seen") (simp_all add: Let_def)
qed

lemma retain_seen:
  "distinct (map seen_key (procs_of (retain_documents canonical seen ds)))
   \<and> seen_key ` set (procs_of (retain_documents canonical seen ds)) \<inter> set seen = {}"
proof (induction ds arbitrary: seen)
  case (Cons d ds)
  show ?case
  proof (cases "do_kind d = ProcSymbol")
    case True
    then show ?thesis
    proof (cases rule: retain_cases[of d canonical seen ds])
      case (kept c)
      then show ?thesis
        using True Cons.IH[of "insort_insert (seen_key (rename_document c d)) seen"]
        by (simp add: set_insort_insert)
    qed (use Cons.IH[of seen] in simp)
  qed (use Cons.IH[of seen] in simp)
qed simp

lemma retain_renamed:
  "d \<in> set (procs_of (retain_documents canonical seen ds)) \<Longrightarrow>
   \<exists>c e. e \<in> set ds \<and> map_of canonical (document_location e) = Some c \<and> d = rename_document c e"
proof (induction ds arbitrary: seen)
  case (Cons e ds)
  show ?case
  proof (cases "do_kind e = ProcSymbol")
    case True
    then show ?thesis
    proof (cases rule: retain_cases[of e canonical seen ds])
      case dropped
      with Cons.prems have "d \<in> set (procs_of (retain_documents canonical seen ds))" by simp
      from Cons.IH[OF this] show ?thesis by (elim exE) (intro exI conjI, auto)
    next
      case (kept c)
      with Cons.prems True have "d = rename_document c e \<or>
        d \<in> set (procs_of (retain_documents canonical
          (insort_insert (seen_key (rename_document c e)) seen) ds))"
        by simp
      then show ?thesis
      proof
        assume "d = rename_document c e"
        with kept(1) show ?thesis by (intro exI[of _ c] exI[of _ e]) simp
      next
        assume "d \<in> set (procs_of (retain_documents canonical
          (insort_insert (seen_key (rename_document c e)) seen) ds))"
        from Cons.IH[OF this] show ?thesis by (elim exE) (intro exI conjI, auto)
      qed
    qed
  next
    case False
    with Cons.prems have "d \<in> set (procs_of (retain_documents canonical seen ds))" by simp
    from Cons.IH[OF this] show ?thesis by (elim exE) (intro exI conjI, auto)
  qed
qed simp

text \<open>
  The procedures of the search index are the resolver's.  After \<open>canonicalize_procs\<close> the
  types and variables are as they were, no two procedure documents have the same symbol, file,
  position and override number, and every procedure document carries the owner, the declaring
  type and the override number of a local implementation the resolver lists at its own position
  under its own name, and the symbol made of that owner and that name.
\<close>

lemma canonical_procs_follow_resolver:
  "let ds = canonicalize_procs resolver documents in
   filter (\<lambda>d. do_kind d \<noteq> ProcSymbol) ds = filter (\<lambda>d. do_kind d \<noteq> ProcSymbol) documents \<and>
   distinct (map seen_key (procs_of ds)) \<and>
   (\<forall>d \<in> set (procs_of ds). \<exists>r \<in> set (rv_canonical_resolutions resolver).
      \<exists>i \<in> set (local_implementations r).
        pr_proc_name r = do_name d \<and> pr_requested_type_path r = pr_implementation_owner r \<and>
        normalize_path_text (sl_file (im_location i)) = normalize_path_text (do_file d) \<and>
        sl_line (im_location i) = do_line d \<and> ucast (sl_column (im_location i)) = do_column d \<and>
        do_type_path d = pr_implementation_owner r \<and>
        do_symbol d = member_symbol (pr_implementation_owner r) ''proc'' (do_name d) \<and>
        do_implementation_owner d = Some (pr_implementation_owner r) \<and>
        do_declaration_owner d = Some (pr_declaration_owner r) \<and>
        do_override_index d = Some (im_override_index i) \<and>
        do_override_count d = Some (length (local_implementations r)))"
proof -
  let ?rs = "rv_canonical_resolutions resolver"
  have owner: "\<exists>r \<in> set ?rs. \<exists>i \<in> set (local_implementations r).
        pr_proc_name r = do_name d \<and> pr_requested_type_path r = pr_implementation_owner r \<and>
        normalize_path_text (sl_file (im_location i)) = normalize_path_text (do_file d) \<and>
        sl_line (im_location i) = do_line d \<and> ucast (sl_column (im_location i)) = do_column d \<and>
        do_type_path d = pr_implementation_owner r \<and>
        do_symbol d = member_symbol (pr_implementation_owner r) ''proc'' (do_name d) \<and>
        do_implementation_owner d = Some (pr_implementation_owner r) \<and>
        do_declaration_owner d = Some (pr_declaration_owner r) \<and>
        do_override_index d = Some (im_override_index i) \<and>
        do_override_count d = Some (length (local_implementations r))"
    if "d \<in> set (procs_of (canonicalize_procs resolver documents))" for d
  proof -
    from that obtain c e where e: "map_of (canonical_table ?rs) (document_location e) = Some c"
      "d = rename_document c e"
      unfolding canonicalize_procs_def by (blast dest: retain_renamed)
    from canonical_table_Some[OF e(1)] obtain r i where r: "r \<in> set ?rs"
      "pr_requested_type_path r = pr_implementation_owner r" "i \<in> set (local_implementations r)"
      "document_location e = (pr_proc_name r, normalize_path_text (sl_file (im_location i)),
         unat (sl_line (im_location i)), unat (ucast (sl_column (im_location i)) :: u32))"
      "c = (pr_implementation_owner r, pr_declaration_owner r, im_override_index i,
         length (local_implementations r))"
      by (auto simp: canonical_entries_def)
    from r(4) have "pr_proc_name r = do_name d"
      "normalize_path_text (sl_file (im_location i)) = normalize_path_text (do_file d)"
      "sl_line (im_location i) = do_line d" "ucast (sl_column (im_location i)) = do_column d"
      using e(2) by (simp_all add: document_location_def word_unat_eq_iff)
    with r e(2) show ?thesis
      by (intro bexI[of _ r] bexI[of _ i]) (simp_all add: rename_document_def)
  qed
  have others: "filter (\<lambda>d. do_kind d \<noteq> ProcSymbol) (canonicalize_procs resolver documents)
      = filter (\<lambda>d. do_kind d \<noteq> ProcSymbol) documents"
    unfolding canonicalize_procs_def by (rule retain_others)
  have "distinct (map seen_key (procs_of (canonicalize_procs resolver documents)))"
    unfolding canonicalize_procs_def using retain_seen by blast
  with others owner show ?thesis unfolding Let_def by simp
qed


definition sample_resolver :: proc_resolver where
  "sample_resolver = proc_resolver_default
     \<lparr>rv_canonical_resolutions :=
        [\<lparr>pr_requested_type_path = ''/a'', pr_proc_name = ''run'', pr_implementation_owner = ''/a'',
          pr_declaration_owner = ''/a'', pr_resolution_kind = LocalImplementation,
          pr_implementations =
            [\<lparr>im_owner = ''/a'', im_override_index = 0,
              im_location = \<lparr>sl_file = ''A.dm'', sl_line = 3, sl_column = 1\<rparr>,
              im_has_body = True, im_parameters = []\<rparr>]\<rparr>]\<rparr>"

definition sample_proc_document :: search_document where
  "sample_proc_document =
     \<lparr>do_kind = ProcSymbol, do_symbol = ''/b/proc/run'', do_name = ''run'', do_type_path = ''/b'',
      do_implementation_owner = None, do_declaration_owner = None, do_parent = None,
      do_file = ''a.dm'', do_line = 3, do_column = 1, do_docs = [], do_source = None,
      do_parameters = [], do_override_index = Some 1, do_override_count = Some 1\<rparr>"

lemma canonical_procs_follow_resolver_witness:
  "let ds = canonicalize_procs sample_resolver [sample_proc_document, sample_proc_document] in
   length ds = 1 \<and> distinct (map seen_key (procs_of ds)) \<and>
   (\<forall>d \<in> set (procs_of ds). do_symbol d = ''/a/proc/run'' \<and> do_override_index d = Some 0)"
proof -
  let ?ds = "canonicalize_procs sample_resolver [sample_proc_document, sample_proc_document]"
  note procs = canonical_procs_follow_resolver[of sample_resolver
      "[sample_proc_document, sample_proc_document]", unfolded Let_def]
  have "list_all (\<lambda>d. do_name d = ''run'') ?ds" "length ?ds = 1" by code_simp+
  then have names: "\<forall>d \<in> set (procs_of ?ds). do_name d = ''run''" "length ?ds = 1"
    by (auto simp: list_all_iff procs_of_def)
  have "do_symbol d = ''/a/proc/run'' \<and> do_override_index d = Some 0"
    if "d \<in> set (procs_of ?ds)" for d
    using that procs names(1)
    by (auto simp: sample_resolver_def proc_resolver_default_def local_implementations_def
        member_symbol_def)
  with procs names(2) show ?thesis unfolding Let_def by blast
qed

end
