(* ===== verification/Search_Scan.thy ===== *)
theory Search_Scan
  imports Search_Index
begin

text \<open>
  The inverted index against a plain scan: a search on the index of some documents returns what
  scoring every document from its own text returns.
\<close>

section \<open>A scan of the documents\<close>

text \<open>The weighted words of a document, and the weight of one word in it.\<close>

definition document_words :: "unicode \<Rightarrow> search_document \<Rightarrow> (string \<times> u32) list" where
  "document_words u d =
     concat (map (\<lambda>(s, weight). map (\<lambda>t. (t, weight)) (tokenize u s)) (weighted_fields d))"

definition word_weight :: "unicode \<Rightarrow> search_document \<Rightarrow> string \<Rightarrow> u32 option" where
  "word_weight u d t =
     (let ws = values_of t (document_words u d) in if ws = [] then None else Some (sum_list ws))"

definition average_length :: "('f, 'm) f64_ops_scheme \<Rightarrow> unicode \<Rightarrow> search_document list \<Rightarrow> 'f" where
  "average_length F u docs =
     (if docs = [] then f_of F 0
      else f_div F (f_sum F (map (document_length F u) docs)) (f_of F (length docs)))"

text \<open>What a word of the query adds to the score of a document that has it.\<close>

definition word_score ::
  "('f, 'm) f64_ops_scheme \<Rightarrow> unicode \<Rightarrow> search_document list \<Rightarrow> search_document \<Rightarrow> string \<Rightarrow> 'f list" where
  "word_score F u docs d t =
     (case word_weight u d t of None \<Rightarrow> []
      | Some w \<Rightarrow>
          [term_contribution F
             (inverse_document_frequency F (length docs)
                (length (filter (\<lambda>e. word_weight u e t \<noteq> None) docs)))
             (average_length F u docs) (document_length F u d) (f_of F (unat w))])"

definition scan_score ::
  "('f, 'm) f64_ops_scheme \<Rightarrow> unicode \<Rightarrow> search_document list \<Rightarrow> string list \<Rightarrow> search_document \<Rightarrow> 'f" where
  "scan_score F u docs terms d = foldl (f_add F) (f_of F 0) (concat (map (word_score F u docs d) terms))"

definition symbol_is :: "unicode \<Rightarrow> string \<Rightarrow> search_document \<Rightarrow> bool" where
  "symbol_is u q d \<longleftrightarrow> to_lowercase u (do_symbol d) = q"

definition word_match :: "unicode \<Rightarrow> string list \<Rightarrow> string \<Rightarrow> search_document \<Rightarrow> bool" where
  "word_match u terms q d \<longleftrightarrow>
     list_ex (\<lambda>t. word_weight u d t \<noteq> None) terms \<or> to_lowercase u (do_name d) = q"

text \<open>
  Which documents are looked at: those with the very symbol, or else those with a word of the
  query or its name, or else those whose symbol contains it.
\<close>

definition scan_candidate ::
  "unicode \<Rightarrow> search_document list \<Rightarrow> string list \<Rightarrow> string \<Rightarrow> search_document \<Rightarrow> bool" where
  "scan_candidate u docs terms q d \<longleftrightarrow>
     (if list_ex (symbol_is u q) docs then symbol_is u q d
      else if list_ex (word_match u terms q) docs then word_match u terms q d
      else contains_case_insensitive u (do_symbol d) q)"

definition scan_hit ::
  "('f, 'm) f64_ops_scheme \<Rightarrow> unicode \<Rightarrow> search_document list \<Rightarrow> string list \<Rightarrow> string
   \<Rightarrow> search_document \<Rightarrow> 'f search_hit" where
  "scan_hit F u docs terms q d =
     \<lparr>hi_score = boosted F u q d
        (if list_ex (symbol_is u q) docs then f_lit F 0 1 else scan_score F u docs terms d),
      hi_document = d\<rparr>"

definition scan_hits ::
  "('f, 'm) f64_ops_scheme \<Rightarrow> unicode \<Rightarrow> search_document list \<Rightarrow> search_request \<Rightarrow> 'f search_hit list" where
  "scan_hits F u docs rq =
     (let terms = query_terms u (rq_query rq); q = to_lowercase u (trim (rq_query rq)) in
      filter (\<lambda>h. f_gt F (hi_score h) (f_lit F 0 1))
        (map (scan_hit F u docs terms q)
          (filter (\<lambda>d. scan_candidate u docs terms q d \<and> passes_filters u rq d) docs)))"

section \<open>What the index holds\<close>

lemma group_all_concat:
  "fold (\<lambda>x m. group_all add e (f x) m) xs m = group_all add e (concat (map f xs)) m"
  by (induction xs arbitrary: m) (simp_all add: group_all_append)

lemma fold_add_frequency: "fold add_frequency ws x = x + sum_list ws"
  by (induction ws arbitrary: x) (simp_all add: add_frequency_def)

lemma weighted_terms_words: "weighted_terms u d = group_all add_frequency 0 (document_words u d) []"
  unfolding weighted_terms_def document_words_def add_weighted_terms_def
  by (simp add: group_all_concat[symmetric] split_def)

lemma map_of_weighted_terms: "map_of (weighted_terms u d) t = word_weight u d t"
  by (simp add: weighted_terms_words map_of_group_all fold_add_frequency word_weight_def Let_def)

lemma btree_weighted_terms: "btree (weighted_terms u d)"
  by (simp add: weighted_terms_words btree_group_all)

lemma values_of_btree:
  assumes "btree m"
  shows "values_of k (map (\<lambda>(t, x). (t, g x)) m) = (case map_of m k of None \<Rightarrow> [] | Some x \<Rightarrow> [g x])"
  using values_of_entries[of m k g "\<lambda>x. [x]"] assms
  by (simp add: btree_def split_def cong: option.case_cong)

lemma values_of_enumerate:
  "values_of i (concat (map (\<lambda>(j, d). map (Pair j) (g d)) (enumerate k ds))) =
     (if k \<le> i \<and> i < k + length ds then g (ds ! (i - k)) else [])"
proof (induction ds arbitrary: k)
  case (Cons d ds)
  show ?case
  proof (cases "i = k")
    case True
    then show ?thesis using Cons[of "Suc k"] by simp
  next
    case False
    then show ?thesis using Cons[of "Suc k"] by (auto simp: Suc_diff_Suc nth_Cons')
  qed
qed auto


definition posting_of :: "('f, 'm) f64_ops_scheme \<Rightarrow> nat \<Rightarrow> u32 \<Rightarrow> 'f posting" where
  "posting_of F i w = \<lparr>po_document_id = i, po_term_frequency = f_of F (unat w)\<rparr>"

lemma postings_of_document:
  "values_of t (document_postings F u (i, d)) =
     (case word_weight u d t of None \<Rightarrow> [] | Some w \<Rightarrow> [posting_of F i w])"
  unfolding document_postings_def prod.case posting_of_def[symmetric]
    values_of_btree[OF btree_weighted_terms] map_of_weighted_terms ..

lemma index_new_simps [simp]:
  "sx_documents (search_index_new F u docs) = docs"
  "sx_document_lengths (search_index_new F u docs) = map (document_length F u) docs"
  "sx_average_document_length (search_index_new F u docs) = average_length F u docs"
  by (simp_all add: search_index_new_def average_length_def Let_def)

lemma index_postings:
  "map_of (sx_postings (search_index_new F u docs)) t =
     (let ps = concat (map (\<lambda>(i, d). case word_weight u d t of None \<Rightarrow> [] | Some w \<Rightarrow> [posting_of F i w])
                 (enumerate 0 docs)) in
      if ps = [] then None else Some ps)"
proof -
  have "values_of t (concat (map (document_postings F u) (enumerate 0 docs)))
      = concat (map (\<lambda>(i, d). case word_weight u d t of None \<Rightarrow> [] | Some w \<Rightarrow> [posting_of F i w])
          (enumerate 0 docs))"
    unfolding values_of_concat map_map
    by (intro arg_cong[where f = concat] map_cong refl) (auto simp: postings_of_document)
  then show ?thesis by (simp add: search_index_new_def map_of_group_push Let_def)
qed

lemma keyed_ids:
  "values_of q (map (\<lambda>(i, d). (key d, i)) (enumerate 0 docs))
     = filter (\<lambda>i. key (docs ! i) = q) [0 ..< length docs]"
proof (induction docs rule: rev_induct)
  case (snoc d docs)
  then show ?case
    by (auto simp: enumerate_append_eq nth_append intro: filter_cong)
qed simp


lemma holders_length:
  "length (concat (map (\<lambda>(i, d). case w d of None \<Rightarrow> [] | Some x \<Rightarrow> [g i x]) (enumerate k docs)))
     = length (filter (\<lambda>d. w d \<noteq> None) docs)"
  by (induction docs arbitrary: k) (auto split: option.split)

lemma index_term_scores:
  "term_scores F (search_index_new F u docs) t =
     concat (map (\<lambda>(i, d). map (Pair i) (word_score F u docs d t)) (enumerate 0 docs))"
proof -
  let ?ps = "concat (map (\<lambda>(i, d). case word_weight u d t of None \<Rightarrow> [] | Some w \<Rightarrow> [posting_of F i w])
      (enumerate 0 docs))"
  let ?idf = "inverse_document_frequency F (length docs)
      (length (filter (\<lambda>e. word_weight u e t \<noteq> None) docs))"
  have "term_scores F (search_index_new F u docs) t =
      map (\<lambda>p. (po_document_id p, term_contribution F ?idf (average_length F u docs)
        (map (document_length F u) docs ! po_document_id p) (po_term_frequency p))) ?ps"
    unfolding term_scores_def index_postings Let_def holders_length[symmetric, where g = "posting_of F" and k = 0]
    by simp
  also have "\<dots> = concat (map (\<lambda>(i, d). map (Pair i) (word_score F u docs d t)) (enumerate 0 docs))"
    unfolding map_concat map_map
  proof (intro arg_cong[where f = concat] map_cong refl)
    fix e assume "e \<in> set (enumerate 0 docs)"
    then have "fst e < length docs" "docs ! fst e = snd e" by (simp_all add: in_set_enumerate_eq)
    then obtain i where "e = (i, docs ! i)" "i < length docs" by (metis prod.collapse)
    then show "(map (\<lambda>p. (po_document_id p, term_contribution F ?idf (average_length F u docs)
          (map (document_length F u) docs ! po_document_id p) (po_term_frequency p)))
        \<circ> (\<lambda>(i, d). case word_weight u d t of None \<Rightarrow> [] | Some w \<Rightarrow> [posting_of F i w])) e
      = (\<lambda>(i, d). map (Pair i) (word_score F u docs d t)) e"
      by (simp add: word_score_def posting_of_def split: option.split)
  qed
  finally show ?thesis .
qed

text \<open>The scores of a query that is no symbol: one entry per matching document.\<close>

definition index_scores ::
  "('f, 'm) f64_ops_scheme \<Rightarrow> unicode \<Rightarrow> search_document list \<Rightarrow> string list \<Rightarrow> (nat, 'f) btree_map" where
  "index_scores F u docs terms =
     fold (\<lambda>t m. group_all (\<lambda>c acc. f_add F acc c) (f_of F 0)
            (term_scores F (search_index_new F u docs) t) m) terms []"

lemma btree_index_scores: "btree (index_scores F u docs terms)"
  by (simp add: index_scores_def group_all_concat btree_group_all)

lemma map_of_index_scores:
  "map_of (index_scores F u docs terms) i =
     (if i < length docs \<and> list_ex (\<lambda>t. word_weight u (docs ! i) t \<noteq> None) terms
      then Some (scan_score F u docs terms (docs ! i)) else None)"
proof -
  have v: "values_of i (concat (map (term_scores F (search_index_new F u docs)) terms))
      = (if i < length docs then concat (map (word_score F u docs (docs ! i)) terms) else [])"
  proof -
    have "values_of i (term_scores F (search_index_new F u docs) t)
        = (if i < length docs then word_score F u docs (docs ! i) t else [])" for t
      unfolding index_term_scores values_of_enumerate by simp
    then show ?thesis by (simp add: values_of_concat comp_def)
  qed
  have "concat (map (word_score F u docs (docs ! i)) terms) = []
      \<longleftrightarrow> \<not> list_ex (\<lambda>t. word_weight u (docs ! i) t \<noteq> None) terms"
    by (auto simp: word_score_def list_ex_iff split: option.split)
  then show ?thesis
    unfolding index_scores_def group_all_concat map_of_group_all v
    by (simp add: scan_score_def foldl_conv_fold)
qed

lemma fold_or_default:
  "map_of (fold (or_default e) ids m) i =
     (case map_of m i of Some v \<Rightarrow> Some v | None \<Rightarrow> if i \<in> set ids then Some e else None)"
  by (induction ids arbitrary: m)
    (auto simp: or_default_def map_of_btree_or_insert split: option.split)

lemma btree_fold_or_default: "btree m \<Longrightarrow> btree (fold (or_default e) ids m)"
  by (induction ids arbitrary: m) (auto simp: or_default_def btree_or_insert)

lemma fold_insert_ids:
  "map_of (fold (\<lambda>i m. btree_insert i z m) ids m) i = (if i \<in> set ids then Some z else map_of m i)"
  by (induction ids arbitrary: m) (auto simp: map_of_btree_insert)

lemma btree_fold_insert_ids: "btree m \<Longrightarrow> btree (fold (\<lambda>i m. btree_insert i z m) ids m)"
  by (induction ids arbitrary: m) (auto simp: btree_btree_insert)

lemma index_exact:
  "map_of (sx_exact_symbols (search_index_new F u docs)) q =
     (let ids = filter (\<lambda>i. symbol_is u q (docs ! i)) [0 ..< length docs] in
      if ids = [] then None else Some ids)"
  "map_of (sx_exact_names (search_index_new F u docs)) q =
     (let ids = filter (\<lambda>i. to_lowercase u (do_name (docs ! i)) = q) [0 ..< length docs] in
      if ids = [] then None else Some ids)"
  by (simp_all add: search_index_new_def Let_def map_of_group_push symbol_is_def
      keyed_ids[of _ "\<lambda>d. to_lowercase u (do_symbol d)"] keyed_ids[of _ "\<lambda>d. to_lowercase u (do_name d)"])

lemma list_ex_nth: "list_ex P xs \<longleftrightarrow> (\<exists>i < length xs. P (xs ! i))"
  by (metis in_set_conv_nth list_ex_iff)

lemma exact_ids_empty:
  "filter (\<lambda>i. P (docs ! i)) [0 ..< length docs] = [] \<longleftrightarrow> \<not> list_ex P docs"
  by (auto simp: filter_empty_conv list_ex_nth)

lemma btree_query_scores: "btree (query_scores F (search_index_new F u docs) terms q)"
  unfolding query_scores_def index_scores_def[symmetric]
  by (auto split: option.split
      intro!: btree_fold_insert_ids btree_fold_or_default btree_index_scores)

lemma map_of_query_scores:
  "map_of (query_scores F (search_index_new F u docs) terms q) i =
     (if i < length docs \<and>
         (if list_ex (symbol_is u q) docs then symbol_is u q (docs ! i)
          else word_match u terms q (docs ! i))
      then Some (if list_ex (symbol_is u q) docs then f_lit F 0 1
                 else scan_score F u docs terms (docs ! i))
      else None)"
proof (cases "list_ex (symbol_is u q) docs")
  case True
  then show ?thesis
    by (simp add: query_scores_def index_exact exact_ids_empty Let_def fold_insert_ids)
next
  case False
  have none: "scan_score F u docs terms d = f_of F 0"
    if "\<not> list_ex (\<lambda>t. word_weight u d t \<noteq> None) terms" for d
  proof -
    have "concat (map (word_score F u docs d) terms) = []"
      using that by (auto simp: word_score_def list_ex_iff)
    then show ?thesis by (simp only: scan_score_def foldl.simps)
  qed
  from False have "query_scores F (search_index_new F u docs) terms q
      = fold (or_default (f_of F 0))
          (filter (\<lambda>i. to_lowercase u (do_name (docs ! i)) = q) [0 ..< length docs])
          (index_scores F u docs terms)"
    by (simp add: query_scores_def index_exact exact_ids_empty Let_def index_scores_def)
  with False none show ?thesis
    by (auto simp: fold_or_default map_of_index_scores word_match_def)
qed

lemma btree_keys:
  assumes "btree m" "\<And>i. n \<le> i \<Longrightarrow> map_of m i = None"
  shows "map fst m = filter (\<lambda>i. map_of m i \<noteq> None) [0 ..< n]"
proof (rule sorted_distinct_set_unique)
  show "sorted (map fst m)" "distinct (map fst m)" using assms(1) by (simp_all add: btree_def)
  show "set (map fst m) = set (filter (\<lambda>i. map_of m i \<noteq> None) [0 ..< n])"
    using assms(2) by (auto simp: map_of_eq_None_iff image_iff) (metis fst_conv linorder_not_le option.simps(3) weak_map_of_SomeI)+
qed (simp_all add: sorted_wrt_filter)


section \<open>Search and scan agree\<close>

lemma enumerate_ids:
  "map fst (filter (\<lambda>(_, d). P d) (enumerate 0 docs)) = filter (\<lambda>i. P (docs ! i)) [0 ..< length docs]"
proof (induction docs rule: rev_induct)
  case (snoc d docs)
  then show ?case by (auto simp: enumerate_append_eq nth_append intro: filter_cong)
qed simp

lemma filter_nth: "map ((!) docs) (filter (\<lambda>i. P (docs ! i)) [0 ..< length docs]) = filter P docs"
proof -
  have "filter P docs = filter P (map ((!) docs) [0 ..< length docs])" by (simp add: map_nth)
  then show ?thesis by (simp add: filter_map comp_def)
qed

lemma map_filter_test:
  "List.map_filter (\<lambda>i. if Q (h i) then Some (h i) else None) xs = filter Q (map h xs)"
  by (induction xs) (simp_all add: map_filter_simps)

lemma query_scores_empty:
  "query_scores F (search_index_new F u docs) terms q = [] \<longleftrightarrow>
   \<not> list_ex (symbol_is u q) docs \<and> \<not> list_ex (word_match u terms q) docs"
proof -
  let ?s = "query_scores F (search_index_new F u docs) terms q"
  have "?s = [] \<longleftrightarrow> (\<forall>i. map_of ?s i = None)" by (cases ?s) auto
  then show ?thesis
    unfolding map_of_query_scores
    by (cases "list_ex (symbol_is u q) docs") (simp_all add: list_ex_nth)
qed

lemma index_candidates:
  "(let scores = query_scores F (search_index_new F u docs) terms q in
    if scores = []
    then map fst (filter (\<lambda>(_, d). contains_case_insensitive u (do_symbol d) q) (enumerate 0 docs))
    else map fst scores)
   = filter (\<lambda>i. scan_candidate u docs terms q (docs ! i)) [0 ..< length docs]"
proof -
  let ?s = "query_scores F (search_index_new F u docs) terms q"
  have keys: "map fst ?s = filter (\<lambda>i. map_of ?s i \<noteq> None) [0 ..< length docs]"
    by (rule btree_keys[OF btree_query_scores]) (simp add: map_of_query_scores)
  show ?thesis
  proof (cases "?s = []")
    case True
    then show ?thesis
      using query_scores_empty[of F u docs terms q]
      by (simp add: enumerate_ids scan_candidate_def)
  next
    case False
    then have "map fst ?s = filter (\<lambda>i. scan_candidate u docs terms q (docs ! i)) [0 ..< length docs]"
      using query_scores_empty[of F u docs terms q] unfolding keys map_of_query_scores
      by (auto simp: scan_candidate_def intro: filter_cong)
    with False show ?thesis by simp
  qed
qed

lemma word_score_none: "\<not> word_match u terms q d \<Longrightarrow> scan_score F u docs terms d = f_of F 0"
proof -
  assume "\<not> word_match u terms q d"
  then have "concat (map (word_score F u docs d) terms) = []"
    by (auto simp: word_match_def word_score_def list_ex_iff)
  then show ?thesis by (simp only: scan_score_def foldl.simps)
qed

lemma index_hits:
  assumes "terms = query_terms u (rq_query rq)" "q = to_lowercase u (trim (rq_query rq))"
  shows "search_hits F u (search_index_new F u docs) rq q
       (query_scores F (search_index_new F u docs) terms q)
       (filter (\<lambda>i. scan_candidate u docs terms q (docs ! i)) [0 ..< length docs])
     = scan_hits F u docs rq"
proof -
  let ?s = "query_scores F (search_index_new F u docs) terms q"
  let ?is = "filter (\<lambda>i. passes_filters u rq (docs ! i))
    (filter (\<lambda>i. scan_candidate u docs terms q (docs ! i)) [0 ..< length docs])"
  let ?h = "\<lambda>i. \<lparr>hi_score = boosted F u q (docs ! i)
      (case map_of ?s i of Some s \<Rightarrow> s | None \<Rightarrow> f_of F 0), hi_document = docs ! i\<rparr>"
  have hit: "?h i = scan_hit F u docs terms q (docs ! i)" if "i \<in> set ?is" for i
    using that word_score_none[of u terms q "docs ! i" F docs]
    by (auto simp: map_of_query_scores scan_hit_def scan_candidate_def)
  have "search_hits F u (search_index_new F u docs) rq q ?s
       (filter (\<lambda>i. scan_candidate u docs terms q (docs ! i)) [0 ..< length docs])
      = filter (\<lambda>h. f_gt F (hi_score h) (f_lit F 0 1)) (map ?h ?is)"
    using map_filter_test[of "\<lambda>h. f_gt F (hi_score h) (f_lit F 0 1)" ?h ?is]
    by (simp add: search_hits_def Let_def cong: if_cong)
  also have "map ?h ?is = map (scan_hit F u docs terms q \<circ> (!) docs) ?is"
    using hit by simp
  also have "\<dots> = map (scan_hit F u docs terms q)
      (filter (\<lambda>d. scan_candidate u docs terms q d \<and> passes_filters u rq d) docs)"
    using filter_nth[of docs "\<lambda>d. scan_candidate u docs terms q d \<and> passes_filters u rq d"]
    by (simp flip: map_map add: conj_commute)
  finally show ?thesis using assms by (simp add: scan_hits_def Let_def)
qed

lemma search_new:
  "ex_hits (search F u select_nth (search_index_new F u docs) rq) =
     (if query_terms u (rq_query rq) = [] \<or> rq_limit rq = 0 then []
      else keep_best compare_hits select_nth (rq_limit rq) (scan_hits F u docs rq))"
  by (simp only: search_def Let_def index_new_simps index_candidates[unfolded Let_def]
      index_hits[OF refl refl] if_distrib[of ex_hits] search_execution.select_convs)

interpretation hits: ranking "compare_hits :: ('f::linorder, 'm) search_hit_scheme \<Rightarrow> _"
proof unfold_locales
  fix x y z :: "('f, 'm) search_hit_scheme"
  show "compare_hits x y \<or> compare_hits y x" by (auto simp: compare_hits_def Let_def)
  show "compare_hits x y \<Longrightarrow> compare_hits y z \<Longrightarrow> compare_hits x z"
    by (auto simp: compare_hits_def Let_def)
qed


text \<open>
  C18. Searching the index finds the best hits of a full scan.  Whatever documents were indexed,
  whatever \<open>f64\<close> arithmetic computes and however \<open>select_nth_unstable_by\<close> meets its contract, a
  query with at least one word returns as many hits as the limit allows out of the qualifying
  ones, each a qualifying one, in the order of \<open>compare_hits\<close>, and no qualifying hit left out
  ranks before one returned.  The qualifying hits are what a scan of the documents themselves
  yields: the documents with the very symbol, or else those with a word of the query or its
  name, or else those whose symbol contains it, less what the filters reject, with a positive
  score computed from the document's own words.
\<close>

theorem search_finds_best_hits:
  assumes "selects compare_hits select_nth" "query_terms u (rq_query rq) \<noteq> []"
  shows "let hits = ex_hits (search F u select_nth (search_index_new F u docs) rq);
             qualifying = scan_hits F u docs rq in
     length hits = min (rq_limit rq) (length qualifying) \<and> mset hits \<subseteq># mset qualifying \<and>
     sorted_wrt compare_hits hits \<and>
     (\<forall>x \<in># mset qualifying - mset hits. \<forall>y \<in> set hits. compare_hits y x)"
proof (cases "rq_limit rq = 0")
  case True
  then show ?thesis by (simp add: search_new)
next
  case False
  with assms(2) have hits: "ex_hits (search F u select_nth (search_index_new F u docs) rq)
      = keep_best compare_hits select_nth (rq_limit rq) (scan_hits F u docs rq)"
    by (simp add: search_new)
  show ?thesis
    unfolding Let_def hits using hits.keep_best_spec[OF assms(1)] by blast
qed

text \<open>Whole numbers in place of \<open>f64\<close>, hundredths as the unit, for an instance.\<close>

definition sample_f64 :: "int f64_ops" where
  "sample_f64 =
     \<lparr>f_lit = (\<lambda>a k. int a * 100 div 10 ^ k), f_add = (+), f_sub = (-),
      f_mul = (\<lambda>a b. a * b div 100), f_div = (\<lambda>a b. a * 100 div b), f_ln = (\<lambda>a. a),
      f_gt = (\<lambda>a b. b < a), f_eq = (=)\<rparr>"

definition sample_unicode :: unicode where
  "sample_unicode = \<lparr>u_alphanumeric = (\<lambda>_. True), u_lowercase = (\<lambda>s. s)\<rparr>"

definition sample_document :: "string \<Rightarrow> string \<Rightarrow> search_document" where
  "sample_document symbol name =
     \<lparr>do_kind = TypeSymbol, do_symbol = symbol, do_name = name, do_type_path = symbol,
      do_implementation_owner = None, do_declaration_owner = None, do_parent = None,
      do_file = ''a.dm'', do_line = 1, do_column = 1, do_docs = [], do_source = None,
      do_parameters = [], do_override_index = None, do_override_count = None\<rparr>"

definition sample_request :: "string \<Rightarrow> nat \<Rightarrow> search_request" where
  "sample_request query limit =
     \<lparr>rq_query = query, rq_kind = None, rq_type_prefix = None, rq_file_filter = None,
      rq_limit = limit\<rparr>"

theorem search_finds_best_hits_witness:
  "let docs = [sample_document ''/Mob'' ''Mob'', sample_document ''/turf'' ''turf'',
               sample_document ''/mob'' ''mob''];
       hits = ex_hits (search sample_f64 sample_unicode (\<lambda>_. sort_by compare_hits)
                (search_index_new sample_f64 sample_unicode docs) (sample_request ''/mob'' 1)) in
   length (scan_hits sample_f64 sample_unicode docs (sample_request ''/mob'' 1)) = 2 \<and>
   length hits = 1 \<and> sorted_wrt compare_hits hits"
proof -
  let ?docs = "[sample_document ''/Mob'' ''Mob'', sample_document ''/turf'' ''turf'',
    sample_document ''/mob'' ''mob'']"
  have "query_terms sample_unicode ''/mob'' = [''mob'']" by code_simp
  then have "query_terms sample_unicode (rq_query (sample_request ''/mob'' 1)) \<noteq> []"
    by (simp add: sample_request_def)
  note found = search_finds_best_hits[OF hits.selects_sort this, of sample_f64 ?docs]
  have two: "length (scan_hits sample_f64 sample_unicode ?docs (sample_request ''/mob'' 1)) = 2"
    by code_simp
  have limit: "rq_limit (sample_request ''/mob'' 1) = 1" by (simp add: sample_request_def)
  from found show ?thesis unfolding Let_def two limit by simp
qed

text \<open>A query that is a symbol, case aside, is answered by that symbol's documents alone.\<close>

lemma exact_symbol_hits:
  assumes "selects compare_hits select_nth" "d \<in> set docs"
    and "to_lowercase u (do_symbol d) = to_lowercase u (trim (rq_query rq))"
    and "h \<in> set (ex_hits (search F u select_nth (search_index_new F u docs) rq))"
  shows "to_lowercase u (do_symbol (hi_document h)) = to_lowercase u (trim (rq_query rq))"
proof -
  have "list_ex (symbol_is u (to_lowercase u (trim (rq_query rq)))) docs"
    using assms(2,3) by (auto simp: list_ex_iff symbol_is_def)
  moreover have "h \<in># mset (scan_hits F u docs rq)"
    using assms(4) hits.keep_best_spec(3)[OF assms(1), of "rq_limit rq" "scan_hits F u docs rq"]
    by (auto simp: search_new split: if_splits dest: mset_subset_eqD)
  ultimately show ?thesis
    by (auto simp: scan_hits_def scan_hit_def scan_candidate_def symbol_is_def Let_def)
qed

end
