(* ===== verification/Semantic_Chunks.thy ===== *)
theory Semantic_Chunks
  imports Text_Lines Byte_Codec Paths
begin

text \<open>
  Semantic chunks, from \<open>src/semantic.rs\<close>: a document is its symbol, its comment and its source;
  its lines are cut into chunks of forty lines that overlap by five, each named by digests.
  SHA-256 (\<open>sha256\<close>, the hexadecimal digest) and the text of a path (\<open>lossy\<close>, what
  \<open>to_string_lossy\<close> returns) are parameters.
\<close>

definition SEMANTIC_CHUNK_SCHEMA_VERSION :: u32 where
  "SEMANTIC_CHUNK_SCHEMA_VERSION = 1"

definition CHUNK_LINES :: nat where
  "CHUNK_LINES = 40"

definition CHUNK_OVERLAP_LINES :: nat where
  "CHUNK_OVERLAP_LINES = 5"

record semantic_chunk_record =
  sc_schema_version :: u32
  sc_chunk_id :: string
  sc_document_id :: string
  sc_content_digest :: string
  sc_chunk_index :: u32
  sc_kind :: string
  sc_symbol :: string
  sc_implementation_owner :: "string option"
  sc_declaration_owner :: "string option"
  sc_repository_relative_file :: string
  sc_line :: u32
  sc_column :: u32
  sc_text :: string

record semantic_document_input =
  sd_kind :: string
  sd_symbol :: string
  sd_implementation_owner :: "string option"
  sd_declaration_owner :: "string option"
  sd_file :: path
  sd_line :: u32
  sd_column :: u32
  sd_override_index :: "nat option"
  sd_docs :: string
  sd_source :: "string option"

datatype semantic_error = OutsideRepositoryRoot | NotRepositoryRelative | TooManyChunks

definition digest_parts :: "(string \<Rightarrow> string) \<Rightarrow> string list \<Rightarrow> string" where
  "digest_parts sha256 parts = sha256 (parts_bytes parts)"

definition semantic_text :: "semantic_document_input \<Rightarrow> string" where
  "semantic_text document =
     join_with (CHR 0x0A)
       ([sd_symbol document]
        @ (if sd_docs document \<noteq> [] then [sd_docs document] else [])
        @ (case sd_source document of
             Some source \<Rightarrow> if source \<noteq> [] then [source] else []
           | None \<Rightarrow> []))"

definition repository_relative_path :: "(path \<Rightarrow> string) \<Rightarrow> path \<Rightarrow> path \<Rightarrow> semantic_error + string" where
  "repository_relative_path lossy f root =
     (if \<not> path_starts_with f root then Inl OutsideRepositoryRoot
      else let relative = drop (length root) f in
        if relative = [] \<or>
           list_ex (\<lambda>c. case c of ParentDir \<Rightarrow> True | RootDir \<Rightarrow> True | Prefix _ \<Rightarrow> True | _ \<Rightarrow> False)
             relative
        then Inl NotRepositoryRelative
        else Inr (replace_char (CHR 0x5C) (CHR 0x2F) (lossy relative)))"

definition document_id :: "(string \<Rightarrow> string) \<Rightarrow> semantic_document_input \<Rightarrow> string \<Rightarrow> string" where
  "document_id sha256 document relative_file =
     digest_parts sha256
       [''semantic-document'', show_nat (unat SEMANTIC_CHUNK_SCHEMA_VERSION), sd_kind document,
        sd_symbol document,
        case sd_implementation_owner document of Some owner \<Rightarrow> owner | None \<Rightarrow> [],
        case sd_declaration_owner document of Some owner \<Rightarrow> owner | None \<Rightarrow> [],
        relative_file, show_nat (unat (sd_line document)), show_nat (unat (sd_column document)),
        case sd_override_index document of Some i \<Rightarrow> show_nat i | None \<Rightarrow> ''none'']"

definition make_chunk ::
  "(string \<Rightarrow> string) \<Rightarrow> semantic_document_input \<Rightarrow> string \<Rightarrow> u32 \<Rightarrow> string \<Rightarrow> semantic_chunk_record" where
  "make_chunk sha256 document relative_file chunk_index chunk_text =
     (let did = document_id sha256 document relative_file in
      \<lparr>sc_schema_version = SEMANTIC_CHUNK_SCHEMA_VERSION,
       sc_chunk_id = digest_parts sha256 [''semantic-chunk'', did, show_nat (unat chunk_index)],
       sc_document_id = did,
       sc_content_digest = digest_parts sha256 [''semantic-content'', chunk_text],
       sc_chunk_index = chunk_index,
       sc_kind = sd_kind document,
       sc_symbol = sd_symbol document,
       sc_implementation_owner = sd_implementation_owner document,
       sc_declaration_owner = sd_declaration_owner document,
       sc_repository_relative_file = relative_file,
       sc_line = sd_line document,
       sc_column = sd_column document,
       sc_text = chunk_text\<rparr>)"

text \<open>
  The loop of \<open>build_semantic_chunks\<close>: the chunk at \<open>start\<close>, then back by the overlap.  The
  conversion of the chunk count to \<open>u32\<close> is the only step that can fail.
\<close>

function chunk_loop ::
  "(u32 \<Rightarrow> string \<Rightarrow> semantic_chunk_record) \<Rightarrow> string list \<Rightarrow> nat \<Rightarrow> semantic_chunk_record list
   \<Rightarrow> semantic_error + semantic_chunk_record list" where
  "chunk_loop chunk lines start chunks =
     (if start < length lines then
        (let stop = min (length lines) (start + CHUNK_LINES);
             chunk_text = join_with (CHR 0x0A) (take (stop - start) (drop start lines)) in
         if length chunks < 2 ^ 32 then
           (let chunks' = chunks @ [chunk (of_nat (length chunks)) chunk_text] in
            if stop = length lines then Inr chunks'
            else chunk_loop chunk lines (stop - CHUNK_OVERLAP_LINES) chunks')
         else Inl TooManyChunks)
      else Inr chunks)"
  by pat_completeness auto

termination
  by (relation "measure (\<lambda>(_, lines, start, _). length lines - start)")
    (auto simp: CHUNK_LINES_def CHUNK_OVERLAP_LINES_def)

declare chunk_loop.simps [simp del]

definition build_semantic_chunks ::
  "(string \<Rightarrow> string) \<Rightarrow> (path \<Rightarrow> string) \<Rightarrow> semantic_document_input \<Rightarrow> path
   \<Rightarrow> semantic_error + semantic_chunk_record list" where
  "build_semantic_chunks sha256 lossy document repository_root =
     rbind (repository_relative_path lossy (sd_file document) repository_root) (\<lambda>relative_file.
       chunk_loop (make_chunk sha256 document relative_file) (str_lines (semantic_text document)) 0 [])"


section \<open>The windows of the loop\<close>

text \<open>The pieces the loop cuts from position \<open>start\<close> on: forty lines, thirty-five further each time.\<close>

function windows :: "'a list \<Rightarrow> 'a list list" where
  "windows xs =
     (if xs = [] then [] else if length xs \<le> 40 then [xs] else take 40 xs # windows (drop 35 xs))"
  by pat_completeness auto

termination
  by (relation "measure length") auto

declare windows.simps [simp del]

lemma windows_Nil [simp]: "windows [] = []"
  by (simp add: windows.simps)

lemma windows_short: "xs \<noteq> [] \<Longrightarrow> length xs \<le> 40 \<Longrightarrow> windows xs = [xs]"
  by (simp add: windows.simps)

lemma windows_long: "40 < length xs \<Longrightarrow> windows xs = take 40 xs # windows (drop 35 xs)"
  by (subst windows.simps) auto

lemma windows_induct [case_names empty short long]:
  assumes "P []" "\<And>xs. xs \<noteq> [] \<Longrightarrow> length xs \<le> 40 \<Longrightarrow> P xs"
    and "\<And>xs. 40 < length xs \<Longrightarrow> P (drop 35 xs) \<Longrightarrow> P xs"
  shows "P xs"
proof (induction xs rule: windows.induct)
  case (1 xs)
  then show ?case using assms by (cases "xs = []"; cases "length xs \<le> 40") auto
qed

lemma windows_count: "length (windows xs) \<le> length xs"
proof (induction xs rule: windows_induct)
  case (short xs)
  then show ?case by (cases xs) (auto simp: windows_short)
next
  case (long xs)
  then show ?case by (simp add: windows_long)
qed simp

lemma windows_size: "w \<in> set (windows xs) \<Longrightarrow> w \<noteq> [] \<and> length w \<le> 40"
  by (induction xs rule: windows_induct) (auto simp: windows_short windows_long)

lemma windows_subset: "w \<in> set (windows xs) \<Longrightarrow> set w \<subseteq> set xs"
proof (induction xs rule: windows_induct)
  case (long xs)
  then show ?case by (auto simp: windows_long dest: in_set_takeD in_set_dropD)
qed (auto simp: windows_short)

text \<open>All of a list, and nothing twice: the windows less the overlap of each with the last.\<close>

definition without_overlap :: "'a list list \<Rightarrow> 'a list" where
  "without_overlap ws = (case ws of [] \<Rightarrow> [] | w # ws \<Rightarrow> w @ concat (map (drop 5) ws))"

lemma windows_hd: "5 \<le> length xs \<Longrightarrow> windows xs \<noteq> [] \<and> take 5 (hd (windows xs)) = take 5 xs"
  by (subst (1 2) windows.simps) auto

lemma windows_cover: "without_overlap (windows xs) = xs"
proof (induction xs rule: windows_induct)
  case (long xs)
  then have "windows (drop 35 xs) \<noteq> []" by (subst windows.simps) auto
  then obtain w ws where w: "windows (drop 35 xs) = w # ws"
    by (cases "windows (drop 35 xs)") auto
  have "without_overlap (windows xs) = take 40 xs @ drop 5 w @ concat (map (drop 5) ws)"
    using long w by (simp add: without_overlap_def windows_long)
  moreover have "w @ concat (map (drop 5) ws) = drop 35 xs"
    using long w by (simp add: without_overlap_def)
  moreover have "5 \<le> length w"
  proof (cases "length (drop 35 xs) \<le> 40")
    case True
    with w long show ?thesis by (simp add: windows_short) (use long in auto)
  next
    case False
    with w show ?thesis by (auto simp: windows_long)
  qed
  then have "drop 5 w @ concat (map (drop 5) ws) = drop 5 (w @ concat (map (drop 5) ws))" by simp
  ultimately have "without_overlap (windows xs) = take 40 xs @ drop 40 xs" by simp
  then show ?case by simp
qed (simp_all add: without_overlap_def windows_short)

lemma windows_overlap:
  "i + 1 < length (windows xs) \<Longrightarrow>
   length (windows xs ! i) = 40 \<and> drop 35 (windows xs ! i) = take 5 (windows xs ! (i + 1))"
proof (induction xs arbitrary: i rule: windows_induct)
  case (long xs)
  have "5 \<le> length (drop 35 xs)" using long by simp
  then have hd: "windows (drop 35 xs) \<noteq> []"
      "take 5 (windows (drop 35 xs) ! 0) = take 5 (drop 35 xs)"
    using windows_hd[of "drop 35 xs"] by (simp, metis hd_conv_nth)
  show ?case
  proof (cases i)
    case 0
    with long hd show ?thesis by (simp add: windows_long drop_take)
  next
    case (Suc j)
    with long.IH[of j] long.prems long.hyps show ?thesis by (simp add: windows_long)
  qed
qed (simp_all add: windows_short)

lemma chunk_loop_windows:
  assumes "start < length lines \<or> lines = []" "length chunks + length (windows (drop start lines)) \<le> 2 ^ 32"
  shows "chunk_loop chunk lines start chunks
     = Inr (chunks @ map (\<lambda>(i, w). chunk (of_nat i) (join_with (CHR 0x0A) w))
              (enumerate (length chunks) (windows (drop start lines))))"
  using assms
proof (induction chunk lines start chunks rule: chunk_loop.induct)
  case (1 chunk lines start chunks)
  show ?case
  proof (cases "start < length lines")
    case False
    with 1(2) show ?thesis by (subst chunk_loop.simps) simp
  next
    case start: True
    let ?rest = "drop start lines"
    show ?thesis
    proof (cases "length ?rest \<le> 40")
      case True
      then have w: "windows ?rest = [?rest]" using start by (simp add: windows_short)
      have stop: "min (length lines) (start + CHUNK_LINES) = length lines"
        using True by (simp add: CHUNK_LINES_def)
      from w 1(3) have "length chunks < 2 ^ 32" by simp
      then show ?thesis
        using start w stop by (simp add: chunk_loop.simps[of chunk lines start] Let_def)
    next
      case False
      then have w: "windows ?rest = take 40 ?rest # windows (drop (start + 35) lines)"
        by (simp add: windows_long add.commute)
      have stop: "min (length lines) (start + CHUNK_LINES) = start + 40" "start + 40 \<noteq> length lines"
        using False by (simp_all add: CHUNK_LINES_def)
      have less: "length chunks < 2 ^ 32" using w 1(3) by simp
      let ?c = "chunk (of_nat (length chunks)) (join_with (CHR 0x0A) (take 40 ?rest))"
      have "chunk_loop chunk lines start chunks
          = chunk_loop chunk lines (start + 35) (chunks @ [?c])"
        using start stop less
        by (simp add: chunk_loop.simps[of chunk lines start] Let_def CHUNK_OVERLAP_LINES_def add.commute)
      moreover have "start + 35 < length lines" using False by simp
      ultimately show ?thesis
        using 1(1)[OF start refl refl less refl stop(2)[folded stop(1)]] 1(3) w stop
        by (simp add: CHUNK_OVERLAP_LINES_def add.commute[of 35])
    qed
  qed
qed


section \<open>Chunks cover a document\<close>

lemma windows_lines:
  assumes "w \<in> set (windows (str_lines s))"
  shows "split_on (CHR 0x0A) (join_with (CHR 0x0A) w) = w"
proof -
  from windows_size[OF assms] obtain p ps where w: "w = p # ps" by (cases w) auto
  have "\<forall>q \<in> set (p # ps). CHR 0x0A \<notin> set q"
    using windows_subset[OF assms] w str_lines_no_newline by blast
  then show ?thesis unfolding w by (rule split_join_with)
qed

lemma build_semantic_chunks_Inr:
  assumes "repository_relative_path lossy (sd_file d) root = Inr rel"
    and "length (str_lines (semantic_text d)) \<le> 2 ^ 32"
  shows "build_semantic_chunks sha256 lossy d root
    = Inr (map (\<lambda>(i, w). make_chunk sha256 d rel (of_nat i) (join_with (CHR 0x0A) w))
             (enumerate 0 (windows (str_lines (semantic_text d)))))"
proof -
  let ?lines = "str_lines (semantic_text d)"
  have "length (windows ?lines) \<le> 2 ^ 32" using windows_count[of ?lines] assms(2) by linarith
  with assms(1) show ?thesis by (simp add: build_semantic_chunks_def chunk_loop_windows)
qed

lemma make_chunk_simps [simp]:
  "sc_text (make_chunk h d rel i t) = t" "sc_chunk_index (make_chunk h d rel i t) = i"
  "sc_document_id (make_chunk h d rel i t) = document_id h d rel"
  "sc_chunk_id (make_chunk h d rel i t)
     = digest_parts h [''semantic-chunk'', document_id h d rel, show_nat (unat i)]"
  by (simp_all add: make_chunk_def Let_def)

text \<open>
  C15. The chunks of a document cover it.  For a file below the repository root and a document
  of at most \<open>2 ^ 32\<close> lines, chunking succeeds; the chunks are numbered from 0 in order, each
  has between one and forty lines, each but the last has exactly forty and ends with the five
  lines the next one begins with, and the chunks without those repeated lines are the lines of
  the document's text, none lost and none out of order.
\<close>

theorem semantic_chunks_cover_document:
  assumes "repository_relative_path lossy (sd_file d) root = Inr rel"
    and "length (str_lines (semantic_text d)) \<le> 2 ^ 32"
  shows "\<exists>chunks. build_semantic_chunks sha256 lossy d root = Inr chunks \<and>
     map (\<lambda>c. unat (sc_chunk_index c)) chunks = [0 ..< length chunks] \<and>
     (let pieces = map (\<lambda>c. split_on (CHR 0x0A) (sc_text c)) chunks in
      without_overlap pieces = str_lines (semantic_text d) \<and>
      list_all (\<lambda>p. 1 \<le> length p \<and> length p \<le> 40) pieces \<and>
      (\<forall>i. i + 1 < length pieces \<longrightarrow>
         length (pieces ! i) = 40 \<and> drop 35 (pieces ! i) = take 5 (pieces ! (i + 1))))"
proof -
  let ?ws = "windows (str_lines (semantic_text d))"
  define chunks where "chunks = map (\<lambda>(i, w). make_chunk sha256 d rel (of_nat i)
    (join_with (CHR 0x0A) w)) (enumerate 0 ?ws)"
  have count: "length ?ws \<le> 2 ^ 32"
    using windows_count[of "str_lines (semantic_text d)"] assms(2) by linarith
  have pieces: "map (\<lambda>c. split_on (CHR 0x0A) (sc_text c)) chunks = ?ws"
    by (rule nth_equalityI)
      (simp_all add: chunks_def nth_enumerate_eq windows_lines[OF nth_mem])
  have "map (\<lambda>c. unat (sc_chunk_index c)) chunks = [0 ..< length chunks]"
    using count
    by (intro nth_equalityI) (simp_all add: chunks_def nth_enumerate_eq unat_of_nat32)
  moreover have "list_all (\<lambda>p. 1 \<le> length p \<and> length p \<le> 40) ?ws"
    using windows_size by (fastforce simp: list_all_iff Suc_le_eq)
  moreover have "\<forall>i. i + 1 < length ?ws \<longrightarrow>
      length (?ws ! i) = 40 \<and> drop 35 (?ws ! i) = take 5 (?ws ! (i + 1))"
    using windows_overlap by blast
  ultimately show ?thesis
    using build_semantic_chunks_Inr[OF assms, of sha256, folded chunks_def] pieces
    by (intro exI[of _ chunks]) (simp only: Let_def windows_cover simp_thms)
qed

theorem semantic_chunks_cover_document_witness:
  "\<exists>chunks. build_semantic_chunks (\<lambda>s. s) (\<lambda>p. ''code/example.dm'')
       \<lparr>sd_kind = ''proc'', sd_symbol = ''/datum/run'', sd_implementation_owner = None,
        sd_declaration_owner = None, sd_file = [RootDir, Normal ''repo'', Normal ''example.dm''],
        sd_line = 12, sd_column = 1, sd_override_index = Some 1, sd_docs = ''Runs.'',
        sd_source = Some ''return 1\<newline>''\<rparr> [RootDir, Normal ''repo''] = Inr chunks \<and>
     without_overlap (map (\<lambda>c. split_on (CHR 0x0A) (sc_text c)) chunks)
       = [''/datum/run'', ''Runs.'', ''return 1'']"
proof -
  let ?d = "\<lparr>sd_kind = ''proc'', sd_symbol = ''/datum/run'', sd_implementation_owner = None,
        sd_declaration_owner = None, sd_file = [RootDir, Normal ''repo'', Normal ''example.dm''],
        sd_line = 12, sd_column = 1, sd_override_index = Some 1, sd_docs = ''Runs.'',
        sd_source = Some ''return 1\<newline>''\<rparr>"
  have "repository_relative_path (\<lambda>p. ''code/example.dm'') (sd_file ?d) [RootDir, Normal ''repo'']
      = Inr ''code/example.dm''" by code_simp
  moreover have lines: "str_lines (semantic_text ?d) = [''/datum/run'', ''Runs.'', ''return 1'']"
    by code_simp
  ultimately show ?thesis
    using semantic_chunks_cover_document
      [of "\<lambda>p. ''code/example.dm''" ?d "[RootDir, Normal ''repo'']" _ "\<lambda>s. s"]
    by (auto simp: Let_def)
qed

section \<open>Identities\<close>

text \<open>
  What a document id stands for: an absent owner and an empty one are not told apart, and
  neither is anything else when the digest does not collide on the two documents.
\<close>

definition document_parts :: "semantic_document_input \<Rightarrow> string \<Rightarrow> string list" where
  "document_parts d rel =
     [''semantic-document'', show_nat (unat SEMANTIC_CHUNK_SCHEMA_VERSION), sd_kind d, sd_symbol d,
      case sd_implementation_owner d of Some s \<Rightarrow> s | None \<Rightarrow> [],
      case sd_declaration_owner d of Some s \<Rightarrow> s | None \<Rightarrow> [], rel,
      show_nat (unat (sd_line d)), show_nat (unat (sd_column d)),
      case sd_override_index d of Some i \<Rightarrow> show_nat i | None \<Rightarrow> ''none'']"

lemma show_nat_inj: "show_nat m = show_nat n \<longleftrightarrow> m = n"
  by (metis digits_value_show_nat)

lemma show_nat_not_none: "show_nat n \<noteq> ''none''"
  using show_nat_digits[of n] by (auto simp: is_digit_def)

lemma document_id_identifies:
  assumes "document_id sha256 d rel = document_id sha256 d' rel'"
    and "inj_on sha256 {parts_bytes (document_parts d rel), parts_bytes (document_parts d' rel')}"
    and "\<forall>p \<in> set (document_parts d rel @ document_parts d' rel'). length p < 2 ^ 64"
  shows "sd_kind d = sd_kind d' \<and> sd_symbol d = sd_symbol d' \<and> rel = rel'
    \<and> sd_line d = sd_line d' \<and> sd_column d = sd_column d'
    \<and> sd_override_index d = sd_override_index d'"
proof -
  have "sha256 (parts_bytes (document_parts d rel)) = sha256 (parts_bytes (document_parts d' rel'))"
    using assms(1) by (simp add: document_id_def digest_parts_def document_parts_def)
  then have "parts_bytes (document_parts d rel) = parts_bytes (document_parts d' rel')"
    by (rule inj_onD[OF assms(2)]) blast+
  then have "document_parts d rel = document_parts d' rel'"
    by (rule parts_bytes_inj) (use assms(3) in simp_all)
  then have eqs: "sd_kind d = sd_kind d'" "sd_symbol d = sd_symbol d'" "rel = rel'"
    "sd_line d = sd_line d'" "sd_column d = sd_column d'"
    "(case sd_override_index d of Some i \<Rightarrow> show_nat i | None \<Rightarrow> ''none'')
       = (case sd_override_index d' of Some i \<Rightarrow> show_nat i | None \<Rightarrow> ''none'')"
    by (simp_all add: document_parts_def show_nat_inj word_unat_eq_iff)
  have "sd_override_index d = sd_override_index d'"
    using eqs(6) show_nat_not_none
    by (cases "sd_override_index d"; cases "sd_override_index d'") (auto simp: show_nat_inj dest: sym)
  with eqs show ?thesis by simp
qed

end
