(* ===== verification/Server_Config.thy ===== *)
theory Server_Config
  imports Repository_Roots
begin

text \<open>
  The startup configuration, from \<open>src/config.rs\<close>: the modes, the accesses, the checks of
  \<open>from_values_with_all_features\<close> in their order, its public wrappers, and what \<open>from_env\<close>
  adds.  The process environment is a record of the variables the code reads, split path
  lists included.
\<close>

section \<open>Data\<close>

datatype capability_mode = Analysis | Development

datatype rift_build_access = RiftDisabled | RiftOffline | RiftNetwork

datatype debugger_access = DebuggerDisabled | Auxtools

datatype tracy_access = TracyDisabled | Byond

record server_config =
  sc_mode :: capability_mode
  sc_workspace_roots :: "path list"
  sc_effective_roots :: "EffectiveRoot list"
  sc_compiler_allowlist :: "path list"
  sc_rift_build_access :: rift_build_access
  sc_helper_manifest :: "path option"
  sc_state_directory :: "path option"
  sc_debugger_access :: debugger_access
  sc_tracy_access :: tracy_access

datatype config_error =
    UnknownMode string
  | UnknownRiftBuild string
  | WorkspaceRootRequired
  | TracyRequiresDevelopment
  | TracyRequiresManifest
  | UnknownTracy string
  | Roots roots_error
  | StateInAnalysis
  | StateRequired
  | StateNotInspectable path
  | StateNotDirectory
  | StateNotCanonical string
  | StateInsideRoot
  | NotCanonical string path
  | MissingRoots
  | DebuggerRequiresDevelopment
  | UnknownDebugger string

section \<open>Parsing the values\<close>

definition parse_mode :: "string option \<Rightarrow> config_error + capability_mode" where
  "parse_mode value =
     (let s = (case value of None \<Rightarrow> ''analysis'' | Some s \<Rightarrow> s) in
      if s = ''analysis'' then Inr Analysis
      else if s = ''development'' then Inr Development
      else Inl (UnknownMode s))"

definition parse_rift_build :: "string option \<Rightarrow> config_error + rift_build_access" where
  "parse_rift_build value =
     (let s = (case value of None \<Rightarrow> ''disabled'' | Some s \<Rightarrow> s) in
      if s = ''disabled'' then Inr RiftDisabled
      else if s = ''offline'' then Inr RiftOffline
      else if s = ''network'' then Inr RiftNetwork
      else Inl (UnknownRiftBuild s))"

definition parse_tracy ::
    "capability_mode \<Rightarrow> path option \<Rightarrow> string option \<Rightarrow> config_error + tracy_access" where
  "parse_tracy mode helper_manifest value =
     (let s = (case value of None \<Rightarrow> ''disabled'' | Some s \<Rightarrow> s) in
      if s = ''disabled'' then Inr TracyDisabled
      else if s = ''byond'' \<and> mode = Development \<and> helper_manifest \<noteq> None then Inr Byond
      else if s = ''byond'' \<and> mode \<noteq> Development then Inl TracyRequiresDevelopment
      else if s = ''byond'' then Inl TracyRequiresManifest
      else Inl (UnknownTracy s))"

definition check_state_directory ::
    "filesystem \<Rightarrow> EffectiveRoot list \<Rightarrow> path \<Rightarrow> config_error + path" where
  "check_state_directory fs effective_roots p =
     rbind (map_err (\<lambda>_. StateNotInspectable p) (fs_symlink_metadata fs p)) (\<lambda>kind.
       if kind \<noteq> Directory then Inl StateNotDirectory
       else rbind (map_err StateNotCanonical (fs_canonicalize fs p)) (\<lambda>p.
         if \<exists>root \<in> set effective_roots.
              path_starts_with p (er_path root) \<or> path_starts_with (er_path root) p
         then Inl StateInsideRoot else Inr p))"

definition parse_state_directory ::
    "filesystem \<Rightarrow> EffectiveRoot list \<Rightarrow> capability_mode \<Rightarrow> path option
     \<Rightarrow> config_error + path option" where
  "parse_state_directory fs effective_roots mode state_directory =
     (case (mode, state_directory) of
        (Analysis, None) \<Rightarrow> Inr None
      | (Analysis, Some _) \<Rightarrow> Inl StateInAnalysis
      | (Development, None) \<Rightarrow> Inl StateRequired
      | (Development, Some p) \<Rightarrow>
          rbind (check_state_directory fs effective_roots p) (\<lambda>p. Inr (Some p)))"

definition canonicalize_all ::
    "filesystem \<Rightarrow> path list \<Rightarrow> string \<Rightarrow> config_error + path list" where
  "canonicalize_all fs paths label =
     rmap (\<lambda>p. map_err (\<lambda>_. NotCanonical label p) (fs_canonicalize fs p)) paths"

definition canonicalize_manifest ::
    "filesystem \<Rightarrow> path option \<Rightarrow> config_error + path option" where
  "canonicalize_manifest fs manifest =
     (case manifest of None \<Rightarrow> Inr None
      | Some p \<Rightarrow> rbind (map_err (\<lambda>_. NotCanonical ''helper manifest'' p) (fs_canonicalize fs p))
                   (\<lambda>p. Inr (Some p)))"

section \<open>Building the configuration\<close>

definition from_values_with_all_features ::
    "host \<Rightarrow> string option \<Rightarrow> path list \<Rightarrow> path list \<Rightarrow> path list \<Rightarrow> string option
     \<Rightarrow> string option \<Rightarrow> path option \<Rightarrow> path option \<Rightarrow> config_error + server_config" where
  "from_values_with_all_features h mode workspace_roots repositories compiler_allowlist
       rift_build tracy helper_manifest state_directory =
     rbind (parse_mode mode) (\<lambda>mode.
     rbind (parse_rift_build rift_build) (\<lambda>rift_build_access.
     if workspace_roots = [] then Inl WorkspaceRootRequired
     else rbind (parse_tracy mode helper_manifest tracy) (\<lambda>tracy_access.
     rbind (map_err Roots (expand_effective_roots h workspace_roots repositories)) (\<lambda>effective_roots.
     rbind (parse_state_directory (h_fs h) effective_roots mode state_directory) (\<lambda>state_directory.
     rbind (canonicalize_all (h_fs h) compiler_allowlist ''compiler'') (\<lambda>compilers.
     rbind (canonicalize_manifest (h_fs h) helper_manifest) (\<lambda>manifest.
     Inr \<lparr>sc_mode = mode, sc_workspace_roots = map er_path effective_roots,
          sc_effective_roots = effective_roots, sc_compiler_allowlist = compilers,
          sc_rift_build_access = rift_build_access, sc_helper_manifest = manifest,
          sc_state_directory = state_directory, sc_debugger_access = DebuggerDisabled,
          sc_tracy_access = tracy_access\<rparr>)))))))"

definition from_values_with_features_and_state ::
    "host \<Rightarrow> string option \<Rightarrow> path list \<Rightarrow> path list \<Rightarrow> string option \<Rightarrow> string option
     \<Rightarrow> path option \<Rightarrow> path option \<Rightarrow> config_error + server_config" where
  "from_values_with_features_and_state h mode workspace_roots compiler_allowlist rift_build tracy
       helper_manifest state_directory =
     from_values_with_all_features h mode workspace_roots [] compiler_allowlist rift_build tracy
       helper_manifest state_directory"

definition from_values_with_features ::
    "host \<Rightarrow> string option \<Rightarrow> path list \<Rightarrow> path list \<Rightarrow> string option \<Rightarrow> string option
     \<Rightarrow> path option \<Rightarrow> config_error + server_config" where
  "from_values_with_features h mode workspace_roots compiler_allowlist rift_build tracy
       helper_manifest =
     from_values_with_all_features h mode workspace_roots [] compiler_allowlist rift_build tracy
       helper_manifest None"

definition from_values_with_repositories ::
    "host \<Rightarrow> string option \<Rightarrow> path list \<Rightarrow> path list \<Rightarrow> path list \<Rightarrow> config_error + server_config" where
  "from_values_with_repositories h mode workspace_roots repositories compiler_allowlist =
     from_values_with_all_features h mode workspace_roots repositories compiler_allowlist
       None None None None"

definition from_values_with_rift_build_and_state ::
    "host \<Rightarrow> string option \<Rightarrow> path list \<Rightarrow> path list \<Rightarrow> string option \<Rightarrow> path option
     \<Rightarrow> config_error + server_config" where
  "from_values_with_rift_build_and_state h mode workspace_roots compiler_allowlist rift_build
       state_directory =
     from_values_with_features_and_state h mode workspace_roots compiler_allowlist rift_build
       None None state_directory"

definition from_values_with_rift_build ::
    "host \<Rightarrow> string option \<Rightarrow> path list \<Rightarrow> path list \<Rightarrow> string option \<Rightarrow> config_error + server_config" where
  "from_values_with_rift_build h mode workspace_roots compiler_allowlist rift_build =
     from_values_with_features h mode workspace_roots compiler_allowlist rift_build None None"

definition from_values_with_state ::
    "host \<Rightarrow> string option \<Rightarrow> path list \<Rightarrow> path list \<Rightarrow> path option \<Rightarrow> config_error + server_config" where
  "from_values_with_state h mode workspace_roots compiler_allowlist state_directory =
     from_values_with_features_and_state h mode workspace_roots compiler_allowlist
       None None None state_directory"

definition from_values ::
    "host \<Rightarrow> string option \<Rightarrow> path list \<Rightarrow> path list \<Rightarrow> config_error + server_config" where
  "from_values h mode workspace_roots compiler_allowlist =
     from_values_with_features h mode workspace_roots compiler_allowlist None None None"

section \<open>The process environment\<close>

record environment =
  env_mode :: "string option"
  env_roots :: "path list option"
  env_compilers :: "path list option"
  env_repositories :: "path list option"
  env_rift_build :: "string option"
  env_helper_manifest :: "path option"
  env_tracy :: "string option"
  env_state_dir :: "path option"
  env_debugger :: "string option"

definition parse_debugger :: "capability_mode \<Rightarrow> string option \<Rightarrow> config_error + debugger_access" where
  "parse_debugger mode value =
     (case value of None \<Rightarrow> Inr DebuggerDisabled
      | Some s \<Rightarrow>
          if s = ''disabled'' then Inr DebuggerDisabled
          else if s = ''auxtools'' \<and> mode = Development then Inr Auxtools
          else if s = ''auxtools'' then Inl DebuggerRequiresDevelopment
          else Inl (UnknownDebugger s))"

definition or_empty :: "'a list option \<Rightarrow> 'a list" where
  "or_empty x = (case x of None \<Rightarrow> [] | Some xs \<Rightarrow> xs)"

definition from_env :: "host \<Rightarrow> environment \<Rightarrow> config_error + server_config" where
  "from_env h env =
     rbind (or_err MissingRoots (env_roots env)) (\<lambda>roots.
     rbind (from_values_with_all_features h (env_mode env) roots (or_empty (env_repositories env))
              (or_empty (env_compilers env)) (env_rift_build env) (env_tracy env)
              (env_helper_manifest env) (env_state_dir env)) (\<lambda>config.
     rbind (parse_debugger (sc_mode config) (env_debugger env)) (\<lambda>access.
     Inr (config\<lparr>sc_debugger_access := access\<rparr>))))"

section \<open>What a configuration guarantees\<close>

lemmas config_splits = if_splits option.splits capability_mode.splits file_kind.splits

lemma parse_state_directory_ok:
  "parse_state_directory fs roots mode sd = Inr sd' \<Longrightarrow>
   (mode = Analysis \<longrightarrow> sd = None \<and> sd' = None) \<and>
   (mode = Development \<longrightarrow> (\<exists>p d. sd = Some p \<and> sd' = Some d \<and>
      fs_symlink_metadata fs p = Inr Directory \<and> fs_canonicalize fs p = Inr d \<and>
      (\<forall>r \<in> set roots. \<not> path_starts_with d (er_path r) \<and> \<not> path_starts_with (er_path r) d)))"
  by (auto simp: parse_state_directory_def check_state_directory_def result_Inr split: config_splits)

lemma parse_tracy_ok:
  "parse_tracy mode manifest value = Inr access \<Longrightarrow>
   access = Byond \<Longrightarrow> mode = Development \<and> manifest \<noteq> None"
  by (auto simp: parse_tracy_def Let_def split: config_splits)

lemma canonicalize_manifest_ok:
  "canonicalize_manifest fs manifest = Inr m \<Longrightarrow> (m = None) = (manifest = None)"
  by (auto simp: canonicalize_manifest_def result_Inr split: option.splits)

lemma canonicalize_all_ok:
  "canonicalize_all fs paths label = Inr cs \<Longrightarrow>
   list_all2 (\<lambda>p c. fs_canonicalize fs p = Inr c) paths cs"
  by (simp add: canonicalize_all_def rmap_Inr map_err_Inr)

lemma from_values_ok:
  assumes "from_values_with_all_features h mode ws reps compilers rift tracy manifest sd = Inr c"
  shows "parse_mode mode = Inr (sc_mode c)"
    and "expand_effective_roots h ws reps = Inr (sc_effective_roots c)"
    and "sc_workspace_roots c = map er_path (sc_effective_roots c)"
    and "parse_tracy (sc_mode c) manifest tracy = Inr (sc_tracy_access c)"
    and "parse_state_directory (h_fs h) (sc_effective_roots c) (sc_mode c) sd
           = Inr (sc_state_directory c)"
    and "canonicalize_all (h_fs h) compilers ''compiler'' = Inr (sc_compiler_allowlist c)"
    and "canonicalize_manifest (h_fs h) manifest = Inr (sc_helper_manifest c)"
  using assms by (auto simp: from_values_with_all_features_def result_Inr split: if_splits)

lemma parse_debugger_ok:
  "parse_debugger mode value = Inr Auxtools \<Longrightarrow> mode = Development"
  by (auto simp: parse_debugger_def split: config_splits)

lemma from_env_ok:
  assumes "from_env h env = Inr c"
  obtains roots c' where "env_roots env = Some roots"
    "from_values_with_all_features h (env_mode env) roots (or_empty (env_repositories env))
       (or_empty (env_compilers env)) (env_rift_build env) (env_tracy env)
       (env_helper_manifest env) (env_state_dir env) = Inr c'"
    "parse_debugger (sc_mode c') (env_debugger env) = Inr (sc_debugger_access c)"
    "c = c'\<lparr>sc_debugger_access := sc_debugger_access c\<rparr>"
  using assms by (auto simp: from_env_def result_Inr)

text \<open>
  C5. A server that starts has a coherent configuration: in analysis mode it has no state
  directory, no Tracy access and no debugger; in development mode it has a canonical state
  directory that neither contains nor is contained in any workspace root; Tracy access
  comes with a helper manifest; every compiler is the canonical path of a configured one;
  and its workspace roots are the paths of its effective roots.
\<close>

theorem from_env_mode_separation:
  assumes "from_env h env = Inr c"
  shows "(sc_mode c = Analysis \<longrightarrow> env_state_dir env = None \<and> sc_state_directory c = None \<and>
            sc_tracy_access c = TracyDisabled \<and> sc_debugger_access c = DebuggerDisabled)
    \<and> (sc_mode c = Development \<longrightarrow>
         (\<exists>p d. env_state_dir env = Some p \<and> sc_state_directory c = Some d \<and>
            fs_symlink_metadata (h_fs h) p = Inr Directory \<and> fs_canonicalize (h_fs h) p = Inr d \<and>
            (\<forall>r \<in> set (sc_workspace_roots c).
               \<not> path_starts_with d r \<and> \<not> path_starts_with r d)))
    \<and> (sc_tracy_access c = Byond \<longrightarrow> sc_helper_manifest c \<noteq> None)
    \<and> (\<forall>x \<in> set (sc_compiler_allowlist c).
         \<exists>p \<in> set (or_empty (env_compilers env)). fs_canonicalize (h_fs h) p = Inr x)
    \<and> sc_workspace_roots c \<noteq> [] \<and> sorted (sc_workspace_roots c) \<and> distinct (sc_workspace_roots c)"
proof -
  obtain roots c' where c': "from_values_with_all_features h (env_mode env) roots
       (or_empty (env_repositories env)) (or_empty (env_compilers env)) (env_rift_build env)
       (env_tracy env) (env_helper_manifest env) (env_state_dir env) = Inr c'"
    "parse_debugger (sc_mode c') (env_debugger env) = Inr (sc_debugger_access c)"
    "c = c'\<lparr>sc_debugger_access := sc_debugger_access c\<rparr>"
    using assms by (rule from_env_ok)
  note v = from_values_ok[OF c'(1)]
  have same: "sc_mode c = sc_mode c'" "sc_state_directory c = sc_state_directory c'"
    "sc_tracy_access c = sc_tracy_access c'" "sc_helper_manifest c = sc_helper_manifest c'"
    "sc_workspace_roots c = sc_workspace_roots c'" "sc_effective_roots c = sc_effective_roots c'"
    "sc_compiler_allowlist c = sc_compiler_allowlist c'"
    by (subst c'(3); simp)+
  obtain m where m: "roots_inv h roots (or_empty (env_repositories env)) m"
    "sc_effective_roots c' = map snd m" "m \<noteq> []"
    using v(2) by (rule expand_effective_roots_inv)
  have "sc_workspace_roots c' = map fst m" using roots_inv_paths[OF m(1)] m(2) v(3) by simp
  then have roots: "sorted (sc_workspace_roots c')" "distinct (sc_workspace_roots c')"
      "sc_workspace_roots c' \<noteq> []"
    using m(1,3) by (simp_all add: roots_inv_def btree_def)
  have "sc_debugger_access c = DebuggerDisabled" if "sc_mode c' = Analysis"
    using parse_debugger_ok[of "sc_mode c'" "env_debugger env"] c'(2) that
    by (cases "sc_debugger_access c") auto
  moreover have "sc_tracy_access c' = TracyDisabled" if "sc_mode c' = Analysis"
    using parse_tracy_ok[OF v(4)] that by (cases "sc_tracy_access c'") auto
  moreover note parse_state_directory_ok[OF v(5)]
  moreover have "sc_tracy_access c' = Byond \<longrightarrow> sc_helper_manifest c' \<noteq> None"
    using parse_tracy_ok[OF v(4)] canonicalize_manifest_ok[OF v(7)] by simp
  moreover have "\<forall>x \<in> set (sc_compiler_allowlist c').
      \<exists>p \<in> set (or_empty (env_compilers env)). fs_canonicalize (h_fs h) p = Inr x"
    using list_all2_Inr_set[OF canonicalize_all_ok[OF v(6)]] by blast
  moreover have "(\<forall>r \<in> set (sc_workspace_roots c'). P r) \<longleftrightarrow>
      (\<forall>r \<in> set (sc_effective_roots c'). P (er_path r))" for P
    by (simp add: v(3))
  ultimately show ?thesis using roots unfolding same by simp
qed

definition demo_environment :: environment where
  "demo_environment = \<lparr>env_mode = Some ''development'', env_roots = Some [demo_path ''x''],
     env_compilers = Some [demo_path ''dm''], env_repositories = None, env_rift_build = None,
     env_helper_manifest = Some (demo_path ''m''), env_tracy = Some ''byond'',
     env_state_dir = Some (demo_path ''s''), env_debugger = Some ''auxtools''\<rparr>"

lemma demo_from_env:
  "map_err (\<lambda>_. ()) (rbind (from_env demo_host demo_environment)
      (\<lambda>c. Inr (sc_mode c, sc_state_directory c, sc_debugger_access c, sc_workspace_roots c)))
   = Inr (Development, Some (demo_path ''s''), Auxtools, [demo_path ''x''])"
  by code_simp

theorem from_env_mode_separation_witness:
  "\<exists>c. from_env demo_host demo_environment = Inr c \<and> sc_state_directory c = Some (demo_path ''s'') \<and>
     (\<forall>r \<in> set (sc_workspace_roots c). \<not> path_starts_with (demo_path ''s'') r)"
proof -
  obtain c where c: "from_env demo_host demo_environment = Inr c"
    "sc_mode c = Development" "sc_state_directory c = Some (demo_path ''s'')"
    using demo_from_env by (auto simp: result_Inr)
  with from_env_mode_separation[OF c(1)] show ?thesis by auto
qed

end
