(* ===== verification/Tool_Contracts.thy ===== *)
theory Tool_Contracts
  imports Server_Config "HOL-Library.Multiset"
begin

text \<open>
  The table of tool contracts, from \<open>src/contracts.rs\<close>: the effects, support level, timeout and
  output limit every tool declares, the selection of the tools a configuration offers, and
  the generated reference document.  \<open>cfg!(windows)\<close> is the argument \<open>windows\<close>.
\<close>

section \<open>Data\<close>

record tool_effects =
  te_reads_files :: bool
  te_writes_files :: bool
  te_spawns_process :: bool
  te_network_loopback :: bool
  te_network_external :: bool
  te_destructive :: bool

datatype support_level = Verified | Provisional | Experimental | Unsupported

record tool_contract =
  tc_name :: string
  tc_summary :: string
  tc_mode :: capability_mode
  tc_effects :: tool_effects
  tc_support :: support_level
  tc_timeout_ms :: "u64 option"
  tc_max_output_bytes :: nat

definition READ_EFFECTS :: tool_effects where
  "READ_EFFECTS = \<lparr>te_reads_files = True, te_writes_files = False, te_spawns_process = False,
     te_network_loopback = False, te_network_external = False, te_destructive = False\<rparr>"

definition MEMORY :: tool_effects where
  "MEMORY = \<lparr>te_reads_files = False, te_writes_files = False, te_spawns_process = False,
     te_network_loopback = False, te_network_external = False, te_destructive = False\<rparr>"

definition COMPILE :: tool_effects where
  "COMPILE = \<lparr>te_reads_files = True, te_writes_files = True, te_spawns_process = True,
     te_network_loopback = False, te_network_external = False, te_destructive = True\<rparr>"

definition RIFT_COMPILE :: tool_effects where
  "RIFT_COMPILE = \<lparr>te_reads_files = True, te_writes_files = True, te_spawns_process = True,
     te_network_loopback = False, te_network_external = True, te_destructive = True\<rparr>"

definition RENDER :: tool_effects where
  "RENDER = \<lparr>te_reads_files = True, te_writes_files = True, te_spawns_process = False,
     te_network_loopback = False, te_network_external = False, te_destructive = True\<rparr>"

definition RUNTIME :: tool_effects where
  "RUNTIME = \<lparr>te_reads_files = True, te_writes_files = True, te_spawns_process = True,
     te_network_loopback = True, te_network_external = False, te_destructive = False\<rparr>"

definition RUNTIME_STATE :: tool_effects where
  "RUNTIME_STATE = \<lparr>te_reads_files = True, te_writes_files = True, te_spawns_process = False,
     te_network_loopback = False, te_network_external = False, te_destructive = False\<rparr>"

definition RUNTIME_STOP :: tool_effects where
  "RUNTIME_STOP = \<lparr>te_reads_files = True, te_writes_files = True, te_spawns_process = False,
     te_network_loopback = False, te_network_external = False, te_destructive = True\<rparr>"

definition TOPIC :: tool_effects where
  "TOPIC = \<lparr>te_reads_files = False, te_writes_files = False, te_spawns_process = False,
     te_network_loopback = True, te_network_external = False, te_destructive = False\<rparr>"

definition DEBUG_EFFECTS :: tool_effects where
  "DEBUG_EFFECTS = \<lparr>te_reads_files = True, te_writes_files = False, te_spawns_process = True,
     te_network_loopback = True, te_network_external = False, te_destructive = False\<rparr>"

definition TRACY_PREPARE :: tool_effects where
  "TRACY_PREPARE = \<lparr>te_reads_files = True, te_writes_files = True, te_spawns_process = False,
     te_network_loopback = False, te_network_external = False, te_destructive = True\<rparr>"

definition TRACY_PROCESS :: tool_effects where
  "TRACY_PROCESS = \<lparr>te_reads_files = True, te_writes_files = False, te_spawns_process = True,
     te_network_loopback = False, te_network_external = False, te_destructive = False\<rparr>"

definition TRACY_STATUS :: tool_effects where
  "TRACY_STATUS = \<lparr>te_reads_files = False, te_writes_files = False, te_spawns_process = False,
     te_network_loopback = True, te_network_external = False, te_destructive = False\<rparr>"

definition TRACY_STOP :: tool_effects where
  "TRACY_STOP = \<lparr>te_reads_files = True, te_writes_files = True, te_spawns_process = False,
     te_network_loopback = True, te_network_external = False, te_destructive = True\<rparr>"

text \<open>The macro \<open>contract!\<close>.\<close>

definition contract ::
    "string \<Rightarrow> string \<Rightarrow> capability_mode \<Rightarrow> tool_effects \<Rightarrow> support_level \<Rightarrow> u64 option \<Rightarrow> nat
     \<Rightarrow> tool_contract" where
  "contract name summary mode effects support timeout limit =
     \<lparr>tc_name = name, tc_summary = summary, tc_mode = mode, tc_effects = effects,
      tc_support = support, tc_timeout_ms = timeout, tc_max_output_bytes = limit\<rparr>"

section \<open>The table\<close>

definition contracts_1 :: "tool_contract list" where
  "contracts_1 =
    [contract ''dm_server_status''
       ''Report immutable startup policy, build identity, analysis generation, and owned runtime summary.''
       Analysis MEMORY Provisional None 262144,
     contract ''dm_parse_environment''
       ''Parse and atomically install DreamMaker analysis and lexical indexes.''
       Analysis READ_EFFECTS Provisional (Some 1800000) 1048576,
     contract ''dm_check_fixture_sync''
       ''Validate declared fixture source contracts and build provenance.''
       Analysis READ_EFFECTS Experimental None 1048576,
     contract ''dm_native_evidence_summary''
       ''Summarize bounded redacted native runtime evidence.''
       Analysis READ_EFFECTS Experimental (Some 120000) 1048576,
     contract ''dm_native_evidence_compare''
       ''Compare identity-compatible native evidence runs.''
       Analysis READ_EFFECTS Experimental (Some 600000) 1048576,
     contract ''dm_get_type''
       ''Inspect an exact DreamMaker type.''
       Analysis MEMORY Provisional None 1048576,
     contract ''dm_get_proc''
       ''Inspect exact proc implementations and source excerpts.''
       Analysis READ_EFFECTS Provisional None 1048576,
     contract ''dm_get_var''
       ''Inspect an exact DreamMaker variable.''
       Analysis MEMORY Provisional None 262144,
     contract ''dm_list_types''
       ''List parsed types under an optional prefix.''
       Analysis MEMORY Provisional None 1048576,
     contract ''dm_search_symbols''
       ''Search parsed symbol names.''
       Analysis MEMORY Provisional None 1048576,
     contract ''dm_search_context''
       ''Rank lexical candidates from parsed symbols and source context.''
       Analysis READ_EFFECTS Provisional None 1048576,
     contract ''dm_check_errors''
       ''Read bounded cached parser and DreamChecker diagnostics.''
       Analysis MEMORY Provisional None 1048576]"

definition contracts_2 :: "tool_contract list" where
  "contracts_2 =
    [contract ''dm_get_definition''
       ''Locate an exact parsed definition.''
       Analysis MEMORY Provisional None 262144,
     contract ''dm_document_symbols''
       ''List declarations in one parsed source file.''
       Analysis READ_EFFECTS Provisional None 1048576,
     contract ''dm_find_references''
       ''Find bounded exact member references.''
       Analysis READ_EFFECTS Experimental None 1048576,
     contract ''dm_find_implementations''
       ''Find type or member implementations.''
       Analysis MEMORY Provisional None 1048576,
     contract ''dm_dmi_info''
       ''Profile DMI metadata and frame pixels without altering art.''
       Analysis READ_EFFECTS Provisional None 1048576,
     contract ''dm_compare_dmi_states''
       ''Compare complete DMI states including common lazy changes.''
       Analysis READ_EFFECTS Provisional None 1048576,
     contract ''dm_find_dmi_duplicates''
       ''Find cross-file exact and lazy-change DMI duplicates.''
       Analysis READ_EFFECTS Experimental None 1048576,
     contract ''dm_audit_icons''
       ''Audit parsed icon evidence and duplicate DMI states.''
       Analysis READ_EFFECTS Experimental None 1048576,
     contract ''dm_extract_dmi''
       ''Mechanically extract a selected DMI state without altering source art.''
       Development RENDER Experimental None 262144,
     contract ''dm_map_info''
       ''Read DMM/TGM dimensions and atom statistics.''
       Analysis READ_EFFECTS Provisional None 1048576,
     contract ''dm_diff_maps''
       ''Compare coordinate models across two DMM/TGM maps.''
       Analysis READ_EFFECTS Provisional None 1048576,
     contract ''dm_list_render_passes''
       ''List pinned SpacemanDMM render-pass behavior.''
       Analysis MEMORY Provisional None 262144,
     contract ''dm_render_maps''
       ''Render a bounded typed batch of map chunks.''
       Development RENDER Experimental None 1048576]"

definition contracts_3 :: "tool_contract list" where
  "contracts_3 =
    [contract ''dm_find_on_map''
       ''Find exact type instances in a DMM/TGM map.''
       Analysis READ_EFFECTS Provisional None 1048576,
     contract ''dm_compile''
       ''Run an allowlisted DreamMaker compiler gate.''
       Development COMPILE Provisional (Some 1800000) 1048576,
     contract ''dm_generate_docs''
       ''Generate contained HTML through the verified exact dmdoc helper.''
       Development COMPILE Experimental (Some 300000) 262144,
     contract ''dm_debug_launch''
       ''Launch one owned interactive or headless auxtools session.''
       Development DEBUG_EFFECTS Experimental (Some 60000) 262144,
     contract ''dm_debug_stop''
       ''Disconnect and terminate the owned debugger session.''
       Development DEBUG_EFFECTS Experimental (Some 30000) 262144,
     contract ''dm_debug_set_breakpoints''
       ''Replace source-oriented auxtools breakpoints.''
       Development DEBUG_EFFECTS Experimental (Some 30000) 1048576,
     contract ''dm_debug_set_function_breakpoints''
       ''Set canonical proc breakpoints.''
       Development DEBUG_EFFECTS Experimental (Some 30000) 1048576,
     contract ''dm_debug_set_exception_breakpoints''
       ''Toggle breaks on DreamMaker runtimes.''
       Development DEBUG_EFFECTS Experimental (Some 30000) 262144,
     contract ''dm_debug_control''
       ''Pause, continue, or step the active debuggee.''
       Development DEBUG_EFFECTS Experimental (Some 30000) 262144,
     contract ''dm_debug_threads''
       ''List auxtools debuggee stacks.''
       Development DEBUG_EFFECTS Experimental (Some 30000) 1048576,
     contract ''dm_debug_stack_trace''
       ''Read bounded debuggee stack frames.''
       Development DEBUG_EFFECTS Experimental (Some 30000) 1048576,
     contract ''dm_debug_scopes''
       ''Read variable scopes for a debug frame.''
       Development DEBUG_EFFECTS Experimental (Some 30000) 1048576,
     contract ''dm_debug_variables''
       ''Read a bounded variable-reference page.''
       Development DEBUG_EFFECTS Experimental (Some 30000) 1048576]"

definition contracts_4 :: "tool_contract list" where
  "contracts_4 =
    [contract ''dm_debug_evaluate''
       ''Evaluate an expression in the active debuggee.''
       Development DEBUG_EFFECTS Experimental (Some 30000) 1048576,
     contract ''dm_debug_exception_info''
       ''Read the last retained runtime exception.''
       Development DEBUG_EFFECTS Experimental None 262144,
     contract ''dm_debug_source''
       ''Read the retained auxtools standard-definition source.''
       Development DEBUG_EFFECTS Experimental None 1048576,
     contract ''dm_debug_wait_for_event''
       ''Wait for a bounded debugger event.''
       Development DEBUG_EFFECTS Experimental (Some 300000) 1048576,
     contract ''rift_compile''
       (''Run Meridian-Rift'' @ [CHR 0x27] @ ''s contained RIFT_BUILD.cmd full-build gate; reserve outer cleanup time and validate its versioned artifact result.'')
       Development RIFT_COMPILE Provisional (Some 1800000) 1048576,
     contract ''dm_render_map''
       ''Render a contained DMM/TGM map output.''
       Development RENDER Provisional None 262144,
     contract ''dm_run''
       ''Start a contained DreamDaemon program on loopback.''
       Development RUNTIME Provisional (Some 300000) 1048576,
     contract ''dm_wait_for_output''
       ''Wait for bounded server-owned DreamDaemon output.''
       Development RUNTIME_STATE Provisional (Some 300000) 1048576,
     contract ''dm_stop''
       ''Stop the server-owned DreamDaemon process.''
       Development RUNTIME_STOP Provisional None 262144,
     contract ''dm_status''
       ''Inspect server-owned DreamDaemon state.''
       Development RUNTIME_STATE Provisional None 1048576,
     contract ''dm_topic''
       ''Call world.Topic on the loopback game server.''
       Development TOPIC Provisional (Some 60000) 262144,
     contract ''dm_tracy_prepare''
       ''Install the verified byond-tracy hook beside a contained DMB.''
       Development TRACY_PREPARE Experimental None 262144,
     contract ''dm_tracy_launch''
       ''Launch an MCP-owned profiled DreamDaemon on loopback.''
       Development RUNTIME Experimental (Some 600000) 262144]"

definition contracts_5 :: "tool_contract list" where
  "contracts_5 =
    [contract ''dm_tracy_capture''
       ''Rotate the persistent collector for one validated window and publish an atomic `.tracy` plus schema-2 sidecar pair.''
       Development RUNTIME Experimental (Some 330000) 1048576,
     contract ''dm_tracy_status''
       ''Inspect profiled runtime and capture state.''
       Development TRACY_STATUS Experimental None 262144,
     contract ''dm_tracy_stop''
       ''Stop capture and the profiled DreamDaemon.''
       Development TRACY_STOP Experimental (Some 30000) 262144,
     contract ''dm_tracy_hotspots''
       ''Return bounded deterministic trace hotspots.''
       Development TRACY_PROCESS Experimental (Some 120000) 1048576,
     contract ''dm_tracy_zone''
       ''Inspect one profiled proc across source locations.''
       Development TRACY_PROCESS Experimental (Some 120000) 1048576,
     contract ''dm_tracy_frame_stats''
       ''Summarize ServerTick frame durations.''
       Development TRACY_PROCESS Experimental (Some 120000) 262144,
     contract ''dm_tracy_compare''
       ''Compare two traces by proc source identity.''
       Development TRACY_PROCESS Experimental (Some 180000) 1048576,
     contract ''dm_tracy_control_stats''
       ''Validate 3-20 repeated Tracy controls and calculate fixed noise statistics.''
       Development TRACY_PROCESS Experimental (Some 2400000) 1048576]"

definition all_contracts :: "tool_contract list" where
  "all_contracts = contracts_1 @ contracts_2 @ contracts_3 @ contracts_4 @ contracts_5"

section \<open>Selection\<close>

definition contracts_for_configuration ::
    "bool \<Rightarrow> capability_mode \<Rightarrow> rift_build_access \<Rightarrow> tool_contract list" where
  "contracts_for_configuration windows mode rift_build =
     filter (\<lambda>c. tc_support c \<noteq> Unsupported
        \<and> (tc_mode c = Analysis \<or> mode = Development)
        \<and> (tc_name c \<noteq> ''rift_compile''
           \<or> (windows \<and> mode = Development \<and> rift_build \<noteq> RiftDisabled))) all_contracts"

definition contracts_for :: "bool \<Rightarrow> capability_mode \<Rightarrow> tool_contract list" where
  "contracts_for windows mode = contracts_for_configuration windows mode RiftDisabled"

section \<open>The reference document\<close>

definition mode_name :: "capability_mode \<Rightarrow> string" where
  "mode_name m = (case m of Analysis \<Rightarrow> ''Analysis'' | Development \<Rightarrow> ''Development'')"

definition support_name :: "support_level \<Rightarrow> string" where
  "support_name s = (case s of Verified \<Rightarrow> ''Verified'' | Provisional \<Rightarrow> ''Provisional''
     | Experimental \<Rightarrow> ''Experimental'' | Unsupported \<Rightarrow> ''Unsupported'')"

definition effect_names :: "tool_effects \<Rightarrow> string list" where
  "effect_names e =
     (if te_reads_files e then [''read''] else []) @
     (if te_writes_files e then [''write''] else []) @
     (if te_spawns_process e then [''process''] else []) @
     (if te_network_loopback e then [''loopback''] else []) @
     (if te_network_external e then [''network''] else []) @
     (if te_destructive e then [''destructive''] else [])"

fun join_strings :: "string \<Rightarrow> string list \<Rightarrow> string" where
  "join_strings sep [] = []"
| "join_strings sep [s] = s"
| "join_strings sep (s # t # ss) = s @ sep @ join_strings sep (t # ss)"

definition contract_row :: "tool_contract \<Rightarrow> string" where
  "contract_row c =
     ''| `'' @ tc_name c @ ''` | '' @ mode_name (tc_mode c) @ '' | '' @ support_name (tc_support c)
     @ '' | '' @ (let effects = effect_names (tc_effects c)
                  in if effects = [] then ''memory'' else join_strings '', '' effects)
     @ '' | '' @ (case tc_timeout_ms c of Some t \<Rightarrow> show_nat (unat t) | None \<Rightarrow> ''-'')
     @ '' | '' @ show_nat (tc_max_output_bytes c) @ '' | '' @ tc_summary c @ '' |'' @ [CHR 0x0A]"

definition reference_header :: string where
  "reference_header = ''# Tool contracts'' @ [CHR 0x0A, CHR 0x0A]
     @ ''Generated from `src/contracts.rs`; do not edit by hand.'' @ [CHR 0x0A, CHR 0x0A]
     @ ''| Tool | Mode | Support | Effects | Timeout ms | Max output bytes | Summary |'' @ [CHR 0x0A]
     @ ''| --- | --- | --- | --- | ---: | ---: | --- |'' @ [CHR 0x0A]"

definition render_tool_reference :: "tool_contract list \<Rightarrow> string" where
  "render_tool_reference contracts =
     reference_header @ concat (map contract_row (sort_key tc_name contracts))"

section \<open>Facts of the table\<close>

text \<open>Each is decided once by evaluating the table.\<close>

definition harmless :: "tool_effects \<Rightarrow> bool" where
  "harmless e \<longleftrightarrow> \<not> te_writes_files e \<and> \<not> te_spawns_process e \<and> \<not> te_network_loopback e
     \<and> \<not> te_network_external e \<and> \<not> te_destructive e"

lemmas effect_defs = READ_EFFECTS_def MEMORY_def COMPILE_def RIFT_COMPILE_def RENDER_def
  RUNTIME_def RUNTIME_STATE_def RUNTIME_STOP_def TOPIC_def DEBUG_EFFECTS_def TRACY_PREPARE_def
  TRACY_PROCESS_def TRACY_STATUS_def TRACY_STOP_def

lemmas table_defs = contracts_1_def contracts_2_def contracts_3_def contracts_4_def contracts_5_def

lemmas table_simps = all_contracts_def table_defs contract_def effect_defs harmless_def

lemma analysis_contracts_harmless:
  "list_all (\<lambda>c. tc_mode c = Analysis \<longrightarrow> harmless (tc_effects c)) all_contracts"
  by (simp add: table_simps)

lemma contracts_supported: "list_all (\<lambda>c. tc_support c \<noteq> Unsupported) all_contracts"
  by (simp add: table_simps)

lemma external_network_contract:
  "list_all (\<lambda>c. te_network_external (tc_effects c) \<longrightarrow> tc_name c = ''rift_compile'') all_contracts"
  by (simp add: table_simps)

lemma contract_limits:
  "list_all (\<lambda>c. 0 < tc_max_output_bytes c \<and> tc_max_output_bytes c \<le> 1048576
     \<and> (case tc_timeout_ms c of Some t \<Rightarrow> 0 < t | None \<Rightarrow> True)) all_contracts"
  by (simp add: table_simps)

lemma rift_compile_contract:
  "list_ex (\<lambda>c. tc_name c = ''rift_compile'' \<and> tc_mode c = Development) all_contracts"
  by (simp add: table_simps)

definition contract_names :: "string list" where
  "contract_names =
     [''dm_server_status'', ''dm_parse_environment'', ''dm_check_fixture_sync'',
      ''dm_native_evidence_summary'', ''dm_native_evidence_compare'', ''dm_get_type'',
      ''dm_get_proc'', ''dm_get_var'', ''dm_list_types'', ''dm_search_symbols'',
      ''dm_search_context'', ''dm_check_errors'', ''dm_get_definition'',
      ''dm_document_symbols'', ''dm_find_references'', ''dm_find_implementations'',
      ''dm_dmi_info'', ''dm_compare_dmi_states'', ''dm_find_dmi_duplicates'',
      ''dm_audit_icons'', ''dm_extract_dmi'', ''dm_map_info'', ''dm_diff_maps'',
      ''dm_list_render_passes'', ''dm_render_maps'', ''dm_find_on_map'', ''dm_compile'',
      ''dm_generate_docs'', ''dm_debug_launch'', ''dm_debug_stop'',
      ''dm_debug_set_breakpoints'', ''dm_debug_set_function_breakpoints'',
      ''dm_debug_set_exception_breakpoints'', ''dm_debug_control'', ''dm_debug_threads'',
      ''dm_debug_stack_trace'', ''dm_debug_scopes'', ''dm_debug_variables'',
      ''dm_debug_evaluate'', ''dm_debug_exception_info'', ''dm_debug_source'',
      ''dm_debug_wait_for_event'', ''rift_compile'', ''dm_render_map'', ''dm_run'',
      ''dm_wait_for_output'', ''dm_stop'', ''dm_status'', ''dm_topic'',
      ''dm_tracy_prepare'', ''dm_tracy_launch'', ''dm_tracy_capture'',
      ''dm_tracy_status'', ''dm_tracy_stop'', ''dm_tracy_hotspots'', ''dm_tracy_zone'',
      ''dm_tracy_frame_stats'', ''dm_tracy_compare'', ''dm_tracy_control_stats'']"

lemma contract_names: "map tc_name all_contracts = contract_names"
  by (simp add: all_contracts_def table_defs contract_def contract_names_def)

lemma contract_names_distinct: "distinct contract_names"
  by code_simp

section \<open>Properties\<close>

lemma selected_contracts:
  "c \<in> set (contracts_for_configuration windows mode rift) \<longleftrightarrow>
     c \<in> set all_contracts \<and> (tc_mode c = Analysis \<or> mode = Development) \<and>
     (tc_name c = ''rift_compile'' \<longrightarrow> windows \<and> mode = Development \<and> rift \<noteq> RiftDisabled)"
  using contracts_supported by (auto simp: contracts_for_configuration_def list_all_iff)

lemma names_distinct: "distinct (map tc_name (contracts_for_configuration windows mode rift))"
  using contract_names_distinct unfolding contract_names[symmetric]
  by (simp add: contracts_for_configuration_def distinct_map_filter)

text \<open>
  C6. The tools a configuration offers respect its mode: in analysis mode they write no
  file, spawn no process, open no connection and destroy nothing, and they are among the
  tools of development mode; an external connection needs a Windows server in development
  mode with Rift builds enabled, which is also exactly when \<open>rift_compile\<close> is offered; names
  are unique; and no declared output limit exceeds one MiB.
\<close>

theorem contracts_respect_mode:
  "(\<forall>c \<in> set (contracts_for_configuration windows Analysis rift). harmless (tc_effects c))
   \<and> set (contracts_for_configuration windows Analysis rift)
        \<subseteq> set (contracts_for_configuration windows Development rift)
   \<and> (\<forall>c \<in> set (contracts_for_configuration windows mode rift).
        (te_network_external (tc_effects c) \<longrightarrow>
           windows \<and> mode = Development \<and> rift \<noteq> RiftDisabled)
        \<and> 0 < tc_max_output_bytes c \<and> tc_max_output_bytes c \<le> 1024 * 1024)
   \<and> (''rift_compile'' \<in> tc_name ` set (contracts_for_configuration windows mode rift) \<longleftrightarrow>
        windows \<and> mode = Development \<and> rift \<noteq> RiftDisabled)
   \<and> distinct (map tc_name (contracts_for_configuration windows mode rift))"
proof -
  have "harmless (tc_effects c)" if "c \<in> set (contracts_for_configuration windows Analysis rift)" for c
    using that analysis_contracts_harmless by (auto simp: selected_contracts list_all_iff)
  moreover have "(te_network_external (tc_effects c) \<longrightarrow>
           windows \<and> mode = Development \<and> rift \<noteq> RiftDisabled)
        \<and> 0 < tc_max_output_bytes c \<and> tc_max_output_bytes c \<le> 1024 * 1024"
    if "c \<in> set (contracts_for_configuration windows mode rift)" for c
    using that external_network_contract contract_limits
    by (auto simp: selected_contracts list_all_iff)
  moreover have "''rift_compile'' \<in> tc_name ` set (contracts_for_configuration windows mode rift) \<longleftrightarrow>
        windows \<and> mode = Development \<and> rift \<noteq> RiftDisabled"
  proof
    assume "''rift_compile'' \<in> tc_name ` set (contracts_for_configuration windows mode rift)"
    then obtain c where c: "tc_name c = ''rift_compile''"
      "c \<in> set (contracts_for_configuration windows mode rift)"
      by (elim imageE) simp
    then show "windows \<and> mode = Development \<and> rift \<noteq> RiftDisabled"
      by (simp add: selected_contracts)
  next
    assume a: "windows \<and> mode = Development \<and> rift \<noteq> RiftDisabled"
    obtain c where c: "c \<in> set all_contracts" "tc_name c = ''rift_compile''"
      using rift_compile_contract by (auto simp: list_ex_iff)
    with a have "c \<in> set (contracts_for_configuration windows mode rift)"
      by (simp add: selected_contracts)
    with c(2) show "''rift_compile'' \<in> tc_name ` set (contracts_for_configuration windows mode rift)"
      by (intro image_eqI[of _ _ c]) simp_all
  qed
  moreover have "set (contracts_for_configuration windows Analysis rift)
        \<subseteq> set (contracts_for_configuration windows Development rift)"
    by (auto simp: selected_contracts)
  ultimately show ?thesis using names_distinct by blast
qed

definition get_type_contract :: tool_contract where
  "get_type_contract = contract ''dm_get_type'' ''Inspect an exact DreamMaker type.''
     Analysis MEMORY Provisional None 1048576"

theorem contracts_respect_mode_witness:
  "get_type_contract \<in> set (contracts_for_configuration True Analysis RiftNetwork)
   \<and> harmless (tc_effects get_type_contract)"
proof -
  have "get_type_contract \<in> set all_contracts"
    unfolding all_contracts_def contracts_1_def get_type_contract_def by simp
  moreover have "tc_mode get_type_contract = Analysis" "tc_name get_type_contract = ''dm_get_type''"
    by (simp_all add: get_type_contract_def contract_def)
  ultimately have "get_type_contract \<in> set (contracts_for_configuration True Analysis RiftNetwork)"
    by (simp add: selected_contracts)
  with contracts_respect_mode[of True RiftNetwork] show ?thesis by blast
qed

text \<open>
  The reference document does not depend on the order of the table: any arrangement of
  contracts with distinct names renders to the same text.
\<close>

lemma render_tool_reference_order:
  assumes "mset cs = mset ds" "distinct (map tc_name cs)"
  shows "render_tool_reference cs = render_tool_reference ds"
proof -
  have "sort_key tc_name cs = sort_key tc_name ds"
  proof (rule properties_for_sort_key)
    show "mset (sort_key tc_name ds) = mset cs" using assms(1) by simp
    show "sorted (map tc_name (sort_key tc_name ds))" by simp
    show "filter (\<lambda>y. tc_name x = tc_name y) (sort_key tc_name ds) = filter (\<lambda>y. tc_name x = tc_name y) cs"
      if "x \<in> set (sort_key tc_name ds)" for x
    proof -
      have inj: "inj_on tc_name (set cs)" and d: "distinct cs" using assms(2) by (auto simp: distinct_map)
      have x: "x \<in> set cs" "set ds = set cs" using that assms(1) by (auto dest: mset_eq_setD)
      have "filter (\<lambda>y. tc_name x = tc_name y) xs = filter (\<lambda>y. y = x) xs" if "set xs = set cs" for xs
        using inj x that by (intro filter_cong) (auto dest: inj_onD)
      moreover have "filter (\<lambda>y. y = x) xs = replicate (count (mset xs) x) x" for xs
        by (induction xs) auto
      ultimately show ?thesis using x assms(1) by simp
    qed
  qed
  then show ?thesis by (simp add: render_tool_reference_def)
qed

lemma render_tool_reference_order_witness:
  "render_tool_reference (rev all_contracts) = render_tool_reference all_contracts"
proof -
  have "distinct (map tc_name (rev all_contracts))"
    unfolding rev_map[symmetric] contract_names using contract_names_distinct by simp
  with render_tool_reference_order[of "rev all_contracts" all_contracts] show ?thesis by simp
qed

end
