(* ===== verification/Tool_Definitions.thy ===== *)
theory Tool_Definitions
  imports Json
begin

text \<open>
  The tool table that \<open>tools/list\<close> is drawn from: \<open>get_tool_definitions\<close> of
  \<open>src/tools/mod.rs\<close>, one definition per tool with its name, description and input schema.
  The members of a schema object are in key order, as \<open>serde_json\<close> keeps them.
\<close>

record tool_definition =
  td_name :: string
  td_description :: string
  td_input_schema :: json

definition tool_definition :: "string \<Rightarrow> string \<Rightarrow> json \<Rightarrow> tool_definition" where
  "tool_definition name description schema =
     \<lparr>td_name = name, td_description = description, td_input_schema = schema\<rparr>"

lemma tool_definition_simps [simp]:
  "td_name (tool_definition n d s) = n" "td_input_schema (tool_definition n d s) = s"
  by (simp_all add: tool_definition_def)

section \<open>The table\<close>

definition evidence_request_schema :: json where
  "evidence_request_schema =
     JObj [(''additionalProperties'', JBool False), (''properties'', JObj [(''artifacts'', JObj
     [(''items'', JObj [(''additionalProperties'', JBool False), (''properties'', JObj [(''kind'',
     JObj [(''enum'', JArr [JStr ''byond_proc_profile_json'', JStr ''byond_sendmaps_json'', JStr
     ''performance_csv'', JStr ''runtime_jsonl'', JStr ''event_jsonl'']), (''type'', JStr
     ''string'')]), (''options'', JObj [(''type'', JStr ''object'')]), (''path'', JObj [(''type'',
     JStr ''string'')])]), (''required'', JArr [JStr ''kind'', JStr ''path'']), (''type'', JStr
     ''object'')]), (''maxItems'', JNum (PosInt 32)), (''minItems'', JNum (PosInt 1)), (''type'',
     JStr ''array'')]), (''dmb_path'', JObj [(''type'', JStr ''string'')]), (''phases'', JObj
     [(''items'', JObj [(''type'', JStr ''object'')]), (''maxItems'', JNum (PosInt 64)), (''type'',
     JStr ''array'')]), (''workload'', JObj [(''type'', JStr ''object'')])]), (''required'', JArr
     [JStr ''artifacts'']), (''type'', JStr ''object'')]"

definition debug_breakpoint_schema :: json where
  "debug_breakpoint_schema =
     JObj [(''properties'', JObj [(''breakpoints'', JObj [(''items'', JObj [(''properties'', JObj
     [(''condition'', JObj [(''maxLength'', JNum (PosInt 4096)), (''type'', JStr ''string'')]),
     (''offset'', JObj [(''minimum'', JNum (PosInt 0)), (''type'', JStr ''integer'')]),
     (''override_id'', JObj [(''minimum'', JNum (PosInt 0)), (''type'', JStr ''integer'')]),
     (''proc_path'', JObj [(''type'', JStr ''string'')])]), (''required'', JArr [JStr
     ''proc_path'']), (''type'', JStr ''object'')]), (''maxItems'', JNum (PosInt 10000)), (''type'',
     JStr ''array'')])]), (''required'', JArr [JStr ''breakpoints'']), (''type'', JStr ''object'')]"

definition debug_source_breakpoint_schema :: json where
  "debug_source_breakpoint_schema =
     JObj [(''properties'', JObj [(''breakpoints'', JObj [(''items'', JObj [(''properties'', JObj
     [(''condition'', JObj [(''maxLength'', JNum (PosInt 4096)), (''type'', JStr ''string'')]),
     (''line'', JObj [(''minimum'', JNum (PosInt 1)), (''type'', JStr ''integer'')])]),
     (''required'', JArr [JStr ''line'']), (''type'', JStr ''object'')]), (''maxItems'', JNum (PosInt
     10000)), (''type'', JStr ''array'')]), (''source_path'', JObj [(''type'', JStr ''string'')])]),
     (''required'', JArr [JStr ''source_path'', JStr ''breakpoints'']), (''type'', JStr ''object'')]"

definition launch_properties :: json where
  "launch_properties =
     JObj [(''annotations'', JObj [(''additionalProperties'', JObj [(''maxLength'', JNum (PosInt
     512)), (''type'', JStr ''string'')]), (''maxProperties'', JNum (PosInt 32)), (''type'', JStr
     ''object'')]), (''config_directory'', JObj [(''description'', JStr
     ''Optional contained profiling configuration directory. It must contain config.txt and explicitly enable RESUME_AFTER_INITIALIZATIONS in config.txt or dev_overrides.txt; its full contents are hash-bound into launch identity. The flag requires a post-initialization wake before it can take effect on a headless world.''),
     (''type'', JStr ''string'')]), (''configuration_profile'', JObj [(''maxLength'', JNum (PosInt
     512)), (''type'', JStr ''string'')]), (''dmb_path'', JObj [(''type'', JStr ''string'')]),
     (''experiment_directory'', JObj [(''description'', JStr
     ''Existing contained directory for immutable experiment manifests, recovery journals, and diagnostics.''),
     (''type'', JStr ''string'')]), (''experiment_name'', JObj [(''maxLength'', JNum (PosInt 512)),
     (''type'', JStr ''string'')]), (''external_run_id'', JObj [(''maxLength'', JNum (PosInt 512)),
     (''type'', JStr ''string'')]), (''feature_set'', JObj [(''items'', JObj [(''maxLength'', JNum
     (PosInt 512)), (''type'', JStr ''string'')]), (''maxItems'', JNum (PosInt 64)), (''type'', JStr
     ''array'')]), (''game_port'', JObj [(''maximum'', JNum (PosInt 65535)), (''minimum'', JNum
     (PosInt 1)), (''type'', JStr ''integer'')]), (''initialization_timeout_ms'', JObj [(''default'',
     JNum (PosInt 180000)), (''description'', JStr
     ''Maximum wait for the fixed Meridian-Rift initialization-complete marker before the post-initialization wake request.''),
     (''maximum'', JNum (PosInt 300000)), (''minimum'', JNum (PosInt 1)), (''type'', JStr
     ''integer'')]), (''map'', JObj [(''maxLength'', JNum (PosInt 512)), (''type'', JStr
     ''string'')]), (''require_verified_provenance'', JObj [(''default'', JBool False), (''type'',
     JStr ''boolean'')]), (''scenario'', JObj [(''maxLength'', JNum (PosInt 512)), (''type'', JStr
     ''string'')]), (''seed'', JObj [(''maxLength'', JNum (PosInt 512)), (''type'', JStr
     ''string'')]), (''startup_timeout_ms'', JObj [(''default'', JNum (PosInt 60000)),
     (''description'', JStr
     ''Maximum time for both the Tracy client connection and producer-health readiness.''),
     (''maximum'', JNum (PosInt 60000)), (''minimum'', JNum (PosInt 1000)), (''type'', JStr
     ''integer'')]), (''wake_sleeping_world'', JObj [(''default'', JBool True), (''description'',
     JStr
     ''When config_directory is supplied, wait for Meridian-Rift initialization, try bounded loopback Topic wakes, and if necessary hold one fixed MCP-owned loopback DreamSeeker guest connection until stop. Set false for a deliberately sleeping control run.''),
     (''type'', JStr ''boolean'')])]"

definition capture_properties :: json where
  "capture_properties =
     JObj [(''annotations'', JObj [(''additionalProperties'', JObj [(''maxLength'', JNum (PosInt
     512)), (''type'', JStr ''string'')]), (''maxProperties'', JNum (PosInt 32)), (''type'', JStr
     ''object'')]), (''capture_annotations'', JObj [(''additionalProperties'', JObj [(''maxLength'',
     JNum (PosInt 512)), (''type'', JStr ''string'')]), (''maxProperties'', JNum (PosInt 32)),
     (''type'', JStr ''object'')]), (''capture_network'', JObj [(''default'', JBool False),
     (''type'', JStr ''boolean'')]), (''configuration_profile'', JObj [(''maxLength'', JNum (PosInt
     512)), (''type'', JStr ''string'')]), (''duration_ms'', JObj [(''maximum'', JNum (PosInt
     300000)), (''minimum'', JNum (PosInt 1)), (''type'', JStr ''integer'')]), (''external_run_id'',
     JObj [(''maxLength'', JNum (PosInt 512)), (''type'', JStr ''string'')]), (''feature_set'', JObj
     [(''items'', JObj [(''maxLength'', JNum (PosInt 512)), (''type'', JStr ''string'')]),
     (''maxItems'', JNum (PosInt 64)), (''type'', JStr ''array'')]), (''map'', JObj [(''maxLength'',
     JNum (PosInt 512)), (''type'', JStr ''string'')]), (''memory_limit_mb'', JObj [(''maximum'',
     JNum (PosInt 4096)), (''minimum'', JNum (PosInt 16)), (''type'', JStr ''integer'')]),
     (''output_path'', JObj [(''type'', JStr ''string'')]), (''overwrite'', JObj [(''default'', JBool
     False), (''type'', JStr ''boolean'')]), (''phase'', JObj [(''maxLength'', JNum (PosInt 64)),
     (''minLength'', JNum (PosInt 1)), (''pattern'', JStr ''^[a-z0-9_-]+$''), (''type'', JStr
     ''string'')]), (''phase_iteration'', JObj [(''maximum'', JNum (PosInt 4294967295)),
     (''minimum'', JNum (PosInt 1)), (''type'', JStr ''integer'')]), (''scenario'', JObj
     [(''maxLength'', JNum (PosInt 512)), (''type'', JStr ''string'')]), (''seed'', JObj
     [(''maxLength'', JNum (PosInt 512)), (''type'', JStr ''string'')])]"

definition tool_dm_server_status :: tool_definition where
  "tool_dm_server_status = tool_definition ''dm_server_status''
     ''Report immutable startup policy, build identity, analysis generation, and owned runtime summary.''
     (JObj [(''additionalProperties'', JBool False), (''properties'', JObj []), (''type'', JStr
     ''object'')])"

definition tool_dm_parse_environment :: tool_definition where
  "tool_dm_parse_environment = tool_definition ''dm_parse_environment''
     ''Parse a DreamMaker environment and atomically install its analysis and lexical BM25 indexes. Reuse compares metadata for every parser-registered input; results report stage timings and explicit dense-not-configured readiness. Call this before other analysis tools.''
     (JObj [(''additionalProperties'', JBool False), (''properties'', JObj [(''dme_path'', JObj
     [(''description'', JStr ''Path to the .dme environment file''), (''type'', JStr ''string'')]),
     (''force'', JObj [(''description'', JStr
     ''Reparse even when the active snapshot already matches this environment on disk (default false).''),
     (''type'', JStr ''boolean'')]), (''timeout_ms'', JObj [(''description'', JStr
     ''Total request budget including admission, blocking scheduling, reuse validation, parsing, and installation (default 600000). Unfinished workers retain exclusive admission after timeout or cancellation.''),
     (''maximum'', JNum (PosInt 1800000)), (''minimum'', JNum (PosInt 1)), (''type'', JStr
     ''integer'')])]), (''required'', JArr [JStr ''dme_path'']), (''type'', JStr ''object'')])"

definition tool_dm_check_fixture_sync :: tool_definition where
  "tool_dm_check_fixture_sync = tool_definition ''dm_check_fixture_sync''
     ''Validate a contained fixture manifest against parsed DreamMaker proc contracts, required text tokens, and managed build provenance.''
     (JObj [(''additionalProperties'', JBool False), (''properties'', JObj
     [(''fixture_manifest_path'', JObj [(''type'', JStr ''string'')])]), (''required'', JArr [JStr
     ''fixture_manifest_path'']), (''type'', JStr ''object'')])"

definition tool_dm_native_evidence_summary :: tool_definition where
  "tool_dm_native_evidence_summary = tool_definition ''dm_native_evidence_summary''
     ''Validate, redact, phase-align, and summarize bounded BYOND and application-native evidence without modifying raw artifacts.''
     (evidence_request_schema)"

definition tool_dm_native_evidence_compare :: tool_definition where
  "tool_dm_native_evidence_compare = tool_definition ''dm_native_evidence_compare''
     ''Recompute and identity-check 2-20 complete native-evidence runs before calculating deterministic metric deltas and distributions.''
     (JObj [(''additionalProperties'', JBool False), (''properties'', JObj [(''runs'', JObj
     [(''items'', evidence_request_schema), (''maxItems'', JNum (PosInt 20)), (''minItems'', JNum
     (PosInt 2)), (''type'', JStr ''array'')])]), (''required'', JArr [JStr ''runs'']), (''type'',
     JStr ''object'')])"

definition tool_dm_get_type :: tool_definition where
  "tool_dm_get_type = tool_definition ''dm_get_type''
     ''Get information about a type including its variables, procs, parent type, and children.''
     (JObj [(''properties'', JObj [(''type_path'', JObj [(''description'', JStr
     (''The type path (e.g., '' @ [CHR 0x27] @ ''/obj/item'' @ [CHR 0x27] @ '', '' @ [CHR 0x27] @
     ''/mob/living'' @ [CHR 0x27] @ '')'')), (''type'', JStr ''string'')])]), (''required'', JArr
     [JStr ''type_path'']), (''type'', JStr ''object'')])"

definition tool_dm_get_proc :: tool_definition where
  "tool_dm_get_proc = tool_definition ''dm_get_proc''
     ''Get detailed information about a procedure including parameters, body location, and documentation.''
     (JObj [(''properties'', JObj [(''proc_name'', JObj [(''description'', JStr
     ''Name of the procedure''), (''type'', JStr ''string'')]), (''type_path'', JObj
     [(''description'', JStr ''The type path containing the proc''), (''type'', JStr ''string'')])]),
     (''required'', JArr [JStr ''type_path'', JStr ''proc_name'']), (''type'', JStr ''object'')])"

definition tool_dm_get_var :: tool_definition where
  "tool_dm_get_var = tool_definition ''dm_get_var''
     ''Get detailed information about a variable including its type, initial value, and documentation.''
     (JObj [(''properties'', JObj [(''type_path'', JObj [(''description'', JStr
     ''The type path containing the variable''), (''type'', JStr ''string'')]), (''var_name'', JObj
     [(''description'', JStr ''Name of the variable''), (''type'', JStr ''string'')])]),
     (''required'', JArr [JStr ''type_path'', JStr ''var_name'']), (''type'', JStr ''object'')])"

definition tool_dm_list_types :: tool_definition where
  "tool_dm_list_types = tool_definition ''dm_list_types''
     ''List all types in the object tree, optionally filtered by a path prefix.''
     (JObj [(''properties'', JObj [(''cursor'', JObj [(''description'', JStr
     ''Opaque next_cursor from a previous response''), (''pattern'', JStr ''^[0-9]+$''), (''type'',
     JStr ''string'')]), (''limit'', JObj [(''default'', JNum (PosInt 100)), (''description'', JStr
     ''Maximum types returned in one page''), (''maximum'', JNum (PosInt 500)), (''minimum'', JNum
     (PosInt 1)), (''type'', JStr ''integer'')]), (''max_depth'', JObj [(''description'', JStr
     ''Maximum depth to traverse (default: unlimited)''), (''type'', JStr ''integer'')]),
     (''prefix'', JObj [(''description'', JStr (''Optional path prefix to filter types (e.g., '' @
     [CHR 0x27] @ ''/obj'' @ [CHR 0x27] @ '')'')), (''type'', JStr ''string'')])]), (''type'', JStr
     ''object'')])"

definition tool_dm_search_symbols :: tool_definition where
  "tool_dm_search_symbols = tool_definition ''dm_search_symbols''
     ''Search for types, procs, variables, or macros by name pattern.''
     (JObj [(''properties'', JObj [(''kind'', JObj [(''description'', JStr
     ''Kind of symbol to search for (default: all)''), (''enum'', JArr [JStr ''type'', JStr ''proc'',
     JStr ''var'', JStr ''macro'', JStr ''all'']), (''type'', JStr ''string'')]), (''limit'', JObj
     [(''default'', JNum (PosInt 50)), (''description'', JStr
     ''Maximum number of results (default: 50)''), (''maximum'', JNum (PosInt 200)), (''minimum'',
     JNum (PosInt 1)), (''type'', JStr ''integer'')]), (''query'', JObj [(''description'', JStr
     ''Search query (supports partial matches)''), (''type'', JStr ''string'')])]), (''required'',
     JArr [JStr ''query'']), (''type'', JStr ''object'')])"

definition tool_dm_search_context :: tool_definition where
  "tool_dm_search_context = tool_definition ''dm_search_context''
     ''Search parsed DreamMaker types, procs, variables, documentation, and source using deterministic candidate-bounded lexical BM25 retrieval. Reports candidate and scoring counts; call dm_parse_environment first and verify results with exact inspection tools.''
     (JObj [(''properties'', JObj [(''file_filter'', JObj [(''description'', JStr
     ''Optional case-insensitive source-path substring''), (''type'', JStr ''string'')]),
     (''include_source'', JObj [(''description'', JStr
     ''Include bounded source excerpts (default: true)''), (''type'', JStr ''boolean'')]), (''kind'',
     JObj [(''description'', JStr ''Optional symbol kind filter (default: all)''), (''enum'', JArr
     [JStr ''all'', JStr ''type'', JStr ''proc'', JStr ''var'']), (''type'', JStr ''string'')]),
     (''limit'', JObj [(''description'', JStr ''Maximum ranked results (default: 10)''),
     (''maximum'', JNum (PosInt 50)), (''minimum'', JNum (PosInt 1)), (''type'', JStr ''integer'')]),
     (''max_source_lines'', JObj [(''description'', JStr
     ''Maximum source lines per result (default: 40)''), (''maximum'', JNum (PosInt 200)),
     (''minimum'', JNum (PosInt 1)), (''type'', JStr ''integer'')]), (''query'', JObj
     [(''description'', JStr
     ''Natural-language behavior, exact symbol, or identifier terms to find''), (''type'', JStr
     ''string'')]), (''type_prefix'', JObj [(''description'', JStr
     ''Optional canonical type-path prefix, such as /turf/open''), (''type'', JStr ''string'')])]),
     (''required'', JArr [JStr ''query'']), (''type'', JStr ''object'')])"

definition tool_dm_check_errors :: tool_definition where
  "tool_dm_check_errors = tool_definition ''dm_check_errors''
     ''Read a bounded page of parser and DreamChecker diagnostics cached by the latest dm_parse_environment call. Returns a summary across all matching diagnostics; it does not rerun analysis or replace DreamMaker compilation.''
     (JObj [(''properties'', JObj [(''component'', JObj [(''description'', JStr
     ''Only include diagnostics emitted by this SpacemanDMM component.''), (''enum'', JArr [JStr
     ''parser'', JStr ''dreamchecker'']), (''type'', JStr ''string'')]), (''configured'', JObj
     [(''description'', JStr
     ''Only include diagnostics whose rule is or is not explicitly configured in SpacemanDMM.toml.''),
     (''type'', JStr ''boolean'')]), (''cursor'', JObj [(''description'', JStr
     ''Opaque continuation cursor returned by a previous call using the same filters and analysis generation.''),
     (''pattern'', JStr ''^[0-9]+$''), (''type'', JStr ''string'')]), (''file_path'', JObj
     [(''description'', JStr
     ''Only include diagnostics whose normalized source path contains this value. Both slash styles are accepted.''),
     (''minLength'', JNum (PosInt 1)), (''type'', JStr ''string'')]), (''limit'', JObj [(''default'',
     JNum (PosInt 50)), (''description'', JStr
     ''Maximum diagnostics returned in this page. Summary counts cover every matching diagnostic.''),
     (''maximum'', JNum (PosInt 100)), (''minimum'', JNum (PosInt 1)), (''type'', JStr
     ''integer'')]), (''rule'', JObj [(''description'', JStr
     ''Only include diagnostics with this exact rule identifier.''), (''minLength'', JNum (PosInt
     1)), (''type'', JStr ''string'')]), (''severity'', JObj [(''description'', JStr
     ''Only include diagnostics with this severity.''), (''enum'', JArr [JStr ''error'', JStr
     ''warning'', JStr ''info'', JStr ''hint'']), (''type'', JStr ''string'')])]), (''type'', JStr
     ''object'')])"

definition tool_dm_get_definition :: tool_definition where
  "tool_dm_get_definition = tool_definition ''dm_get_definition''
     ''Get the source location where a symbol is defined.''
     (JObj [(''properties'', JObj [(''member_name'', JObj [(''description'', JStr
     ''Optional: name of var or proc to find definition of''), (''type'', JStr ''string'')]),
     (''type_path'', JObj [(''description'', JStr ''The type path''), (''type'', JStr
     ''string'')])]), (''required'', JArr [JStr ''type_path'']), (''type'', JStr ''object'')])"

definition tool_dm_document_symbols :: tool_definition where
  "tool_dm_document_symbols = tool_definition ''dm_document_symbols''
     ''List deterministically ordered parsed DreamMaker symbols declared in one contained source file.''
     (JObj [(''properties'', JObj [(''file_path'', JObj [(''type'', JStr ''string'')]), (''limit'',
     JObj [(''minimum'', JNum (PosInt 1)), (''type'', JStr ''integer'')])]), (''required'', JArr
     [JStr ''file_path'']), (''type'', JStr ''object'')])"

definition tool_dm_find_references :: tool_definition where
  "tool_dm_find_references = tool_definition ''dm_find_references''
     ''Find bounded source references for an exact DreamMaker member name without guessing dynamic references.''
     (JObj [(''properties'', JObj [(''include_declaration'', JObj [(''type'', JStr ''boolean'')]),
     (''kind'', JObj [(''enum'', JArr [JStr ''call'', JStr ''read'', JStr ''write'', JStr
     ''type_path'', JStr ''macro_expansion'']), (''type'', JStr ''string'')]), (''limit'', JObj
     [(''minimum'', JNum (PosInt 1)), (''type'', JStr ''integer'')]), (''member_name'', JObj
     [(''type'', JStr ''string'')]), (''type_path'', JObj [(''type'', JStr ''string'')])]),
     (''required'', JArr [JStr ''type_path'', JStr ''member_name'']), (''type'', JStr ''object'')])"

definition tool_dm_find_implementations :: tool_definition where
  "tool_dm_find_implementations = tool_definition ''dm_find_implementations''
     ''List type descendants or concrete member implementations in deterministic inheritance order.''
     (JObj [(''properties'', JObj [(''limit'', JObj [(''minimum'', JNum (PosInt 1)), (''type'', JStr
     ''integer'')]), (''member_name'', JObj [(''type'', JStr ''string'')]), (''type_path'', JObj
     [(''type'', JStr ''string'')])]), (''required'', JArr [JStr ''type_path'']), (''type'', JStr
     ''object'')])"

definition tool_dm_generate_docs :: tool_definition where
  "tool_dm_generate_docs = tool_definition ''dm_generate_docs''
     ''Generate contained DreamMaker HTML documentation with the hash-verified exact-revision dmdoc helper.''
     (JObj [(''properties'', JObj [(''output_directory'', JObj [(''type'', JStr ''string'')]),
     (''overwrite'', JObj [(''type'', JStr ''boolean'')])]), (''required'', JArr [JStr
     ''output_directory'']), (''type'', JStr ''object'')])"

definition tool_dm_compile :: tool_definition where
  "tool_dm_compile = tool_definition ''dm_compile''
     ''Compile the DreamMaker environment using the DM compiler. Returns compiler output and any errors.''
     (JObj [(''properties'', JObj [(''capture_network'', JObj [(''description'', JStr
     ''Request best-effort endpoint observation (default: false)''), (''type'', JStr ''boolean'')]),
     (''compiler_path'', JObj [(''description'', JStr
     ''Optional path to the DreamMaker executable''), (''type'', JStr ''string'')]), (''defines'',
     JObj [(''description'', JStr ''Optional preprocessor defines, with or without the -D prefix''),
     (''items'', JObj [(''type'', JStr ''string'')]), (''type'', JStr ''array'')]), (''dme_path'',
     JObj [(''description'', JStr ''Path to the .dme file to compile''), (''type'', JStr
     ''string'')]), (''fixture_manifest_path'', JObj [(''description'', JStr
     ''Optional contained declarative fixture manifest''), (''type'', JStr ''string'')]),
     (''idle_timeout_ms'', JObj [(''description'', JStr
     ''Fail if DreamMaker produces no output and consumes no CPU for this long (default: 45000, capped at 900000)''),
     (''minimum'', JNum (PosInt 1000)), (''type'', JStr ''integer'')]), (''timeout_ms'', JObj
     [(''description'', JStr
     ''Compiler timeout in milliseconds (default: 600000, capped at 1800000)''), (''minimum'', JNum
     (PosInt 1)), (''type'', JStr ''integer'')]), (''working_directory'', JObj [(''description'',
     JStr ''Optional working directory for the compiler process''), (''type'', JStr ''string'')])]),
     (''required'', JArr [JStr ''dme_path'']), (''type'', JStr ''object'')])"

definition tool_rift_compile :: tool_definition where
  "tool_rift_compile = tool_definition ''rift_compile''
     (''Run Meridian-Rift'' @ [CHR 0x27] @ ''s contained RIFT_BUILD.cmd full-build gate.'')
     (JObj [(''properties'', JObj [(''capture_network'', JObj [(''description'', JStr
     ''Request best-effort endpoint observation (default: false)''), (''type'', JStr ''boolean'')]),
     (''fixture_manifest_path'', JObj [(''description'', JStr
     ''Optional contained declarative fixture manifest''), (''type'', JStr ''string'')]),
     (''force_rebuild'', JObj [(''description'', JStr
     ''Remove only canonical root build artifacts before building (default: false)''), (''type'',
     JStr ''boolean'')]), (''idle_timeout_ms'', JObj [(''description'', JStr
     ''No-output and no-CPU timeout in milliseconds (default: 120000)''), (''maximum'', JNum (PosInt
     900000)), (''minimum'', JNum (PosInt 1000)), (''type'', JStr ''integer'')]), (''network_mode'',
     JObj [(''description'', JStr ''Dependency network mode (default: offline)''), (''enum'', JArr
     [JStr ''offline'', JStr ''allow'']), (''type'', JStr ''string'')]), (''timeout_ms'', JObj
     [(''description'', JStr ''Wall timeout in milliseconds (default: 1800000)''), (''maximum'', JNum
     (PosInt 1800000)), (''minimum'', JNum (PosInt 1000)), (''type'', JStr ''integer'')])]),
     (''type'', JStr ''object'')])"

definition tool_dm_dmi_info :: tool_definition where
  "tool_dm_dmi_info = tool_definition ''dm_dmi_info''
     ''Profile DMI metadata, frames, alpha bounds, pixel counts, and content hashes without changing the asset.''
     (JObj [(''properties'', JObj [(''dmi_path'', JObj [(''type'', JStr ''string'')])]),
     (''required'', JArr [JStr ''dmi_path'']), (''type'', JStr ''object'')])"

definition tool_dm_compare_dmi_states :: tool_definition where
  "tool_dm_compare_dmi_states = tool_definition ''dm_compare_dmi_states''
     ''Compare two complete DMI states for exact, mirrored, rotated, padded, palette, metadata-only, or near-copy changes.''
     (JObj [(''properties'', JObj [(''left_dmi_path'', JObj [(''type'', JStr ''string'')]),
     (''left_duplicate_index'', JObj [(''minimum'', JNum (PosInt 0)), (''type'', JStr ''integer'')]),
     (''left_state'', JObj [(''type'', JStr ''string'')]), (''minimum_similarity'', JObj
     [(''maximum'', JNum (Float 4607182418800017408)), (''minimum'', JNum (Float
     4606281698874543309)), (''type'', JStr ''number'')]), (''right_dmi_path'', JObj [(''type'', JStr
     ''string'')]), (''right_duplicate_index'', JObj [(''minimum'', JNum (PosInt 0)), (''type'', JStr
     ''integer'')]), (''right_state'', JObj [(''type'', JStr ''string'')])]), (''required'', JArr
     [JStr ''left_dmi_path'', JStr ''left_state'', JStr ''right_dmi_path'', JStr ''right_state'']),
     (''type'', JStr ''object'')])"

definition tool_dm_find_dmi_duplicates :: tool_definition where
  "tool_dm_find_dmi_duplicates = tool_definition ''dm_find_dmi_duplicates''
     ''Scan a contained scope for cross-DMI duplicate states, including common mirrored, padded, palette-swapped, and near-copy changes.''
     (JObj [(''properties'', JObj [(''include_frame_matches'', JObj [(''type'', JStr ''boolean'')]),
     (''include_glob'', JObj [(''type'', JStr ''string'')]), (''max_matches'', JObj [(''minimum'',
     JNum (PosInt 1)), (''type'', JStr ''integer'')]), (''minimum_similarity'', JObj [(''maximum'',
     JNum (Float 4607182418800017408)), (''minimum'', JNum (Float 4606281698874543309)), (''type'',
     JStr ''number'')]), (''scope_path'', JObj [(''type'', JStr ''string'')])]), (''type'', JStr
     ''object'')])"

definition tool_dm_audit_icons :: tool_definition where
  "tool_dm_audit_icons = tool_definition ''dm_audit_icons''
     ''Correlate parsed icon evidence with bounded DMI duplicate scanning; dynamic references make unused-state evidence best-effort.''
     (JObj [(''properties'', JObj [(''include_glob'', JObj [(''type'', JStr ''string'')]),
     (''include_unused'', JObj [(''type'', JStr ''boolean'')]), (''max_matches'', JObj [(''minimum'',
     JNum (PosInt 1)), (''type'', JStr ''integer'')]), (''minimum_similarity'', JObj [(''maximum'',
     JNum (Float 4607182418800017408)), (''minimum'', JNum (Float 4606281698874543309)), (''type'',
     JStr ''number'')]), (''scope_path'', JObj [(''type'', JStr ''string'')])]), (''type'', JStr
     ''object'')])"

definition tool_dm_extract_dmi :: tool_definition where
  "tool_dm_extract_dmi = tool_definition ''dm_extract_dmi''
     ''Mechanically extract one user-selected DMI state, contact sheet, or exact frame without altering the source art.''
     (JObj [(''properties'', JObj [(''direction'', JObj [(''enum'', JArr [JStr ''north'', JStr
     ''south'', JStr ''east'', JStr ''west'', JStr ''northeast'', JStr ''northwest'', JStr
     ''southeast'', JStr ''southwest'']), (''type'', JStr ''string'')]), (''dmi_path'', JObj
     [(''type'', JStr ''string'')]), (''duplicate_index'', JObj [(''minimum'', JNum (PosInt 0)),
     (''type'', JStr ''integer'')]), (''frame'', JObj [(''minimum'', JNum (PosInt 0)), (''type'',
     JStr ''integer'')]), (''kind'', JObj [(''enum'', JArr [JStr ''auto'', JStr ''png'', JStr
     ''gif'', JStr ''contact_sheet'', JStr ''frame'']), (''type'', JStr ''string'')]),
     (''output_path'', JObj [(''type'', JStr ''string'')]), (''overwrite'', JObj [(''type'', JStr
     ''boolean'')]), (''state'', JObj [(''type'', JStr ''string'')])]), (''required'', JArr [JStr
     ''dmi_path'', JStr ''state'', JStr ''output_path'']), (''type'', JStr ''object'')])"

definition tool_dm_render_map :: tool_definition where
  "tool_dm_render_map = tool_definition ''dm_render_map''
     ''Render a map file (.dmm) to a PNG image.''
     (JObj [(''properties'', JObj [(''disable_passes'', JObj [(''items'', JObj [(''type'', JStr
     ''string'')]), (''type'', JStr ''array'')]), (''dmm_path'', JObj [(''description'', JStr
     ''Path to the .dmm map file''), (''type'', JStr ''string'')]), (''enable_passes'', JObj
     [(''items'', JObj [(''type'', JStr ''string'')]), (''type'', JStr ''array'')]), (''max'', JObj
     [(''items'', JObj [(''minimum'', JNum (PosInt 1)), (''type'', JStr ''integer'')]),
     (''maxItems'', JNum (PosInt 3)), (''minItems'', JNum (PosInt 3)), (''type'', JStr ''array'')]),
     (''min'', JObj [(''items'', JObj [(''minimum'', JNum (PosInt 1)), (''type'', JStr
     ''integer'')]), (''maxItems'', JNum (PosInt 3)), (''minItems'', JNum (PosInt 3)), (''type'',
     JStr ''array'')]), (''output_path'', JObj [(''description'', JStr
     ''Path to save the PNG (default: same as dmm with .png extension)''), (''type'', JStr
     ''string'')]), (''overwrite'', JObj [(''description'', JStr
     ''Replace an existing output only when explicitly true (default: false)''), (''type'', JStr
     ''boolean'')]), (''z_level'', JObj [(''description'', JStr ''Z-level to render (default: 1)''),
     (''type'', JStr ''integer'')])]), (''required'', JArr [JStr ''dmm_path'']), (''type'', JStr
     ''object'')])"

definition tool_dm_diff_maps :: tool_definition where
  "tool_dm_diff_maps = tool_definition ''dm_diff_maps''
     ''Compare coordinate models between two contained DMM/TGM maps independent of dictionary keys.''
     (JObj [(''properties'', JObj [(''left_dmm_path'', JObj [(''type'', JStr ''string'')]),
     (''limit'', JObj [(''minimum'', JNum (PosInt 1)), (''type'', JStr ''integer'')]),
     (''right_dmm_path'', JObj [(''type'', JStr ''string'')])]), (''required'', JArr [JStr
     ''left_dmm_path'', JStr ''right_dmm_path'']), (''type'', JStr ''object'')])"

definition tool_dm_list_render_passes :: tool_definition where
  "tool_dm_list_render_passes = tool_definition ''dm_list_render_passes''
     ''List every pinned SpacemanDMM render pass with its description and default state.''
     (JObj [(''properties'', JObj []), (''type'', JStr ''object'')])"

definition tool_dm_render_maps :: tool_definition where
  "tool_dm_render_maps = tool_definition ''dm_render_maps''
     ''Render a validated, bounded batch of typed map chunks without exposing raw RenderMany commands.''
     (JObj [(''properties'', JObj [(''disable_passes'', JObj [(''items'', JObj [(''type'', JStr
     ''string'')]), (''type'', JStr ''array'')]), (''enable_passes'', JObj [(''items'', JObj
     [(''type'', JStr ''string'')]), (''type'', JStr ''array'')]), (''files'', JObj [(''items'', JObj
     [(''properties'', JObj [(''chunks'', JObj [(''items'', JObj [(''properties'', JObj [(''max'',
     JObj [(''items'', JObj [(''minimum'', JNum (PosInt 1)), (''type'', JStr ''integer'')]),
     (''maxItems'', JNum (PosInt 3)), (''minItems'', JNum (PosInt 3)), (''type'', JStr ''array'')]),
     (''min'', JObj [(''items'', JObj [(''minimum'', JNum (PosInt 1)), (''type'', JStr
     ''integer'')]), (''maxItems'', JNum (PosInt 3)), (''minItems'', JNum (PosInt 3)), (''type'',
     JStr ''array'')]), (''output_path'', JObj [(''type'', JStr ''string'')]), (''z_level'', JObj
     [(''minimum'', JNum (PosInt 1)), (''type'', JStr ''integer'')])]), (''required'', JArr [JStr
     ''output_path'']), (''type'', JStr ''object'')]), (''type'', JStr ''array'')]), (''dmm_path'',
     JObj [(''type'', JStr ''string'')])]), (''required'', JArr [JStr ''dmm_path'', JStr
     ''chunks'']), (''type'', JStr ''object'')]), (''type'', JStr ''array'')]), (''overwrite'', JObj
     [(''type'', JStr ''boolean'')])]), (''required'', JArr [JStr ''files'']), (''type'', JStr
     ''object'')])"

definition tool_dm_map_info :: tool_definition where
  "tool_dm_map_info = tool_definition ''dm_map_info''
     ''Get information about a map file including dimensions, z-levels, and area statistics.''
     (JObj [(''properties'', JObj [(''dmm_path'', JObj [(''description'', JStr
     ''Path to the .dmm map file''), (''type'', JStr ''string'')])]), (''required'', JArr [JStr
     ''dmm_path'']), (''type'', JStr ''object'')])"

definition tool_dm_find_on_map :: tool_definition where
  "tool_dm_find_on_map = tool_definition ''dm_find_on_map''
     ''Find all instances of a type on a map.''
     (JObj [(''properties'', JObj [(''dmm_path'', JObj [(''description'', JStr
     ''Path to the .dmm map file''), (''type'', JStr ''string'')]), (''type_path'', JObj
     [(''description'', JStr (''Type path to search for (e.g., '' @ [CHR 0x27] @
     ''/obj/machinery/door'' @ [CHR 0x27] @ '')'')), (''type'', JStr ''string'')])]), (''required'',
     JArr [JStr ''dmm_path'', JStr ''type_path'']), (''type'', JStr ''object'')])"

definition tool_dm_debug_launch :: tool_definition where
  "tool_dm_debug_launch = tool_definition ''dm_debug_launch''
     ''Launch one MCP-owned interactive DreamSeeker or headless DreamDaemon session with the fixed, hash-verified auxtools debugger.''
     (JObj [(''additionalProperties'', JBool False), (''properties'', JObj [(''dmb_path'', JObj
     [(''type'', JStr ''string'')]), (''host_mode'', JObj [(''default'', JStr ''interactive''),
     (''enum'', JArr [JStr ''interactive'', JStr ''headless'']), (''type'', JStr ''string'')]),
     (''require_verified_provenance'', JObj [(''default'', JBool False), (''type'', JStr
     ''boolean'')]), (''startup_timeout_ms'', JObj [(''maximum'', JNum (PosInt 60000)), (''minimum'',
     JNum (PosInt 1)), (''type'', JStr ''integer'')])]), (''required'', JArr [JStr ''dmb_path'']),
     (''type'', JStr ''object'')])"

definition tool_dm_debug_stop :: tool_definition where
  "tool_dm_debug_stop = tool_definition ''dm_debug_stop''
     ''Disconnect and terminate the active MCP-owned debugger process tree.''
     (JObj [(''properties'', JObj []), (''type'', JStr ''object'')])"

definition tool_dm_debug_set_breakpoints :: tool_definition where
  "tool_dm_debug_set_breakpoints = tool_definition ''dm_debug_set_breakpoints''
     ''Replace all source breakpoints for one contained parsed DreamMaker file.''
     (debug_source_breakpoint_schema)"

definition tool_dm_debug_set_function_breakpoints :: tool_definition where
  "tool_dm_debug_set_function_breakpoints = tool_definition ''dm_debug_set_function_breakpoints''
     ''Set a bounded complete list of canonical proc breakpoints.''
     (debug_breakpoint_schema)"

definition tool_dm_debug_set_exception_breakpoints :: tool_definition where
  "tool_dm_debug_set_exception_breakpoints = tool_definition ''dm_debug_set_exception_breakpoints''
     ''Enable or disable breaks on DreamMaker runtime exceptions.''
     (JObj [(''properties'', JObj [(''break_on_runtimes'', JObj [(''type'', JStr ''boolean'')])]),
     (''required'', JArr [JStr ''break_on_runtimes'']), (''type'', JStr ''object'')])"

definition tool_dm_debug_control :: tool_definition where
  "tool_dm_debug_control = tool_definition ''dm_debug_control''
     ''Pause, continue, step into, step over, or step out of the active debuggee.''
     (JObj [(''properties'', JObj [(''action'', JObj [(''enum'', JArr [JStr ''pause'', JStr
     ''continue'', JStr ''step_in'', JStr ''step_over'', JStr ''step_out'']), (''type'', JStr
     ''string'')]), (''thread_id'', JObj [(''minimum'', JNum (PosInt 0)), (''type'', JStr
     ''integer'')])]), (''required'', JArr [JStr ''action'']), (''type'', JStr ''object'')])"

definition tool_dm_debug_threads :: tool_definition where
  "tool_dm_debug_threads = tool_definition ''dm_debug_threads''
     (''List the active debuggee'' @ [CHR 0x27] @ ''s bounded thread/stack inventory.'')
     (JObj [(''properties'', JObj []), (''type'', JStr ''object'')])"

definition tool_dm_debug_stack_trace :: tool_definition where
  "tool_dm_debug_stack_trace = tool_definition ''dm_debug_stack_trace''
     ''Read a bounded page of stack frames for a debuggee thread.''
     (JObj [(''properties'', JObj [(''count'', JObj [(''minimum'', JNum (PosInt 1)), (''type'', JStr
     ''integer'')]), (''start_frame'', JObj [(''minimum'', JNum (PosInt 0)), (''type'', JStr
     ''integer'')]), (''thread_id'', JObj [(''minimum'', JNum (PosInt 0)), (''type'', JStr
     ''integer'')])]), (''required'', JArr [JStr ''thread_id'']), (''type'', JStr ''object'')])"

definition tool_dm_debug_scopes :: tool_definition where
  "tool_dm_debug_scopes = tool_definition ''dm_debug_scopes''
     ''Read arguments, locals, and globals references for a stack frame.''
     (JObj [(''properties'', JObj [(''frame_id'', JObj [(''minimum'', JNum (PosInt 0)), (''type'',
     JStr ''integer'')])]), (''required'', JArr [JStr ''frame_id'']), (''type'', JStr ''object'')])"

definition tool_dm_debug_variables :: tool_definition where
  "tool_dm_debug_variables = tool_definition ''dm_debug_variables''
     ''Read bounded variables for an auxtools variable reference.''
     (JObj [(''properties'', JObj [(''variables_reference'', JObj [(''type'', JStr ''integer'')])]),
     (''required'', JArr [JStr ''variables_reference'']), (''type'', JStr ''object'')])"

definition tool_dm_debug_evaluate :: tool_definition where
  "tool_dm_debug_evaluate = tool_definition ''dm_debug_evaluate''
     ''Execute a bounded DreamMaker expression in the active debuggee.''
     (JObj [(''properties'', JObj [(''context'', JObj [(''enum'', JArr [JStr ''watch'', JStr ''repl'',
     JStr ''hover'']), (''type'', JStr ''string'')]), (''expression'', JObj [(''maxLength'', JNum
     (PosInt 16384)), (''type'', JStr ''string'')]), (''frame_id'', JObj [(''minimum'', JNum (PosInt
     0)), (''type'', JStr ''integer'')])]), (''required'', JArr [JStr ''expression'']), (''type'',
     JStr ''object'')])"

definition tool_dm_debug_exception_info :: tool_definition where
  "tool_dm_debug_exception_info = tool_definition ''dm_debug_exception_info''
     ''Read the most recent retained runtime exception from the active session.''
     (JObj [(''properties'', JObj []), (''type'', JStr ''object'')])"

definition tool_dm_debug_source :: tool_definition where
  "tool_dm_debug_source = tool_definition ''dm_debug_source''
     ''Read the retained auxtools stddef source by issued source reference only.''
     (JObj [(''properties'', JObj [(''source_reference'', JObj [(''enum'', JArr [JNum (PosInt 1)]),
     (''type'', JStr ''integer'')])]), (''required'', JArr [JStr ''source_reference'']), (''type'',
     JStr ''object'')])"

definition tool_dm_debug_wait_for_event :: tool_definition where
  "tool_dm_debug_wait_for_event = tool_definition ''dm_debug_wait_for_event''
     ''Wait for the next bounded debugger event after an optional sequence.''
     (JObj [(''properties'', JObj [(''after_sequence'', JObj [(''minimum'', JNum (PosInt 0)),
     (''type'', JStr ''integer'')]), (''kinds'', JObj [(''items'', JObj [(''enum'', JArr [JStr
     ''breakpoint'', JStr ''step'', JStr ''pause'', JStr ''runtime'', JStr ''output'', JStr
     ''terminated'']), (''type'', JStr ''string'')]), (''type'', JStr ''array'')]), (''timeout_ms'',
     JObj [(''maximum'', JNum (PosInt 300000)), (''minimum'', JNum (PosInt 1)), (''type'', JStr
     ''integer'')])]), (''type'', JStr ''object'')])"

definition tool_dm_run :: tool_definition where
  "tool_dm_run = tool_definition ''dm_run''
     ''Start DreamDaemon with a compiled .dmb file. Returns the process ID and port.''
     (JObj [(''additionalProperties'', JBool False), (''properties'', JObj [(''daemon_args'', JObj
     [(''description'', JStr
     ''Optional additional DreamDaemon arguments, appended after the standard trusted/logging arguments''),
     (''items'', JObj [(''type'', JStr ''string'')]), (''type'', JStr ''array'')]), (''dmb_path'',
     JObj [(''description'', JStr ''Path to the compiled .dmb file''), (''type'', JStr ''string'')]),
     (''port'', JObj [(''description'', JStr ''Port to run the server on (default: 1337)''),
     (''maximum'', JNum (PosInt 65535)), (''minimum'', JNum (PosInt 1)), (''type'', JStr
     ''integer'')]), (''require_verified_provenance'', JObj [(''default'', JBool False),
     (''description'', JStr
     ''Reject an unmanaged DMB unless it has a current Meridian-MCP build record''), (''type'', JStr
     ''boolean'')]), (''startup_timeout_ms'', JObj [(''description'', JStr
     ''Maximum wait for wait_for in milliseconds (default: 30000)''), (''maximum'', JNum (PosInt
     300000)), (''minimum'', JNum (PosInt 1)), (''type'', JStr ''integer'')]), (''wait_for'', JObj
     [(''description'', JStr ''Optional output marker to wait for before returning''), (''type'',
     JStr ''string'')]), (''wait_regex'', JObj [(''description'', JStr
     ''Interpret wait_for as a regular expression (default: false)''), (''type'', JStr
     ''boolean'')]), (''working_directory'', JObj [(''description'', JStr
     ''Optional working directory used to resolve a relative DMB path and run DreamDaemon''),
     (''type'', JStr ''string'')])]), (''required'', JArr [JStr ''dmb_path'']), (''type'', JStr
     ''object'')])"

definition tool_dm_wait_for_output :: tool_definition where
  "tool_dm_wait_for_output = tool_definition ''dm_wait_for_output''
     ''Wait for a literal or regular-expression marker in captured DreamDaemon output.''
     (JObj [(''properties'', JObj [(''pattern'', JObj [(''description'', JStr
     ''Output text or regular expression to wait for''), (''type'', JStr ''string'')]), (''regex'',
     JObj [(''description'', JStr ''Interpret pattern as a regular expression (default: false)''),
     (''type'', JStr ''boolean'')]), (''timeout_ms'', JObj [(''description'', JStr
     ''Maximum wait in milliseconds (default: 30000, capped at 300000)''), (''type'', JStr
     ''integer'')])]), (''required'', JArr [JStr ''pattern'']), (''type'', JStr ''object'')])"

definition tool_dm_stop :: tool_definition where
  "tool_dm_stop = tool_definition ''dm_stop''
     ''Stop the currently running DreamDaemon instance.''
     (JObj [(''properties'', JObj []), (''type'', JStr ''object'')])"

definition tool_dm_status :: tool_definition where
  "tool_dm_status = tool_definition ''dm_status''
     (''Get the status of the running game (port, PID, whether it'' @ [CHR 0x27] @ ''s running).'')
     (JObj [(''properties'', JObj []), (''type'', JStr ''object'')])"

definition tool_dm_topic :: tool_definition where
  "tool_dm_topic = tool_definition ''dm_topic''
     ''Send a Topic() call to the running game server. Use this to communicate with debug handlers in the game.''
     (JObj [(''properties'', JObj [(''timeout_ms'', JObj [(''description'', JStr
     ''Timeout in milliseconds (default: 5000)''), (''type'', JStr ''integer'')]), (''topic'', JObj
     [(''description'', JStr (''The topic string to send (e.g., '' @ [CHR 0x27] @
     ''?debug_screenshot'' @ [CHR 0x27] @ '' or '' @ [CHR 0x27] @ ''?debug_click=10,20'' @ [CHR 0x27]
     @ '')'')), (''type'', JStr ''string'')])]), (''required'', JArr [JStr ''topic'']), (''type'',
     JStr ''object'')])"

definition tool_dm_tracy_prepare :: tool_definition where
  "tool_dm_tracy_prepare = tool_definition ''dm_tracy_prepare''
     ''Place the verified pinned byond-tracy hook beside a contained DMB using atomic replacement rules.''
     (JObj [(''properties'', JObj [(''dmb_path'', JObj [(''type'', JStr ''string'')]), (''overwrite'',
     JObj [(''default'', JBool False), (''type'', JStr ''boolean'')])]), (''required'', JArr [JStr
     ''dmb_path'']), (''type'', JStr ''object'')])"

definition tool_dm_tracy_launch :: tool_definition where
  "tool_dm_tracy_launch = tool_definition ''dm_tracy_launch''
     ''Launch an MCP-owned DreamDaemon with fixed Tracy parameters, an optional hash-bound post-initialization wake configuration, an immutable executable/workload draft, and a private loopback profiler endpoint.''
     (JObj [(''properties'', launch_properties), (''required'', JArr [JStr ''dmb_path'', JStr
     ''experiment_directory'']), (''type'', JStr ''object'')])"

definition tool_dm_tracy_capture :: tool_definition where
  "tool_dm_tracy_capture = tool_definition ''dm_tracy_capture''
     ''Lock or verify immutable workload identity, then capture one uniquely named phase iteration into an atomic trace/sidecar pair.''
     (JObj [(''properties'', capture_properties), (''required'', JArr [JStr ''output_path'', JStr
     ''duration_ms'', JStr ''memory_limit_mb'', JStr ''phase'', JStr ''phase_iteration'']),
     (''type'', JStr ''object'')])"

definition tool_dm_tracy_status :: tool_definition where
  "tool_dm_tracy_status = tool_definition ''dm_tracy_status''
     ''Report profiled DreamDaemon, capture, endpoint, hook, helper, protocol, and last-error state.''
     (JObj [(''properties'', JObj []), (''type'', JStr ''object'')])"

definition tool_dm_tracy_stop :: tool_definition where
  "tool_dm_tracy_stop = tool_definition ''dm_tracy_stop''
     ''Stop the active Tracy capture and then terminate the MCP-owned profiled DreamDaemon.''
     (JObj [(''properties'', JObj []), (''type'', JStr ''object'')])"

definition tool_dm_tracy_hotspots :: tool_definition where
  "tool_dm_tracy_hotspots = tool_definition ''dm_tracy_hotspots''
     ''Read a contained Tracy trace and return bounded deterministic DreamMaker hotspot statistics.''
     (JObj [(''properties'', JObj [(''limit'', JObj [(''default'', JNum (PosInt 100)), (''maximum'',
     JNum (PosInt 1000)), (''minimum'', JNum (PosInt 1)), (''type'', JStr ''integer'')]), (''sort'',
     JObj [(''default'', JStr ''inclusive''), (''enum'', JArr [JStr ''inclusive'', JStr ''self'',
     JStr ''count'', JStr ''max'']), (''type'', JStr ''string'')]), (''trace_path'', JObj [(''type'',
     JStr ''string'')])]), (''required'', JArr [JStr ''trace_path'']), (''type'', JStr ''object'')])"

definition tool_dm_tracy_zone :: tool_definition where
  "tool_dm_tracy_zone = tool_definition ''dm_tracy_zone''
     ''Inspect bounded statistics for one DreamMaker proc name across source locations in a contained Tracy trace.''
     (JObj [(''properties'', JObj [(''limit'', JObj [(''default'', JNum (PosInt 100)), (''maximum'',
     JNum (PosInt 1000)), (''minimum'', JNum (PosInt 1)), (''type'', JStr ''integer'')]), (''name'',
     JObj [(''maxLength'', JNum (PosInt 4096)), (''type'', JStr ''string'')]), (''trace_path'', JObj
     [(''type'', JStr ''string'')])]), (''required'', JArr [JStr ''trace_path'', JStr ''name'']),
     (''type'', JStr ''object'')])"

definition tool_dm_tracy_frame_stats :: tool_definition where
  "tool_dm_tracy_frame_stats = tool_definition ''dm_tracy_frame_stats''
     ''Summarize ServerTick frame count, span, mean, extrema, and p50/p95/p99 from a contained Tracy trace.''
     (JObj [(''properties'', JObj [(''trace_path'', JObj [(''type'', JStr ''string'')])]),
     (''required'', JArr [JStr ''trace_path'']), (''type'', JStr ''object'')])"

definition tool_dm_tracy_compare :: tool_definition where
  "tool_dm_tracy_compare = tool_definition ''dm_tracy_compare''
     ''Verify trace identity compatibility, then compare two contained Tracy traces by proc, file, and line.''
     (JObj [(''properties'', JObj [(''baseline_path'', JObj [(''type'', JStr ''string'')]),
     (''comparison_mode'', JObj [(''default'', JStr ''same_experiment_same_phase''), (''enum'', JArr
     [JStr ''same_experiment_same_phase'', JStr ''cross_experiment'']), (''type'', JStr
     ''string'')]), (''current_path'', JObj [(''type'', JStr ''string'')]), (''limit'', JObj
     [(''default'', JNum (PosInt 100)), (''maximum'', JNum (PosInt 1000)), (''minimum'', JNum (PosInt
     1)), (''type'', JStr ''integer'')]), (''minimum_delta_ns'', JObj [(''default'', JNum (PosInt
     0)), (''minimum'', JNum (PosInt 0)), (''type'', JStr ''integer'')])]), (''required'', JArr [JStr
     ''baseline_path'', JStr ''current_path'']), (''type'', JStr ''object'')])"

definition tool_dm_tracy_control_stats :: tool_definition where
  "tool_dm_tracy_control_stats = tool_definition ''dm_tracy_control_stats''
     ''Validate 3-20 identity-compatible controls and calculate fixed frame and exact-zone noise statistics.''
     (JObj [(''properties'', JObj [(''comparison_mode'', JObj [(''default'', JStr
     ''same_experiment_same_phase''), (''enum'', JArr [JStr ''same_experiment_same_phase'', JStr
     ''cross_experiment'']), (''type'', JStr ''string'')]), (''frame_percentile'', JObj
     [(''default'', JStr ''p95''), (''enum'', JArr [JStr ''p50'', JStr ''p95'', JStr ''p99'']),
     (''type'', JStr ''string'')]), (''trace_paths'', JObj [(''items'', JObj [(''type'', JStr
     ''string'')]), (''maxItems'', JNum (PosInt 20)), (''minItems'', JNum (PosInt 3)), (''type'',
     JStr ''array''), (''uniqueItems'', JBool True)]), (''zone_keys'', JObj [(''items'', JObj
     [(''description'', JStr ''file|line|name|inclusive_or_self|p50_p95_or_p99''), (''maxLength'',
     JNum (PosInt 4096)), (''type'', JStr ''string'')]), (''maxItems'', JNum (PosInt 32)), (''type'',
     JStr ''array''), (''uniqueItems'', JBool True)])]), (''required'', JArr [JStr ''trace_paths'']),
     (''type'', JStr ''object'')])"

definition get_tool_definitions :: "tool_definition list" where
  "get_tool_definitions =
     [tool_dm_server_status, tool_dm_parse_environment, tool_dm_check_fixture_sync,
      tool_dm_native_evidence_summary, tool_dm_native_evidence_compare, tool_dm_get_type,
      tool_dm_get_proc, tool_dm_get_var, tool_dm_list_types, tool_dm_search_symbols,
      tool_dm_search_context, tool_dm_check_errors, tool_dm_get_definition,
      tool_dm_document_symbols, tool_dm_find_references, tool_dm_find_implementations,
      tool_dm_generate_docs, tool_dm_compile, tool_rift_compile, tool_dm_dmi_info,
      tool_dm_compare_dmi_states, tool_dm_find_dmi_duplicates, tool_dm_audit_icons,
      tool_dm_extract_dmi, tool_dm_render_map, tool_dm_diff_maps, tool_dm_list_render_passes,
      tool_dm_render_maps, tool_dm_map_info, tool_dm_find_on_map, tool_dm_debug_launch,
      tool_dm_debug_stop, tool_dm_debug_set_breakpoints, tool_dm_debug_set_function_breakpoints,
      tool_dm_debug_set_exception_breakpoints, tool_dm_debug_control, tool_dm_debug_threads,
      tool_dm_debug_stack_trace, tool_dm_debug_scopes, tool_dm_debug_variables,
      tool_dm_debug_evaluate, tool_dm_debug_exception_info, tool_dm_debug_source,
      tool_dm_debug_wait_for_event, tool_dm_run, tool_dm_wait_for_output, tool_dm_stop,
      tool_dm_status, tool_dm_topic, tool_dm_tracy_prepare, tool_dm_tracy_launch,
      tool_dm_tracy_capture, tool_dm_tracy_status, tool_dm_tracy_stop, tool_dm_tracy_hotspots,
      tool_dm_tracy_zone, tool_dm_tracy_frame_stats, tool_dm_tracy_compare,
      tool_dm_tracy_control_stats]"

section \<open>Facts of the table\<close>

lemmas tool_defs =
  tool_dm_server_status_def tool_dm_parse_environment_def tool_dm_check_fixture_sync_def
  tool_dm_native_evidence_summary_def tool_dm_native_evidence_compare_def tool_dm_get_type_def
  tool_dm_get_proc_def tool_dm_get_var_def tool_dm_list_types_def tool_dm_search_symbols_def
  tool_dm_search_context_def tool_dm_check_errors_def tool_dm_get_definition_def
  tool_dm_document_symbols_def tool_dm_find_references_def tool_dm_find_implementations_def
  tool_dm_generate_docs_def tool_dm_compile_def tool_rift_compile_def tool_dm_dmi_info_def
  tool_dm_compare_dmi_states_def tool_dm_find_dmi_duplicates_def tool_dm_audit_icons_def
  tool_dm_extract_dmi_def tool_dm_render_map_def tool_dm_diff_maps_def
  tool_dm_list_render_passes_def tool_dm_render_maps_def tool_dm_map_info_def
  tool_dm_find_on_map_def tool_dm_debug_launch_def tool_dm_debug_stop_def
  tool_dm_debug_set_breakpoints_def tool_dm_debug_set_function_breakpoints_def
  tool_dm_debug_set_exception_breakpoints_def tool_dm_debug_control_def
  tool_dm_debug_threads_def tool_dm_debug_stack_trace_def tool_dm_debug_scopes_def
  tool_dm_debug_variables_def tool_dm_debug_evaluate_def tool_dm_debug_exception_info_def
  tool_dm_debug_source_def tool_dm_debug_wait_for_event_def tool_dm_run_def
  tool_dm_wait_for_output_def tool_dm_stop_def tool_dm_status_def tool_dm_topic_def
  tool_dm_tracy_prepare_def tool_dm_tracy_launch_def tool_dm_tracy_capture_def
  tool_dm_tracy_status_def tool_dm_tracy_stop_def tool_dm_tracy_hotspots_def
  tool_dm_tracy_zone_def tool_dm_tracy_frame_stats_def tool_dm_tracy_compare_def
  tool_dm_tracy_control_stats_def

lemmas schema_defs = evidence_request_schema_def debug_breakpoint_schema_def
  debug_source_breakpoint_schema_def launch_properties_def capture_properties_def

definition tool_names :: "string list" where
  "tool_names =
     [''dm_server_status'', ''dm_parse_environment'', ''dm_check_fixture_sync'',
      ''dm_native_evidence_summary'', ''dm_native_evidence_compare'', ''dm_get_type'',
      ''dm_get_proc'', ''dm_get_var'', ''dm_list_types'', ''dm_search_symbols'',
      ''dm_search_context'', ''dm_check_errors'', ''dm_get_definition'',
      ''dm_document_symbols'', ''dm_find_references'', ''dm_find_implementations'',
      ''dm_generate_docs'', ''dm_compile'', ''rift_compile'', ''dm_dmi_info'',
      ''dm_compare_dmi_states'', ''dm_find_dmi_duplicates'', ''dm_audit_icons'',
      ''dm_extract_dmi'', ''dm_render_map'', ''dm_diff_maps'', ''dm_list_render_passes'',
      ''dm_render_maps'', ''dm_map_info'', ''dm_find_on_map'', ''dm_debug_launch'',
      ''dm_debug_stop'', ''dm_debug_set_breakpoints'', ''dm_debug_set_function_breakpoints'',
      ''dm_debug_set_exception_breakpoints'', ''dm_debug_control'', ''dm_debug_threads'',
      ''dm_debug_stack_trace'', ''dm_debug_scopes'', ''dm_debug_variables'',
      ''dm_debug_evaluate'', ''dm_debug_exception_info'', ''dm_debug_source'',
      ''dm_debug_wait_for_event'', ''dm_run'', ''dm_wait_for_output'', ''dm_stop'',
      ''dm_status'', ''dm_topic'', ''dm_tracy_prepare'', ''dm_tracy_launch'',
      ''dm_tracy_capture'', ''dm_tracy_status'', ''dm_tracy_stop'', ''dm_tracy_hotspots'',
      ''dm_tracy_zone'', ''dm_tracy_frame_stats'', ''dm_tracy_compare'',
      ''dm_tracy_control_stats'']"

lemma tool_names: "map td_name get_tool_definitions = tool_names"
  by (simp add: get_tool_definitions_def tool_defs tool_names_def)

lemma tool_names_distinct: "distinct tool_names"
  by code_simp

text \<open>The declared properties of a tool and the properties it requires.\<close>

definition schema_properties :: "json \<Rightarrow> string list" where
  "schema_properties s = (case json_get s ''properties'' of Some (JObj m) \<Rightarrow> map fst m | _ \<Rightarrow> [])"

definition schema_required :: "json \<Rightarrow> json list" where
  "schema_required s = (case json_get s ''required'' of Some (JArr xs) \<Rightarrow> xs | _ \<Rightarrow> [])"

definition schema_consistent :: "json \<Rightarrow> bool" where
  "schema_consistent s \<longleftrightarrow> json_get s ''type'' = Some (JStr ''object'') \<and>
     list_all (\<lambda>r. case r of JStr k \<Rightarrow> ListMem k (schema_properties s) | _ \<Rightarrow> False) (schema_required s)"

lemma schemas_consistent: "list_all (\<lambda>d. schema_consistent (td_input_schema d)) get_tool_definitions"
  by (simp add: get_tool_definitions_def tool_defs schema_defs schema_consistent_def
      schema_properties_def schema_required_def ListMem_iff)

end
