(* ===== verification/Tool_Gate.thy ===== *)
theory Tool_Gate
  imports Tool_Contracts Tool_Definitions Tool_Result Path_Policy
begin

text \<open>
  The gate every tool call passes, from \<open>src/tools/mod.rs\<close>: which tools are advertised for a
  startup configuration, which calls are refused, and the containment of path arguments.
  From \<open>src/server.rs\<close>: the output limit and the annotations of advertised tools.

  Of \<open>ToolExecutionContext\<close> the model has what the gate reads; the debugger and Tracy
  installations are values of arbitrary types, of which only the presence matters here.
\<close>

section \<open>The execution context\<close>

record ('d, 't) execution_context =
  xc_mode :: capability_mode
  xc_policy :: path_policy
  xc_rift_build :: rift_build_access
  xc_dmdoc_helper :: "path option"
  xc_debugger :: "'d option"
  xc_tracy :: "'t option"

section \<open>Advertised tools\<close>

definition get_tool_definitions_for ::
    "bool \<Rightarrow> capability_mode \<Rightarrow> rift_build_access \<Rightarrow> tool_definition list" where
  "get_tool_definitions_for windows mode rift_build =
     (let active = set (map tc_name (contracts_for_configuration windows mode rift_build))
      in filter (\<lambda>d. td_name d \<noteq> ''dm_generate_docs'' \<and> td_name d \<in> active) get_tool_definitions)"

definition get_tool_definitions_for_runtime ::
    "bool \<Rightarrow> capability_mode \<Rightarrow> rift_build_access \<Rightarrow> bool \<Rightarrow> bool \<Rightarrow> bool \<Rightarrow> tool_definition list" where
  "get_tool_definitions_for_runtime windows mode rift_build dmdoc debugger tracy =
     (let tools = get_tool_definitions_for windows mode rift_build;
          tools = filter (\<lambda>d. \<not> prefix ''dm_debug_'' (td_name d)) tools;
          tools = filter (\<lambda>d. \<not> prefix ''dm_tracy_'' (td_name d)) tools;
          tools = (if dmdoc \<and> mode = Development
                   then case find (\<lambda>d. td_name d = ''dm_generate_docs'') get_tool_definitions of
                          Some d \<Rightarrow> tools @ [d] | None \<Rightarrow> tools
                   else tools);
          tools = (if debugger \<and> mode = Development
                   then tools @ filter (\<lambda>d. prefix ''dm_debug_'' (td_name d)) get_tool_definitions
                   else tools)
      in if tracy \<and> mode = Development
         then tools @ filter (\<lambda>d. prefix ''dm_tracy_'' (td_name d)) get_tool_definitions
         else tools)"

definition get_tool_definitions_for_active ::
    "bool \<Rightarrow> capability_mode \<Rightarrow> rift_build_access \<Rightarrow> bool \<Rightarrow> tool_definition list" where
  "get_tool_definitions_for_active windows mode rift_build dmdoc =
     get_tool_definitions_for_runtime windows mode rift_build dmdoc False False"

text \<open>\<open>MeridianServer::tool_names\<close>\<close>

definition advertised :: "bool \<Rightarrow> ('d, 't) execution_context \<Rightarrow> string list" where
  "advertised windows ctx =
     map td_name (get_tool_definitions_for_runtime windows (xc_mode ctx) (xc_rift_build ctx)
        (xc_dmdoc_helper ctx \<noteq> None) (xc_debugger ctx \<noteq> None) (xc_tracy ctx \<noteq> None))"

section \<open>Containment of path arguments\<close>

text \<open>
  A refused call returns the policy's error.  \<open>Panicked\<close> stands for a Rust panic, which ends
  the call without a result.
\<close>

datatype refusal = Denied policy_error | Panicked

definition set_member :: "json \<Rightarrow> string \<Rightarrow> string \<Rightarrow> refusal + json" where
  "set_member args key s = or_err Panicked (json_set args key (JStr s))"

definition canonical_argument ::
    "filesystem \<Rightarrow> path_policy \<Rightarrow> string \<Rightarrow> bool \<Rightarrow> json \<Rightarrow> refusal + json" where
  "canonical_argument fs pol key runtime args =
     (case get_str args key of None \<Rightarrow> Inr args
      | Some s \<Rightarrow>
          rbind (map_err Denied
                  (if runtime then runtime_dmb fs pol (fs_from_str fs s)
                   else read_path fs pol (fs_from_str fs s)))
            (\<lambda>p. set_member args key (fs_display fs p)))"

definition canonical_optional_argument ::
    "filesystem \<Rightarrow> path_policy \<Rightarrow> string \<Rightarrow> json \<Rightarrow> refusal + json" where
  "canonical_optional_argument fs pol key args = canonical_argument fs pol key False args"

text \<open>Run over the elements of an array member in place.\<close>

definition over_array ::
    "string \<Rightarrow> (json \<Rightarrow> refusal + json) \<Rightarrow> json \<Rightarrow> refusal + json" where
  "over_array key f v =
     (case Option.bind (json_get v key) as_array of None \<Rightarrow> Inr v
      | Some xs \<Rightarrow> rbind (rmap f xs) (\<lambda>ys. or_err Panicked (json_set v key (JArr ys))))"

definition contain_evidence_request ::
    "filesystem \<Rightarrow> path_policy \<Rightarrow> json \<Rightarrow> refusal + json" where
  "contain_evidence_request fs pol request =
     rbind (over_array ''artifacts'' (canonical_argument fs pol ''path'' False) request)
       (canonical_optional_argument fs pol ''dmb_path'')"

text \<open>The first \<open>match\<close> of \<open>contain_arguments\<close>.\<close>

definition contain_inputs ::
    "filesystem \<Rightarrow> path_policy \<Rightarrow> string \<Rightarrow> json \<Rightarrow> refusal + json" where
  "contain_inputs fs pol name args =
     (let one = (\<lambda>key runtime. canonical_argument fs pol key runtime args);
          two = (\<lambda>a b. rbind (canonical_argument fs pol a False args)
                          (canonical_argument fs pol b False))
      in if name \<in> {''dm_parse_environment'', ''dm_compile''} then one ''dme_path'' False
         else if name = ''dm_check_fixture_sync'' then one ''fixture_manifest_path'' False
         else if name = ''dm_native_evidence_summary'' then contain_evidence_request fs pol args
         else if name = ''dm_native_evidence_compare''
           then over_array ''runs'' (contain_evidence_request fs pol) args
         else if name = ''dm_document_symbols'' then one ''file_path'' False
         else if name = ''dm_dmi_info'' then one ''dmi_path'' False
         else if name = ''dm_compare_dmi_states'' then two ''left_dmi_path'' ''right_dmi_path''
         else if name \<in> {''dm_find_dmi_duplicates'', ''dm_audit_icons''} \<and> json_get args ''scope_path'' \<noteq> None
           then one ''scope_path'' False
         else if name = ''dm_extract_dmi'' then one ''dmi_path'' False
         else if name = ''dm_generate_docs'' then Inr args
         else if name \<in> {''dm_render_map'', ''dm_map_info'', ''dm_find_on_map''} then one ''dmm_path'' False
         else if name = ''dm_diff_maps'' then two ''left_dmm_path'' ''right_dmm_path''
         else if name \<in> {''dm_run'', ''dm_tracy_prepare'', ''dm_tracy_launch''} then one ''dmb_path'' True
         else if name = ''dm_debug_launch'' then one ''dmb_path'' True
         else if name = ''dm_debug_set_breakpoints'' then one ''source_path'' False
         else if name \<in> {''dm_tracy_hotspots'', ''dm_tracy_zone'', ''dm_tracy_frame_stats''}
           then one ''trace_path'' False
         else if name = ''dm_tracy_compare'' then two ''baseline_path'' ''current_path''
         else Inr args)"

definition overwrite_flag :: "json \<Rightarrow> bool" where
  "overwrite_flag args = (get_bool args ''overwrite'' = Some True)"

text \<open>An output path that is given must be acceptable as an output.\<close>

definition contain_output ::
    "filesystem \<Rightarrow> path_policy \<Rightarrow> string \<Rightarrow> json \<Rightarrow> refusal + json" where
  "contain_output fs pol key args =
     (case get_str args key of None \<Rightarrow> Inr args
      | Some s \<Rightarrow>
          rbind (map_err Denied (output_path fs pol (fs_from_str fs s) (overwrite_flag args)))
            (\<lambda>p. set_member args key (fs_display fs p)))"

text \<open>The output of \<open>dm_render_map\<close> defaults to the map's path with the extension \<open>png\<close>.\<close>

definition contain_render_output ::
    "filesystem \<Rightarrow> path_policy \<Rightarrow> json \<Rightarrow> refusal + json" where
  "contain_render_output fs pol args =
     rbind (case get_str args ''output_path'' of Some s \<Rightarrow> Inr (fs_from_str fs s)
            | None \<Rightarrow> rbind (or_err Panicked (as_str (json_index args ''dmm_path'')))
                        (\<lambda>s. Inr (with_extension (fs_from_str fs s) ''png'')))
       (\<lambda>output. rbind (map_err Denied (output_path fs pol output (overwrite_flag args)))
         (\<lambda>p. set_member args ''output_path'' (fs_display fs p)))"

definition contain_compiler ::
    "filesystem \<Rightarrow> path_policy \<Rightarrow> json \<Rightarrow> refusal + json" where
  "contain_compiler fs pol args =
     (case get_str args ''compiler_path'' of None \<Rightarrow> Inr args
      | Some s \<Rightarrow>
          rbind (map_err Denied (executable fs pol (fs_from_str fs s)))
            (\<lambda>p. set_member args ''compiler_path'' (fs_display fs p)))"

definition contain_arguments ::
    "filesystem \<Rightarrow> path_policy \<Rightarrow> string \<Rightarrow> json \<Rightarrow> refusal + json" where
  "contain_arguments fs pol name args =
     rbind (contain_inputs fs pol name args) (\<lambda>args.
     rbind (if name = ''dm_compile''
            then rbind (canonical_optional_argument fs pol ''working_directory'' args) (\<lambda>args.
                 rbind (canonical_optional_argument fs pol ''fixture_manifest_path'' args)
                   (contain_compiler fs pol))
            else Inr args) (\<lambda>args.
     rbind (if name = ''rift_compile''
            then canonical_optional_argument fs pol ''fixture_manifest_path'' args
            else Inr args) (\<lambda>args.
     rbind (if name = ''dm_run'' then canonical_optional_argument fs pol ''working_directory'' args
            else Inr args) (\<lambda>args.
     rbind (if name = ''dm_render_map'' then contain_render_output fs pol args else Inr args) (\<lambda>args.
     rbind (if name = ''dm_extract_dmi'' then contain_output fs pol ''output_path'' args
            else Inr args) (\<lambda>args.
     if name = ''dm_generate_docs'' then contain_output fs pol ''output_directory'' args
     else Inr args))))))"

section \<open>The gate\<close>

definition source_name :: "root_source \<Rightarrow> string" where
  "source_name s = (case s of ExplicitRoot \<Rightarrow> ''explicit_root''
     | LinkedGitWorktree \<Rightarrow> ''linked_git_worktree'')"

definition identity_json :: "RepositoryIdentity option \<Rightarrow> json" where
  "identity_json i = (case i of None \<Rightarrow> JNull
     | Some r \<Rightarrow> json_object [(''kind'', JStr (ri_kind r)), (''digest'', JStr (ri_digest r))])"

definition effective_root_json :: "filesystem \<Rightarrow> EffectiveRoot \<Rightarrow> json" where
  "effective_root_json fs r = json_object
     [(''path'', JStr (fs_display fs (er_path r))), (''source'', JStr (source_name (er_source r))),
      (''repository_identity'', identity_json (er_repository_identity r)),
      (''head_revision'', json_opt_str (er_head_revision r)),
      (''dirty'', case er_dirty r of None \<Rightarrow> JNull | Some b \<Rightarrow> JBool b)]"

text \<open>\<open>policy_error\<close>: the document that becomes the text of the error result.\<close>

definition policy_error_json ::
    "filesystem \<Rightarrow> string \<Rightarrow> string \<Rightarrow> path option \<Rightarrow> string \<Rightarrow> json \<Rightarrow> json" where
  "policy_error_json fs code message p recovery details = json_object
     [(''code'', JStr code), (''message'', JStr message), (''recovery'', JStr recovery),
      (''details'', details), (''path'', json_opt_str (map_option (fs_display fs) p))]"

text \<open>
  The checks of \<open>call_tool\<close> before the arguments are looked at.  \<open>os\<close> is
  \<open>std::env::consts::OS\<close>, and \<open>cfg!(windows)\<close> is that being \<open>windows\<close>.
\<close>

definition gate_refusal ::
    "filesystem \<Rightarrow> string \<Rightarrow> ('d, 't) execution_context \<Rightarrow> string \<Rightarrow> json option" where
  "gate_refusal fs os ctx name =
     (if name = ''rift_compile'' \<and> os \<noteq> ''windows'' then
        Some (policy_error_json fs ''unsupported_platform''
          ''rift_compile is supported only on Windows'' None
          ''Run rift_compile from an approved Windows Meridian-MCP installation.''
          (json_object [(''tool'', JStr name), (''platform'', JStr os)]))
      else if name = ''dm_generate_docs'' \<and> xc_dmdoc_helper ctx = None then
        Some (policy_error_json fs ''tool_not_available''
          ''dm_generate_docs requires a verified startup helper'' None
          ''Set MERIDIAN_MCP_HELPER_MANIFEST to a valid exact-revision helper manifest.''
          (json_object [(''tool'', JStr name)]))
      else if prefix ''dm_debug_'' name \<and> xc_debugger ctx = None then
        Some (policy_error_json fs ''tool_not_available''
          ''debugger tools require a verified auxtools startup configuration'' None
          ''Start Meridian-MCP in development mode with MERIDIAN_MCP_DEBUGGER=auxtools.''
          (json_object [(''tool'', JStr name)]))
      else if prefix ''dm_tracy_'' name \<and> xc_tracy ctx = None then
        Some (policy_error_json fs ''tool_not_available''
          ''Tracy tools require a verified startup helper configuration'' None
          ''Start Meridian-MCP in development mode with MERIDIAN_MCP_TRACY=byond.''
          (json_object [(''tool'', JStr name)]))
      else if \<not> (\<exists>c \<in> set (contracts_for_configuration (os = ''windows'') (xc_mode ctx)
                             (xc_rift_build ctx)). tc_name c = name) then
        Some (policy_error_json fs ''tool_not_available''
          (name @ '' is not available in '' @ mode_name (xc_mode ctx) @ '' mode'') None
          ''Use a tool advertised by tools/list for the immutable startup configuration.''
          (json_object [(''tool'', JStr name),
             (''mode'', JStr (case xc_mode ctx of Analysis \<Rightarrow> ''analysis'' | Development \<Rightarrow> ''development''))]))
      else None)"

text \<open>The arms of the dispatching \<open>match\<close>.\<close>

definition dispatched_tools :: "string list" where
  "dispatched_tools =
     [''dm_server_status'', ''dm_parse_environment'', ''dm_check_fixture_sync'',
      ''dm_native_evidence_summary'', ''dm_native_evidence_compare'', ''dm_get_type'',
      ''dm_get_proc'', ''dm_get_var'', ''dm_list_types'', ''dm_search_symbols'',
      ''dm_search_context'', ''dm_check_errors'', ''dm_get_definition'',
      ''dm_generate_docs'', ''dm_document_symbols'', ''dm_find_references'',
      ''dm_find_implementations'', ''dm_dmi_info'', ''dm_compare_dmi_states'',
      ''dm_find_dmi_duplicates'', ''dm_audit_icons'', ''dm_extract_dmi'', ''dm_compile'',
      ''rift_compile'', ''dm_render_map'', ''dm_map_info'', ''dm_find_on_map'',
      ''dm_diff_maps'', ''dm_list_render_passes'', ''dm_render_maps'', ''dm_debug_launch'',
      ''dm_debug_stop'', ''dm_debug_set_breakpoints'',
      ''dm_debug_set_function_breakpoints'', ''dm_debug_set_exception_breakpoints'',
      ''dm_debug_control'', ''dm_debug_threads'', ''dm_debug_stack_trace'',
      ''dm_debug_scopes'', ''dm_debug_variables'', ''dm_debug_evaluate'',
      ''dm_debug_exception_info'', ''dm_debug_source'', ''dm_debug_wait_for_event'',
      ''dm_run'', ''dm_wait_for_output'', ''dm_stop'', ''dm_status'', ''dm_topic'',
      ''dm_tracy_prepare'', ''dm_tracy_launch'', ''dm_tracy_capture'', ''dm_tracy_status'',
      ''dm_tracy_stop'', ''dm_tracy_hotspots'', ''dm_tracy_zone'',
      ''dm_tracy_frame_stats'', ''dm_tracy_compare'', ''dm_tracy_control_stats'']"

definition denied_json :: "filesystem \<Rightarrow> policy_error \<Rightarrow> json" where
  "denied_json fs e = policy_error_json fs (pe_code e) (pe_message e) (Some (pe_path e))
     ''Use a contained path and only startup-allowlisted executables.''
     (json_object
       [(''path'', JStr (fs_display fs (pe_path e))), (''policy_code'', JStr (pe_code e)),
        (''containment_mode'', JStr (pc_containment_mode (pe_context e))),
        (''policy_source'', JStr (pc_policy_source (pe_context e))),
        (''effective_roots'', JArr (map (effective_root_json fs) (pc_effective_roots (pe_context e))))])"

datatype gate_outcome =
    Refused json
  | Crashed
  | Dispatched json
  | UnknownTool string

definition call_tool ::
    "filesystem \<Rightarrow> string \<Rightarrow> ('d, 't) execution_context \<Rightarrow> string \<Rightarrow> json \<Rightarrow> gate_outcome" where
  "call_tool fs os ctx name args =
     (case gate_refusal fs os ctx name of Some e \<Rightarrow> Refused e
      | None \<Rightarrow>
          (case contain_arguments fs (xc_policy ctx) name args of
             Inl (Denied e) \<Rightarrow> Refused (denied_json fs e)
           | Inl Panicked \<Rightarrow> Crashed
           | Inr args \<Rightarrow> if name \<in> set dispatched_tools then Dispatched args else UnknownTool name))"

section \<open>The server around the gate\<close>

text \<open>\<open>enforce_output_limit\<close>; \<open>compact\<close> prints a JSON value.\<close>

definition output_bytes :: "domain_result \<Rightarrow> nat" where
  "output_bytes r = sum_list (map length (dr_content r))"

definition enforce_output_limit ::
    "(json \<Rightarrow> string) \<Rightarrow> string \<Rightarrow> domain_result \<Rightarrow> domain_result" where
  "enforce_output_limit compact name r =
     (case find (\<lambda>c. tc_name c = name) all_contracts of None \<Rightarrow> r
      | Some c \<Rightarrow>
          if output_bytes r \<le> tc_max_output_bytes c then r
          else structured_error compact LimitExceeded
                 ''tool output exceeded its declared transport limit''
                 (Some (''Narrow the request or use the tool'' @ [CHR 0x27] @ ''s pagination controls.''))
                 (json_object [(''tool'', JStr name),
                    (''output_bytes'', JNum (PosInt (of_nat (output_bytes r)))),
                    (''max_output_bytes'', JNum (PosInt (of_nat (tc_max_output_bytes c))))]))"

record tool_annotations =
  ta_read_only :: bool
  ta_destructive :: bool
  ta_open_world :: bool

definition annotations :: "string \<Rightarrow> rift_build_access \<Rightarrow> tool_annotations option" where
  "annotations name rift_build =
     map_option (\<lambda>c.
       let external_network = te_network_external (tc_effects c) \<and> rift_build = RiftNetwork
       in \<lparr>ta_read_only = \<not> te_writes_files (tc_effects c) \<and> \<not> te_spawns_process (tc_effects c)
             \<and> \<not> te_network_loopback (tc_effects c) \<and> \<not> external_network,
           ta_destructive = te_destructive (tc_effects c), ta_open_world = external_network\<rparr>)
       (find (\<lambda>c. tc_name c = name) all_contracts)"

record sdk_tool =
  st_name :: string
  st_description :: string
  st_input_schema :: "(string \<times> json) list"
  st_annotations :: "tool_annotations option"

definition to_sdk_tool :: "tool_definition \<Rightarrow> rift_build_access \<Rightarrow> sdk_tool" where
  "to_sdk_tool d rift_build =
     \<lparr>st_name = td_name d, st_description = td_description d,
      st_input_schema = (case as_object (td_input_schema d) of Some m \<Rightarrow> m | None \<Rightarrow> []),
      st_annotations = annotations (td_name d) rift_build\<rparr>"

definition server_tools :: "bool \<Rightarrow> ('d, 't) execution_context \<Rightarrow> sdk_tool list" where
  "server_tools windows ctx =
     map (\<lambda>d. to_sdk_tool d (xc_rift_build ctx))
       (get_tool_definitions_for_runtime windows (xc_mode ctx) (xc_rift_build ctx)
          (xc_dmdoc_helper ctx \<noteq> None) (xc_debugger ctx \<noteq> None) (xc_tracy ctx \<noteq> None))"

section \<open>Names of the tables\<close>

text \<open>The three tables of names are arrangements of one another.\<close>

lemma same_names: "set tool_names = set contract_names"
  by code_simp

lemma dispatched_names: "set dispatched_tools = set contract_names"
  by code_simp

lemma grouped_contracts:
  "list_all (\<lambda>c. tc_name c = ''dm_generate_docs'' \<or> prefix ''dm_debug_'' (tc_name c)
      \<or> prefix ''dm_tracy_'' (tc_name c) \<longrightarrow> tc_mode c = Development \<and> tc_name c \<noteq> ''rift_compile'')
    all_contracts"
  by (simp add: all_contracts_def table_defs contract_def)

lemma tool_prefixes_disjoint:
  "list_all (\<lambda>n. \<not> (prefix ''dm_debug_'' n \<and> prefix ''dm_tracy_'' n)
      \<and> \<not> prefix ''dm_debug_'' ''dm_generate_docs'' \<and> \<not> prefix ''dm_tracy_'' ''dm_generate_docs'') tool_names"
  by code_simp

end
