(* ===== verification/Tool_Arguments.thy ===== *)
theory Tool_Arguments
  imports Tool_Gate
begin

text \<open>
  Containment of tool arguments: what \<open>contain_arguments\<close> of \<open>src/tools/mod.rs\<close> has
  established of every path member once it accepts a call, that it changes nothing else, and
  the only arguments on which it panics.
\<close>

section \<open>Safe values\<close>

text \<open>A string member that is the display form of a path with the property \<open>P\<close>.\<close>

definition display_of :: "filesystem \<Rightarrow> (path \<Rightarrow> bool) \<Rightarrow> json \<Rightarrow> bool" where
  "display_of fs P v \<longleftrightarrow> (\<forall>s. v = JStr s \<longrightarrow> (\<exists>p. P p \<and> s = fs_display fs p))"

definition member_ok :: "(json \<Rightarrow> bool) \<Rightarrow> string \<Rightarrow> json \<Rightarrow> bool" where
  "member_ok Q k v \<longleftrightarrow> (\<forall>x. json_get v k = Some x \<longrightarrow> Q x)"

definition elements_ok :: "(json \<Rightarrow> bool) \<Rightarrow> json \<Rightarrow> bool" where
  "elements_ok Q v \<longleftrightarrow> (\<forall>xs. v = JArr xs \<longrightarrow> (\<forall>x \<in> set xs. Q x))"

text \<open>What is promised of the member with a key.\<close>

definition contained_value :: "filesystem \<Rightarrow> path_policy \<Rightarrow> json \<Rightarrow> bool" where
  "contained_value fs pol = display_of fs (contained pol)"

definition safe_request :: "filesystem \<Rightarrow> path_policy \<Rightarrow> json \<Rightarrow> bool" where
  "safe_request fs pol r \<longleftrightarrow>
     member_ok (elements_ok (member_ok (contained_value fs pol) ''path'')) ''artifacts'' r \<and>
     member_ok (contained_value fs pol) ''dmb_path'' r"

definition safe_value :: "filesystem \<Rightarrow> path_policy \<Rightarrow> string \<Rightarrow> json \<Rightarrow> bool" where
  "safe_value fs pol key =
     (if key = ''artifacts'' then elements_ok (member_ok (contained_value fs pol) ''path'')
      else if key = ''runs'' then elements_ok (safe_request fs pol)
      else if key = ''compiler_path'' then display_of fs (\<lambda>p. p \<in> set (pp_executables pol))
      else contained_value fs pol)"

text \<open>The members of each tool's arguments that hold paths.\<close>

definition input_keys :: "string \<Rightarrow> string set" where
  "input_keys name =
     (if name \<in> {''dm_parse_environment'', ''dm_compile''} then {''dme_path''}
      else if name = ''dm_check_fixture_sync'' then {''fixture_manifest_path''}
      else if name = ''dm_native_evidence_summary'' then {''artifacts'', ''dmb_path''}
      else if name = ''dm_native_evidence_compare'' then {''runs''}
      else if name = ''dm_document_symbols'' then {''file_path''}
      else if name = ''dm_dmi_info'' then {''dmi_path''}
      else if name = ''dm_compare_dmi_states'' then {''left_dmi_path'', ''right_dmi_path''}
      else if name \<in> {''dm_find_dmi_duplicates'', ''dm_audit_icons''} then {''scope_path''}
      else if name = ''dm_extract_dmi'' then {''dmi_path''}
      else if name = ''dm_generate_docs'' then {}
      else if name \<in> {''dm_render_map'', ''dm_map_info'', ''dm_find_on_map''} then {''dmm_path''}
      else if name = ''dm_diff_maps'' then {''left_dmm_path'', ''right_dmm_path''}
      else if name \<in> {''dm_run'', ''dm_tracy_prepare'', ''dm_tracy_launch''} then {''dmb_path''}
      else if name = ''dm_debug_launch'' then {''dmb_path''}
      else if name = ''dm_debug_set_breakpoints'' then {''source_path''}
      else if name \<in> {''dm_tracy_hotspots'', ''dm_tracy_zone'', ''dm_tracy_frame_stats''}
        then {''trace_path''}
      else if name = ''dm_tracy_compare'' then {''baseline_path'', ''current_path''}
      else {})"

definition path_keys :: "string \<Rightarrow> string set" where
  "path_keys name = input_keys name
     \<union> (if name = ''dm_compile'' then {''working_directory'', ''fixture_manifest_path'', ''compiler_path''}
        else {})
     \<union> (if name = ''rift_compile'' then {''fixture_manifest_path''} else {})
     \<union> (if name = ''dm_run'' then {''working_directory''} else {})
     \<union> (if name = ''dm_render_map'' then {''output_path''} else {})
     \<union> (if name = ''dm_extract_dmi'' then {''output_path''} else {})
     \<union> (if name = ''dm_generate_docs'' then {''output_directory''} else {})"

text \<open>
  The members of the declared schemas that name files or directories, and those of them that
  \<open>contain_arguments\<close> passes on as they are: their tools authorise them on their own, except the
  filter of \<open>dm_check_errors\<close>, which is only compared with the paths of diagnostics.
\<close>

definition path_members :: "string list" where
  "path_members =
     [''dme_path'', ''dmb_path'', ''dmm_path'', ''dmi_path'', ''file_path'', ''source_path'', ''scope_path'',
      ''left_dmi_path'', ''right_dmi_path'', ''left_dmm_path'', ''right_dmm_path'', ''trace_path'', ''trace_paths'',
      ''baseline_path'', ''current_path'', ''compiler_path'', ''working_directory'', ''fixture_manifest_path'',
      ''output_path'', ''output_directory'', ''experiment_directory'', ''config_directory'', ''files'',
      ''artifacts'', ''runs'']"

definition uncontained_keys :: "string \<Rightarrow> string set" where
  "uncontained_keys name =
     (if name = ''dm_tracy_launch'' then {''experiment_directory'', ''config_directory''}
      else if name = ''dm_tracy_capture'' then {''output_path''}
      else if name = ''dm_tracy_control_stats'' then {''trace_paths''}
      else if name = ''dm_render_maps'' then {''files''}
      else if name = ''dm_check_errors'' then {''file_path''}
      else {})"

definition schema_paths :: "tool_definition \<Rightarrow> string set" where
  "schema_paths d = set (filter (\<lambda>k. k \<in> set path_members) (schema_properties (td_input_schema d)))"

lemma schema_paths_keys:
  "list_all (\<lambda>d. schema_paths d = path_keys (td_name d) \<union> uncontained_keys (td_name d)) get_tool_definitions"
  by code_simp

section \<open>Filters of arguments\<close>

text \<open>
  A filter of arguments with a set of keys makes the members with those keys safe and leaves
  every other member as it was.
\<close>

locale argument_filter =
  fixes safe :: "string \<Rightarrow> json \<Rightarrow> bool"
    and keys :: "string set"
    and run :: "json \<Rightarrow> 'e + json"
  assumes run_safe: "run a = Inr b \<Longrightarrow> k \<in> keys \<Longrightarrow> member_ok (safe k) k b"
    and run_frame: "run a = Inr b \<Longrightarrow> k \<notin> keys \<Longrightarrow> json_get b k = json_get a k"

lemma filter_id: "argument_filter safe {} Inr"
  by unfold_locales auto

lemma filter_then:
  assumes "argument_filter safe A f" "argument_filter safe B g"
  shows "argument_filter safe (A \<union> B) (\<lambda>a. rbind (f a) g)"
proof
  fix a c k
  assume "rbind (f a) g = Inr c"
  then obtain b where b: "f a = Inr b" "g b = Inr c" by (auto simp: rbind_Inr)
  show "member_ok (safe k) k c" if "k \<in> A \<union> B"
  proof (cases "k \<in> B")
    case True
    with b(2) show ?thesis by (rule argument_filter.run_safe[OF assms(2)])
  next
    case False
    with that have "member_ok (safe k) k b" using b(1) argument_filter.run_safe[OF assms(1)] by blast
    with False b(2) show ?thesis using argument_filter.run_frame[OF assms(2)]
      by (simp add: member_ok_def)
  qed
  show "json_get c k = json_get a k" if "k \<notin> A \<union> B"
    using that b argument_filter.run_frame[OF assms(1)] argument_filter.run_frame[OF assms(2)] by auto
qed

lemma filter_if:
  "(c \<Longrightarrow> argument_filter safe A f) \<Longrightarrow> (\<not> c \<Longrightarrow> argument_filter safe B g) \<Longrightarrow>
   argument_filter safe (if c then A else B) (\<lambda>a. if c then f a else g a)"
  by (cases c) auto

text \<open>Every step stores one string member.\<close>

lemma set_member_Inr:
  "set_member a key s = Inr b \<Longrightarrow> json_get b k = (if k = key then Some (JStr s) else json_get a k)"
  by (simp add: set_member_def or_err_Inr json_get_set)

lemma canonical_argument_Inr:
  "canonical_argument fs pol key runtime a = Inr b \<Longrightarrow>
   member_ok (contained_value fs pol) key b \<and> (\<forall>k. k \<noteq> key \<longrightarrow> json_get b k = json_get a k)"
proof (cases "get_str a key")
  case None
  assume "canonical_argument fs pol key runtime a = Inr b"
  with None have "a = b" by (simp add: canonical_argument_def)
  moreover have "json_get a key \<noteq> Some (JStr s)" for s
    using None get_str_Some[of a key s] by simp
  ultimately show ?thesis by (auto simp: member_ok_def contained_value_def display_of_def)
next
  case (Some s)
  assume "canonical_argument fs pol key runtime a = Inr b"
  with Some obtain p where "read_path fs pol (fs_from_str fs s) = Inr p"
    "set_member a key (fs_display fs p) = Inr b"
    by (auto simp: canonical_argument_def result_Inr runtime_dmb_def split: if_splits)
  then show ?thesis
    using reading.decide_granted[of fs pol]
    by (auto simp: member_ok_def contained_value_def display_of_def set_member_Inr)
qed

lemma filter_canonical:
  "safe key = contained_value fs pol \<Longrightarrow>
   argument_filter safe {key} (canonical_argument fs pol key runtime)"
  by unfold_locales (use canonical_argument_Inr in \<open>fastforce+\<close>)

lemma filter_output:
  assumes "safe key = contained_value fs pol"
  shows "argument_filter safe {key} (contain_output fs pol key)"
proof
  fix a b k
  assume run: "contain_output fs pol key a = Inr b"
  have *: "member_ok (contained_value fs pol) key b \<and> (k \<noteq> key \<longrightarrow> json_get b k = json_get a k)"
  proof (cases "get_str a key")
    case None
    with run have "a = b" by (simp add: contain_output_def)
    moreover have "json_get a key \<noteq> Some (JStr s)" for s
      using None get_str_Some[of a key s] by simp
    ultimately show ?thesis by (auto simp: member_ok_def contained_value_def display_of_def)
  next
    case (Some s)
    with run obtain p where "output_path fs pol (fs_from_str fs s) (overwrite_flag a) = Inr p"
      "set_member a key (fs_display fs p) = Inr b"
      by (auto simp: contain_output_def result_Inr)
    then show ?thesis
      using writing.decide_granted[of fs pol "(fs_from_str fs s, overwrite_flag a)" p]
      by (auto simp: member_ok_def contained_value_def display_of_def set_member_Inr)
  qed
  then show "k \<in> {key} \<Longrightarrow> member_ok (safe k) k b" "k \<notin> {key} \<Longrightarrow> json_get b k = json_get a k"
    using assms by auto
qed

lemma filter_render_output:
  assumes "safe ''output_path'' = contained_value fs pol"
  shows "argument_filter safe {''output_path''} (contain_render_output fs pol)"
proof
  fix a b k
  assume "contain_render_output fs pol a = Inr b"
  then obtain input p where "output_path fs pol input (overwrite_flag a) = Inr p"
    "set_member a ''output_path'' (fs_display fs p) = Inr b"
    by (auto simp: contain_render_output_def result_Inr)
  then show "k \<in> {''output_path''} \<Longrightarrow> member_ok (safe k) k b"
      "k \<notin> {''output_path''} \<Longrightarrow> json_get b k = json_get a k"
    using assms writing.decide_granted[of fs pol "(input, overwrite_flag a)" p]
    by (auto simp: member_ok_def contained_value_def display_of_def set_member_Inr)
qed

lemma filter_compiler:
  assumes "safe ''compiler_path'' = display_of fs (\<lambda>p. p \<in> set (pp_executables pol))"
  shows "argument_filter safe {''compiler_path''} (contain_compiler fs pol)"
proof
  fix a b k
  assume run: "contain_compiler fs pol a = Inr b"
  have "member_ok (safe ''compiler_path'') ''compiler_path'' b \<and>
      (k \<noteq> ''compiler_path'' \<longrightarrow> json_get b k = json_get a k)"
  proof (cases "get_str a ''compiler_path''")
    case None
    with run have "a = b" by (simp add: contain_compiler_def)
    moreover have "json_get a ''compiler_path'' \<noteq> Some (JStr s)" for s
      using None get_str_Some[of a "''compiler_path''" s] by simp
    ultimately show ?thesis by (auto simp: member_ok_def assms display_of_def)
  next
    case (Some s)
    with run obtain p where "executable fs pol (fs_from_str fs s) = Inr p"
      "set_member a ''compiler_path'' (fs_display fs p) = Inr b"
      by (auto simp: contain_compiler_def result_Inr)
    then show ?thesis
      using executing.decide_granted[of fs pol]
      by (auto simp: member_ok_def assms display_of_def set_member_Inr)
  qed
  then show "k \<in> {''compiler_path''} \<Longrightarrow> member_ok (safe k) k b"
    "k \<notin> {''compiler_path''} \<Longrightarrow> json_get b k = json_get a k" by auto
qed

lemma filter_over_array:
  assumes "\<And>a b. f a = Inr b \<Longrightarrow> Q b" "safe key = elements_ok Q"
  shows "argument_filter safe {key} (over_array key f)"
proof
  fix a b k
  assume run: "over_array key f a = Inr b"
  have "member_ok (safe key) key b \<and> (k \<noteq> key \<longrightarrow> json_get b k = json_get a k)"
  proof (cases "Option.bind (json_get a key) as_array")
    case None
    with run have "a = b" by (simp add: over_array_def)
    with None show ?thesis by (auto simp: member_ok_def assms(2) elements_ok_def)
  next
    case (Some xs)
    with run obtain ys where "rmap f xs = Inr ys" "json_set a key (JArr ys) = Some b"
      by (auto simp: over_array_def result_Inr)
    moreover from this(1) have "\<forall>y \<in> set ys. Q y" by (auto dest!: rmap_Inr_set assms(1))
    ultimately show ?thesis
      by (auto simp: member_ok_def assms(2) elements_ok_def json_get_set)
  qed
  then show "k \<in> {key} \<Longrightarrow> member_ok (safe k) k b"
    "k \<notin> {key} \<Longrightarrow> json_get b k = json_get a k" by auto
qed

lemma filter_evidence:
  assumes "safe ''artifacts'' = elements_ok (member_ok (contained_value fs pol) ''path'')"
    "safe ''dmb_path'' = contained_value fs pol"
  shows "argument_filter safe {''artifacts'', ''dmb_path''} (contain_evidence_request fs pol)"
proof -
  have "argument_filter safe {''artifacts''}
      (over_array ''artifacts'' (canonical_argument fs pol ''path'' False))"
    by (rule filter_over_array[where Q = "member_ok (contained_value fs pol) ''path''"])
      (simp_all add: assms(1) canonical_argument_Inr[THEN conjunct1])
  moreover have "argument_filter safe {''dmb_path''} (canonical_optional_argument fs pol ''dmb_path'')"
    unfolding canonical_optional_argument_def by (rule filter_canonical) (rule assms(2))
  ultimately have "argument_filter safe ({''artifacts''} \<union> {''dmb_path''})
     (\<lambda>a. rbind (over_array ''artifacts'' (canonical_argument fs pol ''path'' False) a)
        (canonical_optional_argument fs pol ''dmb_path''))"
    by (rule filter_then)
  then show ?thesis
    unfolding contain_evidence_request_def by (simp only: insert_is_Un[symmetric])
qed

lemma safe_value_simps [simp]:
  "safe_value fs pol ''artifacts'' = elements_ok (member_ok (contained_value fs pol) ''path'')"
  "safe_value fs pol ''runs'' = elements_ok (safe_request fs pol)"
  "safe_value fs pol ''compiler_path'' = display_of fs (\<lambda>p. p \<in> set (pp_executables pol))"
  by (simp_all add: safe_value_def)

lemma safe_value_path:
  "key \<notin> {''artifacts'', ''runs'', ''compiler_path''} \<Longrightarrow> safe_value fs pol key = contained_value fs pol"
  by (simp add: safe_value_def)

lemma evidence_safe: "contain_evidence_request fs pol a = Inr b \<Longrightarrow> safe_request fs pol b"
proof -
  assume run: "contain_evidence_request fs pol a = Inr b"
  have "argument_filter (safe_value fs pol) {''artifacts'', ''dmb_path''} (contain_evidence_request fs pol)"
    by (rule filter_evidence) (simp_all add: safe_value_path)
  from argument_filter.run_safe[OF this run, of "''artifacts''"]
    argument_filter.run_safe[OF this run, of "''dmb_path''"]
  show ?thesis by (simp add: safe_request_def safe_value_path)
qed

text \<open>
  The scope argument is optional; without it the tool's arguments are left alone, so the
  guard on its presence can be dropped.
\<close>

lemma canonical_absent: "json_get a key = None \<Longrightarrow> canonical_argument fs pol key runtime a = Inr a"
  by (simp add: canonical_argument_def get_str_def)

abbreviation single :: "filesystem \<Rightarrow> path_policy \<Rightarrow> string \<Rightarrow> json \<Rightarrow> refusal + json" where
  "single fs pol key \<equiv> canonical_argument fs pol key False"

lemma filter_single:
  "key \<notin> {''artifacts'', ''runs'', ''compiler_path''} \<Longrightarrow>
   argument_filter (safe_value fs pol) {key} (canonical_argument fs pol key runtime)"
  by (rule filter_canonical) (rule safe_value_path)

lemma filter_two:
  assumes "a \<notin> {''artifacts'', ''runs'', ''compiler_path''}" "b \<notin> {''artifacts'', ''runs'', ''compiler_path''}"
  shows "argument_filter (safe_value fs pol) {a, b} (\<lambda>x. rbind (single fs pol a x) (single fs pol b))"
  unfolding insert_is_Un[of a "{b}"]
  by (rule filter_then[OF filter_single[OF assms(1)] filter_single[OF assms(2)]])

lemma filter_runs:
  "argument_filter (safe_value fs pol) {''runs''} (over_array ''runs'' (contain_evidence_request fs pol))"
  using evidence_safe by (intro filter_over_array) auto

lemma filter_request:
  "argument_filter (safe_value fs pol) {''artifacts'', ''dmb_path''} (contain_evidence_request fs pol)"
  by (rule filter_evidence) (simp_all add: safe_value_path)

lemma contain_inputs_scope:
  assumes "name \<in> {''dm_find_dmi_duplicates'', ''dm_audit_icons''}"
  shows "contain_inputs fs pol name a = single fs pol ''scope_path'' a"
    and "input_keys name = {''scope_path''}"
proof -
  have "contain_inputs fs pol name a =
      (if json_get a ''scope_path'' \<noteq> None then single fs pol ''scope_path'' a else Inr a)"
    using assms by (elim insertE emptyE) (simp_all add: contain_inputs_def Let_def)
  then show "contain_inputs fs pol name a = single fs pol ''scope_path'' a"
    by (simp add: canonical_absent)
  show "input_keys name = {''scope_path''}"
    using assms by (elim insertE emptyE) (simp_all add: input_keys_def)
qed

text \<open>Outside that arm, \<open>contain_inputs\<close> is a chain of alternatives on the name.\<close>

lemma contain_inputs_other:
  assumes "name \<notin> {''dm_find_dmi_duplicates'', ''dm_audit_icons''}"
  shows "argument_filter (safe_value fs pol) (input_keys name) (contain_inputs fs pol name)"
proof -
  have drop: "(False \<and> P) = False" for P by simp
  have drop': "(name \<in> {''dm_find_dmi_duplicates'', ''dm_audit_icons''}) = False"
    using assms by blast
  show ?thesis
    unfolding contain_inputs_def[abs_def] input_keys_def Let_def drop drop' if_False
    by (intro filter_if filter_single filter_two filter_runs filter_request filter_id; simp)
qed


lemma contain_inputs_filter:
  "argument_filter (safe_value fs pol) (input_keys name) (contain_inputs fs pol name)"
proof (cases "name \<in> {''dm_find_dmi_duplicates'', ''dm_audit_icons''}")
  case True
  have "contain_inputs fs pol name = single fs pol ''scope_path''"
    using contain_inputs_scope(1)[OF True] by (rule ext)
  then show ?thesis
    using contain_inputs_scope(2)[OF True] filter_single[of "''scope_path''" fs pol False] by simp
next
  case False
  then show ?thesis by (rule contain_inputs_other)
qed

lemma filter_optional:
  "key \<notin> {''artifacts'', ''runs'', ''compiler_path''} \<Longrightarrow>
   argument_filter (safe_value fs pol) {key} (canonical_optional_argument fs pol key)"
  unfolding canonical_optional_argument_def by (rule filter_single)

lemma compile_filter:
  "argument_filter (safe_value fs pol)
     ({''working_directory''} \<union> ({''fixture_manifest_path''} \<union> {''compiler_path''}))
     (\<lambda>a. rbind (canonical_optional_argument fs pol ''working_directory'' a)
        (\<lambda>a. rbind (canonical_optional_argument fs pol ''fixture_manifest_path'' a)
           (contain_compiler fs pol)))"
  by (intro filter_then filter_optional filter_compiler) simp_all

interpretation contain: argument_filter "safe_value fs pol" "path_keys name"
    "contain_arguments fs pol name" for fs pol name
  unfolding path_keys_def contain_arguments_def[abs_def] Un_assoc
    insert_is_Un[of "''working_directory''" "{''fixture_manifest_path''} \<union> {''compiler_path''}"]
    insert_is_Un[of "''fixture_manifest_path''" "{''compiler_path''}"]
  by (intro compile_filter filter_then filter_if contain_inputs_filter filter_optional
      filter_render_output filter_output filter_id; simp add: safe_value_path)

section \<open>Panics\<close>

lemma get_str_index: "as_str (json_index v k) = get_str v k"
  by (simp add: json_index_def get_str_def split: option.split)

lemma set_member_calm: "json_get a k = Some v \<Longrightarrow> set_member a key s \<noteq> Inl Panicked"
  by (cases a) (auto simp: set_member_def or_err_def)

lemma get_str_present: "get_str a k = Some s \<Longrightarrow> json_get a k = Some (JStr s)"
  by (simp add: get_str_Some)

lemma denied_not_panicked: "map_err Denied m \<noteq> Inl Panicked"
  by (cases m) (simp_all add: map_err_def)

lemma canonical_calm: "canonical_argument fs pol key runtime a \<noteq> Inl Panicked"
  by (cases "get_str a key")
    (auto simp: canonical_argument_def rbind_Inl denied_not_panicked set_member_calm dest!: get_str_present)

lemma optional_calm: "canonical_optional_argument fs pol key a \<noteq> Inl Panicked"
  by (simp add: canonical_optional_argument_def canonical_calm)

lemma output_calm: "contain_output fs pol key a \<noteq> Inl Panicked"
  by (cases "get_str a key")
    (auto simp: contain_output_def rbind_Inl denied_not_panicked set_member_calm dest!: get_str_present)

lemma compiler_calm: "contain_compiler fs pol a \<noteq> Inl Panicked"
  by (cases "get_str a ''compiler_path''")
    (auto simp: contain_compiler_def rbind_Inl denied_not_panicked set_member_calm dest!: get_str_present)

lemma rmap_calm: "(\<And>x. f x \<noteq> Inl e) \<Longrightarrow> rmap f xs \<noteq> Inl e"
  by (induction xs) (auto simp: rbind_Inl)

lemma over_array_calm:
  assumes "\<And>x. f x \<noteq> Inl Panicked"
  shows "over_array key f a \<noteq> Inl Panicked"
proof (cases "Option.bind (json_get a key) as_array")
  case None
  then show ?thesis by (simp add: over_array_def)
next
  case (Some xs)
  then obtain v where "json_get a key = Some v" by (cases "json_get a key") auto
  then have set: "json_set a key (JArr ys) \<noteq> None" for ys using json_set_present by fastforce
  with Some rmap_calm[of f Panicked xs, OF assms] show ?thesis
    by (cases "rmap f xs") (auto simp: over_array_def or_err_def set split: option.split)
qed

lemma rbind_calm: "m \<noteq> Inl e \<Longrightarrow> (\<And>x. f x \<noteq> Inl e) \<Longrightarrow> rbind m f \<noteq> Inl e"
  by (auto simp: rbind_Inl)

lemma if_calm: "(c \<Longrightarrow> x \<noteq> e) \<Longrightarrow> (\<not> c \<Longrightarrow> y \<noteq> e) \<Longrightarrow> (if c then x else y) \<noteq> e"
  by simp

lemma Inr_calm: "Inr x \<noteq> Inl e"
  by simp

lemma evidence_calm: "contain_evidence_request fs pol a \<noteq> Inl Panicked"
  unfolding contain_evidence_request_def
  by (intro rbind_calm over_array_calm canonical_calm optional_calm)

lemma inputs_calm: "contain_inputs fs pol name a \<noteq> Inl Panicked"
  unfolding contain_inputs_def Let_def
  by (intro if_calm canonical_calm rbind_calm over_array_calm evidence_calm Inr_calm)

lemma render_output_panics:
  "contain_render_output fs pol a = Inl Panicked \<longleftrightarrow>
     get_str a ''output_path'' = None \<and> get_str a ''dmm_path'' = None"
proof -
  have "set_member a ''output_path'' s \<noteq> Inl Panicked"
    if "get_str a ''output_path'' \<noteq> None \<or> get_str a ''dmm_path'' \<noteq> None" for s
  proof -
    from that obtain k t where "get_str a k = Some t" by blast
    then show ?thesis using set_member_calm get_str_present by blast
  qed
  then show ?thesis
    by (cases "get_str a ''output_path''"; cases "get_str a ''dmm_path''")
      (auto simp: contain_render_output_def get_str_index rbind_Inl denied_not_panicked or_err_def)
qed

lemma canonical_keeps_absent:
  assumes "canonical_argument fs pol key runtime a = Inr b"
  shows "get_str b key = None \<longleftrightarrow> get_str a key = None"
  using assms
  by (cases "get_str a key") (auto simp: canonical_argument_def result_Inr get_str_def
      dest!: set_member_Inr[where k = key])

lemma contain_inputs_render: "contain_inputs fs pol ''dm_render_map'' a = single fs pol ''dmm_path'' a"
  by (simp add: contain_inputs_def Let_def)

lemma contain_arguments_calm:
  assumes "name \<noteq> ''dm_render_map''"
  shows "contain_arguments fs pol name a \<noteq> Inl Panicked"
  unfolding contain_arguments_def
  using assms by (intro if_calm rbind_calm inputs_calm optional_calm compiler_calm output_calm Inr_calm) blast+

section \<open>Properties\<close>

lemma uncontained_not_contained: "k \<in> uncontained_keys name \<Longrightarrow> k \<notin> path_keys name"
  by (auto simp: uncontained_keys_def path_keys_def input_keys_def split: if_splits)

lemma declared_paths:
  "d \<in> set get_tool_definitions \<Longrightarrow> schema_paths d = path_keys (td_name d) \<union> uncontained_keys (td_name d)"
  using schema_paths_keys by (auto simp: list_all_iff)

text \<open>
  C8. Once \<open>contain_arguments\<close> accepts a call, each member in \<open>path_keys\<close> of the tool that is a
  string is the display form of a path under a workspace root (of an allowlisted executable, for
  the compiler), also inside evidence requests; and no other member was touched.  These are all
  the file and directory members the tools' schemas declare, except the ones that pass unchanged:
  the experiment and configuration directories of \<open>dm_tracy_launch\<close>, the output of
  \<open>dm_tracy_capture\<close>, the traces of \<open>dm_tracy_control_stats\<close>, the files of \<open>dm_render_maps\<close> and the
  filter of \<open>dm_check_errors\<close>.
\<close>

theorem accepted_arguments_are_contained:
  assumes "contain_arguments fs pol name args = Inr args'"
  shows "(\<forall>k \<in> path_keys name - {''artifacts'', ''runs'', ''compiler_path''}. \<forall>s.
            get_str args' k = Some s \<longrightarrow>
              (\<exists>p. (\<exists>root \<in> set (pp_roots pol). path_starts_with p root) \<and> s = fs_display fs p))
    \<and> (''compiler_path'' \<in> path_keys name \<longrightarrow>
         (\<forall>s. get_str args' ''compiler_path'' = Some s \<longrightarrow>
              (\<exists>p \<in> set (pp_executables pol). s = fs_display fs p)))
    \<and> (\<forall>k \<in> path_keys name. member_ok (safe_value fs pol k) k args')
    \<and> (\<forall>k. k \<notin> path_keys name \<longrightarrow> json_get args' k = json_get args k)
    \<and> (\<forall>d \<in> set get_tool_definitions. td_name d = name \<longrightarrow>
         schema_paths d = path_keys name \<union> uncontained_keys name)
    \<and> (\<forall>k \<in> uncontained_keys name. json_get args' k = json_get args k)"
proof -
  have safe: "member_ok (safe_value fs pol k) k args'" if "k \<in> path_keys name" for k
    using assms that by (rule contain.run_safe)
  have "\<exists>p. (\<exists>root \<in> set (pp_roots pol). path_starts_with p root) \<and> s = fs_display fs p"
    if "k \<in> path_keys name - {''artifacts'', ''runs'', ''compiler_path''}" "get_str args' k = Some s" for k s
  proof -
    have "member_ok (contained_value fs pol) k args'" using safe that by (metis DiffD1 DiffD2 safe_value_path)
    then show ?thesis using that(2)
      by (auto simp: member_ok_def contained_value_def display_of_def contained_def get_str_Some)
  qed
  moreover have "\<exists>p \<in> set (pp_executables pol). s = fs_display fs p"
    if "''compiler_path'' \<in> path_keys name" "get_str args' ''compiler_path'' = Some s" for s
    using safe[OF that(1)] that(2) by (auto simp: member_ok_def display_of_def get_str_Some)
  ultimately show ?thesis
    using safe contain.run_frame[OF assms] declared_paths uncontained_not_contained by blast
qed

text \<open>
  C9. Containing arguments panics for exactly one kind of call: \<open>dm_render_map\<close> with neither
  an output path nor a map path that is a string.
\<close>

theorem contain_arguments_panics:
  "contain_arguments fs pol name args = Inl Panicked \<longleftrightarrow>
     name = ''dm_render_map'' \<and> get_str args ''output_path'' = None \<and> get_str args ''dmm_path'' = None"
proof (cases "name = ''dm_render_map''")
  case False
  then show ?thesis using contain_arguments_calm by blast
next
  case True
  have eq: "contain_arguments fs pol name args =
      rbind (single fs pol ''dmm_path'' args) (contain_render_output fs pol)"
    unfolding contain_arguments_def True by (simp add: contain_inputs_render)
  show ?thesis
  proof (cases "single fs pol ''dmm_path'' args")
    case (Inl e)
    then have "get_str args ''dmm_path'' \<noteq> None"
      by (cases "get_str args ''dmm_path''") (simp_all add: canonical_argument_def)
    moreover have "e \<noteq> Panicked" using Inl canonical_calm by metis
    ultimately show ?thesis unfolding eq by (simp add: Inl)
  next
    case (Inr b)
    have "get_str b ''output_path'' = get_str args ''output_path''"
      using canonical_argument_Inr[OF Inr] by (simp add: get_str_def)
    with canonical_keeps_absent[OF Inr] show ?thesis
      unfolding eq by (simp add: Inr render_output_panics True conj_commute)
  qed
qed

text \<open>
  A call of \<open>dm_compile\<close> under the demonstration policy, on a file system whose display form of
  a path is its last name.
\<close>

definition name_fs :: filesystem where
  "name_fs = linked_fs\<lparr>fs_from_str := demo_path,
     fs_display := (\<lambda>p. case file_name p of Some s \<Rightarrow> s | None \<Rightarrow> [])\<rparr>"

definition demo_args :: json where
  "demo_args = JObj [(''compiler_path'', JStr ''dm''), (''dme_path'', JStr ''l''), (''x'', JNull)]"

lemma demo_contained: "contain_arguments name_fs demo_policy ''dm_compile'' demo_args
   = Inr (JObj [(''compiler_path'', JStr ''dm''), (''dme_path'', JStr ''b''), (''x'', JNull)])"
  by code_simp

theorem accepted_arguments_are_contained_witness:
  "(\<exists>p. (\<exists>root \<in> set (pp_roots demo_policy). path_starts_with p root) \<and> ''b'' = fs_display name_fs p)
   \<and> (\<exists>p \<in> set (pp_executables demo_policy). ''dm'' = fs_display name_fs p)"
proof -
  let ?args = "JObj [(''compiler_path'', JStr ''dm''), (''dme_path'', JStr ''b''), (''x'', JNull)]"
  have keys: "''dme_path'' \<in> path_keys ''dm_compile'' - {''artifacts'', ''runs'', ''compiler_path''}"
      "''compiler_path'' \<in> path_keys ''dm_compile''"
    by (simp_all add: path_keys_def input_keys_def)
  have strings: "get_str ?args ''dme_path'' = Some ''b''" "get_str ?args ''compiler_path'' = Some ''dm''"
    by (simp_all add: get_str_def)
  note p = accepted_arguments_are_contained[OF demo_contained]
  show ?thesis
    using bspec[OF p[THEN conjunct1] keys(1), rule_format, OF strings(1)]
      p[THEN conjunct2, THEN conjunct1, rule_format, OF keys(2) strings(2)] by blast
qed

end
