(* ===== verification/Tool_Gate_Props.thy ===== *)
theory Tool_Gate_Props
  imports Tool_Gate
begin

text \<open>
  Properties of the tool gate: the server dispatches exactly the tools it advertises, path
  arguments are contained once \<open>contain_arguments\<close> has accepted them, and the one call that
  panics.
\<close>

section \<open>Advertised and available\<close>

definition available :: "bool \<Rightarrow> ('d, 't) execution_context \<Rightarrow> string \<Rightarrow> bool" where
  "available windows ctx name \<longleftrightarrow>
     (\<exists>c \<in> set (contracts_for_configuration windows (xc_mode ctx) (xc_rift_build ctx)). tc_name c = name)"

definition grouped :: "string \<Rightarrow> bool" where
  "grouped n \<longleftrightarrow> n = ''dm_generate_docs'' \<or> prefix ''dm_debug_'' n \<or> prefix ''dm_tracy_'' n"

lemma names_of_filter: "map td_name (filter (\<lambda>d. P (td_name d)) get_tool_definitions) = filter P tool_names"
  unfolding tool_names[symmetric] filter_map by (simp add: o_def)

lemma docs_in_tool_names: "''dm_generate_docs'' \<in> set tool_names"
  by (simp add: tool_names_def)

lemma find_docs:
  obtains d where "find (\<lambda>d. td_name d = ''dm_generate_docs'') get_tool_definitions = Some d"
    "td_name d = ''dm_generate_docs''"
proof -
  have "\<exists>d \<in> set get_tool_definitions. td_name d = ''dm_generate_docs''"
    using docs_in_tool_names unfolding tool_names[symmetric] by auto
  then have "find (\<lambda>d. td_name d = ''dm_generate_docs'') get_tool_definitions \<noteq> None"
    by (auto simp: find_None_iff)
  then show thesis using that by (auto simp: find_Some_iff)
qed

lemma advertised_names:
  "advertised windows ctx =
     filter (\<lambda>n. n \<noteq> ''dm_generate_docs'' \<and> available windows ctx n
               \<and> \<not> prefix ''dm_debug_'' n \<and> \<not> prefix ''dm_tracy_'' n) tool_names
     @ (if xc_dmdoc_helper ctx \<noteq> None \<and> xc_mode ctx = Development then [''dm_generate_docs''] else [])
     @ (if xc_debugger ctx \<noteq> None \<and> xc_mode ctx = Development
        then filter (prefix ''dm_debug_'') tool_names else [])
     @ (if xc_tracy ctx \<noteq> None \<and> xc_mode ctx = Development
        then filter (prefix ''dm_tracy_'') tool_names else [])"
proof -
  obtain d where d: "find (\<lambda>d. td_name d = ''dm_generate_docs'') get_tool_definitions = Some d"
    "td_name d = ''dm_generate_docs''" by (rule find_docs)
  have a: "n \<in> set (map tc_name (contracts_for_configuration windows (xc_mode ctx) (xc_rift_build ctx)))
      \<longleftrightarrow> available windows ctx n" for n
    by (auto simp: available_def image_iff)
  show ?thesis
    unfolding advertised_def get_tool_definitions_for_runtime_def get_tool_definitions_for_def Let_def
      a filter_filter d(1)
    using names_of_filter[of "\<lambda>n. \<not> prefix ''dm_tracy_'' n \<and> \<not> prefix ''dm_debug_'' n \<and>
        n \<noteq> ''dm_generate_docs'' \<and> available windows ctx n"]
      names_of_filter[of "prefix ''dm_debug_''"] names_of_filter[of "prefix ''dm_tracy_''"]
    by (simp add: d(2) conj_ac cong: conj_cong)
qed

lemma contract_in_names:
  "n \<in> set tool_names \<longleftrightarrow> (\<exists>c \<in> set all_contracts. tc_name c = n)"
  unfolding same_names contract_names[symmetric] by (auto simp: image_iff)

lemma available_grouped:
  assumes "grouped n"
  shows "available windows ctx n \<longleftrightarrow> xc_mode ctx = Development \<and> n \<in> set tool_names"
proof
  assume "available windows ctx n"
  then obtain c where "c \<in> set (contracts_for_configuration windows (xc_mode ctx) (xc_rift_build ctx))"
    "tc_name c = n" by (auto simp: available_def)
  with assms grouped_contracts show "xc_mode ctx = Development \<and> n \<in> set tool_names"
    by (auto simp: selected_contracts list_all_iff grouped_def contract_in_names)
next
  assume dev: "xc_mode ctx = Development \<and> n \<in> set tool_names"
  then obtain c where c: "c \<in> set all_contracts" "tc_name c = n" by (auto simp: contract_in_names)
  with assms grouped_contracts have "n \<noteq> ''rift_compile''"
    by (auto simp: list_all_iff grouped_def)
  with c dev show "available windows ctx n"
    by (auto simp: available_def selected_contracts intro!: bexI[of _ c])
qed

lemma available_in_names: "available windows ctx n \<Longrightarrow> n \<in> set tool_names"
  by (auto simp: available_def selected_contracts contract_in_names)

lemma available_rift: "available windows ctx ''rift_compile'' \<Longrightarrow> windows"
  by (auto simp: available_def selected_contracts)

lemma advertised_iff:
  "n \<in> set (advertised windows ctx) \<longleftrightarrow>
     available windows ctx n
     \<and> (n = ''dm_generate_docs'' \<longrightarrow> xc_dmdoc_helper ctx \<noteq> None)
     \<and> (prefix ''dm_debug_'' n \<longrightarrow> xc_debugger ctx \<noteq> None)
     \<and> (prefix ''dm_tracy_'' n \<longrightarrow> xc_tracy ctx \<noteq> None)"
proof (cases "grouped n")
  case True
  have "list_all (\<lambda>n. \<not> (prefix ''dm_debug_'' n \<and> prefix ''dm_tracy_'' n)) tool_names"
    using tool_prefixes_disjoint by (simp add: list_all_iff)
  moreover have "\<not> prefix ''dm_debug_'' ''dm_generate_docs''" "\<not> prefix ''dm_tracy_'' ''dm_generate_docs''"
    by simp_all
  ultimately show ?thesis
    unfolding advertised_names available_grouped[OF True]
    using True docs_in_tool_names by (auto simp: grouped_def list_all_iff)
next
  case False
  then show ?thesis
    unfolding advertised_names using available_in_names[of windows ctx n]
    by (auto simp: grouped_def)
qed

lemma gate_refusal_None:
  "gate_refusal fs os ctx name = None \<longleftrightarrow> name \<in> set (advertised (os = ''windows'') ctx)"
proof -
  have "gate_refusal fs os ctx name = None \<longleftrightarrow>
      \<not> (name = ''rift_compile'' \<and> os \<noteq> ''windows'')
      \<and> \<not> (name = ''dm_generate_docs'' \<and> xc_dmdoc_helper ctx = None)
      \<and> \<not> (prefix ''dm_debug_'' name \<and> xc_debugger ctx = None)
      \<and> \<not> (prefix ''dm_tracy_'' name \<and> xc_tracy ctx = None)
      \<and> available (os = ''windows'') ctx name"
    unfolding gate_refusal_def if_Some_None available_def by (simp only: simp_thms)
  moreover have "available (os = ''windows'') ctx name \<Longrightarrow> \<not> (name = ''rift_compile'' \<and> os \<noteq> ''windows'')"
    using available_rift by metis
  ultimately show ?thesis unfolding advertised_iff by argo
qed

lemma advertised_distinct: "distinct (advertised windows ctx)"
proof -
  have "list_all (\<lambda>n. \<not> (prefix ''dm_debug_'' n \<and> prefix ''dm_tracy_'' n)) tool_names"
    using tool_prefixes_disjoint by (simp add: list_all_iff)
  moreover have "\<not> prefix ''dm_debug_'' ''dm_generate_docs''" "\<not> prefix ''dm_tracy_'' ''dm_generate_docs''"
    by simp_all
  ultimately show ?thesis
    unfolding advertised_names using tool_names_distinct by (auto simp: list_all_iff)
qed

section \<open>Properties of the gate\<close>

text \<open>
  C7. The server dispatches exactly the tools it advertises: a call passes the gate's checks
  iff \<open>tools/list\<close> names the tool, an unadvertised tool is refused whatever its arguments, an
  advertised one never falls through to the unknown-tool branch, and no tool is listed twice.
\<close>

theorem dispatch_follows_advertisement:
  "(gate_refusal fs os ctx name = None \<longleftrightarrow> name \<in> set (advertised (os = ''windows'') ctx))
   \<and> (name \<notin> set (advertised (os = ''windows'') ctx) \<longleftrightarrow>
        (\<exists>e. gate_refusal fs os ctx name = Some e \<and> (\<forall>args. call_tool fs os ctx name args = Refused e)))
   \<and> (\<forall>args n. call_tool fs os ctx name args \<noteq> UnknownTool n)
   \<and> distinct (advertised (os = ''windows'') ctx)"
proof -
  have "name \<in> set dispatched_tools" if "gate_refusal fs os ctx name = None"
    using that available_in_names[of "os = ''windows''" ctx name]
    unfolding gate_refusal_None advertised_iff dispatched_names same_names[symmetric] by simp
  then have "call_tool fs os ctx name args \<noteq> UnknownTool n" for args n
    by (auto simp: call_tool_def split: option.splits sum.splits refusal.splits)
  moreover have "name \<notin> set (advertised (os = ''windows'') ctx) \<longleftrightarrow>
      (\<exists>e. gate_refusal fs os ctx name = Some e \<and> (\<forall>args. call_tool fs os ctx name args = Refused e))"
    unfolding gate_refusal_None[of fs os ctx name, symmetric] by (auto simp: call_tool_def)
  ultimately show ?thesis using gate_refusal_None advertised_distinct by blast
qed

section \<open>Annotations\<close>

lemma find_contract:
  "c \<in> set all_contracts \<Longrightarrow> find (\<lambda>d. tc_name d = tc_name c) all_contracts = Some c"
  using contract_names_distinct unfolding contract_names[symmetric] by (rule find_key)

lemma annotations_contract:
  assumes "n \<in> set tool_names"
  obtains c where "c \<in> set all_contracts" "tc_name c = n"
    "find (\<lambda>d. tc_name d = n) all_contracts = Some c"
  using assms find_contract by (auto simp: contract_in_names)

lemma served_definitions:
  "d \<in> set (get_tool_definitions_for_runtime windows mode rift dmdoc debugger tracy) \<Longrightarrow>
   d \<in> set get_tool_definitions"
  by (auto simp: get_tool_definitions_for_runtime_def get_tool_definitions_for_def Let_def find_Some_iff
      split: if_splits option.splits)

lemma server_names: "map st_name (server_tools windows ctx) = advertised windows ctx"
  by (simp add: server_tools_def advertised_def to_sdk_tool_def)

lemma analysis_annotations:
  assumes "n \<in> set (advertised windows ctx)" "xc_mode ctx = Analysis"
  shows "annotations n rift = Some \<lparr>ta_read_only = True, ta_destructive = False, ta_open_world = False\<rparr>"
proof -
  from assms obtain c where c: "c \<in> set all_contracts" "tc_name c = n" "tc_mode c = Analysis"
    by (auto simp: advertised_iff available_def selected_contracts)
  then have "harmless (tc_effects c)" using analysis_contracts_harmless
    by (auto simp: list_all_iff)
  then show ?thesis using find_contract[OF c(1)] c(2)
    by (simp add: annotations_def harmless_def Let_def)
qed

text \<open>
  Every tool the server lists has a contract to annotate it from and a schema whose
  required members it declares; and in analysis mode every listed tool is annotated as
  read-only, non-destructive and closed-world.
\<close>

lemma listed_tools_are_annotated:
  assumes "t \<in> set (server_tools windows ctx)"
  shows "st_annotations t \<noteq> None
    \<and> (xc_mode ctx = Analysis \<longrightarrow>
         st_annotations t = Some \<lparr>ta_read_only = True, ta_destructive = False, ta_open_world = False\<rparr>)
    \<and> schema_consistent (JObj (st_input_schema t))
    \<and> st_name t \<in> set (advertised windows ctx)"
proof -
  obtain d where d: "d \<in> set (get_tool_definitions_for_runtime windows (xc_mode ctx) (xc_rift_build ctx)
       (xc_dmdoc_helper ctx \<noteq> None) (xc_debugger ctx \<noteq> None) (xc_tracy ctx \<noteq> None))"
    "t = to_sdk_tool d (xc_rift_build ctx)"
    using assms by (auto simp: server_tools_def)
  have ad: "td_name d \<in> set (advertised windows ctx)" using d(1) by (auto simp: advertised_def)
  then have "td_name d \<in> set tool_names"
    unfolding advertised_iff using available_in_names by blast
  then have "annotations (td_name d) (xc_rift_build ctx) \<noteq> None"
    by (elim annotations_contract) (simp add: annotations_def)
  moreover have consistent: "schema_consistent (td_input_schema d)"
    using served_definitions[OF d(1)] schemas_consistent by (auto simp: list_all_iff)
  then have "JObj (st_input_schema t) = td_input_schema d"
    by (cases "td_input_schema d") (auto simp: d(2) to_sdk_tool_def schema_consistent_def)
  ultimately show ?thesis
    using ad analysis_annotations[of "td_name d" windows ctx "xc_rift_build ctx"] consistent
    by (simp add: d(2) to_sdk_tool_def)
qed

definition demo_context :: "(unit, unit) execution_context" where
  "demo_context = \<lparr>xc_mode = Analysis, xc_policy = demo_policy, xc_rift_build = RiftDisabled,
     xc_dmdoc_helper = None, xc_debugger = None, xc_tracy = None\<rparr>"

lemma listed_tools_are_annotated_witness:
  "\<exists>t. t \<in> set (server_tools False demo_context) \<and> st_name t = ''dm_get_type'' \<and>
     st_annotations t = Some \<lparr>ta_read_only = True, ta_destructive = False, ta_open_world = False\<rparr>"
proof -
  have "get_type_contract \<in> set all_contracts"
    unfolding all_contracts_def contracts_1_def get_type_contract_def by simp
  then have "available False demo_context ''dm_get_type''"
    unfolding available_def selected_contracts
    by (intro bexI[of _ get_type_contract])
      (simp_all add: demo_context_def get_type_contract_def contract_def selected_contracts)
  then have "''dm_get_type'' \<in> set (advertised False demo_context)"
    unfolding advertised_iff by simp
  then obtain t where t: "t \<in> set (server_tools False demo_context)" "st_name t = ''dm_get_type''"
    unfolding server_names[symmetric] by auto
  with listed_tools_are_annotated[OF t(1)] show ?thesis by (auto simp: demo_context_def)
qed

end
