(* ===== verification/Tracy_Experiment.thy ===== *)
theory Tracy_Experiment
  imports Json Btree_Groups "HOL-Library.Product_Lexorder"
begin

text \<open>
  The identity of a profiling experiment, from \<open>src/tracy_experiment.rs\<close>: the executable and the
  workload a capture belongs to, the validation of a workload, the binding of the workload drafted
  at launch with that of the first capture, and the check of every later capture against the
  locked identity.  A document is the JSON that serde derives for a structure, its members in the
  order of the fields; the text of a document and SHA-256 are parameters.
\<close>

section \<open>Records\<close>

definition MAX_ANNOTATIONS :: nat where "MAX_ANNOTATIONS = 32"
definition MAX_ANNOTATION_KEY_BYTES :: nat where "MAX_ANNOTATION_KEY_BYTES = 64"
definition MAX_ANNOTATION_VALUE_BYTES :: nat where "MAX_ANNOTATION_VALUE_BYTES = 512"
definition MAX_IDENTITY_VALUE_BYTES :: nat where "MAX_IDENTITY_VALUE_BYTES = 512"
definition MAX_FEATURES :: nat where "MAX_FEATURES = 64"

record helper_identity =
  hi_source_revision :: string
  hi_sha256 :: string
  hi_patch_sha256 :: "string option"

record native_module =
  nm_name :: string
  nm_sha256 :: string

record executable_identity =
  xi_schema :: nat
  xi_executable_id :: string
  xi_repository_revision :: "string option"
  xi_repository_dirty_digest :: string
  xi_dmb_sha256 :: string
  xi_rsc_sha256 :: "string option"
  xi_byond_version :: string
  xi_byond_executable_sha256 :: string
  xi_native_modules :: "native_module list"
  xi_helper_identity :: helper_identity
  xi_hook_identity :: helper_identity
  xi_startup_mode :: string
  xi_launch_parameters_sha256 :: string
  xi_build_record_id :: "string option"

record workload_input =
  wi_map :: "string option"
  wi_seed :: "string option"
  wi_configuration_profile :: "string option"
  wi_feature_set :: "string list"
  wi_scenario :: "string option"
  wi_external_run_id :: "string option"
  wi_annotations :: "(string, string) btree_map"

text \<open>\<open>WorkloadInput::default()\<close>\<close>

definition no_workload :: workload_input where
  "no_workload = \<lparr>wi_map = None, wi_seed = None, wi_configuration_profile = None, wi_feature_set = [],
     wi_scenario = None, wi_external_run_id = None, wi_annotations = []\<rparr>"

text \<open>\<open>WorkloadIdentity\<close> is the identifier followed by the fields of the input.\<close>

record experiment_workload =
  ew_workload_id :: string
  ew_input :: workload_input

record experiment_identity =
  ei_experiment_id :: string
  ei_executable :: executable_identity
  ei_workload :: experiment_workload

datatype experiment_error =
    ValueTooLong string
  | UnsafeValue string
  | TooManyAnnotations
  | InvalidAnnotationKey
  | TooManyFeatures
  | DuplicateFeature
  | WorkloadConflict
  | Serialize string

record experiment_host =
  xh_to_vec :: "json \<Rightarrow> string + string"
  xh_sha256 :: "string \<Rightarrow> string"
  xh_is_absolute :: "string \<Rightarrow> bool"

section \<open>Documents\<close>

text \<open>\<open>skip_serializing_if = "Option::is_none"\<close>\<close>

definition optional_member :: "string \<Rightarrow> string option \<Rightarrow> (string \<times> json) list" where
  "optional_member name x = (case x of None \<Rightarrow> [] | Some s \<Rightarrow> [(name, JStr s)])"

definition helper_document :: "helper_identity \<Rightarrow> json" where
  "helper_document i = JObj ([(''source_revision'', JStr (hi_source_revision i)),
     (''sha256'', JStr (hi_sha256 i))] @ optional_member ''patch_sha256'' (hi_patch_sha256 i))"

definition module_document :: "native_module \<Rightarrow> json" where
  "module_document m = JObj [(''name'', JStr (nm_name m)), (''sha256'', JStr (nm_sha256 m))]"

definition executable_document :: "executable_identity \<Rightarrow> json" where
  "executable_document i = JObj ([(''schema'', JNum (PosInt (of_nat (xi_schema i)))),
     (''executable_id'', JStr (xi_executable_id i)),
     (''repository_revision'', json_opt_str (xi_repository_revision i)),
     (''repository_dirty_digest'', JStr (xi_repository_dirty_digest i)),
     (''dmb_sha256'', JStr (xi_dmb_sha256 i)),
     (''rsc_sha256'', json_opt_str (xi_rsc_sha256 i)),
     (''byond_version'', JStr (xi_byond_version i)),
     (''byond_executable_sha256'', JStr (xi_byond_executable_sha256 i)),
     (''native_modules'', JArr (map module_document (xi_native_modules i))),
     (''helper_identity'', helper_document (xi_helper_identity i)),
     (''hook_identity'', helper_document (xi_hook_identity i)),
     (''startup_mode'', JStr (xi_startup_mode i)),
     (''launch_parameters_sha256'', JStr (xi_launch_parameters_sha256 i))]
     @ optional_member ''build_record_id'' (xi_build_record_id i))"

definition workload_members :: "workload_input \<Rightarrow> (string \<times> json) list" where
  "workload_members i = [(''map'', json_opt_str (wi_map i)), (''seed'', json_opt_str (wi_seed i)),
     (''configuration_profile'', json_opt_str (wi_configuration_profile i)),
     (''feature_set'', JArr (map JStr (wi_feature_set i))),
     (''scenario'', json_opt_str (wi_scenario i)),
     (''external_run_id'', json_opt_str (wi_external_run_id i)),
     (''annotations'', JObj (map (\<lambda>(k, v). (k, JStr v)) (wi_annotations i)))]"

definition workload_document :: "workload_input \<Rightarrow> json" where
  "workload_document i = JObj (workload_members i)"

definition canonical_sha256 :: "experiment_host \<Rightarrow> json \<Rightarrow> experiment_error + string" where
  "canonical_sha256 h document =
     rbind (map_err Serialize (xh_to_vec h document)) (\<lambda>bytes. Inr (xh_sha256 h bytes))"

definition finalize_executable ::
    "experiment_host \<Rightarrow> executable_identity \<Rightarrow> experiment_error + executable_identity" where
  "finalize_executable h i =
     (let i = i\<lparr>xi_executable_id := '''',
                xi_native_modules := sort_key (\<lambda>m. (nm_name m, nm_sha256 m)) (xi_native_modules i)\<rparr>
      in rbind (canonical_sha256 h (executable_document i)) (\<lambda>x. Inr (i\<lparr>xi_executable_id := x\<rparr>)))"

section \<open>Validation\<close>

text \<open>
  \<open>char::is_control\<close> on UTF-8 bytes: the codes below 32, 127, and those from 128 to 159, whose
  encodings are the byte \<open>0xC2\<close> and the code.
\<close>

fun has_control :: "string \<Rightarrow> bool" where
  "has_control (a # b # s) \<longleftrightarrow> of_char a < (32 :: nat) \<or> of_char a = (127 :: nat)
     \<or> of_char a = (0xC2 :: nat) \<and> of_char b < (0xA0 :: nat) \<or> has_control (b # s)"
| "has_control [a] \<longleftrightarrow> of_char a < (32 :: nat) \<or> of_char a = (127 :: nat)"
| "has_control [] \<longleftrightarrow> False"

definition looks_absolute :: "experiment_host \<Rightarrow> string \<Rightarrow> bool" where
  "looks_absolute h value \<longleftrightarrow> xh_is_absolute h value \<or> prefix ''/'' value
     \<or> prefix [CHR 0x5C, CHR 0x5C] value
     \<or> 3 \<le> length value \<and> value ! 1 = CHR '':'' \<and> value ! 2 \<in> {CHR 0x5C, CHR ''/''}"

definition validate_value ::
    "experiment_host \<Rightarrow> string \<Rightarrow> string \<Rightarrow> nat \<Rightarrow> experiment_error + unit" where
  "validate_value h field value maximum_bytes =
     (if maximum_bytes < length value then Inl (ValueTooLong field)
      else if has_control value \<or> is_substring ''$env:'' (to_ascii_lowercase value)
          \<or> CHR ''%'' \<in> set value \<or> looks_absolute h value
        then Inl (UnsafeValue field) else Inr ())"

text \<open>The five optional values, under their names and in the order they are checked.\<close>

definition workload_values :: "workload_input \<Rightarrow> (string \<times> string option) list" where
  "workload_values i = [(''map'', wi_map i), (''seed'', wi_seed i),
     (''configuration_profile'', wi_configuration_profile i), (''scenario'', wi_scenario i),
     (''external_run_id'', wi_external_run_id i)]"

definition validate_optional ::
    "experiment_host \<Rightarrow> string \<times> string option \<Rightarrow> experiment_error + unit" where
  "validate_optional h f = (case snd f of None \<Rightarrow> Inr ()
     | Some value \<Rightarrow> validate_value h (fst f) value MAX_IDENTITY_VALUE_BYTES)"

fun validate_features ::
    "experiment_host \<Rightarrow> string list \<Rightarrow> string list \<Rightarrow> experiment_error + string list" where
  "validate_features h features [] = Inr features"
| "validate_features h features (value # values) =
     rbind (validate_value h ''feature_set'' value MAX_IDENTITY_VALUE_BYTES) (\<lambda>_.
     if value \<in> set features then Inl DuplicateFeature
     else validate_features h (insort_insert value features) values)"

definition key_byte :: "nat \<Rightarrow> char \<Rightarrow> bool" where
  "key_byte index byte \<longleftrightarrow> (of_char byte :: nat) \<in> {97..122}
     \<or> is_digit byte \<and> 0 < index \<or> byte = CHR ''_'' \<and> 0 < index"

definition valid_annotation_key :: "string \<Rightarrow> bool" where
  "valid_annotation_key key \<longleftrightarrow> key \<noteq> [] \<and> length key \<le> MAX_ANNOTATION_KEY_BYTES
     \<and> list_all (\<lambda>(index, byte). key_byte index byte) (List.enumerate 0 key)
     \<and> last key \<noteq> CHR ''_'' \<and> \<not> is_substring ''__'' key"

definition validate_annotation ::
    "experiment_host \<Rightarrow> string \<times> string \<Rightarrow> experiment_error + unit" where
  "validate_annotation h a =
     (if \<not> valid_annotation_key (fst a) then Inl InvalidAnnotationKey
      else validate_value h ''annotation value'' (snd a) MAX_ANNOTATION_VALUE_BYTES)"

definition validate_workload ::
    "experiment_host \<Rightarrow> workload_input \<Rightarrow> experiment_error + workload_input" where
  "validate_workload h i =
     rbind (rmap (validate_optional h) (workload_values i)) (\<lambda>_.
     rbind (require (length (wi_feature_set i) \<le> MAX_FEATURES) TooManyFeatures) (\<lambda>_.
     rbind (validate_features h [] (wi_feature_set i)) (\<lambda>features.
     rbind (require (length (wi_annotations i) \<le> MAX_ANNOTATIONS) TooManyAnnotations) (\<lambda>_.
     rbind (rmap (validate_annotation h) (wi_annotations i)) (\<lambda>_.
     Inr (i\<lparr>wi_feature_set := features\<rparr>))))))"

section \<open>Identities and binding\<close>

definition workload_identity_of ::
    "experiment_host \<Rightarrow> workload_input \<Rightarrow> experiment_error + experiment_workload" where
  "workload_identity_of h i =
     rbind (validate_workload h i) (\<lambda>i.
     rbind (canonical_sha256 h (workload_document i)) (\<lambda>workload_id.
     Inr \<lparr>ew_workload_id = workload_id, ew_input = i\<rparr>))"

fun merge_field :: "string option \<Rightarrow> string option \<Rightarrow> experiment_error + string option" where
  "merge_field (Some left) (Some right) = (if left \<noteq> right then Inl WorkloadConflict else Inr (Some left))"
| "merge_field (Some value) None = Inr (Some value)"
| "merge_field None (Some value) = Inr (Some value)"
| "merge_field None None = Inr None"

definition merge_vec :: "string list \<Rightarrow> string list \<Rightarrow> experiment_error + string list" where
  "merge_vec existing supplied =
     (if existing \<noteq> [] \<and> supplied \<noteq> [] \<and> existing \<noteq> supplied then Inl WorkloadConflict
      else Inr (if existing = [] then supplied else existing))"

fun merge_annotations ::
    "(string, string) btree_map \<Rightarrow> (string, string) btree_map
     \<Rightarrow> experiment_error + (string, string) btree_map" where
  "merge_annotations merged [] = Inr merged"
| "merge_annotations merged ((key, value) # supplied) =
     (case map_of merged key of
        Some current \<Rightarrow> if current \<noteq> value then Inl WorkloadConflict
          else merge_annotations (btree_insert key value merged) supplied
      | None \<Rightarrow> merge_annotations (btree_insert key value merged) supplied)"

definition bind_workload ::
    "experiment_host \<Rightarrow> workload_input \<Rightarrow> workload_input \<Rightarrow> experiment_error + experiment_workload" where
  "bind_workload h draft capture =
     rbind (validate_workload h draft) (\<lambda>d.
     rbind (validate_workload h capture) (\<lambda>c.
     rbind (merge_field (wi_map d) (wi_map c)) (\<lambda>map.
     rbind (merge_field (wi_seed d) (wi_seed c)) (\<lambda>seed.
     rbind (merge_field (wi_configuration_profile d) (wi_configuration_profile c)) (\<lambda>profile.
     rbind (merge_vec (wi_feature_set d) (wi_feature_set c)) (\<lambda>features.
     rbind (merge_field (wi_scenario d) (wi_scenario c)) (\<lambda>scenario.
     rbind (merge_field (wi_external_run_id d) (wi_external_run_id c)) (\<lambda>run.
     rbind (merge_annotations (wi_annotations d) (wi_annotations c)) (\<lambda>annotations.
     workload_identity_of h \<lparr>wi_map = map, wi_seed = seed, wi_configuration_profile = profile,
       wi_feature_set = features, wi_scenario = scenario, wi_external_run_id = run,
       wi_annotations = annotations\<rparr>)))))))))"

definition experiment_identity_of ::
    "experiment_host \<Rightarrow> executable_identity \<Rightarrow> experiment_workload
     \<Rightarrow> experiment_error + experiment_identity" where
  "experiment_identity_of h executable workload =
     rbind (canonical_sha256 h (JArr [JStr (xi_executable_id executable), JStr (ew_workload_id workload)]))
       (\<lambda>experiment_id. Inr \<lparr>ei_experiment_id = experiment_id, ei_executable = executable,
          ei_workload = workload\<rparr>)"

definition verify_locked_workload ::
    "experiment_host \<Rightarrow> experiment_workload \<Rightarrow> workload_input \<Rightarrow> experiment_error + unit" where
  "verify_locked_workload h locked supplied =
     rbind (validate_workload h supplied) (\<lambda>s.
     rbind (require (list_all (\<lambda>(actual, expected). actual = None \<or> actual = expected)
        (zip (map snd (workload_values s)) (map snd (workload_values (ew_input locked))))) WorkloadConflict) (\<lambda>_.
     rbind (require (wi_feature_set s = [] \<or> wi_feature_set s = wi_feature_set (ew_input locked))
        WorkloadConflict) (\<lambda>_.
     require (list_all (\<lambda>(key, value). map_of (wi_annotations (ew_input locked)) key = Some value)
        (wi_annotations s)) WorkloadConflict)))"


section \<open>Validated workloads\<close>

definition validated :: "experiment_host \<Rightarrow> workload_input \<Rightarrow> bool" where
  "validated h i \<longleftrightarrow> validate_workload h i = Inr i"

lemma validate_features_Inr:
  "btree_set features \<Longrightarrow> validate_features h features vs = Inr r \<longleftrightarrow>
     (\<forall>v \<in> set vs. validate_value h ''feature_set'' v MAX_IDENTITY_VALUE_BYTES = Inr ())
     \<and> distinct vs \<and> set vs \<inter> set features = {}
     \<and> r = sorted_list_of_set (set features \<union> set vs)"
proof (induction vs arbitrary: features)
  case Nil
  then have "sorted_list_of_set (set features) = features"
    by (simp add: btree_set_def sorted_distinct_set_unique)
  then show ?case by auto
next
  case (Cons v vs)
  have "set (insort_insert v features) = insert v (set features)" by (rule set_insort_insert)
  then show ?case
    using Cons.IH[of "insort_insert v features"] Cons.prems
    by (cases "validate_value h ''feature_set'' v MAX_IDENTITY_VALUE_BYTES") auto
qed

lemma sorted_features:
  assumes "validate_features h [] values = Inr r"
  shows "sorted r \<and> distinct r \<and> length r = length values \<and> validate_features h [] r = Inr r"
  using assms by (auto simp: validate_features_Inr distinct_card)

lemma validate_features_sorted:
  assumes "validate_features h [] values = Inr r" "sorted values"
  shows "r = values"
  using assms by (auto simp: validate_features_Inr sorted_list_of_set.idem_if_sorted_distinct)

lemma workload_values_features [simp]:
  "workload_values (i\<lparr>wi_feature_set := f\<rparr>) = workload_values i"
  by (simp add: workload_values_def)

lemma validate_workload_Inr:
  "validate_workload h i = Inr j \<longleftrightarrow>
     (\<exists>u. rmap (validate_optional h) (workload_values i) = Inr u) \<and> length (wi_feature_set i) \<le> MAX_FEATURES
     \<and> length (wi_annotations i) \<le> MAX_ANNOTATIONS \<and> (\<exists>u. rmap (validate_annotation h) (wi_annotations i) = Inr u)
     \<and> (\<exists>f. validate_features h [] (wi_feature_set i) = Inr f \<and> j = i\<lparr>wi_feature_set := f\<rparr>)"
  by (auto simp: validate_workload_def result_Inr)

lemma validate_workload_validated: "validate_workload h i = Inr j \<Longrightarrow> validated h j"
  by (auto simp: validated_def validate_workload_Inr dest: sorted_features)

lemma validate_workload_annotations: "validate_workload h i = Inr j \<Longrightarrow> wi_annotations j = wi_annotations i"
  by (auto simp: validate_workload_Inr)

lemma validated_features:
  assumes "validated h i"
  shows "sorted (wi_feature_set i)"
proof -
  obtain f where f: "validate_features h [] (wi_feature_set i) = Inr f" "i = i\<lparr>wi_feature_set := f\<rparr>"
    using assms by (auto simp: validated_def validate_workload_Inr)
  from arg_cong[OF f(2), of wi_feature_set] have "wi_feature_set i = f" by simp
  with f(1) show ?thesis by (auto dest: sorted_features)
qed

lemma validate_workload_sorted:
  assumes "validate_workload h i = Inr j" "sorted (wi_feature_set i)"
  shows "j = i"
  using assms by (auto simp: validate_workload_Inr dest!: validate_features_sorted)

section \<open>Merging\<close>

lemma merge_field_Inr:
  "merge_field a b = Inr c \<longleftrightarrow> (a = None \<or> b = None \<or> a = b) \<and> c = (if a = None then b else a)"
  by (cases a; cases b) auto

lemma merge_vec_Inr:
  "merge_vec a b = Inr c \<longleftrightarrow> (a = [] \<or> b = [] \<or> a = b) \<and> c = (if a = [] then b else a)"
  by (auto simp: merge_vec_def)

lemma merge_annotations_Inr:
  "btree m \<Longrightarrow> distinct (map fst s) \<Longrightarrow> merge_annotations m s = Inr r \<longleftrightarrow>
     (\<forall>k v. map_of s k = Some v \<longrightarrow> map_of m k \<in> {None, Some v}) \<and> btree r \<and> map_of r = map_of m ++ map_of s"
proof (induction m s rule: merge_annotations.induct)
  case (1 m)
  then show ?case using btree_eqI by auto
next
  case (2 m k v s)
  have k: "map_of s k = None" using "2.prems" by (simp add: map_of_eq_None_iff)
  let ?m = "btree_insert k v m"
  have step: "merge_annotations ?m s = Inr r \<longleftrightarrow>
      (\<forall>k' v'. map_of s k' = Some v' \<longrightarrow> map_of m k' \<in> {None, Some v'}) \<and> btree r
      \<and> map_of r = map_of m ++ map_of ((k, v) # s)" if "map_of m k \<in> {None, Some v}"
  proof -
    have "merge_annotations ?m s = Inr r \<longleftrightarrow>
      (\<forall>k' v'. map_of s k' = Some v' \<longrightarrow> map_of ?m k' \<in> {None, Some v'}) \<and> btree r
      \<and> map_of r = map_of ?m ++ map_of s"
      using that "2.IH" "2.prems" btree_btree_insert[OF "2.prems"(1), of k v]
      by (cases "map_of m k") (simp_all del: not_None_eq)
    moreover have "map_of ?m ++ map_of s = map_of m ++ map_of ((k, v) # s)"
      using k by (auto simp: map_of_btree_insert map_add_def fun_eq_iff split: option.splits)
    moreover have "map_of s k' = Some v' \<Longrightarrow> map_of ?m k' = map_of m k'" for k' v'
      using k by (auto simp: map_of_btree_insert)
    ultimately show ?thesis by auto
  qed
  show ?case
  proof (cases "map_of m k \<in> {None, Some v}")
    case True
    then have "merge_annotations m ((k, v) # s) = merge_annotations ?m s"
      by (cases "map_of m k") auto
    moreover have "(\<forall>k' v'. map_of ((k, v) # s) k' = Some v' \<longrightarrow> map_of m k' \<in> {None, Some v'}) \<longleftrightarrow>
        (\<forall>k' v'. map_of s k' = Some v' \<longrightarrow> map_of m k' \<in> {None, Some v'})"
      using True k by (metis map_of_Cons_code(2) option.distinct(1) option.inject)
    ultimately show ?thesis by (simp only: step[OF True])
  next
    case False
    then have "merge_annotations m ((k, v) # s) = Inl WorkloadConflict"
      by (cases "map_of m k") auto
    then show ?thesis using False by auto
  qed
qed

section \<open>Binding\<close>

definition absorbed :: "workload_input \<Rightarrow> workload_input \<Rightarrow> bool" where
  "absorbed s u \<longleftrightarrow>
     list_all (\<lambda>(actual, expected). actual = None \<or> actual = expected)
       (zip (map snd (workload_values s)) (map snd (workload_values u)))
     \<and> (wi_feature_set s = [] \<or> wi_feature_set s = wi_feature_set u)
     \<and> list_all (\<lambda>(key, value). map_of (wi_annotations u) key = Some value) (wi_annotations s)"

lemma absorbed_fields:
  "absorbed s u \<longleftrightarrow> (wi_map s = None \<or> wi_map s = wi_map u) \<and> (wi_seed s = None \<or> wi_seed s = wi_seed u)
     \<and> (wi_configuration_profile s = None \<or> wi_configuration_profile s = wi_configuration_profile u)
     \<and> (wi_scenario s = None \<or> wi_scenario s = wi_scenario u)
     \<and> (wi_external_run_id s = None \<or> wi_external_run_id s = wi_external_run_id u)
     \<and> (wi_feature_set s = [] \<or> wi_feature_set s = wi_feature_set u)
     \<and> list_all (\<lambda>(key, value). map_of (wi_annotations u) key = Some value) (wi_annotations s)"
  by (simp add: absorbed_def workload_values_def)

lemma verify_locked_Inr:
  "verify_locked_workload h w s = Inr () \<longleftrightarrow>
     (\<exists>s'. validate_workload h s = Inr s' \<and> absorbed s' (ew_input w))"
  by (auto simp: verify_locked_workload_def result_Inr absorbed_def)

lemma absorbed_annotations:
  assumes "btree (wi_annotations s)"
  shows "list_all (\<lambda>(k, v). f k = Some v) (wi_annotations s) \<longleftrightarrow>
    (\<forall>k v. map_of (wi_annotations s) k = Some v \<longrightarrow> f k = Some v)"
  using assms by (auto simp: list_all_iff btree_def)

lemma workload_eqI:
  assumes "wi_map a = wi_map b" "wi_seed a = wi_seed b"
    "wi_configuration_profile a = wi_configuration_profile b" "wi_feature_set a = wi_feature_set b"
    "wi_scenario a = wi_scenario b" "wi_external_run_id a = wi_external_run_id b"
    "wi_annotations a = wi_annotations b"
  shows "a = (b :: workload_input)"
  using assms by simp

text \<open>The merge of two workloads, as a relation.\<close>

definition merged_field :: "'a option \<Rightarrow> 'a option \<Rightarrow> 'a option \<Rightarrow> bool" where
  "merged_field a b c \<longleftrightarrow> (a = None \<or> b = None \<or> a = b) \<and> c = (if a = None then b else a)"

lemma merged_field_self: "merged_field u s u \<longleftrightarrow> s = None \<or> s = u"
  by (auto simp: merged_field_def)

lemma merged_field_absorbs:
  "merged_field d c m \<Longrightarrow> d = None \<or> d = m" "merged_field d c m \<Longrightarrow> c = None \<or> c = m"
  by (auto simp: merged_field_def split: if_splits)

definition merged :: "workload_input \<Rightarrow> workload_input \<Rightarrow> workload_input \<Rightarrow> bool" where
  "merged d c m \<longleftrightarrow> merged_field (wi_map d) (wi_map c) (wi_map m)
     \<and> merged_field (wi_seed d) (wi_seed c) (wi_seed m)
     \<and> merged_field (wi_configuration_profile d) (wi_configuration_profile c) (wi_configuration_profile m)
     \<and> merge_vec (wi_feature_set d) (wi_feature_set c) = Inr (wi_feature_set m)
     \<and> merged_field (wi_scenario d) (wi_scenario c) (wi_scenario m)
     \<and> merged_field (wi_external_run_id d) (wi_external_run_id c) (wi_external_run_id m)
     \<and> merge_annotations (wi_annotations d) (wi_annotations c) = Inr (wi_annotations m)"

lemma bind_workload_Inr:
  "bind_workload h draft capture = Inr w \<longleftrightarrow>
     (\<exists>d c m. validate_workload h draft = Inr d \<and> validate_workload h capture = Inr c
        \<and> merged d c m \<and> workload_identity_of h m = Inr w)"
proof
  assume "bind_workload h draft capture = Inr w"
  then obtain d c a1 a2 a3 a4 a5 a6 a7 where "validate_workload h draft = Inr d" "validate_workload h capture = Inr c"
    and "merged d c \<lparr>wi_map = a1, wi_seed = a2, wi_configuration_profile = a3,
       wi_feature_set = a4, wi_scenario = a5, wi_external_run_id = a6, wi_annotations = a7\<rparr>"
    and "workload_identity_of h \<lparr>wi_map = a1, wi_seed = a2, wi_configuration_profile = a3,
       wi_feature_set = a4, wi_scenario = a5, wi_external_run_id = a6, wi_annotations = a7\<rparr> = Inr w"
    unfolding bind_workload_def rbind_Inr merge_field_Inr merged_def merged_field_def by auto
  then show "\<exists>d c m. validate_workload h draft = Inr d \<and> validate_workload h capture = Inr c
        \<and> merged d c m \<and> workload_identity_of h m = Inr w" by blast
next
  assume "\<exists>d c m. validate_workload h draft = Inr d \<and> validate_workload h capture = Inr c
        \<and> merged d c m \<and> workload_identity_of h m = Inr w"
  then obtain d c m where run: "validate_workload h draft = Inr d" "validate_workload h capture = Inr c"
    "merged d c m" "workload_identity_of h m = Inr w" by blast
  have fields: "merge_field (wi_map d) (wi_map c) = Inr (wi_map m)"
    "merge_field (wi_seed d) (wi_seed c) = Inr (wi_seed m)"
    "merge_field (wi_configuration_profile d) (wi_configuration_profile c) = Inr (wi_configuration_profile m)"
    "merge_field (wi_scenario d) (wi_scenario c) = Inr (wi_scenario m)"
    "merge_field (wi_external_run_id d) (wi_external_run_id c) = Inr (wi_external_run_id m)"
    "merge_vec (wi_feature_set d) (wi_feature_set c) = Inr (wi_feature_set m)"
    "merge_annotations (wi_annotations d) (wi_annotations c) = Inr (wi_annotations m)"
    using run(3) by (simp_all only: merge_field_Inr merged_def merged_field_def simp_thms)
  have whole: "\<lparr>wi_map = wi_map m, wi_seed = wi_seed m, wi_configuration_profile = wi_configuration_profile m,
     wi_feature_set = wi_feature_set m, wi_scenario = wi_scenario m, wi_external_run_id = wi_external_run_id m,
     wi_annotations = wi_annotations m\<rparr> = m" by simp
  show "bind_workload h draft capture = Inr w"
    by (simp only: bind_workload_def run(1,2) fields rbind_simps whole run(4))
qed

lemma identity_of_sorted:
  assumes "workload_identity_of h m = Inr w" "sorted (wi_feature_set m)"
  shows "ew_input w = m"
  using assms by (auto simp: workload_identity_of_def result_Inr dest: validate_workload_sorted)

lemma identity_input_validated: "workload_identity_of h m = Inr w \<Longrightarrow> validated h (ew_input w)"
  by (auto simp: workload_identity_of_def result_Inr dest: validate_workload_validated)

lemma identity_of_input: "workload_identity_of h m = Inr w \<Longrightarrow> workload_identity_of h (ew_input w) = Inr w"
  by (auto simp: workload_identity_of_def result_Inr validated_def dest: validate_workload_validated)

lemma merged_features_sorted:
  "merged d c m \<Longrightarrow> validated h d \<Longrightarrow> validated h c \<Longrightarrow> sorted (wi_feature_set m)"
  by (auto simp: merged_def merge_vec_Inr dest: validated_features split: if_splits)

lemma merged_annotations:
  assumes "btree (wi_annotations d)" "btree (wi_annotations c)"
  shows "merge_annotations (wi_annotations d) (wi_annotations c) = Inr r \<longleftrightarrow>
     (\<forall>k v. map_of (wi_annotations c) k = Some v \<longrightarrow> map_of (wi_annotations d) k \<in> {None, Some v})
     \<and> btree r \<and> map_of r = map_of (wi_annotations d) ++ map_of (wi_annotations c)"
  using assms by (intro merge_annotations_Inr) (simp_all add: btree_def)

lemma merged_self:
  assumes "btree (wi_annotations u)" "btree (wi_annotations s)"
  shows "merged u s u \<longleftrightarrow> absorbed s u"
proof -
  have "(\<forall>k v. map_of (wi_annotations s) k = Some v \<longrightarrow> map_of (wi_annotations u) k \<in> {None, Some v})
     \<and> map_of (wi_annotations u) = map_of (wi_annotations u) ++ map_of (wi_annotations s) \<longleftrightarrow>
     (\<forall>k v. map_of (wi_annotations s) k = Some v \<longrightarrow> map_of (wi_annotations u) k = Some v)"
    (is "?a \<and> ?b \<longleftrightarrow> ?c")
  proof
    assume "?a \<and> ?b"
    then show ?c by (metis map_add_find_right)
  next
    assume ?c
    then have ?b by (auto simp: map_add_def fun_eq_iff split: option.splits)
    with \<open>?c\<close> show "?a \<and> ?b" by simp
  qed
  moreover have "merge_vec (wi_feature_set u) (wi_feature_set s) = Inr (wi_feature_set u) \<longleftrightarrow>
      wi_feature_set s = [] \<or> wi_feature_set s = wi_feature_set u"
    by (auto simp: merge_vec_Inr)
  ultimately show ?thesis
    unfolding merged_def absorbed_fields absorbed_annotations[OF assms(2)] merged_annotations[OF assms]
      merged_field_self using assms(1) by argo
qed

lemma merged_absorbs:
  assumes "btree (wi_annotations d)" "btree (wi_annotations c)" "merged d c m"
  shows "absorbed d m" "absorbed c m"
proof -
  have "map_of (wi_annotations m) = map_of (wi_annotations d) ++ map_of (wi_annotations c)"
    "\<And>k v. map_of (wi_annotations c) k = Some v \<Longrightarrow> map_of (wi_annotations d) k \<in> {None, Some v}"
    using assms(3) unfolding merged_def merged_annotations[OF assms(1,2)] by blast+
  then have "map_of (wi_annotations d) k = Some v \<Longrightarrow> map_of (wi_annotations m) k = Some v"
    "map_of (wi_annotations c) k = Some v \<Longrightarrow> map_of (wi_annotations m) k = Some v" for k v
    by (force simp: map_add_def split: option.splits)+
  moreover have "wi_feature_set d = [] \<or> wi_feature_set d = wi_feature_set m"
    "wi_feature_set c = [] \<or> wi_feature_set c = wi_feature_set m"
    using assms(3) by (auto simp: merged_def merge_vec_Inr)
  ultimately show "absorbed d m" "absorbed c m"
    using assms(3) unfolding absorbed_fields absorbed_annotations[OF assms(1)]
      absorbed_annotations[OF assms(2)] merged_def by (blast dest: merged_field_absorbs)+
qed

lemma absorbed_verifies:
  assumes "validate_workload h s = Inr s'" "absorbed s' (ew_input w)"
  shows "verify_locked_workload h w s = Inr ()"
  using assms by (auto simp: verify_locked_Inr)

text \<open>
  The workload that the first capture locks is a fixpoint of binding: a later capture passes
  \<open>verify_locked_workload\<close> exactly when binding it with the locked workload gives that workload
  back, with its identifier; and the workload drafted at the launch and that of the first capture
  both pass.
\<close>

lemma locked_workload_is_fixpoint:
  assumes "btree (wi_annotations draft)" "btree (wi_annotations first)" "btree (wi_annotations later)"
    and "bind_workload h draft first = Inr w"
  shows "(verify_locked_workload h w later = Inr () \<longleftrightarrow> bind_workload h (ew_input w) later = Inr w)
    \<and> verify_locked_workload h w draft = Inr () \<and> verify_locked_workload h w first = Inr ()"
proof -
  obtain d c m where valid: "validate_workload h draft = Inr d" "validate_workload h first = Inr c"
    and m: "merged d c m" "workload_identity_of h m = Inr w"
    using assms(4) by (auto simp: bind_workload_Inr)
  have bt: "btree (wi_annotations d)" "btree (wi_annotations c)"
    using valid assms(1,2) by (simp_all add: validate_workload_annotations)
  have w: "ew_input w = m"
    using m valid by (intro identity_of_sorted merged_features_sorted) (auto dest: validate_workload_validated)
  have m_ok: "validate_workload h m = Inr m" "btree (wi_annotations m)"
    using identity_input_validated[OF m(2)] m(1) bt
    by (auto simp: w validated_def merged_def merged_annotations)
  have "verify_locked_workload h w later = Inr () \<longleftrightarrow> bind_workload h m later = Inr w"
  proof
    assume "verify_locked_workload h w later = Inr ()"
    then obtain s where s: "validate_workload h later = Inr s" "absorbed s m"
      by (auto simp: verify_locked_Inr w)
    then have "merged m s m"
      using assms(3) m_ok(2) by (simp add: merged_self validate_workload_annotations)
    then show "bind_workload h m later = Inr w"
      using s(1) m_ok(1) m(2) by (auto simp: bind_workload_Inr)
  next
    assume "bind_workload h m later = Inr w"
    then obtain s m' where s: "validate_workload h later = Inr s" "merged m s m'"
      and m': "workload_identity_of h m' = Inr w"
      using m_ok(1) by (auto simp: bind_workload_Inr)
    have "sorted (wi_feature_set m')"
      using merged_features_sorted[OF s(2)] s(1) m_ok(1)
      by (simp add: validate_workload_validated validated_def[symmetric])
    then have "m' = m" using identity_of_sorted[OF m'] w by simp
    then show "verify_locked_workload h w later = Inr ()"
      using s assms(3) m_ok(2)
      by (intro absorbed_verifies) (simp_all add: w merged_self validate_workload_annotations)
  qed
  then show ?thesis
    using merged_absorbs[OF bt m(1)] valid by (auto simp: w intro!: absorbed_verifies)
qed

definition demo_experiment_host :: experiment_host where
  "demo_experiment_host = \<lparr>xh_to_vec = (\<lambda>j. Inr ''doc''), xh_sha256 = (\<lambda>s. s @ ''#''),
     xh_is_absolute = prefix ''/''\<rparr>"

definition demo_draft :: workload_input where
  "demo_draft = no_workload\<lparr>wi_map := Some ''box'', wi_feature_set := [''b'', ''a''],
     wi_annotations := [(''kind'', ''x'')]\<rparr>"

definition demo_first :: workload_input where
  "demo_first = no_workload\<lparr>wi_seed := Some ''7''\<rparr>"

definition demo_locked :: experiment_workload where
  "demo_locked = \<lparr>ew_workload_id = ''doc#'', ew_input = demo_draft\<lparr>wi_seed := Some ''7'',
     wi_feature_set := [''a'', ''b'']\<rparr>\<rparr>"

lemma demo_bound: "bind_workload demo_experiment_host demo_draft demo_first = Inr demo_locked"
  by code_simp

lemma locked_workload_is_fixpoint_witness:
  "verify_locked_workload demo_experiment_host demo_locked demo_draft = Inr ()
     \<and> verify_locked_workload demo_experiment_host demo_locked demo_first = Inr ()
     \<and> bind_workload demo_experiment_host (ew_input demo_locked) demo_first = Inr demo_locked"
proof -
  have bt: "btree (wi_annotations demo_draft)" "btree (wi_annotations demo_first)"
    by (simp_all add: demo_draft_def demo_first_def no_workload_def btree_def)
  show ?thesis using locked_workload_is_fixpoint[OF bt bt(2) demo_bound] by blast
qed

text \<open>Binding does not depend on which of the two workloads is the draft.\<close>

lemma merged_commute:
  assumes "btree (wi_annotations d)" "btree (wi_annotations c)" "merged d c m"
  shows "merged c d m"
proof -
  have ann: "\<And>k v. map_of (wi_annotations c) k = Some v \<Longrightarrow> map_of (wi_annotations d) k \<in> {None, Some v}"
    "btree (wi_annotations m)" "map_of (wi_annotations m) = map_of (wi_annotations d) ++ map_of (wi_annotations c)"
    using assms(3) unfolding merged_def merged_annotations[OF assms(1,2)] by blast+
  have sym: "map_of (wi_annotations d) k = Some v \<Longrightarrow> map_of (wi_annotations c) k \<in> {None, Some v}" for k v
    using ann(1)[of k] by (cases "map_of (wi_annotations c) k") auto
  have "map_of (wi_annotations d) ++ map_of (wi_annotations c)
      = map_of (wi_annotations c) ++ map_of (wi_annotations d)"
    using sym by (force simp: map_add_def fun_eq_iff split: option.splits)
  then have "merge_annotations (wi_annotations c) (wi_annotations d) = Inr (wi_annotations m)"
    using sym ann unfolding merged_annotations[OF assms(2,1)] by simp
  moreover have "merge_vec (wi_feature_set c) (wi_feature_set d) = Inr (wi_feature_set m)"
    using assms(3) by (auto simp: merged_def merge_vec_Inr split: if_splits)
  moreover have flip: "merged_field x y z \<Longrightarrow> merged_field y x z" for x y z :: "string option"
    by (auto simp: merged_field_def split: if_splits)
  ultimately show ?thesis
    unfolding merged_def using assms(3)[unfolded merged_def] by (elim conjE) (intro conjI; (rule flip)?; assumption)
qed

lemma binding_commutes:
  assumes "btree (wi_annotations d)" "btree (wi_annotations c)"
  shows "bind_workload h d c = Inr w \<longleftrightarrow> bind_workload h c d = Inr w"
proof -
  have "bind_workload h b a = Inr w"
    if bt: "btree (wi_annotations a)" "btree (wi_annotations b)" and run: "bind_workload h a b = Inr w" for a b
  proof -
    obtain a' b' m where m: "validate_workload h a = Inr a'" "validate_workload h b = Inr b'"
      "merged a' b' m" "workload_identity_of h m = Inr w"
      using run unfolding bind_workload_Inr by (elim exE conjE)
    have "btree (wi_annotations a')" "btree (wi_annotations b')"
      using bt m(1,2) by (simp_all add: validate_workload_annotations)
    then have "merged b' a' m" using m(3) by (rule merged_commute)
    with m show ?thesis unfolding bind_workload_Inr by (intro exI conjI)
  qed
  then show ?thesis using assms by blast
qed

section \<open>Identifiers\<close>

text \<open>The executable's identifier does not depend on the order its native modules are listed in.\<close>

lemma executable_id_of_modules:
  assumes "mset (xi_native_modules a) = mset (xi_native_modules b)"
    "b = a\<lparr>xi_native_modules := xi_native_modules b, xi_executable_id := x\<rparr>"
  shows "finalize_executable h a = finalize_executable h b"
proof -
  let ?key = "\<lambda>m :: native_module. (nm_name m, nm_sha256 m)"
  have "inj ?key" by (rule injI) simp
  then have "sort_key ?key (xi_native_modules a) = sort_key ?key (xi_native_modules b)"
    by (rule sort_key_mset[OF _ assms(1)])
  then show ?thesis
    by (subst assms(2)) (simp add: finalize_executable_def Let_def)
qed

text \<open>Documents are faithful: no two workloads have the same.\<close>

lemma json_opt_str_inj: "json_opt_str a = json_opt_str b \<longleftrightarrow> a = b"
  by (cases a; cases b) (auto simp: json_opt_str_def)

lemma workload_document_inj: "workload_document a = workload_document b \<longleftrightarrow> a = b"
proof
  assume eq: "workload_document a = workload_document b"
  have ann: "map (\<lambda>(k, v). (k, JStr v)) x = map (\<lambda>(k, v). (k, JStr v)) y \<Longrightarrow> x = y"
    for x y :: "(string \<times> string) list"
    by (rule injD[OF inj_mapI]) (auto intro!: injI)
  have features: "map JStr x = map JStr y \<Longrightarrow> x = y" for x y
    by (rule injD[OF inj_mapI]) (auto intro!: injI)
  show "a = b"
    using eq by (intro workload_eqI)
      (auto simp: workload_document_def workload_members_def json_opt_str_inj dest: ann features)
qed simp

lemma workload_id_names_workload:
  assumes "inj (xh_sha256 h)" "\<And>a b t. xh_to_vec h a = Inr t \<Longrightarrow> xh_to_vec h b = Inr t \<Longrightarrow> a = b"
    and "workload_identity_of h a = Inr x" "workload_identity_of h b = Inr y"
    and "ew_workload_id x = ew_workload_id y"
  shows "x = y"
proof -
  obtain i t where x: "xh_to_vec h (workload_document i) = Inr t" "x = \<lparr>ew_workload_id = xh_sha256 h t, ew_input = i\<rparr>"
    using assms(3) by (auto simp: workload_identity_of_def canonical_sha256_def result_Inr)
  obtain j u where y: "xh_to_vec h (workload_document j) = Inr u" "y = \<lparr>ew_workload_id = xh_sha256 h u, ew_input = j\<rparr>"
    using assms(4) by (auto simp: workload_identity_of_def canonical_sha256_def result_Inr)
  have "t = u" using assms(1,5) x y by (simp add: inj_eq)
  then have "i = j" using assms(2)[OF x(1), of "workload_document j"] y(1) by (simp add: workload_document_inj)
  then show ?thesis using x y \<open>t = u\<close> by simp
qed

end
