(* ===== verification/Spec2Isabelle.thy ===== *)
theory Spec2Isabelle
  imports Atomic_Output
    Btree
    Btree_Groups
    Build_Provenance
    Byte_Codec
    Collector_Transport
    Compile_Provenance
    Compile_Tool
    Debug_Connection
    Debugger_Tools
    Evidence_Reader
    Evidence_Redaction
    Evidence_Run
    Evidence_Timeline
    File_Identity
    Fixture_Manifest
    Integrity_Journal
    Json
    Launch_Gate
    Limits
    Output_Capture
    Output_Log
    Path_Policy
    Paths
    Prelude
    Prepared_Build
    Private_State
    Proc_Resolution
    Ranking
    Repository_Roots
    Runtime_Integrity
    Runtime_Tools
    Search_Documents
    Search_Index
    Search_Scan
    Semantic_Chunks
    Server_Config
    Server_State
    Source_Excerpt
    Source_Fingerprint
    Text_Lines
    Text_Ops
    Tool_Arguments
    Tool_Contracts
    Tool_Definitions
    Tool_Gate
    Tool_Gate_Props
    Tool_Result
    Topic_Packet
    Tracy_Experiment
    Tracy_Protocol
    Workspace_Integrity
begin

text \<open>
  This development verifies the server core of \<open>meridian-mcp\<close>: a Model Context Protocol server
  that gives a coding agent contained access to BYOND/DreamMaker projects (analysis of the
  sources, compiling, running and debugging games, profiling them with Tracy).

  \<^bold>\<open>How the program is put together.\<close>  At startup \<open>src/config.rs\<close> reads the mode and the workspace
  roots, \<open>src/repository_roots.rs\<close> expands them by linked worktrees and \<open>src/path_policy.rs\<close>
  fixes what may be read, written and executed.  A request reaches \<open>src/server.rs\<close>, passes the
  gate of \<open>src/tools/mod.rs\<close> (advertised tools, contracts of \<open>src/contracts.rs\<close>, containment of
  path arguments) and is dispatched to a tool.  Tools share the state of \<open>src/state.rs\<close>: the
  published analysis, the running game and its output, the debugger session, the Tracy captures.
  Files are written through \<open>src/atomic_output.rs\<close>; development runs keep an integrity journal
  (\<open>src/workspace_integrity.rs\<close>) and build provenance (\<open>src/build_provenance.rs\<close>).  Helper
  processes speak framed protocols (\<open>src/tracy_protocol.rs\<close>, \<open>src/tracy_collector.rs\<close>,
  \<open>src/spaceman/debugger.rs\<close>).

  \<^bold>\<open>Which theory models what.\<close>
  \<^item> \<open>Prelude\<close>, \<open>Btree\<close>, \<open>Btree_Groups\<close>, \<open>Text_Ops\<close>, \<open>Text_Lines\<close>, \<open>Byte_Codec\<close>, \<open>Json\<close>, \<open>Paths\<close>,
    \<open>Ranking\<close>: machine integers, results, Rust's strings, ordered maps, JSON values, paths,
    sorting; the locales \<open>bounded_tail\<close>, \<open>insert_map\<close> and \<open>ranking\<close>.
  \<^item> \<open>Repository_Roots\<close>, \<open>Path_Policy\<close> (locales \<open>authorizer\<close>, \<open>resolver\<close>), \<open>Server_Config\<close>: startup.
  \<^item> \<open>Tool_Contracts\<close>, \<open>Tool_Definitions\<close>, \<open>Tool_Result\<close>, \<open>Tool_Arguments\<close>, \<open>Tool_Gate\<close>,
    \<open>Tool_Gate_Props\<close>: what is offered, checked and answered.
  \<^item> \<open>Server_State\<close>, \<open>Output_Log\<close>, \<open>Limits\<close>, \<open>Source_Fingerprint\<close>: the shared state.
  \<^item> \<open>Atomic_Output\<close>, \<open>Workspace_Integrity\<close>, \<open>Integrity_Journal\<close>, \<open>File_Identity\<close>: files, snapshots,
    checkpoints and the session journal, whose refinement rests on \<open>canonicalize\<close> resolving
    nothing but symbolic links.
  \<^item> \<open>Tracy_Protocol\<close>, \<open>Collector_Transport\<close>, \<open>Debug_Connection\<close>, \<open>Debugger_Tools\<close>: helper processes.
  \<^item> \<open>Source_Excerpt\<close>, \<open>Semantic_Chunks\<close>, \<open>Proc_Resolution\<close>, \<open>Search_Index\<close>, \<open>Search_Scan\<close>,
    \<open>Search_Documents\<close>: source excerpts, chunks, procedure resolution and lexical search.
  \<^item> \<open>Fixture_Manifest\<close>, \<open>Build_Provenance\<close>, \<open>Launch_Gate\<close>, \<open>Prepared_Build\<close>, \<open>Compile_Provenance\<close>,
    \<open>Compile_Tool\<close>: fixture manifests, build records and attempts, the gate in front of every
    launch, the include closure behind a build, and the compile tool that writes them; from a clean
    compilation to the launch and from a verified launch back to the sources.
  \<^item> \<open>Runtime_Integrity\<close>: the integrity sessions of running games and their recovery after a crash;
    what a finalization of any created and observed session reports, what
    is lost at the event limit, which records recovery may touch.
  \<^item> \<open>Private_State\<close>: the private store on the disk of \<open>Atomic_Output\<close>: no fault loses a record,
    records round trip, the size limit, and the enumeration of a namespace.
  \<^item> \<open>Output_Capture\<close>, \<open>Topic_Packet\<close>, \<open>Runtime_Tools\<close>: the readers of a game's output, the packets of
    topic calls, and the tools that launch, watch and stop a game over the runtime state, the
    integrity session and the launch gate; what a stop reports, the command a launch has run, and the
    session that a profiled launch inherits from the game before it.
  \<^item> \<open>Evidence_Redaction\<close>, \<open>Evidence_Timeline\<close>, \<open>Evidence_Reader\<close>, \<open>Evidence_Run\<close>: the native evidence
    of test runs.  Redaction leaves no protected value in text (and lets a protected number
    through); phases never compete for a request; what the readers of the CSV and JSON files keep
    and lose; numeric summaries that depend only on the multiset of the samples, and comparisons
    that are made between runs of one verified build.
  \<^item> \<open>Tracy_Experiment\<close>: the identity of a profiling experiment, of \<open>src/tracy_experiment.rs\<close>; the
    workload the first capture locks is a fixpoint of binding, so that a later capture passes
    exactly when binding it changes nothing, and binding does not depend on the order.

  \<^bold>\<open>How code is translated.\<close>  A struct is a record with a two-letter prefix on its fields, an enum
  a datatype, \<open>Result\<close> a sum with the error on the left, \<open>u32\<close> and \<open>u64\<close> words, \<open>usize\<close> a natural
  number, a string the list of its bytes.  \<open>BTreeMap\<close> and \<open>BTreeSet\<close> are sorted lists; the
  iteration order of a \<open>HashMap\<close> is taken to be the key order where no result depends on it.
  The operating system, the network, SHA-256, \<open>serde\<close> codecs of foreign types, the vendored
  parser and the helpers are parameters: records of functions that stand for their answers.
  Code that awaits is a function of the events that arrive.

  \<^bold>\<open>What the lemmas show.\<close>  Each component has the functional behaviour of its operations on every
  branch, the invariant of its state where it has one, and the contract its clients rely on; the
  properties (numbered \<open>C1\<close>, \<open>C2\<close> and so on where they stand) span containment of paths, the gate,
  atomicity of files, consistency of the shared state, framing of the protocols, exactness of
  search, resolution and integrity comparison, and several defects of the code, stated as
  theorems about what it does.

  \<^bold>\<open>Bounds and fuel.\<close>  A path follows at most forty symbolic links, as on Linux; temporary names
  are tried thirty-two times (\<open>RANDOM_NAME_ATTEMPTS\<close>); the loops that wait for responses and events
  carry as fuel the number of events that can still arrive, and the theorems about them show
  that this fuel is enough.  Loops nothing bounds are partial functions (\<open>await_termination\<close>,
  \<open>walk_parents\<close>), whose returning is a theorem of its own.

  \<^bold>\<open>Not modelled.\<close>  The vendored SpacemanDMM parser and the projections of its syntax trees
  (\<open>src/tools/parse.rs\<close>, \<open>src/spaceman/language.rs\<close>), image decoding and rendering, the spawning and
  killing of processes, Windows and Linux specific probes, the C++ helper, tests and scripts: they
  are third-party code, operating-system calls or JSON projections without state of their own.
  The Tracy tools, the map and icon tools and the argument parsing of the search tools are left
  out; the Tracy protocol, transport, capture state and experiment identities they stand on are modelled.
\<close>

end
